(* ===== verification/Prelude.thy ===== *)
theory Prelude
  imports Main "HOL-Library.Code_Target_Nat"
begin

text \<open>
  Shared ground of the development: the exceptions the program raises as values of one
  datatype, the result type and its combinators, Python text operations on UTF-8 strings,
  decimal printing, and the generic list lemmas behind the SQLite tables (a table is a list
  of rows in rowid order; \<open>UPDATE ... WHERE\<close> is \<open>upd_where\<close>, \<open>SELECT ... fetchone()\<close> is
  \<open>find\<close>).

  A Python \<open>str\<close> is represented by its UTF-8 bytes (a \<open>char list\<close>), so that
  \<open>len(value.encode("utf-8"))\<close> is \<open>length\<close>; where the source looks at characters
  (\<open>strip\<close>, \<open>isdigit\<close>, \<open>len(text)\<close>) the bytes are decoded by \<open>codepoints\<close>.
  Strings with lone surrogates have no UTF-8 form and are outside the model.
\<close>

named_theorems res_simps \<open>simplification of results\<close>
named_theorems table_simps \<open>simplification of table operations\<close>

section \<open>Exceptions and results\<close>

datatype error =
    ValueError string
  | TypeError string
  | KeyError string
  | AttributeError string
  | RuntimeError string
  | AuthorizationError string
  | AuthorityReadError string
  | PlanValidationError string
  | ProtocolDecodeError string
  | NetworkProtocolError string
  | PeerIdentityError string
  | ReplayError string
  | DeliveryAcknowledgementError string
  | OutboxFullError string
  | InboxConflictError string
  | IntegrityError string
  | InspectorStoreError string
  | CredentialError string
  | TaskAuthorizationError string
  | NativeError string

text \<open>
  \<open>ProtocolDecodeError\<close>, \<open>PlanValidationError\<close>, \<open>NetworkProtocolError\<close> and its
  subclasses derive from \<open>ValueError\<close> in the source; \<open>IntegrityError\<close> is
  \<open>sqlite3.IntegrityError\<close>; \<open>NativeError\<close> is any exception of manufacturer code.
\<close>

type_synonym 'a res = "error + 'a"

definition rbind :: "'a res \<Rightarrow> ('a \<Rightarrow> 'b res) \<Rightarrow> 'b res" where
  "rbind r f = (case r of Inl e \<Rightarrow> Inl e | Inr x \<Rightarrow> f x)"

definition require :: "bool \<Rightarrow> error \<Rightarrow> unit res" where
  "require b e = (if b then Inr () else Inl e)"

fun rmap :: "('a \<Rightarrow> 'b res) \<Rightarrow> 'a list \<Rightarrow> 'b list res" where
  "rmap f [] = Inr []"
| "rmap f (x # xs) = rbind (f x) (\<lambda>y. rbind (rmap f xs) (\<lambda>ys. Inr (y # ys)))"

fun rforall :: "('a \<Rightarrow> unit res) \<Rightarrow> 'a list \<Rightarrow> unit res" where
  "rforall f [] = Inr ()"
| "rforall f (x # xs) = rbind (f x) (\<lambda>_. rforall f xs)"

definition is_ok :: "'a res \<Rightarrow> bool" where
  "is_ok r = (case r of Inl _ \<Rightarrow> False | Inr _ \<Rightarrow> True)"

lemma rbind_simps [simp]: "rbind (Inl e) f = Inl e" "rbind (Inr x) f = f x"
  by (simp_all add: rbind_def)

lemma rbind_Inr_iff [res_simps]:
  "rbind r f = Inr y \<longleftrightarrow> (\<exists>x. r = Inr x \<and> f x = Inr y)"
  by (cases r) simp_all

lemma rbind_Inl_iff [res_simps]:
  "rbind r f = Inl e \<longleftrightarrow> r = Inl e \<or> (\<exists>x. r = Inr x \<and> f x = Inl e)"
  by (cases r) simp_all

lemma require_Inr_iff [res_simps]: "require b e = Inr u \<longleftrightarrow> b"
  by (simp add: require_def)

lemma require_Inl_iff [res_simps]: "require b e = Inl e' \<longleftrightarrow> \<not> b \<and> e' = e"
  by (auto simp: require_def)

lemma require_simps [simp]: "require True e = Inr ()" "require False e = Inl e"
  by (simp_all add: require_def)

lemma is_ok_simps [simp]: "is_ok (Inl e) = False" "is_ok (Inr x) = True"
  by (simp_all add: is_ok_def)

lemma is_ok_iff [res_simps]: "is_ok r \<longleftrightarrow> (\<exists>x. r = Inr x)"
  by (cases r) simp_all

lemma rforall_Inr_iff [res_simps]: "rforall f xs = Inr u \<longleftrightarrow> (\<forall>x\<in>set xs. f x = Inr ())"
  by (induction xs) (auto simp: res_simps)

lemma rmap_Inr_iff [res_simps]: "rmap f xs = Inr ys \<longleftrightarrow> list_all2 (\<lambda>x y. f x = Inr y) xs ys"
  by (induction xs arbitrary: ys) (auto simp: res_simps list_all2_Cons1)

lemma rmap_map_inverse: "(\<And>x. x \<in> set xs \<Longrightarrow> f (g x) = Inr x) \<Longrightarrow> rmap f (map g xs) = Inr xs"
  by (induction xs) simp_all

lemma rforall_all_ok: "(\<And>x. x \<in> set xs \<Longrightarrow> f x = Inr ()) \<Longrightarrow> rforall f xs = Inr ()"
  by (simp add: res_simps)

section \<open>Python text\<close>

fun decode_bytes :: "nat list \<Rightarrow> nat list" where
  "decode_bytes [] = []"
| "decode_bytes (b # bs) =
     (if b < 128 then b # decode_bytes bs
      else if b < 224 then
        (case bs of c # r \<Rightarrow> ((b mod 32) * 64 + c mod 64) # decode_bytes r | _ \<Rightarrow> [b])
      else if b < 240 then
        (case bs of c # d # r \<Rightarrow>
           ((b mod 16) * 4096 + (c mod 64) * 64 + d mod 64) # decode_bytes r | _ \<Rightarrow> [b])
      else
        (case bs of c # d # e # r \<Rightarrow>
           ((b mod 8) * 262144 + (c mod 64) * 4096 + (d mod 64) * 64 + e mod 64) # decode_bytes r
         | _ \<Rightarrow> [b]))"

definition codepoints :: "string \<Rightarrow> nat list" where
  "codepoints s = decode_bytes (map of_char s)"

definition in_ranges :: "(nat \<times> nat) list \<Rightarrow> nat \<Rightarrow> bool" where
  "in_ranges rs n = list_ex (\<lambda>(a, b). a \<le> n \<and> n \<le> b) rs"

text \<open>The code points with \<open>str.isspace\<close> and \<open>str.isdigit\<close>, Unicode 14 (Python 3.11).\<close>

definition space_ranges :: "(nat \<times> nat) list" where
  "space_ranges = [
    (9, 13), (28, 32), (133, 133), (160, 160), (5760, 5760), (8192, 8202), (8232, 8233),
    (8239, 8239), (8287, 8287), (12288, 12288)]"

definition digit_ranges :: "(nat \<times> nat) list" where
  "digit_ranges = [
    (48, 57), (178, 179), (185, 185), (1632, 1641), (1776, 1785), (1984, 1993), (2406, 2415),
    (2534, 2543), (2662, 2671), (2790, 2799), (2918, 2927), (3046, 3055), (3174, 3183),
    (3302, 3311), (3430, 3439), (3558, 3567), (3664, 3673), (3792, 3801), (3872, 3881),
    (4160, 4169), (4240, 4249), (4969, 4977), (6112, 6121), (6160, 6169), (6470, 6479),
    (6608, 6618), (6784, 6793), (6800, 6809), (6992, 7001), (7088, 7097), (7232, 7241),
    (7248, 7257), (8304, 8304), (8308, 8313), (8320, 8329), (9312, 9320), (9332, 9340),
    (9352, 9360), (9450, 9450), (9461, 9469), (9471, 9471), (10102, 10110), (10112, 10120),
    (10122, 10130), (42528, 42537), (43216, 43225), (43264, 43273), (43472, 43481),
    (43504, 43513), (43600, 43609), (44016, 44025), (65296, 65305), (66720, 66729),
    (68160, 68163), (68912, 68921), (69216, 69224), (69714, 69722), (69734, 69743),
    (69872, 69881), (69942, 69951), (70096, 70105), (70384, 70393), (70736, 70745),
    (70864, 70873), (71248, 71257), (71360, 71369), (71472, 71481), (71904, 71913),
    (72016, 72025), (72784, 72793), (73040, 73049), (73120, 73129), (92768, 92777),
    (92864, 92873), (93008, 93017), (120782, 120831), (123200, 123209), (123632, 123641),
    (125264, 125273), (127232, 127242), (130032, 130041)]"

text \<open>\<open>not value.strip()\<close>: every character is white space.\<close>

definition py_blank :: "string \<Rightarrow> bool" where
  "py_blank s = list_all (in_ranges space_ranges) (codepoints s)"

definition py_isdigit :: "string \<Rightarrow> bool" where
  "py_isdigit s = (s \<noteq> [] \<and> list_all (in_ranges digit_ranges) (codepoints s))"

definition py_len :: "string \<Rightarrow> nat" where
  "py_len s = length (codepoints s)"

lemma py_blank_Nil [simp]: "py_blank []"
  by (simp add: py_blank_def codepoints_def)

lemma not_blank_nonempty: "\<not> py_blank s \<Longrightarrow> s \<noteq> []"
  by auto

text \<open>\<open>s.partition(sep)\<close> and \<open>s.rpartition(sep)\<close> for a non-empty separator: split at the first
  and at the last occurrence; the middle is empty when the separator does not occur.\<close>

fun py_partition :: "string \<Rightarrow> string \<Rightarrow> (string \<times> string \<times> string)" where
  "py_partition sep [] = ([], [], [])"
| "py_partition sep (c # cs) =
     (if take (length sep) (c # cs) = sep then ([], sep, drop (length sep) (c # cs))
      else (case py_partition sep cs of (a, m, b) \<Rightarrow> (c # a, m, b)))"

definition py_rpartition :: "string \<Rightarrow> string \<Rightarrow> (string \<times> string \<times> string)" where
  "py_rpartition sep s =
     (case py_partition (rev sep) (rev s) of
        (a, m, b) \<Rightarrow> if m = [] then ([], [], s) else (rev b, sep, rev a))"

section \<open>Decimal printing\<close>

definition digit_char :: "nat \<Rightarrow> char" where
  "digit_char d = char_of (48 + d)"

fun show_nat :: "nat \<Rightarrow> string" where
  "show_nat n = (if n < 10 then [digit_char n] else show_nat (n div 10) @ [digit_char (n mod 10)])"

declare show_nat.simps [simp del]

definition show_int :: "int \<Rightarrow> string" where
  "show_int i = (if i < 0 then CHR ''-'' # show_nat (nat (- i)) else show_nat (nat i))"

section \<open>Tables as lists of rows\<close>

definition upd_where :: "('r \<Rightarrow> bool) \<Rightarrow> ('r \<Rightarrow> 'r) \<Rightarrow> 'r list \<Rightarrow> 'r list" where
  "upd_where P f rows = map (\<lambda>r. if P r then f r else r) rows"

lemma length_upd_where [table_simps, simp]: "length (upd_where P f rows) = length rows"
  by (simp add: upd_where_def)

lemma upd_where_Nil [simp]: "upd_where P f [] = []"
  by (simp add: upd_where_def)

lemma set_upd_where [table_simps]:
  "set (upd_where P f rows) = (\<lambda>r. if P r then f r else r) ` set rows"
  by (simp add: upd_where_def)

lemma map_upd_where [table_simps]:
  assumes "\<And>r. g (f r) = g r"
  shows "map g (upd_where P f rows) = map g rows"
  using assms by (simp add: upd_where_def)

lemma upd_where_none: "(\<And>r. r \<in> set rows \<Longrightarrow> \<not> P r) \<Longrightarrow> upd_where P f rows = rows"
  by (simp add: upd_where_def map_idI)

lemma find_upd_where:
  assumes "\<And>r. key (f r) = key r"
  shows "find (\<lambda>r. key r = k) (upd_where P f rows) =
         map_option (\<lambda>r. if P r then f r else r) (find (\<lambda>r. key r = k) rows)"
  using assms by (induction rows) (auto simp: upd_where_def)

lemma find_key_unique:
  assumes "distinct (map key rows)" and "r \<in> set rows"
  shows "find (\<lambda>x. key x = key r) rows = Some r"
  using assms by (induction rows) force+

lemma find_key_SomeD: "find (\<lambda>r. key r = k) rows = Some r \<Longrightarrow> r \<in> set rows \<and> key r = k"
  by (auto simp: find_Some_iff)

lemma find_key_append:
  "find P (rows @ rows') = (case find P rows of None \<Rightarrow> find P rows' | Some r \<Rightarrow> Some r)"
  by (induction rows) auto

lemma find_key_None_iff: "find (\<lambda>r. key r = k) rows = None \<longleftrightarrow> k \<notin> key ` set rows"
  by (auto simp: find_None_iff)


lemma find_filter_key:
  assumes "distinct (map key rows)"
  shows "find (\<lambda>r. key r = k) (filter Q rows) =
         (case find (\<lambda>r. key r = k) rows of None \<Rightarrow> None | Some r \<Rightarrow> if Q r then Some r else None)"
proof -
  have none: "find (\<lambda>r. key r = key x) xs = None" if "key x \<notin> key ` set xs" for x xs
    using that by (simp add: find_key_None_iff)
  show ?thesis using assms by (induction rows) (auto simp: none)
qed

lemma find_map_key: "find (\<lambda>r. key r = k) (map f xs) = map_option f (find (\<lambda>x. key (f x) = k) xs)"
  by (induction xs) auto

lemma find_eq: "find (\<lambda>y. y = x) xs = (if x \<in> set xs then Some x else None)"
  by (induction xs) auto

text \<open>\<open>AUTOINCREMENT\<close>: the largest number used bounds all of them.\<close>

lemma fold_max_ge: "(x :: int) \<in> set xs \<or> x \<le> m \<Longrightarrow> x \<le> fold max xs m"
  unfolding Max.set_eq_fold[symmetric] by (auto simp: Max_ge_iff)

end
