(* ===== verification/Json.thy ===== *)
theory Json
  imports Prelude "HOL-Library.List_Lexorder" "HOL-Library.Char_ord" "HOL-Library.Multiset"
begin

text \<open>
  JSON values, as \<open>json.dumps\<close> and \<open>json.loads\<close> of the Python standard library handle them
  for this program: canonical printing (\<open>ensure_ascii=False\<close>, \<open>separators=(",", ":")\<close>,
  \<open>sort_keys=True\<close>) and parsing. An object is an association list in insertion order. A float
  is carried by its literal text (\<open>JFloat\<close>), which printing and parsing keep as it is; its
  value is read by \<open>num_value\<close>. The parser takes fuel, one unit per call, and
  \<open>json_loads\<close> gives it the length of the input plus one.
\<close>

section \<open>Values\<close>

datatype json =
    JNull
  | JBool bool
  | JInt int
  | JFloat string
  | JStr string
  | JArr "json list"
  | JObj "(string \<times> json) list"

text \<open>Python dictionary operations on association lists.\<close>

fun dict_set :: "string \<Rightarrow> json \<Rightarrow> (string \<times> json) list \<Rightarrow> (string \<times> json) list" where
  "dict_set k v [] = [(k, v)]"
| "dict_set k v ((k', v') # kvs) =
     (if k' = k then (k, v) # kvs else (k', v') # dict_set k v kvs)"

definition dict_of :: "(string \<times> json) list \<Rightarrow> (string \<times> json) list" where
  "dict_of kvs = fold (\<lambda>(k, v) d. dict_set k v d) kvs []"

lemma map_of_dict_set [simp]: "map_of (dict_set k v kvs) = (map_of kvs)(k \<mapsto> v)"
  by (induction kvs) (auto simp: fun_eq_iff)

lemma fst_dict_set: "fst ` set (dict_set k v kvs) = insert k (fst ` set kvs)"
proof (induction kvs)
  case (Cons kv kvs)
  then show ?case by (cases kv) (simp add: insert_commute)
qed simp

lemma distinct_dict_set:
  "distinct (map fst kvs) \<Longrightarrow> distinct (map fst (dict_set k v kvs))"
proof (induction kvs)
  case (Cons kv kvs)
  then show ?case by (cases kv) (auto simp: fst_dict_set simp del: image_set)
qed simp

lemma dict_set_new: "k \<notin> fst ` set kvs \<Longrightarrow> dict_set k v kvs = kvs @ [(k, v)]"
  by (induction kvs) auto

lemma fold_dict_set_distinct:
  "distinct (map fst kvs) \<Longrightarrow> fst ` set kvs \<inter> fst ` set d = {} \<Longrightarrow>
   fold (\<lambda>(k, v) d. dict_set k v d) kvs d = d @ kvs"
proof (induction kvs arbitrary: d)
  case (Cons kv kvs)
  obtain k v where kv: "kv = (k, v)" by (cases kv)
  have new: "dict_set k v d = d @ [(k, v)]"
    using Cons.prems kv by (intro dict_set_new) auto
  have "fst ` set kvs \<inter> fst ` set (d @ [(k, v)]) = {}"
    using Cons.prems kv by auto
  then show ?case using Cons.IH[of "d @ [(k, v)]"] Cons.prems kv new by simp
qed simp

lemma dict_of_distinct [simp]: "distinct (map fst kvs) \<Longrightarrow> dict_of kvs = kvs"
  using fold_dict_set_distinct[of kvs "[]"] by (simp add: dict_of_def)

section \<open>Canonical form and printing\<close>

text \<open>\<open>sort_keys=True\<close>: keys in code point order, which is the order of their UTF-8 bytes.\<close>

fun canon :: "json \<Rightarrow> json" where
  "canon (JArr vs) = JArr (map canon vs)"
| "canon (JObj kvs) = JObj (sort_key fst (map (\<lambda>(k, v). (k, canon v)) kvs))"
| "canon v = v"

definition hex_char :: "nat \<Rightarrow> char" where
  "hex_char d = char_of (if d < 10 then 48 + d else 87 + d)"

text \<open>The escapes of \<open>json.encoder.ESCAPE_DCT\<close>.\<close>

definition escape_char :: "char \<Rightarrow> string" where
  "escape_char c =
     (if c = CHR 0x22 then [CHR 0x5C, CHR 0x22]
      else if c = CHR 0x5C then [CHR 0x5C, CHR 0x5C]
      else if c = CHR 0x0A then [CHR 0x5C, CHR ''n'']
      else if c = CHR 0x0D then [CHR 0x5C, CHR ''r'']
      else if c = CHR 0x09 then [CHR 0x5C, CHR ''t'']
      else if c = CHR 0x0C then [CHR 0x5C, CHR ''f'']
      else if c = CHR 0x08 then [CHR 0x5C, CHR ''b'']
      else if (of_char c :: nat) < 32 then
        [CHR 0x5C, CHR ''u'', CHR ''0'', CHR ''0'',
         hex_char (of_char c div 16), hex_char (of_char c mod 16)]
      else [c])"

definition print_string :: "string \<Rightarrow> string" where
  "print_string s = CHR 0x22 # concat (map escape_char s) @ [CHR 0x22]"

fun commas :: "string list \<Rightarrow> string" where
  "commas [] = []"
| "commas [x] = x"
| "commas (x # xs) = x @ CHR '','' # commas xs"

fun print_json :: "json \<Rightarrow> string" where
  "print_json JNull = ''null''"
| "print_json (JBool b) = (if b then ''true'' else ''false'')"
| "print_json (JInt i) = show_int i"
| "print_json (JFloat t) = t"
| "print_json (JStr s) = print_string s"
| "print_json (JArr vs) = CHR ''['' # commas (map print_json vs) @ '']''"
| "print_json (JObj kvs) =
     CHR ''{'' # commas (map (\<lambda>(k, v). print_string k @ CHR '':'' # print_json v) kvs) @ ''}''"

definition json_dumps :: "json \<Rightarrow> string" where
  "json_dumps v = print_json (canon v)"

section \<open>Parsing\<close>

fun skip_ws :: "string \<Rightarrow> string" where
  "skip_ws [] = []"
| "skip_ws (c # cs) =
     (if c = CHR '' '' \<or> c = CHR 0x09 \<or> c = CHR 0x0A \<or> c = CHR 0x0D then skip_ws cs else c # cs)"

definition is_digit :: "char \<Rightarrow> bool" where
  "is_digit c = (48 \<le> (of_char c :: nat) \<and> (of_char c :: nat) \<le> 57)"

definition hex_value :: "char \<Rightarrow> nat option" where
  "hex_value c = (let n = of_char c in
     if 48 \<le> n \<and> n \<le> 57 then Some (n - 48)
     else if 97 \<le> n \<and> n \<le> 102 then Some (n - 87)
     else if 65 \<le> n \<and> n \<le> 70 then Some (n - 55)
     else None)"

definition hex4 :: "char \<Rightarrow> char \<Rightarrow> char \<Rightarrow> char \<Rightarrow> nat option" where
  "hex4 a b c d =
     (case (hex_value a, hex_value b, hex_value c, hex_value d) of
        (Some w, Some x, Some y, Some z) \<Rightarrow> Some (((w * 16 + x) * 16 + y) * 16 + z)
      | _ \<Rightarrow> None)"

definition utf8_encode :: "nat \<Rightarrow> string" where
  "utf8_encode n = map char_of
     (if n < 128 then [n]
      else if n < 2048 then [192 + n div 64, 128 + n mod 64]
      else if n < 65536 then [224 + n div 4096, 128 + n div 64 mod 64, 128 + n mod 64]
      else [240 + n div 262144, 128 + n div 4096 mod 64, 128 + n div 64 mod 64, 128 + n mod 64])"

definition escape_value :: "char \<Rightarrow> char option" where
  "escape_value c =
     (if c = CHR 0x22 then Some (CHR 0x22) else if c = CHR 0x5C then Some (CHR 0x5C)
      else if c = CHR ''/'' then Some (CHR ''/'') else if c = CHR ''b'' then Some (CHR 0x08)
      else if c = CHR ''f'' then Some (CHR 0x0C) else if c = CHR ''n'' then Some (CHR 0x0A)
      else if c = CHR ''r'' then Some (CHR 0x0D) else if c = CHR ''t'' then Some (CHR 0x09)
      else None)"

definition cons_text :: "string \<Rightarrow> (string \<times> string) option \<Rightarrow> (string \<times> string) option" where
  "cons_text t r = map_option (\<lambda>(s, rest). (t @ s, rest)) r"

text \<open>
  The body of a string after its opening quote: the text and what follows the closing quote.
  A high surrogate escape is joined with the low surrogate escape that follows it; a lone
  surrogate, which Python keeps, is refused (such text is outside the model).
\<close>

fun parse_chars :: "string \<Rightarrow> (string \<times> string) option" where
  "parse_chars [] = None"
| "parse_chars (c # cs) =
     (if c = CHR 0x22 then Some ([], cs)
      else if c = CHR 0x5C then
        (case cs of
           [] \<Rightarrow> None
         | e # r \<Rightarrow>
             if e \<noteq> CHR ''u'' then
               (case escape_value e of None \<Rightarrow> None | Some v \<Rightarrow> cons_text [v] (parse_chars r))
             else
               (case r of
                  h1 # h2 # h3 # h4 # r2 \<Rightarrow>
                    (case hex4 h1 h2 h3 h4 of
                       None \<Rightarrow> None
                     | Some n \<Rightarrow>
                         if 55296 \<le> n \<and> n \<le> 56319 then
                           (case r2 of
                              b # u # l1 # l2 # l3 # l4 # r3 \<Rightarrow>
                                (case hex4 l1 l2 l3 l4 of
                                   Some m \<Rightarrow>
                                     if b = CHR 0x5C \<and> u = CHR ''u'' \<and> 56320 \<le> m \<and> m \<le> 57343
                                     then cons_text
                                       (utf8_encode (65536 + (n - 55296) * 1024 + (m - 56320)))
                                       (parse_chars r3)
                                     else None
                                 | None \<Rightarrow> None)
                            | _ \<Rightarrow> None)
                         else if 56320 \<le> n \<and> n \<le> 57343 then None
                         else cons_text (utf8_encode n) (parse_chars r2))
                | _ \<Rightarrow> None))
      else if (of_char c :: nat) < 32 then None
      else cons_text [c] (parse_chars cs))"

definition read_nat :: "string \<Rightarrow> nat" where
  "read_nat ds = foldl (\<lambda>n d. n * 10 + (of_char d - 48)) 0 ds"

definition span_digits :: "string \<Rightarrow> string \<times> string" where
  "span_digits s = (takeWhile is_digit s, dropWhile is_digit s)"

text \<open>
  The number scanner, \<open>(-?(?:0|[1-9][0-9]*))(\.[0-9]+)?([eE][-+]?[0-9]+)?\<close>: a fraction or
  exponent that does not match is left in the input.
\<close>

definition scan_int :: "string \<Rightarrow> (string \<times> string) option" where
  "scan_int s = (case span_digits s of
      ([], _) \<Rightarrow> None
    | (d # ds, r) \<Rightarrow> if d = CHR ''0'' then Some ([d], ds @ r) else Some (d # ds, r))"

definition scan_frac :: "string \<Rightarrow> string \<times> string" where
  "scan_frac s = (case s of
      c # r \<Rightarrow> if c = CHR ''.'' \<and> fst (span_digits r) \<noteq> []
              then (c # fst (span_digits r), snd (span_digits r)) else ([], s)
    | [] \<Rightarrow> ([], []))"

definition scan_sign :: "string \<Rightarrow> string \<times> string" where
  "scan_sign s = (case s of
      d # r \<Rightarrow> if d = CHR ''+'' \<or> d = CHR ''-'' then ([d], r) else ([], s)
    | [] \<Rightarrow> ([], []))"

definition scan_exp :: "string \<Rightarrow> string \<times> string" where
  "scan_exp s = (case s of
      c # r \<Rightarrow>
        if (c = CHR ''e'' \<or> c = CHR ''E'') \<and> fst (span_digits (snd (scan_sign r))) \<noteq> []
        then (c # fst (scan_sign r) @ fst (span_digits (snd (scan_sign r))),
              snd (span_digits (snd (scan_sign r))))
        else ([], s)
    | [] \<Rightarrow> ([], []))"

definition parse_unsigned :: "string \<Rightarrow> bool \<Rightarrow> (json \<times> string) option" where
  "parse_unsigned s neg =
     (case scan_int s of
        None \<Rightarrow> None
      | Some (ds, r) \<Rightarrow>
          (let (fr, r1) = scan_frac r; (ex, r2) = scan_exp r1 in
           if fr = [] \<and> ex = []
           then Some (JInt (if neg then - int (read_nat ds) else int (read_nat ds)), r2)
           else Some (JFloat ((if neg then ''-'' else []) @ ds @ fr @ ex), r2)))"

definition strip_prefix :: "string \<Rightarrow> string \<Rightarrow> string option" where
  "strip_prefix p s = (if take (length p) s = p then Some (drop (length p) s) else None)"

definition parse_atom :: "string \<Rightarrow> (json \<times> string) option" where
  "parse_atom s =
     (case strip_prefix ''null'' s of Some r \<Rightarrow> Some (JNull, r) | None \<Rightarrow>
     (case strip_prefix ''true'' s of Some r \<Rightarrow> Some (JBool True, r) | None \<Rightarrow>
     (case strip_prefix ''false'' s of Some r \<Rightarrow> Some (JBool False, r) | None \<Rightarrow>
     (case strip_prefix ''NaN'' s of Some r \<Rightarrow> Some (JFloat ''NaN'', r) | None \<Rightarrow>
     (case strip_prefix ''Infinity'' s of Some r \<Rightarrow> Some (JFloat ''Infinity'', r) | None \<Rightarrow>
     (case strip_prefix ''-Infinity'' s of Some r \<Rightarrow> Some (JFloat ''-Infinity'', r) | None \<Rightarrow>
     (case strip_prefix ''-'' s of
        Some r \<Rightarrow> parse_unsigned r True
      | None \<Rightarrow> parse_unsigned s False)))))))"

text \<open>Values, array elements and object members; each call spends one unit of fuel.\<close>

fun parse_value :: "nat \<Rightarrow> string \<Rightarrow> (json \<times> string) option"
  and parse_elems :: "nat \<Rightarrow> string \<Rightarrow> (json list \<times> string) option"
  and parse_members :: "nat \<Rightarrow> string \<Rightarrow> ((string \<times> json) list \<times> string) option"
where
  "parse_value 0 s = None"
| "parse_value (Suc n) s =
     (case s of
        [] \<Rightarrow> None
      | c # r \<Rightarrow>
          if c = CHR 0x22 then map_option (\<lambda>(t, r'). (JStr t, r')) (parse_chars r)
          else if c = CHR ''['' then
            (case skip_ws r of
               [] \<Rightarrow> None
             | c' # r' \<Rightarrow>
                 if c' = CHR '']'' then Some (JArr [], r')
                 else map_option (\<lambda>(vs, r''). (JArr vs, r'')) (parse_elems n (c' # r')))
          else if c = CHR ''{'' then
            (case skip_ws r of
               [] \<Rightarrow> None
             | c' # r' \<Rightarrow>
                 if c' = CHR ''}'' then Some (JObj [], r')
                 else map_option (\<lambda>(kvs, r''). (JObj (dict_of kvs), r''))
                        (parse_members n (c' # r')))
          else parse_atom (c # r))"
| "parse_elems 0 s = None"
| "parse_elems (Suc n) s =
     (case parse_value n s of
        None \<Rightarrow> None
      | Some (v, r) \<Rightarrow>
          (case skip_ws r of
             [] \<Rightarrow> None
           | c # r' \<Rightarrow>
               if c = CHR '']'' then Some ([v], r')
               else if c = CHR '','' then
                 map_option (\<lambda>(vs, r''). (v # vs, r'')) (parse_elems n (skip_ws r'))
               else None))"
| "parse_members 0 s = None"
| "parse_members (Suc n) s =
     (case s of
        [] \<Rightarrow> None
      | q # s' \<Rightarrow>
          if q \<noteq> CHR 0x22 then None
          else
            (case parse_chars s' of
               None \<Rightarrow> None
             | Some (k, r) \<Rightarrow>
                 (case skip_ws r of
                    [] \<Rightarrow> None
                  | c # r1 \<Rightarrow>
                      if c \<noteq> CHR '':'' then None
                      else
                        (case parse_value n (skip_ws r1) of
                           None \<Rightarrow> None
                         | Some (v, r2) \<Rightarrow>
                             (case skip_ws r2 of
                                [] \<Rightarrow> None
                              | c2 # r3 \<Rightarrow>
                                  if c2 = CHR ''}'' then Some ([(k, v)], r3)
                                  else if c2 = CHR '','' then
                                    map_option (\<lambda>(kvs, r4). ((k, v) # kvs, r4))
                                      (parse_members n (skip_ws r3))
                                  else None)))))"

definition json_loads :: "string \<Rightarrow> json option" where
  "json_loads s =
     (case parse_value (Suc (length s)) (skip_ws s) of
        Some (v, r) \<Rightarrow> if skip_ws r = [] then Some v else None
      | None \<Rightarrow> None)"

section \<open>Reading back what was printed\<close>


lemma of_char_digit_char: "d < 10 \<Longrightarrow> (of_char (digit_char d) :: nat) = 48 + d"
  by (simp add: digit_char_def)

lemma is_digit_digit_char [simp]: "d < 10 \<Longrightarrow> is_digit (digit_char d)"
  by (simp add: is_digit_def of_char_digit_char)

lemma show_nat_nonempty [simp]: "show_nat n \<noteq> []"
  by (subst show_nat.simps) simp

lemma show_nat_digits: "c \<in> set (show_nat n) \<Longrightarrow> is_digit c"
proof (induction n rule: show_nat.induct)
  case (1 n)
  then show ?case by (subst (asm) show_nat.simps[of n]) (auto split: if_splits)
qed

lemma read_nat_append: "read_nat (ds @ [d]) = read_nat ds * 10 + (of_char d - 48)"
  by (simp add: read_nat_def)

lemma read_show_nat [simp]: "read_nat (show_nat n) = n"
proof (induction n rule: show_nat.induct)
  case (1 n)
  show ?case
  proof (cases "n < 10")
    case True
    then show ?thesis by (subst show_nat.simps) (simp add: read_nat_def of_char_digit_char)
  next
    case False
    then show ?thesis using "1" by (subst show_nat.simps) (simp add: read_nat_append of_char_digit_char)
  qed
qed

lemma hd_show_nat: "0 < n \<Longrightarrow> hd (show_nat n) \<noteq> CHR ''0''"
proof (induction n rule: show_nat.induct)
  case (1 n)
  show ?case
  proof (cases "n < 10")
    case True
    then have "(of_char (digit_char n) :: nat) \<noteq> of_char (CHR ''0'')"
      using "1.prems" by (simp add: of_char_digit_char)
    then show ?thesis using True by (subst show_nat.simps) (auto simp del: of_char_eq_iff)
  next
    case False
    then show ?thesis using "1.IH" by (subst show_nat.simps) simp
  qed
qed

lemma show_nat_0: "show_nat 0 = ''0''"
  by code_simp

text \<open>What may follow a value inside a document: the end of it or a structural character.\<close>

definition delim :: "string \<Rightarrow> bool" where
  "delim r = (case r of [] \<Rightarrow> True | c # _ \<Rightarrow> c \<in> {CHR '','', CHR '']'', CHR ''}'', CHR '':''})"

lemma delim_simps [simp]:
  "delim []" "delim (CHR '','' # r)" "delim (CHR '']'' # r)" "delim (CHR ''}'' # r)"
  by (simp_all add: delim_def)

lemma delim_not_digit:
  "delim (c # r) \<Longrightarrow> \<not> is_digit c \<and> c \<noteq> CHR ''.'' \<and> c \<noteq> CHR ''e'' \<and> c \<noteq> CHR ''E''
   \<and> c \<noteq> CHR ''+'' \<and> c \<noteq> CHR ''-''"
  by (auto simp: delim_def is_digit_def)

lemma span_digits_delim:
  assumes "delim r"
  shows "span_digits (s @ r) = (fst (span_digits s), snd (span_digits s) @ r)"
proof -
  have "takeWhile is_digit r = []" "dropWhile is_digit r = r"
    using assms by (cases r; auto dest!: delim_not_digit)+
  then show ?thesis by (induction s) (simp_all add: span_digits_def)
qed

lemma scan_int_delim:
  "delim r \<Longrightarrow> scan_int s = Some (ds, t) \<Longrightarrow> scan_int (s @ r) = Some (ds, t @ r)"
  by (auto simp: scan_int_def span_digits_delim split: list.splits if_splits prod.splits)

lemma span_digits_nondigit: "\<not> is_digit c \<Longrightarrow> span_digits (c # r) = ([], c # r)"
  by (simp add: span_digits_def)

lemma scan_sign_delim: "delim r \<Longrightarrow> scan_sign (s @ r) = (fst (scan_sign s), snd (scan_sign s) @ r)"
  by (cases s; cases r) (auto simp: scan_sign_def dest!: delim_not_digit)

lemma scan_frac_delim: "delim r \<Longrightarrow> scan_frac (s @ r) = (fst (scan_frac s), snd (scan_frac s) @ r)"
  by (cases s; cases r) (auto simp: scan_frac_def span_digits_delim dest!: delim_not_digit)

lemma scan_exp_delim: "delim r \<Longrightarrow> scan_exp (s @ r) = (fst (scan_exp s), snd (scan_exp s) @ r)"
  by (cases s; cases r)
     (auto simp: scan_exp_def span_digits_delim scan_sign_delim dest!: delim_not_digit)

lemma parse_unsigned_delim:
  assumes "delim r" and "parse_unsigned s neg = Some (v, t)"
  shows "parse_unsigned (s @ r) neg = Some (v, t @ r)"
  using assms
  by (auto simp: parse_unsigned_def scan_int_delim scan_frac_delim scan_exp_delim
      Let_def case_prod_unfold split: option.splits if_splits)

lemma strip_prefix_delim:
  assumes "delim r" and "set p \<inter> set '',]}:'' = {}"
  shows "strip_prefix p (s @ r) = map_option (\<lambda>t. t @ r) (strip_prefix p s)"
proof (cases "length p \<le> length s")
  case False
  then obtain k where k: "length p - length s = Suc k" by (cases "length p - length s") auto
  have "take (length p) (s @ r) \<noteq> p"
  proof
    assume eq: "take (length p) (s @ r) = p"
    show False
    proof (cases r)
      case Nil
      then show False using eq False by simp
    next
      case (Cons c r')
      then have "c \<in> set p" using eq k by (metis Un_iff list.set_intros(1) set_append take_Suc_Cons take_append)
      then show False using assms Cons by (auto simp: delim_def)
    qed
  qed
  then show ?thesis using False by (auto simp: strip_prefix_def)
qed (simp add: strip_prefix_def)

lemma parse_atom_delim:
  assumes d: "delim r" and p: "parse_atom s = Some (v, t)"
  shows "parse_atom (s @ r) = Some (v, t @ r)"
  using p unfolding parse_atom_def
  by (auto simp: strip_prefix_delim[OF d] parse_unsigned_delim[OF d] split: option.splits)

text \<open>A float is well formed when its text is one float literal.\<close>

definition float_token :: "string \<Rightarrow> bool" where
  "float_token t = (parse_atom t = Some (JFloat t, []))"

lemma span_digits_all: "(\<forall>c\<in>set s. is_digit c) \<Longrightarrow> span_digits s = (s, [])"
  by (simp add: span_digits_def)

lemma scan_int_show_nat: "scan_int (show_nat n) = Some (show_nat n, [])"
proof (cases "n = 0")
  case True
  then show ?thesis by (simp add: scan_int_def span_digits_def show_nat_0 is_digit_def)
next
  case False
  then have "hd (show_nat n) \<noteq> CHR ''0''" by (simp add: hd_show_nat)
  moreover have "span_digits (show_nat n) = (show_nat n, [])"
    by (rule span_digits_all) (blast dest: show_nat_digits)
  ultimately show ?thesis by (cases "show_nat n") (auto simp: scan_int_def)
qed

lemma parse_unsigned_show_nat:
  "parse_unsigned (show_nat n) neg = Some (JInt (if neg then - int n else int n), [])"
  by (simp add: parse_unsigned_def scan_int_show_nat scan_frac_def scan_exp_def)

lemma digit_strip_prefix:
  "is_digit (hd s) \<Longrightarrow> s \<noteq> [] \<Longrightarrow> \<not> is_digit c \<Longrightarrow> strip_prefix (c # p) s = None"
  by (cases s) (auto simp: strip_prefix_def)

lemma hd_show_nat_digit: "is_digit (hd (show_nat n))"
  by (rule show_nat_digits[of _ n]) simp

lemma parse_atom_show_int: "parse_atom (show_int i) = Some (JInt i, [])"
proof (cases "i < 0")
  case True
  have "hd (show_nat (nat (- i))) \<noteq> CHR ''I''"
    using hd_show_nat_digit[of "nat (- i)"] by (auto simp: is_digit_def)
  moreover have "parse_unsigned (show_nat (nat (- i))) True = Some (JInt i, [])"
    using True by (simp add: parse_unsigned_show_nat)
  ultimately show ?thesis using True
    by (cases "show_nat (nat (- i))")
       (auto simp: parse_atom_def show_int_def strip_prefix_def)
next
  case False
  have d: "is_digit (hd (show_nat (nat i)))" by (rule hd_show_nat_digit)
  have "\<not> is_digit (CHR ''n'')" "\<not> is_digit (CHR ''t'')" "\<not> is_digit (CHR ''f'')" "\<not> is_digit (CHR ''N'')"
    "\<not> is_digit (CHR ''I'')" "\<not> is_digit (CHR ''-'')"
    by (simp_all add: is_digit_def)
  then show ?thesis using False d
    by (simp add: parse_atom_def show_int_def digit_strip_prefix parse_unsigned_show_nat)
qed


lemma hex_value_hex_char: "d < 16 \<Longrightarrow> hex_value (hex_char d) = Some d"
  by (auto simp: hex_value_def hex_char_def Let_def)

lemma hex4_control: "n < 32 \<Longrightarrow> hex4 (CHR ''0'') (CHR ''0'') (hex_char (n div 16)) (hex_char (n mod 16)) = Some n"
  by (simp add: hex4_def hex_value_hex_char) (simp add: hex_value_def)

lemma parse_chars_escape: "parse_chars (escape_char c @ s) = cons_text [c] (parse_chars s)"
proof (cases "(of_char c :: nat) < 32 \<and> c \<noteq> CHR 0x0A \<and> c \<noteq> CHR 0x0D \<and> c \<noteq> CHR 0x09 \<and> c \<noteq> CHR 0x0C \<and> c \<noteq> CHR 0x08")
  case True
  then have n: "(of_char c :: nat) < 32" by simp
  have "c \<noteq> CHR 0x22" "c \<noteq> CHR 0x5C" using n by auto
  moreover have "utf8_encode (of_char c) = [c]" using n by (simp add: utf8_encode_def)
  ultimately show ?thesis using True n
    by (simp add: escape_char_def hex4_control del: parse_chars.simps)
       (simp add: hex4_control)
next
  case False
  then show ?thesis by (auto simp: escape_char_def escape_value_def)
qed

lemma parse_chars_print: "parse_chars (concat (map escape_char s) @ CHR 0x22 # r) = Some (s, r)"
  by (induction s) (simp_all add: parse_chars_escape cons_text_def)

fun wf_json :: "json \<Rightarrow> bool" where
  "wf_json (JFloat t) = float_token t"
| "wf_json (JArr vs) = (\<forall>v\<in>set vs. wf_json v)"
| "wf_json (JObj kvs) = (distinct (map fst kvs) \<and> (\<forall>kv\<in>set kvs. wf_json (snd kv)))"
| "wf_json _ = True"

lemma strip_prefix_Cons: "strip_prefix (d # p) (c # s) = (if c = d then strip_prefix p s else None)"
  by (auto simp: strip_prefix_def)

lemma parse_unsigned_start: "parse_unsigned (c # s) neg = Some x \<Longrightarrow> is_digit c"
  by (auto simp: parse_unsigned_def scan_int_def span_digits_def split: if_splits)

lemma parse_atom_start:
  "parse_atom (c # s) = Some x \<Longrightarrow> c \<in> set ''ntfNI-'' \<or> is_digit c"
proof (rule ccontr)
  assume p: "parse_atom (c # s) = Some x" and n: "\<not> (c \<in> set ''ntfNI-'' \<or> is_digit c)"
  then have "parse_atom (c # s) = parse_unsigned (c # s) False"
    by (simp add: parse_atom_def strip_prefix_Cons)
  then show False using p n parse_unsigned_start[of c s False x] by simp
qed

lemma parse_atom_Nil: "parse_atom [] = None"
  by (simp add: parse_atom_def strip_prefix_def parse_unsigned_def scan_int_def span_digits_def)

lemma parse_value_atom:
  "parse_atom s = Some x \<Longrightarrow> parse_value (Suc n) s = parse_atom s \<and> skip_ws s = s"
proof (cases s)
  case (Cons c r)
  assume p: "parse_atom s = Some x"
  then have "c \<in> set ''ntfNI-'' \<or> is_digit c" using Cons parse_atom_start[of c r x] by simp
  then have "c \<noteq> CHR 0x22 \<and> c \<noteq> CHR ''['' \<and> c \<noteq> CHR ''{'' \<and> c \<noteq> CHR '' '' \<and> c \<noteq> CHR 0x09
      \<and> c \<noteq> CHR 0x0A \<and> c \<noteq> CHR 0x0D"
    by (auto simp: is_digit_def)
  then show ?thesis using Cons by simp
qed (simp add: parse_atom_Nil)

text \<open>Reading back one printed value, the statement the induction carries.\<close>

definition reads_back :: "json \<Rightarrow> bool" where
  "reads_back v = (\<forall>fuel r. delim r \<longrightarrow> length (print_json v) < fuel \<longrightarrow>
     parse_value fuel (print_json v @ r) = Some (v, r) \<and>
     skip_ws (print_json v @ r) = print_json v @ r \<and> hd (print_json v @ r) \<noteq> CHR '']'')"

lemma reads_backD:
  assumes "reads_back v" and "delim r"
  shows reads_back_value: "length (print_json v) < fuel \<Longrightarrow> parse_value fuel (print_json v @ r) = Some (v, r)"
    and reads_back_ws: "skip_ws (print_json v @ r) = print_json v @ r"
    and reads_back_hd: "hd (print_json v @ r) \<noteq> CHR '']''"
  using assms unfolding reads_back_def by blast+

lemma reads_back_atom:
  assumes "parse_atom (print_json v) = Some (v, [])"
  shows "reads_back v"
  unfolding reads_back_def
proof (intro allI impI)
  fix fuel r assume d: "delim r" and l: "length (print_json v) < fuel"
  obtain n where n: "fuel = Suc n" using l by (cases fuel) auto
  have a: "parse_atom (print_json v @ r) = Some (v, r)"
    using parse_atom_delim[OF d assms] by simp
  have "hd (print_json v @ r) \<noteq> CHR '']''"
  proof (cases "print_json v")
    case (Cons c t)
    then have "c \<in> set ''ntfNI-'' \<or> is_digit c" using assms parse_atom_start[of c t] by simp
    then show ?thesis using Cons by (auto simp: is_digit_def)
  qed (use assms in \<open>simp add: parse_atom_Nil\<close>)
  then show "parse_value fuel (print_json v @ r) = Some (v, r) \<and>
     skip_ws (print_json v @ r) = print_json v @ r \<and> hd (print_json v @ r) \<noteq> CHR '']''"
    using parse_value_atom[OF a, of n] a n by simp
qed

lemma commas_Cons: "xs \<noteq> [] \<Longrightarrow> commas (x # xs) = x @ CHR '','' # commas xs"
  by (cases xs) simp_all

lemma parse_elems_print:
  assumes "\<And>v. v \<in> set vs \<Longrightarrow> reads_back v" and "vs \<noteq> []"
    and "length (commas (map print_json vs)) + 1 < fuel"
  shows "parse_elems fuel (commas (map print_json vs) @ CHR '']'' # r) = Some (vs, r)"
  using assms
proof (induction vs arbitrary: fuel)
  case (Cons v vs)
  obtain n where n: "fuel = Suc n" using Cons.prems by (cases fuel) auto
  have v: "reads_back v" using Cons.prems by simp
  show ?case
  proof (cases "vs = []")
    case True
    then show ?thesis using v Cons.prems n by (simp add: reads_back_value)
  next
    case False
    obtain w ws where ws: "vs = w # ws" using False by (cases vs) auto
    have w: "reads_back w" using Cons.prems ws by simp
    let ?rest = "commas (map print_json vs) @ CHR '']'' # r"
    have "parse_value n (print_json v @ CHR '','' # ?rest) = Some (v, CHR '','' # ?rest)"
      using v Cons.prems n by (intro reads_back_value) (simp_all add: commas_Cons False)
    moreover have "skip_ws ?rest = ?rest"
    proof -
      obtain r' where "?rest = print_json w @ r'" "delim r'"
        using ws by (cases ws) (auto simp: commas_Cons)
      then show ?thesis using w by (simp add: reads_back_ws)
    qed
    moreover have "parse_elems n ?rest = Some (vs, r)"
      using Cons.prems False n by (intro Cons.IH) (auto simp: commas_Cons)
    ultimately show ?thesis using n False by (simp add: commas_Cons)
  qed
qed simp

abbreviation print_member :: "string \<times> json \<Rightarrow> string" where
  "print_member \<equiv> (\<lambda>(k, v). print_string k @ CHR '':'' # print_json v)"

lemma parse_members_print:
  assumes "\<And>kv. kv \<in> set kvs \<Longrightarrow> reads_back (snd kv)" and "kvs \<noteq> []"
    and "length (commas (map print_member kvs)) + 1 < fuel"
  shows "parse_members fuel (commas (map print_member kvs) @ CHR ''}'' # r) = Some (kvs, r)"
  using assms
proof (induction kvs arbitrary: fuel)
  case (Cons kv kvs)
  obtain n where n: "fuel = Suc n" using Cons.prems by (cases fuel) auto
  obtain k v where kv: "kv = (k, v)" by (cases kv)
  have v: "reads_back v" using Cons.prems(1)[of kv] kv by simp
  show ?case
  proof (cases "kvs = []")
    case True
    then show ?thesis using v Cons.prems n kv
      by (simp add: reads_back_value reads_back_ws print_string_def parse_chars_print)
  next
    case False
    let ?rest = "commas (map print_member kvs) @ CHR ''}'' # r"
    have "parse_value n (print_json v @ CHR '','' # ?rest) = Some (v, CHR '','' # ?rest) \<and>
          skip_ws (print_json v @ CHR '','' # ?rest) = print_json v @ CHR '','' # ?rest"
      using v Cons.prems n kv by (simp add: reads_back_value reads_back_ws commas_Cons False)
    moreover have "skip_ws ?rest = ?rest"
      using False by (cases kvs; cases "tl kvs") (auto simp: print_string_def)
    moreover have "parse_members n ?rest = Some (kvs, r)"
      using Cons.prems False n kv by (intro Cons.IH) (auto simp: commas_Cons)
    ultimately show ?thesis using n False kv
      by (simp add: commas_Cons print_string_def parse_chars_print)
  qed
qed simp


lemma parse_atom_consts:
  "parse_atom ''null'' = Some (JNull, [])" "parse_atom ''true'' = Some (JBool True, [])"
  "parse_atom ''false'' = Some (JBool False, [])"
  by (simp_all add: parse_atom_def strip_prefix_def)

lemma reads_back_wf: "wf_json v \<Longrightarrow> reads_back v"
proof (induction v)
  case (JStr s)
  have "parse_value fuel (print_json (JStr s) @ r) = Some (JStr s, r)" if "0 < fuel" for fuel r
    using that by (cases fuel) (simp_all add: print_string_def parse_chars_print)
  then show ?case by (auto simp: reads_back_def print_string_def)
next
  case (JArr vs)
  then have rb: "\<And>v. v \<in> set vs \<Longrightarrow> reads_back v" by simp
  show ?case unfolding reads_back_def
  proof (intro allI impI)
    fix fuel r assume d: "delim r" and l: "length (print_json (JArr vs)) < fuel"
    obtain n where n: "fuel = Suc n" using l by (cases fuel) auto
    show "parse_value fuel (print_json (JArr vs) @ r) = Some (JArr vs, r) \<and>
      skip_ws (print_json (JArr vs) @ r) = print_json (JArr vs) @ r \<and> hd (print_json (JArr vs) @ r) \<noteq> CHR '']''"
    proof (cases vs)
      case Nil
      then show ?thesis using n by simp
    next
      case (Cons w ws)
      let ?t = "commas (map print_json vs) @ CHR '']'' # r"
      have e: "parse_elems n ?t = Some (vs, r)"
        using rb l n Cons by (intro parse_elems_print) auto
      obtain r' where r': "?t = print_json w @ r'" "delim r'"
        using Cons by (cases ws) (auto simp: commas_Cons)
      have "skip_ws ?t = ?t \<and> hd ?t \<noteq> CHR '']''"
        using rb[of w] r' Cons by (simp add: reads_back_ws reads_back_hd)
      moreover have "?t \<noteq> []" by simp
      ultimately show ?thesis using e n by (cases ?t) auto
    qed
  qed
next
  case (JObj kvs)
  then have rb: "\<And>kv. kv \<in> set kvs \<Longrightarrow> reads_back (snd kv)" by (auto simp: snds.simps)
  have dis: "dict_of kvs = kvs" using JObj.prems by simp
  show ?case unfolding reads_back_def
  proof (intro allI impI)
    fix fuel r assume d: "delim r" and l: "length (print_json (JObj kvs)) < fuel"
    obtain n where n: "fuel = Suc n" using l by (cases fuel) auto
    show "parse_value fuel (print_json (JObj kvs) @ r) = Some (JObj kvs, r) \<and>
      skip_ws (print_json (JObj kvs) @ r) = print_json (JObj kvs) @ r \<and> hd (print_json (JObj kvs) @ r) \<noteq> CHR '']''"
    proof (cases kvs)
      case Nil
      then show ?thesis using n by (simp add: dict_of_def)
    next
      case (Cons w ws)
      let ?t = "commas (map print_member kvs) @ CHR ''}'' # r"
      have e: "parse_members n ?t = Some (kvs, r)"
        using rb l n Cons by (intro parse_members_print) auto
      have "skip_ws ?t = ?t \<and> hd ?t = CHR 0x22"
        using Cons by (cases ws; cases w) (auto simp: print_string_def)
      moreover have "?t \<noteq> []" by simp
      ultimately show ?thesis using e n dis by (cases ?t) auto
    qed
  qed
qed (auto intro!: reads_back_atom simp: parse_atom_show_int float_token_def parse_atom_consts)

lemma wf_canon: "wf_json v \<Longrightarrow> wf_json (canon v)"
proof (induction v)
  case (JObj kvs)
  have "distinct (map fst (sort_key fst (map (\<lambda>(k, v). (k, canon v)) kvs)))"
  proof -
    have m: "map fst (map (\<lambda>(k, v). (k, canon v)) kvs) = map fst kvs" by (simp add: case_prod_unfold)
    have "mset (map fst (sort_key fst (map (\<lambda>(k, v). (k, canon v)) kvs))) = mset (map fst kvs)"
      by (metis m mset_map mset_sort)
    then show ?thesis using JObj.prems by (metis mset_eq_imp_distinct_iff wf_json.simps(3))
  qed
  then show ?case using JObj by (auto simp: snds.simps)
qed auto

lemma json_loads_dumps_wf:
  assumes "wf_json v"
  shows "json_loads (json_dumps v) = Some (canon v)"
proof -
  have "reads_back (canon v)" using assms by (simp add: reads_back_wf wf_canon)
  then have "parse_value (Suc (length (json_dumps v))) (json_dumps v @ []) = Some (canon v, []) \<and>
     skip_ws (json_dumps v @ []) = json_dumps v @ []"
    unfolding json_dumps_def by (simp only: reads_back_value reads_back_ws delim_simps lessI simp_thms)
  then show ?thesis by (simp add: json_loads_def)
qed

section \<open>What the parser returns\<close>

lemma span_digits_append:
  "(\<forall>c\<in>set ds. is_digit c) \<Longrightarrow> (s = [] \<or> \<not> is_digit (hd s)) \<Longrightarrow> span_digits (ds @ s) = (ds, s)"
  by (cases s) (auto simp: span_digits_def takeWhile_append2 dropWhile_append2)

lemma scan_int_token:
  assumes "scan_int s = Some (ds, r)" "u = [] \<or> \<not> is_digit (hd u)"
  shows "ds \<noteq> [] \<and> (\<forall>c\<in>set ds. is_digit c) \<and> scan_int (ds @ u) = Some (ds, u)"
proof -
  obtain d ds' where sp: "takeWhile is_digit s = d # ds'"
    using assms(1) by (auto simp: scan_int_def span_digits_def split: list.splits)
  then have dig: "\<forall>c\<in>set (d # ds'). is_digit c" by (metis set_takeWhileD)
  have ds: "ds = (if d = CHR ''0'' then [d] else d # ds')"
    using assms(1) sp by (auto simp: scan_int_def span_digits_def split: if_splits)
  then have "\<forall>c\<in>set ds. is_digit c" using dig by auto
  then show ?thesis using ds span_digits_append[OF _ assms(2), of ds] by (auto simp: scan_int_def)
qed

lemma scan_frac_token:
  assumes "scan_frac s = (fr, r)" "u = [] \<or> \<not> is_digit (hd u) \<and> hd u \<noteq> CHR ''.''"
  shows "(fr = [] \<or> hd fr = CHR ''.'') \<and> scan_frac (fr @ u) = (fr, u)"
proof (cases "fr = []")
  case True
  then show ?thesis using assms(2) by (auto simp: scan_frac_def split: list.splits)
next
  case False
  then obtain t where fr: "fr = CHR ''.'' # fst (span_digits t)" "fst (span_digits t) \<noteq> []"
    using assms(1) by (auto simp: scan_frac_def split: list.splits if_splits)
  have "\<forall>c\<in>set (fst (span_digits t)). is_digit c" by (auto simp: span_digits_def dest: set_takeWhileD)
  then have "span_digits (fst (span_digits t) @ u) = (fst (span_digits t), u)"
    using assms(2) by (intro span_digits_append) auto
  then show ?thesis using fr by (simp add: scan_frac_def)
qed

lemma is_digit_plus_minus: "is_digit c \<Longrightarrow> c \<noteq> CHR ''+'' \<and> c \<noteq> CHR ''-'' \<and> c \<noteq> CHR ''.'' \<and> c \<noteq> CHR ''e'' \<and> c \<noteq> CHR ''E''"
  by (auto simp: is_digit_def)

lemma scan_exp_token:
  assumes "scan_exp s = (ex, r)"
  shows "(ex = [] \<or> hd ex = CHR ''e'' \<or> hd ex = CHR ''E'') \<and> scan_exp ex = (ex, [])"
proof (cases "ex = []")
  case True
  then show ?thesis by (simp add: scan_exp_def)
next
  case False
  obtain c t where ex: "ex = c # fst (scan_sign t) @ fst (span_digits (snd (scan_sign t)))"
     "fst (span_digits (snd (scan_sign t))) \<noteq> []" "c = CHR ''e'' \<or> c = CHR ''E''"
    using assms False by (auto simp: scan_exp_def split: list.splits if_splits)
  let ?ds = "fst (span_digits (snd (scan_sign t)))"
  have dig: "\<forall>c\<in>set ?ds. is_digit c" by (auto simp: span_digits_def dest: set_takeWhileD)
  have "hd ?ds \<noteq> CHR ''+'' \<and> hd ?ds \<noteq> CHR ''-''"
    using dig ex(2) by (metis hd_in_set is_digit_plus_minus)
  then have "scan_sign (fst (scan_sign t) @ ?ds) = (fst (scan_sign t), ?ds)"
    using ex(2) by (cases ?ds) (auto simp: scan_sign_def split: list.splits)
  then show ?thesis using ex span_digits_all[OF dig] by (auto simp: scan_exp_def)
qed


lemma parse_unsigned_token:
  assumes "parse_unsigned s neg = Some (JFloat t, r)"
  shows "\<exists>u. t = (if neg then ''-'' else []) @ u \<and> u \<noteq> [] \<and> is_digit (hd u) \<and> parse_unsigned u neg = Some (JFloat t, [])"
proof -
  obtain ds r0 fr r1 ex where p: "scan_int s = Some (ds, r0)" "scan_frac r0 = (fr, r1)" "scan_exp r1 = (ex, r)"
    "\<not> (fr = [] \<and> ex = [])" "t = (if neg then ''-'' else []) @ ds @ fr @ ex"
    using assms by (auto simp: parse_unsigned_def split: option.splits prod.splits if_splits)
  have ex: "ex = [] \<or> hd ex = CHR ''e'' \<or> hd ex = CHR ''E''" "scan_exp ex = (ex, [])"
    using scan_exp_token[OF p(3)] by auto
  have nd: "ex = [] \<or> \<not> is_digit (hd ex) \<and> hd ex \<noteq> CHR ''.''" using ex(1) by (auto simp: is_digit_def)
  have fr: "fr = [] \<or> hd fr = CHR ''.''" "scan_frac (fr @ ex) = (fr, ex)"
    using scan_frac_token[OF p(2) nd] by auto
  have "fr @ ex = [] \<or> \<not> is_digit (hd (fr @ ex))" using fr(1) nd by (auto simp: is_digit_def hd_append)
  from scan_int_token[OF p(1) this]
  have ds: "ds \<noteq> []" "\<forall>c\<in>set ds. is_digit c" "scan_int (ds @ fr @ ex) = Some (ds, fr @ ex)" by auto
  then have "parse_unsigned (ds @ fr @ ex) neg = Some (JFloat t, [])"
    using fr(2) ex(2) p(4,5) by (simp add: parse_unsigned_def)
  then show ?thesis using ds(1,2) p(5) by auto
qed

lemma parse_unsigned_kind:
  "parse_unsigned s neg = Some (v, r) \<Longrightarrow> (\<exists>i. v = JInt i) \<or> (\<exists>t. v = JFloat t)"
  by (auto simp: parse_unsigned_def split: option.splits prod.splits if_splits)

lemma parse_atom_wf:
  assumes "parse_atom s = Some (v, r)"
  shows "wf_json v"
proof -
  have num: "wf_json v" if p: "parse_unsigned s' neg = Some (v, r)" for s' neg
  proof (cases "\<exists>t. v = JFloat t")
    case True
    then obtain t where t: "v = JFloat t" by blast
    obtain u where u: "t = (if neg then ''-'' else []) @ u" "u \<noteq> []" "is_digit (hd u)"
      "parse_unsigned u neg = Some (JFloat t, [])"
      using parse_unsigned_token[of s' neg t r] p t by auto
    obtain c u' where c: "u = c # u'" using u(2) by (cases u) auto
    have dc: "is_digit c" using u(3) c by simp
    have ne: "c \<noteq> CHR ''n''" "c \<noteq> CHR ''t''" "c \<noteq> CHR ''f''" "c \<noteq> CHR ''N''" "c \<noteq> CHR ''I''" "c \<noteq> CHR ''-''"
      using dc by (auto simp: is_digit_def)
    have "parse_atom t = Some (JFloat t, [])"
    proof (cases neg)
      case True
      then show ?thesis using u(1,4) c ne by (simp add: parse_atom_def strip_prefix_Cons strip_prefix_def[of "[]"])
    next
      case False
      then show ?thesis using u(1,4) c ne by (simp add: parse_atom_def strip_prefix_Cons)
    qed
    then show ?thesis using t by (simp add: float_token_def)
  next
    case False
    then show ?thesis using parse_unsigned_kind[OF p] by auto
  qed
  have special: "wf_json (JFloat ''NaN'')" "wf_json (JFloat ''Infinity'')" "wf_json (JFloat ''-Infinity'')"
    by (simp_all add: float_token_def parse_atom_def strip_prefix_def)
  show ?thesis
    using assms num special unfolding parse_atom_def by (auto split: option.splits)
qed

lemma wf_json_dict_of:
  assumes "\<forall>kv\<in>set kvs. wf_json (snd kv)"
  shows "wf_json (JObj (dict_of kvs))"
proof -
  have d: "distinct (map fst (fold (\<lambda>(k, v) d. dict_set k v d) xs acc)) \<and>
      (\<forall>kv\<in>set (fold (\<lambda>(k, v) d. dict_set k v d) xs acc). wf_json (snd kv))"
    if "distinct (map fst acc)" "\<forall>kv\<in>set acc. wf_json (snd kv)" "\<forall>kv\<in>set xs. wf_json (snd kv)" for xs acc
    using that
  proof (induction xs arbitrary: acc)
    case (Cons x xs)
    have s: "set (dict_set k v acc') \<subseteq> insert (k, v) (set acc')" for k v acc'
    proof (induction acc')
      case (Cons y ys)
      then show ?case by (cases y) auto
    qed simp
    have "\<forall>kv\<in>set (dict_set (fst x) (snd x) acc). wf_json (snd kv)"
      using s[of "fst x" "snd x" acc] Cons.prems(2,3) by fastforce
    then show ?case
      using Cons.IH[of "dict_set (fst x) (snd x) acc"] Cons.prems by (simp add: distinct_dict_set case_prod_unfold)
  qed simp
  show ?thesis using d[of "[]" kvs] assms by (simp add: dict_of_def)
qed

lemma parse_wf:
  "parse_value n s = Some (v, r) \<Longrightarrow> wf_json v"
  "parse_elems n s = Some (vs, r) \<Longrightarrow> \<forall>v\<in>set vs. wf_json v"
  "parse_members n s = Some (kvs, r) \<Longrightarrow> \<forall>kv\<in>set kvs. wf_json (snd kv)"
proof (induction n s and n s and n s arbitrary: v r and vs r and kvs r rule: parse_value_parse_elems_parse_members.induct)
  case (2 n s)
  then show ?case
    by (auto simp: map_option_case simp del: wf_json.simps(3) split: list.splits if_splits option.splits
        intro!: wf_json_dict_of dest: parse_atom_wf) (simp, fastforce)
next
  case (4 n s)
  then show ?case by (fastforce simp: map_option_case split: option.splits list.splits if_splits)
next
  case (6 n s)
  then show ?case by (fastforce simp: map_option_case split: option.splits list.splits if_splits)
qed simp_all

lemma json_loads_wf: "json_loads s = Some v \<Longrightarrow> wf_json v"
  by (auto simp: json_loads_def simp del: parse_value.simps split: option.splits if_splits intro: parse_wf(1))

end
