(* ===== verification/Models.thy ===== *)
theory Models
  imports Json
begin

text \<open>
  The protocol models of \<open>models.py\<close>: status enumerations, the dataclasses of the
  collaboration path (plan steps, plans, goals, assignments, leases, acknowledgements,
  outcomes, snapshots) as records, each \<open>__post_init__\<close> as a function that returns the value
  or the exception, \<open>payload\<close> (\<open>dataclasses.asdict\<close>) as a JSON value, and the decoders of
  \<open>journal.py\<close> and \<open>coordinator_store.py\<close>. Fields annotated \<open>int\<close> are integers: where a JSON
  document carries a float or a boolean in such a field the decoder raises \<open>TypeError\<close>.
\<close>

section \<open>Reading JSON documents the way Python does\<close>

text \<open>\<open>value[key]\<close>, \<open>value.get(key, default)\<close>, \<open>tuple(value)\<close> on dynamically typed values.\<close>

definition jitem :: "json \<Rightarrow> string \<Rightarrow> json res" where
  "jitem j k = (case j of
      JObj kvs \<Rightarrow> (case map_of kvs k of Some v \<Rightarrow> Inr v | None \<Rightarrow> Inl (KeyError k))
    | _ \<Rightarrow> Inl (TypeError ''not subscriptable''))"

definition jget :: "json \<Rightarrow> string \<Rightarrow> json \<Rightarrow> json res" where
  "jget j k dflt = (case j of
      JObj kvs \<Rightarrow> Inr (case map_of kvs k of Some v \<Rightarrow> v | None \<Rightarrow> dflt)
    | _ \<Rightarrow> Inl (AttributeError ''get''))"

definition as_str :: "json \<Rightarrow> string res" where
  "as_str j = (case j of JStr s \<Rightarrow> Inr s | _ \<Rightarrow> Inl (AttributeError ''encode''))"

definition as_opt_str :: "json \<Rightarrow> string option res" where
  "as_opt_str j = (case j of JNull \<Rightarrow> Inr None | _ \<Rightarrow> rbind (as_str j) (\<lambda>s. Inr (Some s)))"

definition as_int :: "json \<Rightarrow> int res" where
  "as_int j = (case j of JInt i \<Rightarrow> Inr i | _ \<Rightarrow> Inl (TypeError ''int expected''))"

definition as_opt_int :: "json \<Rightarrow> int option res" where
  "as_opt_int j = (case j of JNull \<Rightarrow> Inr None | _ \<Rightarrow> rbind (as_int j) (\<lambda>i. Inr (Some i)))"

definition as_bool :: "json \<Rightarrow> bool res" where
  "as_bool j = (case j of JBool b \<Rightarrow> Inr b | _ \<Rightarrow> Inl (TypeError ''bool expected''))"

definition py_iter :: "json \<Rightarrow> json list res" where
  "py_iter j = (case j of
      JArr vs \<Rightarrow> Inr vs
    | JStr s \<Rightarrow> Inr (map (\<lambda>n. JStr (utf8_encode n)) (codepoints s))
    | JObj kvs \<Rightarrow> Inr (map (\<lambda>kv. JStr (fst kv)) kvs)
    | _ \<Rightarrow> Inl (TypeError ''not iterable''))"

definition as_strs :: "json \<Rightarrow> string list res" where
  "as_strs j = rbind (py_iter j) (rmap as_str)"

definition json_opt_str :: "string option \<Rightarrow> json" where
  "json_opt_str x = (case x of None \<Rightarrow> JNull | Some s \<Rightarrow> JStr s)"

definition json_opt_int :: "int option \<Rightarrow> json" where
  "json_opt_int x = (case x of None \<Rightarrow> JNull | Some i \<Rightarrow> JInt i)"

lemma as_simps [simp]:
  "as_str (JStr s) = Inr s" "as_int (JInt i) = Inr i" "as_bool (JBool b) = Inr b"
  "as_opt_str (json_opt_str x) = Inr x" "as_opt_int (json_opt_int y) = Inr y"
  by (simp_all add: as_str_def as_int_def as_bool_def as_opt_str_def as_opt_int_def
      json_opt_str_def json_opt_int_def split: option.splits)

lemma as_strs_map [simp]: "as_strs (JArr (map JStr xs)) = Inr xs"
  by (simp add: as_strs_def py_iter_def rmap_map_inverse)

lemma jitem_JObj [simp]:
  "jitem (JObj kvs) k = (case map_of kvs k of Some v \<Rightarrow> Inr v | None \<Rightarrow> Inl (KeyError k))"
  by (simp add: jitem_def)

lemma jget_JObj [simp]:
  "jget (JObj kvs) k d = Inr (case map_of kvs k of Some v \<Rightarrow> v | None \<Rightarrow> d)"
  by (simp add: jget_def)

text \<open>Lookup in a canonical object: sorting the keys does not change what a key gives.\<close>

lemma map_of_sort_key:
  assumes "distinct (map fst kvs)"
  shows "map_of (sort_key fst kvs) = map_of kvs"
proof (rule map_of_eqI)
  show "set (map fst (sort_key fst kvs)) = set (map fst kvs)" by simp
next
  have "distinct (map fst (sort_key fst kvs))"
    using assms by (metis mset_eq_imp_distinct_iff mset_map mset_sort)
  then show "\<forall>k\<in>set (map fst (sort_key fst kvs)). map_of (sort_key fst kvs) k = map_of kvs k"
    using assms by (auto simp: map_of_is_SomeI intro!: map_of_is_SomeI)
qed

lemma map_of_canon_members: "map_of (map (\<lambda>(k, v). (k, canon v)) kvs) k = map_option canon (map_of kvs k)"
  by (induction kvs) auto

lemma map_of_canon:
  assumes "distinct (map fst kvs)"
  shows "map_of (sort_key fst (map (\<lambda>(k, v). (k, canon v)) kvs)) k = map_option canon (map_of kvs k)"
proof -
  have "distinct (map fst (map (\<lambda>(k, v). (k, canon v)) kvs))"
    using assms by (simp add: case_prod_unfold comp_def)
  then show ?thesis by (simp add: map_of_sort_key map_of_canon_members)
qed

lemma canon_opt [simp]: "canon (json_opt_str x) = json_opt_str x" "canon (json_opt_int y) = json_opt_int y"
  by (cases x; simp add: json_opt_str_def) (cases y; simp add: json_opt_int_def)

lemma canon_JStr [simp]: "canon \<circ> JStr = JStr"
  by (simp add: fun_eq_iff)

lemma wf_opt [simp]: "wf_json (json_opt_str x)" "wf_json (json_opt_int y)"
  by (cases x; simp add: json_opt_str_def) (cases y; simp add: json_opt_int_def)

section \<open>Bounded text\<close>

definition MAX_ID_BYTES :: nat where "MAX_ID_BYTES = 128"
definition MAX_TEXT_BYTES :: nat where "MAX_TEXT_BYTES = 1024"
definition MAX_STRUCTURED_OUTPUT_BYTES :: nat where "MAX_STRUCTURED_OUTPUT_BYTES = 16384"

definition required_text :: "string \<Rightarrow> string \<Rightarrow> nat \<Rightarrow> unit res" where
  "required_text v field_name maximum =
     (if py_blank v \<or> length v > maximum
      then Inl (ValueError (field_name @ '' must contain 1 to '' @ show_nat maximum @ '' UTF-8 bytes''))
      else Inr ())"

definition check_identifier :: "string \<Rightarrow> string \<Rightarrow> unit res" where
  "check_identifier v field_name = required_text v field_name MAX_ID_BYTES"

definition valid_id :: "string \<Rightarrow> bool" where
  "valid_id s = (\<not> py_blank s \<and> length s \<le> 128)"

lemma check_identifier_ok_iff [res_simps]: "check_identifier v f = Inr u \<longleftrightarrow> valid_id v"
  by (auto simp: check_identifier_def required_text_def valid_id_def MAX_ID_BYTES_def)

lemma required_text_ok_iff [res_simps]:
  "required_text v f m = Inr u \<longleftrightarrow> \<not> py_blank v \<and> length v \<le> m"
  by (auto simp: required_text_def)

lemma valid_id_nonempty: "valid_id s \<Longrightarrow> s \<noteq> []"
  by (auto simp: valid_id_def)

section \<open>Status enumerations\<close>

datatype availability = AvAvailable | AvBusy | AvDegraded | AvUnavailable
datatype mode = MoStarting | MoIdle | MoWorking | MoWaiting | MoPaused | MoFaulted | MoOffline
datatype safety = SaNormal | SaProtectiveStop | SaEmergencyStop | SaRecoveryRequired | SaUnknown
datatype health = HeHealthy | HeDegraded | HeFaulted | HeUnknown
datatype battery_status = BaCharging | BaDischarging | BaFull | BaNotPresent | BaUnknown
datatype assignment_status = AsAccepted | AsSucceeded | AsFailed | AsRejected | AsCancelled | AsUnknown
datatype cancellation_status = CsAccepted | CsRejected | CsAlreadyTerminal | CsUnknown
datatype lease_status = LsActive | LsRevoked | LsExpired

text \<open>A \<open>str\<close> enumeration: its members with their values, \<open>Enum(value)\<close> as a search.\<close>

definition enum_of :: "('e \<times> string) list \<Rightarrow> json \<Rightarrow> 'e res" where
  "enum_of members j = (case j of
      JStr s \<Rightarrow> (case find (\<lambda>m. snd m = s) members of
                  Some m \<Rightarrow> Inr (fst m) | None \<Rightarrow> Inl (ValueError ''not a valid enum value''))
    | _ \<Rightarrow> Inl (ValueError ''not a valid enum value''))"

fun availability_value :: "availability \<Rightarrow> string" where
  "availability_value AvAvailable = ''available''"
| "availability_value AvBusy = ''busy''"
| "availability_value AvDegraded = ''degraded''"
| "availability_value AvUnavailable = ''unavailable''"

fun mode_value :: "mode \<Rightarrow> string" where
  "mode_value MoStarting = ''starting''"
| "mode_value MoIdle = ''idle''"
| "mode_value MoWorking = ''working''"
| "mode_value MoWaiting = ''waiting''"
| "mode_value MoPaused = ''paused''"
| "mode_value MoFaulted = ''faulted''"
| "mode_value MoOffline = ''offline''"

fun safety_value :: "safety \<Rightarrow> string" where
  "safety_value SaNormal = ''normal''"
| "safety_value SaProtectiveStop = ''protective_stop''"
| "safety_value SaEmergencyStop = ''emergency_stop''"
| "safety_value SaRecoveryRequired = ''recovery_required''"
| "safety_value SaUnknown = ''unknown''"

fun health_value :: "health \<Rightarrow> string" where
  "health_value HeHealthy = ''healthy''"
| "health_value HeDegraded = ''degraded''"
| "health_value HeFaulted = ''faulted''"
| "health_value HeUnknown = ''unknown''"

fun battery_status_value :: "battery_status \<Rightarrow> string" where
  "battery_status_value BaCharging = ''charging''"
| "battery_status_value BaDischarging = ''discharging''"
| "battery_status_value BaFull = ''full''"
| "battery_status_value BaNotPresent = ''not_present''"
| "battery_status_value BaUnknown = ''unknown''"

fun assignment_status_value :: "assignment_status \<Rightarrow> string" where
  "assignment_status_value AsAccepted = ''accepted''"
| "assignment_status_value AsSucceeded = ''succeeded''"
| "assignment_status_value AsFailed = ''failed''"
| "assignment_status_value AsRejected = ''rejected''"
| "assignment_status_value AsCancelled = ''cancelled''"
| "assignment_status_value AsUnknown = ''unknown''"

fun cancellation_status_value :: "cancellation_status \<Rightarrow> string" where
  "cancellation_status_value CsAccepted = ''accepted''"
| "cancellation_status_value CsRejected = ''rejected''"
| "cancellation_status_value CsAlreadyTerminal = ''already_terminal''"
| "cancellation_status_value CsUnknown = ''unknown''"

fun lease_status_value :: "lease_status \<Rightarrow> string" where
  "lease_status_value LsActive = ''active''"
| "lease_status_value LsRevoked = ''revoked''"
| "lease_status_value LsExpired = ''expired''"

definition availability_of :: "json \<Rightarrow> availability res" where
  "availability_of = enum_of (map (\<lambda>e. (e, availability_value e))
     [AvAvailable, AvBusy, AvDegraded, AvUnavailable])"

definition mode_of :: "json \<Rightarrow> mode res" where
  "mode_of = enum_of (map (\<lambda>e. (e, mode_value e))
     [MoStarting, MoIdle, MoWorking, MoWaiting, MoPaused, MoFaulted, MoOffline])"

definition safety_of :: "json \<Rightarrow> safety res" where
  "safety_of = enum_of (map (\<lambda>e. (e, safety_value e))
     [SaNormal, SaProtectiveStop, SaEmergencyStop, SaRecoveryRequired, SaUnknown])"

definition health_of :: "json \<Rightarrow> health res" where
  "health_of = enum_of (map (\<lambda>e. (e, health_value e)) [HeHealthy, HeDegraded, HeFaulted, HeUnknown])"

definition battery_status_of :: "json \<Rightarrow> battery_status res" where
  "battery_status_of = enum_of (map (\<lambda>e. (e, battery_status_value e))
     [BaCharging, BaDischarging, BaFull, BaNotPresent, BaUnknown])"

definition assignment_status_of :: "json \<Rightarrow> assignment_status res" where
  "assignment_status_of = enum_of (map (\<lambda>e. (e, assignment_status_value e))
     [AsAccepted, AsSucceeded, AsFailed, AsRejected, AsCancelled, AsUnknown])"

definition cancellation_status_of :: "json \<Rightarrow> cancellation_status res" where
  "cancellation_status_of = enum_of (map (\<lambda>e. (e, cancellation_status_value e))
     [CsAccepted, CsRejected, CsAlreadyTerminal, CsUnknown])"

definition lease_status_of :: "string \<Rightarrow> lease_status res" where
  "lease_status_of s = enum_of (map (\<lambda>e. (e, lease_status_value e)) [LsActive, LsRevoked, LsExpired]) (JStr s)"

lemmas enum_defs = enum_of_def availability_of_def mode_of_def safety_of_def health_of_def
  battery_status_of_def assignment_status_of_def cancellation_status_of_def lease_status_of_def

lemma enum_roundtrip [simp]:
  "availability_of (JStr (availability_value a)) = Inr a"
  "mode_of (JStr (mode_value m)) = Inr m"
  "safety_of (JStr (safety_value s)) = Inr s"
  "health_of (JStr (health_value h)) = Inr h"
  "battery_status_of (JStr (battery_status_value b)) = Inr b"
  "assignment_status_of (JStr (assignment_status_value t)) = Inr t"
  "cancellation_status_of (JStr (cancellation_status_value c)) = Inr c"
  "lease_status_of (lease_status_value l) = Inr l"
  by ((cases a; simp add: enum_defs), (cases m; simp add: enum_defs), (cases s; simp add: enum_defs),
      (cases h; simp add: enum_defs), (cases b; simp add: enum_defs), (cases t; simp add: enum_defs),
      (cases c; simp add: enum_defs), (cases l; simp add: enum_defs))

lemma assignment_status_value_inject [simp]:
  "assignment_status_value a = assignment_status_value b \<longleftrightarrow> a = b"
  by (metis enum_roundtrip(6) sum.inject(2))

section \<open>Plan steps, plans and goals\<close>

record plan_step =
  step_id :: string
  step_description :: string
  assigned_robot_id :: string
  step_capability :: string
  step_inputs :: json
  completion_criteria :: string
  depends_on :: "string list"
  step_resources :: "string list"
  not_before_ms :: "int option"
  step_deadline_ms :: "int option"

definition post_init_plan_step :: "plan_step \<Rightarrow> plan_step res" where
  "post_init_plan_step s =
     rbind (check_identifier (step_id s) ''step_id'') (\<lambda>_.
     rbind (required_text (step_description s) ''step description'' 4096) (\<lambda>_.
     rbind (check_identifier (assigned_robot_id s) ''assigned_robot_id'') (\<lambda>_.
     rbind (check_identifier (step_capability s) ''capability'') (\<lambda>_.
     rbind (required_text (completion_criteria s) ''completion criteria'' 4096) (\<lambda>_.
     rbind (rforall (\<lambda>d. check_identifier d ''dependency'') (depends_on s)) (\<lambda>_.
     rbind (require (distinct (step_resources s)) (ValueError ''step resources must be unique'')) (\<lambda>_.
     rbind (rforall (\<lambda>r. check_identifier r ''step resource'') (step_resources s)) (\<lambda>_.
     rbind (require (case not_before_ms s of None \<Rightarrow> True | Some t \<Rightarrow> \<not> t < 0)
              (ValueError ''not_before_ms cannot be negative'')) (\<lambda>_.
     rbind (require (case step_deadline_ms s of None \<Rightarrow> True | Some t \<Rightarrow> \<not> t < 0)
              (ValueError ''step deadline cannot be negative'')) (\<lambda>_.
     rbind (require (case (not_before_ms s, step_deadline_ms s) of
                (Some a, Some b) \<Rightarrow> \<not> a > b | _ \<Rightarrow> True)
              (ValueError ''step execution window is invalid'')) (\<lambda>_.
     Inr s)))))))))))"

definition plan_step_payload :: "plan_step \<Rightarrow> json" where
  "plan_step_payload s = JObj
     [(''step_id'', JStr (step_id s)),
      (''description'', JStr (step_description s)),
      (''assigned_robot_id'', JStr (assigned_robot_id s)),
      (''capability'', JStr (step_capability s)),
      (''inputs'', step_inputs s),
      (''completion_criteria'', JStr (completion_criteria s)),
      (''depends_on'', JArr (map JStr (depends_on s))),
      (''resources'', JArr (map JStr (step_resources s))),
      (''not_before_ms'', json_opt_int (not_before_ms s)),
      (''deadline_ms'', json_opt_int (step_deadline_ms s))]"

definition decode_step :: "json \<Rightarrow> plan_step res" where
  "decode_step v =
     rbind (rbind (jitem v ''step_id'') as_str) (\<lambda>sid.
     rbind (rbind (jitem v ''description'') as_str) (\<lambda>descr.
     rbind (rbind (jitem v ''assigned_robot_id'') as_str) (\<lambda>robot.
     rbind (rbind (jitem v ''capability'') as_str) (\<lambda>cap.
     rbind (jitem v ''inputs'') (\<lambda>inp.
     rbind (rbind (jitem v ''completion_criteria'') as_str) (\<lambda>crit.
     rbind (rbind (jget v ''depends_on'' (JArr [])) as_strs) (\<lambda>deps.
     rbind (rbind (jget v ''resources'' (JArr [])) as_strs) (\<lambda>ress.
     rbind (rbind (jget v ''not_before_ms'' JNull) as_opt_int) (\<lambda>nb.
     rbind (rbind (jget v ''deadline_ms'' JNull) as_opt_int) (\<lambda>dl.
     post_init_plan_step
       \<lparr>step_id = sid, step_description = descr, assigned_robot_id = robot, step_capability = cap,
        step_inputs = inp, completion_criteria = crit, depends_on = deps, step_resources = ress,
        not_before_ms = nb, step_deadline_ms = dl\<rparr>))))))))))"

lemma post_init_plan_step_id: "post_init_plan_step s = Inr t \<Longrightarrow> t = s"
  by (auto simp: post_init_plan_step_def res_simps)

text \<open>Two steps that differ in their inputs only are valid together.\<close>

definition canon_step :: "plan_step \<Rightarrow> plan_step" where
  "canon_step s = s\<lparr>step_inputs := canon (step_inputs s)\<rparr>"

lemma post_init_canon_step:
  "post_init_plan_step s = Inr s \<Longrightarrow> post_init_plan_step (canon_step s) = Inr (canon_step s)"
  by (auto simp: post_init_plan_step_def canon_step_def res_simps)

lemma decode_step_payload:
  "post_init_plan_step s = Inr s \<Longrightarrow> decode_step (plan_step_payload s) = Inr s"
  by (cases s) (simp add: decode_step_def plan_step_payload_def)

lemma decode_step_canon_payload:
  "post_init_plan_step s = Inr s \<Longrightarrow> decode_step (canon (plan_step_payload s)) = Inr (canon_step s)"
  using post_init_canon_step[of s]
  by (cases s) (simp add: decode_step_def plan_step_payload_def map_of_canon canon_step_def)

lemma wf_plan_step_payload [simp]: "wf_json (plan_step_payload s) \<longleftrightarrow> wf_json (step_inputs s)"
  by (simp add: plan_step_payload_def)

record shared_goal =
  goal_id :: string
  goal_description :: string
  participant_ids :: "string list"
  goal_constraints :: json
  goal_deadline_ms :: "int option"

text \<open>\<open>json.dumps(value, allow_nan=False)\<close> refuses the non-finite floats.\<close>

fun json_finite :: "json \<Rightarrow> bool" where
  "json_finite (JFloat t) = (t \<notin> {''NaN'', ''Infinity'', ''-Infinity''})"
| "json_finite (JArr vs) = (\<forall>v\<in>set vs. json_finite v)"
| "json_finite (JObj kvs) = (\<forall>kv\<in>set kvs. json_finite (snd kv))"
| "json_finite _ = True"

definition is_object :: "json \<Rightarrow> bool" where
  "is_object j = (case j of JObj _ \<Rightarrow> True | _ \<Rightarrow> False)"

definition post_init_shared_goal :: "shared_goal \<Rightarrow> shared_goal res" where
  "post_init_shared_goal g =
     rbind (check_identifier (goal_id g) ''goal_id'') (\<lambda>_.
     rbind (required_text (goal_description g) ''goal description'' 4096) (\<lambda>_.
     rbind (require (1 \<le> length (participant_ids g) \<and> length (participant_ids g) \<le> 256)
              (ValueError ''goal requires 1 to 256 participants'')) (\<lambda>_.
     rbind (require (distinct (participant_ids g)) (ValueError ''goal participants must be unique'')) (\<lambda>_.
     rbind (rforall (\<lambda>p. check_identifier p ''participant_id'') (participant_ids g)) (\<lambda>_.
     rbind (require (is_object (goal_constraints g))
              (TypeError ''goal constraints must be a JSON object'')) (\<lambda>_.
     rbind (require (json_finite (goal_constraints g))
              (ValueError ''goal constraints must be JSON serializable'')) (\<lambda>_.
     rbind (require (case goal_deadline_ms g of None \<Rightarrow> True | Some t \<Rightarrow> \<not> t < 0)
              (ValueError ''goal deadline must be a non-negative integer'')) (\<lambda>_.
     Inr g))))))))"

definition shared_goal_payload :: "shared_goal \<Rightarrow> json" where
  "shared_goal_payload g = JObj
     [(''goal_id'', JStr (goal_id g)),
      (''description'', JStr (goal_description g)),
      (''participant_ids'', JArr (map JStr (participant_ids g))),
      (''constraints'', goal_constraints g),
      (''deadline_ms'', json_opt_int (goal_deadline_ms g))]"

definition decode_goal_value :: "json \<Rightarrow> shared_goal res" where
  "decode_goal_value v =
     rbind (rbind (jitem v ''goal_id'') as_str) (\<lambda>gid.
     rbind (rbind (jitem v ''description'') as_str) (\<lambda>descr.
     rbind (rbind (jitem v ''participant_ids'') as_strs) (\<lambda>ps.
     rbind (jget v ''constraints'' (JObj [])) (\<lambda>cs.
     rbind (rbind (jget v ''deadline_ms'' JNull) as_opt_int) (\<lambda>dl.
     post_init_shared_goal
       \<lparr>goal_id = gid, goal_description = descr, participant_ids = ps,
        goal_constraints = cs, goal_deadline_ms = dl\<rparr>)))))"

record plan =
  plan_id :: string
  plan_goal_id :: string
  planner_id :: string
  plan_summary :: string
  plan_steps :: "plan_step list"
  plan_revision :: int
  supersedes_plan_id :: "string option"

definition post_init_plan :: "plan \<Rightarrow> plan res" where
  "post_init_plan p =
     rbind (check_identifier (plan_id p) ''plan_id'') (\<lambda>_.
     rbind (check_identifier (plan_goal_id p) ''goal_id'') (\<lambda>_.
     rbind (check_identifier (planner_id p) ''planner_id'') (\<lambda>_.
     rbind (required_text (plan_summary p) ''plan summary'' 4096) (\<lambda>_.
     rbind (require (\<not> plan_revision p < 1) (ValueError ''plan revision must be positive'')) (\<lambda>_.
     rbind (require (\<not> (plan_revision p = 1 \<and> supersedes_plan_id p \<noteq> None))
              (ValueError ''initial plan revision cannot supersede another plan'')) (\<lambda>_.
     rbind (if plan_revision p > 1 then
              (case supersedes_plan_id p of
                 None \<Rightarrow> Inl (ValueError ''later plan revision must identify its predecessor'')
               | Some prev \<Rightarrow>
                   rbind (check_identifier prev ''supersedes_plan_id'') (\<lambda>_.
                   require (prev \<noteq> plan_id p) (ValueError ''plan revision cannot supersede itself'')))
            else Inr ()) (\<lambda>_.
     rbind (require (1 \<le> length (plan_steps p) \<and> length (plan_steps p) \<le> 256)
              (ValueError ''plan requires 1 to 256 steps'')) (\<lambda>_.
     Inr p))))))))"

definition plan_payload :: "plan \<Rightarrow> json" where
  "plan_payload p = JObj
     [(''plan_id'', JStr (plan_id p)),
      (''goal_id'', JStr (plan_goal_id p)),
      (''planner_id'', JStr (planner_id p)),
      (''summary'', JStr (plan_summary p)),
      (''steps'', JArr (map plan_step_payload (plan_steps p))),
      (''revision'', JInt (plan_revision p)),
      (''supersedes_plan_id'', json_opt_str (supersedes_plan_id p))]"

definition decode_plan_value :: "json \<Rightarrow> plan res" where
  "decode_plan_value v =
     rbind (rbind (jitem v ''plan_id'') as_str) (\<lambda>pid.
     rbind (rbind (jitem v ''goal_id'') as_str) (\<lambda>gid.
     rbind (rbind (jitem v ''planner_id'') as_str) (\<lambda>plr.
     rbind (rbind (jitem v ''summary'') as_str) (\<lambda>summ.
     rbind (rbind (rbind (jitem v ''steps'') py_iter) (rmap decode_step)) (\<lambda>ss.
     rbind (rbind (jget v ''revision'' (JInt 1)) as_int) (\<lambda>rev.
     rbind (rbind (jget v ''supersedes_plan_id'' JNull) as_opt_str) (\<lambda>sup.
     post_init_plan
       \<lparr>plan_id = pid, plan_goal_id = gid, planner_id = plr, plan_summary = summ,
        plan_steps = ss, plan_revision = rev, supersedes_plan_id = sup\<rparr>)))))))"

section \<open>Assignments\<close>

record assignment =
  assignment_id :: string
  asg_goal_id :: string
  asg_plan_id :: string
  asg_step :: plan_step
  authority_lease_id :: "string option"

definition post_init_assignment :: "assignment \<Rightarrow> assignment res" where
  "post_init_assignment a =
     rbind (check_identifier (assignment_id a) ''assignment_id'') (\<lambda>_.
     rbind (check_identifier (asg_goal_id a) ''goal_id'') (\<lambda>_.
     rbind (check_identifier (asg_plan_id a) ''plan_id'') (\<lambda>_.
     rbind (case authority_lease_id a of
              None \<Rightarrow> Inr () | Some l \<Rightarrow> check_identifier l ''authority_lease_id'') (\<lambda>_.
     Inr a))))"

definition assignment_payload :: "assignment \<Rightarrow> json" where
  "assignment_payload a = JObj
     [(''assignment_id'', JStr (assignment_id a)),
      (''goal_id'', JStr (asg_goal_id a)),
      (''plan_id'', JStr (asg_plan_id a)),
      (''step'', plan_step_payload (asg_step a)),
      (''authority_lease_id'', json_opt_str (authority_lease_id a))]"

definition decode_assignment_value :: "json \<Rightarrow> assignment res" where
  "decode_assignment_value v =
     rbind (rbind (jitem v ''assignment_id'') as_str) (\<lambda>aid.
     rbind (rbind (jitem v ''goal_id'') as_str) (\<lambda>gid.
     rbind (rbind (jitem v ''plan_id'') as_str) (\<lambda>pid.
     rbind (rbind (jitem v ''step'') decode_step) (\<lambda>st.
     rbind (rbind (jget v ''authority_lease_id'' JNull) as_opt_str) (\<lambda>lease.
     post_init_assignment
       \<lparr>assignment_id = aid, asg_goal_id = gid, asg_plan_id = pid, asg_step = st,
        authority_lease_id = lease\<rparr>)))))"

text \<open>A constructed assignment: both constructors accepted it and its inputs are JSON.\<close>

definition wf_assignment :: "assignment \<Rightarrow> bool" where
  "wf_assignment a =
     (post_init_assignment a = Inr a \<and> post_init_plan_step (asg_step a) = Inr (asg_step a) \<and>
      wf_json (step_inputs (asg_step a)))"

definition canon_assignment :: "assignment \<Rightarrow> assignment" where
  "canon_assignment a = a\<lparr>asg_step := canon_step (asg_step a)\<rparr>"

lemma canon_assignment_simps [simp]:
  "assignment_id (canon_assignment a) = assignment_id a"
  "asg_goal_id (canon_assignment a) = asg_goal_id a"
  "asg_plan_id (canon_assignment a) = asg_plan_id a"
  "authority_lease_id (canon_assignment a) = authority_lease_id a"
  "asg_step (canon_assignment a) = canon_step (asg_step a)"
  by (simp_all add: canon_assignment_def)

lemma canon_step_simps [simp]:
  "step_id (canon_step s) = step_id s" "assigned_robot_id (canon_step s) = assigned_robot_id s"
  "depends_on (canon_step s) = depends_on s" "step_resources (canon_step s) = step_resources s"
  "step_capability (canon_step s) = step_capability s"
  by (simp_all add: canon_step_def)

lemma post_init_canon_assignment:
  "post_init_assignment a = Inr a \<Longrightarrow> post_init_assignment (canon_assignment a) = Inr (canon_assignment a)"
  by (auto simp: post_init_assignment_def canon_assignment_def res_simps)

lemma decode_assignment_payload:
  "wf_assignment a \<Longrightarrow> decode_assignment_value (assignment_payload a) = Inr a"
  by (cases a) (simp add: decode_assignment_value_def assignment_payload_def wf_assignment_def
      decode_step_payload)

lemma decode_assignment_canon_payload:
  "wf_assignment a \<Longrightarrow> decode_assignment_value (canon (assignment_payload a)) = Inr (canon_assignment a)"
  using post_init_canon_assignment[of a]
  by (cases a) (simp add: decode_assignment_value_def assignment_payload_def wf_assignment_def
      decode_step_canon_payload map_of_canon canon_assignment_def)

lemma wf_assignment_payload [simp]:
  "wf_json (assignment_payload a) \<longleftrightarrow> wf_json (step_inputs (asg_step a))"
  by (simp add: assignment_payload_def)

section \<open>Leases\<close>

record authority_lease =
  lease_id :: string
  grantor_robot_id :: string
  lease_issuer_id :: string
  lease_capabilities :: "string list"
  issued_at_ms :: int
  expires_at_ms :: int
  maximum_clock_uncertainty_ms :: int
  lease_revision :: int
  lease_status :: lease_status

definition post_init_lease :: "authority_lease \<Rightarrow> authority_lease res" where
  "post_init_lease l =
     rbind (check_identifier (lease_id l) ''lease_id'') (\<lambda>_.
     rbind (check_identifier (grantor_robot_id l) ''grantor_robot_id'') (\<lambda>_.
     rbind (check_identifier (lease_issuer_id l) ''issuer_id'') (\<lambda>_.
     rbind (require (lease_capabilities l \<noteq> [] \<and> length (lease_capabilities l) \<le> 256)
              (ValueError ''lease requires 1 to 256 capabilities'')) (\<lambda>_.
     rbind (require (distinct (lease_capabilities l)) (ValueError ''lease capabilities must be unique'')) (\<lambda>_.
     rbind (rforall (\<lambda>c. check_identifier c ''lease capability'') (lease_capabilities l)) (\<lambda>_.
     rbind (require (\<not> (issued_at_ms l < 0 \<or> expires_at_ms l \<le> issued_at_ms l))
              (ValueError ''lease time window is invalid'')) (\<lambda>_.
     rbind (require (0 \<le> maximum_clock_uncertainty_ms l \<and> maximum_clock_uncertainty_ms l \<le> 60000)
              (ValueError ''lease clock uncertainty is outside the core profile'')) (\<lambda>_.
     rbind (require (\<not> lease_revision l < 1) (ValueError ''lease revision must be positive'')) (\<lambda>_.
     Inr l)))))))))"

lemma post_init_lease_id: "post_init_lease l = Inr m \<Longrightarrow> m = l"
  by (auto simp: post_init_lease_def res_simps)

section \<open>Outcomes\<close>

text \<open>The \<open>status\<close> field of a constructed outcome is never \<open>None\<close>: \<open>__post_init__\<close> resolves it.\<close>

record outcome =
  oc_assignment_id :: string
  oc_robot_id :: string
  oc_succeeded :: bool
  oc_description :: string
  oc_status :: assignment_status
  oc_outputs :: json

definition resolve_status :: "bool \<Rightarrow> assignment_status option \<Rightarrow> assignment_status" where
  "resolve_status succ st =
     (case st of Some s \<Rightarrow> s | None \<Rightarrow> if succ then AsSucceeded else AsFailed)"

definition mk_outcome ::
  "string \<Rightarrow> string \<Rightarrow> bool \<Rightarrow> string \<Rightarrow> assignment_status option \<Rightarrow> json \<Rightarrow> outcome res" where
  "mk_outcome aid rid succ descr st outs =
     rbind (check_identifier aid ''assignment_id'') (\<lambda>_.
     rbind (check_identifier rid ''robot_id'') (\<lambda>_.
     rbind (required_text descr ''outcome description'' 4096) (\<lambda>_.
     let resolved = resolve_status succ st in
     rbind (require (resolved \<noteq> AsAccepted) (ValueError ''accepted is not a terminal outcome status'')) (\<lambda>_.
     rbind (require (succ = (resolved = AsSucceeded))
              (ValueError ''outcome succeeded flag and terminal status disagree'')) (\<lambda>_.
     rbind (require (is_object outs) (ValueError ''outcome outputs must be an object'')) (\<lambda>_.
     rbind (require (length (json_dumps outs) \<le> MAX_STRUCTURED_OUTPUT_BYTES)
              (ValueError ''outcome outputs exceed 16384 UTF-8 bytes'')) (\<lambda>_.
     Inr \<lparr>oc_assignment_id = aid, oc_robot_id = rid, oc_succeeded = succ, oc_description = descr,
          oc_status = resolved, oc_outputs = outs\<rparr>)))))))"

definition outcome_payload :: "outcome \<Rightarrow> json" where
  "outcome_payload oc = JObj
     [(''assignment_id'', JStr (oc_assignment_id oc)),
      (''robot_id'', JStr (oc_robot_id oc)),
      (''succeeded'', JBool (oc_succeeded oc)),
      (''description'', JStr (oc_description oc)),
      (''status'', JStr (assignment_status_value (oc_status oc))),
      (''outputs'', oc_outputs oc)]"

definition decode_outcome_value :: "json \<Rightarrow> outcome res" where
  "decode_outcome_value v =
     rbind (rbind (jitem v ''assignment_id'') as_str) (\<lambda>aid.
     rbind (rbind (jitem v ''robot_id'') as_str) (\<lambda>rid.
     rbind (rbind (jitem v ''succeeded'') as_bool) (\<lambda>succ.
     rbind (rbind (jitem v ''description'') as_str) (\<lambda>descr.
     rbind (rbind (jitem v ''status'') assignment_status_of) (\<lambda>st.
     rbind (jget v ''outputs'' (JObj [])) (\<lambda>outs.
     mk_outcome aid rid succ descr (Some st) outs))))))"

text \<open>What \<open>__post_init__\<close> guarantees of a constructed outcome.\<close>

definition valid_outcome :: "outcome \<Rightarrow> bool" where
  "valid_outcome oc =
     (valid_id (oc_assignment_id oc) \<and> valid_id (oc_robot_id oc) \<and>
      \<not> py_blank (oc_description oc) \<and> length (oc_description oc) \<le> 4096 \<and>
      oc_status oc \<noteq> AsAccepted \<and> (oc_succeeded oc \<longleftrightarrow> oc_status oc = AsSucceeded) \<and>
      is_object (oc_outputs oc) \<and> length (json_dumps (oc_outputs oc)) \<le> MAX_STRUCTURED_OUTPUT_BYTES)"

lemma mk_outcome_Inr_iff:
  "mk_outcome aid rid succ descr st outs = Inr oc \<longleftrightarrow>
     valid_outcome oc \<and>
     oc = \<lparr>oc_assignment_id = aid, oc_robot_id = rid, oc_succeeded = succ, oc_description = descr,
           oc_status = resolve_status succ st, oc_outputs = outs\<rparr>"
  by (auto simp: mk_outcome_def valid_outcome_def res_simps Let_def)

definition canon_outcome :: "outcome \<Rightarrow> outcome" where
  "canon_outcome oc = oc\<lparr>oc_outputs := canon (oc_outputs oc)\<rparr>"

lemma canon_outcome_simps [simp]:
  "oc_assignment_id (canon_outcome oc) = oc_assignment_id oc"
  "oc_robot_id (canon_outcome oc) = oc_robot_id oc"
  "oc_succeeded (canon_outcome oc) = oc_succeeded oc"
  "oc_description (canon_outcome oc) = oc_description oc"
  "oc_status (canon_outcome oc) = oc_status oc"
  "oc_outputs (canon_outcome oc) = canon (oc_outputs oc)"
  by (simp_all add: canon_outcome_def)

lemma sort_key_idem: "sort_key f (sort_key f xs) = sort_key f xs"
  by (simp add: sort_key_id_if_sorted)

lemma map_canon_sort:
  "map (\<lambda>(k, v). (k, g v)) (sort_key fst (kvs :: (string \<times> json) list)) =
   sort_key fst (map (\<lambda>(k, v). (k, g v)) kvs)"
proof (induction kvs)
  case (Cons kv kvs)
  have ins: "map (\<lambda>(k, v). (k, g v)) (insort_key fst kv xs) =
             insort_key fst (fst kv, g (snd kv)) (map (\<lambda>(k, v). (k, g v)) xs)" for xs
    by (induction xs) (auto simp: case_prod_unfold)
  show ?case using Cons ins by (cases kv) simp
qed simp

lemma canon_canon [simp]: "canon (canon v) = canon v"
proof (induction v)
  case (JObj kvs)
  have "map (\<lambda>(k, v). (k, canon v)) (map (\<lambda>(k, v). (k, canon v)) kvs) = map (\<lambda>(k, v). (k, canon v)) kvs"
    using JObj by (auto simp: snds.simps)
  then show ?case by (simp only: canon.simps map_canon_sort sort_key_idem)
qed (auto simp: comp_def)

lemma is_object_canon [simp]: "is_object (canon v) = is_object v"
  by (cases v) (simp_all add: is_object_def)

lemma json_dumps_canon [simp]: "json_dumps (canon v) = json_dumps v"
  by (simp add: json_dumps_def)

lemma valid_canon_outcome [simp]: "valid_outcome (canon_outcome oc) = valid_outcome oc"
  by (simp add: valid_outcome_def)

lemma decode_outcome_canon_payload:
  "valid_outcome oc \<Longrightarrow> decode_outcome_value (canon (outcome_payload oc)) = Inr (canon_outcome oc)"
  by (cases oc) (simp add: decode_outcome_value_def outcome_payload_def map_of_canon
      mk_outcome_Inr_iff canon_outcome_def resolve_status_def valid_outcome_def)

lemma wf_outcome_payload [simp]: "wf_json (outcome_payload oc) \<longleftrightarrow> wf_json (oc_outputs oc)"
  by (simp add: outcome_payload_def)

section \<open>Acknowledgements, queries, cancellations and snapshots\<close>

record acknowledgement =
  ack_assignment_id :: string
  ack_robot_id :: string
  ack_status :: assignment_status
  ack_description :: string

definition post_init_acknowledgement :: "acknowledgement \<Rightarrow> acknowledgement res" where
  "post_init_acknowledgement a =
     rbind (check_identifier (ack_assignment_id a) ''assignment_id'') (\<lambda>_.
     rbind (check_identifier (ack_robot_id a) ''robot_id'') (\<lambda>_.
     rbind (required_text (ack_description a) ''acknowledgement description'' 4096) (\<lambda>_.
     Inr a)))"

definition acknowledgement_payload :: "acknowledgement \<Rightarrow> json" where
  "acknowledgement_payload a = JObj
     [(''assignment_id'', JStr (ack_assignment_id a)),
      (''robot_id'', JStr (ack_robot_id a)),
      (''status'', JStr (assignment_status_value (ack_status a))),
      (''description'', JStr (ack_description a))]"

record assignment_query =
  query_assignment_id :: string
  query_robot_id :: string

definition post_init_query :: "assignment_query \<Rightarrow> assignment_query res" where
  "post_init_query q =
     rbind (check_identifier (query_assignment_id q) ''assignment_id'') (\<lambda>_.
     rbind (check_identifier (query_robot_id q) ''robot_id'') (\<lambda>_.
     Inr q))"

definition query_payload :: "assignment_query \<Rightarrow> json" where
  "query_payload q = JObj
     [(''assignment_id'', JStr (query_assignment_id q)),
      (''robot_id'', JStr (query_robot_id q))]"

record cancellation_request =
  cr_assignment_id :: string
  cr_robot_id :: string
  cr_reason :: string

definition post_init_cancellation_request :: "cancellation_request \<Rightarrow> cancellation_request res" where
  "post_init_cancellation_request c =
     rbind (check_identifier (cr_assignment_id c) ''assignment_id'') (\<lambda>_.
     rbind (check_identifier (cr_robot_id c) ''robot_id'') (\<lambda>_.
     rbind (required_text (cr_reason c) ''cancellation reason'' 4096) (\<lambda>_.
     Inr c)))"

definition cancellation_request_payload :: "cancellation_request \<Rightarrow> json" where
  "cancellation_request_payload c = JObj
     [(''assignment_id'', JStr (cr_assignment_id c)),
      (''robot_id'', JStr (cr_robot_id c)),
      (''reason'', JStr (cr_reason c))]"

record cancellation_ack =
  ca_assignment_id :: string
  ca_robot_id :: string
  ca_status :: cancellation_status
  ca_description :: string

definition post_init_cancellation_ack :: "cancellation_ack \<Rightarrow> cancellation_ack res" where
  "post_init_cancellation_ack c =
     rbind (check_identifier (ca_assignment_id c) ''assignment_id'') (\<lambda>_.
     rbind (check_identifier (ca_robot_id c) ''robot_id'') (\<lambda>_.
     rbind (required_text (ca_description c) ''cancellation description'' 4096) (\<lambda>_.
     Inr c)))"

definition cancellation_ack_payload :: "cancellation_ack \<Rightarrow> json" where
  "cancellation_ack_payload c = JObj
     [(''assignment_id'', JStr (ca_assignment_id c)),
      (''robot_id'', JStr (ca_robot_id c)),
      (''status'', JStr (cancellation_status_value (ca_status c))),
      (''description'', JStr (ca_description c))]"

record snapshot =
  sn_assignment_id :: string
  sn_robot_id :: string
  sn_status :: assignment_status
  sn_description :: string
  sn_fingerprint :: string
  sn_outcome :: "outcome option"

definition post_init_snapshot :: "snapshot \<Rightarrow> snapshot res" where
  "post_init_snapshot s =
     rbind (check_identifier (sn_assignment_id s) ''assignment_id'') (\<lambda>_.
     rbind (check_identifier (sn_robot_id s) ''robot_id'') (\<lambda>_.
     rbind (required_text (sn_description s) ''snapshot description'' 4096) (\<lambda>_.
     rbind (required_text (sn_fingerprint s) ''fingerprint'' 128) (\<lambda>_.
     (case sn_outcome s of
        None \<Rightarrow> Inr s
      | Some oc \<Rightarrow>
          rbind (require (oc_assignment_id oc = sn_assignment_id s)
                   (ValueError ''snapshot outcome assignment_id does not match'')) (\<lambda>_.
          rbind (require (oc_robot_id oc = sn_robot_id s)
                   (ValueError ''snapshot outcome robot_id does not match'')) (\<lambda>_.
          rbind (require (oc_status oc = sn_status s)
                   (ValueError ''snapshot outcome status does not match'')) (\<lambda>_.
          Inr s)))))))) "

definition snapshot_payload :: "snapshot \<Rightarrow> json" where
  "snapshot_payload s = JObj
     [(''assignment_id'', JStr (sn_assignment_id s)),
      (''robot_id'', JStr (sn_robot_id s)),
      (''status'', JStr (assignment_status_value (sn_status s))),
      (''description'', JStr (sn_description s)),
      (''fingerprint'', JStr (sn_fingerprint s)),
      (''outcome'', case sn_outcome s of None \<Rightarrow> JNull | Some oc \<Rightarrow> outcome_payload oc)]"

lemma post_init_snapshot_SomeD:
  "post_init_snapshot s = Inr t \<Longrightarrow> sn_outcome s = Some oc \<Longrightarrow>
   t = s \<and> oc_assignment_id oc = sn_assignment_id s \<and> oc_robot_id oc = sn_robot_id s \<and>
   oc_status oc = sn_status s"
  by (auto simp: post_init_snapshot_def res_simps)

section \<open>Stored text\<close>

text \<open>
  The columns \<open>assignment_json\<close>, \<open>outcome_json\<close>, \<open>goal_json\<close> and \<open>plan_json\<close> hold canonical JSON
  text; the decoders parse it. \<open>json.JSONDecodeError\<close> is a \<open>ValueError\<close>.
\<close>

definition loads_res :: "string \<Rightarrow> json res" where
  "loads_res s = (case json_loads s of Some v \<Rightarrow> Inr v | None \<Rightarrow> Inl (ValueError ''JSONDecodeError''))"

definition outcome_json :: "outcome \<Rightarrow> string" where
  "outcome_json oc = json_dumps (outcome_payload oc)"

definition decode_outcome :: "string \<Rightarrow> outcome res" where
  "decode_outcome s = rbind (loads_res s) decode_outcome_value"

definition assignment_json :: "assignment \<Rightarrow> string" where
  "assignment_json a = json_dumps (assignment_payload a)"

definition decode_assignment :: "string \<Rightarrow> assignment res" where
  "decode_assignment s = rbind (loads_res s) decode_assignment_value"

definition decode_goal :: "string \<Rightarrow> shared_goal res" where
  "decode_goal s = rbind (loads_res s) decode_goal_value"

definition decode_plan :: "string \<Rightarrow> plan res" where
  "decode_plan s = rbind (loads_res s) decode_plan_value"

lemma decode_assignment_json:
  assumes "wf_assignment a"
  shows "decode_assignment (assignment_json a) = Inr (canon_assignment a)"
proof -
  have "wf_json (assignment_payload a)" using assms by (simp add: wf_assignment_def)
  then show ?thesis
    by (simp add: decode_assignment_def loads_res_def assignment_json_def json_loads_dumps_wf
        decode_assignment_canon_payload assms)
qed

lemma decode_outcome_json:
  assumes "valid_outcome oc" and "wf_json (oc_outputs oc)"
  shows "decode_outcome (outcome_json oc) = Inr (canon_outcome oc)"
  using assms by (simp add: decode_outcome_def loads_res_def outcome_json_def json_loads_dumps_wf
      decode_outcome_canon_payload)

definition canon_goal :: "shared_goal \<Rightarrow> shared_goal" where
  "canon_goal g = g\<lparr>goal_constraints := canon (goal_constraints g)\<rparr>"

definition canon_plan :: "plan \<Rightarrow> plan" where
  "canon_plan p = p\<lparr>plan_steps := map canon_step (plan_steps p)\<rparr>"

lemma json_finite_canon [simp]: "json_finite (canon v) = json_finite v"
proof (induction v)
  case (JObj kvs)
  then show ?case by (force simp: snds.simps)
qed auto

lemma decode_goal_text:
  assumes "post_init_shared_goal g = Inr g" and "wf_json (goal_constraints g)"
  shows "decode_goal (json_dumps (shared_goal_payload g)) = Inr (canon_goal g)"
proof -
  have wf: "wf_json (shared_goal_payload g)" using assms(2) by (simp add: shared_goal_payload_def)
  have "post_init_shared_goal (canon_goal g) = Inr (canon_goal g)"
    using assms(1) by (auto simp: post_init_shared_goal_def canon_goal_def res_simps)
  then have "decode_goal_value (canon (shared_goal_payload g)) = Inr (canon_goal g)"
    by (cases g) (simp add: decode_goal_value_def shared_goal_payload_def map_of_canon canon_goal_def)
  then show ?thesis by (simp add: decode_goal_def loads_res_def json_loads_dumps_wf wf)
qed

lemma decode_plan_text:
  assumes "post_init_plan p = Inr p"
    and steps: "\<And>s. s \<in> set (plan_steps p) \<Longrightarrow> post_init_plan_step s = Inr s \<and> wf_json (step_inputs s)"
  shows "decode_plan (json_dumps (plan_payload p)) = Inr (canon_plan p)"
proof -
  have wf: "wf_json (plan_payload p)" using steps by (simp add: plan_payload_def)
  have pi: "post_init_plan (canon_plan p) = Inr (canon_plan p)"
    using assms(1) by (auto simp: post_init_plan_def canon_plan_def res_simps split: if_splits option.splits)
  have "rmap decode_step (map (canon \<circ> plan_step_payload) ss) = Inr (map canon_step ss)"
    if "\<forall>s\<in>set ss. post_init_plan_step s = Inr s" for ss
    using that by (induction ss) (simp_all add: decode_step_canon_payload)
  then have "rmap decode_step (map (canon \<circ> plan_step_payload) (plan_steps p)) = Inr (map canon_step (plan_steps p))"
    using steps by simp
  then have "decode_plan_value (canon (plan_payload p)) = Inr (canon_plan p)"
    using pi by (cases p) (simp add: decode_plan_value_def plan_payload_def map_of_canon canon_plan_def py_iter_def)
  then show ?thesis by (simp add: decode_plan_def loads_res_def json_loads_dumps_wf wf)
qed

section \<open>Sample values\<close>

text \<open>Concrete values at which the theorems of the development are instantiated.\<close>

definition sample_step :: "string \<Rightarrow> string \<Rightarrow> string list \<Rightarrow> plan_step" where
  "sample_step sid robot resources = \<lparr>step_id = sid, step_description = ''carry tray'',
     assigned_robot_id = robot, step_capability = ''carry'', step_inputs = JObj [(''trays'', JInt 2)],
     completion_criteria = ''tray at dock'', depends_on = [], step_resources = resources,
     not_before_ms = None, step_deadline_ms = None\<rparr>"

definition sample_assignment :: "string \<Rightarrow> string list \<Rightarrow> assignment" where
  "sample_assignment aid resources = \<lparr>assignment_id = aid, asg_goal_id = ''g1'', asg_plan_id = ''p1'',
     asg_step = sample_step ''s1'' ''r1'' resources, authority_lease_id = Some ''l1''\<rparr>"

definition sample_outcome :: "string \<Rightarrow> assignment_status \<Rightarrow> outcome" where
  "sample_outcome aid st = \<lparr>oc_assignment_id = aid, oc_robot_id = ''r1'', oc_succeeded = (st = AsSucceeded),
     oc_description = ''tray carried'', oc_status = st, oc_outputs = JObj []\<rparr>"

end
