(* ===== verification/Robot_Models.thy ===== *)
theory Robot_Models
  imports Models
begin

text \<open>
  The rest of \<open>models.py\<close>: the capability contract checker \<open>validate_capability_units\<close> and the
  manifest and state dataclasses with their validation. Numbers keep their JSON form; a float is
  its literal, read as an exact decimal (\<open>dec_value\<close>), literals beyond the double range are
  infinite. The norm of a quaternion is compared in exact arithmetic: \<open>math.isclose(norm, 1.0)\<close>
  with tolerance \<open>e = 1e-6\<close> says \<open>1 - e \<le> norm\<close> and \<open>norm (1 - e) \<le> 1\<close>, both stated on squares.
\<close>

section \<open>Python values\<close>

definition py_truthy :: "json \<Rightarrow> bool" where
  "py_truthy j = (case j of
      JNull \<Rightarrow> False | JBool b \<Rightarrow> b | JInt i \<Rightarrow> i \<noteq> 0 | JFloat t \<Rightarrow> list_ex (\<lambda>c. c \<in> set ''123456789aN'') t
    | JStr s \<Rightarrow> s \<noteq> [] | JArr vs \<Rightarrow> vs \<noteq> [] | JObj kvs \<Rightarrow> kvs \<noteq> [])"

definition hashable :: "json \<Rightarrow> bool" where
  "hashable j = (case j of JArr _ \<Rightarrow> False | JObj _ \<Rightarrow> False | _ \<Rightarrow> True)"

definition dict_get :: "(string \<times> json) list \<Rightarrow> string \<Rightarrow> json" where
  "dict_get kvs k = (case map_of kvs k of Some v \<Rightarrow> v | None \<Rightarrow> JNull)"

fun substring :: "string \<Rightarrow> string \<Rightarrow> bool" where
  "substring p [] = (p = [])"
| "substring p (c # cs) = (take (length p) (c # cs) = p \<or> substring p cs)"

text \<open>\<open>s in container\<close> for a text \<open>s\<close>.\<close>

definition py_contains :: "json \<Rightarrow> string \<Rightarrow> bool res" where
  "py_contains j s = (case j of
      JArr vs \<Rightarrow> Inr (JStr s \<in> set vs)
    | JStr t \<Rightarrow> Inr (substring s t)
    | JObj kvs \<Rightarrow> Inr (s \<in> fst ` set kvs)
    | _ \<Rightarrow> Inl (TypeError ''not a container''))"

section \<open>Decimal literals\<close>

definition digit_value :: "char \<Rightarrow> int" where
  "digit_value c = int (of_char c) - 48"

fun read_digits :: "int \<Rightarrow> string \<Rightarrow> int" where
  "read_digits acc [] = acc"
| "read_digits acc (c # cs) = read_digits (acc * 10 + digit_value c) cs"

definition read_signed :: "string \<Rightarrow> int" where
  "read_signed s = (case s of
      CHR ''-'' # r \<Rightarrow> - read_digits 0 r
    | CHR ''+'' # r \<Rightarrow> read_digits 0 r
    | _ \<Rightarrow> read_digits 0 s)"

text \<open>A decimal is \<open>m / 10 ^ k\<close>.\<close>

type_synonym decimal = "int \<times> nat"

definition dec_scale :: "decimal \<Rightarrow> int \<Rightarrow> decimal" where
  "dec_scale d e = (if 0 \<le> e then (fst d * 10 ^ nat e, snd d) else (fst d, snd d + nat (- e)))"

definition literal_value :: "string \<Rightarrow> decimal" where
  "literal_value t =
     (let (mant, esep, ex) = (case py_partition ''e'' t of
            (a, [], _) \<Rightarrow> py_partition ''E'' t | p \<Rightarrow> p);
          (whole, dot, frac) = py_partition ''.'' mant;
          neg = (take 1 whole = ''-'');
          m = read_digits 0 ((if neg then drop 1 whole else whole) @ frac)
      in dec_scale (if neg then - m else m, length frac) (read_signed ex))"

definition float_limit :: int where "float_limit = 2 ^ 1024 - 2 ^ 970"

text \<open>The numeral, for evaluation.\<close>

lemma float_limit_numeral [code]:
  "float_limit =
     179769313486231580793728971405303415079934132710037826936173778980444968292764750946649017977587207096330286416692887910946555547851940402630657488671505820681908902000708383676273854845817711531764475730270069855571366959622842914819860834936475292719074168444365510704342711559699508093042880177904174497792"
  by (simp add: float_limit_def)

text \<open>The finite value of a number; \<open>None\<close> for \<open>NaN\<close> and the infinities.\<close>

definition dec_value :: "json \<Rightarrow> decimal option res" where
  "dec_value j = (case j of
      JInt i \<Rightarrow> Inr (Some (i, 0))
    | JBool b \<Rightarrow> Inr (Some (if b then 1 else 0, 0))
    | JFloat t \<Rightarrow>
        if t \<in> {''NaN'', ''Infinity'', ''-Infinity''} then Inr None
        else (let d = literal_value t in
              Inr (if \<bar>fst d\<bar> \<ge> float_limit * 10 ^ snd d then None else Some d))
    | _ \<Rightarrow> Inl (TypeError ''must be real number''))"

definition dec_in_unit :: "decimal \<Rightarrow> bool" where
  "dec_in_unit d = (0 \<le> fst d \<and> fst d \<le> 10 ^ snd d)"

text \<open>Sum of squares over a common denominator: numerator and decimal exponent.\<close>

definition sum_squares :: "decimal list \<Rightarrow> decimal" where
  "sum_squares ds =
     (let k = foldr max (map snd ds) 0 in
      (sum_list (map (\<lambda>d. (fst d * 10 ^ (k - snd d)) ^ 2) ds), 2 * k))"

definition unit_norm :: "decimal list \<Rightarrow> bool" where
  "unit_norm ds =
     (let (n, k) = sum_squares ds in
      n * 10 ^ 12 \<ge> 999999 ^ 2 * 10 ^ k \<and> n * 999999 ^ 2 \<le> 10 ^ 12 * 10 ^ k)"

section \<open>Capability contracts\<close>

definition ROBOTICS_SI_UNITS :: "string list" where
  "ROBOTICS_SI_UNITS = [''1'', ''m'', ''m^2'', ''m^3'', ''m/s'', ''m/s^2'', ''rad'', ''rad/s'', ''rad/s^2'',
     ''s'', ''Hz'', ''kg'', ''kg/m^3'', ''N'', ''N*m'', ''Pa'', ''K'', ''A'', ''V'', ''W'', ''J'']"

definition SPATIAL_SI_UNITS :: "string list" where
  "SPATIAL_SI_UNITS = [''m'', ''m^2'', ''m^3'', ''m/s'', ''m/s^2'', ''rad'', ''rad/s'', ''rad/s^2'']"

definition declared_types :: "json \<Rightarrow> json list res" where
  "declared_types j = (case j of
      JArr vs \<Rightarrow> if list_all hashable vs then Inr vs else Inl (TypeError ''unhashable type'')
    | _ \<Rightarrow> if hashable j then Inr [j] else Inl (TypeError ''unhashable type''))"

definition frame_ok :: "(string \<times> json) list \<Rightarrow> bool res" where
  "frame_ok obj =
     (let frame_field = dict_get obj ''x-ump-frame-field'';
          properties = (case map_of obj ''properties'' of Some v \<Rightarrow> v | None \<Rightarrow> JObj []);
          required = (case map_of obj ''required'' of Some v \<Rightarrow> v | None \<Rightarrow> JArr [])
      in rbind (if py_truthy frame_field
                then (case properties of
                        JObj ps \<Rightarrow> if hashable frame_field
                          then Inr (case frame_field of
                                 JStr f \<Rightarrow> (case map_of ps f of Some v \<Rightarrow> v | None \<Rightarrow> JObj [])
                               | _ \<Rightarrow> JObj [])
                          else Inl (TypeError ''unhashable type'')
                      | _ \<Rightarrow> Inl (AttributeError ''get''))
                else Inr (JObj [])) (\<lambda>frame_schema.
         case frame_field of
           JStr f \<Rightarrow>
             rbind (py_contains required f) (\<lambda>is_required.
             if \<not> is_required then Inr False
             else (case frame_schema of
                     JObj fs \<Rightarrow> Inr (dict_get fs ''type'' = JStr ''string'')
                   | _ \<Rightarrow> Inl (AttributeError ''get'')))
         | _ \<Rightarrow> Inr False))"

definition check_unit :: "string \<Rightarrow> (string \<times> json) list \<Rightarrow> string \<Rightarrow> (string \<times> json) list option \<Rightarrow> unit res" where
  "check_unit schema_name node path encl =
     (let u = dict_get node ''x-ump-unit'' in
      rbind (require (hashable u) (TypeError ''unhashable type'')) (\<lambda>_.
      case u of
        JStr s \<Rightarrow>
          rbind (require (s \<in> set ROBOTICS_SI_UNITS)
                   (ValueError (schema_name @ '' numeric field '' @ path @ '' requires supported x-ump-unit''))) (\<lambda>_.
          if s \<in> set SPATIAL_SI_UNITS then
            (case encl of
               None \<Rightarrow> Inl (ValueError (schema_name @ '' spatial field '' @ path @ '' requires an enclosing frame''))
             | Some obj \<Rightarrow> rbind (frame_ok obj) (\<lambda>ok.
                 require ok (ValueError (schema_name @ '' spatial field '' @ path @
                   '' requires a named string frame field''))))
          else Inr ())
      | _ \<Rightarrow> Inl (ValueError (schema_name @ '' numeric field '' @ path @ '' requires supported x-ump-unit''))))"

definition dict_items :: "json \<Rightarrow> (string \<times> json) list res" where
  "dict_items j = (case j of JObj kvs \<Rightarrow> Inr kvs | _ \<Rightarrow> Inl (AttributeError ''items''))"

text \<open>\<open>enumerate(value)\<close>: the characters of a text and the keys of an object are not schema objects,
  the visit of them does nothing.\<close>

definition schema_list :: "json \<Rightarrow> (nat \<times> json) list res" where
  "schema_list j = (case j of
      JArr vs \<Rightarrow> Inr (zip [0..<length vs] vs)
    | JStr _ \<Rightarrow> Inr []
    | JObj _ \<Rightarrow> Inr []
    | _ \<Rightarrow> Inl (TypeError ''not iterable''))"

lemma rbind_fundef_cong [fundef_cong]:
  "r = r' \<Longrightarrow> (\<And>x. r' = Inr x \<Longrightarrow> f x = g x) \<Longrightarrow> rbind r f = rbind r' g"
  by (cases r) auto

lemma rforall_fundef_cong [fundef_cong]:
  "xs = ys \<Longrightarrow> (\<And>x. x \<in> set ys \<Longrightarrow> f x = g x) \<Longrightarrow> rforall f xs = rforall g ys"
  by (induction xs arbitrary: ys) (auto simp: rbind_def split: sum.splits)

lemma size_member: "(k, v) \<in> set kvs \<Longrightarrow> size v < size (JObj kvs)"
  by (induction kvs) auto

lemma size_element: "v \<in> set vs \<Longrightarrow> size v < size (JArr vs)"
  by (induction vs) auto

function visit_units :: "string \<Rightarrow> json \<Rightarrow> string \<Rightarrow> (string \<times> json) list option \<Rightarrow> unit res" where
  "visit_units schema_name node path encl =
     (case node of
        JObj kvs \<Rightarrow>
          rbind (declared_types (dict_get kvs ''type'')) (\<lambda>types.
          rbind (if JStr ''number'' \<in> set types \<or> JStr ''integer'' \<in> set types
                 then check_unit schema_name kvs path encl else Inr ()) (\<lambda>_.
          let current = (if JStr ''object'' \<in> set types then Some kvs else encl) in
          rbind (dict_items (case map_of kvs ''properties'' of Some v \<Rightarrow> v | None \<Rightarrow> JObj [])) (\<lambda>props.
          rbind (rforall (\<lambda>kv. visit_units schema_name (snd kv) (path @ ''/properties/'' @ fst kv) current) props) (\<lambda>_.
          rbind (case map_of kvs ''items'' of None \<Rightarrow> Inr ()
                 | Some child \<Rightarrow> visit_units schema_name child (path @ ''/items'') current) (\<lambda>_.
          rbind (rforall (\<lambda>keyword.
                   rbind (schema_list (case map_of kvs keyword of Some v \<Rightarrow> v | None \<Rightarrow> JArr [])) (\<lambda>children.
                   rforall (\<lambda>ic. visit_units schema_name (snd ic)
                      (path @ ''/'' @ keyword @ ''/'' @ show_nat (fst ic)) current) children))
                 [''allOf'', ''anyOf'', ''oneOf'']) (\<lambda>_.
          rbind (dict_items (case map_of kvs ''$defs'' of Some v \<Rightarrow> v | None \<Rightarrow> JObj [])) (\<lambda>defs.
          rforall (\<lambda>kv. visit_units schema_name (snd kv) (path @ ''/$defs/'' @ fst kv) None) defs)))))))
      | _ \<Rightarrow> Inr ())"
  by pat_completeness auto

lemma size_dict_items:
  assumes "dict_items (case map_of kvs k of Some v \<Rightarrow> v | None \<Rightarrow> JObj []) = Inr ps" "kv \<in> set ps"
  shows "size (snd kv) < size (JObj kvs)"
proof -
  obtain v where v: "map_of kvs k = Some v" "v = JObj ps"
    using assms by (auto simp: dict_items_def split: option.splits json.splits)
  then have "size v < size (JObj kvs)" by (meson map_of_SomeD size_member)
  moreover have "size (snd kv) < size v" using size_member[of "fst kv" "snd kv" ps] assms(2) v(2) by simp
  ultimately show ?thesis by simp
qed

lemma size_schema_list:
  assumes "schema_list (case map_of kvs k of Some v \<Rightarrow> v | None \<Rightarrow> JArr []) = Inr cs" "ic \<in> set cs"
  shows "size (snd ic) < size (JObj kvs)"
proof -
  obtain vs where v: "map_of kvs k = Some (JArr vs)" "cs = zip [0..<length vs] vs"
    using assms by (auto simp: schema_list_def split: option.splits json.splits)
  then have "size (JArr vs) < size (JObj kvs)" by (meson map_of_SomeD size_member)
  moreover have "snd ic \<in> set vs" using assms(2) v(2) by (metis prod.collapse set_zip_rightD)
  ultimately show ?thesis using size_element[of "snd ic" vs] by simp
qed

termination visit_units
  by (relation "measure (\<lambda>(_, node, _, _). size node)")
    (auto dest: size_dict_items size_schema_list size_member map_of_SomeD simp del: json.size)

declare visit_units.simps [simp del]

definition validate_capability_units :: "json \<Rightarrow> string \<Rightarrow> unit res" where
  "validate_capability_units schema schema_name = visit_units schema_name schema ''$'' None"

section \<open>References and telemetry\<close>

definition is_alpha :: "char \<Rightarrow> bool" where
  "is_alpha c = (let n = of_char c :: nat in 65 \<le> n \<and> n \<le> 90 \<or> 97 \<le> n \<and> n \<le> 122)"

definition is_dig :: "char \<Rightarrow> bool" where
  "is_dig c = (let n = of_char c :: nat in 48 \<le> n \<and> n \<le> 57)"

definition frame_id_match :: "string \<Rightarrow> bool" where
  "frame_id_match s = (case s of
      [] \<Rightarrow> False
    | c # cs \<Rightarrow> is_alpha c \<and> length cs \<le> 127 \<and>
        list_all (\<lambda>x. is_alpha x \<or> is_dig x \<or> x \<in> set ''_.-/'') cs)"

definition media_char :: "char \<Rightarrow> bool" where
  "media_char c = (is_alpha c \<or> is_dig c \<or> c \<in> set ''!#$&^_.+-'')"

definition media_type_match :: "string \<Rightarrow> bool" where
  "media_type_match s =
     (let (a, sep, b) = py_partition ''/'' s in
      sep = ''/'' \<and> a \<noteq> [] \<and> b \<noteq> [] \<and> list_all media_char a \<and> list_all media_char b)"

definition to_lower :: "char \<Rightarrow> char" where
  "to_lower c = (let n = of_char c :: nat in if 65 \<le> n \<and> n \<le> 90 then char_of (n + 32) else c)"

text \<open>\<open>urlsplit(uri).scheme\<close>: leading control characters and spaces go, tabs and line breaks go, and
  what stands before the first colon is the scheme if it is one.\<close>

definition url_scheme :: "string \<Rightarrow> string" where
  "url_scheme uri =
     (let u = filter (\<lambda>c. of_char c \<notin> {9, 10, 13 :: nat}) (dropWhile (\<lambda>c. of_char c \<le> (32 :: nat)) uri);
          (a, sep, b) = py_partition '':'' u in
      case a of
        [] \<Rightarrow> []
      | c # cs \<Rightarrow>
          if sep = '':'' \<and> is_alpha c \<and> list_all (\<lambda>x. is_alpha x \<or> is_dig x \<or> x \<in> set ''+-.'') a
          then map to_lower a else [])"

record pose =
  pose_frame_id :: string
  position_m :: "json list"
  orientation_xyzw :: "json list"
  pose_observed_at_ms :: int

definition finite_all :: "json list \<Rightarrow> decimal list option res" where
  "finite_all vs = rbind (rmap dec_value vs) (\<lambda>ds.
     Inr (if list_all (\<lambda>d. d \<noteq> None) ds then Some (map the ds) else None))"

definition post_init_pose :: "pose \<Rightarrow> pose res" where
  "post_init_pose p =
     rbind (require (frame_id_match (pose_frame_id p))
              (ValueError ''pose frame_id is outside the core profile'')) (\<lambda>_.
     rbind (require (length (position_m p) = 3)
              (ValueError ''pose position_m requires three finite SI meter values'')) (\<lambda>_.
     rbind (finite_all (position_m p)) (\<lambda>pos.
     rbind (require (pos \<noteq> None)
              (ValueError ''pose position_m requires three finite SI meter values'')) (\<lambda>_.
     rbind (require (length (orientation_xyzw p) = 4)
              (ValueError ''pose orientation_xyzw requires four finite values'')) (\<lambda>_.
     rbind (finite_all (orientation_xyzw p)) (\<lambda>ori.
     case ori of
       None \<Rightarrow> Inl (ValueError ''pose orientation_xyzw requires four finite values'')
     | Some ds \<Rightarrow>
         rbind (require (unit_norm ds)
                  (ValueError ''pose orientation_xyzw must be a normalized quaternion'')) (\<lambda>_.
         rbind (require (\<not> pose_observed_at_ms p < 0)
                  (ValueError ''pose observed_at_ms cannot be negative'')) (\<lambda>_.
         Inr p))))))))"

record sensor_reference =
  sr_uri :: string
  sr_media_type :: string
  sr_byte_length :: int
  sr_sha256 :: string
  sr_observed_at_ms :: int
  sr_expires_at_ms :: "int option"
  sr_frame_id :: "string option"

definition MAX_REFERENCE_URI_BYTES :: nat where "MAX_REFERENCE_URI_BYTES = 2048"

definition post_init_sensor :: "sensor_reference \<Rightarrow> sensor_reference res" where
  "post_init_sensor r =
     rbind (require (\<not> (sr_uri r = [] \<or> length (sr_uri r) > MAX_REFERENCE_URI_BYTES))
              (ValueError ''sensor URI is outside the core profile'')) (\<lambda>_.
     rbind (require (\<not> (url_scheme (sr_uri r) = [] \<or> url_scheme (sr_uri r) = ''data''))
              (ValueError ''sensor URI must be absolute and cannot embed data'')) (\<lambda>_.
     rbind (require (media_type_match (sr_media_type r)) (ValueError ''sensor media_type is invalid'')) (\<lambda>_.
     rbind (require (0 \<le> sr_byte_length r \<and> sr_byte_length r < 2 ^ 63)
              (ValueError ''sensor byte_length is outside the core profile'')) (\<lambda>_.
     let digest = map to_lower (sr_sha256 r) in
     rbind (require (length digest = 64 \<and> list_all (\<lambda>c. c \<in> set ''0123456789abcdef'') digest)
              (ValueError ''sensor sha256 must be 64 hexadecimal characters'')) (\<lambda>_.
     rbind (require (sr_sha256 r = digest) (ValueError ''sensor sha256 must use lowercase hexadecimal'')) (\<lambda>_.
     rbind (require (\<not> sr_observed_at_ms r < 0) (ValueError ''sensor observed_at_ms cannot be negative'')) (\<lambda>_.
     rbind (require (case sr_expires_at_ms r of None \<Rightarrow> True | Some t \<Rightarrow> \<not> t < sr_observed_at_ms r)
              (ValueError ''sensor reference cannot expire before observation'')) (\<lambda>_.
     rbind (require (case sr_frame_id r of None \<Rightarrow> True | Some f \<Rightarrow> frame_id_match f)
              (ValueError ''sensor frame_id is outside the core profile'')) (\<lambda>_.
     Inr r)))))))))"

record battery_state =
  ba_level :: "json option"
  ba_status :: battery_status
  ba_observed_at_ms :: int
  ba_estimated_runtime_s :: "int option"

definition post_init_battery :: "battery_state \<Rightarrow> battery_state res" where
  "post_init_battery b =
     rbind (case ba_level b of
              None \<Rightarrow> Inr True
            | Some v \<Rightarrow> rbind (dec_value v) (\<lambda>d. Inr (case d of None \<Rightarrow> False | Some x \<Rightarrow> dec_in_unit x))) (\<lambda>level_ok.
     rbind (require level_ok (ValueError ''battery level must be null or between 0 and 1'')) (\<lambda>_.
     rbind (require (\<not> ba_observed_at_ms b < 0)
              (ValueError ''battery observed_at_ms must be a non-negative integer'')) (\<lambda>_.
     rbind (require (case ba_estimated_runtime_s b of None \<Rightarrow> True | Some t \<Rightarrow> \<not> t < 0)
              (ValueError ''battery estimated_runtime_s must be non-negative'')) (\<lambda>_.
     rbind (require (\<not> (ba_status b = BaNotPresent \<and> (ba_level b \<noteq> None \<or> ba_estimated_runtime_s b \<noteq> None)))
              (ValueError ''battery telemetry must be null when no battery is present'')) (\<lambda>_.
     Inr b)))))"

section \<open>Manifests and states\<close>

record capability =
  cap_name :: string
  cap_description :: string
  cap_input_schema :: json
  cap_output_schema :: json
  cap_availability :: availability

definition post_init_capability :: "capability \<Rightarrow> capability res" where
  "post_init_capability c =
     rbind (check_identifier (cap_name c) ''capability name'') (\<lambda>_.
     rbind (required_text (cap_description c) ''capability description'' MAX_TEXT_BYTES) (\<lambda>_.
     let (namespace, separator, version) = py_rpartition ''/v'' (cap_name c) in
     rbind (require (\<not> (separator = [] \<or> namespace = [] \<or> \<not> py_isdigit version))
              (ValueError ''capability requires a versioned name and description'')) (\<lambda>_.
     rbind (validate_capability_units (cap_input_schema c) ''capability input schema'') (\<lambda>_.
     rbind (validate_capability_units (cap_output_schema c) ''capability output schema'') (\<lambda>_.
     Inr c)))))"

record manifest =
  mf_robot_id :: string
  mf_manufacturer :: string
  mf_model :: string
  mf_robot_class :: string
  mf_capabilities :: "capability list"
  mf_adapter_version :: string

definition post_init_manifest :: "manifest \<Rightarrow> manifest res" where
  "post_init_manifest mf =
     rbind (check_identifier (mf_robot_id mf) ''robot_id'') (\<lambda>_.
     rbind (required_text (mf_manufacturer mf) ''manufacturer'' MAX_TEXT_BYTES) (\<lambda>_.
     rbind (required_text (mf_model mf) ''model'' MAX_TEXT_BYTES) (\<lambda>_.
     rbind (check_identifier (mf_robot_class mf) ''robot_class'') (\<lambda>_.
     rbind (required_text (mf_adapter_version mf) ''adapter_version'' 64) (\<lambda>_.
     rbind (require (distinct (map cap_name (mf_capabilities mf)))
              (ValueError ''capability names must be unique'')) (\<lambda>_.
     Inr mf))))))"

definition manifest_capability :: "manifest \<Rightarrow> string \<Rightarrow> capability option" where
  "manifest_capability mf name = find (\<lambda>c. cap_name c = name) (mf_capabilities mf)"

record robot_state =
  st_robot_id :: string
  st_mode :: mode
  st_safety :: safety
  st_activity :: string
  st_intent :: string
  st_progress :: json
  st_summary :: string
  st_health :: health
  st_battery :: "battery_state option"
  st_fresh_for_ms :: int
  st_blockers :: "json list"
  st_resources :: "string list"
  st_assignment_id :: "string option"
  st_pose :: "pose option"
  st_sensor_references :: "sensor_reference list"

definition post_init_state :: "robot_state \<Rightarrow> robot_state res" where
  "post_init_state s =
     rbind (check_identifier (st_robot_id s) ''robot_id'') (\<lambda>_.
     rbind (required_text (st_activity s) ''activity'' MAX_TEXT_BYTES) (\<lambda>_.
     rbind (required_text (st_intent s) ''intent'' MAX_TEXT_BYTES) (\<lambda>_.
     rbind (dec_value (st_progress s)) (\<lambda>progress.
     rbind (require (case progress of None \<Rightarrow> False | Some d \<Rightarrow> dec_in_unit d)
              (ValueError ''progress must be between 0 and 1'')) (\<lambda>_.
     rbind (required_text (st_summary s) ''summary'' MAX_TEXT_BYTES) (\<lambda>_.
     rbind (require (1 \<le> st_fresh_for_ms s \<and> st_fresh_for_ms s \<le> 60000)
              (ValueError ''fresh_for_ms is outside the core profile'')) (\<lambda>_.
     rbind (require (distinct (st_resources s)) (ValueError ''state resources must be unique'')) (\<lambda>_.
     rbind (rforall (\<lambda>r. check_identifier r ''state resource'') (st_resources s)) (\<lambda>_.
     rbind (require (\<not> length (st_sensor_references s) > 32)
              (ValueError ''state exceeds 32 sensor references'')) (\<lambda>_.
     rbind (require (distinct (map (\<lambda>r. (sr_uri r, sr_sha256 r)) (st_sensor_references s)))
              (ValueError ''state sensor references must be unique'')) (\<lambda>_.
     Inr s)))))))))))"

section \<open>Payloads\<close>

definition capability_payload :: "capability \<Rightarrow> json" where
  "capability_payload c = JObj
     [(''name'', JStr (cap_name c)), (''description'', JStr (cap_description c)),
      (''input_schema'', cap_input_schema c), (''output_schema'', cap_output_schema c),
      (''availability'', JStr (availability_value (cap_availability c)))]"

definition manifest_payload :: "manifest \<Rightarrow> json" where
  "manifest_payload mf = JObj
     [(''robot_id'', JStr (mf_robot_id mf)), (''manufacturer'', JStr (mf_manufacturer mf)),
      (''model'', JStr (mf_model mf)), (''robot_class'', JStr (mf_robot_class mf)),
      (''capabilities'', JArr (map capability_payload (mf_capabilities mf))),
      (''adapter_version'', JStr (mf_adapter_version mf))]"

definition pose_payload :: "pose \<Rightarrow> json" where
  "pose_payload p = JObj
     [(''frame_id'', JStr (pose_frame_id p)), (''position_m'', JArr (position_m p)),
      (''orientation_xyzw'', JArr (orientation_xyzw p)), (''observed_at_ms'', JInt (pose_observed_at_ms p))]"

definition sensor_payload :: "sensor_reference \<Rightarrow> json" where
  "sensor_payload r = JObj
     [(''uri'', JStr (sr_uri r)), (''media_type'', JStr (sr_media_type r)),
      (''byte_length'', JInt (sr_byte_length r)), (''sha256'', JStr (sr_sha256 r)),
      (''observed_at_ms'', JInt (sr_observed_at_ms r)), (''expires_at_ms'', json_opt_int (sr_expires_at_ms r)),
      (''frame_id'', json_opt_str (sr_frame_id r))]"

definition battery_payload :: "battery_state \<Rightarrow> json" where
  "battery_payload b = JObj
     [(''level'', case ba_level b of None \<Rightarrow> JNull | Some v \<Rightarrow> v),
      (''status'', JStr (battery_status_value (ba_status b))),
      (''observed_at_ms'', JInt (ba_observed_at_ms b)),
      (''estimated_runtime_s'', json_opt_int (ba_estimated_runtime_s b))]"

definition state_payload :: "robot_state \<Rightarrow> json" where
  "state_payload s = JObj
     [(''robot_id'', JStr (st_robot_id s)), (''mode'', JStr (mode_value (st_mode s))),
      (''safety'', JStr (safety_value (st_safety s))), (''activity'', JStr (st_activity s)),
      (''intent'', JStr (st_intent s)), (''progress'', st_progress s), (''summary'', JStr (st_summary s)),
      (''health'', JStr (health_value (st_health s))),
      (''battery'', case st_battery s of None \<Rightarrow> JNull | Some b \<Rightarrow> battery_payload b),
      (''fresh_for_ms'', JInt (st_fresh_for_ms s)), (''blockers'', JArr (st_blockers s)),
      (''resources'', JArr (map JStr (st_resources s))), (''assignment_id'', json_opt_str (st_assignment_id s)),
      (''pose'', case st_pose s of None \<Rightarrow> JNull | Some p \<Rightarrow> pose_payload p),
      (''sensor_references'', JArr (map sensor_payload (st_sensor_references s)))]"

section \<open>What an accepted capability contract guarantees\<close>

text \<open>\<open>child_schema kvs encl child encl'\<close>: \<open>child\<close> is a direct subschema of the object \<open>kvs\<close>, which itself
  stands inside the object \<open>encl\<close>; \<open>encl'\<close> is the innermost object schema around the child. Shared
  definitions under \<open>$defs\<close> stand in no object.\<close>

definition child_schema :: "(string \<times> json) list \<Rightarrow> (string \<times> json) list option \<Rightarrow> json \<Rightarrow> (string \<times> json) list option \<Rightarrow> bool" where
  "child_schema kvs encl child encl' =
     (\<exists>types. declared_types (dict_get kvs ''type'') = Inr types \<and>
        (let current = (if JStr ''object'' \<in> set types then Some kvs else encl) in
         (\<exists>ps k. map_of kvs ''properties'' = Some (JObj ps) \<and> (k, child) \<in> set ps \<and> encl' = current) \<or>
         map_of kvs ''items'' = Some child \<and> encl' = current \<or>
         (\<exists>keyword\<in>{''allOf'', ''anyOf'', ''oneOf''}. \<exists>vs. map_of kvs keyword = Some (JArr vs) \<and> child \<in> set vs \<and> encl' = current) \<or>
         (\<exists>ps k. map_of kvs ''$defs'' = Some (JObj ps) \<and> (k, child) \<in> set ps \<and> encl' = None)))"

inductive subschema :: "json \<Rightarrow> json \<Rightarrow> (string \<times> json) list option \<Rightarrow> bool" for root where
  whole: "subschema root root None"
| child: "subschema root (JObj kvs) encl \<Longrightarrow> child_schema kvs encl c encl' \<Longrightarrow> subschema root c encl'"

lemma visit_child:
  assumes "visit_units name (JObj kvs) path encl = Inr ()" "child_schema kvs encl c encl'"
  shows "\<exists>path'. visit_units name c path' encl' = Inr ()"
proof -
  obtain types where t: "declared_types (dict_get kvs ''type'') = Inr types"
    and c: "let current = (if JStr ''object'' \<in> set types then Some kvs else encl) in
         (\<exists>ps k. map_of kvs ''properties'' = Some (JObj ps) \<and> (k, c) \<in> set ps \<and> encl' = current) \<or>
         map_of kvs ''items'' = Some c \<and> encl' = current \<or>
         (\<exists>keyword\<in>{''allOf'', ''anyOf'', ''oneOf''}. \<exists>vs. map_of kvs keyword = Some (JArr vs) \<and> c \<in> set vs \<and> encl' = current) \<or>
         (\<exists>ps k. map_of kvs ''$defs'' = Some (JObj ps) \<and> (k, c) \<in> set ps \<and> encl' = None)"
    using assms(2) unfolding child_schema_def by blast
  define current where "current = (if JStr ''object'' \<in> set types then Some kvs else encl)"
  have props: "\<And>ps k. map_of kvs ''properties'' = Some (JObj ps) \<Longrightarrow> (k, c) \<in> set ps \<Longrightarrow>
       visit_units name c (path @ ''/properties/'' @ k) current = Inr ()"
    and items: "map_of kvs ''items'' = Some c \<Longrightarrow> visit_units name c (path @ ''/items'') current = Inr ()"
    and defs: "\<And>ps k. map_of kvs ''$defs'' = Some (JObj ps) \<Longrightarrow> (k, c) \<in> set ps \<Longrightarrow>
       visit_units name c (path @ ''/$defs/'' @ k) None = Inr ()"
    using assms(1) t unfolding visit_units.simps[of name "JObj kvs"] current_def
    by (auto simp: res_simps Let_def dict_items_def)
  obtain u where kw: "rforall (\<lambda>keyword. rbind (schema_list (case map_of kvs keyword of Some v \<Rightarrow> v | None \<Rightarrow> JArr [])) (\<lambda>children.
      rforall (\<lambda>ic. visit_units name (snd ic) (path @ ''/'' @ keyword @ ''/'' @ show_nat (fst ic)) current) children))
      [''allOf'', ''anyOf'', ''oneOf''] = Inr u"
    using assms(1) unfolding visit_units.simps[of name "JObj kvs"] current_def json.case t rbind_simps Let_def rbind_Inr_iff
    by blast
  have lists: "\<exists>path'. visit_units name c path' current = Inr ()"
    if "keyword \<in> {''allOf'', ''anyOf'', ''oneOf''}" "map_of kvs keyword = Some (JArr vs)" and cv: "c \<in> set vs" for keyword vs
  proof -
    have all: "\<forall>ic\<in>set (zip [0..<length vs] vs). visit_units name (snd ic)
        (path @ ''/'' @ keyword @ ''/'' @ show_nat (fst ic)) current = Inr ()"
      using kw[unfolded rforall_Inr_iff, rule_format, of keyword] that(1,2)
      by (simp add: schema_list_def rforall_Inr_iff)
    obtain i where "(i, c) \<in> set (zip [0..<length vs] vs)"
      using cv by (metis in_set_impl_in_set_zip2 length_upt minus_nat.diff_0)
    with all show ?thesis by (metis snd_conv)
  qed
  show ?thesis
    using c props items defs lists unfolding Let_def current_def[symmetric] by blast
qed

lemma visit_subschema:
  assumes "subschema schema node encl" "validate_capability_units schema name = Inr ()"
  shows "\<exists>path. visit_units name node path encl = Inr ()"
  using assms(1)
proof induction
  case whole
  then show ?case using assms(2) unfolding validate_capability_units_def by blast
next
  case (child kvs encl c encl')
  then show ?case using visit_child by blast
qed

text \<open>a capability contract that the validator accepts declares a supported SI unit on every
  numeric field of the schema, at any depth, and every spatial quantity stands in an object with a
  frame field that is named, required and of type string.\<close>

theorem accepted_contract_has_units:
  assumes "validate_capability_units schema name = Inr ()" "subschema schema (JObj kvs) encl"
    and "declared_types (dict_get kvs ''type'') = Inr types"
    and "JStr ''number'' \<in> set types \<or> JStr ''integer'' \<in> set types"
  shows "\<exists>u\<in>set ROBOTICS_SI_UNITS. map_of kvs ''x-ump-unit'' = Some (JStr u) \<and>
     (u \<in> set SPATIAL_SI_UNITS \<longrightarrow>
       (\<exists>obj f ps fs. encl = Some obj \<and> map_of obj ''x-ump-frame-field'' = Some (JStr f) \<and>
          map_of obj ''properties'' = Some (JObj ps) \<and> map_of ps f = Some (JObj fs) \<and>
          map_of fs ''type'' = Some (JStr ''string'')))"
proof -
  obtain path where "visit_units name (JObj kvs) path encl = Inr ()"
    using visit_subschema[OF assms(2,1)] by blast
  then have "check_unit name kvs path encl = Inr ()"
    using assms(3,4) unfolding visit_units.simps[of name "JObj kvs"] by (auto simp: res_simps)
  then obtain u where u: "dict_get kvs ''x-ump-unit'' = JStr u" "u \<in> set ROBOTICS_SI_UNITS"
    and sp: "u \<in> set SPATIAL_SI_UNITS \<Longrightarrow> \<exists>obj. encl = Some obj \<and> frame_ok obj = Inr True"
    by (auto simp: check_unit_def res_simps Let_def split: json.splits if_splits option.splits)
  have str: "dict_get xs k = JStr t \<Longrightarrow> map_of xs k = Some (JStr t)" for xs k t
    by (auto simp: dict_get_def split: option.splits)
  have "\<exists>f ps fs. map_of obj ''x-ump-frame-field'' = Some (JStr f) \<and>
          map_of obj ''properties'' = Some (JObj ps) \<and> map_of ps f = Some (JObj fs) \<and>
          map_of fs ''type'' = Some (JStr ''string'')" if fr: "frame_ok obj = Inr True" for obj
  proof -
    obtain f where f: "dict_get obj ''x-ump-frame-field'' = JStr f"
      using fr by (cases "dict_get obj ''x-ump-frame-field''") (auto simp: frame_ok_def Let_def res_simps)
    show ?thesis
      using fr str[OF f] f
      by (auto simp: frame_ok_def Let_def res_simps hashable_def py_truthy_def split: if_splits option.splits json.splits
          dest!: str)
  qed
  then show ?thesis using u sp str by (intro bexI[of _ u]) auto
qed

definition sample_schema :: json where
  "sample_schema = JObj [(''type'', JStr ''object''), (''x-ump-frame-field'', JStr ''frame''),
     (''required'', JArr [JStr ''frame'', JStr ''x'']),
     (''properties'', JObj [(''frame'', JObj [(''type'', JStr ''string'')]),
        (''x'', JObj [(''type'', JStr ''number''), (''x-ump-unit'', JStr ''m'')])])]"

theorem accepted_contract_has_units_witness:
  "validate_capability_units sample_schema ''input'' = Inr () \<and>
   (\<exists>u\<in>set ROBOTICS_SI_UNITS. map_of [(''type'', JStr ''number''), (''x-ump-unit'', JStr ''m'')] ''x-ump-unit'' = Some (JStr u))"
proof -
  let ?x = "[(''type'', JStr ''number''), (''x-ump-unit'', JStr ''m'')]"
  let ?obj = "case sample_schema of JObj kvs \<Rightarrow> kvs | _ \<Rightarrow> []"
  have ok: "validate_capability_units sample_schema ''input'' = Inr ()" by code_simp
  have "subschema sample_schema (JObj ?obj) None"
    using subschema.whole[of sample_schema] by (simp add: sample_schema_def)
  moreover have "child_schema ?obj None (JObj ?x) (Some ?obj)"
    by (simp add: child_schema_def sample_schema_def dict_get_def declared_types_def hashable_def)
  ultimately have "subschema sample_schema (JObj ?x) (Some ?obj)" by (rule subschema.child)
  moreover have "declared_types (dict_get ?x ''type'') = Inr [JStr ''number'']" by code_simp
  ultimately show ?thesis using accepted_contract_has_units[OF ok] ok by fastforce
qed

end
