(* ===== verification/Py_Equality.thy ===== *)
theory Py_Equality
  imports Robot_Models
begin

text \<open>
  Python's \<open>==\<close> on the values that JSON gives: \<open>1\<close>, \<open>1.0\<close> and \<open>True\<close> are equal, dictionaries are compared without
  their order, \<open>NaN\<close> is not equal to itself. A float literal denotes the double nearest to it, ties to even, and is
  compared with an integer exactly. That a container takes one and the same object as equal to itself, which concerns
  only \<open>NaN\<close>, is not modelled: values have no identity.
\<close>

section \<open>Numbers\<close>

text \<open>A finite number is a fraction with a positive denominator.\<close>

datatype py_number = PnFinite int int | PnInfinite bool | PnNan

definition half_even :: "int \<Rightarrow> int \<Rightarrow> int" where
  "half_even n d =
     (let q = n div d; r = n mod d in
      if 2 * r < d \<or> (2 * r = d \<and> even q) then q else q + 1)"

function bit_length :: "int \<Rightarrow> int" where
  "bit_length n = (if n \<le> 0 then 0 else bit_length (n div 2) + 1)"
  by pat_completeness auto
termination by (relation "measure nat") auto

declare bit_length.simps [simp del]

text \<open>The exponent of the last of the 53 bits of \<open>n / d\<close>, at least that of the subnormals.\<close>

definition last_bit :: "int \<Rightarrow> int \<Rightarrow> int" where
  "last_bit n d =
     (let l = bit_length n - bit_length d;
          above = (if 0 \<le> l then d * 2 ^ nat l \<le> n else d \<le> n * 2 ^ nat (- l)) in
      max ((if above then l else l - 1) - 52) (- 1074))"

definition nearest_double :: "int \<Rightarrow> int \<Rightarrow> py_number" where
  "nearest_double m d =
     (if m = 0 then PnFinite 0 1
      else (let n = \<bar>m\<bar>; e = last_bit n d;
                k = (if 0 \<le> e then half_even n (d * 2 ^ nat e) * 2 ^ nat e else half_even (n * 2 ^ nat (- e)) d) in
            PnFinite (sgn m * k) (2 ^ nat (- e))))"

definition py_number :: "json \<Rightarrow> py_number option" where
  "py_number v = (case v of
      JBool b \<Rightarrow> Some (PnFinite (if b then 1 else 0) 1)
    | JInt i \<Rightarrow> Some (PnFinite i 1)
    | JFloat t \<Rightarrow>
        Some (if t = ''NaN'' then PnNan else if t = ''Infinity'' then PnInfinite False
          else if t = ''-Infinity'' then PnInfinite True
          else (let d = literal_value t in
                if float_limit * 10 ^ snd d \<le> \<bar>fst d\<bar> then PnInfinite (fst d < 0)
                else nearest_double (fst d) (10 ^ snd d)))
    | _ \<Rightarrow> None)"

definition number_eq :: "py_number \<Rightarrow> py_number \<Rightarrow> bool" where
  "number_eq x y = (case (x, y) of
      (PnFinite m d, PnFinite n e) \<Rightarrow> m * e = n * d
    | (PnInfinite s, PnInfinite t) \<Rightarrow> s = t
    | _ \<Rightarrow> False)"

section \<open>Values\<close>

function py_eq :: "json \<Rightarrow> json \<Rightarrow> bool" where
  "py_eq JNull w = (w = JNull)"
| "py_eq (JStr s) w = (w = JStr s)"
| "py_eq (JArr vs) w = (case w of
      JArr ws \<Rightarrow> length vs = length ws \<and> (\<forall>p\<in>set (zip vs ws). py_eq (fst p) (snd p))
    | _ \<Rightarrow> False)"
| "py_eq (JObj kvs) w = (case w of
      JObj kws \<Rightarrow> length kvs = length kws \<and>
        (\<forall>p\<in>set kvs. case map_of kws (fst p) of None \<Rightarrow> False | Some x \<Rightarrow> py_eq (snd p) x)
    | _ \<Rightarrow> False)"
| "py_eq (JBool b) w = (case py_number w of None \<Rightarrow> False | Some y \<Rightarrow> number_eq (PnFinite (if b then 1 else 0) 1) y)"
| "py_eq (JInt i) w = (case py_number w of None \<Rightarrow> False | Some y \<Rightarrow> number_eq (PnFinite i 1) y)"
| "py_eq (JFloat t) w = (case (py_number (JFloat t), py_number w) of (Some x, Some y) \<Rightarrow> number_eq x y | _ \<Rightarrow> False)"
  by pat_completeness auto
termination
proof (relation "measure (\<lambda>(v, w). size v)")
  fix vs :: "json list" and w and ws :: "json list" and p assume "p \<in> set (zip vs ws)"
  then have "fst p \<in> set vs" by (metis prod.collapse set_zip_leftD)
  then have "size (fst p) \<le> size_list size vs" by (rule size_list_estimation') simp
  then show "((fst p, snd p), (JArr vs, w)) \<in> measure (\<lambda>(v, w). size v)" by (simp add: less_Suc_eq_le case_prod_beta')
next
  fix kvs w kws x and p :: "string \<times> json" assume "p \<in> set kvs"
  then have "size (snd p) \<le> size_list (size_prod (\<lambda>x. 0) size) kvs"
    by (rule size_list_estimation') (cases p; simp)
  then show "((snd p, x), (JObj kvs, w)) \<in> measure (\<lambda>(v, w). size v)" by (simp add: case_prod_beta' less_Suc_eq_le)
qed simp

text \<open>Some comparisons, also of a float that no decimal of its digits equals.\<close>

lemma py_eq_samples:
  "py_eq (JInt 1) (JBool True)" "py_eq (JFloat ''1.0'') (JInt 1)" "\<not> py_eq (JFloat ''NaN'') (JFloat ''NaN'')"
  "\<not> py_eq (JInt (10 ^ 23)) (JFloat ''1e+23'')" "py_eq (JInt 99999999999999991611392) (JFloat ''1e+23'')"
  "py_eq (JFloat ''0.1'') (JFloat ''0.1000000000000000055'')"
  "py_eq (JObj [(''a'', JInt 1), (''b'', JArr [JNull])]) (JObj [(''b'', JArr [JNull]), (''a'', JFloat ''1e0'')])"
  by code_simp+

end
