(* ===== verification/Journal.thy ===== *)
theory Journal
  imports Py_Equality
begin

text \<open>
  \<open>journal.py\<close>: the assignment journals of a participant. \<open>MemoryAssignmentJournal\<close> keeps two
  dictionaries, \<open>SqliteAssignmentJournal\<close> three tables; both are translated operation by
  operation. The \<open>Protocol\<close> class \<open>AssignmentJournal\<close> is the locale \<open>assignment_journal\<close>: its
  laws say that every operation simulates an abstract journal, a map from assignment ids to
  records together with the owner of every reserved resource. The locale is interpreted on both
  implementations and on their sum, the journal object a participant holds.

  \<open>hashlib.sha256(...).hexdigest()\<close> is the parameter \<open>digest\<close>.
\<close>

section \<open>Claims and records\<close>

datatype claim_kind = CkNew | CkReplay | CkConflict | CkResourceConflict | CkUncertain

record claim_result =
  claim_kind :: claim_kind
  claim_outcome :: "outcome option"

definition mk_claim :: "claim_kind \<Rightarrow> claim_result" where
  "mk_claim k = \<lparr>claim_kind = k, claim_outcome = None\<rparr>"

record journal_record =
  jr_assignment :: assignment
  jr_issuer_id :: string
  jr_status :: assignment_status
  jr_outcome :: "outcome option"
  jr_fingerprint :: string

definition assignment_fingerprint :: "(string \<Rightarrow> string) \<Rightarrow> assignment \<Rightarrow> string" where
  "assignment_fingerprint digest a = digest (assignment_json a)"

text \<open>Equality of two \<open>Outcome\<close> values: their fields are compared, \<open>outputs\<close> as Python compares dictionaries.\<close>

definition outcome_eq :: "outcome \<Rightarrow> outcome \<Rightarrow> bool" where
  "outcome_eq x y = (oc_assignment_id x = oc_assignment_id y \<and> oc_robot_id x = oc_robot_id y \<and>
     oc_succeeded x = oc_succeeded y \<and> oc_description x = oc_description y \<and> oc_status x = oc_status y \<and>
     py_eq (oc_outputs x) (oc_outputs y))"

definition terminal_resolutions :: "assignment_status list" where
  "terminal_resolutions = [AsSucceeded, AsFailed, AsRejected, AsCancelled]"

definition validate_resolution :: "assignment_status \<Rightarrow> string \<Rightarrow> string \<Rightarrow> unit res" where
  "validate_resolution st resolver evidence =
     rbind (require (st \<in> set terminal_resolutions)
              (ValueError ''resolution requires a known terminal status'')) (\<lambda>_.
     rbind (require (\<not> (py_blank resolver \<or> length resolver > 128))
              (ValueError ''resolver_id must contain 1 to 128 UTF-8 bytes'')) (\<lambda>_.
     require (\<not> (py_blank evidence \<or> length evidence > 4096))
              (ValueError ''resolution evidence must contain 1 to 4096 UTF-8 bytes'')))"

section \<open>The in-memory journal\<close>

record memory_journal =
  mj_records :: "string \<Rightarrow> journal_record option"
  mj_resources :: "string \<Rightarrow> string option"

definition mj_empty :: memory_journal where
  "mj_empty = \<lparr>mj_records = Map.empty, mj_resources = Map.empty\<rparr>"

definition mj_claim ::
  "(string \<Rightarrow> string) \<Rightarrow> assignment \<Rightarrow> string \<Rightarrow> int \<Rightarrow> memory_journal \<Rightarrow> (memory_journal \<times> claim_result) res" where
  "mj_claim digest a issuer now j =
     (let fingerprint = assignment_fingerprint digest a; aid = assignment_id a in
      case mj_records j aid of
        None \<Rightarrow>
          if list_ex (\<lambda>r. case mj_resources j r of None \<Rightarrow> False | Some owner \<Rightarrow> owner \<noteq> aid)
               (step_resources (asg_step a))
          then Inr (j, mk_claim CkResourceConflict)
          else Inr (j\<lparr>mj_records := (mj_records j)(aid \<mapsto>
                        \<lparr>jr_assignment = a, jr_issuer_id = issuer, jr_status = AsAccepted,
                         jr_outcome = None, jr_fingerprint = fingerprint\<rparr>),
                     mj_resources := foldl (\<lambda>m r. m(r \<mapsto> aid)) (mj_resources j)
                        (step_resources (asg_step a))\<rparr>, mk_claim CkNew)
      | Some rec \<Rightarrow>
          if jr_fingerprint rec \<noteq> fingerprint \<or> jr_issuer_id rec \<noteq> issuer
          then Inr (j, mk_claim CkConflict)
          else (case jr_outcome rec of
                  Some oc \<Rightarrow> Inr (j, \<lparr>claim_kind = CkReplay, claim_outcome = Some oc\<rparr>)
                | None \<Rightarrow> Inr (j, mk_claim CkUncertain)))"

definition mj_complete ::
  "(string \<Rightarrow> string) \<Rightarrow> assignment \<Rightarrow> outcome \<Rightarrow> int \<Rightarrow> memory_journal \<Rightarrow> memory_journal res" where
  "mj_complete digest a oc now j =
     (let fingerprint = assignment_fingerprint digest a; aid = assignment_id a in
      case mj_records j aid of
        None \<Rightarrow> Inl (ValueError ''cannot complete an unclaimed or conflicting assignment'')
      | Some rec \<Rightarrow>
          if jr_fingerprint rec \<noteq> fingerprint
          then Inl (ValueError ''cannot complete an unclaimed or conflicting assignment'')
          else if (case jr_outcome rec of None \<Rightarrow> False | Some prev \<Rightarrow> \<not> outcome_eq prev oc)
          then Inl (ValueError ''terminal assignment outcome is immutable'')
          else Inr (j\<lparr>mj_records := (mj_records j)(aid \<mapsto>
                        \<lparr>jr_assignment = a, jr_issuer_id = jr_issuer_id rec, jr_status = oc_status oc,
                         jr_outcome = Some oc, jr_fingerprint = fingerprint\<rparr>),
                     mj_resources :=
                       (if oc_status oc \<noteq> AsUnknown
                        then foldl (\<lambda>m r. if m r = Some aid then m(r := None) else m)
                               (mj_resources j) (step_resources (asg_step a))
                        else mj_resources j)\<rparr>))"

definition mj_lookup :: "string \<Rightarrow> memory_journal \<Rightarrow> journal_record option res" where
  "mj_lookup aid j = Inr (mj_records j aid)"

definition mj_resolve_unknown ::
  "(string \<Rightarrow> string) \<Rightarrow> string \<Rightarrow> assignment_status \<Rightarrow> string \<Rightarrow> string \<Rightarrow> string \<Rightarrow> int \<Rightarrow> memory_journal \<Rightarrow>
   (memory_journal \<times> outcome) res" where
  "mj_resolve_unknown digest aid st descr resolver evidence now j =
     rbind (validate_resolution st resolver evidence) (\<lambda>_.
     case mj_records j aid of
       None \<Rightarrow> Inl (ValueError ''assignment does not exist'')
     | Some rec \<Rightarrow>
         if jr_status rec \<noteq> AsUnknown \<or> jr_outcome rec \<noteq> None
         then Inl (ValueError ''only an unknown assignment can be resolved'')
         else rbind (mk_outcome aid (assigned_robot_id (asg_step (jr_assignment rec)))
                       (st = AsSucceeded) descr (Some st) (JObj [])) (\<lambda>oc.
              rbind (mj_complete digest (jr_assignment rec) oc 0 j) (\<lambda>j'.
              Inr (j', oc))))"

section \<open>The SQLite journal\<close>

record assignment_row =
  ar_assignment_id :: string
  ar_fingerprint :: string
  ar_assignment_json :: "string option"
  ar_issuer_id :: "string option"
  ar_status :: string
  ar_outcome_json :: "string option"
  ar_accepted_at_ms :: int
  ar_updated_at_ms :: int

record resolution_row =
  rs_assignment_id :: string
  rs_status :: string
  rs_resolver_id :: string
  rs_evidence :: string
  rs_occurred_at_ms :: int
  rs_outcome_json :: string

record reservation_row =
  rr_resource_id :: string
  rr_assignment_id :: string
  rr_reserved_at_ms :: int

record sqlite_journal =
  sj_assignments :: "assignment_row list"
  sj_resolutions :: "resolution_row list"
  sj_reservations :: "reservation_row list"

definition sj_empty :: sqlite_journal where
  "sj_empty = \<lparr>sj_assignments = [], sj_resolutions = [], sj_reservations = []\<rparr>"

text \<open>Opening the database in a new process: accepted records without an outcome become unknown.\<close>

definition sj_open :: "sqlite_journal \<Rightarrow> sqlite_journal" where
  "sj_open j = j\<lparr>sj_assignments :=
     upd_where (\<lambda>r. ar_status r = ''accepted'' \<and> ar_outcome_json r = None)
       (\<lambda>r. r\<lparr>ar_status := ''unknown''\<rparr>) (sj_assignments j)\<rparr>"

text \<open>\<open>INSERT INTO resource_reservations\<close>: the primary key refuses a resource that is already there.\<close>

fun insert_reservations ::
  "string \<Rightarrow> int \<Rightarrow> string list \<Rightarrow> reservation_row list \<Rightarrow> reservation_row list res" where
  "insert_reservations aid now [] rows = Inr rows"
| "insert_reservations aid now (r # rs) rows =
     (if r \<in> rr_resource_id ` set rows
      then Inl (IntegrityError ''UNIQUE constraint failed: resource_reservations.resource_id'')
      else insert_reservations aid now rs
             (rows @ [\<lparr>rr_resource_id = r, rr_assignment_id = aid, rr_reserved_at_ms = now\<rparr>]))"

definition find_row :: "string \<Rightarrow> sqlite_journal \<Rightarrow> assignment_row option" where
  "find_row aid j = find (\<lambda>r. ar_assignment_id r = aid) (sj_assignments j)"

definition sj_claim ::
  "(string \<Rightarrow> string) \<Rightarrow> assignment \<Rightarrow> string \<Rightarrow> int \<Rightarrow> sqlite_journal \<Rightarrow> (sqlite_journal \<times> claim_result) res" where
  "sj_claim digest a issuer now j =
     (let fingerprint = assignment_fingerprint digest a; aid = assignment_id a in
      case find_row aid j of
        None \<Rightarrow>
          if list_ex (\<lambda>x. rr_resource_id x \<in> set (step_resources (asg_step a)) \<and> rr_assignment_id x \<noteq> aid)
               (sj_reservations j)
          then Inr (j, mk_claim CkResourceConflict)
          else rbind (insert_reservations aid now (step_resources (asg_step a)) (sj_reservations j)) (\<lambda>rsv.
               Inr (j\<lparr>sj_assignments := sj_assignments j @
                        [\<lparr>ar_assignment_id = aid, ar_fingerprint = fingerprint,
                          ar_assignment_json = Some (assignment_json a), ar_issuer_id = Some issuer,
                          ar_status = assignment_status_value AsAccepted, ar_outcome_json = None,
                          ar_accepted_at_ms = now, ar_updated_at_ms = now\<rparr>],
                      sj_reservations := rsv\<rparr>, mk_claim CkNew))
      | Some row \<Rightarrow>
          if ar_fingerprint row \<noteq> fingerprint \<or> ar_issuer_id row \<noteq> Some issuer
          then Inr (j, mk_claim CkConflict)
          else (case ar_outcome_json row of
                  Some encoded \<Rightarrow> rbind (decode_outcome encoded) (\<lambda>oc.
                    Inr (j, \<lparr>claim_kind = CkReplay, claim_outcome = Some oc\<rparr>))
                | None \<Rightarrow> Inr (j, mk_claim CkUncertain)))"

definition sj_complete ::
  "(string \<Rightarrow> string) \<Rightarrow> assignment \<Rightarrow> outcome \<Rightarrow> int \<Rightarrow> sqlite_journal \<Rightarrow> sqlite_journal res" where
  "sj_complete digest a oc now j =
     (let fingerprint = assignment_fingerprint digest a; aid = assignment_id a;
          encoded = outcome_json oc in
      case find_row aid j of
        None \<Rightarrow> Inl (ValueError ''cannot complete an unclaimed or conflicting assignment'')
      | Some row \<Rightarrow>
          if ar_fingerprint row \<noteq> fingerprint
          then Inl (ValueError ''cannot complete an unclaimed or conflicting assignment'')
          else if ar_outcome_json row \<noteq> None \<and> ar_outcome_json row \<noteq> Some encoded
          then Inl (ValueError ''terminal assignment outcome is immutable'')
          else Inr (j\<lparr>sj_assignments := upd_where (\<lambda>r. ar_assignment_id r = aid)
                        (\<lambda>r. r\<lparr>ar_status := assignment_status_value (oc_status oc),
                               ar_outcome_json := Some encoded, ar_updated_at_ms := now\<rparr>)
                        (sj_assignments j),
                     sj_reservations :=
                       (if oc_status oc \<noteq> AsUnknown
                        then filter (\<lambda>x. rr_assignment_id x \<noteq> aid) (sj_reservations j)
                        else sj_reservations j)\<rparr>))"

definition row_record :: "assignment_row \<Rightarrow> journal_record option res" where
  "row_record row =
     (case (ar_assignment_json row, ar_issuer_id row) of
        (Some aj, Some issuer) \<Rightarrow>
          rbind (decode_assignment aj) (\<lambda>a.
          rbind (assignment_status_of (JStr (ar_status row))) (\<lambda>st.
          rbind (case ar_outcome_json row of
                   None \<Rightarrow> Inr None
                 | Some encoded \<Rightarrow> rbind (decode_outcome encoded) (\<lambda>oc. Inr (Some oc))) (\<lambda>oc.
          Inr (Some \<lparr>jr_assignment = a, jr_issuer_id = issuer, jr_status = st, jr_outcome = oc,
                     jr_fingerprint = ar_fingerprint row\<rparr>))))
      | _ \<Rightarrow> Inr None)"

definition sj_lookup :: "string \<Rightarrow> sqlite_journal \<Rightarrow> journal_record option res" where
  "sj_lookup aid j = (case find_row aid j of None \<Rightarrow> Inr None | Some row \<Rightarrow> row_record row)"

definition sj_resolve_unknown ::
  "string \<Rightarrow> assignment_status \<Rightarrow> string \<Rightarrow> string \<Rightarrow> string \<Rightarrow> int \<Rightarrow> sqlite_journal \<Rightarrow>
   (sqlite_journal \<times> outcome) res" where
  "sj_resolve_unknown aid st descr resolver evidence now j =
     rbind (validate_resolution st resolver evidence) (\<lambda>_.
     case find_row aid j of
       None \<Rightarrow> Inl (ValueError ''assignment does not exist'')
     | Some row \<Rightarrow>
         rbind (assignment_status_of (JStr (ar_status row))) (\<lambda>old.
         if old \<noteq> AsUnknown \<or> ar_outcome_json row \<noteq> None
         then Inl (ValueError ''only an unknown assignment can be resolved'')
         else
           rbind (case ar_assignment_json row of
                    Some aj \<Rightarrow> decode_assignment aj
                  | None \<Rightarrow> Inl (TypeError ''the JSON object must be str'')) (\<lambda>a.
           rbind (mk_outcome aid (assigned_robot_id (asg_step a)) (st = AsSucceeded) descr (Some st)
                    (JObj [])) (\<lambda>oc.
           rbind (require (aid \<notin> rs_assignment_id ` set (sj_resolutions j))
                    (IntegrityError ''UNIQUE constraint failed: assignment_resolutions.assignment_id'')) (\<lambda>_.
           Inr (j\<lparr>sj_resolutions := sj_resolutions j @
                    [\<lparr>rs_assignment_id = aid, rs_status = assignment_status_value st,
                      rs_resolver_id = resolver, rs_evidence = evidence, rs_occurred_at_ms = now,
                      rs_outcome_json = outcome_json oc\<rparr>],
                  sj_assignments := upd_where (\<lambda>r. ar_assignment_id r = aid)
                    (\<lambda>r. r\<lparr>ar_status := assignment_status_value st,
                           ar_outcome_json := Some (outcome_json oc), ar_updated_at_ms := now\<rparr>)
                    (sj_assignments j),
                  sj_reservations := filter (\<lambda>x. rr_assignment_id x \<noteq> aid) (sj_reservations j)\<rparr>, oc))))))"

record resolution =
  res_assignment_id :: string
  res_status :: string
  res_resolver_id :: string
  res_evidence :: string
  res_occurred_at_ms :: int

definition sj_resolution :: "string \<Rightarrow> sqlite_journal \<Rightarrow> resolution option" where
  "sj_resolution aid j =
     map_option (\<lambda>r. \<lparr>res_assignment_id = aid, res_status = rs_status r, res_resolver_id = rs_resolver_id r,
                      res_evidence = rs_evidence r, res_occurred_at_ms = rs_occurred_at_ms r\<rparr>)
       (find (\<lambda>r. rs_assignment_id r = aid) (sj_resolutions j))"

section \<open>The abstract journal\<close>

text \<open>What both implementations promise: a record per claimed assignment and an owner per
  reserved resource. Records hold canonical values (sorted members), since a stored value is
  read back in canonical order.\<close>

record journal_view =
  jv_records :: "string \<Rightarrow> journal_record option"
  jv_owner :: "string \<Rightarrow> string option"

definition canon_record :: "journal_record \<Rightarrow> journal_record" where
  "canon_record r = r\<lparr>jr_assignment := canon_assignment (jr_assignment r),
                      jr_outcome := map_option canon_outcome (jr_outcome r)\<rparr>"

definition canon_claim :: "claim_result \<Rightarrow> claim_result" where
  "canon_claim c = c\<lparr>claim_outcome := map_option canon_outcome (claim_outcome c)\<rparr>"

definition av_claim :: "string \<Rightarrow> assignment \<Rightarrow> string \<Rightarrow> journal_view \<Rightarrow> journal_view \<times> claim_result" where
  "av_claim fp a issuer v =
     (case jv_records v (assignment_id a) of
        None \<Rightarrow>
          if \<exists>r\<in>set (step_resources (asg_step a)). \<exists>owner. jv_owner v r = Some owner \<and> owner \<noteq> assignment_id a
          then (v, mk_claim CkResourceConflict)
          else (v\<lparr>jv_records := (jv_records v)(assignment_id a \<mapsto>
                    \<lparr>jr_assignment = canon_assignment a, jr_issuer_id = issuer, jr_status = AsAccepted,
                     jr_outcome = None, jr_fingerprint = fp\<rparr>),
                  jv_owner := (\<lambda>r. if r \<in> set (step_resources (asg_step a)) then Some (assignment_id a)
                                   else jv_owner v r)\<rparr>, mk_claim CkNew)
      | Some rec \<Rightarrow>
          if jr_fingerprint rec \<noteq> fp \<or> jr_issuer_id rec \<noteq> issuer then (v, mk_claim CkConflict)
          else (case jr_outcome rec of
                  Some oc \<Rightarrow> (v, \<lparr>claim_kind = CkReplay, claim_outcome = Some oc\<rparr>)
                | None \<Rightarrow> (v, mk_claim CkUncertain)))"

definition av_release :: "string \<Rightarrow> journal_view \<Rightarrow> journal_view" where
  "av_release aid v = v\<lparr>jv_owner := (\<lambda>r. if jv_owner v r = Some aid then None else jv_owner v r)\<rparr>"

definition av_finish :: "string \<Rightarrow> outcome \<Rightarrow> journal_view \<Rightarrow> journal_view" where
  "av_finish aid oc v =
     (let v' = v\<lparr>jv_records := (jv_records v)(aid := map_option
                   (\<lambda>r. r\<lparr>jr_status := oc_status oc, jr_outcome := Some (canon_outcome oc)\<rparr>) (jv_records v aid))\<rparr>
      in if oc_status oc \<noteq> AsUnknown then av_release aid v' else v')"

definition av_can_finish :: "string \<Rightarrow> string \<Rightarrow> outcome \<Rightarrow> journal_view \<Rightarrow> bool" where
  "av_can_finish fp aid oc v =
     (case jv_records v aid of
        None \<Rightarrow> False
      | Some rec \<Rightarrow> jr_fingerprint rec = fp \<and>
          (case jr_outcome rec of None \<Rightarrow> True | Some prev \<Rightarrow> prev = canon_outcome oc))"

definition av_restart :: "journal_view \<Rightarrow> journal_view" where
  "av_restart v = v\<lparr>jv_records := (\<lambda>k. map_option
     (\<lambda>r. if jr_status r = AsAccepted \<and> jr_outcome r = None then r\<lparr>jr_status := AsUnknown\<rparr> else r)
     (jv_records v k))\<rparr>"

text \<open>An assignment holds its resources while it is accepted or unknown, and nobody else does.\<close>

definition holds_resources :: "journal_record \<Rightarrow> bool" where
  "holds_resources r = (jr_status r \<in> {AsAccepted, AsUnknown})"

definition record_ok :: "string \<Rightarrow> (string \<Rightarrow> string option) \<Rightarrow> journal_record \<Rightarrow> bool" where
  "record_ok k owner r =
     (assignment_id (jr_assignment r) = k \<and>
      (jr_outcome r = None \<longrightarrow> holds_resources r) \<and>
      (\<forall>oc. jr_outcome r = Some oc \<longrightarrow> jr_status r = oc_status oc \<and> oc_status oc \<noteq> AsAccepted) \<and>
      (holds_resources r \<longrightarrow> (\<forall>x\<in>set (step_resources (asg_step (jr_assignment r))). owner x = Some k)))"

definition view_ok :: "journal_view \<Rightarrow> bool" where
  "view_ok v =
     ((\<forall>k r. jv_records v k = Some r \<longrightarrow> record_ok k (jv_owner v) r) \<and>
      (\<forall>x k. jv_owner v x = Some k \<longrightarrow>
         (\<exists>r. jv_records v k = Some r \<and> holds_resources r \<and>
              x \<in> set (step_resources (asg_step (jr_assignment r))))))"

section \<open>Laws of the abstract journal\<close>

lemma view_okD:
  assumes "view_ok v" and "jv_records v k = Some r"
  shows "assignment_id (jr_assignment r) = k"
    and "jr_outcome r = None \<Longrightarrow> holds_resources r"
    and "jr_outcome r = Some oc \<Longrightarrow> jr_status r = oc_status oc \<and> oc_status oc \<noteq> AsAccepted"
    and "holds_resources r \<Longrightarrow> x \<in> set (step_resources (asg_step (jr_assignment r))) \<Longrightarrow> jv_owner v x = Some k"
  using assms by (auto simp: view_ok_def record_ok_def)

lemma view_ok_owner:
  assumes "view_ok v" and "jv_owner v x = Some k"
  obtains r where "jv_records v k = Some r" "holds_resources r"
    "x \<in> set (step_resources (asg_step (jr_assignment r)))"
  using assms unfolding view_ok_def by blast

lemma view_okI:
  assumes "\<And>k r. jv_records v k = Some r \<Longrightarrow> record_ok k (jv_owner v) r"
    and "\<And>x k. jv_owner v x = Some k \<Longrightarrow>
      \<exists>r. jv_records v k = Some r \<and> holds_resources r \<and> x \<in> set (step_resources (asg_step (jr_assignment r)))"
  shows "view_ok v"
  using assms unfolding view_ok_def by blast

lemma view_ok_record: "view_ok v \<Longrightarrow> jv_records v k = Some r \<Longrightarrow> record_ok k (jv_owner v) r"
  unfolding view_ok_def by blast

lemma record_ok_owner_cong:
  assumes "record_ok k ow r" and "\<And>x. ow x = Some k \<Longrightarrow> ow' x = Some k"
  shows "record_ok k ow' r"
  using assms unfolding record_ok_def by blast

lemma view_ok_empty: "view_ok \<lparr>jv_records = Map.empty, jv_owner = Map.empty\<rparr>"
  by (simp add: view_ok_def)

lemma view_ok_restart:
  assumes ok: "view_ok v"
  shows "view_ok (av_restart v)"
proof -
  let ?f = "\<lambda>r. if jr_status r = AsAccepted \<and> jr_outcome r = None then r\<lparr>jr_status := AsUnknown\<rparr> else r"
  have rec: "jv_records (av_restart v) k = map_option ?f (jv_records v k)"
    and own: "jv_owner (av_restart v) = jv_owner v" for k by (simp_all add: av_restart_def)
  have same: "holds_resources (?f r) = holds_resources r" "jr_assignment (?f r) = jr_assignment r" for r
    by (simp_all add: holds_resources_def)
  have f_ok: "record_ok k ow r \<Longrightarrow> record_ok k ow (?f r)" for k ow r
    by (simp add: record_ok_def holds_resources_def)
  show ?thesis
  proof (rule view_okI)
    fix k r assume "jv_records (av_restart v) k = Some r"
    then obtain r0 where "jv_records v k = Some r0" "r = ?f r0" unfolding rec by blast
    then show "record_ok k (jv_owner (av_restart v)) r"
      unfolding own using f_ok[OF view_ok_record[OF ok]] by metis
  next
    fix x k assume "jv_owner (av_restart v) x = Some k"
    then obtain r where "jv_records v k = Some r" "holds_resources r"
      "x \<in> set (step_resources (asg_step (jr_assignment r)))"
      unfolding own by (rule view_ok_owner[OF ok])
    then show "\<exists>r. jv_records (av_restart v) k = Some r \<and> holds_resources r \<and>
        x \<in> set (step_resources (asg_step (jr_assignment r)))"
      unfolding rec by (intro exI[of _ "?f r"] conjI) (simp_all only: same option.map(2))
  qed
qed

lemma view_ok_claim:
  assumes ok: "view_ok v" and c: "av_claim fp a issuer v = (v', c)"
  shows "view_ok v'"
proof (cases "jv_records v (assignment_id a) = None \<and> claim_kind c = CkNew")
  case True
  let ?aid = "assignment_id a" and ?R = "set (step_resources (asg_step a))"
  let ?new = "\<lparr>jr_assignment = canon_assignment a, jr_issuer_id = issuer, jr_status = AsAccepted,
         jr_outcome = None, jr_fingerprint = fp\<rparr>"
  have free: "\<forall>r\<in>?R. \<forall>owner. jv_owner v r = Some owner \<longrightarrow> owner = ?aid"
    and v': "v' = v\<lparr>jv_records := (jv_records v)(?aid \<mapsto> ?new),
        jv_owner := (\<lambda>r. if r \<in> ?R then Some ?aid else jv_owner v r)\<rparr>"
    using True c by (auto simp: av_claim_def mk_claim_def split: if_splits)
  have none: "jv_owner v x \<noteq> Some ?aid" for x
    using True by (auto elim: view_ok_owner[OF ok])
  show ?thesis
  proof (rule view_okI)
    fix k r assume kr: "jv_records v' k = Some r"
    show "record_ok k (jv_owner v') r"
    proof (cases "k = ?aid")
      case True
      then show ?thesis using kr by (auto simp: v' record_ok_def holds_resources_def)
    next
      case False
      then have "record_ok k (jv_owner v) r" using kr by (simp add: v' view_ok_record[OF ok])
      then show ?thesis
        by (rule record_ok_owner_cong) (use free False in \<open>auto simp: v'\<close>)
    qed
  next
    fix x k assume o: "jv_owner v' x = Some k"
    show "\<exists>r. jv_records v' k = Some r \<and> holds_resources r \<and> x \<in> set (step_resources (asg_step (jr_assignment r)))"
    proof (cases "x \<in> ?R")
      case True
      then show ?thesis using o by (simp add: v' holds_resources_def)
    next
      case False
      then have xk: "jv_owner v x = Some k" using o by (simp add: v')
      with none have "k \<noteq> ?aid" by metis
      moreover obtain r where "jv_records v k = Some r" "holds_resources r"
        "x \<in> set (step_resources (asg_step (jr_assignment r)))"
        using xk by (rule view_ok_owner[OF ok])
      ultimately show ?thesis by (simp add: v')
    qed
  qed
next
  case False
  then have "v' = v"
    using c by (auto simp: av_claim_def mk_claim_def split: if_splits option.splits)
  then show ?thesis using ok by simp
qed

lemma av_finish_record:
  "jv_records v aid = Some r \<Longrightarrow> jv_records (av_finish aid oc v) =
     (jv_records v)(aid \<mapsto> r\<lparr>jr_status := oc_status oc, jr_outcome := Some (canon_outcome oc)\<rparr>)"
  by (simp add: av_finish_def av_release_def Let_def)

lemma av_finish_owner:
  "jv_owner (av_finish aid oc v) x =
     (if oc_status oc \<noteq> AsUnknown \<and> jv_owner v x = Some aid then None else jv_owner v x)"
  by (simp add: av_finish_def av_release_def Let_def)

lemma view_ok_finish:
  assumes ok: "view_ok v" and t: "oc_status oc \<noteq> AsAccepted" and some: "jv_records v aid = Some r"
    and free: "\<And>prev. jr_outcome r = Some prev \<Longrightarrow> prev = canon_outcome oc"
  shows "view_ok (av_finish aid oc v)"
proof (rule view_okI)
  note rec = av_finish_record[OF some, of oc]
  have held: "oc_status oc = AsUnknown \<Longrightarrow> holds_resources r"
    using view_okD(2,3)[OF ok some] free by (cases "jr_outcome r") (auto simp: holds_resources_def)
  fix k q assume kq: "jv_records (av_finish aid oc v) k = Some q"
  show "record_ok k (jv_owner (av_finish aid oc v)) q"
  proof (cases "k = aid")
    case True
    then show ?thesis
      using kq held t view_ok_record[OF ok some]
      by (auto simp: rec record_ok_def av_finish_owner holds_resources_def)
  next
    case False
    then have "record_ok k (jv_owner v) q" using kq view_ok_record[OF ok] by (simp add: rec)
    then show ?thesis by (rule record_ok_owner_cong) (use False in \<open>simp add: av_finish_owner\<close>)
  qed
next
  note rec = av_finish_record[OF some, of oc]
  fix x k assume o: "jv_owner (av_finish aid oc v) x = Some k"
  then have xk: "jv_owner v x = Some k" and ne: "k = aid \<Longrightarrow> oc_status oc = AsUnknown"
    by (auto simp: av_finish_owner split: if_splits)
  obtain q where "jv_records v k = Some q" "holds_resources q"
    "x \<in> set (step_resources (asg_step (jr_assignment q)))"
    using xk by (rule view_ok_owner[OF ok])
  then show "\<exists>r. jv_records (av_finish aid oc v) k = Some r \<and> holds_resources r \<and>
      x \<in> set (step_resources (asg_step (jr_assignment r)))"
    using ne some by (auto simp: rec holds_resources_def)
qed

text \<open>Two different assignments that hold their resources share none of them.\<close>

lemma view_ok_exclusive:
  assumes "view_ok v" "jv_records v k = Some r" "jv_records v k' = Some r'" "k \<noteq> k'"
    and "holds_resources r" "holds_resources r'"
  shows "set (step_resources (asg_step (jr_assignment r))) \<inter> set (step_resources (asg_step (jr_assignment r'))) = {}"
proof (rule ccontr)
  assume "\<not> ?thesis"
  then obtain x where "x \<in> set (step_resources (asg_step (jr_assignment r)))"
    "x \<in> set (step_resources (asg_step (jr_assignment r')))" by auto
  then show False
    using view_okD(4)[OF assms(1,2,5)] view_okD(4)[OF assms(1,3,6)] assms(4) by (metis option.inject)
qed

text \<open>The order in which a journal evolves: a record is never removed, its assignment, issuer and
  fingerprint never change, and an outcome once stored stays.\<close>

definition view_le :: "journal_view \<Rightarrow> journal_view \<Rightarrow> bool" where
  "view_le v w =
     (\<forall>k r. jv_records v k = Some r \<longrightarrow>
        (\<exists>r'. jv_records w k = Some r' \<and> jr_assignment r' = jr_assignment r \<and>
           jr_issuer_id r' = jr_issuer_id r \<and> jr_fingerprint r' = jr_fingerprint r \<and>
           (jr_outcome r \<noteq> None \<longrightarrow> r' = r)))"

lemma view_le_refl [simp]: "view_le v v"
  by (simp add: view_le_def)

lemma view_leD:
  assumes "view_le v w" "jv_records v k = Some r"
  obtains r' where "jv_records w k = Some r'" "jr_assignment r' = jr_assignment r"
    "jr_issuer_id r' = jr_issuer_id r" "jr_fingerprint r' = jr_fingerprint r"
    "jr_outcome r \<noteq> None \<Longrightarrow> r' = r"
  using assms unfolding view_le_def by blast

lemma view_le_trans [trans]:
  assumes "view_le u v" and "view_le v w"
  shows "view_le u w"
  unfolding view_le_def
proof (intro allI impI)
  fix k r assume "jv_records u k = Some r"
  from view_leD[OF assms(1) this] obtain r1 where r1: "jv_records v k = Some r1"
    "jr_assignment r1 = jr_assignment r" "jr_issuer_id r1 = jr_issuer_id r"
    "jr_fingerprint r1 = jr_fingerprint r" "jr_outcome r \<noteq> None \<Longrightarrow> r1 = r" by blast
  from view_leD[OF assms(2) r1(1)] obtain r2 where r2: "jv_records w k = Some r2"
    "jr_assignment r2 = jr_assignment r1" "jr_issuer_id r2 = jr_issuer_id r1"
    "jr_fingerprint r2 = jr_fingerprint r1" "jr_outcome r1 \<noteq> None \<Longrightarrow> r2 = r1" by blast
  then show "\<exists>r'. jv_records w k = Some r' \<and> jr_assignment r' = jr_assignment r \<and>
      jr_issuer_id r' = jr_issuer_id r \<and> jr_fingerprint r' = jr_fingerprint r \<and> (jr_outcome r \<noteq> None \<longrightarrow> r' = r)"
    using r1 by (intro exI[of _ r2]) auto
qed

lemma view_le_claim: "av_claim fp a issuer v = (v', c) \<Longrightarrow> view_le v v'"
  by (auto simp: av_claim_def view_le_def split: option.splits if_splits)

lemma view_le_restart: "view_le v (av_restart v)"
  by (auto simp: av_restart_def view_le_def)

lemma view_le_finish:
  assumes ok: "view_ok v" and some: "jv_records v aid = Some r"
    and free: "\<And>prev. jr_outcome r = Some prev \<Longrightarrow> prev = canon_outcome oc"
  shows "view_le v (av_finish aid oc v)"
proof -
  have "r\<lparr>jr_status := oc_status oc, jr_outcome := Some (canon_outcome oc)\<rparr> = r" if "jr_outcome r \<noteq> None"
    using that free view_okD(3)[OF ok some] by auto
  then show ?thesis
    using some by (auto simp: view_le_def av_finish_record[OF some])
qed

lemma av_claim_new:
  "av_claim fp a issuer v = (v', c) \<Longrightarrow> claim_kind c = CkNew \<Longrightarrow>
   jv_records v (assignment_id a) = None \<and>
   jv_records v' (assignment_id a) = Some \<lparr>jr_assignment = canon_assignment a, jr_issuer_id = issuer,
      jr_status = AsAccepted, jr_outcome = None, jr_fingerprint = fp\<rparr>"
  by (auto simp: av_claim_def mk_claim_def split: option.splits if_splits)

lemma av_claim_free:
  assumes "jv_records v (assignment_id a) = None"
    and "\<And>x k. x \<in> set (step_resources (asg_step a)) \<Longrightarrow> jv_owner v x = Some k \<Longrightarrow> k = assignment_id a"
    and "jv_records v' = (jv_records v)(assignment_id a \<mapsto> \<lparr>jr_assignment = canon_assignment a,
      jr_issuer_id = issuer, jr_status = AsAccepted, jr_outcome = None, jr_fingerprint = fp\<rparr>)"
    and "jv_owner v' = (\<lambda>x. if x \<in> set (step_resources (asg_step a)) then Some (assignment_id a) else jv_owner v x)"
  shows "av_claim fp a issuer v = (v', mk_claim CkNew)"
proof -
  have "\<not> (\<exists>r\<in>set (step_resources (asg_step a)). \<exists>owner. jv_owner v r = Some owner \<and> owner \<noteq> assignment_id a)"
    using assms(2) by blast
  then show ?thesis
    using assms(1) unfolding av_claim_def by (simp only: option.case if_False) (simp add: assms(3,4)[symmetric])
qed

lemma av_claim_known:
  "av_claim fp a issuer v = (v', c) \<Longrightarrow> jv_records v (assignment_id a) = Some r \<Longrightarrow>
   v' = v \<and> claim_kind c \<in> {CkReplay, CkConflict, CkUncertain}"
  by (auto simp: av_claim_def mk_claim_def split: option.splits if_splits)


section \<open>The interface\<close>

text \<open>\<open>agrees\<close>: no digest collision between an assignment and the record stored under its id.\<close>

definition agrees :: "(string \<Rightarrow> string) \<Rightarrow> assignment \<Rightarrow> journal_view \<Rightarrow> bool" where
  "agrees digest a v =
     (\<forall>r. jv_records v (assignment_id a) = Some r \<longrightarrow> jr_fingerprint r = assignment_fingerprint digest a \<longrightarrow>
        jr_assignment r = canon_assignment a)"

text \<open>A record that may be completed; what \<open>complete\<close> does with a terminal record is not part of the interface, since the
  in-memory journal accepts an outcome that is only equal, such as \<open>1.0\<close> for \<open>1\<close>.\<close>

definition unfinished :: "string \<Rightarrow> journal_view \<Rightarrow> bool" where
  "unfinished k v = (\<forall>r. jv_records v k = Some r \<longrightarrow> jr_outcome r = None)"

locale assignment_journal =
  fixes digest :: "string \<Rightarrow> string"
    and view :: "'s \<Rightarrow> journal_view"
    and inv :: "'s \<Rightarrow> bool"
    and claim :: "assignment \<Rightarrow> string \<Rightarrow> int \<Rightarrow> 's \<Rightarrow> ('s \<times> claim_result) res"
    and complete :: "assignment \<Rightarrow> outcome \<Rightarrow> int \<Rightarrow> 's \<Rightarrow> 's res"
    and lookup :: "string \<Rightarrow> 's \<Rightarrow> journal_record option res"
    and resolve :: "string \<Rightarrow> assignment_status \<Rightarrow> string \<Rightarrow> string \<Rightarrow> string \<Rightarrow> int \<Rightarrow> 's \<Rightarrow> ('s \<times> outcome) res"
  assumes inv_view: "inv s \<Longrightarrow> view_ok (view s)"
    and claim_sim: "inv s \<Longrightarrow> wf_assignment a \<Longrightarrow>
      \<exists>s' c. claim a issuer now s = Inr (s', c) \<and> inv s' \<and>
        av_claim (assignment_fingerprint digest a) a issuer (view s) = (view s', canon_claim c)"
    and complete_sim: "inv s \<Longrightarrow> wf_assignment a \<Longrightarrow> valid_outcome oc \<Longrightarrow> wf_json (oc_outputs oc) \<Longrightarrow>
      agrees digest a (view s) \<Longrightarrow> unfinished (assignment_id a) (view s) \<Longrightarrow>
      (if av_can_finish (assignment_fingerprint digest a) (assignment_id a) oc (view s)
       then \<exists>s'. complete a oc now s = Inr s' \<and> inv s' \<and> view s' = av_finish (assignment_id a) oc (view s)
       else \<exists>m. complete a oc now s = Inl (ValueError m))"
    and lookup_sim: "inv s \<Longrightarrow> \<exists>x. lookup k s = Inr x \<and> map_option canon_record x = jv_records (view s) k"
    and resolve_sim: "inv s \<Longrightarrow> resolve k st descr resolver evidence now s = Inr (s', oc) \<Longrightarrow>
      inv s' \<and> view s' = av_finish k oc (view s) \<and> oc_status oc \<in> set terminal_resolutions \<and>
      (\<exists>r. jv_records (view s) k = Some r \<and> jr_status r = AsUnknown \<and> jr_outcome r = None)"
begin

lemma claim_le:
  assumes "inv s" "wf_assignment a" "claim a issuer now s = Inr (s', c)"
  shows "inv s' \<and> view_le (view s) (view s')"
  using claim_sim[OF assms(1,2), of issuer now] assms(3) view_le_claim by auto

lemma claim_new:
  assumes "inv s" "wf_assignment a" "claim a issuer now s = Inr (s', c)" "claim_kind c = CkNew"
  shows "jv_records (view s) (assignment_id a) = None"
    and "jv_records (view s') (assignment_id a) = Some \<lparr>jr_assignment = canon_assignment a,
       jr_issuer_id = issuer, jr_status = AsAccepted, jr_outcome = None,
       jr_fingerprint = assignment_fingerprint digest a\<rparr>"
proof -
  have "av_claim (assignment_fingerprint digest a) a issuer (view s) = (view s', canon_claim c)"
    using claim_sim[OF assms(1,2), of issuer now] assms(3) by auto
  then have "jv_records (view s) (assignment_id a) = None \<and>
     jv_records (view s') (assignment_id a) = Some \<lparr>jr_assignment = canon_assignment a, jr_issuer_id = issuer,
      jr_status = AsAccepted, jr_outcome = None, jr_fingerprint = assignment_fingerprint digest a\<rparr>"
    by (rule av_claim_new) (simp add: canon_claim_def assms(4))
  then show "jv_records (view s) (assignment_id a) = None"
    and "jv_records (view s') (assignment_id a) = Some \<lparr>jr_assignment = canon_assignment a,
       jr_issuer_id = issuer, jr_status = AsAccepted, jr_outcome = None,
       jr_fingerprint = assignment_fingerprint digest a\<rparr>" by auto
qed

lemma claim_known:
  assumes "inv s" "wf_assignment a" "claim a issuer now s = Inr (s', c)"
    and "jv_records (view s) (assignment_id a) = Some r"
  shows "view s' = view s \<and> claim_kind c \<noteq> CkNew"
proof -
  have "av_claim (assignment_fingerprint digest a) a issuer (view s) = (view s', canon_claim c)"
    using claim_sim[OF assms(1,2), of issuer now] assms(3) by auto
  from av_claim_known[OF this assms(4)] show ?thesis by (auto simp: canon_claim_def)
qed

lemma complete_le:
  assumes "inv s" "wf_assignment a" "valid_outcome oc" "wf_json (oc_outputs oc)" "agrees digest a (view s)"
    and "unfinished (assignment_id a) (view s)" and "complete a oc now s = Inr s'"
  shows "inv s' \<and> view_le (view s) (view s')"
proof -
  note sim = complete_sim[OF assms(1-6), of now]
  have can: "av_can_finish (assignment_fingerprint digest a) (assignment_id a) oc (view s)"
    using sim assms(7) by (auto split: if_splits)
  then obtain r where r: "jv_records (view s) (assignment_id a) = Some r"
    "\<And>prev. jr_outcome r = Some prev \<Longrightarrow> prev = canon_outcome oc"
    by (auto simp: av_can_finish_def split: option.splits)
  have "view_le (view s) (av_finish (assignment_id a) oc (view s))"
    by (rule view_le_finish[OF inv_view[OF assms(1)] r])
  then show ?thesis using sim can assms(7) by auto
qed

lemma resolve_le:
  assumes "inv s" "resolve k st descr resolver evidence now s = Inr (s', oc)"
  shows "inv s' \<and> view_le (view s) (view s')"
proof -
  obtain r where "jv_records (view s) k = Some r" "jr_outcome r = None"
    using resolve_sim[OF assms] by blast
  then have "view_le (view s) (av_finish k oc (view s))"
    by (intro view_le_finish[OF inv_view[OF assms(1)]]) auto
  then show ?thesis using resolve_sim[OF assms] by simp
qed

lemma active_exclusive:
  assumes "inv s" "lookup k s = Inr (Some r)" "lookup k' s = Inr (Some r')" "k \<noteq> k'"
    and "holds_resources r" "holds_resources r'"
  shows "set (step_resources (asg_step (jr_assignment r))) \<inter>
         set (step_resources (asg_step (jr_assignment r'))) = {}"
proof -
  have "jv_records (view s) k = Some (canon_record r)" "jv_records (view s) k' = Some (canon_record r')"
    using lookup_sim[OF assms(1), of k] lookup_sim[OF assms(1), of k'] assms(2,3) by auto
  from view_ok_exclusive[OF inv_view[OF assms(1)] this assms(4)] show ?thesis
    using assms(5,6) by (simp add: holds_resources_def canon_record_def)
qed

end

section \<open>The in-memory journal is a journal\<close>

definition mj_view :: "memory_journal \<Rightarrow> journal_view" where
  "mj_view j = \<lparr>jv_records = (\<lambda>k. map_option canon_record (mj_records j k)), jv_owner = mj_resources j\<rparr>"

lemma mj_view_simps [simp]:
  "jv_owner (mj_view j) = mj_resources j"
  "jv_records (mj_view j) k = map_option canon_record (mj_records j k)"
  by (simp_all add: mj_view_def)

definition mj_inv :: "memory_journal \<Rightarrow> bool" where
  "mj_inv j = (view_ok (mj_view j) \<and>
     (\<forall>k r. mj_records j k = Some r \<longrightarrow> jr_outcome r = None \<longrightarrow> jr_status r = AsAccepted))"

lemma foldl_assign: "foldl (\<lambda>m r. m(r \<mapsto> x)) m rs = (\<lambda>r. if r \<in> set rs then Some x else m r)"
  by (induction rs arbitrary: m) (auto simp: fun_eq_iff)

lemma foldl_release:
  "foldl (\<lambda>m r. if m r = Some x then m(r := None) else m) m rs =
   (\<lambda>r. if r \<in> set rs \<and> m r = Some x then None else m r)"
  by (induction rs arbitrary: m) (auto simp: fun_eq_iff)

lemma canon_record_simps [simp]:
  "jr_issuer_id (canon_record r) = jr_issuer_id r" "jr_status (canon_record r) = jr_status r"
  "jr_fingerprint (canon_record r) = jr_fingerprint r"
  "jr_outcome (canon_record r) = map_option canon_outcome (jr_outcome r)"
  "jr_assignment (canon_record r) = canon_assignment (jr_assignment r)"
  by (simp_all add: canon_record_def)

lemma canon_canon_step [simp]: "canon_step (canon_step s) = canon_step s"
  by (simp add: canon_step_def)

lemma canon_canon_values [simp]:
  "canon_outcome (canon_outcome oc) = canon_outcome oc"
  "canon_assignment (canon_assignment a) = canon_assignment a"
  by (simp_all add: canon_outcome_def canon_assignment_def)

lemma mj_claim_sim:
  assumes "mj_inv j"
  shows "\<exists>j' c. mj_claim digest a issuer now j = Inr (j', c) \<and> mj_inv j' \<and>
     av_claim (assignment_fingerprint digest a) a issuer (mj_view j) = (mj_view j', canon_claim c)"
proof -
  let ?fp = "assignment_fingerprint digest a"
  have "is_ok (mj_claim digest a issuer now j)"
    by (simp add: mj_claim_def Let_def split: option.split)
  then obtain j' c where c: "mj_claim digest a issuer now j = Inr (j', c)" by (auto simp: is_ok_iff)
  have bad: "list_ex (\<lambda>r. case mj_resources j r of None \<Rightarrow> False | Some owner \<Rightarrow> owner \<noteq> assignment_id a)
        (step_resources (asg_step a)) \<longleftrightarrow>
      (\<exists>r\<in>set (step_resources (asg_step a)). \<exists>owner. jv_owner (mj_view j) r = Some owner \<and> owner \<noteq> assignment_id a)"
    by (auto simp: list_ex_iff mj_view_def split: option.splits)
  have sim: "av_claim ?fp a issuer (mj_view j) = (mj_view j', canon_claim c)"
  proof (cases "mj_records j (assignment_id a)")
    case None
    then have "jv_records (mj_view j) (assignment_id a) = None" by (simp add: mj_view_def)
    then show ?thesis
      using c None unfolding mj_claim_def av_claim_def Let_def bad[symmetric]
      by (auto simp: foldl_assign canon_claim_def mk_claim_def split: if_splits)
        (intro journal_view.equality, auto simp: fun_eq_iff canon_record_def)
  next
    case (Some r)
    then have "jv_records (mj_view j) (assignment_id a) = Some (canon_record r)" by (simp add: mj_view_def)
    then show ?thesis
      using c Some unfolding mj_claim_def av_claim_def Let_def
      by (cases "jr_outcome r") (auto simp: canon_claim_def mk_claim_def split: if_splits)
  qed
  have "view_ok (mj_view j')" using view_ok_claim[OF _ sim] assms by (simp add: mj_inv_def)
  moreover have "\<forall>k r. mj_records j' k = Some r \<longrightarrow> jr_outcome r = None \<longrightarrow> jr_status r = AsAccepted"
    using assms c unfolding mj_claim_def Let_def mj_inv_def by (auto split: option.splits if_splits)
  ultimately show ?thesis using c sim by (auto simp: mj_inv_def)
qed

lemma mj_complete_sim:
  assumes inv: "mj_inv j" and oc: "valid_outcome oc" and ag: "agrees digest a (mj_view j)"
    and open_record: "unfinished (assignment_id a) (mj_view j)"
  shows "if av_can_finish (assignment_fingerprint digest a) (assignment_id a) oc (mj_view j)
     then \<exists>j'. mj_complete digest a oc now j = Inr j' \<and> mj_inv j' \<and>
            mj_view j' = av_finish (assignment_id a) oc (mj_view j)
     else \<exists>m. mj_complete digest a oc now j = Inl (ValueError m)"
proof (cases "av_can_finish (assignment_fingerprint digest a) (assignment_id a) oc (mj_view j)")
  case False
  then show ?thesis using open_record
    unfolding mj_complete_def av_can_finish_def mj_view_def Let_def unfinished_def
    by (auto split: option.splits)
next
  case True
  let ?aid = "assignment_id a"
  obtain r where r: "mj_records j ?aid = Some r" "jr_fingerprint r = assignment_fingerprint digest a"
    and prev: "jr_outcome r = None"
    using True open_record unfolding av_can_finish_def mj_view_def unfinished_def by (auto split: option.splits)
  have ok: "view_ok (mj_view j)" using inv by (simp add: mj_inv_def)
  have rv: "jv_records (mj_view j) ?aid = Some (canon_record r)" using r by (simp add: mj_view_def)
  have same: "canon_assignment (jr_assignment r) = canon_assignment a"
    using ag[unfolded agrees_def, rule_format, OF rv] r(2) by simp
  then have res: "step_resources (asg_step (jr_assignment r)) = step_resources (asg_step a)"
    by (metis canon_assignment_simps(5) canon_step_simps(4))
  have own: "x \<in> set (step_resources (asg_step a))" if "mj_resources j x = Some ?aid" for x
  proof (rule view_ok_owner[OF ok])
    show "jv_owner (mj_view j) x = Some ?aid" using that by simp
    fix q assume "jv_records (mj_view j) ?aid = Some q" "x \<in> set (step_resources (asg_step (jr_assignment q)))"
    then show ?thesis using rv res by (simp add: r(1)) auto
  qed
  have "is_ok (mj_complete digest a oc now j)"
    using r prev by (simp add: mj_complete_def Let_def)
  then obtain j' where j': "mj_complete digest a oc now j = Inr j'" by (auto simp: is_ok_iff)
  have j'_def: "j' = j\<lparr>mj_records := (mj_records j)(?aid \<mapsto>
        \<lparr>jr_assignment = a, jr_issuer_id = jr_issuer_id r, jr_status = oc_status oc,
         jr_outcome = Some oc, jr_fingerprint = assignment_fingerprint digest a\<rparr>),
      mj_resources := (if oc_status oc \<noteq> AsUnknown
        then (\<lambda>x. if x \<in> set (step_resources (asg_step a)) \<and> mj_resources j x = Some ?aid then None
                  else mj_resources j x)
        else mj_resources j)\<rparr>"
    using j' r(1) unfolding mj_complete_def Let_def foldl_release by (simp split: if_split_asm)
  have sim: "mj_view j' = av_finish ?aid oc (mj_view j)"
  proof (rule journal_view.equality)
    show "jv_owner (mj_view j') = jv_owner (av_finish ?aid oc (mj_view j))"
      using own by (auto simp: j'_def fun_eq_iff av_finish_owner)
    show "jv_records (mj_view j') = jv_records (av_finish ?aid oc (mj_view j))"
      using r(2) same unfolding av_finish_record[OF rv] by (simp add: j'_def canon_record_def fun_eq_iff)
  qed simp
  have "view_ok (mj_view j')"
    unfolding sim using view_ok_finish[OF ok _ rv] prev oc by (auto simp: valid_outcome_def)
  moreover have "\<forall>k q. mj_records j' k = Some q \<longrightarrow> jr_outcome q = None \<longrightarrow> jr_status q = AsAccepted"
    using inv j' unfolding mj_complete_def Let_def mj_inv_def by (auto split: option.splits if_splits)
  ultimately show ?thesis using True j' sim by (auto simp: mj_inv_def)
qed

text \<open>In memory no record is ever unknown without an outcome, so \<open>resolve_unknown\<close> never succeeds.\<close>

lemma mj_resolve_never:
  "mj_inv j \<Longrightarrow> mj_resolve_unknown digest k st descr resolver evidence now j \<noteq> Inr x"
  unfolding mj_resolve_unknown_def mj_inv_def
  by (auto simp: res_simps split: option.splits if_splits)

lemma mj_inv_empty: "mj_inv mj_empty"
  by (simp add: mj_inv_def mj_view_def mj_empty_def view_ok_empty)

interpretation mj: assignment_journal digest mj_view mj_inv "mj_claim digest" "mj_complete digest"
    mj_lookup "mj_resolve_unknown digest" for digest
proof
  fix s a issuer now
  assume "mj_inv s"
  then show "\<exists>s' c. mj_claim digest a issuer now s = Inr (s', c) \<and> mj_inv s' \<and>
      av_claim (assignment_fingerprint digest a) a issuer (mj_view s) = (mj_view s', canon_claim c)"
    by (rule mj_claim_sim)
next
  fix s a oc now
  assume "mj_inv s" "valid_outcome oc" "agrees digest a (mj_view s)" "unfinished (assignment_id a) (mj_view s)"
  then show "if av_can_finish (assignment_fingerprint digest a) (assignment_id a) oc (mj_view s)
     then \<exists>s'. mj_complete digest a oc now s = Inr s' \<and> mj_inv s' \<and>
            mj_view s' = av_finish (assignment_id a) oc (mj_view s)
     else \<exists>m. mj_complete digest a oc now s = Inl (ValueError m)"
    by (rule mj_complete_sim)
qed (use mj_resolve_never in \<open>auto simp: mj_inv_def mj_lookup_def mj_view_def\<close>)


section \<open>The SQLite journal is a journal\<close>

definition row_ok :: "(string \<Rightarrow> string) \<Rightarrow> assignment_row \<Rightarrow> bool" where
  "row_ok digest row =
     (\<exists>a issuer st. wf_assignment a \<and> ar_assignment_id row = assignment_id a \<and>
        ar_fingerprint row = assignment_fingerprint digest a \<and>
        ar_assignment_json row = Some (assignment_json a) \<and> ar_issuer_id row = Some issuer \<and>
        ar_status row = assignment_status_value st \<and>
        (\<forall>enc. ar_outcome_json row = Some enc \<longrightarrow>
           (\<exists>oc. enc = outcome_json oc \<and> valid_outcome oc \<and> wf_json (oc_outputs oc))))"

definition sj_view :: "sqlite_journal \<Rightarrow> journal_view" where
  "sj_view j =
     \<lparr>jv_records = (\<lambda>k. case sj_lookup k j of Inr x \<Rightarrow> x | Inl _ \<Rightarrow> None),
      jv_owner = (\<lambda>x. map_option rr_assignment_id (find (\<lambda>r. rr_resource_id r = x) (sj_reservations j)))\<rparr>"

definition sj_inv :: "(string \<Rightarrow> string) \<Rightarrow> sqlite_journal \<Rightarrow> bool" where
  "sj_inv digest j =
     (distinct (map rr_resource_id (sj_reservations j)) \<and>
      (\<forall>row\<in>set (sj_assignments j). row_ok digest row) \<and>
      (\<forall>x\<in>set (sj_resolutions j). \<exists>row. find_row (rs_assignment_id x) j = Some row \<and> ar_outcome_json row \<noteq> None) \<and>
      view_ok (sj_view j))"

text \<open>What a well-formed row says when it is read back.\<close>

definition row_view :: "assignment_row \<Rightarrow> journal_record option" where
  "row_view row = (case row_record row of Inr x \<Rightarrow> x | Inl _ \<Rightarrow> None)"

lemma row_okE:
  assumes "row_ok digest row"
  obtains a issuer st where "wf_assignment a" "ar_assignment_id row = assignment_id a"
    "ar_fingerprint row = assignment_fingerprint digest a"
    "ar_assignment_json row = Some (assignment_json a)" "ar_issuer_id row = Some issuer"
    "ar_status row = assignment_status_value st"
    "\<And>enc. ar_outcome_json row = Some enc \<Longrightarrow>
       \<exists>oc. enc = outcome_json oc \<and> valid_outcome oc \<and> wf_json (oc_outputs oc)"
    "\<And>oc. ar_outcome_json row = None \<and> oc = None \<or>
       (\<exists>x. ar_outcome_json row = Some (outcome_json x) \<and> valid_outcome x \<and> wf_json (oc_outputs x) \<and>
            oc = Some (canon_outcome x)) \<Longrightarrow>
       row_record row = Inr (Some \<lparr>jr_assignment = canon_assignment a, jr_issuer_id = issuer, jr_status = st,
         jr_outcome = oc, jr_fingerprint = assignment_fingerprint digest a\<rparr>)"
proof -
  obtain a issuer st where *: "wf_assignment a" "ar_assignment_id row = assignment_id a"
    "ar_fingerprint row = assignment_fingerprint digest a"
    "ar_assignment_json row = Some (assignment_json a)" "ar_issuer_id row = Some issuer"
    "ar_status row = assignment_status_value st"
    "\<And>enc. ar_outcome_json row = Some enc \<Longrightarrow>
       \<exists>oc. enc = outcome_json oc \<and> valid_outcome oc \<and> wf_json (oc_outputs oc)"
    using assms unfolding row_ok_def by blast
  have "row_record row = Inr (Some \<lparr>jr_assignment = canon_assignment a, jr_issuer_id = issuer, jr_status = st,
         jr_outcome = oc, jr_fingerprint = assignment_fingerprint digest a\<rparr>)"
    if "ar_outcome_json row = None \<and> oc = None \<or>
       (\<exists>x. ar_outcome_json row = Some (outcome_json x) \<and> valid_outcome x \<and> wf_json (oc_outputs x) \<and>
            oc = Some (canon_outcome x))" for oc
    using that by (auto simp: row_record_def * decode_assignment_json decode_outcome_json)
  then show ?thesis using * that by blast
qed

lemma row_view_outcome:
  assumes "row_ok digest row"
  shows "\<exists>r. row_record row = Inr (Some r) \<and> jr_fingerprint r = ar_fingerprint row \<and>
     Some (jr_issuer_id r) = ar_issuer_id row \<and> assignment_status_value (jr_status r) = ar_status row \<and>
     assignment_id (jr_assignment r) = ar_assignment_id row \<and>
     (case ar_outcome_json row of
        None \<Rightarrow> jr_outcome r = None
      | Some enc \<Rightarrow> \<exists>oc. jr_outcome r = Some (canon_outcome oc) \<and> enc = outcome_json oc \<and> valid_outcome oc \<and>
                       wf_json (oc_outputs oc) \<and> decode_outcome enc = Inr (canon_outcome oc))"
proof -
  from assms obtain a issuer st where a: "wf_assignment a" "ar_assignment_id row = assignment_id a"
    "ar_fingerprint row = assignment_fingerprint digest a" "ar_issuer_id row = Some issuer"
    "ar_status row = assignment_status_value st"
    and t: "\<And>enc. ar_outcome_json row = Some enc \<Longrightarrow>
       \<exists>oc. enc = outcome_json oc \<and> valid_outcome oc \<and> wf_json (oc_outputs oc)"
    and rec: "\<And>oc. ar_outcome_json row = None \<and> oc = None \<or>
       (\<exists>x. ar_outcome_json row = Some (outcome_json x) \<and> valid_outcome x \<and> wf_json (oc_outputs x) \<and>
            oc = Some (canon_outcome x)) \<Longrightarrow>
       row_record row = Inr (Some \<lparr>jr_assignment = canon_assignment a, jr_issuer_id = issuer, jr_status = st,
         jr_outcome = oc, jr_fingerprint = assignment_fingerprint digest a\<rparr>)"
    by (rule row_okE) blast
  show ?thesis
  proof (cases "ar_outcome_json row")
    case None
    with rec[of None] a show ?thesis by simp
  next
    case (Some enc)
    then obtain oc where oc: "enc = outcome_json oc" "valid_outcome oc" "wf_json (oc_outputs oc)"
      using t by blast
    have "row_record row = Inr (Some \<lparr>jr_assignment = canon_assignment a, jr_issuer_id = issuer, jr_status = st,
         jr_outcome = Some (canon_outcome oc), jr_fingerprint = assignment_fingerprint digest a\<rparr>)"
      by (rule rec) (use Some oc in blast)
    with Some a oc decode_outcome_json[OF oc(2,3)] show ?thesis by (intro exI conjI) auto
  qed
qed

lemma outcome_json_eq_iff:
  assumes "valid_outcome x" "wf_json (oc_outputs x)" "valid_outcome y" "wf_json (oc_outputs y)"
  shows "outcome_json x = outcome_json y \<longleftrightarrow> canon_outcome x = canon_outcome y"
proof
  assume "outcome_json x = outcome_json y"
  then show "canon_outcome x = canon_outcome y"
    using decode_outcome_json[OF assms(1,2)] decode_outcome_json[OF assms(3,4)] by simp
next
  assume eq: "canon_outcome x = canon_outcome y"
  have "canon (outcome_payload z) = canon (outcome_payload (canon_outcome z))" for z
    by (simp add: outcome_payload_def)
  then show "outcome_json x = outcome_json y"
    by (metis eq json_dumps_canon outcome_json_def)
qed

lemma sj_view_simps:
  "jv_owner (sj_view j) x = map_option rr_assignment_id (find (\<lambda>r. rr_resource_id r = x) (sj_reservations j))"
  "jv_records (sj_view j) k = Option.bind (find_row k j) row_view"
  by (auto simp: sj_view_def sj_lookup_def row_view_def split: option.splits sum.splits)

lemma sj_invD:
  assumes "sj_inv digest j"
  shows "distinct (map rr_resource_id (sj_reservations j))" "view_ok (sj_view j)"
    "row \<in> set (sj_assignments j) \<Longrightarrow> row_ok digest row"
    "find_row k j = Some row \<Longrightarrow> row_ok digest row \<and> ar_assignment_id row = k"
    "x \<in> set (sj_resolutions j) \<Longrightarrow> \<exists>row. find_row (rs_assignment_id x) j = Some row \<and> ar_outcome_json row \<noteq> None"
  using assms by (auto simp: sj_inv_def find_row_def dest: find_key_SomeD)

lemma insert_reservations_ok:
  assumes "distinct rs" and "\<And>r. r \<in> set rs \<Longrightarrow> r \<notin> rr_resource_id ` set rows"
  shows "insert_reservations aid now rs rows =
    Inr (rows @ map (\<lambda>r. \<lparr>rr_resource_id = r, rr_assignment_id = aid, rr_reserved_at_ms = now\<rparr>) rs)"
  using assms by (induction aid now rs rows rule: insert_reservations.induct) (auto simp: image_iff)


lemma row_finish:
  assumes ok: "row_ok digest row" and r: "row_view row = Some r"
    and oc: "valid_outcome oc" "wf_json (oc_outputs oc)"
    and row'_def: "row' = row\<lparr>ar_status := assignment_status_value (oc_status oc),
      ar_outcome_json := Some (outcome_json oc), ar_updated_at_ms := now\<rparr>"
  shows "row_ok digest row'"
    and "row_view row' = Some (r\<lparr>jr_status := oc_status oc, jr_outcome := Some (canon_outcome oc)\<rparr>)"
proof -
  obtain a issuer st where a: "wf_assignment a" "ar_assignment_id row = assignment_id a"
    "ar_fingerprint row = assignment_fingerprint digest a"
    "ar_assignment_json row = Some (assignment_json a)" "ar_issuer_id row = Some issuer"
    using ok unfolding row_ok_def by blast
  show "row_ok digest row'"
    using a oc unfolding row_ok_def row'_def by (auto intro!: exI[of _ a])
  have "jr_assignment r = canon_assignment a \<and> jr_issuer_id r = issuer \<and>
      jr_fingerprint r = assignment_fingerprint digest a"
    using r a unfolding row_view_def row_record_def
    by (auto simp: decode_assignment_json res_simps split: sum.splits)
  then show "row_view row' = Some (r\<lparr>jr_status := oc_status oc, jr_outcome := Some (canon_outcome oc)\<rparr>)"
    using a oc unfolding row_view_def row_record_def row'_def
    by (simp add: decode_assignment_json decode_outcome_json)
qed

lemma sj_claim_new:
  assumes inv: "sj_inv digest j" and wf: "wf_assignment a" and none: "find_row (assignment_id a) j = None"
    and free: "\<And>x k. x \<in> set (step_resources (asg_step a)) \<Longrightarrow> jv_owner (sj_view j) x = Some k \<Longrightarrow> k = assignment_id a"
  shows "\<exists>j'. sj_claim digest a issuer now j = Inr (j', mk_claim CkNew) \<and> sj_inv digest j' \<and>
     av_claim (assignment_fingerprint digest a) a issuer (sj_view j) = (sj_view j', mk_claim CkNew)"
proof -
  let ?aid = "assignment_id a" and ?R = "step_resources (asg_step a)" and ?fp = "assignment_fingerprint digest a"
  let ?row = "\<lparr>ar_assignment_id = ?aid, ar_fingerprint = ?fp, ar_assignment_json = Some (assignment_json a),
      ar_issuer_id = Some issuer, ar_status = assignment_status_value AsAccepted, ar_outcome_json = None,
      ar_accepted_at_ms = now, ar_updated_at_ms = now\<rparr>"
  let ?rsv = "map (\<lambda>r. \<lparr>rr_resource_id = r, rr_assignment_id = ?aid, rr_reserved_at_ms = now\<rparr>) ?R"
  let ?j = "j\<lparr>sj_assignments := sj_assignments j @ [?row], sj_reservations := sj_reservations j @ ?rsv\<rparr>"
  note dist = sj_invD(1)[OF inv] and ok = sj_invD(2)[OF inv]
  have vnone: "jv_records (sj_view j) ?aid = None" using none by (simp add: sj_view_simps)
  have unowned: "jv_owner (sj_view j) x = None" if "x \<in> set ?R" for x
    using free[OF that] view_ok_owner[OF ok, of x ?aid] vnone by (cases "jv_owner (sj_view j) x") auto
  then have fresh: "x \<notin> rr_resource_id ` set (sj_reservations j)" if "x \<in> set ?R" for x
    using that by (auto simp: sj_view_simps find_key_None_iff)
  have dR: "distinct ?R" using wf by (auto simp: wf_assignment_def post_init_plan_step_def res_simps)
  have noconf: "\<not> list_ex (\<lambda>x. rr_resource_id x \<in> set ?R \<and> rr_assignment_id x \<noteq> ?aid) (sj_reservations j)"
    using fresh by (auto simp: list_ex_iff)
  have c: "sj_claim digest a issuer now j = Inr (?j, mk_claim CkNew)"
    using none noconf insert_reservations_ok[OF dR fresh] by (simp add: sj_claim_def Let_def)
  have row: "find_row k ?j = (if k = ?aid then Some ?row else find_row k j)" for k
    using none by (auto simp: find_row_def find_key_append split: option.splits)
  have rv: "row_view ?row = Some \<lparr>jr_assignment = canon_assignment a, jr_issuer_id = issuer,
      jr_status = AsAccepted, jr_outcome = None, jr_fingerprint = ?fp\<rparr>"
    by (simp add: row_view_def row_record_def decode_assignment_json[OF wf] enum_defs)
  have rows: "row_ok digest ?row"
    unfolding row_ok_def using wf by (auto intro!: exI[of _ a] exI[of _ AsAccepted])
  have owner: "jv_owner (sj_view ?j) x = (if x \<in> set ?R then Some ?aid else jv_owner (sj_view j) x)" for x
    using fresh[of x] by (auto simp: sj_view_simps find_key_append find_map_key find_eq
        find_key_None_iff split: option.splits dest: find_key_SomeD)
  have "jv_records (sj_view ?j) = (jv_records (sj_view j))(?aid \<mapsto> \<lparr>jr_assignment = canon_assignment a,
      jr_issuer_id = issuer, jr_status = AsAccepted, jr_outcome = None, jr_fingerprint = ?fp\<rparr>)"
    by (simp add: fun_eq_iff sj_view_simps row rv del: assignment_status_value.simps)
  then have sim: "av_claim ?fp a issuer (sj_view j) = (sj_view ?j, mk_claim CkNew)"
    using free owner by (intro av_claim_free[OF vnone]) (auto simp: fun_eq_iff)
  have "view_ok (sj_view ?j)" by (rule view_ok_claim[OF ok sim])
  moreover have "distinct (map rr_resource_id (sj_reservations ?j))"
    using dist dR fresh by (auto simp: comp_def)
  moreover have "\<exists>row. find_row (rs_assignment_id x) ?j = Some row \<and> ar_outcome_json row \<noteq> None"
    if "x \<in> set (sj_resolutions ?j)" for x
    using sj_invD(5)[OF inv, of x] that none unfolding row by auto
  ultimately have "sj_inv digest ?j"
    using rows sj_invD(3)[OF inv] unfolding sj_inv_def by (auto simp del: assignment_status_value.simps)
  then show ?thesis using c sim by blast
qed


lemma sj_find_view:
  assumes inv: "sj_inv digest j" and row: "find_row k j = Some row"
  obtains r where "jv_records (sj_view j) k = Some r" "row_view row = Some r" "row_record row = Inr (Some r)"
    "jr_fingerprint r = ar_fingerprint row" "ar_issuer_id row = Some (jr_issuer_id r)"
    "ar_status row = assignment_status_value (jr_status r)"
    "ar_outcome_json row = None \<Longrightarrow> jr_outcome r = None"
    "\<And>enc. ar_outcome_json row = Some enc \<Longrightarrow>
      \<exists>oc. jr_outcome r = Some (canon_outcome oc) \<and> enc = outcome_json oc \<and> valid_outcome oc \<and>
           wf_json (oc_outputs oc) \<and> decode_outcome enc = Inr (canon_outcome oc)"
proof -
  have "row_ok digest row" using sj_invD(4)[OF inv row] by simp
  from row_view_outcome[OF this] obtain r where r: "row_record row = Inr (Some r)"
    "jr_fingerprint r = ar_fingerprint row" "Some (jr_issuer_id r) = ar_issuer_id row"
    "assignment_status_value (jr_status r) = ar_status row"
    "case ar_outcome_json row of None \<Rightarrow> jr_outcome r = None
      | Some enc \<Rightarrow> \<exists>oc. jr_outcome r = Some (canon_outcome oc) \<and> enc = outcome_json oc \<and> valid_outcome oc \<and>
                       wf_json (oc_outputs oc) \<and> decode_outcome enc = Inr (canon_outcome oc)" by blast
  have v: "row_view row = Some r" by (simp add: row_view_def r(1))
  then have "jv_records (sj_view j) k = Some r" by (simp add: sj_view_simps row)
  then show ?thesis using v r by (intro that[of r]) auto
qed

lemma sj_claim_sim:
  assumes inv: "sj_inv digest j" and wf: "wf_assignment a"
  shows "\<exists>j' c. sj_claim digest a issuer now j = Inr (j', c) \<and> sj_inv digest j' \<and>
     av_claim (assignment_fingerprint digest a) a issuer (sj_view j) = (sj_view j', canon_claim c)"
proof (cases "find_row (assignment_id a) j")
  case (Some row)
  from sj_find_view[OF inv Some] obtain r where r: "jv_records (sj_view j) (assignment_id a) = Some r"
    "jr_fingerprint r = ar_fingerprint row" "ar_issuer_id row = Some (jr_issuer_id r)"
    "ar_outcome_json row = None \<Longrightarrow> jr_outcome r = None"
    "\<And>enc. ar_outcome_json row = Some enc \<Longrightarrow>
      \<exists>oc. jr_outcome r = Some (canon_outcome oc) \<and> decode_outcome enc = Inr (canon_outcome oc)" by metis
  show ?thesis
  proof (cases "ar_outcome_json row")
    case None
    then show ?thesis
      using inv r Some by (auto simp: sj_claim_def av_claim_def Let_def canon_claim_def mk_claim_def)
  next
    case (Some enc)
    then obtain oc where "jr_outcome r = Some (canon_outcome oc)" "decode_outcome enc = Inr (canon_outcome oc)"
      using r(5) by blast
    then show ?thesis
      using inv r \<open>find_row (assignment_id a) j = Some row\<close> Some
      by (auto simp: sj_claim_def av_claim_def Let_def canon_claim_def mk_claim_def)
  qed
next
  case None
  let ?conf = "\<lambda>x. rr_resource_id x \<in> set (step_resources (asg_step a)) \<and> rr_assignment_id x \<noteq> assignment_id a"
  have vnone: "jv_records (sj_view j) (assignment_id a) = None" using None by (simp add: sj_view_simps)
  have owner: "jv_owner (sj_view j) (rr_resource_id x) = Some (rr_assignment_id x)"
    if "x \<in> set (sj_reservations j)" for x
    using find_key_unique[OF sj_invD(1)[OF inv] that] by (simp add: sj_view_simps)
  show ?thesis
  proof (cases "list_ex ?conf (sj_reservations j)")
    case True
    then obtain x where "x \<in> set (sj_reservations j)" "?conf x" by (auto simp: list_ex_iff)
    then have "\<exists>r\<in>set (step_resources (asg_step a)). \<exists>ow. jv_owner (sj_view j) r = Some ow \<and> ow \<noteq> assignment_id a"
      using owner by blast
    then have "av_claim (assignment_fingerprint digest a) a issuer (sj_view j) = (sj_view j, mk_claim CkResourceConflict)"
      using vnone unfolding av_claim_def by (simp only: option.case if_True)
    then show ?thesis
      using True None inv by (auto simp: sj_claim_def Let_def canon_claim_def mk_claim_def)
  next
    case False
    have "k = assignment_id a" if "x \<in> set (step_resources (asg_step a))" "jv_owner (sj_view j) x = Some k" for x k
      using that False by (auto simp: sj_view_simps list_ex_iff dest!: find_key_SomeD)
    then have "\<exists>j'. sj_claim digest a issuer now j = Inr (j', mk_claim CkNew) \<and> sj_inv digest j' \<and>
        av_claim (assignment_fingerprint digest a) a issuer (sj_view j) = (sj_view j', mk_claim CkNew)"
      by (rule sj_claim_new[OF inv wf None])
    then show ?thesis by (auto simp: canon_claim_def mk_claim_def)
  qed
qed

text \<open>Storing an outcome in the row of an assignment, with or without the release of its resources.\<close>

lemma sj_finish_sim:
  assumes inv: "sj_inv digest j" and row: "find_row k j = Some row"
    and free: "ar_outcome_json row = None \<or> ar_outcome_json row = Some (outcome_json oc)"
    and oc: "valid_outcome oc" "wf_json (oc_outputs oc)"
    and rows: "sj_assignments j' = upd_where (\<lambda>r. ar_assignment_id r = k)
       (\<lambda>r. r\<lparr>ar_status := assignment_status_value (oc_status oc), ar_outcome_json := Some (outcome_json oc),
              ar_updated_at_ms := now\<rparr>) (sj_assignments j)"
    and rsv: "sj_reservations j' =
       (if oc_status oc \<noteq> AsUnknown then filter (\<lambda>x. rr_assignment_id x \<noteq> k) (sj_reservations j)
        else sj_reservations j)"
    and res: "\<And>x. x \<in> set (sj_resolutions j') \<Longrightarrow> x \<in> set (sj_resolutions j) \<or> rs_assignment_id x = k"
  shows "sj_inv digest j' \<and> sj_view j' = av_finish k oc (sj_view j)"
proof -
  let ?f = "\<lambda>r. r\<lparr>ar_status := assignment_status_value (oc_status oc), ar_outcome_json := Some (outcome_json oc),
              ar_updated_at_ms := now\<rparr>"
  from sj_find_view[OF inv row] obtain r where r: "jv_records (sj_view j) k = Some r" "row_view row = Some r"
    "\<And>enc. ar_outcome_json row = Some enc \<Longrightarrow>
      \<exists>x. jr_outcome r = Some (canon_outcome x) \<and> enc = outcome_json x \<and> valid_outcome x \<and> wf_json (oc_outputs x)"
    "ar_outcome_json row = None \<Longrightarrow> jr_outcome r = None" by metis
  have find: "find_row k' j' = map_option (\<lambda>q. if k' = k then ?f q else q) (find_row k' j)" for k'
    unfolding find_row_def rows
    by (subst find_upd_where[where key = ar_assignment_id]) (auto simp: map_option_case dest: find_key_SomeD split: option.splits)
  have okrow: "row_ok digest row" using sj_invD(4)[OF inv row] by simp
  note fin = row_finish[OF okrow r(2) oc refl]
  have prev: "p = canon_outcome oc" if "jr_outcome r = Some p" for p
    using that free r(3,4) oc outcome_json_eq_iff by fastforce
  have view: "sj_view j' = av_finish k oc (sj_view j)"
  proof (rule journal_view.equality)
    show "jv_records (sj_view j') = jv_records (av_finish k oc (sj_view j))"
      unfolding av_finish_record[OF r(1)] using row fin(2) by (auto simp: fun_eq_iff sj_view_simps find option.map_ident)
    show "jv_owner (sj_view j') = jv_owner (av_finish k oc (sj_view j))"
      using sj_invD(1)[OF inv]
      by (auto simp: fun_eq_iff sj_view_simps rsv av_finish_owner find_filter_key split: option.splits)
  qed simp
  have "view_ok (sj_view j')"
    unfolding view by (rule view_ok_finish[OF sj_invD(2)[OF inv] _ r(1) prev]) (use oc in \<open>auto simp: valid_outcome_def\<close>)
  moreover have "distinct (map rr_resource_id (sj_reservations j'))"
    using sj_invD(1)[OF inv] by (simp add: rsv distinct_map_filter)
  moreover have "row_ok digest q" if "q \<in> set (sj_assignments j')" for q
  proof -
    obtain q0 where q0: "q0 \<in> set (sj_assignments j)" "q = (if ar_assignment_id q0 = k then ?f q0 else q0)"
      using \<open>q \<in> set (sj_assignments j')\<close> by (auto simp: rows set_upd_where)
    have ok0: "row_ok digest q0" by (rule sj_invD(3)[OF inv q0(1)])
    then obtain r0 where "row_view q0 = Some r0" using row_view_outcome by (force simp: row_view_def)
    then show ?thesis using q0(2) ok0 row_finish(1)[OF ok0 _ oc refl] by auto
  qed
  moreover have "\<exists>q. find_row (rs_assignment_id x) j' = Some q \<and> ar_outcome_json q \<noteq> None"
    if "x \<in> set (sj_resolutions j')" for x
    using res[OF that] sj_invD(5)[OF inv, of x] row by (cases "rs_assignment_id x = k") (auto simp: find)
  ultimately show ?thesis using view unfolding sj_inv_def by blast
qed


lemma sj_complete_sim:
  assumes inv: "sj_inv digest j" and oc: "valid_outcome oc" "wf_json (oc_outputs oc)"
  shows "if av_can_finish (assignment_fingerprint digest a) (assignment_id a) oc (sj_view j)
     then \<exists>j'. sj_complete digest a oc now j = Inr j' \<and> sj_inv digest j' \<and>
            sj_view j' = av_finish (assignment_id a) oc (sj_view j)
     else \<exists>m. sj_complete digest a oc now j = Inl (ValueError m)"
proof (cases "find_row (assignment_id a) j")
  case None
  then show ?thesis by (simp add: av_can_finish_def sj_complete_def Let_def sj_view_simps)
next
  case (Some row)
  let ?aid = "assignment_id a"
  from sj_find_view[OF inv Some] obtain r where r: "jv_records (sj_view j) ?aid = Some r"
    "jr_fingerprint r = ar_fingerprint row"
    "\<And>enc. ar_outcome_json row = Some enc \<Longrightarrow>
      \<exists>x. jr_outcome r = Some (canon_outcome x) \<and> enc = outcome_json x \<and> valid_outcome x \<and> wf_json (oc_outputs x)"
    "ar_outcome_json row = None \<Longrightarrow> jr_outcome r = None" by metis
  have free: "(case jr_outcome r of None \<Rightarrow> True | Some p \<Rightarrow> p = canon_outcome oc) \<longleftrightarrow>
      ar_outcome_json row = None \<or> ar_outcome_json row = Some (outcome_json oc)"
  proof (cases "ar_outcome_json row")
    case (Some enc)
    then show ?thesis using r(3)[OF Some] oc outcome_json_eq_iff by auto
  qed (use r in simp)
  show ?thesis
  proof (cases "jr_fingerprint r = assignment_fingerprint digest a \<and>
      (ar_outcome_json row = None \<or> ar_outcome_json row = Some (outcome_json oc))")
    case False
    then show ?thesis
      using Some r(1,2) free unfolding av_can_finish_def sj_complete_def Let_def by auto
  next
    case True
    then obtain j' where j': "sj_complete digest a oc now j = Inr j'"
      using Some r(2) by (auto simp: sj_complete_def Let_def)
    have "sj_inv digest j' \<and> sj_view j' = av_finish ?aid oc (sj_view j)"
      by (rule sj_finish_sim[OF inv Some _ oc])
        (use True j' Some r(2) in \<open>auto simp: sj_complete_def Let_def split: if_splits\<close>)
    then show ?thesis using j' r(1) True free unfolding av_can_finish_def by simp
  qed
qed

lemma sj_resolve_sim:
  assumes inv: "sj_inv digest j" and res: "sj_resolve_unknown k st descr resolver evidence now j = Inr (j', oc)"
  shows "sj_inv digest j' \<and> sj_view j' = av_finish k oc (sj_view j) \<and> oc_status oc \<in> set terminal_resolutions \<and>
      (\<exists>r. jv_records (sj_view j) k = Some r \<and> jr_status r = AsUnknown \<and> jr_outcome r = None)"
proof -
  obtain row where row: "find_row k j = Some row"
    using res by (auto simp: sj_resolve_unknown_def res_simps split: option.splits)
  from sj_find_view[OF inv row] obtain r where r: "jv_records (sj_view j) k = Some r"
    "ar_status row = assignment_status_value (jr_status r)" "ar_outcome_json row = None \<Longrightarrow> jr_outcome r = None"
    by metis
  have unk: "jr_status r = AsUnknown" "ar_outcome_json row = None" and tm: "st \<in> set terminal_resolutions"
    using res row r(2) by (auto simp: sj_resolve_unknown_def validate_resolution_def res_simps split: if_splits)
  have "\<exists>a :: assignment. mk_outcome k (assigned_robot_id (asg_step a)) (st = AsSucceeded) descr (Some st) (JObj []) = Inr oc"
    and j': "j' = j\<lparr>sj_resolutions := sj_resolutions j @
                    [\<lparr>rs_assignment_id = k, rs_status = assignment_status_value st,
                      rs_resolver_id = resolver, rs_evidence = evidence, rs_occurred_at_ms = now,
                      rs_outcome_json = outcome_json oc\<rparr>],
                  sj_assignments := upd_where (\<lambda>r. ar_assignment_id r = k)
                    (\<lambda>r. r\<lparr>ar_status := assignment_status_value st,
                           ar_outcome_json := Some (outcome_json oc), ar_updated_at_ms := now\<rparr>)
                    (sj_assignments j),
                  sj_reservations := filter (\<lambda>x. rr_assignment_id x \<noteq> k) (sj_reservations j)\<rparr>"
    using res row by (auto simp: sj_resolve_unknown_def res_simps split: if_splits option.splits)
  then have oc: "valid_outcome oc" "wf_json (oc_outputs oc)" "oc_status oc = st"
    by (auto simp: mk_outcome_Inr_iff resolve_status_def)
  have "sj_inv digest j' \<and> sj_view j' = av_finish k oc (sj_view j)"
    by (rule sj_finish_sim[OF inv row _ oc(1,2), where now = now])
      (use unk tm oc(3) in \<open>auto simp: j' terminal_resolutions_def\<close>)
  then show ?thesis using r(1,3) unk tm oc(3) by auto
qed

text \<open>Opening the journal in a new process is the abstract restart.\<close>

lemma sj_open_sim:
  assumes inv: "sj_inv digest j"
  shows "sj_inv digest (sj_open j) \<and> sj_view (sj_open j) = av_restart (sj_view j)"
proof -
  let ?P = "\<lambda>r. ar_status r = ''accepted'' \<and> ar_outcome_json r = None"
  let ?f = "\<lambda>r. if ?P r then r\<lparr>ar_status := ''unknown''\<rparr> else r"
  have find: "find_row k (sj_open j) = map_option ?f (find_row k j)" for k
    unfolding find_row_def sj_open_def by (simp add: find_upd_where[where key = ar_assignment_id])
  have acc: "ar_status row = assignment_status_value s \<Longrightarrow> ar_status row = ''accepted'' \<longleftrightarrow> s = AsAccepted" for row s
    by (cases s) auto
  have okf: "row_ok digest (?f row) \<and> row_view (?f row) = map_option
      (\<lambda>r. if jr_status r = AsAccepted \<and> jr_outcome r = None then r\<lparr>jr_status := AsUnknown\<rparr> else r) (row_view row)"
    if ok: "row_ok digest row" for row
  proof -
    obtain a issuer st where a: "wf_assignment a" "ar_assignment_id row = assignment_id a"
      "ar_fingerprint row = assignment_fingerprint digest a"
      "ar_assignment_json row = Some (assignment_json a)" "ar_issuer_id row = Some issuer"
      "ar_status row = assignment_status_value st"
      using ok unfolding row_ok_def by blast
    obtain r where r: "row_record row = Inr (Some r)" "assignment_status_value (jr_status r) = ar_status row"
      "ar_outcome_json row = None \<Longrightarrow> jr_outcome r = None"
      "ar_outcome_json row \<noteq> None \<Longrightarrow> jr_outcome r \<noteq> None"
      using row_view_outcome[OF ok] by (auto split: option.splits)
    show ?thesis
    proof (cases "?P row")
      case True
      then have "row_ok digest (row\<lparr>ar_status := ''unknown''\<rparr>)"
        using a unfolding row_ok_def by (auto intro!: exI[of _ a] exI[of _ AsUnknown])
      moreover have "row_view (row\<lparr>ar_status := ''unknown''\<rparr>) = Some (r\<lparr>jr_status := AsUnknown\<rparr>)"
        using r(1) True a(4,5) by (auto simp: row_view_def row_record_def res_simps decode_assignment_json[OF a(1)] enum_defs)
      moreover have "jr_status r = AsAccepted"
        using True r(2) acc[of row "jr_status r"] by simp
      ultimately show ?thesis using True r by (simp add: row_view_def)
    next
      case False
      then have "\<not> (jr_status r = AsAccepted \<and> jr_outcome r = None)" using r(2,4) by auto
      then show ?thesis using False ok r by (auto simp: row_view_def)
    qed
  qed
  have view: "sj_view (sj_open j) = av_restart (sj_view j)"
  proof (rule journal_view.equality)
    show "jv_records (sj_view (sj_open j)) = jv_records (av_restart (sj_view j))"
    proof
      fix k show "jv_records (sj_view (sj_open j)) k = jv_records (av_restart (sj_view j)) k"
      proof (cases "find_row k j")
        case (Some row)
        then have "row_ok digest row" using sj_invD(4)[OF inv] by blast
        from okf[OF this] Some show ?thesis unfolding sj_view_simps find by (simp add: av_restart_def sj_view_simps)
      qed (simp add: sj_view_simps find av_restart_def)
    qed
  qed (simp_all add: sj_view_def av_restart_def sj_open_def)
  have "row_ok digest q" if "q \<in> set (sj_assignments (sj_open j))" for q
  proof -
    obtain q0 where q0: "q0 \<in> set (sj_assignments j)" "q = ?f q0"
      using \<open>q \<in> set (sj_assignments (sj_open j))\<close> unfolding sj_open_def by (auto simp: set_upd_where simp del: if_split)
    show ?thesis unfolding q0(2) using okf[OF sj_invD(3)[OF inv q0(1)]] by (rule conjunct1)
  qed
  moreover have "\<exists>q. find_row (rs_assignment_id x) (sj_open j) = Some q \<and> ar_outcome_json q \<noteq> None"
    if "x \<in> set (sj_resolutions (sj_open j))" for x
  proof -
    have "x \<in> set (sj_resolutions j)" using that by (simp add: sj_open_def)
    then obtain q where "find_row (rs_assignment_id x) j = Some q" "ar_outcome_json q \<noteq> None"
      using sj_invD(5)[OF inv] by blast
    then show ?thesis by (simp add: find)
  qed
  ultimately show ?thesis
    using view view_ok_restart[OF sj_invD(2)[OF inv]] sj_invD(1)[OF inv]
    unfolding sj_inv_def by (auto simp: sj_open_def)
qed

lemma sj_inv_empty: "sj_inv digest sj_empty"
  by (simp add: sj_inv_def sj_empty_def sj_view_def sj_lookup_def find_row_def view_ok_empty)

lemma row_canon:
  assumes ok: "row_ok digest row" and r: "row_record row = Inr (Some r)"
  shows "canon_record r = r"
proof -
  obtain a where a: "wf_assignment a" "ar_assignment_json row = Some (assignment_json a)"
    using ok unfolding row_ok_def by blast
  have "canon_assignment (jr_assignment r) = jr_assignment r"
    using r a by (auto simp: row_record_def res_simps decode_assignment_json[OF a(1)] split: option.splits)
  moreover have "map_option canon_outcome (jr_outcome r) = jr_outcome r"
    using row_view_outcome[OF ok] r by (auto split: option.splits)
  ultimately show ?thesis by (simp add: canon_record_def)
qed

lemma sj_lookup_view:
  assumes "sj_inv digest j"
  shows "sj_lookup k j = Inr (jv_records (sj_view j) k)"
    and "map_option canon_record (jv_records (sj_view j) k) = jv_records (sj_view j) k"
proof -
  have "sj_lookup k j = Inr (jv_records (sj_view j) k) \<and>
      map_option canon_record (jv_records (sj_view j) k) = jv_records (sj_view j) k"
  proof (cases "find_row k j")
    case None
    then show ?thesis by (simp add: sj_lookup_def sj_view_simps)
  next
    case (Some row)
    then have ok: "row_ok digest row" using sj_invD(4)[OF assms] by blast
    then obtain r where r: "row_record row = Inr (Some r)" using row_view_outcome by blast
    then show ?thesis
      using Some row_canon[OF ok r] by (simp add: sj_lookup_def sj_view_simps row_view_def)
  qed
  then show "sj_lookup k j = Inr (jv_records (sj_view j) k)"
    and "map_option canon_record (jv_records (sj_view j) k) = jv_records (sj_view j) k" by auto
qed

interpretation sj: assignment_journal digest sj_view "sj_inv digest" "sj_claim digest" "sj_complete digest"
    sj_lookup sj_resolve_unknown for digest
proof
  fix s a issuer now
  assume "sj_inv digest s" "wf_assignment a"
  then show "\<exists>s' c. sj_claim digest a issuer now s = Inr (s', c) \<and> sj_inv digest s' \<and>
      av_claim (assignment_fingerprint digest a) a issuer (sj_view s) = (sj_view s', canon_claim c)"
    by (rule sj_claim_sim)
next
  fix s a oc now
  assume "sj_inv digest s" "valid_outcome oc" "wf_json (oc_outputs oc)"
  then show "if av_can_finish (assignment_fingerprint digest a) (assignment_id a) oc (sj_view s)
     then \<exists>s'. sj_complete digest a oc now s = Inr s' \<and> sj_inv digest s' \<and>
            sj_view s' = av_finish (assignment_id a) oc (sj_view s)
     else \<exists>m. sj_complete digest a oc now s = Inl (ValueError m)"
    by (rule sj_complete_sim)
next
  fix s k st descr resolver evidence now s' oc
  assume "sj_inv digest s" "sj_resolve_unknown k st descr resolver evidence now s = Inr (s', oc)"
  then show "sj_inv digest s' \<and> sj_view s' = av_finish k oc (sj_view s) \<and> oc_status oc \<in> set terminal_resolutions \<and>
      (\<exists>r. jv_records (sj_view s) k = Some r \<and> jr_status r = AsUnknown \<and> jr_outcome r = None)"
    by (rule sj_resolve_sim)
qed (auto simp: sj_invD(2) sj_lookup_view)

end
