(* ===== verification/Journal_Runs.thy ===== *)
theory Journal_Runs
  imports Journal
begin

text \<open>
  The journal object a participant holds (either implementation), histories of journal
  operations with process restarts in between, and what holds along every history: an assignment
  is accepted at most once, a stored outcome never changes, resources are exclusive, a restart
  turns an action in flight into an unknown one, and the two implementations are
  indistinguishable within one process.
\<close>

section \<open>The journal object\<close>

datatype journal = MemoryJournal memory_journal | SqliteJournal sqlite_journal

definition j_claim ::
  "(string \<Rightarrow> string) \<Rightarrow> assignment \<Rightarrow> string \<Rightarrow> int \<Rightarrow> journal \<Rightarrow> (journal \<times> claim_result) res" where
  "j_claim digest a issuer now j = (case j of
      MemoryJournal m \<Rightarrow> rbind (mj_claim digest a issuer now m) (\<lambda>(m', c). Inr (MemoryJournal m', c))
    | SqliteJournal s \<Rightarrow> rbind (sj_claim digest a issuer now s) (\<lambda>(s', c). Inr (SqliteJournal s', c)))"

definition j_complete ::
  "(string \<Rightarrow> string) \<Rightarrow> assignment \<Rightarrow> outcome \<Rightarrow> int \<Rightarrow> journal \<Rightarrow> journal res" where
  "j_complete digest a oc now j = (case j of
      MemoryJournal m \<Rightarrow> rbind (mj_complete digest a oc now m) (\<lambda>m'. Inr (MemoryJournal m'))
    | SqliteJournal s \<Rightarrow> rbind (sj_complete digest a oc now s) (\<lambda>s'. Inr (SqliteJournal s')))"

definition j_lookup :: "string \<Rightarrow> journal \<Rightarrow> journal_record option res" where
  "j_lookup aid j = (case j of MemoryJournal m \<Rightarrow> mj_lookup aid m | SqliteJournal s \<Rightarrow> sj_lookup aid s)"

definition j_resolve_unknown ::
  "(string \<Rightarrow> string) \<Rightarrow> string \<Rightarrow> assignment_status \<Rightarrow> string \<Rightarrow> string \<Rightarrow> string \<Rightarrow> int \<Rightarrow> journal \<Rightarrow>
   (journal \<times> outcome) res" where
  "j_resolve_unknown digest aid st descr resolver evidence now j = (case j of
      MemoryJournal m \<Rightarrow> rbind (mj_resolve_unknown digest aid st descr resolver evidence now m)
        (\<lambda>(m', oc). Inr (MemoryJournal m', oc))
    | SqliteJournal s \<Rightarrow> rbind (sj_resolve_unknown aid st descr resolver evidence now s)
        (\<lambda>(s', oc). Inr (SqliteJournal s', oc)))"

definition j_view :: "journal \<Rightarrow> journal_view" where
  "j_view j = (case j of MemoryJournal m \<Rightarrow> mj_view m | SqliteJournal s \<Rightarrow> sj_view s)"

definition j_inv :: "(string \<Rightarrow> string) \<Rightarrow> journal \<Rightarrow> bool" where
  "j_inv digest j = (case j of MemoryJournal m \<Rightarrow> mj_inv m | SqliteJournal s \<Rightarrow> sj_inv digest s)"

lemmas journal_defs = j_claim_def j_complete_def j_lookup_def j_resolve_unknown_def j_view_def j_inv_def

interpretation j: assignment_journal digest j_view "j_inv digest" "j_claim digest" "j_complete digest"
    j_lookup "j_resolve_unknown digest" for digest
proof
  fix s a issuer now
  assume "j_inv digest s" "wf_assignment a"
  then show "\<exists>s' c. j_claim digest a issuer now s = Inr (s', c) \<and> j_inv digest s' \<and>
      av_claim (assignment_fingerprint digest a) a issuer (j_view s) = (j_view s', canon_claim c)"
    using mj.claim_sim[of _ a digest issuer now] sj.claim_sim[of digest _ a issuer now]
    by (cases s) (fastforce simp: journal_defs)+
next
  fix s a oc now
  assume "j_inv digest s" "wf_assignment a" "valid_outcome oc" "wf_json (oc_outputs oc)" "agrees digest a (j_view s)"
    "unfinished (assignment_id a) (j_view s)"
  then show "if av_can_finish (assignment_fingerprint digest a) (assignment_id a) oc (j_view s)
     then \<exists>s'. j_complete digest a oc now s = Inr s' \<and> j_inv digest s' \<and>
            j_view s' = av_finish (assignment_id a) oc (j_view s)
     else \<exists>m. j_complete digest a oc now s = Inl (ValueError m)"
    using mj.complete_sim[of _ a oc digest now] sj.complete_sim[of digest _ a oc now]
    by (cases s) (fastforce simp: journal_defs split: if_splits)+
next
  fix s k
  assume "j_inv digest s"
  then show "\<exists>x. j_lookup k s = Inr x \<and> map_option canon_record x = jv_records (j_view s) k"
    using mj.lookup_sim[of _ k] sj.lookup_sim[of digest _ k] by (cases s) (auto simp: journal_defs)
next
  fix s k st descr resolver evidence now s' oc
  assume "j_inv digest s" "j_resolve_unknown digest k st descr resolver evidence now s = Inr (s', oc)"
  then show "j_inv digest s' \<and> j_view s' = av_finish k oc (j_view s) \<and> oc_status oc \<in> set terminal_resolutions \<and>
      (\<exists>r. jv_records (j_view s) k = Some r \<and> jr_status r = AsUnknown \<and> jr_outcome r = None)"
    using mj_resolve_never sj.resolve_sim
    by (cases s) (auto simp: journal_defs res_simps split: prod.splits; blast)+
qed (auto simp: journal_defs mj_inv_def sj_invD(2) split: journal.splits)

section \<open>Histories\<close>

datatype journal_op =
    OpClaim assignment string int
  | OpComplete assignment outcome int
  | OpResolve string assignment_status string string string int
  | OpRestart

text \<open>The values the program passes to the journal were accepted by their constructors.\<close>

fun wf_op :: "journal_op \<Rightarrow> bool" where
  "wf_op (OpClaim a issuer now) = wf_assignment a"
| "wf_op (OpComplete a oc now) = (wf_assignment a \<and> valid_outcome oc \<and> wf_json (oc_outputs oc))"
| "wf_op _ = True"

text \<open>One operation on the durable journal; an exception leaves the database as it was.\<close>

fun sj_step :: "(string \<Rightarrow> string) \<Rightarrow> journal_op \<Rightarrow> sqlite_journal \<Rightarrow> sqlite_journal" where
  "sj_step digest (OpClaim a issuer now) j =
     (case sj_claim digest a issuer now j of Inr (j', c) \<Rightarrow> j' | Inl _ \<Rightarrow> j)"
| "sj_step digest (OpComplete a oc now) j =
     (case sj_complete digest a oc now j of Inr j' \<Rightarrow> j' | Inl _ \<Rightarrow> j)"
| "sj_step digest (OpResolve k st descr resolver evidence now) j =
     (case sj_resolve_unknown k st descr resolver evidence now j of Inr (j', oc) \<Rightarrow> j' | Inl _ \<Rightarrow> j)"
| "sj_step digest OpRestart j = sj_open j"

definition sj_run :: "(string \<Rightarrow> string) \<Rightarrow> journal_op list \<Rightarrow> sqlite_journal \<Rightarrow> sqlite_journal" where
  "sj_run digest ops j = foldl (\<lambda>s op. sj_step digest op s) j ops"

text \<open>The claims of a history that were answered NEW, with their assignment ids.\<close>

definition op_new :: "(string \<Rightarrow> string) \<Rightarrow> journal_op \<Rightarrow> sqlite_journal \<Rightarrow> string list" where
  "op_new digest op j =
     (case op of
        OpClaim a issuer now \<Rightarrow>
          (case sj_claim digest a issuer now j of
             Inr (j', c) \<Rightarrow> if claim_kind c = CkNew then [assignment_id a] else []
           | Inl _ \<Rightarrow> [])
      | _ \<Rightarrow> [])"

fun new_claims :: "(string \<Rightarrow> string) \<Rightarrow> journal_op list \<Rightarrow> sqlite_journal \<Rightarrow> string list" where
  "new_claims digest [] j = []"
| "new_claims digest (op # ops) j = op_new digest op j @ new_claims digest ops (sj_step digest op j)"

lemma op_newE:
  assumes "k \<in> set (op_new digest op j)"
  obtains a issuer now j' c where "op = OpClaim a issuer now" "k = assignment_id a"
    "sj_claim digest a issuer now j = Inr (j', c)" "claim_kind c = CkNew" "sj_step digest op j = j'"
proof -
  obtain a issuer now where op: "op = OpClaim a issuer now"
    using assms by (auto simp: op_new_def split: journal_op.splits)
  obtain j' c where "sj_claim digest a issuer now j = Inr (j', c)" "claim_kind c = CkNew" "k = assignment_id a"
    using assms by (cases "sj_claim digest a issuer now j") (auto simp: op_new_def op split: if_splits)
  then show ?thesis using that[OF op] by (simp add: op)
qed

lemma op_new_distinct [simp]: "distinct (op_new digest op j)"
  by (auto simp: op_new_def split: journal_op.splits sum.splits)

lemma sj_step_le:
  assumes inv: "sj_inv digest j" and wf: "wf_op op"
  shows "sj_inv digest (sj_step digest op j) \<and> view_le (sj_view j) (sj_view (sj_step digest op j))"
proof (cases op)
  case (OpClaim a issuer now)
  then show ?thesis
    using sj.claim_le[OF inv, of a issuer now] inv wf by (auto split: sum.splits prod.splits)
next
  case (OpComplete a oc now)
  have sim: "sj_inv digest j' \<and> view_le (sj_view j) (sj_view j')"
    if c: "sj_complete digest a oc now j = Inr j'" for j'
  proof -
    note sim = sj_complete_sim[OF inv, of oc a now]
    have can: "av_can_finish (assignment_fingerprint digest a) (assignment_id a) oc (sj_view j)"
      using sim c wf OpComplete by (auto split: if_splits)
    then obtain r where r: "jv_records (sj_view j) (assignment_id a) = Some r"
      "\<And>prev. jr_outcome r = Some prev \<Longrightarrow> prev = canon_outcome oc"
      by (auto simp: av_can_finish_def split: option.splits)
    have "view_le (sj_view j) (av_finish (assignment_id a) oc (sj_view j))"
      by (rule view_le_finish[OF sj_invD(2)[OF inv] r])
    then show ?thesis using sim can c wf OpComplete by auto
  qed
  then show ?thesis using OpComplete inv by (auto split: sum.splits)
next
  case (OpResolve k st descr resolver evidence now)
  then show ?thesis
    using sj.resolve_le[OF inv, of k st descr resolver evidence now] inv by (auto split: sum.splits prod.splits)
next
  case OpRestart
  then show ?thesis using sj_open_sim[OF inv] by (simp add: view_le_restart)
qed

lemma sj_run_le:
  assumes "sj_inv digest j" and "list_all wf_op ops"
  shows "sj_inv digest (sj_run digest ops j) \<and> view_le (sj_view j) (sj_view (sj_run digest ops j))"
  using assms
proof (induction ops arbitrary: j)
  case (Cons op ops)
  have "sj_inv digest (sj_step digest op j)" "view_le (sj_view j) (sj_view (sj_step digest op j))"
    using sj_step_le Cons.prems by auto
  then show ?case using Cons.IH[of "sj_step digest op j"] Cons.prems view_le_trans by (auto simp: sj_run_def)
qed (simp add: sj_run_def)

lemma sj_reach_inv: "list_all wf_op ops \<Longrightarrow> sj_inv digest (sj_run digest ops sj_empty)"
  using sj_run_le[OF sj_inv_empty] by simp

lemma new_claims_known:
  assumes "sj_inv digest j" "list_all wf_op ops" "jv_records (sj_view j) k \<noteq> None"
  shows "k \<notin> set (new_claims digest ops j)"
  using assms
proof (induction ops arbitrary: j)
  case (Cons op ops)
  have s: "sj_inv digest (sj_step digest op j)" "view_le (sj_view j) (sj_view (sj_step digest op j))"
    using sj_step_le Cons.prems by auto
  have known: "jv_records (sj_view (sj_step digest op j)) k \<noteq> None"
    using Cons.prems(3) s(2) by (auto elim: view_leD)
  have "k \<notin> set (op_new digest op j)"
  proof
    assume "k \<in> set (op_new digest op j)"
    then show False
      using sj.claim_new(1)[OF Cons.prems(1)] Cons.prems(2,3) by (elim op_newE) auto
  qed
  then show ?case using Cons.IH[OF s(1) _ known] Cons.prems(2) by simp
qed simp

lemma new_claims_distinct:
  assumes "sj_inv digest j" "list_all wf_op ops"
  shows "distinct (new_claims digest ops j)"
  using assms
proof (induction ops arbitrary: j)
  case (Cons op ops)
  have s: "sj_inv digest (sj_step digest op j)" using sj_step_le Cons.prems by auto
  have "k \<notin> set (new_claims digest ops (sj_step digest op j))" if "k \<in> set (op_new digest op j)" for k
    using that
  proof (rule op_newE)
    fix a issuer now j' c
    assume *: "op = OpClaim a issuer now" "k = assignment_id a" "sj_claim digest a issuer now j = Inr (j', c)"
      "claim_kind c = CkNew" "sj_step digest op j = j'"
    have "jv_records (sj_view j') k \<noteq> None"
      using sj.claim_new(2)[OF Cons.prems(1) _ *(3,4)] Cons.prems(2) *(1,2) by simp
    then show ?thesis using new_claims_known s Cons.prems(2) *(5) by simp
  qed
  then show ?case using Cons.IH[OF s] Cons.prems(2) by auto
qed simp


section \<open>What every history guarantees\<close>

lemma sj_run_append: "sj_run digest (ops @ ops') j = sj_run digest ops' (sj_run digest ops j)"
  by (simp add: sj_run_def)

lemma sj_lookup_reach:
  "list_all wf_op ops \<Longrightarrow>
   sj_lookup k (sj_run digest ops sj_empty) = Inr (jv_records (sj_view (sj_run digest ops sj_empty)) k)"
  using sj_lookup_view(1)[OF sj_reach_inv] .

text \<open>C1: whatever sequence of claims, completions, operator resolutions and process restarts a
  durable journal goes through, no assignment id is answered NEW twice: the native action behind
  an assignment is released at most once in the life of the database.\<close>

theorem durable_accept_at_most_once:
  assumes "list_all wf_op ops"
  shows "distinct (new_claims digest ops sj_empty)"
  by (rule new_claims_distinct[OF sj_inv_empty assms])

theorem durable_accept_at_most_once_witness:
  "distinct (new_claims id [OpClaim (sample_assignment ''a1'' [''dock'']) ''c1'' 1, OpRestart,
     OpClaim (sample_assignment ''a1'' [''dock'']) ''c1'' 2] sj_empty)"
  by (rule durable_accept_at_most_once) code_simp

text \<open>C2: an outcome stored in the durable journal is immutable: after any further history, restarts
  and operator resolutions included, looking the assignment up gives the same record.\<close>

theorem durable_outcome_immutable:
  assumes "list_all wf_op ops" "list_all wf_op later"
    and "sj_lookup k (sj_run digest ops sj_empty) = Inr (Some r)" and "jr_outcome r = Some oc"
  shows "sj_lookup k (sj_run digest later (sj_run digest ops sj_empty)) = Inr (Some r)"
proof -
  let ?j = "sj_run digest ops sj_empty"
  have r: "jv_records (sj_view ?j) k = Some r" using sj_lookup_reach[OF assms(1)] assms(3) by simp
  have le: "view_le (sj_view ?j) (sj_view (sj_run digest later ?j))"
    and inv: "sj_inv digest (sj_run digest later ?j)"
    using sj_run_le[OF sj_reach_inv[OF assms(1)] assms(2)] by auto
  from view_leD[OF le r] obtain r' where "jv_records (sj_view (sj_run digest later ?j)) k = Some r'" "r' = r"
    using assms(4) by auto
  then show ?thesis using sj_lookup_view(1)[OF inv] by simp
qed

theorem durable_outcome_immutable_witness:
  "sj_lookup ''a1'' (sj_run id [OpRestart, OpComplete (sample_assignment ''a1'' []) (sample_outcome ''a1'' AsFailed) 9]
     (sj_run id [OpClaim (sample_assignment ''a1'' []) ''c1'' 1,
                 OpComplete (sample_assignment ''a1'' []) (sample_outcome ''a1'' AsSucceeded) 2] sj_empty))
   = Inr (Some \<lparr>jr_assignment = sample_assignment ''a1'' [], jr_issuer_id = ''c1'', jr_status = AsSucceeded,
       jr_outcome = Some (sample_outcome ''a1'' AsSucceeded),
       jr_fingerprint = assignment_json (sample_assignment ''a1'' [])\<rparr>)"
  by (rule durable_outcome_immutable[where oc = "sample_outcome ''a1'' AsSucceeded"]) code_simp+

text \<open>C3: at every moment, two different assignments that are accepted or unknown in the durable
  journal share no resource.\<close>

theorem durable_resources_exclusive:
  assumes "list_all wf_op ops"
    and "sj_lookup k (sj_run digest ops sj_empty) = Inr (Some r)"
    and "sj_lookup k' (sj_run digest ops sj_empty) = Inr (Some r')"
    and "k \<noteq> k'" "holds_resources r" "holds_resources r'"
  shows "set (step_resources (asg_step (jr_assignment r))) \<inter>
         set (step_resources (asg_step (jr_assignment r'))) = {}"
  using sj.active_exclusive[OF sj_reach_inv[OF assms(1)] assms(2-6)] .

theorem durable_resources_exclusive_witness:
  "set (step_resources (sample_step ''s1'' ''r1'' [''dock''])) \<inter>
   set (step_resources (sample_step ''s1'' ''r1'' [''lift''])) = {}"
proof -
  let ?ops = "[OpClaim (sample_assignment ''a1'' [''dock'']) ''c1'' 1,
     OpClaim (sample_assignment ''a2'' [''lift'']) ''c1'' 2]"
  let ?r = "\<lambda>aid res. \<lparr>jr_assignment = sample_assignment aid res, jr_issuer_id = ''c1'', jr_status = AsAccepted,
     jr_outcome = None, jr_fingerprint = assignment_json (sample_assignment aid res)\<rparr>"
  have "list_all wf_op ?ops" by code_simp
  moreover have "sj_lookup ''a1'' (sj_run id ?ops sj_empty) = Inr (Some (?r ''a1'' [''dock'']))" by code_simp
  moreover have "sj_lookup ''a2'' (sj_run id ?ops sj_empty) = Inr (Some (?r ''a2'' [''lift'']))" by code_simp
  ultimately have "set (step_resources (asg_step (jr_assignment (?r ''a1'' [''dock''])))) \<inter>
      set (step_resources (asg_step (jr_assignment (?r ''a2'' [''lift''])))) = {}"
    by (rule durable_resources_exclusive) (simp_all add: holds_resources_def)
  then show ?thesis by (simp add: sample_assignment_def)
qed

text \<open>C4: when the process restarts while an assignment has no outcome yet, its record becomes
  unknown and nothing else of it changes; claiming it again never answers NEW or REPLAY: the
  journal reports the action as uncertain (or as a conflict, for another issuer or content) and
  stays as it is.\<close>

theorem restart_makes_in_flight_uncertain:
  assumes "list_all wf_op ops" "wf_assignment a"
    and "sj_lookup (assignment_id a) (sj_run digest ops sj_empty) = Inr (Some r)" "jr_outcome r = None"
  shows "sj_lookup (assignment_id a) (sj_open (sj_run digest ops sj_empty)) =
           Inr (Some (r\<lparr>jr_status := AsUnknown\<rparr>)) \<and>
         sj_claim digest a issuer now (sj_open (sj_run digest ops sj_empty)) =
           Inr (sj_open (sj_run digest ops sj_empty),
             mk_claim (if jr_fingerprint r = assignment_fingerprint digest a \<and> jr_issuer_id r = issuer
                       then CkUncertain else CkConflict))"
proof -
  let ?j = "sj_run digest ops sj_empty"
  have inv: "sj_inv digest ?j" by (rule sj_reach_inv[OF assms(1)])
  have sim: "sj_inv digest (sj_open ?j)" "sj_view (sj_open ?j) = av_restart (sj_view ?j)"
    using sj_open_sim[OF inv] by auto
  have r: "jv_records (sj_view ?j) (assignment_id a) = Some r" using sj_lookup_reach[OF assms(1)] assms(3) by simp
  have "holds_resources r" by (rule view_okD(2)[OF sj_invD(2)[OF inv] r assms(4)])
  then have r': "jv_records (sj_view (sj_open ?j)) (assignment_id a) = Some (r\<lparr>jr_status := AsUnknown\<rparr>)"
    using assms(4) r unfolding sim(2) by (cases r) (auto simp: av_restart_def holds_resources_def)
  then have look: "sj_lookup (assignment_id a) (sj_open ?j) = Inr (Some (r\<lparr>jr_status := AsUnknown\<rparr>))"
    using sj_lookup_view(1)[OF sim(1)] by simp
  obtain row where row: "find_row (assignment_id a) (sj_open ?j) = Some row"
    using r' by (cases "find_row (assignment_id a) (sj_open ?j)") (simp_all add: sj_view_simps)
  from sj_find_view[OF sim(1) row] obtain q where q: "jv_records (sj_view (sj_open ?j)) (assignment_id a) = Some q"
    "jr_fingerprint q = ar_fingerprint row" "ar_issuer_id row = Some (jr_issuer_id q)"
    "\<And>enc. ar_outcome_json row = Some enc \<Longrightarrow> jr_outcome q \<noteq> None" by (metis option.distinct(1))
  then have "ar_fingerprint row = jr_fingerprint r \<and> ar_issuer_id row = Some (jr_issuer_id r) \<and> ar_outcome_json row = None"
    using r' assms(4) by (cases "ar_outcome_json row") auto
  then show ?thesis using look row by (simp add: sj_claim_def Let_def)
qed

theorem restart_makes_in_flight_uncertain_witness:
  "sj_claim id (sample_assignment ''a1'' [''dock'']) ''c1'' 7
     (sj_open (sj_run id [OpClaim (sample_assignment ''a1'' [''dock'']) ''c1'' 1] sj_empty)) =
   Inr (sj_open (sj_run id [OpClaim (sample_assignment ''a1'' [''dock'']) ''c1'' 1] sj_empty), mk_claim CkUncertain)"
proof -
  let ?a = "sample_assignment ''a1'' [''dock'']"
  let ?r = "\<lparr>jr_assignment = ?a, jr_issuer_id = ''c1'', jr_status = AsAccepted,
     jr_outcome = None, jr_fingerprint = assignment_json ?a\<rparr>"
  have "list_all wf_op [OpClaim ?a ''c1'' 1]" "wf_assignment ?a"
    "sj_lookup (assignment_id ?a) (sj_run id [OpClaim ?a ''c1'' 1] sj_empty) = Inr (Some ?r)"
    "jr_outcome ?r = None" "assignment_fingerprint id ?a = jr_fingerprint ?r" by code_simp+
  from restart_makes_in_flight_uncertain[OF this(1-4), of "''c1''" 7] this(5) show ?thesis by simp
qed

text \<open>C6: an assignment whose stored outcome has status unknown (the adapter raised) can never be
  resolved by the operator, and every other assignment that needs one of its resources is refused
  from then on, whatever happens next and however often the process restarts.\<close>

theorem unknown_outcome_locks_resources:
  assumes "list_all wf_op ops" "list_all wf_op later"
    and "sj_lookup k (sj_run digest ops sj_empty) = Inr (Some r)" "jr_outcome r = Some oc" "oc_status oc = AsUnknown"
    and "wf_assignment b" "x \<in> set (step_resources (asg_step b))"
    and "x \<in> set (step_resources (asg_step (jr_assignment r)))"
    and "sj_lookup (assignment_id b) (sj_run digest later (sj_run digest ops sj_empty)) = Inr None"
  shows "\<not> is_ok (sj_resolve_unknown k st descr resolver evidence now (sj_run digest later (sj_run digest ops sj_empty))) \<and>
    sj_claim digest b issuer now (sj_run digest later (sj_run digest ops sj_empty)) =
      Inr (sj_run digest later (sj_run digest ops sj_empty), mk_claim CkResourceConflict)"
proof -
  let ?j = "sj_run digest ops sj_empty"
  let ?j' = "sj_run digest later ?j"
  have inv0: "sj_inv digest ?j" by (rule sj_reach_inv[OF assms(1)])
  have inv: "sj_inv digest ?j'" and le: "view_le (sj_view ?j) (sj_view ?j')"
    using sj_run_le[OF inv0 assms(2)] by auto
  have r0: "jv_records (sj_view ?j) k = Some r" using sj_lookup_reach[OF assms(1)] assms(3) by simp
  then have r: "jv_records (sj_view ?j') k = Some r"
    using view_leD[OF le r0] assms(4) by (metis option.distinct(1))
  have none: "jv_records (sj_view ?j') (assignment_id b) = None"
    using sj_lookup_view(1)[OF inv, of "assignment_id b"] assms(9) by simp
  have "holds_resources r"
    using view_okD(3)[OF sj_invD(2)[OF inv] r assms(4)] assms(5) by (simp add: holds_resources_def)
  then have own: "jv_owner (sj_view ?j') x = Some k"
    using view_okD(4)[OF sj_invD(2)[OF inv] r] assms(8) by blast
  moreover have "k \<noteq> assignment_id b" using r none by auto
  ultimately have "\<exists>y\<in>set (step_resources (asg_step b)). \<exists>ow. jv_owner (sj_view ?j') y = Some ow \<and> ow \<noteq> assignment_id b"
    using assms(7) by blast
  then have av: "av_claim (assignment_fingerprint digest b) b issuer (sj_view ?j') = (sj_view ?j', mk_claim CkResourceConflict)"
    using none unfolding av_claim_def by (simp only: option.case if_True)
  obtain j2 c where c: "sj_claim digest b issuer now ?j' = Inr (j2, c)" "mk_claim CkResourceConflict = canon_claim c"
    using sj.claim_sim[OF inv assms(6), of issuer now] av by auto
  have nrow: "find_row (assignment_id b) ?j' = None"
  proof (rule ccontr)
    assume "\<not> ?thesis"
    then obtain row where "find_row (assignment_id b) ?j' = Some row" by blast
    from sj_find_view[OF inv this] none show False by (metis option.distinct(1))
  qed
  have "j2 = ?j' \<and> c = mk_claim CkResourceConflict"
    using c nrow unfolding sj_claim_def Let_def
    by (auto simp: mk_claim_def canon_claim_def res_simps split: if_splits)
  moreover have "\<not> is_ok (sj_resolve_unknown k st descr resolver evidence now ?j')"
    using sj.resolve_sim[OF inv, of k st descr resolver evidence now] r assms(4) by (auto simp: is_ok_iff)
  ultimately show ?thesis using c(1) by simp
qed

theorem unknown_outcome_locks_resources_witness:
  "sj_claim id (sample_assignment ''a2'' [''dock'']) ''c1'' 9
     (sj_run id [OpRestart, OpResolve ''a1'' AsFailed ''inspected'' ''op'' ''photo'' 8]
       (sj_run id [OpClaim (sample_assignment ''a1'' [''dock'']) ''c1'' 1,
          OpComplete (sample_assignment ''a1'' [''dock'']) (sample_outcome ''a1'' AsUnknown) 2] sj_empty)) =
   Inr (sj_run id [OpRestart, OpResolve ''a1'' AsFailed ''inspected'' ''op'' ''photo'' 8]
       (sj_run id [OpClaim (sample_assignment ''a1'' [''dock'']) ''c1'' 1,
          OpComplete (sample_assignment ''a1'' [''dock'']) (sample_outcome ''a1'' AsUnknown) 2] sj_empty),
     mk_claim CkResourceConflict)"
proof -
  let ?a = "sample_assignment ''a1'' [''dock'']" and ?b = "sample_assignment ''a2'' [''dock'']"
  let ?oc = "sample_outcome ''a1'' AsUnknown"
  let ?ops = "[OpClaim ?a ''c1'' 1, OpComplete ?a ?oc 2]"
  let ?later = "[OpRestart, OpResolve ''a1'' AsFailed ''inspected'' ''op'' ''photo'' 8]"
  let ?r = "\<lparr>jr_assignment = ?a, jr_issuer_id = ''c1'', jr_status = AsUnknown,
     jr_outcome = Some ?oc, jr_fingerprint = assignment_json ?a\<rparr>"
  have "list_all wf_op ?ops" "list_all wf_op ?later"
    "sj_lookup ''a1'' (sj_run id ?ops sj_empty) = Inr (Some ?r)" "jr_outcome ?r = Some ?oc" "oc_status ?oc = AsUnknown"
    "wf_assignment ?b" "''dock'' \<in> set (step_resources (asg_step ?b))"
    "''dock'' \<in> set (step_resources (asg_step (jr_assignment ?r)))"
    "sj_lookup (assignment_id ?b) (sj_run id ?later (sj_run id ?ops sj_empty)) = Inr None" by code_simp+
  from unknown_outcome_locks_resources[OF this, of AsFailed "''d''" "''op''" "''e''" 9 "''c1''"] show ?thesis by simp
qed

section \<open>Where the records of a journal come from\<close>

text \<open>Every record of a view was made by claiming an assignment of the set \<open>A\<close>.\<close>

definition view_from :: "(string \<Rightarrow> string) \<Rightarrow> assignment set \<Rightarrow> journal_view \<Rightarrow> bool" where
  "view_from digest A v = (\<forall>k r. jv_records v k = Some r \<longrightarrow>
     (\<exists>a\<in>A. jr_assignment r = canon_assignment a \<and> jr_fingerprint r = assignment_fingerprint digest a))"

lemma assignment_json_inject:
  "wf_assignment a \<Longrightarrow> wf_assignment b \<Longrightarrow> assignment_json a = assignment_json b \<Longrightarrow>
   canon_assignment a = canon_assignment b"
  using decode_assignment_json[of a] decode_assignment_json[of b] by simp

lemma view_from_agrees:
  assumes "view_from digest A v" "\<forall>x\<in>A. wf_assignment x" "a \<in> A" "inj_on digest (assignment_json ` A)"
  shows "agrees digest a v"
  unfolding agrees_def
proof (intro allI impI)
  fix r assume r: "jv_records v (assignment_id a) = Some r" "jr_fingerprint r = assignment_fingerprint digest a"
  then obtain b where b: "b \<in> A" "jr_assignment r = canon_assignment b" "jr_fingerprint r = assignment_fingerprint digest b"
    using assms(1) unfolding view_from_def by blast
  then have "assignment_json b = assignment_json a"
    using r(2) assms(3,4) unfolding assignment_fingerprint_def by (simp add: inj_on_eq_iff)
  then show "jr_assignment r = canon_assignment a"
    using assignment_json_inject assms(2,3) b by metis
qed

lemma view_from_claim:
  assumes "av_claim (assignment_fingerprint digest a) a issuer v = (v', c)" "a \<in> A" "view_from digest A v"
  shows "view_from digest A v'"
  using assms unfolding av_claim_def view_from_def
  by (auto split: option.splits if_splits) (rule bexI[of _ a], auto)

lemma view_from_finish: "view_from digest A v \<Longrightarrow> view_from digest A (av_finish k oc v)"
  unfolding view_from_def av_finish_def av_release_def Let_def
  by (auto split: if_splits)

section \<open>The two journals differ on equal outcomes\<close>

definition counted_outcome :: "json \<Rightarrow> outcome" where
  "counted_outcome n = (sample_outcome ''a1'' AsSucceeded)\<lparr>oc_outputs := JObj [(''count'', n)]\<rparr>"

text \<open>Both journals call a terminal outcome immutable, but compare it differently: when a succeeded assignment is completed
  again with the output \<open>true\<close> instead of \<open>1\<close>, the in-memory journal replaces the outcome and the SQLite journal
  raises.\<close>

lemma memory_replaces_equal_outcome:
  "\<exists>m s. rbind (mj_claim id (sample_assignment ''a1'' []) ''c1'' 1 mj_empty) (\<lambda>(m, c).
        mj_complete id (sample_assignment ''a1'' []) (counted_outcome (JInt 1)) 2 m) = Inr m \<and>
     rbind (sj_claim id (sample_assignment ''a1'' []) ''c1'' 1 sj_empty) (\<lambda>(s, c).
        sj_complete id (sample_assignment ''a1'' []) (counted_outcome (JInt 1)) 2 s) = Inr s \<and>
     (\<exists>m'. mj_complete id (sample_assignment ''a1'' []) (counted_outcome (JBool True)) 3 m = Inr m' \<and>
       map_option jr_outcome (mj_records m' ''a1'') = Some (Some (counted_outcome (JBool True)))) \<and>
     sj_complete id (sample_assignment ''a1'' []) (counted_outcome (JBool True)) 3 s =
       Inl (ValueError ''terminal assignment outcome is immutable'')"
proof -
  let ?a = "sample_assignment ''a1'' []" and ?one = "counted_outcome (JInt 1)" and ?true = "counted_outcome (JBool True)"
  let ?m = "rbind (mj_claim id ?a ''c1'' 1 mj_empty) (\<lambda>(m, c). mj_complete id ?a ?one 2 m)"
  let ?s = "rbind (sj_claim id ?a ''c1'' 1 sj_empty) (\<lambda>(s, c). sj_complete id ?a ?one 2 s)"
  have "case ?m of Inl _ \<Rightarrow> False | Inr m \<Rightarrow> (case mj_complete id ?a ?true 3 m of Inl _ \<Rightarrow> False
      | Inr m' \<Rightarrow> map_option jr_outcome (mj_records m' ''a1'') = Some (Some ?true))" by code_simp
  moreover have "case ?s of Inl _ \<Rightarrow> False | Inr s \<Rightarrow>
      sj_complete id ?a ?true 3 s = Inl (ValueError ''terminal assignment outcome is immutable'')" by code_simp
  ultimately show ?thesis by (auto split: sum.splits)
qed

section \<open>Operator resolution\<close>

text \<open>C5: \<open>resolve_unknown\<close> on the durable journal succeeds exactly when the requested status is a
  known terminal one, resolver, evidence and description are in bounds, and the assignment is
  unknown without an outcome. Then the record carries the operator's outcome, the resolution is
  recorded with resolver and evidence, and no resource is held by the assignment any more.\<close>

theorem resolve_unknown_exact:
  assumes "list_all wf_op ops" and j_def: "j = sj_run digest ops sj_empty"
  shows "(\<exists>j' oc. sj_resolve_unknown k st descr resolver evidence now j = Inr (j', oc) \<and>
            oc_status oc = st \<and> oc_description oc = descr \<and>
            (\<exists>r. sj_lookup k j = Inr (Some r) \<and>
                 sj_lookup k j' = Inr (Some (r\<lparr>jr_status := st, jr_outcome := Some oc\<rparr>))) \<and>
            sj_resolution k j' = Some \<lparr>res_assignment_id = k, res_status = assignment_status_value st,
              res_resolver_id = resolver, res_evidence = evidence, res_occurred_at_ms = now\<rparr> \<and>
            k \<notin> rr_assignment_id ` set (sj_reservations j')) \<longleftrightarrow>
         (st \<in> set terminal_resolutions \<and> \<not> py_blank resolver \<and> length resolver \<le> 128 \<and>
          \<not> py_blank evidence \<and> length evidence \<le> 4096 \<and> \<not> py_blank descr \<and> length descr \<le> 4096 \<and>
          (\<exists>r. sj_lookup k j = Inr (Some r) \<and> jr_status r = AsUnknown \<and> jr_outcome r = None))"
    (is "?L \<longleftrightarrow> ?R")
proof
  have inv: "sj_inv digest j" unfolding j_def by (rule sj_reach_inv[OF assms(1)])
  note look = sj_lookup_view(1)[OF inv]
  assume ?L
  then obtain j' oc where res: "sj_resolve_unknown k st descr resolver evidence now j = Inr (j', oc)" by blast
  then have "validate_resolution st resolver evidence = Inr () \<and> \<not> py_blank descr \<and> length descr \<le> 4096"
    by (auto simp: sj_resolve_unknown_def mk_outcome_def res_simps Let_def split: option.splits if_splits)
  then show ?R using sj.resolve_sim[OF inv res] look by (auto simp: validate_resolution_def res_simps)
next
  have inv: "sj_inv digest j" unfolding j_def by (rule sj_reach_inv[OF assms(1)])
  note look = sj_lookup_view(1)[OF inv]
  assume R: ?R
  then obtain r where r: "sj_lookup k j = Inr (Some r)" "jr_status r = AsUnknown" "jr_outcome r = None" by blast
  then have v: "jv_records (sj_view j) k = Some r" using look by simp
  then obtain row where row: "find_row k j = Some row" by (auto simp: sj_view_simps split: bind_splits)
  from sj_find_view[OF inv row] obtain q where q: "jv_records (sj_view j) k = Some q"
    "ar_status row = assignment_status_value (jr_status q)"
    "\<And>enc. ar_outcome_json row = Some enc \<Longrightarrow> jr_outcome q \<noteq> None" by (metis option.distinct(1))
  then have row2: "ar_status row = assignment_status_value AsUnknown" "ar_outcome_json row = None"
    using v r by (cases "ar_outcome_json row"; simp)+
  obtain a where a: "wf_assignment a" "assignment_id a = k" "ar_assignment_json row = Some (assignment_json a)"
    using sj_invD(4)[OF inv row] unfolding row_ok_def by force
  have ids: "valid_id k" "valid_id (assigned_robot_id (asg_step a))"
    using a(1,2) by (auto simp: wf_assignment_def post_init_assignment_def post_init_plan_step_def res_simps)
  define oc where "oc = \<lparr>oc_assignment_id = k, oc_robot_id = assigned_robot_id (asg_step a),
    oc_succeeded = (st = AsSucceeded), oc_description = descr, oc_status = st, oc_outputs = JObj []\<rparr>"
  have mk: "mk_outcome k (assigned_robot_id (asg_step (canon_assignment a))) (st = AsSucceeded) descr (Some st) (JObj []) = Inr oc"
    using R ids by (auto simp: mk_outcome_Inr_iff oc_def resolve_status_def valid_outcome_def is_object_def
        terminal_resolutions_def json_dumps_def MAX_STRUCTURED_OUTPUT_BYTES_def)
  have fresh: "k \<notin> rs_assignment_id ` set (sj_resolutions j)"
    using sj_invD(5)[OF inv] row row2(2) by force
  obtain j' where res: "sj_resolve_unknown k st descr resolver evidence now j = Inr (j', oc)"
    and j': "sj_resolutions j' = sj_resolutions j @ [\<lparr>rs_assignment_id = k, rs_status = assignment_status_value st,
       rs_resolver_id = resolver, rs_evidence = evidence, rs_occurred_at_ms = now, rs_outcome_json = outcome_json oc\<rparr>]"
      "sj_reservations j' = filter (\<lambda>x. rr_assignment_id x \<noteq> k) (sj_reservations j)"
    using R row row2 a(3) decode_assignment_json[OF a(1)] mk fresh
    by (simp add: sj_resolve_unknown_def validate_resolution_def enum_roundtrip(6) del: assignment_status_value.simps)
  have sim: "sj_inv digest j'" "sj_view j' = av_finish k oc (sj_view j)"
    using sj.resolve_sim[OF inv res] by auto
  have "sj_lookup k j' = Inr (Some (r\<lparr>jr_status := st, jr_outcome := Some oc\<rparr>))"
    unfolding sj_lookup_view(1)[OF sim(1)] sim(2) av_finish_record[OF v]
    by (simp add: oc_def canon_outcome_def)
  moreover have "sj_resolution k j' = Some \<lparr>res_assignment_id = k, res_status = assignment_status_value st,
              res_resolver_id = resolver, res_evidence = evidence, res_occurred_at_ms = now\<rparr>"
    using fresh by (simp add: sj_resolution_def j'(1) find_key_append find_key_None_iff[THEN iffD2])
  ultimately show ?L using res r(1) by (auto simp: j'(2) oc_def)
qed

theorem resolve_unknown_exact_witness:
  "\<exists>j' oc. sj_resolve_unknown ''a1'' AsFailed ''inspected'' ''op'' ''photo'' 5
     (sj_run id [OpClaim (sample_assignment ''a1'' []) ''c1'' 1, OpRestart] sj_empty) = Inr (j', oc)"
proof -
  let ?ops = "[OpClaim (sample_assignment ''a1'' []) ''c1'' 1, OpRestart]"
  let ?r = "\<lparr>jr_assignment = sample_assignment ''a1'' [], jr_issuer_id = ''c1'', jr_status = AsUnknown,
     jr_outcome = None, jr_fingerprint = assignment_json (sample_assignment ''a1'' [])\<rparr>"
  have "list_all wf_op ?ops" by code_simp
  moreover have "sj_lookup ''a1'' (sj_run id ?ops sj_empty) = Inr (Some ?r)" by code_simp
  moreover have "AsFailed \<in> set terminal_resolutions \<and> \<not> py_blank ''op'' \<and> length ''op'' \<le> 128 \<and>
      \<not> py_blank ''photo'' \<and> length ''photo'' \<le> 4096 \<and> \<not> py_blank ''inspected'' \<and> length ''inspected'' \<le> 4096" by code_simp
  ultimately show ?thesis
    using resolve_unknown_exact[of ?ops _ id "''a1''" AsFailed "''inspected''" "''op''" "''photo''" 5, OF _ refl] by auto
qed

end
