(* ===== verification/Transport.thy ===== *)
theory Transport
  imports Models
begin

text \<open>
  \<open>transport.py\<close>: the envelope, its canonical byte encoding, the decoder with every rejection,
  and the publish/subscribe bus. \<open>json.loads\<close> on bytes detects the text encoding first
  (\<open>json.detect_encoding\<close>); the decoders of the encodings it can choose are modelled here.
\<close>

section \<open>Bytes to text\<close>

definition cont_byte :: "nat \<Rightarrow> bool" where
  "cont_byte b = (128 \<le> b \<and> b < 192)"

fun utf8_ok :: "nat list \<Rightarrow> bool" where
  "utf8_ok [] = True"
| "utf8_ok (b # bs) =
     (if b < 128 then utf8_ok bs
      else if 194 \<le> b \<and> b < 224 then
        (case bs of c # r \<Rightarrow> cont_byte c \<and> utf8_ok r | _ \<Rightarrow> False)
      else if 224 \<le> b \<and> b < 240 then
        (case bs of c # d # r \<Rightarrow>
           cont_byte c \<and> cont_byte d \<and> (b = 224 \<longrightarrow> 160 \<le> c) \<and> (b = 237 \<longrightarrow> c < 160) \<and> utf8_ok r
         | _ \<Rightarrow> False)
      else if 240 \<le> b \<and> b < 245 then
        (case bs of c # d # e # r \<Rightarrow>
           cont_byte c \<and> cont_byte d \<and> cont_byte e \<and> (b = 240 \<longrightarrow> 144 \<le> c) \<and>
           (b = 244 \<longrightarrow> c < 144) \<and> utf8_ok r
         | _ \<Rightarrow> False)
      else False)"

definition utf8_valid :: "string \<Rightarrow> bool" where
  "utf8_valid s = utf8_ok (map of_char s)"

datatype text_encoding = Utf8 | Utf8Sig | Utf16Bom | Utf16BE | Utf16LE | Utf32Bom | Utf32BE | Utf32LE

definition starts_with :: "nat list \<Rightarrow> nat list \<Rightarrow> bool" where
  "starts_with p b = (take (length p) b = p)"

definition detect_encoding :: "nat list \<Rightarrow> text_encoding" where
  "detect_encoding b =
     (if starts_with [0, 0, 254, 255] b \<or> starts_with [255, 254, 0, 0] b then Utf32Bom
      else if starts_with [254, 255] b \<or> starts_with [255, 254] b then Utf16Bom
      else if starts_with [239, 187, 191] b then Utf8Sig
      else (case b of
          b0 # b1 # b2 # b3 # _ \<Rightarrow>
            if b0 = 0 then (if b1 \<noteq> 0 then Utf16BE else Utf32BE)
            else if b1 = 0 then (if b2 \<noteq> 0 \<or> b3 \<noteq> 0 then Utf16LE else Utf32LE)
            else Utf8
        | [b0, b1] \<Rightarrow> if b0 = 0 then Utf16BE else if b1 = 0 then Utf16LE else Utf8
        | _ \<Rightarrow> Utf8))"

fun units16 :: "bool \<Rightarrow> nat list \<Rightarrow> nat list option" where
  "units16 be [] = Some []"
| "units16 be [_] = None"
| "units16 be (x # y # r) =
     map_option (Cons (if be then x * 256 + y else y * 256 + x)) (units16 be r)"

fun join16 :: "nat list \<Rightarrow> nat list option" where
  "join16 [] = Some []"
| "join16 (u # us) =
     (if 55296 \<le> u \<and> u \<le> 56319 then
        (case us of
           l # r \<Rightarrow> if 56320 \<le> l \<and> l \<le> 57343
                    then map_option (Cons (65536 + (u - 55296) * 1024 + (l - 56320))) (join16 r)
                    else None
         | [] \<Rightarrow> None)
      else if 56320 \<le> u \<and> u \<le> 57343 then None
      else map_option (Cons u) (join16 us))"

fun units32 :: "bool \<Rightarrow> nat list \<Rightarrow> nat list option" where
  "units32 be [] = Some []"
| "units32 be (a # b # c # d # r) =
     (let n = (if be then ((a * 256 + b) * 256 + c) * 256 + d
               else ((d * 256 + c) * 256 + b) * 256 + a) in
      if n > 1114111 \<or> (55296 \<le> n \<and> n \<le> 57343) then None
      else map_option (Cons n) (units32 be r))"
| "units32 be _ = None"

definition text_of :: "nat list \<Rightarrow> string" where
  "text_of cps = concat (map utf8_encode cps)"

definition decode_text :: "string \<Rightarrow> string option" where
  "decode_text s = (let b = map of_char s in
     case detect_encoding b of
       Utf8 \<Rightarrow> if utf8_ok b then Some s else None
     | Utf8Sig \<Rightarrow> if utf8_ok (drop 3 b) then Some (drop 3 s) else None
     | Utf16Bom \<Rightarrow> map_option text_of
         (Option.bind (units16 (starts_with [254, 255] b) (drop 2 b)) join16)
     | Utf16BE \<Rightarrow> map_option text_of (Option.bind (units16 True b) join16)
     | Utf16LE \<Rightarrow> map_option text_of (Option.bind (units16 False b) join16)
     | Utf32Bom \<Rightarrow> map_option text_of (units32 (starts_with [0, 0, 254, 255] b) (drop 4 b))
     | Utf32BE \<Rightarrow> map_option text_of (units32 True b)
     | Utf32LE \<Rightarrow> map_option text_of (units32 False b))"

definition loads_bytes :: "string \<Rightarrow> json option" where
  "loads_bytes s = Option.bind (decode_text s) json_loads"

section \<open>Envelopes\<close>

definition PROTOCOL_VERSION :: string where "PROTOCOL_VERSION = ''ump/0.1''"
definition MAX_MESSAGE_BYTES :: nat where "MAX_MESSAGE_BYTES = 65536"
definition OPERATIONAL_STREAM :: string where "OPERATIONAL_STREAM = ''operational''"
definition SAFETY_STREAM :: string where "SAFETY_STREAM = ''safety''"
definition STREAMS :: "string list" where "STREAMS = [OPERATIONAL_STREAM, SAFETY_STREAM]"

definition MESSAGE_TYPES :: "string list" where
  "MESSAGE_TYPES = [''manifest'', ''state'', ''goal'', ''plan'', ''assignment'', ''assignment_ack'',
     ''assignment_query'', ''assignment_snapshot'', ''cancellation_request'', ''cancellation_ack'',
     ''outcome'']"

record envelope =
  message_id :: string
  message_type :: string
  source_id :: string
  session_id :: string
  env_sequence :: int
  timestamp_ms :: int
  env_payload :: json
  correlation_id :: "string option"
  env_protocol :: string
  env_stream :: string

definition envelope_document :: "envelope \<Rightarrow> json" where
  "envelope_document e = JObj
     ([(''protocol'', JStr (env_protocol e)),
       (''message_id'', JStr (message_id e)),
       (''message_type'', JStr (message_type e)),
       (''source_id'', JStr (source_id e)),
       (''session_id'', JStr (session_id e)),
       (''sequence'', JInt (env_sequence e)),
       (''timestamp_ms'', JInt (timestamp_ms e)),
       (''correlation_id'', json_opt_str (correlation_id e)),
       (''payload'', env_payload e)] @
      (if env_stream e \<noteq> OPERATIONAL_STREAM then [(''stream'', JStr (env_stream e))] else []))"

definition encode_envelope :: "envelope \<Rightarrow> string res" where
  "encode_envelope e =
     rbind (require (env_stream e \<in> set STREAMS) (ProtocolDecodeError ''unknown envelope stream'')) (\<lambda>_.
     rbind (require (\<not> (env_stream e = SAFETY_STREAM \<and> message_type e \<noteq> ''state''))
              (ProtocolDecodeError ''safety stream carries state messages only'')) (\<lambda>_.
     let encoded = json_dumps (envelope_document e) in
     rbind (require (utf8_valid encoded) (ProtocolDecodeError ''envelope is not JSON serializable'')) (\<lambda>_.
     rbind (require (\<not> length encoded > MAX_MESSAGE_BYTES)
              (ProtocolDecodeError ''envelope exceeds the 64 KiB core profile'')) (\<lambda>_.
     Inr encoded))))"

definition required_fields :: "string list" where
  "required_fields = [''protocol'', ''message_id'', ''message_type'', ''source_id'', ''session_id'',
     ''sequence'', ''timestamp_ms'', ''payload'']"

definition decode_field :: "(string \<times> json) list \<Rightarrow> string \<Rightarrow> string res" where
  "decode_field doc k =
     (case map_of doc k of
        Some (JStr s) \<Rightarrow>
          if s = [] \<or> length s > 128 then Inl (ProtocolDecodeError (''invalid '' @ k)) else Inr s
      | _ \<Rightarrow> Inl (ProtocolDecodeError (''invalid '' @ k)))"

text \<open>The checks of \<open>decode_envelope\<close> in the order of the source. An array or object as message type or
  stream is not hashable, so the set membership test itself raises.\<close>

definition decode_name :: "string list \<Rightarrow> string \<Rightarrow> json \<Rightarrow> string res" where
  "decode_name names message v = (case v of
      JStr t \<Rightarrow> if t \<in> set names then Inr t else Inl (ProtocolDecodeError message)
    | JArr _ \<Rightarrow> Inl (TypeError ''unhashable type'')
    | JObj _ \<Rightarrow> Inl (TypeError ''unhashable type'')
    | _ \<Rightarrow> Inl (ProtocolDecodeError message))"

definition decode_int :: "int \<Rightarrow> string \<Rightarrow> json \<Rightarrow> int res" where
  "decode_int lowest message v = (case v of
      JInt n \<Rightarrow> if n < lowest then Inl (ProtocolDecodeError message) else Inr n
    | _ \<Rightarrow> Inl (ProtocolDecodeError message))"

definition decode_correlation :: "json \<Rightarrow> string option res" where
  "decode_correlation v = (case v of
      JNull \<Rightarrow> Inr None
    | JStr c \<Rightarrow> if length c > 128 then Inl (ProtocolDecodeError ''invalid correlation_id'') else Inr (Some c)
    | _ \<Rightarrow> Inl (ProtocolDecodeError ''invalid correlation_id''))"

definition decode_document :: "(string \<times> json) list \<Rightarrow> envelope res" where
  "decode_document doc =
     rbind (require (\<forall>k\<in>set required_fields. map_of doc k \<noteq> None)
              (ProtocolDecodeError ''envelope is missing fields'')) (\<lambda>_.
     rbind (require (map_of doc ''protocol'' = Some (JStr PROTOCOL_VERSION))
              (ProtocolDecodeError ''unsupported protocol version'')) (\<lambda>_.
     rbind (decode_name MESSAGE_TYPES ''unknown message type'' (the (map_of doc ''message_type''))) (\<lambda>mtype.
     rbind (decode_name STREAMS ''unknown envelope stream''
              (case map_of doc ''stream'' of None \<Rightarrow> JStr OPERATIONAL_STREAM | Some v \<Rightarrow> v)) (\<lambda>strm.
     rbind (require (\<not> (strm = SAFETY_STREAM \<and> mtype \<noteq> ''state''))
              (ProtocolDecodeError ''safety stream carries state messages only'')) (\<lambda>_.
     rbind (decode_field doc ''message_id'') (\<lambda>mid.
     rbind (decode_field doc ''source_id'') (\<lambda>src.
     rbind (decode_field doc ''session_id'') (\<lambda>sess.
     rbind (decode_int 1 ''sequence must be a positive integer'' (the (map_of doc ''sequence''))) (\<lambda>sq.
     rbind (decode_int 0 ''timestamp_ms must be a non-negative integer'' (the (map_of doc ''timestamp_ms''))) (\<lambda>ts.
     rbind (require (is_object (the (map_of doc ''payload'')))
              (ProtocolDecodeError ''payload must be an object'')) (\<lambda>_.
     rbind (decode_correlation (case map_of doc ''correlation_id'' of None \<Rightarrow> JNull | Some v \<Rightarrow> v)) (\<lambda>corr.
     Inr \<lparr>message_id = mid, message_type = mtype, source_id = src, session_id = sess,
          env_sequence = sq, timestamp_ms = ts, env_payload = the (map_of doc ''payload''), correlation_id = corr,
          env_protocol = PROTOCOL_VERSION, env_stream = strm\<rparr>))))))))))))"

definition decode_envelope :: "string \<Rightarrow> envelope res" where
  "decode_envelope encoded =
     rbind (require (\<not> (encoded = [] \<or> length encoded > MAX_MESSAGE_BYTES))
              (ProtocolDecodeError ''encoded envelope size is invalid'')) (\<lambda>_.
     case loads_bytes encoded of
       None \<Rightarrow> Inl (ProtocolDecodeError ''encoded envelope is not valid UTF-8 JSON'')
     | Some (JObj doc) \<Rightarrow> decode_document doc
     | Some _ \<Rightarrow> Inl (ProtocolDecodeError ''envelope must be a JSON object''))"

text \<open>\<open>make_envelope\<close>; the fresh \<open>uuid4\<close> is the argument \<open>uid\<close>.\<close>

definition make_envelope ::
  "string \<Rightarrow> string \<Rightarrow> string \<Rightarrow> string \<Rightarrow> int \<Rightarrow> int \<Rightarrow> json \<Rightarrow> string option \<Rightarrow> string \<Rightarrow> envelope" where
  "make_envelope uid mtype src sess sq ts body corr strm =
     \<lparr>message_id = uid, message_type = mtype, source_id = src, session_id = sess,
      env_sequence = sq, timestamp_ms = ts, env_payload = body, correlation_id = corr,
      env_protocol = PROTOCOL_VERSION, env_stream = strm\<rparr>"

section \<open>The in-memory bus\<close>

text \<open>
  \<open>InMemoryBus\<close>: the subscriptions in order and the trace of published messages. A handler is a name
  \<open>'h\<close>; \<open>call\<close> is what it answers, an exception stops the delivery to the handlers after it.
\<close>

record 'h bus =
  bus_subscribers :: "(string \<times> 'h) list"
  bus_trace :: "envelope list"

definition bus_empty :: "'h bus" where
  "bus_empty = \<lparr>bus_subscribers = [], bus_trace = []\<rparr>"

definition bus_subscribe :: "string \<Rightarrow> 'h \<Rightarrow> 'h bus \<Rightarrow> 'h bus" where
  "bus_subscribe mtype h b = b\<lparr>bus_subscribers := bus_subscribers b @ [(mtype, h)]\<rparr>"

definition bus_handlers :: "string \<Rightarrow> 'h bus \<Rightarrow> 'h list" where
  "bus_handlers mtype b = map snd (filter (\<lambda>s. fst s = mtype) (bus_subscribers b))"

fun call_handlers :: "('h \<Rightarrow> envelope \<Rightarrow> unit res) \<Rightarrow> envelope \<Rightarrow> 'h list \<Rightarrow> 'h list \<times> unit res" where
  "call_handlers call e [] = ([], Inr ())"
| "call_handlers call e (h # hs) =
     (case call h e of
        Inl err \<Rightarrow> ([h], Inl err)
      | Inr _ \<Rightarrow> (case call_handlers call e hs of (called, r) \<Rightarrow> (h # called, r)))"

definition bus_publish ::
  "('h \<Rightarrow> envelope \<Rightarrow> unit res) \<Rightarrow> envelope \<Rightarrow> 'h bus \<Rightarrow> 'h bus \<times> 'h list \<times> unit res" where
  "bus_publish call e b =
     (case rbind (encode_envelope e) decode_envelope of
        Inl err \<Rightarrow> (b, [], Inl err)
      | Inr canonical \<Rightarrow>
          (case call_handlers call canonical
                  (bus_handlers (message_type canonical) b @ bus_handlers ''*'' b) of
             (called, r) \<Rightarrow> (b\<lparr>bus_trace := bus_trace b @ [canonical]\<rparr>, called, r)))"

section \<open>The codec\<close>

text \<open>What a decoder guarantees of every envelope it returns.\<close>

definition valid_envelope :: "envelope \<Rightarrow> bool" where
  "valid_envelope e =
     (env_protocol e = PROTOCOL_VERSION \<and> message_type e \<in> set MESSAGE_TYPES \<and> env_stream e \<in> set STREAMS \<and>
      (env_stream e = SAFETY_STREAM \<longrightarrow> message_type e = ''state'') \<and>
      (\<forall>s\<in>{message_id e, source_id e, session_id e}. s \<noteq> [] \<and> length s \<le> 128) \<and>
      1 \<le> env_sequence e \<and> 0 \<le> timestamp_ms e \<and> is_object (env_payload e) \<and> wf_json (env_payload e) \<and>
      (case correlation_id e of None \<Rightarrow> True | Some c \<Rightarrow> length c \<le> 128))"

lemma loads_bytes_wf: "loads_bytes s = Some v \<Longrightarrow> wf_json v"
  by (auto simp: loads_bytes_def json_loads_wf bind_eq_Some_conv)

lemma decode_field_Inr:
  "decode_field doc k = Inr s \<longleftrightarrow> map_of doc k = Some (JStr s) \<and> s \<noteq> [] \<and> length s \<le> 128"
  by (auto simp: decode_field_def split: option.splits json.splits)

lemma decode_name_Inr: "decode_name ns m v = Inr t \<longleftrightarrow> v = JStr t \<and> t \<in> set ns"
  by (auto simp: decode_name_def split: json.splits)

lemma decode_int_Inr: "decode_int l m v = Inr n \<longleftrightarrow> v = JInt n \<and> l \<le> n"
  by (auto simp: decode_int_def split: json.splits)

lemma decode_correlation_Inr:
  "decode_correlation v = Inr c \<longleftrightarrow> v = json_opt_str c \<and> (case c of None \<Rightarrow> True | Some s \<Rightarrow> length s \<le> 128)"
  by (auto simp: decode_correlation_def json_opt_str_def split: json.splits option.splits)

lemmas decode_iffs = decode_name_Inr decode_int_Inr decode_correlation_Inr decode_field_Inr

text \<open>The decoder, read as an equivalence: what the document of an accepted envelope holds.\<close>

definition carries :: "(string \<times> json) list \<Rightarrow> envelope \<Rightarrow> bool" where
  "carries doc e =
     (map_of doc ''protocol'' = Some (JStr (env_protocol e)) \<and> map_of doc ''message_id'' = Some (JStr (message_id e)) \<and>
      map_of doc ''message_type'' = Some (JStr (message_type e)) \<and> map_of doc ''source_id'' = Some (JStr (source_id e)) \<and>
      map_of doc ''session_id'' = Some (JStr (session_id e)) \<and> map_of doc ''sequence'' = Some (JInt (env_sequence e)) \<and>
      map_of doc ''timestamp_ms'' = Some (JInt (timestamp_ms e)) \<and> map_of doc ''payload'' = Some (env_payload e) \<and>
      (case map_of doc ''correlation_id'' of None \<Rightarrow> JNull | Some v \<Rightarrow> v) = json_opt_str (correlation_id e) \<and>
      (case map_of doc ''stream'' of None \<Rightarrow> JStr OPERATIONAL_STREAM | Some v \<Rightarrow> v) = JStr (env_stream e))"

lemma decode_document_Inr:
  assumes "wf_json (JObj doc)"
  shows "decode_document doc = Inr e \<longleftrightarrow> carries doc e \<and> valid_envelope e"
proof
  assume "decode_document doc = Inr e"
  then show "carries doc e \<and> valid_envelope e"
    using assms unfolding decode_document_def
    by (auto simp: res_simps decode_iffs required_fields_def carries_def valid_envelope_def dest!: map_of_SomeD)
next
  assume c: "carries doc e \<and> valid_envelope e"
  then show "decode_document doc = Inr e"
    unfolding decode_document_def
    by (auto simp: res_simps decode_iffs required_fields_def carries_def valid_envelope_def)
qed



lemma utf8_detected:
  assumes "s = CHR ''{'' # CHR 0x22 # t" "utf8_valid s"
  shows "decode_text s = Some s"
proof -
  have h: "(of_char (CHR ''{'') :: nat) = 123" "(of_char (CHR 0x22) :: nat) = 34" by simp_all
  have "detect_encoding (map of_char s) = Utf8"
    using h by (auto simp: assms(1) detect_encoding_def starts_with_def split: list.splits)
  then show ?thesis using assms(2) by (simp add: decode_text_def utf8_valid_def)
qed

lemma dumps_object_starts:
  assumes "kvs \<noteq> []"
  shows "\<exists>t. json_dumps (JObj kvs) = CHR ''{'' # CHR 0x22 # t"
proof -
  let ?c = "sort_key fst (map (\<lambda>(k, v). (k, canon v)) kvs)"
  have "?c \<noteq> []" using assms by (metis length_0_conv length_map length_sort)
  then obtain k v r where c: "?c = (k, v) # r" by (metis list.exhaust surj_pair)
  have "\<exists>t. commas (map (\<lambda>(k, v). print_string k @ CHR '':'' # print_json v) ((k, v) # r)) = CHR 0x22 # t"
    by (cases r) (simp_all add: print_string_def)
  then obtain t where "commas (map print_member ((k, v) # r)) = CHR 0x22 # t" by blast
  then show ?thesis by (simp add: json_dumps_def c)
qed

lemma loads_bytes_dumps:
  assumes "wf_json (JObj kvs)" "kvs \<noteq> []" "utf8_valid (json_dumps (JObj kvs))"
  shows "loads_bytes (json_dumps (JObj kvs)) = Some (canon (JObj kvs))"
proof -
  obtain t where "json_dumps (JObj kvs) = CHR ''{'' # CHR 0x22 # t"
    using dumps_object_starts[OF assms(2)] by blast
  then have "decode_text (json_dumps (JObj kvs)) = Some (json_dumps (JObj kvs))"
    using utf8_detected assms(3) by blast
  then show ?thesis using json_loads_dumps_wf[OF assms(1)] by (simp add: loads_bytes_def)
qed

definition canon_envelope :: "envelope \<Rightarrow> envelope" where
  "canon_envelope e = e\<lparr>env_payload := canon (env_payload e)\<rparr>"

definition envelope_members :: "envelope \<Rightarrow> (string \<times> json) list" where
  "envelope_members e =
     [(''protocol'', JStr (env_protocol e)), (''message_id'', JStr (message_id e)),
      (''message_type'', JStr (message_type e)), (''source_id'', JStr (source_id e)),
      (''session_id'', JStr (session_id e)), (''sequence'', JInt (env_sequence e)),
      (''timestamp_ms'', JInt (timestamp_ms e)), (''correlation_id'', json_opt_str (correlation_id e)),
      (''payload'', env_payload e)] @
     (if env_stream e \<noteq> OPERATIONAL_STREAM then [(''stream'', JStr (env_stream e))] else [])"

lemma envelope_document_members: "envelope_document e = JObj (envelope_members e)"
  by (simp add: envelope_document_def envelope_members_def)

lemma wf_opt_str [simp]: "wf_json (json_opt_str x)"
  by (cases x) (simp_all add: json_opt_str_def)

lemma wf_envelope_document: "wf_json (env_payload e) \<Longrightarrow> wf_json (envelope_document e)"
  by (simp add: envelope_document_def)

lemma envelope_members_carry:
  "carries (sort_key fst (map (\<lambda>(k, v). (k, canon v)) (envelope_members e))) (canon_envelope e)"
proof -
  have d: "distinct (map fst (envelope_members e))" by (simp add: envelope_members_def)
  show ?thesis
    unfolding carries_def map_of_canon[OF d] by (simp add: envelope_members_def canon_envelope_def)
qed

text \<open>An envelope document determines the envelope.\<close>

lemma carries_unique: "carries doc e \<Longrightarrow> carries doc e' \<Longrightarrow> e = e'"
  unfolding carries_def by (cases e; cases e') (auto simp: json_opt_str_def split: option.splits)

lemma encode_envelope_Inr:
  "encode_envelope e = Inr b \<longleftrightarrow> b = json_dumps (envelope_document e) \<and> env_stream e \<in> set STREAMS \<and>
     (env_stream e = SAFETY_STREAM \<longrightarrow> message_type e = ''state'') \<and> utf8_valid b \<and> length b \<le> MAX_MESSAGE_BYTES"
  unfolding encode_envelope_def by (auto simp: res_simps Let_def)

lemma loads_encoded:
  assumes "encode_envelope e = Inr b" "wf_json (env_payload e)"
  shows "loads_bytes b = Some (JObj (sort_key fst (map (\<lambda>(k, v). (k, canon v)) (envelope_members e))))" "b \<noteq> []"
proof -
  have b: "b = json_dumps (JObj (envelope_members e))" "utf8_valid b"
    using assms(1) by (auto simp: encode_envelope_Inr envelope_document_members)
  have ne: "envelope_members e \<noteq> []" by (simp add: envelope_members_def)
  have wf: "wf_json (JObj (envelope_members e))"
    using wf_envelope_document[OF assms(2)] by (simp add: envelope_document_members)
  show "loads_bytes b = Some (JObj (sort_key fst (map (\<lambda>(k, v). (k, canon v)) (envelope_members e))))"
    using loads_bytes_dumps[OF wf ne] b by simp
  show "b \<noteq> []" using dumps_object_starts[OF ne] b by auto
qed

lemma valid_canon_envelope: "valid_envelope e \<Longrightarrow> valid_envelope (canon_envelope e)"
proof -
  have "is_object v \<Longrightarrow> is_object (canon v)" for v by (cases v) (simp_all add: is_object_def)
  then show "valid_envelope e \<Longrightarrow> valid_envelope (canon_envelope e)"
    by (simp add: valid_envelope_def canon_envelope_def wf_canon)
qed

lemma decode_encoded:
  assumes "encode_envelope e = Inr b" "wf_json (env_payload e)"
  shows "decode_envelope b = Inr e' \<longleftrightarrow> e' = canon_envelope e \<and> valid_envelope (canon_envelope e)"
proof -
  let ?doc = "sort_key fst (map (\<lambda>(k, v). (k, canon v)) (envelope_members e))"
  have l: "loads_bytes b = Some (JObj ?doc)" "b \<noteq> []" using loads_encoded[OF assms] by auto
  have len: "length b \<le> MAX_MESSAGE_BYTES" using assms(1) unfolding encode_envelope_Inr by blast
  have "decode_envelope b = decode_document ?doc" using l len by (simp add: decode_envelope_def)
  then show ?thesis
    using decode_document_Inr[OF loads_bytes_wf[OF l(1)]] envelope_members_carry[of e]
      carries_unique[of ?doc e' "canon_envelope e"] by auto
qed

text \<open>C11: A valid envelope that \<open>encode_envelope\<close> accepts is decoded to the same envelope, its payload with
  sorted keys.\<close>

theorem envelope_round_trip:
  assumes "valid_envelope e" "encode_envelope e = Inr b"
  shows "decode_envelope b = Inr (canon_envelope e)"
  using decode_encoded[OF assms(2)] assms(1) valid_canon_envelope by (auto simp: valid_envelope_def)

definition sample_message :: envelope where
  "sample_message = make_envelope ''m1'' ''state'' ''robot-1'' ''s1'' 1 1000
     (JObj [(''summary'', JStr ''idle''), (''charge'', JInt 90)]) None SAFETY_STREAM"

theorem envelope_round_trip_witness:
  "valid_envelope sample_message \<and>
   (\<exists>b. encode_envelope sample_message = Inr b \<and> decode_envelope b = Inr (canon_envelope sample_message))"
proof -
  have v: "valid_envelope sample_message"
    by code_simp
  have "is_ok (encode_envelope sample_message)" by code_simp
  then obtain b where b: "encode_envelope sample_message = Inr b" by (auto simp: is_ok_iff)
  show ?thesis using envelope_round_trip[OF v b] v b by blast
qed

text \<open>C12: What \<open>decode_envelope\<close> accepts is within the bounds of the envelope. The bytes are not empty and at most 64 KiB;
  the envelope has the protocol of this version, a known message type and stream, the safety stream with state messages
  only, ids that are not empty and have at most 128 bytes, a correlation id of at most 128 bytes if any, a positive
  sequence number, a time that is not negative, and an object as payload whose keys are distinct at every level.\<close>

theorem decoded_envelope_valid:
  assumes "decode_envelope b = Inr e"
  shows "b \<noteq> [] \<and> length b \<le> 65536 \<and> env_protocol e = PROTOCOL_VERSION \<and> message_type e \<in> set MESSAGE_TYPES \<and>
    env_stream e \<in> set STREAMS \<and> (env_stream e = SAFETY_STREAM \<longrightarrow> message_type e = ''state'') \<and>
    (\<forall>s\<in>{message_id e, source_id e, session_id e}. s \<noteq> [] \<and> length s \<le> 128) \<and>
    (\<forall>c. correlation_id e = Some c \<longrightarrow> length c \<le> 128) \<and>
    1 \<le> env_sequence e \<and> 0 \<le> timestamp_ms e \<and> is_object (env_payload e) \<and> wf_json (env_payload e)"
proof -
  obtain doc where doc: "loads_bytes b = Some (JObj doc)" "decode_document doc = Inr e"
    and size: "b \<noteq> []" "length b \<le> MAX_MESSAGE_BYTES"
    using assms by (auto simp: decode_envelope_def res_simps split: option.splits json.splits)
  have "valid_envelope e" using decode_document_Inr[OF loads_bytes_wf[OF doc(1)]] doc(2) by blast
  then show ?thesis using size by (auto simp: valid_envelope_def MAX_MESSAGE_BYTES_def split: option.splits)
qed

definition sample_bytes :: string where
  "sample_bytes = (case encode_envelope sample_message of Inr b \<Rightarrow> b | Inl _ \<Rightarrow> [])"

theorem decoded_envelope_valid_witness:
  "decode_envelope sample_bytes = Inr (canon_envelope sample_message) \<and> sample_bytes \<noteq> [] \<and> length sample_bytes \<le> 65536 \<and>
   1 \<le> env_sequence (canon_envelope sample_message)"
proof -
  have "decode_envelope sample_bytes = Inr (canon_envelope sample_message)" by code_simp
  then show ?thesis using decoded_envelope_valid by blast
qed

text \<open>Publishing on the bus. An envelope the codec refuses reaches nobody and leaves no trace; any other is
  traced once, in its canonical form, and goes to the handlers of its type and then to the wildcard handlers, in
  the order they subscribed, up to the first that raises.\<close>

theorem bus_publish_delivers:
  "bus_publish call e b =
    (case rbind (encode_envelope e) decode_envelope of
       Inl err \<Rightarrow> (b, [], Inl err)
     | Inr c \<Rightarrow>
         (let hs = bus_handlers (message_type c) b @ bus_handlers ''*'' b;
              good = takeWhile (\<lambda>h. is_ok (call h c)) hs;
              b' = b\<lparr>bus_trace := bus_trace b @ [c]\<rparr> in
          if good = hs then (b', hs, Inr ())
          else (b', good @ [hs ! length good], call (hs ! length good) c)))"
proof -
  have "call_handlers call c hs =
      (let good = takeWhile (\<lambda>h. is_ok (call h c)) hs in
       if good = hs then (hs, Inr ()) else (good @ [hs ! length good], call (hs ! length good) c))" for c hs
    by (induction hs) (auto simp: Let_def split: sum.splits)
  then show ?thesis by (simp add: bus_publish_def Let_def split: sum.splits)
qed

text \<open>The decoder also accepts UTF-16: an envelope in UTF-16 (little endian, no byte order mark), which is not
  JSON when it is read as UTF-8, gives the same envelope as its canonical encoding. \<open>docs/PROTOCOL.md\<close> requires
  UTF-8.\<close>

theorem utf16_envelope_accepted:
  "(let wide = concat (map (\<lambda>c. [c, CHR 0x00]) sample_bytes) in
    decode_envelope wide = decode_envelope sample_bytes \<and> is_ok (decode_envelope wide) \<and> json_loads wide = None)"
  by code_simp

end
