(* ===== verification/Registry.thy ===== *)
theory Registry
  imports Robot_Models Transport
begin

text \<open>
  The first part of \<open>runtime.py\<close>: \<open>Registry\<close>, which keeps the latest manifest and state of every
  peer, and \<open>CommunicationWatchdog\<close>, which calls the manufacturer's policy when the set of stale
  peers changes. A handler that raises may have changed the registry before (an entry made by
  \<open>setdefault\<close>), so handlers return the registry and the exception separately. Threads and locks are
  not modelled; every handler runs under its lock and is one atomic step. The manufacturer's
  handler is the argument \<open>raises\<close> of \<open>evaluate\<close>.
\<close>

section \<open>Decoding manifests and states\<close>

definition decode_capability :: "json \<Rightarrow> capability res" where
  "decode_capability v =
     rbind (rbind (jitem v ''name'') as_str) (\<lambda>name.
     rbind (rbind (jitem v ''description'') as_str) (\<lambda>descr.
     rbind (jget v ''input_schema'' (JObj [])) (\<lambda>inp.
     rbind (jget v ''output_schema'' (JObj [])) (\<lambda>outp.
     rbind (rbind (jget v ''availability'' (JStr ''available'')) availability_of) (\<lambda>av.
     post_init_capability \<lparr>cap_name = name, cap_description = descr, cap_input_schema = inp,
       cap_output_schema = outp, cap_availability = av\<rparr>)))))"

definition decode_manifest :: "json \<Rightarrow> manifest res" where
  "decode_manifest v =
     rbind (rbind (rbind (jitem v ''capabilities'') py_iter) (rmap decode_capability)) (\<lambda>caps.
     rbind (rbind (jitem v ''robot_id'') as_str) (\<lambda>rid.
     rbind (rbind (jitem v ''manufacturer'') as_str) (\<lambda>manu.
     rbind (rbind (jitem v ''model'') as_str) (\<lambda>mdl.
     rbind (rbind (jitem v ''robot_class'') as_str) (\<lambda>cls.
     rbind (rbind (jget v ''adapter_version'' (JStr ''0.1.0'')) as_str) (\<lambda>ver.
     post_init_manifest \<lparr>mf_robot_id = rid, mf_manufacturer = manu, mf_model = mdl, mf_robot_class = cls,
       mf_capabilities = caps, mf_adapter_version = ver\<rparr>))))))"

definition decode_pose :: "json \<Rightarrow> pose option res" where
  "decode_pose v = (case v of
      JNull \<Rightarrow> Inr None
    | _ \<Rightarrow>
        rbind (rbind (jitem v ''frame_id'') as_str) (\<lambda>frame.
        rbind (rbind (jitem v ''position_m'') py_iter) (\<lambda>pos.
        rbind (rbind (jitem v ''orientation_xyzw'') py_iter) (\<lambda>ori.
        rbind (rbind (jitem v ''observed_at_ms'') as_int) (\<lambda>at.
        rbind (post_init_pose \<lparr>pose_frame_id = frame, position_m = pos, orientation_xyzw = ori,
                 pose_observed_at_ms = at\<rparr>) (\<lambda>p. Inr (Some p)))))))"

text \<open>\<open>type(byte_length) is not int\<close> is a \<open>ValueError\<close> of the constructor.\<close>

definition decode_sensor :: "json \<Rightarrow> sensor_reference res" where
  "decode_sensor v =
     rbind (rbind (jitem v ''uri'') as_str) (\<lambda>uri.
     rbind (rbind (jitem v ''media_type'') as_str) (\<lambda>media.
     rbind (rbind (jitem v ''byte_length'') (\<lambda>x. case x of JInt n \<Rightarrow> Inr n
              | _ \<Rightarrow> Inl (ValueError ''sensor byte_length is outside the core profile''))) (\<lambda>len.
     rbind (rbind (jitem v ''sha256'') as_str) (\<lambda>sha.
     rbind (rbind (jitem v ''observed_at_ms'') as_int) (\<lambda>at.
     rbind (rbind (jget v ''expires_at_ms'' JNull) as_opt_int) (\<lambda>expires.
     rbind (rbind (jget v ''frame_id'' JNull) as_opt_str) (\<lambda>frame.
     post_init_sensor \<lparr>sr_uri = uri, sr_media_type = media, sr_byte_length = len, sr_sha256 = sha,
       sr_observed_at_ms = at, sr_expires_at_ms = expires, sr_frame_id = frame\<rparr>)))))))"

definition decode_battery :: "json \<Rightarrow> battery_state option res" where
  "decode_battery v = (case v of
      JNull \<Rightarrow> Inr None
    | _ \<Rightarrow>
        rbind (jget v ''level'' JNull) (\<lambda>level.
        rbind (rbind (jitem v ''status'') battery_status_of) (\<lambda>st.
        rbind (rbind (jitem v ''observed_at_ms'') as_int) (\<lambda>at.
        rbind (rbind (jget v ''estimated_runtime_s'' JNull) as_opt_int) (\<lambda>runtime.
        rbind (post_init_battery \<lparr>ba_level = (if level = JNull then None else Some level), ba_status = st,
                 ba_observed_at_ms = at, ba_estimated_runtime_s = runtime\<rparr>) (\<lambda>b. Inr (Some b)))))))"

definition decode_state :: "json \<Rightarrow> robot_state res" where
  "decode_state v =
     rbind (rbind (jget v ''pose'' JNull) decode_pose) (\<lambda>pose.
     rbind (rbind (rbind (jget v ''sensor_references'' (JArr [])) py_iter) (rmap decode_sensor)) (\<lambda>sensors.
     rbind (rbind (jget v ''battery'' JNull) decode_battery) (\<lambda>battery.
     rbind (rbind (jitem v ''robot_id'') as_str) (\<lambda>rid.
     rbind (rbind (jitem v ''mode'') mode_of) (\<lambda>mode.
     rbind (rbind (jitem v ''safety'') safety_of) (\<lambda>safe.
     rbind (rbind (jitem v ''activity'') as_str) (\<lambda>activity.
     rbind (rbind (jitem v ''intent'') as_str) (\<lambda>intent.
     rbind (jitem v ''progress'') (\<lambda>progress.
     rbind (rbind (jitem v ''summary'') as_str) (\<lambda>summ.
     rbind (rbind (jget v ''health'' (JStr ''unknown'')) health_of) (\<lambda>hlth.
     rbind (rbind (jget v ''fresh_for_ms'' (JInt 2000)) as_int) (\<lambda>fresh.
     rbind (rbind (jget v ''blockers'' (JArr [])) py_iter) (\<lambda>blockers.
     rbind (rbind (jget v ''resources'' (JArr [])) as_strs) (\<lambda>resources.
     rbind (rbind (jget v ''assignment_id'' JNull) as_opt_str) (\<lambda>aid.
     post_init_state \<lparr>st_robot_id = rid, st_mode = mode, st_safety = safe, st_activity = activity,
       st_intent = intent, st_progress = progress, st_summary = summ, st_health = hlth, st_battery = battery,
       st_fresh_for_ms = fresh, st_blockers = blockers, st_resources = resources, st_assignment_id = aid,
       st_pose = pose, st_sensor_references = sensors\<rparr>)))))))))))))))"

section \<open>The registry\<close>

record peer_view =
  pv_manifest :: "manifest option"
  pv_state :: "robot_state option"
  pv_state_timestamp_ms :: int
  pv_last_sequences :: "string \<Rightarrow> int option"
  pv_session_id :: "string option"

definition empty_peer :: peer_view where
  "empty_peer = \<lparr>pv_manifest = None, pv_state = None, pv_state_timestamp_ms = 0,
     pv_last_sequences = Map.empty, pv_session_id = None\<rparr>"

type_synonym registry = "string \<Rightarrow> peer_view option"

definition peer_of :: "registry \<Rightarrow> string \<Rightarrow> peer_view" where
  "peer_of reg rid = (case reg rid of Some p \<Rightarrow> p | None \<Rightarrow> empty_peer)"

definition last_sequence :: "peer_view \<Rightarrow> string \<Rightarrow> int" where
  "last_sequence p strm = (case pv_last_sequences p strm of Some n \<Rightarrow> n | None \<Rightarrow> 0)"

definition on_manifest :: "envelope \<Rightarrow> registry \<Rightarrow> registry \<times> unit res" where
  "on_manifest e reg =
     (case decode_manifest (env_payload e) of
        Inl err \<Rightarrow> (reg, Inl err)
      | Inr mf \<Rightarrow>
          if mf_robot_id mf \<noteq> source_id e
          then (reg, Inl (ValueError ''manifest robot_id does not match authenticated source''))
          else
            let p0 = peer_of reg (source_id e);
                p1 = (if pv_session_id p0 \<noteq> Some (session_id e)
                      then p0\<lparr>pv_state := None, pv_state_timestamp_ms := 0, pv_last_sequences := Map.empty\<rparr>
                      else p0)
            in if env_sequence e \<le> last_sequence p1 (env_stream e)
               then (reg(source_id e \<mapsto> p1), Inr ())
               else (reg(source_id e \<mapsto> p1\<lparr>pv_manifest := Some mf, pv_session_id := Some (session_id e),
                       pv_last_sequences := (pv_last_sequences p1)(env_stream e \<mapsto> env_sequence e)\<rparr>), Inr ()))"

definition on_state :: "envelope \<Rightarrow> registry \<Rightarrow> registry \<times> unit res" where
  "on_state e reg =
     (let p = peer_of reg (source_id e); reg0 = reg(source_id e \<mapsto> p) in
      if pv_session_id p \<noteq> Some (session_id e) \<or> pv_manifest p = None
      then (reg0, Inl (ValueError ''state received before manifest for this source session''))
      else if env_sequence e \<le> last_sequence p (env_stream e) then (reg0, Inr ())
      else (case rbind (rbind (jget (env_payload e) ''robot_id'' JNull) (\<lambda>rid.
                   require (rid = JStr (source_id e))
                     (ValueError ''state robot_id does not match authenticated source''))) (\<lambda>_.
                 decode_state (env_payload e)) of
              Inl err \<Rightarrow> (reg0, Inl err)
            | Inr st \<Rightarrow>
                let p1 = p\<lparr>pv_last_sequences := (pv_last_sequences p)(env_stream e \<mapsto> env_sequence e)\<rparr> in
                if timestamp_ms e < pv_state_timestamp_ms p1 then (reg(source_id e \<mapsto> p1), Inr ())
                else (reg(source_id e \<mapsto> p1\<lparr>pv_state := Some st, pv_state_timestamp_ms := timestamp_ms e\<rparr>), Inr ())))"

definition is_fresh :: "registry \<Rightarrow> string \<Rightarrow> int \<Rightarrow> bool" where
  "is_fresh reg rid now = (case reg rid of
      None \<Rightarrow> False
    | Some p \<Rightarrow> (case pv_state p of
        None \<Rightarrow> False
      | Some st \<Rightarrow> now - pv_state_timestamp_ms p \<le> st_fresh_for_ms st))"

definition missing_context :: "registry \<Rightarrow> string list \<Rightarrow> int \<Rightarrow> string list" where
  "missing_context reg ids now =
     filter (\<lambda>rid. case reg rid of
        None \<Rightarrow> True
      | Some p \<Rightarrow> pv_manifest p = None \<or>
          (case pv_state p of
             None \<Rightarrow> True
           | Some st \<Rightarrow> now - pv_state_timestamp_ms p > st_fresh_for_ms st)) ids"

section \<open>The communication watchdog\<close>

text \<open>What the watchdog asks of the manufacturer's handler.\<close>

datatype loss_call = CommunicationLost "string list" int | CommunicationRestored "string list" int

record watchdog =
  wd_required_peer_ids :: "string list"
  wd_active_stale :: "string list"
  wd_errors :: nat

text \<open>\<open>self.errors\<close> is modelled by its length, which \<open>del self.errors[:-1_000]\<close> keeps at most 1000. The
  check interval is given in milliseconds.\<close>

definition watchdog_init :: "string list \<Rightarrow> int \<Rightarrow> watchdog res" where
  "watchdog_init peers interval_ms =
     rbind (require (\<not> (peers = [] \<or> \<not> distinct peers))
              (ValueError ''communication watchdog peers must be non-empty and unique'')) (\<lambda>_.
     rbind (require (50 \<le> interval_ms \<and> interval_ms \<le> 60000)
              (ValueError ''communication check interval must be between 0.05 and 60 seconds'')) (\<lambda>_.
     Inr \<lparr>wd_required_peer_ids = sort peers, wd_active_stale = [], wd_errors = 0\<rparr>))"

definition stale_peers :: "registry \<Rightarrow> watchdog \<Rightarrow> int \<Rightarrow> string list" where
  "stale_peers reg w now = filter (\<lambda>p. \<not> is_fresh reg p now) (wd_required_peer_ids w)"

text \<open>\<open>evaluate\<close>: the new watchdog, the returned stale peers, and the call made to the handler; \<open>raises\<close>
  says whether the handler raises on that call.\<close>

definition evaluate :: "registry \<Rightarrow> int \<Rightarrow> (loss_call \<Rightarrow> bool) \<Rightarrow> watchdog \<Rightarrow> watchdog \<times> string list \<times> loss_call option" where
  "evaluate reg now raises w =
     (let stale = stale_peers reg w now; previous = wd_active_stale w in
      if stale = previous then (w, stale, None)
      else
        let call = (if stale \<noteq> [] then CommunicationLost stale now else CommunicationRestored previous now) in
        if raises call then (w\<lparr>wd_errors := min 1000 (wd_errors w + 1)\<rparr>, previous, Some call)
        else (w\<lparr>wd_active_stale := stale\<rparr>, stale, Some call))"

section \<open>Lemmas\<close>

definition registry_step :: "envelope \<Rightarrow> registry \<Rightarrow> registry" where
  "registry_step e reg =
     (if message_type e = ''manifest'' then fst (on_manifest e reg)
      else if message_type e = ''state'' then fst (on_state e reg)
      else reg)"

definition registry_run :: "envelope list \<Rightarrow> registry \<Rightarrow> registry" where
  "registry_run es reg = foldl (\<lambda>r e. registry_step e r) reg es"

text \<open>What holds of every peer entry: a state comes only with a manifest and a session, and it was
  accepted by the constructor.\<close>

definition peer_ok :: "string \<Rightarrow> peer_view \<Rightarrow> bool" where
  "peer_ok rid p =
     ((pv_state p \<noteq> None \<longrightarrow> pv_manifest p \<noteq> None \<and> pv_session_id p \<noteq> None) \<and>
      (\<forall>mf. pv_manifest p = Some mf \<longrightarrow> mf_robot_id mf = rid \<and> post_init_manifest mf = Inr mf) \<and>
      (\<forall>st. pv_state p = Some st \<longrightarrow> st_robot_id st = rid \<and> post_init_state st = Inr st))"

definition registry_ok :: "registry \<Rightarrow> bool" where
  "registry_ok reg = (\<forall>rid p. reg rid = Some p \<longrightarrow> peer_ok rid p)"

lemma empty_peer_ok [simp]: "peer_ok rid empty_peer"
  by (simp add: peer_ok_def empty_peer_def)

lemma peer_of_ok: "registry_ok reg \<Longrightarrow> peer_ok rid (peer_of reg rid)"
  by (auto simp: registry_ok_def peer_of_def split: option.splits)

lemma registry_ok_upd: "registry_ok reg \<Longrightarrow> peer_ok rid p \<Longrightarrow> registry_ok (reg(rid \<mapsto> p))"
  by (auto simp: registry_ok_def)

lemma post_init_manifest_id: "post_init_manifest mf = Inr m \<Longrightarrow> m = mf"
  by (auto simp: post_init_manifest_def res_simps)

lemma post_init_state_id: "post_init_state s = Inr t \<Longrightarrow> t = s"
  by (auto simp: post_init_state_def res_simps)

lemma decode_manifest_ok: "decode_manifest v = Inr mf \<Longrightarrow> post_init_manifest mf = Inr mf"
  by (auto simp: decode_manifest_def res_simps dest: post_init_manifest_id)

lemma as_str_Inr_iff [res_simps]: "as_str j = Inr s \<longleftrightarrow> j = JStr s"
  by (cases j) (auto simp: as_str_def)

lemma decode_state_ok:
  assumes "decode_state v = Inr st"
  shows "post_init_state st = Inr st \<and> jitem v ''robot_id'' = Inr (JStr (st_robot_id st))"
proof -
  obtain s where "post_init_state s = Inr st" "rbind (jitem v ''robot_id'') as_str = Inr (st_robot_id s)"
    using assms unfolding decode_state_def rbind_Inr_iff by (elim exE conjE) (rule that, auto simp: rbind_Inr_iff)
  then show ?thesis
    by (auto simp: res_simps dest: post_init_state_id)
qed


lemma on_manifest_ok:
  assumes "registry_ok reg"
  shows "registry_ok (fst (on_manifest e reg))"
proof (cases "decode_manifest (env_payload e)")
  case (Inr mf)
  let ?p = "peer_of reg (source_id e)"
  have p: "peer_ok (source_id e) ?p" by (rule peer_of_ok[OF assms])
  have mf: "post_init_manifest mf = Inr mf" by (rule decode_manifest_ok[OF Inr])
  show ?thesis
    using assms p mf by (auto simp: on_manifest_def Inr Let_def peer_ok_def intro!: registry_ok_upd)
qed (simp add: on_manifest_def assms)

lemma on_state_ok:
  assumes "registry_ok reg"
  shows "registry_ok (fst (on_state e reg))"
proof -
  let ?p = "peer_of reg (source_id e)"
  let ?d = "rbind (rbind (jget (env_payload e) ''robot_id'' JNull) (\<lambda>rid.
                   require (rid = JStr (source_id e))
                     (ValueError ''state robot_id does not match authenticated source''))) (\<lambda>_.
                 decode_state (env_payload e))"
  have p: "peer_ok (source_id e) ?p" by (rule peer_of_ok[OF assms])
  have st: "post_init_state st = Inr st \<and> st_robot_id st = source_id e" if "?d = Inr st" for st
  proof -
    have "decode_state (env_payload e) = Inr st" "jget (env_payload e) ''robot_id'' JNull = Inr (JStr (source_id e))"
      using that by (auto simp: res_simps)
    then show ?thesis
      using decode_state_ok[of "env_payload e" st] by (cases "env_payload e") (auto simp: jget_def jitem_def split: option.splits)
  qed
  show ?thesis
  proof (cases ?d)
    case (Inl err)
    then show ?thesis using assms p by (auto simp: on_state_def Let_def intro!: registry_ok_upd)
  next
    case (Inr st0)
    then show ?thesis
      using assms p st[OF Inr] by (auto simp: on_state_def Let_def peer_ok_def intro!: registry_ok_upd)
  qed
qed

lemma registry_ok_run: "registry_ok reg \<Longrightarrow> registry_ok (registry_run es reg)"
  unfolding registry_run_def
proof (induction es arbitrary: reg)
  case (Cons e es)
  have "registry_ok (registry_step e reg)"
    using Cons.prems on_manifest_ok on_state_ok by (simp add: registry_step_def)
  then show ?case using Cons.IH by simp
qed simp

section \<open>Properties\<close>

text \<open>whatever envelopes arrive in whatever order, an entry of the registry is consistent: its
  manifest and state name the peer they are stored under and satisfy the model's constraints, and
  a state is present only together with a manifest and a session. As a consequence the planning
  context misses exactly the participants without a fresh state.\<close>

theorem registry_consistent:
  shows "(\<forall>p. registry_run es Map.empty rid = Some p \<longrightarrow>
      (pv_state p \<noteq> None \<longrightarrow> pv_manifest p \<noteq> None \<and> pv_session_id p \<noteq> None) \<and>
      (\<forall>mf. pv_manifest p = Some mf \<longrightarrow> mf_robot_id mf = rid \<and> post_init_manifest mf = Inr mf) \<and>
      (\<forall>st. pv_state p = Some st \<longrightarrow> st_robot_id st = rid \<and> post_init_state st = Inr st)) \<and>
    missing_context (registry_run es Map.empty) ids now =
      filter (\<lambda>r. \<not> is_fresh (registry_run es Map.empty) r now) ids"
proof -
  have ok: "registry_ok (registry_run es Map.empty)" by (rule registry_ok_run) (simp add: registry_ok_def)
  have entries: "\<forall>p. registry_run es Map.empty rid = Some p \<longrightarrow> peer_ok rid p" for rid
    using ok by (simp add: registry_ok_def)
  have "missing_context (registry_run es Map.empty) ids now =
      filter (\<lambda>r. \<not> is_fresh (registry_run es Map.empty) r now) ids"
    unfolding missing_context_def is_fresh_def
    using entries by (intro filter_cong[OF refl]) (fastforce simp: peer_ok_def split: option.splits)
  then show ?thesis using entries[of rid] unfolding peer_ok_def by blast
qed

theorem registry_consistent_witness:
  "missing_context (registry_run [] Map.empty) [''r1''] 5 = [''r1''] \<and>
   missing_context (registry_run [] Map.empty) [''r1''] 5 =
     filter (\<lambda>r. \<not> is_fresh (registry_run [] Map.empty) r 5) [''r1'']"
  using registry_consistent[of "[]" "''r1''" "[''r1'']" 5] by (simp add: registry_run_def is_fresh_def)

text \<open>C10: replay protection in the registry: an envelope of the current session of a peer whose
  sequence number is not above the last one seen on its stream changes nothing, whatever it
  carries.\<close>

theorem registry_ignores_replay:
  assumes "reg (source_id e) = Some p" "pv_session_id p = Some (session_id e)"
    and "env_sequence e \<le> last_sequence p (env_stream e)"
  shows "registry_step e reg = reg"
proof -
  have "peer_of reg (source_id e) = p" by (simp add: peer_of_def assms(1))
  moreover have "reg(source_id e \<mapsto> p) = reg" using assms(1) by (rule map_upd_triv)
  ultimately show ?thesis
    using assms by (auto simp: registry_step_def on_manifest_def on_state_def Let_def split: sum.splits)
qed

definition sample_manifest_body :: json where
  "sample_manifest_body = JObj [(''robot_id'', JStr ''r1''), (''manufacturer'', JStr ''Acme''), (''model'', JStr ''M''),
     (''robot_class'', JStr ''cart''), (''capabilities'', JArr []), (''adapter_version'', JStr ''1.0'')]"

definition sample_state_body :: json where
  "sample_state_body = JObj [(''robot_id'', JStr ''r1''), (''mode'', JStr ''idle''), (''safety'', JStr ''normal''),
     (''activity'', JStr ''waiting''), (''intent'', JStr ''none''), (''progress'', JFloat ''0.5''), (''summary'', JStr ''ok'')]"

definition sample_envelope :: "string \<Rightarrow> int \<Rightarrow> int \<Rightarrow> json \<Rightarrow> envelope" where
  "sample_envelope mtype sq ts body = make_envelope ''m'' mtype ''r1'' ''s1'' sq ts body None OPERATIONAL_STREAM"

theorem registry_ignores_replay_witness:
  "registry_step (sample_envelope ''state'' 1 900 sample_state_body)
     (registry_run [sample_envelope ''manifest'' 1 100 sample_manifest_body] Map.empty) =
   registry_run [sample_envelope ''manifest'' 1 100 sample_manifest_body] Map.empty"
proof -
  let ?reg = "registry_run [sample_envelope ''manifest'' 1 100 sample_manifest_body] Map.empty"
  let ?e = "sample_envelope ''state'' 1 900 sample_state_body"
  have "?reg (source_id ?e) \<noteq> None \<and> pv_session_id (the (?reg (source_id ?e))) = Some (session_id ?e) \<and>
    env_sequence ?e \<le> last_sequence (the (?reg (source_id ?e))) (env_stream ?e)" by code_simp
  then show ?thesis using registry_ignores_replay[of ?reg ?e] by fastforce
qed

text \<open>within one session of a peer the sequence numbers of each stream and the timestamp of the
  stored state never decrease, and when a peer announces a new session by a manifest its old state
  is dropped: the peer is not fresh until a state of the new session arrives.\<close>

theorem registry_session_order:
  assumes "reg rid = Some p" "1 \<le> env_sequence e"
  shows "\<exists>p'. registry_step e reg rid = Some p' \<and>
     (pv_session_id p' = pv_session_id p \<longrightarrow>
        (\<forall>strm. last_sequence p strm \<le> last_sequence p' strm) \<and>
        pv_state_timestamp_ms p \<le> pv_state_timestamp_ms p') \<and>
     (pv_session_id p' \<noteq> pv_session_id p \<longrightarrow>
        message_type e = ''manifest'' \<and> source_id e = rid \<and> pv_session_id p' = Some (session_id e) \<and>
        (\<forall>now. \<not> is_fresh (registry_step e reg) rid now))"
proof (cases "source_id e = rid \<and> (message_type e = ''manifest'' \<or> message_type e = ''state'')")
  case False
  then have "registry_step e reg rid = Some p"
    using assms by (auto simp: registry_step_def on_manifest_def on_state_def Let_def split: sum.splits)
  then show ?thesis by simp
next
  case True
  have p: "peer_of reg (source_id e) = p" using assms True by (simp add: peer_of_def)
  show ?thesis
  proof (cases "message_type e = ''manifest''")
    case True
    then show ?thesis
      using p assms \<open>source_id e = rid \<and> _\<close>
      by (cases "decode_manifest (env_payload e)")
        (auto simp: registry_step_def on_manifest_def Let_def last_sequence_def is_fresh_def)
  next
    case False
    then show ?thesis
      using p assms \<open>source_id e = rid \<and> _\<close>
      by (auto simp: registry_step_def on_state_def Let_def last_sequence_def split: sum.splits)
  qed
qed

theorem registry_session_order_witness:
  "\<exists>p'. registry_step (sample_envelope ''state'' 2 900 sample_state_body)
       (registry_run [sample_envelope ''manifest'' 1 100 sample_manifest_body] Map.empty) ''r1'' = Some p'"
proof -
  let ?reg = "registry_run [sample_envelope ''manifest'' 1 100 sample_manifest_body] Map.empty"
  have "?reg ''r1'' \<noteq> None" "1 \<le> env_sequence (sample_envelope ''state'' 2 900 sample_state_body)" by code_simp+
  then show ?thesis
    using registry_session_order[of ?reg "''r1''" _ "sample_envelope ''state'' 2 900 sample_state_body"] by auto
qed

text \<open>A history of watchdog evaluations; each carries the registry and the time it sees.\<close>

fun watchdog_run :: "(loss_call \<Rightarrow> bool) \<Rightarrow> (registry \<times> int) list \<Rightarrow> watchdog \<Rightarrow> watchdog \<times> loss_call list" where
  "watchdog_run raises [] w = (w, [])"
| "watchdog_run raises ((reg, now) # obs) w =
     (let (w1, stale, call) = evaluate reg now raises w;
          (w2, calls) = watchdog_run raises obs w1
      in (w2, (case call of Some c \<Rightarrow> if raises c then calls else c # calls | None \<Rightarrow> calls)))"

fun reported :: "loss_call \<Rightarrow> string list" where
  "reported (CommunicationLost peers t) = peers"
| "reported (CommunicationRestored peers t) = []"

lemma evaluate_call:
  assumes "evaluate reg now raises w = (w', stale, Some c)" "\<not> raises c"
  shows "reported c = wd_active_stale w'" "wd_active_stale w' \<noteq> wd_active_stale w"
  using assms by (auto simp: evaluate_def Let_def split: if_splits)

lemma evaluate_no_call:
  assumes "evaluate reg now raises w = (w', stale, call)" "call = None \<or> (\<exists>c. call = Some c \<and> raises c)"
  shows "wd_active_stale w' = wd_active_stale w"
  using assms by (auto simp: evaluate_def Let_def split: if_splits)

text \<open>the watchdog reports edges only: over any history of evaluations, the reports the handler
  accepted never repeat the set reported just before, the first one differs from the initial empty
  set, and the set the watchdog holds at the end is the one last reported.\<close>

theorem watchdog_reports_changes_only:
  assumes "watchdog_run raises obs w = (w', calls)"
  shows "distinct_adj (wd_active_stale w # map reported calls) \<and>
         last (wd_active_stale w # map reported calls) = wd_active_stale w'"
  using assms
proof (induction raises obs w arbitrary: calls rule: watchdog_run.induct)
  case (2 raises reg now obs w)
  obtain w1 stale call where ev: "evaluate reg now raises w = (w1, stale, call)" by (metis prod_cases3)
  obtain calls1 where rest: "watchdog_run raises obs w1 = (w', calls1)"
    and c: "calls = (case call of Some c \<Rightarrow> if raises c then calls1 else c # calls1 | None \<Rightarrow> calls1)"
    using 2(2) ev by (auto split: prod.splits)
  have IH: "distinct_adj (wd_active_stale w1 # map reported calls1)"
    "last (wd_active_stale w1 # map reported calls1) = wd_active_stale w'"
    using 2(1)[OF ev[symmetric] refl refl rest] by auto
  show ?case
  proof (cases "\<exists>x. call = Some x \<and> \<not> raises x")
    case True
    then obtain x where x: "call = Some x" "\<not> raises x" by blast
    then show ?thesis using c IH evaluate_call[of reg now raises w w1 stale x] ev by auto
  next
    case False
    then have "wd_active_stale w1 = wd_active_stale w" "calls = calls1"
      using evaluate_no_call[OF ev] c by (auto split: option.splits)
    then show ?thesis using IH by simp
  qed
qed simp

theorem watchdog_reports_changes_only_witness:
  "distinct_adj (([] :: string list) # map reported (snd (watchdog_run (\<lambda>_. False) [(Map.empty, 5), (Map.empty, 9)]
     \<lparr>wd_required_peer_ids = [''r1''], wd_active_stale = [], wd_errors = 0\<rparr>)))"
  using watchdog_reports_changes_only[of "\<lambda>_. False" "[(Map.empty, 5), (Map.empty, 9)]"
      "\<lparr>wd_required_peer_ids = [''r1''], wd_active_stale = [], wd_errors = 0\<rparr>", OF prod.collapse[symmetric]]
  by simp

end
