(* ===== verification/Authority.thy ===== *)
theory Authority
  imports Models
begin

text \<open>
  \<open>authority.py\<close>: the robot-local lease store with its append-only audit events (\<open>grant\<close>,
  \<open>revoke\<close>, \<open>authorize\<close>, \<open>events\<close>), the two fixed policies, and the read-only queries of the
  operator tools (\<open>_effective_status\<close>, \<open>_summary\<close>, \<open>read_authority_leases\<close>, \<open>read_authority_lease\<close>,
  \<open>read_authority_events\<close>) on the same tables. Opening a database file and checking its columns is
  file access and is not modelled.

  The column \<open>capabilities_json\<close> holds JSON text. The source writes it with ASCII escapes, the
  model without; the text is only ever read back by the JSON parser, which gives the same strings.
\<close>

section \<open>Tables\<close>

lemma list_all2_in_set2: "list_all2 P xs ys \<Longrightarrow> y \<in> set ys \<Longrightarrow> \<exists>x\<in>set xs. P x y"
  by (induction rule: list_all2_induct) auto

record lease_row =
  lr_lease_id :: string
  lr_grantor_robot_id :: string
  lr_issuer_id :: string
  lr_capabilities_json :: string
  lr_issued_at_ms :: int
  lr_expires_at_ms :: int
  lr_uncertainty_ms :: int
  lr_revision :: int
  lr_status :: string
  lr_updated_at_ms :: int

record authority_event =
  ae_sequence :: int
  ae_lease_id :: string
  ae_event_type :: string
  ae_revision :: int
  ae_occurred_at_ms :: int
  ae_detail :: string

record authority_store =
  as_robot_id :: string
  as_leases :: "lease_row list"
  as_events :: "authority_event list"

definition authority_open :: "string \<Rightarrow> authority_store res" where
  "authority_open robot =
     (if robot = [] then Inl (ValueError ''authority store robot_id cannot be empty'')
      else Inr \<lparr>as_robot_id = robot, as_leases = [], as_events = []\<rparr>)"

definition find_lease :: "string \<Rightarrow> authority_store \<Rightarrow> lease_row option" where
  "find_lease lid s = find (\<lambda>r. lr_lease_id r = lid) (as_leases s)"

definition capabilities_json :: "string list \<Rightarrow> string" where
  "capabilities_json caps = json_dumps (JArr (map JStr caps))"

text \<open>\<open>AuthorityLease(...)\<close> built from a row, as \<open>authorize\<close> does.\<close>

definition lease_of_row :: "string \<Rightarrow> lease_row \<Rightarrow> authority_lease res" where
  "lease_of_row lid row =
     rbind (rbind (loads_res (lr_capabilities_json row)) as_strs) (\<lambda>caps.
     rbind (lease_status_of (lr_status row)) (\<lambda>st.
     post_init_lease
       \<lparr>lease_id = lid, grantor_robot_id = lr_grantor_robot_id row, lease_issuer_id = lr_issuer_id row,
        lease_capabilities = caps, issued_at_ms = lr_issued_at_ms row, expires_at_ms = lr_expires_at_ms row,
        maximum_clock_uncertainty_ms = lr_uncertainty_ms row, lease_revision = lr_revision row,
        lease_status = st\<rparr>))"

text \<open>\<open>AUTOINCREMENT\<close>: one more than the largest sequence used; events are never deleted.\<close>

definition next_event_sequence :: "authority_event list \<Rightarrow> int" where
  "next_event_sequence evs = fold max (map ae_sequence evs) 0 + 1"

definition append_event :: "string \<Rightarrow> string \<Rightarrow> int \<Rightarrow> int \<Rightarrow> string \<Rightarrow> authority_store \<Rightarrow> authority_store" where
  "append_event lid etype revision now detail s =
     s\<lparr>as_events := as_events s @
        [\<lparr>ae_sequence = next_event_sequence (as_events s), ae_lease_id = lid, ae_event_type = etype,
          ae_revision = revision, ae_occurred_at_ms = now, ae_detail = detail\<rparr>]\<rparr>"

section \<open>Grant and revoke\<close>

definition row_of_lease :: "authority_lease \<Rightarrow> int \<Rightarrow> lease_row" where
  "row_of_lease l now =
     \<lparr>lr_lease_id = lease_id l, lr_grantor_robot_id = grantor_robot_id l, lr_issuer_id = lease_issuer_id l,
      lr_capabilities_json = capabilities_json (lease_capabilities l), lr_issued_at_ms = issued_at_ms l,
      lr_expires_at_ms = expires_at_ms l, lr_uncertainty_ms = maximum_clock_uncertainty_ms l,
      lr_revision = lease_revision l, lr_status = lease_status_value (lease_status l), lr_updated_at_ms = now\<rparr>"

text \<open>\<open>INSERT ... ON CONFLICT(lease_id) DO UPDATE SET ...\<close>: grantor and issuer of an existing row stay.\<close>

definition upsert_lease :: "authority_lease \<Rightarrow> int \<Rightarrow> lease_row list \<Rightarrow> lease_row list" where
  "upsert_lease l now rows =
     (case find (\<lambda>r. lr_lease_id r = lease_id l) rows of
        None \<Rightarrow> rows @ [row_of_lease l now]
      | Some _ \<Rightarrow> upd_where (\<lambda>r. lr_lease_id r = lease_id l)
          (\<lambda>r. (row_of_lease l now)\<lparr>lr_grantor_robot_id := lr_grantor_robot_id r,
                                    lr_issuer_id := lr_issuer_id r\<rparr>) rows)"

definition grant :: "authority_lease \<Rightarrow> int \<Rightarrow> authority_store \<Rightarrow> authority_store res" where
  "grant l now s =
     rbind (require (grantor_robot_id l = as_robot_id s)
              (AuthorizationError ''lease grantor does not match local robot'')) (\<lambda>_.
     rbind (require (lease_status l = LsActive) (ValueError ''new or renewed lease must be active'')) (\<lambda>_.
     rbind (case find_lease (lease_id l) s of
              None \<Rightarrow> Inr ()
            | Some row \<Rightarrow>
                rbind (require (lr_grantor_robot_id row = grantor_robot_id l \<and> lr_issuer_id row = lease_issuer_id l)
                         (AuthorizationError ''lease identity fields are immutable'')) (\<lambda>_.
                rbind (lease_status_of (lr_status row)) (\<lambda>st.
                rbind (require (st \<noteq> LsRevoked)
                         (AuthorizationError ''revoked lease cannot be renewed; use a new lease ID'')) (\<lambda>_.
                require (lease_revision l = lr_revision row + 1)
                         (AuthorizationError ''lease renewal revision must increase by one''))))) (\<lambda>_.
     Inr (append_event (lease_id l) ''grant'' (lease_revision l) now ''lease active''
            (s\<lparr>as_leases := upsert_lease l now (as_leases s)\<rparr>)))))"

definition revoke :: "string \<Rightarrow> int \<Rightarrow> int \<Rightarrow> string \<Rightarrow> authority_store \<Rightarrow> authority_store res" where
  "revoke lid expected now reason s =
     rbind (require (\<not> (py_blank reason \<or> length reason > 1024))
              (ValueError ''revocation reason is required and bounded'')) (\<lambda>_.
     case find_lease lid s of
       None \<Rightarrow> Inl (KeyError lid)
     | Some row \<Rightarrow>
         rbind (require (lr_revision row = expected)
                  (AuthorizationError ''lease revision changed before revocation'')) (\<lambda>_.
         rbind (lease_status_of (lr_status row)) (\<lambda>st.
         rbind (require (st = LsActive)
                  (AuthorizationError ''only an active lease can be revoked'')) (\<lambda>_.
         Inr (append_event lid ''revoke'' (expected + 1) now reason
                (s\<lparr>as_leases := upd_where (\<lambda>r. lr_lease_id r = lid)
                    (\<lambda>r. r\<lparr>lr_status := lease_status_value LsRevoked, lr_revision := expected + 1,
                           lr_updated_at_ms := now\<rparr>) (as_leases s)\<rparr>))))))"

section \<open>Authorization\<close>

definition store_authorize :: "string \<Rightarrow> string \<Rightarrow> assignment \<Rightarrow> int \<Rightarrow> authority_store \<Rightarrow> authority_lease res" where
  "store_authorize issuer robot a now s =
     rbind (require (robot = as_robot_id s)
              (AuthorizationError ''authority store does not belong to target robot'')) (\<lambda>_.
     case authority_lease_id a of
       None \<Rightarrow> Inl (AuthorizationError ''assignment does not present an authority lease'')
     | Some lid \<Rightarrow>
         (case find_lease lid s of
            None \<Rightarrow> Inl (AuthorizationError ''authority lease is unknown'')
          | Some row \<Rightarrow>
              rbind (lease_of_row lid row) (\<lambda>l.
              rbind (require (lease_status l = LsActive)
                       (AuthorizationError (''authority lease is '' @ lease_status_value (lease_status l)))) (\<lambda>_.
              rbind (require (lease_issuer_id l = issuer)
                       (AuthorizationError ''authenticated issuer does not hold the lease'')) (\<lambda>_.
              rbind (require (step_capability (asg_step a) \<in> set (lease_capabilities l))
                       (AuthorizationError ''capability is outside the authority lease scope'')) (\<lambda>_.
              let uncertainty = maximum_clock_uncertainty_ms l in
              rbind (require (\<not> now - uncertainty < issued_at_ms l)
                       (AuthorizationError ''authority lease is not yet valid'')) (\<lambda>_.
              rbind (require (\<not> now + uncertainty \<ge> expires_at_ms l)
                       (AuthorizationError ''authority lease is expired or inside uncertainty bound'')) (\<lambda>_.
              Inr l))))))))"

definition store_events :: "string \<Rightarrow> authority_store \<Rightarrow> (int \<times> string \<times> int \<times> int \<times> string) list" where
  "store_events lid s =
     map (\<lambda>e. (ae_sequence e, ae_event_type e, ae_revision e, ae_occurred_at_ms e, ae_detail e))
       (sort_key ae_sequence (filter (\<lambda>e. ae_lease_id e = lid) (as_events s)))"

text \<open>The policies a participant can hold: the protocol class \<open>AssignmentAuthorizer\<close>.\<close>

datatype authorizer = DenyAll | AllowAll | StoreAuthorizer authority_store

definition authorize :: "string \<Rightarrow> string \<Rightarrow> assignment \<Rightarrow> int \<Rightarrow> authorizer \<Rightarrow> authority_lease option res" where
  "authorize issuer robot a now p = (case p of
      DenyAll \<Rightarrow> Inl (AuthorizationError ''no assignment authority policy is configured'')
    | AllowAll \<Rightarrow> Inr None
    | StoreAuthorizer s \<Rightarrow> rbind (store_authorize issuer robot a now s) (\<lambda>l. Inr (Some l)))"

section \<open>Read-only queries\<close>

definition effective_status :: "authority_lease \<Rightarrow> int \<Rightarrow> string" where
  "effective_status l now =
     (if lease_status l = LsRevoked then ''revoked''
      else if lease_status l = LsExpired then ''expired''
      else let uncertainty = maximum_clock_uncertainty_ms l in
        if now - uncertainty < issued_at_ms l then ''not_yet_valid''
        else if now + uncertainty \<ge> expires_at_ms l then ''expired''
        else ''active'')"

record lease_summary =
  ls_lease :: authority_lease
  ls_effective_status :: string
  ls_updated_at_ms :: int

definition EFFECTIVE_LEASE_STATUSES :: "string list" where
  "EFFECTIVE_LEASE_STATUSES = [''active'', ''not_yet_valid'', ''expired'', ''revoked'']"

text \<open>\<open>_summary\<close>: \<open>TypeError\<close> and \<open>ValueError\<close> (JSON errors included) become \<open>AuthorityReadError\<close>;
  a non-string capability makes \<open>_identifier\<close> raise \<open>AttributeError\<close>, which is not caught.\<close>

definition summary_error :: "error \<Rightarrow> error" where
  "summary_error e = (case e of
      TypeError m \<Rightarrow> AuthorityReadError (''authority lease row is invalid: '' @ m)
    | ValueError m \<Rightarrow> AuthorityReadError (''authority lease row is invalid: '' @ m)
    | _ \<Rightarrow> e)"

definition summary :: "lease_row \<Rightarrow> int \<Rightarrow> lease_summary res" where
  "summary row now =
     (case rbind (loads_res (lr_capabilities_json row)) (\<lambda>v.
           rbind (require (case v of JArr _ \<Rightarrow> True | _ \<Rightarrow> False) (ValueError ''capabilities are not an array'')) (\<lambda>_.
           lease_of_row (lr_lease_id row) row)) of
        Inl e \<Rightarrow> Inl (summary_error e)
      | Inr l \<Rightarrow> Inr \<lparr>ls_lease = l, ls_effective_status = effective_status l now,
                      ls_updated_at_ms = lr_updated_at_ms row\<rparr>)"

definition status_filter :: "string option \<Rightarrow> int \<Rightarrow> lease_row \<Rightarrow> bool" where
  "status_filter f now r = (case f of
      None \<Rightarrow> True
    | Some st \<Rightarrow>
        if st = ''active'' then lr_status r = ''active'' \<and> now - lr_uncertainty_ms r \<ge> lr_issued_at_ms r \<and>
                                now + lr_uncertainty_ms r < lr_expires_at_ms r
        else if st = ''not_yet_valid'' then lr_status r = ''active'' \<and> now - lr_uncertainty_ms r < lr_issued_at_ms r
        else if st = ''expired'' then lr_status r = ''expired'' \<or>
               (lr_status r = ''active'' \<and> now + lr_uncertainty_ms r \<ge> lr_expires_at_ms r)
        else if st = ''revoked'' then lr_status r = ''revoked''
        else True)"

definition read_authority_leases ::
  "string \<Rightarrow> int \<Rightarrow> string option \<Rightarrow> string option \<Rightarrow> int \<Rightarrow> authority_store \<Rightarrow> lease_summary list res" where
  "read_authority_leases robot now eff issuer limit s =
     rbind (require (\<not> py_blank robot) (AuthorityReadError ''robot_id is required'')) (\<lambda>_.
     rbind (require (\<not> now < 0) (AuthorityReadError ''now_ms must be a non-negative integer'')) (\<lambda>_.
     rbind (require (case eff of None \<Rightarrow> True | Some st \<Rightarrow> st \<in> set EFFECTIVE_LEASE_STATUSES)
              (AuthorityReadError ''effective lease status is invalid'')) (\<lambda>_.
     rbind (require (case issuer of None \<Rightarrow> True | Some i \<Rightarrow> \<not> py_blank i)
              (AuthorityReadError ''issuer_id filter is invalid'')) (\<lambda>_.
     rbind (require (1 \<le> limit \<and> limit \<le> 1000)
              (AuthorityReadError ''lease limit must be between 1 and 1000'')) (\<lambda>_.
     rmap (\<lambda>row. summary row now)
       (take (nat limit)
         (sort_key (\<lambda>r. - lr_updated_at_ms r) (sort_key lr_lease_id
           (filter (\<lambda>r. lr_grantor_robot_id r = robot \<and>
                        (case issuer of None \<Rightarrow> True | Some i \<Rightarrow> lr_issuer_id r = i) \<and>
                        status_filter eff now r) (as_leases s))))))))))"

definition read_authority_lease :: "string \<Rightarrow> string \<Rightarrow> int \<Rightarrow> authority_store \<Rightarrow> lease_summary res" where
  "read_authority_lease robot lid now s =
     rbind (require (\<not> py_blank robot) (AuthorityReadError ''robot_id is required'')) (\<lambda>_.
     rbind (require (\<not> py_blank lid) (AuthorityReadError ''lease_id is required'')) (\<lambda>_.
     rbind (require (\<not> now < 0) (AuthorityReadError ''now_ms must be a non-negative integer'')) (\<lambda>_.
     case find (\<lambda>r. lr_grantor_robot_id r = robot \<and> lr_lease_id r = lid) (as_leases s) of
       None \<Rightarrow> Inl (KeyError lid)
     | Some row \<Rightarrow> summary row now)))"

definition read_authority_events ::
  "string \<Rightarrow> string \<Rightarrow> int \<Rightarrow> authority_store \<Rightarrow> (int \<times> string \<times> int \<times> int \<times> string) list res" where
  "read_authority_events robot lid limit s =
     rbind (require (\<not> py_blank robot) (AuthorityReadError ''robot_id is required'')) (\<lambda>_.
     rbind (require (\<not> py_blank lid) (AuthorityReadError ''lease_id is required'')) (\<lambda>_.
     rbind (require (1 \<le> limit \<and> limit \<le> 1000)
              (AuthorityReadError ''event limit must be between 1 and 1000'')) (\<lambda>_.
     case find_lease lid s of
       None \<Rightarrow> Inl (KeyError lid)
     | Some row \<Rightarrow>
         if lr_grantor_robot_id row \<noteq> robot then Inl (KeyError lid)
         else Inr (map (\<lambda>e. (ae_sequence e, ae_event_type e, ae_revision e, ae_occurred_at_ms e, ae_detail e))
                (sort_key ae_sequence (take (nat limit)
                  (sort_key (\<lambda>e. - ae_sequence e) (filter (\<lambda>e. ae_lease_id e = lid) (as_events s)))))))))"

section \<open>What an authorization means\<close>

text \<open>The lease \<open>l\<close> that the store \<open>s\<close> holds under the id an assignment presents allows it now.\<close>

definition lease_permits :: "string \<Rightarrow> string \<Rightarrow> assignment \<Rightarrow> int \<Rightarrow> authority_store \<Rightarrow> authority_lease \<Rightarrow> bool" where
  "lease_permits issuer robot a now s l =
     (as_robot_id s = robot \<and>
      (\<exists>lid row. authority_lease_id a = Some lid \<and> find_lease lid s = Some row \<and> lease_of_row lid row = Inr l) \<and>
      lease_status l = LsActive \<and> lease_issuer_id l = issuer \<and>
      step_capability (asg_step a) \<in> set (lease_capabilities l) \<and>
      issued_at_ms l \<le> now - maximum_clock_uncertainty_ms l \<and>
      now + maximum_clock_uncertainty_ms l < expires_at_ms l)"

lemma store_authorize_iff: "store_authorize issuer robot a now s = Inr l \<longleftrightarrow> lease_permits issuer robot a now s l"
  by (auto simp: store_authorize_def lease_permits_def res_simps Let_def split: option.splits)

definition permits :: "string \<Rightarrow> string \<Rightarrow> assignment \<Rightarrow> int \<Rightarrow> authorizer \<Rightarrow> bool" where
  "permits issuer robot a now p = (case p of
      DenyAll \<Rightarrow> False
    | AllowAll \<Rightarrow> True
    | StoreAuthorizer s \<Rightarrow> (\<exists>l. lease_permits issuer robot a now s l))"

text \<open>The interface a participant relies on: what it may conclude when \<open>authorize\<close> returns.\<close>

locale assignment_authorizer =
  fixes check :: "string \<Rightarrow> string \<Rightarrow> assignment \<Rightarrow> int \<Rightarrow> 'p \<Rightarrow> authority_lease option res"
    and allowed :: "string \<Rightarrow> string \<Rightarrow> assignment \<Rightarrow> int \<Rightarrow> 'p \<Rightarrow> bool"
  assumes check_sound: "check issuer robot a now p = Inr x \<Longrightarrow> allowed issuer robot a now p"
    and check_complete: "allowed issuer robot a now p \<Longrightarrow> \<exists>x. check issuer robot a now p = Inr x"
begin

lemma refused_iff: "(\<exists>e. check issuer robot a now p = Inl e) \<longleftrightarrow> \<not> allowed issuer robot a now p"
  using check_sound check_complete by (metis Inl_Inr_False sumE)

end

interpretation au: assignment_authorizer authorize permits
proof
  show "authorize issuer robot a now p = Inr x \<Longrightarrow> permits issuer robot a now p" for issuer robot a now p x
    by (auto simp: authorize_def permits_def res_simps store_authorize_iff split: authorizer.splits)
  show "permits issuer robot a now p \<Longrightarrow> \<exists>x. authorize issuer robot a now p = Inr x" for issuer robot a now p
    by (auto simp: authorize_def permits_def res_simps store_authorize_iff[symmetric] split: authorizer.splits)
qed

section \<open>Histories of a store\<close>

datatype authority_op = OpGrant authority_lease int | OpRevoke string int int string

fun authority_step :: "authority_op \<Rightarrow> authority_store \<Rightarrow> authority_store" where
  "authority_step (OpGrant l now) s = (case grant l now s of Inr s' \<Rightarrow> s' | Inl _ \<Rightarrow> s)"
| "authority_step (OpRevoke lid expected now reason) s =
     (case revoke lid expected now reason s of Inr s' \<Rightarrow> s' | Inl _ \<Rightarrow> s)"

definition authority_run :: "authority_op list \<Rightarrow> authority_store \<Rightarrow> authority_store" where
  "authority_run ops s = foldl (\<lambda>x op. authority_step op x) s ops"

definition empty_authority :: "string \<Rightarrow> authority_store" where
  "empty_authority robot = \<lparr>as_robot_id = robot, as_leases = [], as_events = []\<rparr>"

lemma find_upsert:
  "find (\<lambda>r. lr_lease_id r = k) (upsert_lease l now rows) =
     (if k = lease_id l
      then Some (case find (\<lambda>r. lr_lease_id r = k) rows of
             None \<Rightarrow> row_of_lease l now
           | Some r \<Rightarrow> (row_of_lease l now)\<lparr>lr_grantor_robot_id := lr_grantor_robot_id r, lr_issuer_id := lr_issuer_id r\<rparr>)
      else find (\<lambda>r. lr_lease_id r = k) rows)"
proof (cases "find (\<lambda>r. lr_lease_id r = lease_id l) rows")
  case None
  then show ?thesis
    by (auto simp: upsert_lease_def find_key_append row_of_lease_def split: option.splits)
next
  case (Some r)
  have "find (\<lambda>r. lr_lease_id r = k) (upsert_lease l now rows) =
      map_option (\<lambda>r. if lr_lease_id r = lease_id l
        then (row_of_lease l now)\<lparr>lr_grantor_robot_id := lr_grantor_robot_id r, lr_issuer_id := lr_issuer_id r\<rparr> else r)
       (find (\<lambda>r. lr_lease_id r = k) rows)"
    unfolding upsert_lease_def Some option.case
    by (induction rows) (auto simp: upd_where_def row_of_lease_def)
  then show ?thesis
    using Some by (auto simp: map_option_case dest: find_key_SomeD split: option.splits)
qed

lemma append_event_simps [simp]:
  "as_leases (append_event lid t r now d s) = as_leases s"
  "as_robot_id (append_event lid t r now d s) = as_robot_id s"
  "find_lease k (append_event lid t r now d s) = find_lease k s"
  by (simp_all add: append_event_def find_lease_def)

text \<open>What one step does to the row of a lease.\<close>

lemma authority_step_find:
  "find_lease k (authority_step op s) = find_lease k s \<and> as_events (authority_step op s) = as_events s \<or>
   (\<exists>l now. op = OpGrant l now \<and> lease_id l = k \<and> lease_status l = LsActive \<and>
      grantor_robot_id l = as_robot_id s \<and>
      find_lease k (authority_step op s) = Some (row_of_lease l now) \<and>
      (\<forall>row. find_lease k s = Some row \<longrightarrow> lease_revision l = lr_revision row + 1 \<and> lr_status row \<noteq> ''revoked'' \<and>
         lr_grantor_robot_id row = grantor_robot_id l \<and> lr_issuer_id row = lease_issuer_id l)) \<or>
   (\<exists>now reason row. op = OpRevoke k (lr_revision row) now reason \<and> find_lease k s = Some row \<and>
      lr_status row = ''active'' \<and>
      find_lease k (authority_step op s) = Some (row\<lparr>lr_status := ''revoked'', lr_revision := lr_revision row + 1,
        lr_updated_at_ms := now\<rparr>)) \<or>
   find_lease k (authority_step op s) = find_lease k s \<and>
     (\<exists>e. ae_lease_id e \<noteq> k \<and> as_events (authority_step op s) = as_events s @ [e])"
proof (cases op)
  case (OpGrant l now)
  show ?thesis
  proof (cases "grant l now s")
    case (Inl e)
    then show ?thesis using OpGrant by simp
  next
    case (Inr s')
    have s': "find_lease k s' = find (\<lambda>r. lr_lease_id r = k) (upsert_lease l now (as_leases s))"
      "\<exists>e. ae_lease_id e = lease_id l \<and> as_events s' = as_events s @ [e]"
      using Inr by (auto simp: grant_def res_simps find_lease_def append_event_def)
    have g: "lease_status l = LsActive" "grantor_robot_id l = as_robot_id s"
      "\<And>row. find_lease (lease_id l) s = Some row \<Longrightarrow> lease_revision l = lr_revision row + 1 \<and> lr_status row \<noteq> ''revoked'' \<and>
         lr_grantor_robot_id row = grantor_robot_id l \<and> lr_issuer_id row = lease_issuer_id l"
      using Inr by (auto simp: grant_def res_simps enum_defs split: if_splits)
    show ?thesis
    proof (cases "lease_id l = k")
      case False
      then show ?thesis using s' OpGrant Inr by (auto simp: find_upsert find_lease_def)
    next
      case True
      have "find_lease k s' = Some (row_of_lease l now)"
        using s'(1) g(3) True by (auto simp: find_upsert find_lease_def row_of_lease_def split: option.splits)
      then show ?thesis using OpGrant Inr True g by auto
    qed
  qed
next
  case (OpRevoke lid expected now reason)
  show ?thesis
  proof (cases "revoke lid expected now reason s")
    case (Inl e)
    then show ?thesis using OpRevoke by simp
  next
    case (Inr s')
    obtain row where row: "find_lease lid s = Some row" "lr_revision row = expected" "lr_status row = ''active''"
      using Inr by (auto simp: revoke_def res_simps enum_defs split: option.splits if_splits)
    have s': "find_lease k s' = map_option (\<lambda>r. if lr_lease_id r = lid then
        r\<lparr>lr_status := ''revoked'', lr_revision := expected + 1, lr_updated_at_ms := now\<rparr> else r) (find_lease k s)"
      "\<exists>e. ae_lease_id e = lid \<and> as_events s' = as_events s @ [e]"
      using Inr row by (auto simp: revoke_def res_simps append_event_def find_lease_def enum_defs
          find_upd_where[where key = lr_lease_id])
    show ?thesis
    proof (cases "lid = k")
      case True
      have "lr_lease_id row = k" using row(1) True by (auto simp: find_lease_def dest: find_key_SomeD)
      then show ?thesis using s' row True OpRevoke Inr by auto
    next
      case False
      have "find_lease k s' = find_lease k s"
        using s'(1) False by (cases "find_lease k s") (auto simp: find_lease_def dest: find_key_SomeD)
      then show ?thesis using s'(2) False OpRevoke Inr by auto
    qed
  qed
qed

lemma revoked_stays:
  assumes "find_lease k s = Some row" "lr_status row = ''revoked''"
  shows "find_lease k (authority_run ops s) = Some row"
  using assms(1) unfolding authority_run_def
proof (induction ops arbitrary: s)
  case (Cons op ops)
  have "find_lease k (authority_step op s) = Some row"
    using authority_step_find[of k op s] Cons.prems assms(2) by auto
  then show ?case using Cons.IH by simp
qed simp

text \<open>a lease authorizes an assignment exactly when the store belongs to the target robot, the
  assignment presents a lease the store knows, that lease is active and held by the authenticated
  issuer, covers the capability of the step, and the present time is inside its window on both sides
  by the declared clock uncertainty.\<close>

theorem authorize_exact:
  "authorize issuer robot a now (StoreAuthorizer s) = Inr (Some l) \<longleftrightarrow>
     as_robot_id s = robot \<and>
     (\<exists>lid row. authority_lease_id a = Some lid \<and> find_lease lid s = Some row \<and> lease_of_row lid row = Inr l) \<and>
     lease_status l = LsActive \<and> lease_issuer_id l = issuer \<and>
     step_capability (asg_step a) \<in> set (lease_capabilities l) \<and>
     issued_at_ms l \<le> now - maximum_clock_uncertainty_ms l \<and>
     now + maximum_clock_uncertainty_ms l < expires_at_ms l"
  using store_authorize_iff[of issuer robot a now s l]
  by (auto simp: authorize_def res_simps lease_permits_def)

text \<open>C9: revocation is final: once a lease row is revoked, no sequence of grants and revocations
  makes an assignment that presents this lease id authorized again, for any issuer at any time.\<close>

theorem revoked_lease_never_authorizes:
  assumes "find_lease lid s = Some row" "lr_status row = ''revoked''" "authority_lease_id a = Some lid"
  shows "\<not> is_ok (authorize issuer robot a now (StoreAuthorizer (authority_run ops s)))"
proof -
  have "find_lease lid (authority_run ops s) = Some row" by (rule revoked_stays[OF assms(1,2)])
  then have "\<not> permits issuer robot a now (StoreAuthorizer (authority_run ops s))"
    using assms(2,3) by (auto simp: permits_def lease_permits_def lease_of_row_def res_simps enum_defs
        dest!: post_init_lease_id)
  then show ?thesis using au.check_sound by (auto simp: is_ok_iff)
qed

definition sample_lease :: authority_lease where
  "sample_lease = \<lparr>lease_id = ''l1'', grantor_robot_id = ''r1'', lease_issuer_id = ''c1'',
     lease_capabilities = [''carry''], issued_at_ms = 1000, expires_at_ms = 9000,
     maximum_clock_uncertainty_ms = 100, lease_revision = 1, lease_status = LsActive\<rparr>"

theorem revoked_lease_never_authorizes_witness:
  "is_ok (authorize ''c1'' ''r1'' (sample_assignment ''a1'' []) 5000
     (StoreAuthorizer (authority_run [OpGrant sample_lease 1000] (empty_authority ''r1'')))) \<and>
   \<not> is_ok (authorize ''c1'' ''r1'' (sample_assignment ''a1'' []) 5000
     (StoreAuthorizer (authority_run [OpGrant (sample_lease\<lparr>lease_revision := 3\<rparr>) 5000]
       (authority_run [OpGrant sample_lease 1000, OpRevoke ''l1'' 1 2000 ''lost''] (empty_authority ''r1'')))))"
proof -
  let ?s = "authority_run [OpGrant sample_lease 1000, OpRevoke ''l1'' 1 2000 ''lost''] (empty_authority ''r1'')"
  let ?row = "(row_of_lease sample_lease 2000)\<lparr>lr_status := ''revoked'', lr_revision := 2\<rparr>"
  have "find_lease ''l1'' ?s = Some ?row" "lr_status ?row = ''revoked''"
    "authority_lease_id (sample_assignment ''a1'' []) = Some ''l1''" by code_simp+
  note never = revoked_lease_never_authorizes[OF this, of "''c1''" "''r1''" 5000
      "[OpGrant (sample_lease\<lparr>lease_revision := 3\<rparr>) 5000]"]
  have "is_ok (authorize ''c1'' ''r1'' (sample_assignment ''a1'' []) 5000
     (StoreAuthorizer (authority_run [OpGrant sample_lease 1000] (empty_authority ''r1''))))" by code_simp
  with never show ?thesis by blast
qed

section \<open>The audit trail\<close>

definition lease_events :: "string \<Rightarrow> authority_store \<Rightarrow> authority_event list" where
  "lease_events k s = filter (\<lambda>e. ae_lease_id e = k) (as_events s)"

text \<open>Events are in sequence order, and those of a lease carry consecutive revisions up to the
  revision of its row.\<close>

definition trail_of :: "string \<Rightarrow> authority_store \<Rightarrow> bool" where
  "trail_of k s = (case find_lease k s of
      None \<Rightarrow> lease_events k s = []
    | Some row \<Rightarrow>
        (\<exists>r0. r0 \<le> lr_revision row \<and> map ae_revision (lease_events k s) = [r0..lr_revision row]) \<and>
        ae_event_type (last (lease_events k s)) = (if lr_status row = ''revoked'' then ''revoke'' else ''grant''))"

definition trail_ok :: "authority_store \<Rightarrow> bool" where
  "trail_ok s = (sorted_wrt (<) (map ae_sequence (as_events s)) \<and> (\<forall>k. trail_of k s))"

lemma trail_of_cong:
  "find_lease k s' = find_lease k s \<Longrightarrow> lease_events k s' = lease_events k s \<Longrightarrow> trail_of k s' = trail_of k s"
  by (cases "find_lease k s") (simp_all add: trail_of_def)

lemma next_sequence_fresh: "e \<in> set evs \<Longrightarrow> ae_sequence e < next_event_sequence evs"
  using fold_max_ge[of "ae_sequence e" "map ae_sequence evs" 0] by (auto simp: next_event_sequence_def)

lemma upto_snoc: "(i :: int) \<le> j + 1 \<Longrightarrow> [i..j] @ [j + 1] = [i..j + 1]"
  by (cases "i \<le> j") (simp_all add: upto_rec2)

text \<open>The event a step appends, exactly.\<close>

lemma authority_step_events:
  assumes "authority_step op s \<noteq> s"
  obtains l now where "op = OpGrant l now"
      "as_events (authority_step op s) = as_events s @ [\<lparr>ae_sequence = next_event_sequence (as_events s),
         ae_lease_id = lease_id l, ae_event_type = ''grant'', ae_revision = lease_revision l,
         ae_occurred_at_ms = now, ae_detail = ''lease active''\<rparr>]"
      "find_lease (lease_id l) (authority_step op s) = Some (row_of_lease l now)"
      "\<And>row. find_lease (lease_id l) s = Some row \<Longrightarrow> lease_revision l = lr_revision row + 1"
      "\<And>k. k \<noteq> lease_id l \<Longrightarrow> find_lease k (authority_step op s) = find_lease k s"
      "lease_status l = LsActive"
  | lid now reason row where "op = OpRevoke lid (lr_revision row) now reason" "find_lease lid s = Some row"
      "as_events (authority_step op s) = as_events s @ [\<lparr>ae_sequence = next_event_sequence (as_events s),
         ae_lease_id = lid, ae_event_type = ''revoke'', ae_revision = lr_revision row + 1,
         ae_occurred_at_ms = now, ae_detail = reason\<rparr>]"
      "find_lease lid (authority_step op s) = Some (row\<lparr>lr_status := ''revoked'', lr_revision := lr_revision row + 1,
         lr_updated_at_ms := now\<rparr>)"
      "\<And>k. k \<noteq> lid \<Longrightarrow> find_lease k (authority_step op s) = find_lease k s"
proof (cases op)
  case (OpGrant l now)
  obtain s' where s': "grant l now s = Inr s'" "authority_step op s = s'"
    using assms OpGrant by (cases "grant l now s") auto
  have ev: "as_events s' = as_events s @ [\<lparr>ae_sequence = next_event_sequence (as_events s),
         ae_lease_id = lease_id l, ae_event_type = ''grant'', ae_revision = lease_revision l,
         ae_occurred_at_ms = now, ae_detail = ''lease active''\<rparr>]"
    and st: "lease_status l = LsActive"
    using s'(1) by (auto simp: grant_def res_simps append_event_def)
  have other: "find_lease k s' = find_lease k s" if "k \<noteq> lease_id l" for k
    using s'(1) that by (auto simp: grant_def res_simps find_lease_def append_event_def find_upsert)
  have "find_lease (lease_id l) s' = Some (row_of_lease l now)"
    "\<And>row. find_lease (lease_id l) s = Some row \<Longrightarrow> lease_revision l = lr_revision row + 1"
    using authority_step_find[of "lease_id l" op s] s'(2) ev OpGrant by auto
  then show ?thesis using that(1)[OF OpGrant] ev other st s'(2) by blast
next
  case (OpRevoke lid expected now reason)
  obtain s' where s': "revoke lid expected now reason s = Inr s'" "authority_step op s = s'"
    using assms OpRevoke by (cases "revoke lid expected now reason s") auto
  obtain row where row: "find_lease lid s = Some row" "expected = lr_revision row"
    "as_events s' = as_events s @ [\<lparr>ae_sequence = next_event_sequence (as_events s),
         ae_lease_id = lid, ae_event_type = ''revoke'', ae_revision = lr_revision row + 1,
         ae_occurred_at_ms = now, ae_detail = reason\<rparr>]"
    using s'(1) by (auto simp: revoke_def res_simps append_event_def split: option.splits)
  have "find_lease lid s' = Some (row\<lparr>lr_status := ''revoked'', lr_revision := lr_revision row + 1, lr_updated_at_ms := now\<rparr>)"
    using authority_step_find[of lid op s] s'(2) row OpRevoke by auto
  moreover have "find_lease k s' = find_lease k s" if "k \<noteq> lid" for k
    using authority_step_find[of k op s] s'(2) row OpRevoke that by auto
  ultimately show ?thesis using that(2)[of lid row now reason] OpRevoke row s'(2) by simp
qed

lemma trail_ok_step:
  assumes ok: "trail_ok s"
  shows "trail_ok (authority_step op s)"
proof (cases "authority_step op s = s")
  case False
  have sorted: "sorted_wrt (<) (map ae_sequence (as_events s) @ [next_event_sequence (as_events s)])"
    using ok next_sequence_fresh by (auto simp: trail_ok_def sorted_wrt_append)
  have old: "trail_of k s" for k using ok by (simp add: trail_ok_def)
  from False show ?thesis
  proof (cases rule: authority_step_events)
    case (1 l now)
    have ev: "lease_events k (authority_step op s) = lease_events k s @ (if k = lease_id l then
        [\<lparr>ae_sequence = next_event_sequence (as_events s), ae_lease_id = lease_id l, ae_event_type = ''grant'',
          ae_revision = lease_revision l, ae_occurred_at_ms = now, ae_detail = ''lease active''\<rparr>] else [])" for k
      by (simp add: lease_events_def 1(2))
    have "\<exists>r0. r0 \<le> lease_revision l \<and> map ae_revision (lease_events (lease_id l) s) @ [lease_revision l] = [r0..lease_revision l]"
    proof (cases "find_lease (lease_id l) s")
      case None
      then have "lease_events (lease_id l) s = []" using old[of "lease_id l"] by (simp add: trail_of_def)
      then show ?thesis by (intro exI[of _ "lease_revision l"]) simp
    next
      case (Some row)
      then obtain r0 where "r0 \<le> lr_revision row" "map ae_revision (lease_events (lease_id l) s) = [r0..lr_revision row]"
        using old[of "lease_id l"] by (auto simp: trail_of_def)
      then show ?thesis using 1(4)[OF Some] upto_snoc[of r0 "lr_revision row"] by (intro exI[of _ r0]) simp
    qed
    then have "trail_of (lease_id l) (authority_step op s)"
      using 1(6) by (simp add: trail_of_def 1(3) ev row_of_lease_def)
    moreover have "trail_of k (authority_step op s)" if "k \<noteq> lease_id l" for k
      using trail_of_cong[OF 1(5)[OF that]] old[of k] that by (simp add: ev)
    ultimately have "trail_of k (authority_step op s)" for k by (cases "k = lease_id l") simp_all
    then show ?thesis using sorted by (simp add: trail_ok_def 1(2))
  next
    case (2 lid now reason row)
    have ev: "lease_events k (authority_step op s) = lease_events k s @ (if k = lid then
        [\<lparr>ae_sequence = next_event_sequence (as_events s), ae_lease_id = lid, ae_event_type = ''revoke'',
          ae_revision = lr_revision row + 1, ae_occurred_at_ms = now, ae_detail = reason\<rparr>] else [])" for k
      by (simp add: lease_events_def 2(3))
    obtain r0 where "r0 \<le> lr_revision row" "map ae_revision (lease_events lid s) = [r0..lr_revision row]"
      using old[of lid] 2(2) by (auto simp: trail_of_def)
    then have "\<exists>r0. r0 \<le> lr_revision row + 1 \<and> map ae_revision (lease_events lid s) @ [lr_revision row + 1] = [r0..lr_revision row + 1]"
      using upto_snoc[of r0 "lr_revision row"] by (intro exI[of _ r0]) simp
    then have "trail_of lid (authority_step op s)" by (simp add: trail_of_def 2(4) ev)
    moreover have "trail_of k (authority_step op s)" if "k \<noteq> lid" for k
      using trail_of_cong[OF 2(5)[OF that]] old[of k] that by (simp add: ev)
    ultimately have "trail_of k (authority_step op s)" for k by (cases "k = lid") simp_all
    then show ?thesis using sorted by (simp add: trail_ok_def 2(3))
  qed
qed (use ok in simp)

lemma trail_ok_run: "trail_ok s \<Longrightarrow> trail_ok (authority_run ops s)"
  unfolding authority_run_def by (induction ops arbitrary: s) (simp_all add: trail_ok_step)

text \<open>the audit trail of a store is complete: for every lease the recorded events, in order, carry
  consecutive revisions that end at the current revision of the lease, one event per change, and
  the lease is revoked exactly when the last event is a revocation.\<close>

lemma authority_audit_trail:
  assumes "find_lease k (authority_run ops (empty_authority robot)) = Some row"
  shows "\<exists>r0\<le>lr_revision row.
     map (\<lambda>(sq, etype, rev, at, detail). rev) (store_events k (authority_run ops (empty_authority robot))) =
       [r0..lr_revision row] \<and>
     (lr_status row = ''revoked'' \<longleftrightarrow>
       fst (snd (last (store_events k (authority_run ops (empty_authority robot))))) = ''revoke'')"
proof -
  let ?s = "authority_run ops (empty_authority robot)"
  have "trail_ok (empty_authority robot)"
    by (simp add: trail_ok_def trail_of_def empty_authority_def find_lease_def lease_events_def)
  then have ok: "trail_ok ?s" by (rule trail_ok_run)
  have "sorted (map ae_sequence (lease_events k ?s))"
    using ok unfolding trail_ok_def lease_events_def
    by (auto simp: sorted_wrt_map intro!: sorted_wrt_filter elim: sorted_wrt_mono_rel[rotated])
  then have ev: "store_events k ?s =
      map (\<lambda>e. (ae_sequence e, ae_event_type e, ae_revision e, ae_occurred_at_ms e, ae_detail e)) (lease_events k ?s)"
    by (simp add: store_events_def lease_events_def[symmetric] sort_key_id_if_sorted)
  obtain r0 where r0: "r0 \<le> lr_revision row" "map ae_revision (lease_events k ?s) = [r0..lr_revision row]"
    and l: "ae_event_type (last (lease_events k ?s)) = (if lr_status row = ''revoked'' then ''revoke'' else ''grant'')"
  proof -
    have "trail_of k ?s" using ok by (simp add: trail_ok_def)
    then show thesis using that by (auto simp: trail_of_def assms)
  qed
  have "lease_events k ?s \<noteq> []" using r0 by auto
  then show ?thesis
    using r0 l by (intro exI[of _ r0]) (simp add: ev comp_def last_map)
qed

theorem authority_audit_trail_witness:
  "\<exists>r0\<le>2. map (\<lambda>(sq, etype, rev, at, detail). rev) (store_events ''l1''
     (authority_run [OpGrant sample_lease 1000, OpRevoke ''l1'' 1 2000 ''lost''] (empty_authority ''r1''))) = [r0..2]"
proof -
  have "find_lease ''l1'' (authority_run [OpGrant sample_lease 1000, OpRevoke ''l1'' 1 2000 ''lost''] (empty_authority ''r1'')) =
    Some ((row_of_lease sample_lease 2000)\<lparr>lr_status := ''revoked'', lr_revision := 2\<rparr>)" by code_simp
  from authority_audit_trail[OF this] show ?thesis by auto
qed

section \<open>Queries\<close>

lemma lease_of_row_fields:
  assumes "lease_of_row lid row = Inr l"
  shows "issued_at_ms l = lr_issued_at_ms row" "expires_at_ms l = lr_expires_at_ms row"
    "maximum_clock_uncertainty_ms l = lr_uncertainty_ms row" "lease_issuer_id l = lr_issuer_id row"
    "lease_status_of (lr_status row) = Inr (lease_status l)"
  using assms by (auto simp: lease_of_row_def res_simps dest!: post_init_lease_id)

lemma lease_status_of_iff: "lease_status_of t = Inr st \<longleftrightarrow> t = lease_status_value st"
  by (cases st) (auto simp: enum_defs split: if_splits)

lemma summary_fields:
  assumes "summary row now = Inr x"
  shows "lease_of_row (lr_lease_id row) row = Inr (ls_lease x)" "ls_effective_status x = effective_status (ls_lease x) now"
  using assms by (auto simp: summary_def res_simps split: sum.splits)

text \<open>every lease that the filtered query returns has the effective status asked for, with one
  exception: asked for expired leases it also returns active ones whose window is narrower than
  twice the clock uncertainty, which the summary itself reports as not yet valid.\<close>

theorem lease_query_status:
  assumes "read_authority_leases robot now (Some st) issuer limit s = Inr xs" "x \<in> set xs"
  shows "ls_effective_status x = st \<or>
     st = ''expired'' \<and> ls_effective_status x = ''not_yet_valid'' \<and>
     expires_at_ms (ls_lease x) - issued_at_ms (ls_lease x) < 2 * maximum_clock_uncertainty_ms (ls_lease x)"
proof -
  let ?F = "\<lambda>r. lr_grantor_robot_id r = robot \<and> (case issuer of None \<Rightarrow> True | Some i \<Rightarrow> lr_issuer_id r = i) \<and>
      status_filter (Some st) now r"
  have st: "st \<in> set EFFECTIVE_LEASE_STATUSES"
    and all2: "list_all2 (\<lambda>row y. summary row now = Inr y) (take (nat limit)
      (sort_key (\<lambda>r. - lr_updated_at_ms r) (sort_key lr_lease_id (filter ?F (as_leases s))))) xs"
    using assms(1) by (auto simp: read_authority_leases_def res_simps)
  obtain row where "row \<in> set (take (nat limit)
      (sort_key (\<lambda>r. - lr_updated_at_ms r) (sort_key lr_lease_id (filter ?F (as_leases s)))))"
    and row: "summary row now = Inr x"
    using list_all2_in_set2[OF all2 assms(2)] by blast
  then have f: "status_filter (Some st) now row" by (auto dest: in_set_takeD)
  note l = lease_of_row_fields[OF summary_fields(1)[OF row]]
  have status: "lr_status row = lease_status_value (lease_status (ls_lease x))"
    using l(5) by (simp add: lease_status_of_iff)
  have "st = ''active'' \<or> st = ''not_yet_valid'' \<or> st = ''expired'' \<or> st = ''revoked''"
    using st by (simp add: EFFECTIVE_LEASE_STATUSES_def)
  then show ?thesis
    using f status l(1-3) unfolding summary_fields(2)[OF row] effective_status_def Let_def status_filter_def
    by (elim disjE; cases "lease_status (ls_lease x)"; simp)
qed

theorem lease_query_status_witness:
  "\<exists>x. read_authority_leases ''r1'' 5000 (Some ''active'') None 10
       (authority_run [OpGrant sample_lease 1000] (empty_authority ''r1'')) = Inr [x] \<and>
     (ls_effective_status x = ''active'' \<or>
      ''active'' = ''expired'' \<and> ls_effective_status x = ''not_yet_valid'' \<and>
      expires_at_ms (ls_lease x) - issued_at_ms (ls_lease x) < 2 * maximum_clock_uncertainty_ms (ls_lease x))"
proof -
  let ?x = "\<lparr>ls_lease = sample_lease, ls_effective_status = ''active'', ls_updated_at_ms = 1000\<rparr>"
  have "read_authority_leases ''r1'' 5000 (Some ''active'') None 10
       (authority_run [OpGrant sample_lease 1000] (empty_authority ''r1'')) = Inr [?x]" by code_simp
  from lease_query_status[OF this] this show ?thesis by force
qed

text \<open>the exception is real: a lease with a window narrower than twice its clock uncertainty is
  returned by the query for expired leases while its summary says not yet valid.\<close>

theorem expired_query_returns_not_yet_valid:
  "\<exists>s x. read_authority_leases ''r1'' 1040 (Some ''expired'') None 10 s = Inr [x] \<and>
         ls_effective_status x = ''not_yet_valid''"
proof -
  let ?l = "sample_lease\<lparr>expires_at_ms := 1100\<rparr>"
  let ?x = "\<lparr>ls_lease = ?l, ls_effective_status = ''not_yet_valid'', ls_updated_at_ms = 1000\<rparr>"
  have "read_authority_leases ''r1'' 1040 (Some ''expired'') None 10
       (authority_run [OpGrant ?l 1000] (empty_authority ''r1'')) = Inr [?x]" by code_simp
  then show ?thesis by force
qed

end
