(* ===== verification/Effects.thy ===== *)
theory Effects
  imports Prelude
begin

text \<open>
  Computations of the two stateful runtimes: from a state to the new state, the effects in order (messages
  published, native calls) and the result or exception. What happened before an exception stays, as in the
  source, where an exception leaves a handler without undoing its earlier writes.
\<close>

type_synonym ('s, 'e, 'a) act = "'s \<Rightarrow> 's \<times> 'e list \<times> 'a res"

definition pret :: "'a \<Rightarrow> ('s, 'e, 'a) act" where
  "pret x p = (p, [], Inr x)"

definition plift :: "'a res \<Rightarrow> ('s, 'e, 'a) act" where
  "plift r p = (p, [], r)"

definition pbind :: "('s, 'e, 'a) act \<Rightarrow> ('a \<Rightarrow> ('s, 'e, 'b) act) \<Rightarrow> ('s, 'e, 'b) act" where
  "pbind f g p = (case f p of (p1, es1, r1) \<Rightarrow>
     (case r1 of
        Inl e \<Rightarrow> (p1, es1, Inl e)
      | Inr x \<Rightarrow> (case g x p1 of (p2, es2, r2) \<Rightarrow> (p2, es1 @ es2, r2))))"

definition pemit :: "'e \<Rightarrow> ('s, 'e, unit) act" where
  "pemit e p = (p, [e], Inr ())"

definition pgets :: "('s \<Rightarrow> 'a) \<Rightarrow> ('s, 'e, 'a) act" where
  "pgets f p = (p, [], Inr (f p))"

definition pmodify :: "('s \<Rightarrow> 's) \<Rightarrow> ('s, 'e, unit) act" where
  "pmodify f p = (f p, [], Inr ())"

lemma pbind_cases:
  assumes "pbind f g p = (q, es, r)"
  obtains e where "f p = (q, es, Inl e)" "r = Inl e"
  | p1 es1 x es2 where "f p = (p1, es1, Inr x)" "g x p1 = (q, es2, r)" "es = es1 @ es2"
  using assms by (auto simp: pbind_def split: prod.splits sum.splits)

lemma pbind_pgets [simp]: "pbind (pgets f) g p = g (f p) p"
  by (simp add: pbind_def pgets_def split: prod.split)

text \<open>A store operation inside a larger state.\<close>

definition pzoom :: "('s \<Rightarrow> 't) \<Rightarrow> ('t \<Rightarrow> 's \<Rightarrow> 's) \<Rightarrow> ('t \<Rightarrow> 't \<times> 'a res) \<Rightarrow> ('s, 'e, 'a) act" where
  "pzoom get put f p = (case f (get p) of (t, r) \<Rightarrow> (put t p, [], r))"

fun pforeach :: "('a \<Rightarrow> ('s, 'e, unit) act) \<Rightarrow> 'a list \<Rightarrow> ('s, 'e, unit) act" where
  "pforeach f [] = pret ()"
| "pforeach f (x # xs) = pbind (f x) (\<lambda>_. pforeach f xs)"

end
