(* ===== verification/Participant.thy ===== *)
theory Participant
  imports Effects Registry Journal_Runs Authority
begin

text \<open>
  \<open>runtime.py\<close>, class \<open>Participant\<close>: the robot side of the protocol. Its state is the record
  \<open>participant\<close>; a handler is a function from that state to the new state, the effects in order
  (messages published, native actions started or cancelled) and the result or exception. State
  changes and messages made before an exception stay, as in the source.

  Manufacturer code, the JSON Schema validator, the clock and \<open>uuid4\<close> are arguments (the record
  \<open>native\<close>): what the adapter answers to the calls of one handler, the i-th reading of the clock, the
  id of a message. The thread pool is explicit: \<open>on_assignment\<close> puts accepted work in \<open>pa_queue\<close>,
  \<open>start_execution\<close> and \<open>finish_execution\<close> are separate steps that other handlers may interleave with;
  without workers the handler runs both itself. Published envelopes are the canonical ones, after
  \<open>encode_envelope\<close> and \<open>decode_envelope\<close>; delivery to subscribers is not part of the step.
\<close>

section \<open>State, effects, and the manufacturer's side\<close>

record participant =
  pa_robot_id :: string
  pa_session_id :: string
  pa_sequences :: "string \<Rightarrow> int"
  pa_last_manifest :: "manifest option"
  pa_last_safety :: "safety option"
  pa_journal :: journal
  pa_authorizer :: authorizer
  pa_workers :: nat
  pa_queue :: "(assignment \<times> envelope) list"
  pa_running :: "(assignment \<times> envelope) list"

datatype effect =
    Published envelope
  | NativeAccept assignment
  | NativeCancel string string

record native =
  nat_manifest :: "nat \<Rightarrow> manifest res"
  nat_state :: "robot_state res"
  nat_accept :: "assignment \<Rightarrow> outcome res"
  nat_cancel :: "string \<Rightarrow> string \<Rightarrow> (bool \<times> string) res"
  schema_valid :: "json \<Rightarrow> bool"
  conforms :: "json \<Rightarrow> json \<Rightarrow> bool"
  clock :: "nat \<Rightarrow> int"
  uuid :: "string \<Rightarrow> int \<Rightarrow> string"
  sha :: "string \<Rightarrow> string"

type_synonym 'a pm = "(participant, effect, 'a) act"

section \<open>Start-up and publication\<close>

definition participant_init :: "string \<Rightarrow> string \<Rightarrow> journal \<Rightarrow> authorizer \<Rightarrow> int \<Rightarrow> participant res" where
  "participant_init robot session j az workers =
     rbind (require (0 \<le> workers \<and> workers \<le> 32) (ValueError ''execution_workers must be between 0 and 32'')) (\<lambda>_.
     Inr \<lparr>pa_robot_id = robot, pa_session_id = session, pa_sequences = (\<lambda>_. 0), pa_last_manifest = None,
          pa_last_safety = None, pa_journal = j, pa_authorizer = az, pa_workers = nat workers,
          pa_queue = [], pa_running = []\<rparr>)"

definition send :: "native \<Rightarrow> string \<Rightarrow> json \<Rightarrow> int \<Rightarrow> string option \<Rightarrow> string \<Rightarrow> unit pm" where
  "send nv mtype body now corr strm =
     pbind (pmodify (\<lambda>p. p\<lparr>pa_sequences := (pa_sequences p)(strm := pa_sequences p strm + 1)\<rparr>)) (\<lambda>_.
     pbind (pgets (\<lambda>p. make_envelope (uuid nv strm (pa_sequences p strm)) mtype (pa_robot_id p) (pa_session_id p)
                     (pa_sequences p strm) now body corr strm)) (\<lambda>e.
     pbind (plift (rbind (encode_envelope e) decode_envelope)) (\<lambda>canonical.
     pemit (Published canonical))))"

definition state_snapshot :: "native \<Rightarrow> robot_state option \<Rightarrow> robot_state pm" where
  "state_snapshot nv st =
     pbind (plift (case st of None \<Rightarrow> nat_state nv | Some s \<Rightarrow> Inr s)) (\<lambda>s.
     pbind (pgets pa_robot_id) (\<lambda>rid.
     pbind (plift (require (st_robot_id s = rid) (ValueError ''adapter state robot identity differs''))) (\<lambda>_.
     pret s)))"

definition manifest_snapshot :: "native \<Rightarrow> manifest option \<Rightarrow> manifest pm" where
  "manifest_snapshot nv mf =
     pbind (plift (case mf of None \<Rightarrow> nat_manifest nv 0 | Some m \<Rightarrow> Inr m)) (\<lambda>m.
     pbind (pgets pa_robot_id) (\<lambda>rid.
     pbind (plift (require (mf_robot_id m = rid) (ValueError ''adapter manifest robot identity differs''))) (\<lambda>_.
     pbind (plift (require (list_all (\<lambda>c. schema_valid nv (cap_input_schema c) \<and> schema_valid nv (cap_output_schema c))
                     (mf_capabilities m)) (NativeError ''SchemaError''))) (\<lambda>_.
     pret m))))"

definition publish_manifest :: "native \<Rightarrow> int \<Rightarrow> manifest option \<Rightarrow> bool \<Rightarrow> bool pm" where
  "publish_manifest nv now mf force =
     pbind (manifest_snapshot nv mf) (\<lambda>m.
     pbind (pgets pa_last_manifest) (\<lambda>prev.
     if \<not> force \<and> prev = Some m then pret False
     else pbind (send nv ''manifest'' (manifest_payload m) now None OPERATIONAL_STREAM) (\<lambda>_.
          pbind (pmodify (\<lambda>p. p\<lparr>pa_last_manifest := Some m\<rparr>)) (\<lambda>_.
          pret True))))"

definition publish_state :: "native \<Rightarrow> int \<Rightarrow> string option \<Rightarrow> robot_state option \<Rightarrow> unit pm" where
  "publish_state nv now corr st =
     pbind (state_snapshot nv st) (\<lambda>s.
     pbind (pgets pa_last_safety) (\<lambda>prev.
     pbind (if prev \<noteq> None \<and> prev \<noteq> Some (st_safety s)
            then send nv ''state'' (state_payload s) now corr SAFETY_STREAM else pret ()) (\<lambda>_.
     pbind (pmodify (\<lambda>p. p\<lparr>pa_last_safety := Some (st_safety s)\<rparr>)) (\<lambda>_.
     send nv ''state'' (state_payload s) now corr OPERATIONAL_STREAM))))"

definition publish_safety_state :: "native \<Rightarrow> int \<Rightarrow> string option \<Rightarrow> robot_state option \<Rightarrow> unit pm" where
  "publish_safety_state nv now corr st =
     pbind (state_snapshot nv st) (\<lambda>s.
     pbind (pmodify (\<lambda>p. p\<lparr>pa_last_safety := Some (st_safety s)\<rparr>)) (\<lambda>_.
     send nv ''state'' (state_payload s) now corr SAFETY_STREAM))"

definition announce :: "native \<Rightarrow> int \<Rightarrow> manifest option \<Rightarrow> robot_state option \<Rightarrow> unit pm" where
  "announce nv now mf st =
     pbind (publish_manifest nv now mf True) (\<lambda>_. publish_state nv now None st)"

section \<open>Assignments\<close>

definition send_outcome :: "native \<Rightarrow> outcome \<Rightarrow> int \<Rightarrow> envelope \<Rightarrow> unit pm" where
  "send_outcome nv oc now e = send nv ''outcome'' (outcome_payload oc) now (correlation_id e) OPERATIONAL_STREAM"

definition acknowledge :: "native \<Rightarrow> string \<Rightarrow> assignment_status \<Rightarrow> string \<Rightarrow> envelope \<Rightarrow> int \<Rightarrow> unit pm" where
  "acknowledge nv aid st descr e now =
     pbind (pgets pa_robot_id) (\<lambda>rid.
     pbind (plift (post_init_acknowledgement \<lparr>ack_assignment_id = aid, ack_robot_id = rid, ack_status = st,
              ack_description = descr\<rparr>)) (\<lambda>a.
     send nv ''assignment_ack'' (acknowledgement_payload a) now (correlation_id e) OPERATIONAL_STREAM))"

text \<open>An acknowledgement followed by the outcome of the same status.\<close>

definition refuse :: "native \<Rightarrow> string \<Rightarrow> assignment_status \<Rightarrow> string \<Rightarrow> string \<Rightarrow> envelope \<Rightarrow> int \<Rightarrow> unit pm" where
  "refuse nv aid st ack_descr out_descr e now =
     pbind (acknowledge nv aid st ack_descr e now) (\<lambda>_.
     pbind (pgets pa_robot_id) (\<lambda>rid.
     pbind (plift (mk_outcome aid rid False out_descr (Some st) (JObj []))) (\<lambda>oc.
     send_outcome nv oc now e)))"

definition reject :: "native \<Rightarrow> assignment \<Rightarrow> envelope \<Rightarrow> string \<Rightarrow> int \<Rightarrow> unit pm" where
  "reject nv a e descr now = refuse nv (assignment_id a) AsRejected descr descr e now"

definition pclaim :: "native \<Rightarrow> assignment \<Rightarrow> string \<Rightarrow> int \<Rightarrow> claim_result pm" where
  "pclaim nv a issuer now p =
     (case j_claim (sha nv) a issuer now (pa_journal p) of
        Inl e \<Rightarrow> (p, [], Inl e)
      | Inr (j, c) \<Rightarrow> (p\<lparr>pa_journal := j\<rparr>, [], Inr c))"

definition pcomplete :: "native \<Rightarrow> assignment \<Rightarrow> outcome \<Rightarrow> int \<Rightarrow> unit pm" where
  "pcomplete nv a oc now p =
     (case j_complete (sha nv) a oc now (pa_journal p) of
        Inl e \<Rightarrow> (p, [], Inl e)
      | Inr j \<Rightarrow> (p\<lparr>pa_journal := j\<rparr>, [], Inr ()))"

definition error_message :: "error \<Rightarrow> string" where
  "error_message e = (case e of
      ValueError m \<Rightarrow> m | TypeError m \<Rightarrow> m | KeyError m \<Rightarrow> m | AttributeError m \<Rightarrow> m | RuntimeError m \<Rightarrow> m
    | AuthorizationError m \<Rightarrow> m | AuthorityReadError m \<Rightarrow> m | PlanValidationError m \<Rightarrow> m
    | ProtocolDecodeError m \<Rightarrow> m | NetworkProtocolError m \<Rightarrow> m | PeerIdentityError m \<Rightarrow> m | ReplayError m \<Rightarrow> m
    | DeliveryAcknowledgementError m \<Rightarrow> m | OutboxFullError m \<Rightarrow> m | InboxConflictError m \<Rightarrow> m
    | IntegrityError m \<Rightarrow> m | InspectorStoreError m \<Rightarrow> m | CredentialError m \<Rightarrow> m | TaskAuthorizationError m \<Rightarrow> m
    | NativeError m \<Rightarrow> m)"

text \<open>\<open>type(error).__name__\<close>; an exception of manufacturer code is named by its class.\<close>

definition error_name :: "error \<Rightarrow> string" where
  "error_name e = (case e of
      ValueError _ \<Rightarrow> ''ValueError'' | TypeError _ \<Rightarrow> ''TypeError'' | KeyError _ \<Rightarrow> ''KeyError''
    | AttributeError _ \<Rightarrow> ''AttributeError'' | RuntimeError _ \<Rightarrow> ''RuntimeError''
    | NativeError n \<Rightarrow> n | _ \<Rightarrow> ''Exception'')"

text \<open>The \<open>try\<close> block of \<open>_execute_assignment\<close>: the adapter's outcome, checked.\<close>

definition native_outcome :: "native \<Rightarrow> string \<Rightarrow> assignment \<Rightarrow> outcome res" where
  "native_outcome nv robot a =
     rbind (nat_accept nv a) (\<lambda>oc.
     rbind (require (oc_assignment_id oc = assignment_id a)
              (ValueError ''adapter outcome assignment identity differs'')) (\<lambda>_.
     rbind (require (oc_robot_id oc = robot) (ValueError ''adapter outcome robot identity differs'')) (\<lambda>_.
     rbind (nat_manifest nv 1) (\<lambda>mf.
     case manifest_capability mf (step_capability (asg_step a)) of
       None \<Rightarrow> Inl (ValueError ''adapter no longer advertises the assigned capability'')
     | Some cap \<Rightarrow>
         rbind (if oc_status oc = AsSucceeded
                then rbind (require (schema_valid nv (cap_output_schema cap)) (NativeError ''SchemaError'')) (\<lambda>_.
                     require (conforms nv (cap_output_schema cap) (oc_outputs oc)) (NativeError ''ValidationError''))
                else Inr ()) (\<lambda>_.
         Inr oc)))))"

definition executed_outcome :: "native \<Rightarrow> string \<Rightarrow> assignment \<Rightarrow> outcome res" where
  "executed_outcome nv robot a =
     (case native_outcome nv robot a of
        Inr oc \<Rightarrow> Inr oc
      | Inl err \<Rightarrow> mk_outcome (assignment_id a) robot False
          (''Native adapter outcome is unknown after '' @ error_name err) (Some AsUnknown) (JObj []))"

definition finish_assignment :: "native \<Rightarrow> assignment \<Rightarrow> envelope \<Rightarrow> unit pm" where
  "finish_assignment nv a e =
     pbind (pgets pa_robot_id) (\<lambda>rid.
     pbind (plift (executed_outcome nv rid a)) (\<lambda>oc0.
     let now = clock nv 1 in
     pbind (pbind (pgets pa_journal) (\<lambda>j. plift (j_lookup (assignment_id a) j))) (\<lambda>latest.
     pbind (case latest of
              Some rec \<Rightarrow> (case jr_outcome rec of
                  Some oc \<Rightarrow> pret oc
                | None \<Rightarrow> pbind (pcomplete nv a oc0 now) (\<lambda>_. pret oc0))
            | None \<Rightarrow> pbind (pcomplete nv a oc0 now) (\<lambda>_. pret oc0)) (\<lambda>oc.
     pbind (send_outcome nv oc now e) (\<lambda>_.
     publish_state nv now (correlation_id e) None)))))"

definition execute_assignment :: "native \<Rightarrow> assignment \<Rightarrow> envelope \<Rightarrow> unit pm" where
  "execute_assignment nv a e = pbind (pemit (NativeAccept a)) (\<lambda>_. finish_assignment nv a e)"

text \<open>What follows a claim, for each kind of answer.\<close>

definition after_claim :: "native \<Rightarrow> assignment \<Rightarrow> envelope \<Rightarrow> int \<Rightarrow> claim_result \<Rightarrow> unit pm" where
  "after_claim nv a e now c =
     (case claim_kind c of
        CkReplay \<Rightarrow>
          (case claim_outcome c of
             None \<Rightarrow> plift (Inl (RuntimeError ''AssertionError''))
           | Some oc \<Rightarrow>
               pbind (acknowledge nv (assignment_id a) (oc_status oc)
                        ''Stored terminal outcome replayed without native execution'' e now) (\<lambda>_.
               send_outcome nv oc now e))
      | CkConflict \<Rightarrow>
          refuse nv (assignment_id a) AsRejected ''Assignment ID was previously bound to a different payload''
            ''Idempotency conflict: assignment ID reused with different content'' e now
      | CkResourceConflict \<Rightarrow>
          refuse nv (assignment_id a) AsRejected ''One or more robot-local resources are reserved by active work''
            ''Robot-local resource reservation conflict'' e now
      | CkUncertain \<Rightarrow>
          refuse nv (assignment_id a) AsUnknown
            ''Previous execution may have occurred; operator reconciliation is required''
            ''Execution outcome is unknown after interruption; not retried'' e now
      | CkNew \<Rightarrow>
          pbind (acknowledge nv (assignment_id a) AsAccepted
                   ''Assignment durably accepted for native adapter execution'' e now) (\<lambda>_.
          pbind (pgets pa_workers) (\<lambda>workers.
          if workers > 0 then pmodify (\<lambda>p. p\<lparr>pa_queue := pa_queue p @ [(a, e)]\<rparr>)
          else execute_assignment nv a e)))"

definition on_assignment :: "native \<Rightarrow> envelope \<Rightarrow> unit pm" where
  "on_assignment nv e =
     pbind (pgets pa_robot_id) (\<lambda>rid.
     pbind (plift (rbind (jitem (env_payload e) ''step'') (\<lambda>st. jitem st ''assigned_robot_id''))) (\<lambda>target.
     if target \<noteq> JStr rid then pret ()
     else
       pbind (plift (decode_assignment_value (env_payload e))) (\<lambda>a.
       let now = clock nv 0; step = asg_step a in
       if (case not_before_ms step of None \<Rightarrow> False | Some t \<Rightarrow> now < t)
       then reject nv a e ''Assignment execution window has not opened'' now
       else if (case step_deadline_ms step of None \<Rightarrow> False | Some t \<Rightarrow> now > t)
       then reject nv a e ''Assignment deadline has passed'' now
       else
         pbind (pgets pa_authorizer) (\<lambda>az.
         case authorize (source_id e) rid a now az of
           Inl (AuthorizationError m) \<Rightarrow> reject nv a e (''Assignment authority rejected: '' @ m) now
         | Inl err \<Rightarrow> plift (Inl err)
         | Inr _ \<Rightarrow>
             pbind (plift (nat_manifest nv 0)) (\<lambda>mf.
             case manifest_capability mf (step_capability step) of
               None \<Rightarrow> reject nv a e ''Assignment requests an unadvertised capability'' now
             | Some cap \<Rightarrow>
                 if \<not> (schema_valid nv (cap_input_schema cap) \<and> conforms nv (cap_input_schema cap) (step_inputs step))
                 then reject nv a e ''Assignment input does not conform to the advertised schema'' now
                 else pbind (pclaim nv a (source_id e) now) (after_claim nv a e now))))))"

text \<open>The thread pool: a worker takes a queued task and calls the adapter; later it completes.\<close>

definition start_execution :: "nat \<Rightarrow> unit pm" where
  "start_execution i p =
     (if i < length (pa_queue p)
      then (p\<lparr>pa_queue := take i (pa_queue p) @ drop (Suc i) (pa_queue p),
              pa_running := pa_running p @ [pa_queue p ! i]\<rparr>, [NativeAccept (fst (pa_queue p ! i))], Inr ())
      else (p, [], Inr ()))"

definition finish_execution :: "native \<Rightarrow> nat \<Rightarrow> unit pm" where
  "finish_execution nv i =
     pbind (pgets pa_running) (\<lambda>running.
     if i < length running
     then pbind (pmodify (\<lambda>p. p\<lparr>pa_running := take i running @ drop (Suc i) running\<rparr>)) (\<lambda>_.
          finish_assignment nv (fst (running ! i)) (snd (running ! i)))
     else pret ())"

section \<open>Queries and cancellation\<close>

definition plookup :: "string \<Rightarrow> journal_record option pm" where
  "plookup aid = pbind (pgets pa_journal) (\<lambda>j. plift (j_lookup aid j))"

definition on_assignment_query :: "native \<Rightarrow> envelope \<Rightarrow> unit pm" where
  "on_assignment_query nv e =
     pbind (plift (rbind (rbind (jitem (env_payload e) ''assignment_id'') as_str) (\<lambda>aid.
                   rbind (rbind (jitem (env_payload e) ''robot_id'') as_str) (\<lambda>rid.
                   post_init_query \<lparr>query_assignment_id = aid, query_robot_id = rid\<rparr>)))) (\<lambda>q.
     pbind (pgets pa_robot_id) (\<lambda>rid.
     if query_robot_id q \<noteq> rid then pret ()
     else pbind (plookup (query_assignment_id q)) (\<lambda>found.
       case found of
         None \<Rightarrow> pret ()
       | Some rec \<Rightarrow>
           if jr_issuer_id rec \<noteq> source_id e then pret ()
           else
             pbind (plift (post_init_snapshot \<lparr>sn_assignment_id = query_assignment_id q, sn_robot_id = rid,
                      sn_status = jr_status rec,
                      sn_description = (case jr_outcome rec of Some oc \<Rightarrow> oc_description oc
                                        | None \<Rightarrow> ''Participant journal has no terminal outcome''),
                      sn_fingerprint = jr_fingerprint rec, sn_outcome = jr_outcome rec\<rparr>)) (\<lambda>sn.
             send nv ''assignment_snapshot'' (snapshot_payload sn) (clock nv 0) (correlation_id e) OPERATIONAL_STREAM))))"

definition send_cancellation_ack ::
  "native \<Rightarrow> cancellation_request \<Rightarrow> cancellation_status \<Rightarrow> string \<Rightarrow> envelope \<Rightarrow> int \<Rightarrow> unit pm" where
  "send_cancellation_ack nv request st descr e now =
     pbind (pgets pa_robot_id) (\<lambda>rid.
     pbind (plift (post_init_cancellation_ack \<lparr>ca_assignment_id = cr_assignment_id request, ca_robot_id = rid,
              ca_status = st, ca_description = descr\<rparr>)) (\<lambda>ack.
     send nv ''cancellation_ack'' (cancellation_ack_payload ack) now (correlation_id e) OPERATIONAL_STREAM))"

definition on_cancellation_request :: "native \<Rightarrow> envelope \<Rightarrow> unit pm" where
  "on_cancellation_request nv e =
     pbind (plift (rbind (rbind (jitem (env_payload e) ''assignment_id'') as_str) (\<lambda>aid.
                   rbind (rbind (jitem (env_payload e) ''robot_id'') as_str) (\<lambda>rid.
                   rbind (rbind (jitem (env_payload e) ''reason'') as_str) (\<lambda>reason.
                   post_init_cancellation_request
                     \<lparr>cr_assignment_id = aid, cr_robot_id = rid, cr_reason = reason\<rparr>))))) (\<lambda>request.
     pbind (pgets pa_robot_id) (\<lambda>rid.
     if cr_robot_id request \<noteq> rid then pret ()
     else pbind (plookup (cr_assignment_id request)) (\<lambda>found.
       case found of
         None \<Rightarrow> pret ()
       | Some rec \<Rightarrow>
           if jr_issuer_id rec \<noteq> source_id e then pret ()
           else (case jr_outcome rec of
               Some oc \<Rightarrow>
                 pbind (send_cancellation_ack nv request CsAlreadyTerminal
                          ''Assignment already has a terminal outcome'' e (clock nv 0)) (\<lambda>_.
                 send_outcome nv oc (clock nv 1) e)
             | None \<Rightarrow>
                 if jr_status rec = AsUnknown
                 then send_cancellation_ack nv request CsUnknown
                        ''Assignment execution state is unknown; cancellation cannot be confirmed'' e (clock nv 0)
                 else
                   pbind (pemit (NativeCancel (cr_assignment_id request) (cr_reason request))) (\<lambda>_.
                   pbind (plift (nat_cancel nv (cr_assignment_id request) (cr_reason request))) (\<lambda>answer.
                   if \<not> fst answer
                   then send_cancellation_ack nv request CsRejected (snd answer) e (clock nv 0)
                   else
                     let now = clock nv 0 in
                     pbind (plift (mk_outcome (cr_assignment_id request) rid False (snd answer) (Some AsCancelled) (JObj []))) (\<lambda>oc.
                     pbind (pcomplete nv (jr_assignment rec) oc now) (\<lambda>_.
                     pbind (send_cancellation_ack nv request CsAccepted (snd answer) e (clock nv 1)) (\<lambda>_.
                     send_outcome nv oc now e)))))))))"

end
