(* ===== verification/Participant_Runs.thy ===== *)
theory Participant_Runs
  imports Participant
begin

text \<open>
  Runs of the participant: the invariant that ties the tasks of the thread pool and the native actions
  started so far to the durable journal, its preservation by every handler and by a restart, and the
  guarantees that follow for any sequence of messages, worker steps and restarts.
\<close>

section \<open>Frames\<close>

definition natives :: "effect list \<Rightarrow> string list" where
  "natives es = concat (map (\<lambda>e. case e of NativeAccept a \<Rightarrow> [assignment_id a] | _ \<Rightarrow> []) es)"

lemma natives_simps [simp]:
  "natives [] = []" "natives (es @ fs) = natives es @ natives fs"
  "natives (Published x # es) = natives es" "natives (NativeCancel k s # es) = natives es"
  "natives (NativeAccept a # es) = assignment_id a # natives es"
  by (simp_all add: natives_def)

text \<open>A quiet computation publishes messages and starts nothing; journal and tasks stay.\<close>

definition same_core :: "participant \<Rightarrow> participant \<Rightarrow> bool" where
  "same_core p q = (pa_journal q = pa_journal p \<and> pa_queue q = pa_queue p \<and> pa_running q = pa_running p \<and>
     pa_robot_id q = pa_robot_id p \<and> pa_workers q = pa_workers p \<and> pa_authorizer q = pa_authorizer p)"

definition quiet :: "'a pm \<Rightarrow> bool" where
  "quiet f = (\<forall>p q es r. f p = (q, es, r) \<longrightarrow> same_core p q \<and> natives es = [])"

lemma same_core_refl [simp]: "same_core p p"
  by (simp add: same_core_def)

lemma same_core_trans: "same_core p q \<Longrightarrow> same_core q s \<Longrightarrow> same_core p s"
  by (simp add: same_core_def)

named_theorems quiet_intros \<open>computations that keep journal and tasks\<close>

lemma quiet_pret [quiet_intros, simp]: "quiet (pret x)"
  by (simp add: quiet_def pret_def)

lemma quiet_plift [quiet_intros, simp]: "quiet (plift r)"
  by (simp add: quiet_def plift_def)

lemma quiet_pgets [quiet_intros, simp]: "quiet (pgets f)"
  by (simp add: quiet_def pgets_def)

lemma quiet_pbind [quiet_intros]: "quiet f \<Longrightarrow> (\<And>x. quiet (g x)) \<Longrightarrow> quiet (pbind f g)"
  unfolding quiet_def by (auto elim!: pbind_cases dest: same_core_trans) (metis same_core_trans)+

lemma quiet_send [quiet_intros]: "quiet (send nv t b now c s)"
  unfolding quiet_def send_def
  by (auto simp: pmodify_def pgets_def plift_def pemit_def same_core_def elim!: pbind_cases)

lemma quiet_if [quiet_intros]: "quiet f \<Longrightarrow> quiet g \<Longrightarrow> quiet (if b then f else g)"
  by simp

lemma quiet_emit_cancel [quiet_intros]: "quiet (pemit (NativeCancel k s))"
  by (simp add: quiet_def pemit_def)

lemma quiet_modify_publication [quiet_intros]:
  "quiet (pmodify (\<lambda>p. p\<lparr>pa_last_safety := s\<rparr>))" "quiet (pmodify (\<lambda>p. p\<lparr>pa_last_manifest := m\<rparr>))"
  by (simp_all add: quiet_def pmodify_def same_core_def)

lemma quiet_messages [quiet_intros]:
  "quiet (send_outcome nv oc now e)" "quiet (acknowledge nv aid st d e now)"
  "quiet (refuse nv aid st d d' e now)" "quiet (reject nv a e d now)"
  "quiet (send_cancellation_ack nv req cst d e now)" "quiet (state_snapshot nv rs)"
  "quiet (manifest_snapshot nv mf)" "quiet (publish_state nv now c rs)" "quiet (plookup k)"
  "quiet (publish_safety_state nv now c rs)"
  by (simp_all add: send_outcome_def acknowledge_def refuse_def reject_def send_cancellation_ack_def
      state_snapshot_def manifest_snapshot_def publish_state_def plookup_def publish_safety_state_def quiet_intros)

lemma quiet_publish_manifest [quiet_intros]:
  "quiet (publish_manifest nv now mf force)" "quiet (announce nv now mf rs)"
  by (simp_all add: publish_manifest_def announce_def quiet_intros)

lemma quietD: "quiet f \<Longrightarrow> f p = (q, es, r) \<Longrightarrow> same_core p q \<and> natives es = []"
  unfolding quiet_def by blast

lemma quiet_query: "quiet (on_assignment_query nv e)"
  unfolding on_assignment_query_def by (auto intro!: quiet_intros split: option.splits)

section \<open>Invariant\<close>

text \<open>What the manufacturer's code promises: an \<open>Outcome\<close> is a constructed one. The digest is the same
  function in all steps.\<close>

definition native_ok :: "(string \<Rightarrow> string) \<Rightarrow> native \<Rightarrow> bool" where
  "native_ok digest nv = (sha nv = digest \<and>
     (\<forall>a oc. nat_accept nv a = Inr oc \<longrightarrow> valid_outcome oc \<and> wf_json (oc_outputs oc)))"

abbreviation pview :: "participant \<Rightarrow> journal_view" where
  "pview p \<equiv> j_view (pa_journal p)"

text \<open>An assignment the participant has accepted: the journal holds its record.\<close>

definition held :: "(string \<Rightarrow> string) \<Rightarrow> journal_view \<Rightarrow> assignment \<Rightarrow> bool" where
  "held digest v a = (wf_assignment a \<and>
     (\<exists>r. jv_records v (assignment_id a) = Some r \<and> jr_assignment r = canon_assignment a \<and>
          jr_fingerprint r = assignment_fingerprint digest a))"

definition task_ids :: "(assignment \<times> envelope) list \<Rightarrow> string list" where
  "task_ids ts = map (\<lambda>t. assignment_id (fst t)) ts"

definition PInv :: "(string \<Rightarrow> string) \<Rightarrow> participant \<Rightarrow> string list \<Rightarrow> bool" where
  "PInv digest p tr =
     (j_inv digest (pa_journal p) \<and> view_from digest {a. wf_assignment a} (pview p) \<and>
      distinct (tr @ task_ids (pa_queue p)) \<and>
      (\<forall>k\<in>set tr. jv_records (pview p) k \<noteq> None) \<and>
      (\<forall>t\<in>set (pa_queue p) \<union> set (pa_running p). held digest (pview p) (fst t)))"

text \<open>\<open>H\<close> is a set of assignments that are known to be held when the step starts.\<close>

definition steps_to :: "(string \<Rightarrow> string) \<Rightarrow> assignment set \<Rightarrow> participant \<Rightarrow> effect list \<Rightarrow> participant \<Rightarrow> bool" where
  "steps_to digest H p es q =
     (\<forall>tr. PInv digest p tr \<longrightarrow> (\<forall>a\<in>H. held digest (pview p) a) \<longrightarrow>
        PInv digest q (tr @ natives es) \<and> view_le (pview p) (pview q))"

lemma held_mono: "held digest v a \<Longrightarrow> view_le v w \<Longrightarrow> held digest w a"
  unfolding held_def by (auto elim!: view_leD)

lemma held_known: "held digest v a \<Longrightarrow> jv_records v (assignment_id a) \<noteq> None"
  unfolding held_def by auto

lemma view_le_known: "view_le v w \<Longrightarrow> jv_records v k \<noteq> None \<Longrightarrow> jv_records w k \<noteq> None"
  by (auto elim: view_leD)

lemma held_agrees: "held digest v a \<Longrightarrow> agrees digest a v"
  unfolding held_def agrees_def by auto

lemma steps_to_quiet: "same_core p q \<Longrightarrow> natives es = [] \<Longrightarrow> steps_to digest H p es q"
  by (simp add: steps_to_def PInv_def same_core_def)

lemma steps_to_trans:
  assumes "steps_to digest H p es q" "steps_to digest H q fs s"
  shows "steps_to digest H p (es @ fs) s"
  unfolding steps_to_def
proof (intro allI impI)
  fix tr assume P: "PInv digest p tr" and H: "\<forall>a\<in>H. held digest (pview p) a"
  have 1: "PInv digest q (tr @ natives es)" "view_le (pview p) (pview q)"
    using assms(1) P H unfolding steps_to_def by auto
  have "\<forall>a\<in>H. held digest (pview q) a" using H held_mono 1(2) by blast
  then have "PInv digest s ((tr @ natives es) @ natives fs)" "view_le (pview q) (pview s)"
    using assms(2) 1(1) unfolding steps_to_def by auto
  then show "PInv digest s (tr @ natives (es @ fs)) \<and> view_le (pview p) (pview s)"
    using 1(2) view_le_trans by auto
qed

definition keeps :: "(string \<Rightarrow> string) \<Rightarrow> assignment set \<Rightarrow> 'a pm \<Rightarrow> bool" where
  "keeps digest H f = (\<forall>p q es r. f p = (q, es, r) \<longrightarrow> steps_to digest H p es q)"

named_theorems keeps_intros \<open>computations that keep the invariant\<close>

lemma keepsD: "keeps digest H f \<Longrightarrow> f p = (q, es, r) \<Longrightarrow> steps_to digest H p es q"
  unfolding keeps_def by blast

lemma keepsI: "(\<And>p q es r. f p = (q, es, r) \<Longrightarrow> steps_to digest H p es q) \<Longrightarrow> keeps digest H f"
  unfolding keeps_def by blast

lemma keeps_quiet [keeps_intros]: "quiet f \<Longrightarrow> keeps digest H f"
  unfolding keeps_def using quietD steps_to_quiet by blast

lemma keeps_pbind [keeps_intros]:
  assumes "keeps digest H f" "\<And>x. keeps digest H (g x)"
  shows "keeps digest H (pbind f g)"
proof (rule keepsI)
  fix p q es r assume "pbind f g p = (q, es, r)"
  then show "steps_to digest H p es q"
  proof (cases rule: pbind_cases)
    case 1
    then show ?thesis using keepsD[OF assms(1)] by blast
  next
    case (2 p1 es1 x es2)
    then show ?thesis using steps_to_trans keepsD[OF assms(1)] keepsD[OF assms(2)] by blast
  qed
qed

lemma keeps_plift:
  assumes "\<And>x. r = Inr x \<Longrightarrow> keeps digest H (g x)"
  shows "keeps digest H (pbind (plift r) g)"
proof (rule keepsI)
  fix p q es r' assume "pbind (plift r) g p = (q, es, r')"
  then show "steps_to digest H p es q"
  proof (cases rule: pbind_cases)
    case 1
    then show ?thesis by (simp add: plift_def steps_to_quiet)
  next
    case (2 p1 es1 x es2)
    then show ?thesis using keepsD[OF assms] by (auto simp: plift_def)
  qed
qed

text \<open>Reading the state first: what follows may use that it was read there.\<close>

lemma keeps_pgets:
  assumes "\<And>p q es r. g (f p) p = (q, es, r) \<Longrightarrow> steps_to digest H p es q"
  shows "keeps digest H (pbind (pgets f) g)"
proof (rule keepsI)
  fix p q es r assume "pbind (pgets f) g p = (q, es, r)"
  then have "g (f p) p = (q, es, r)" by (cases rule: pbind_cases) (auto simp: pgets_def)
  then show "steps_to digest H p es q" by (rule assms)
qed

text \<open>A step that changes the journal only, along \<open>view_le\<close>.\<close>

lemma steps_to_journal:
  assumes j: "j_inv digest (pa_journal p) \<Longrightarrow> \<forall>a\<in>H. held digest (pview p) a \<Longrightarrow>
      view_from digest {a. wf_assignment a} (pview p) \<Longrightarrow>
      j_inv digest (pa_journal q) \<and> view_le (pview p) (pview q) \<and> view_from digest {a. wf_assignment a} (pview q)"
    and same: "pa_queue q = pa_queue p" "pa_running q = pa_running p" "natives es = []"
  shows "steps_to digest H p es q"
  unfolding steps_to_def
proof (intro allI impI)
  fix tr assume P: "PInv digest p tr" and H: "\<forall>a\<in>H. held digest (pview p) a"
  then have le: "j_inv digest (pa_journal q)" "view_le (pview p) (pview q)"
    "view_from digest {a. wf_assignment a} (pview q)" using j by (auto simp: PInv_def)
  have "jv_records (pview q) k \<noteq> None" if "k \<in> set tr" for k
    using P that view_le_known[OF le(2)] by (auto simp: PInv_def)
  moreover have "held digest (pview q) (fst t)" if "t \<in> set (pa_queue p) \<union> set (pa_running p)" for t
    using P that held_mono[OF _ le(2)] by (auto simp: PInv_def)
  ultimately show "PInv digest q (tr @ natives es) \<and> view_le (pview p) (pview q)"
    using P le same by (auto simp: PInv_def)
qed

text \<open>Completing an assignment whose record has no outcome yet: what runs between the lookup that found this and the call
  of \<open>complete\<close> does not touch the journal.\<close>

definition keeps_open :: "(string \<Rightarrow> string) \<Rightarrow> assignment set \<Rightarrow> string \<Rightarrow> 'a pm \<Rightarrow> bool" where
  "keeps_open digest H k f = (\<forall>p q es r tr. f p = (q, es, r) \<longrightarrow> PInv digest p tr \<longrightarrow> (\<forall>a\<in>H. held digest (pview p) a) \<longrightarrow>
     unfinished k (pview p) \<longrightarrow> PInv digest q (tr @ natives es) \<and> view_le (pview p) (pview q))"

lemma keeps_openI: "keeps digest H f \<Longrightarrow> keeps_open digest H k f"
  unfolding keeps_def keeps_open_def steps_to_def by blast

lemma keeps_openD: "keeps_open digest H k f \<Longrightarrow> f p = (q, es, r) \<Longrightarrow> PInv digest p tr \<Longrightarrow> \<forall>a\<in>H. held digest (pview p) a \<Longrightarrow>
    unfinished k (pview p) \<Longrightarrow> PInv digest q (tr @ natives es) \<and> view_le (pview p) (pview q)"
  unfolding keeps_open_def by blast

lemma keeps_open_quiet:
  assumes "quiet f" "\<And>x. keeps_open digest H k (g x)"
  shows "keeps_open digest H k (pbind f g)"
  unfolding keeps_open_def
proof (intro allI impI)
  fix p q es r tr
  assume run: "pbind f g p = (q, es, r)" and P: "PInv digest p tr" "\<forall>a\<in>H. held digest (pview p) a" "unfinished k (pview p)"
  from run show "PInv digest q (tr @ natives es) \<and> view_le (pview p) (pview q)"
  proof (cases rule: pbind_cases)
    case (1 err)
    then have "steps_to digest {} p es q" using quietD[OF assms(1)] steps_to_quiet by blast
    then show ?thesis using P(1) by (simp add: steps_to_def)
  next
    case (2 p1 es1 x es2)
    have same: "same_core p p1" "natives es1 = []" using quietD[OF assms(1) 2(1)] by auto
    then have "PInv digest p1 tr" "pview p1 = pview p" using P(1) by (simp_all add: PInv_def same_core_def)
    then show ?thesis using keeps_openD[OF assms(2) 2(2), of tr] P same(2) 2(3) by simp
  qed
qed

lemma keeps_open_plift:
  assumes "\<And>x. r = Inr x \<Longrightarrow> keeps_open digest H k (g x)"
  shows "keeps_open digest H k (pbind (plift r) g)"
proof (cases r)
  case (Inl err)
  then have "quiet (pbind (plift r) g)" by (simp add: quiet_def pbind_def plift_def)
  then show ?thesis by (intro keeps_openI keeps_quiet)
next
  case (Inr x)
  then have "pbind (plift r) g = g x" by (auto simp: pbind_def plift_def fun_eq_iff split: prod.splits)
  then show ?thesis using assms Inr by simp
qed

lemma keeps_open_pcomplete:
  assumes "native_ok digest nv" "a \<in> H" "valid_outcome oc" "wf_json (oc_outputs oc)" "k = assignment_id a"
    and rest: "\<And>u. keeps digest H (g u)"
  shows "keeps_open digest H k (pbind (pcomplete nv a oc now) g)"
  unfolding keeps_open_def
proof (intro allI impI)
  fix p q es r tr
  assume run: "pbind (pcomplete nv a oc now) g p = (q, es, r)" and P: "PInv digest p tr" "\<forall>a\<in>H. held digest (pview p) a"
    and free: "unfinished k (pview p)"
  have one: "steps_to digest H p es1 q1" if c: "pcomplete nv a oc now p = (q1, es1, r1)" for q1 es1 r1
  proof (rule steps_to_journal)
    assume inv: "j_inv digest (pa_journal p)" and H: "\<forall>a\<in>H. held digest (pview p) a"
      and vf: "view_from digest {a. wf_assignment a} (pview p)"
    have h: "held digest (pview p) a" using H assms(2) by simp
    then have wf: "wf_assignment a" by (simp add: held_def)
    have fr: "unfinished (assignment_id a) (pview p)" using free assms(5) by simp
    note le = j.complete_le[OF inv wf assms(3,4) held_agrees[OF h] fr, of now]
    have fin: "pview q1 = pview p \<or> pview q1 = av_finish (assignment_id a) oc (pview p)"
      using c assms(1) j.complete_sim[OF inv wf assms(3,4) held_agrees[OF h] fr, of now]
      by (auto simp: pcomplete_def native_ok_def split: sum.splits if_splits)
    show "j_inv digest (pa_journal q1) \<and> view_le (pview p) (pview q1) \<and> view_from digest {a. wf_assignment a} (pview q1)"
      using assms(1) c inv le fin vf view_from_finish[OF vf]
      by (auto simp: pcomplete_def native_ok_def split: sum.splits)
  qed (use c in \<open>auto simp: pcomplete_def split: sum.splits\<close>)
  from run have "steps_to digest H p es q"
  proof (cases rule: pbind_cases)
    case (1 err)
    then show ?thesis using one by blast
  next
    case (2 p1 es1 x es2)
    then show ?thesis using steps_to_trans[OF one[OF 2(1)] keepsD[OF rest 2(2)]] by simp
  qed
  then show "PInv digest q (tr @ natives es) \<and> view_le (pview p) (pview q)" using P by (simp add: steps_to_def)
qed

text \<open>Looking the record up first.\<close>

lemma lookup_unfinished:
  assumes "j_inv digest (pa_journal p)" "j_lookup k (pa_journal p) = Inr x" "\<And>rec. x = Some rec \<Longrightarrow> jr_outcome rec = None"
  shows "unfinished k (pview p)"
  using j.lookup_sim[OF assms(1), of k] assms(2,3) by (auto simp: unfinished_def canon_record_def)

lemma keeps_lookup_open:
  assumes "\<And>rec oc. jr_outcome rec = Some oc \<Longrightarrow> keeps digest H (g (Some rec))"
    and "\<And>x. (\<And>rec. x = Some rec \<Longrightarrow> jr_outcome rec = None) \<Longrightarrow> keeps_open digest H k (g x)"
  shows "keeps digest H (pbind (pbind (pgets pa_journal) (\<lambda>j. plift (j_lookup k j))) g)"
proof (rule keepsI)
  fix p q es r assume run: "pbind (pbind (pgets pa_journal) (\<lambda>j. plift (j_lookup k j))) g p = (q, es, r)"
  show "steps_to digest H p es q"
  proof (cases "j_lookup k (pa_journal p)")
    case (Inl err)
    then have "q = p" "es = []" using run by (auto simp: pbind_def pgets_def plift_def)
    then show ?thesis by (simp add: steps_to_quiet)
  next
    case (Inr x)
    then have g: "g x p = (q, es, r)" using run by (auto simp: pbind_def pgets_def plift_def split: prod.splits)
    show ?thesis
    proof (cases "\<exists>rec oc. x = Some rec \<and> jr_outcome rec = Some oc")
      case True
      then show ?thesis using keepsD[OF assms(1)] g by blast
    next
      case False
      then have none: "\<And>rec. x = Some rec \<Longrightarrow> jr_outcome rec = None" by (metis option.exhaust)
      show ?thesis unfolding steps_to_def
      proof (intro allI impI)
        fix tr assume P: "PInv digest p tr" and H: "\<forall>a\<in>H. held digest (pview p) a"
        have "j_inv digest (pa_journal p)" using P by (simp add: PInv_def)
        from lookup_unfinished[OF this Inr none] have "unfinished k (pview p)" .
        then show "PInv digest q (tr @ natives es) \<and> view_le (pview p) (pview q)"
          using keeps_openD[OF assms(2)[OF none] g P H] by blast
      qed
    qed
  qed
qed

lemma pbind_assoc: "pbind (pbind f g) h = pbind f (\<lambda>x. pbind (g x) h)"
  by (auto simp: pbind_def fun_eq_iff split: prod.split sum.split)

lemma pbind_pret: "pbind (pret x) g = g x"
  by (auto simp: pbind_def pret_def fun_eq_iff split: prod.split)

lemma executed_outcome_valid:
  assumes "native_ok digest nv" "executed_outcome nv rid a = Inr oc"
  shows "valid_outcome oc \<and> wf_json (oc_outputs oc)"
  using assms
  by (auto simp: executed_outcome_def native_outcome_def native_ok_def res_simps mk_outcome_Inr_iff
      split: sum.splits option.splits)

lemma keeps_finish:
  assumes nv: "native_ok digest nv" and a: "a \<in> H"
  shows "keeps digest H (finish_assignment nv a e)"
  unfolding finish_assignment_def Let_def
proof (rule keeps_pbind, simp add: keeps_quiet, rule keeps_plift)
  fix rid oc0 assume "executed_outcome nv rid a = Inr oc0"
  then have oc: "valid_outcome oc0" "wf_json (oc_outputs oc0)" using executed_outcome_valid[OF nv] by auto
  have rest: "keeps digest H (pbind (send_outcome nv oc (clock nv 1) e) (\<lambda>_. publish_state nv (clock nv 1) (correlation_id e) None))" for oc
    by (intro keeps_quiet quiet_intros)
  have store: "keeps_open digest H (assignment_id a) (pbind (pcomplete nv a oc0 (clock nv 1)) (\<lambda>_.
      pbind (send_outcome nv oc0 (clock nv 1) e) (\<lambda>_. publish_state nv (clock nv 1) (correlation_id e) None)))"
    by (rule keeps_open_pcomplete[OF nv a oc refl rest])
  show "keeps digest H (pbind (pbind (pgets pa_journal) (\<lambda>j. plift (j_lookup (assignment_id a) j))) (\<lambda>latest.
     pbind (case latest of
              Some rec \<Rightarrow> (case jr_outcome rec of
                  Some oc \<Rightarrow> pret oc
                | None \<Rightarrow> pbind (pcomplete nv a oc0 (clock nv 1)) (\<lambda>_. pret oc0))
            | None \<Rightarrow> pbind (pcomplete nv a oc0 (clock nv 1)) (\<lambda>_. pret oc0)) (\<lambda>oc.
     pbind (send_outcome nv oc (clock nv 1) e) (\<lambda>_.
     publish_state nv (clock nv 1) (correlation_id e) None))))"
    by (rule keeps_lookup_open) (auto simp: pbind_assoc pbind_pret rest store simp del: One_nat_def split: option.split)
qed

lemma pclaim_result:
  assumes nv: "native_ok digest nv" and wf: "wf_assignment a" and P: "PInv digest p tr"
    and run: "pclaim nv a issuer now p = (q, es, r)"
  shows "PInv digest q tr \<and> view_le (pview p) (pview q) \<and> es = [] \<and> pa_queue q = pa_queue p \<and>
    pa_running q = pa_running p \<and>
    (\<forall>c. r = Inr c \<longrightarrow> claim_kind c = CkNew \<longrightarrow>
       held digest (pview q) a \<and> assignment_id a \<notin> set (tr @ task_ids (pa_queue p)))"
proof -
  have inv: "j_inv digest (pa_journal p)" and vf: "view_from digest {a. wf_assignment a} (pview p)"
    using P by (auto simp: PInv_def)
  obtain j' c where c: "j_claim digest a issuer now (pa_journal p) = Inr (j', c)" "j_inv digest j'"
    "av_claim (assignment_fingerprint digest a) a issuer (pview p) = (j_view j', canon_claim c)"
    using j.claim_sim[OF inv wf, of issuer now] by blast
  have q: "q = p\<lparr>pa_journal := j'\<rparr>" "es = []" "r = Inr c"
    using run c(1) nv by (auto simp: pclaim_def native_ok_def)
  have le: "view_le (pview p) (j_view j')" by (rule view_le_claim[OF c(3)])
  have vf': "view_from digest {a. wf_assignment a} (j_view j')" by (rule view_from_claim[OF c(3) _ vf]) (simp add: wf)
  have "steps_to digest {} p [] q"
    by (rule steps_to_journal) (use c(2) le vf' q in auto)
  then have "PInv digest q tr" using P by (auto simp: steps_to_def)
  moreover have "held digest (j_view j') a \<and> assignment_id a \<notin> set (tr @ task_ids (pa_queue p))" if new: "claim_kind c = CkNew"
  proof -
    have n: "jv_records (pview p) (assignment_id a) = None" "jv_records (j_view j') (assignment_id a) =
       Some \<lparr>jr_assignment = canon_assignment a, jr_issuer_id = issuer, jr_status = AsAccepted, jr_outcome = None,
             jr_fingerprint = assignment_fingerprint digest a\<rparr>"
      using j.claim_new[OF inv wf c(1) new] by auto
    have "jv_records (pview p) k \<noteq> None" if "k \<in> set (tr @ task_ids (pa_queue p))" for k
      using that P held_known by (fastforce simp: PInv_def task_ids_def)
    then have "assignment_id a \<notin> set (tr @ task_ids (pa_queue p))" using n(1) by metis
    then show ?thesis using n(2) wf by (simp add: held_def)
  qed
  ultimately show ?thesis using q le by auto
qed

lemma PInv_native:
  assumes "PInv digest p tr" "held digest (pview p) a" "assignment_id a \<notin> set (tr @ task_ids (pa_queue p))"
  shows "PInv digest p (tr @ [assignment_id a])"
  using assms held_known[OF assms(2)] by (auto simp: PInv_def)

lemma PInv_enqueue:
  assumes "PInv digest p tr" "held digest (pview p) a" "assignment_id a \<notin> set (tr @ task_ids (pa_queue p))"
  shows "PInv digest (p\<lparr>pa_queue := pa_queue p @ [(a, e)]\<rparr>) tr"
  using assms by (auto simp: PInv_def task_ids_def)

lemma same_core_PInv: "same_core p q \<Longrightarrow> PInv digest q tr = PInv digest p tr"
  by (simp add: same_core_def PInv_def)

lemma accepted_steps:
  assumes nv: "native_ok digest nv" and P: "PInv digest p tr" and h: "held digest (pview p) a"
    and fresh: "assignment_id a \<notin> set (tr @ task_ids (pa_queue p))" and new: "claim_kind c = CkNew"
    and run: "after_claim nv a e now c p = (q, es, r)"
  shows "PInv digest q (tr @ natives es) \<and> view_le (pview p) (pview q)"
proof -
  let ?ack = "acknowledge nv (assignment_id a) AsAccepted ''Assignment durably accepted for native adapter execution'' e now"
  have "pbind ?ack (\<lambda>_. pbind (pgets pa_workers) (\<lambda>workers.
          if workers > 0 then pmodify (\<lambda>p. p\<lparr>pa_queue := pa_queue p @ [(a, e)]\<rparr>)
          else execute_assignment nv a e)) p = (q, es, r)"
    using run new by (simp add: after_claim_def)
  then show ?thesis
  proof (cases rule: pbind_cases)
    case (1 err)
    then have "same_core p q" "natives es = []" using quietD[OF quiet_messages(2)] by blast+
    then show ?thesis using P by (simp add: same_core_PInv) (simp add: same_core_def)
  next
    case (2 p1 es1 x es2)
    then have core: "same_core p p1" "natives es1 = []" using quietD[OF quiet_messages(2)] by blast+
    have P1: "PInv digest p1 tr" "held digest (pview p1) a" "assignment_id a \<notin> set (tr @ task_ids (pa_queue p1))"
      "pview p1 = pview p"
      using P h fresh core(1) by (simp_all add: same_core_PInv) (simp_all add: same_core_def)
    show ?thesis
    proof (cases "pa_workers p1 > 0")
      case True
      then have "q = p1\<lparr>pa_queue := pa_queue p1 @ [(a, e)]\<rparr>" "es2 = []"
        using 2(2) by (auto simp: pbind_def pgets_def pmodify_def)
      then show ?thesis using PInv_enqueue[OF P1(1-3)] 2(3) core(2) P1(4) by simp
    next
      case False
      then obtain es3 where es3: "finish_assignment nv a e p1 = (q, es3, r)" "es2 = NativeAccept a # es3"
        using 2(2) by (auto simp: pbind_def pgets_def execute_assignment_def pemit_def split: prod.splits)
      have "steps_to digest {a} p1 es3 q" by (rule keepsD[OF keeps_finish[OF nv] es3(1)]) simp
      then show ?thesis
        using PInv_native[OF P1(1-3)] P1(2,4) 2(3) es3(2) core(2) unfolding steps_to_def by force
    qed
  qed
qed

lemma keeps_claimed:
  assumes nv: "native_ok digest nv" and wf: "wf_assignment a"
  shows "keeps digest {} (pbind (pclaim nv a issuer now) (after_claim nv a e now))"
proof (rule keepsI)
  fix p q es r assume run: "pbind (pclaim nv a issuer now) (after_claim nv a e now) p = (q, es, r)"
  show "steps_to digest {} p es q"
    unfolding steps_to_def
  proof (intro allI impI)
    fix tr assume P: "PInv digest p tr"
    from run show "PInv digest q (tr @ natives es) \<and> view_le (pview p) (pview q)"
    proof (cases rule: pbind_cases)
      case (1 err)
      then show ?thesis using pclaim_result[OF nv wf P 1(1)] by simp
    next
      case (2 p1 es1 c es2)
      note cl = pclaim_result[OF nv wf P 2(1)]
      show ?thesis
      proof (cases "claim_kind c = CkNew")
        case False
        then have "quiet (after_claim nv a e now c)"
          by (cases "claim_kind c") (auto simp: after_claim_def intro!: quiet_intros split: option.split)
        then have "same_core p1 q" "natives es2 = []" using 2(2) quietD by blast+
        then show ?thesis using cl 2(3) by (auto simp: same_core_def PInv_def)
      next
        case True
        then have h: "held digest (pview p1) a" "assignment_id a \<notin> set (tr @ task_ids (pa_queue p))"
          using cl by auto
        have "PInv digest q (tr @ natives es2) \<and> view_le (pview p1) (pview q)"
          by (rule accepted_steps[OF nv _ h(1) _ True 2(2)]) (use cl h(2) in auto)
        then show ?thesis using cl 2(3) view_le_trans by auto
      qed
    qed
  qed
qed

lemma wf_jitem: "wf_json v \<Longrightarrow> jitem v k = Inr x \<Longrightarrow> wf_json x"
  by (cases v) (auto simp: jitem_def split: option.splits dest!: map_of_SomeD)

lemma decode_step_inputs: "decode_step v = Inr s \<Longrightarrow> jitem v ''inputs'' = Inr (step_inputs s) \<and> post_init_plan_step s = Inr s"
  by (auto simp: decode_step_def res_simps) (frule post_init_plan_step_id, simp)+

lemma decode_assignment_wf:
  assumes "decode_assignment_value v = Inr a" "wf_json v"
  shows "wf_assignment a"
proof -
  obtain sv where sv: "jitem v ''step'' = Inr sv" "decode_step sv = Inr (asg_step a)" "post_init_assignment a = Inr a"
    using assms(1) by (auto simp: decode_assignment_value_def res_simps post_init_assignment_def)
  have "wf_json (step_inputs (asg_step a))"
    using wf_jitem[OF wf_jitem[OF assms(2) sv(1)]] decode_step_inputs[OF sv(2)] by blast
  then show ?thesis using sv decode_step_inputs[OF sv(2)] by (simp add: wf_assignment_def)
qed

lemma keeps_on_assignment:
  assumes nv: "native_ok digest nv" and wf: "wf_json (env_payload e)"
  shows "keeps digest {} (on_assignment nv e)"
proof -
  have claimed: "keeps digest {} (pbind (pclaim nv a i now) (after_claim nv a e now))"
    if "decode_assignment_value (env_payload e) = Inr a" for a i now
    by (rule keeps_claimed[OF nv decode_assignment_wf[OF that wf]])
  have quick: "keeps digest {} (reject nv a e d now)" "keeps digest {} (plift r)" "keeps digest {} (pret ())"
    for a d now and r :: "unit res"
    by (intro keeps_quiet quiet_intros)+
  show ?thesis
    unfolding on_assignment_def Let_def
    by (rule keeps_pbind[OF keeps_quiet[OF quiet_pgets]], rule keeps_plift)
      (auto intro!: keeps_plift claimed quick keeps_pbind[OF keeps_quiet[OF quiet_pgets]]
        split: option.split sum.split error.split)
qed


lemma wf_canon_iff [simp]: "wf_json (canon v) = wf_json v"
proof (induction v)
  case (JObj kvs)
  have m: "map fst (map (\<lambda>(k, v). (k, canon v)) kvs) = map fst kvs" by (simp add: case_prod_unfold)
  have "mset (map fst (sort_key fst (map (\<lambda>(k, v). (k, canon v)) kvs))) = mset (map fst kvs)"
    by (metis m mset_map mset_sort)
  then have "distinct (map fst (sort_key fst (map (\<lambda>(k, v). (k, canon v)) kvs))) = distinct (map fst kvs)"
    by (rule mset_eq_imp_distinct_iff)
  then show ?case using JObj by (auto simp: snds.simps)
qed auto

lemma wf_assignment_canon: "wf_assignment (canon_assignment a) = wf_assignment a"
  by (simp add: wf_assignment_def post_init_assignment_def post_init_plan_step_def res_simps)
    (simp add: canon_step_def split: option.split)

lemma assignment_json_canon: "assignment_json (canon_assignment a) = assignment_json a"
proof -
  have "canon (plan_step_payload (canon_step s)) = canon (plan_step_payload s)" for s
    by (simp add: plan_step_payload_def canon_step_def)
  then have "canon (assignment_payload (canon_assignment a)) = canon (assignment_payload a)"
    by (simp add: assignment_payload_def)
  then show ?thesis by (metis assignment_json_def json_dumps_canon)
qed

lemma looked_up_held:
  assumes inv: "j_inv digest (pa_journal p)" and vf: "view_from digest {a. wf_assignment a} (pview p)"
    and look: "j_lookup k (pa_journal p) = Inr (Some rec)"
  shows "held digest (pview p) (jr_assignment rec)" "assignment_id (jr_assignment rec) = k"
proof -
  have v: "jv_records (pview p) k = Some (canon_record rec)"
    using j.lookup_sim[OF inv, of k] look by auto
  then obtain a where a: "wf_assignment a" "canon_assignment (jr_assignment rec) = canon_assignment a"
    "jr_fingerprint rec = assignment_fingerprint digest a"
    using vf unfolding view_from_def by force
  show id: "assignment_id (jr_assignment rec) = k"
    using view_okD(1)[OF j.inv_view[OF inv] v] by simp
  have "wf_assignment (jr_assignment rec)" using a by (metis wf_assignment_canon)
  moreover have "jr_fingerprint rec = assignment_fingerprint digest (jr_assignment rec)"
    using a by (metis assignment_fingerprint_def assignment_json_canon)
  ultimately show "held digest (pview p) (jr_assignment rec)" using v id by (simp add: held_def)
qed


lemma keeps_plookup:
  assumes none: "keeps digest {} (g None)" and some: "\<And>rec. jr_outcome rec \<noteq> None \<Longrightarrow> keeps digest {jr_assignment rec} (g (Some rec))"
    and free: "\<And>rec. jr_outcome rec = None \<Longrightarrow> assignment_id (jr_assignment rec) = k \<Longrightarrow> keeps_open digest {jr_assignment rec} k (g (Some rec))"
  shows "keeps digest {} (pbind (plookup k) g)"
proof (rule keepsI)
  fix p q es r assume "pbind (plookup k) g p = (q, es, r)"
  then show "steps_to digest {} p es q"
  proof (cases rule: pbind_cases)
    case (1 err)
    then show ?thesis using quietD[OF quiet_messages(9)] steps_to_quiet by blast
  next
    case (2 p1 es1 found es2)
    then have look: "j_lookup k (pa_journal p) = Inr found" "p1 = p" "es = es2"
      by (auto simp: plookup_def pbind_def pgets_def plift_def split: sum.splits)
    show ?thesis
    proof (cases found)
      case None
      then show ?thesis using keepsD[OF none] 2(2) look by simp
    next
      case (Some rec)
      have run: "g (Some rec) p = (q, es, r)" using 2(2) look Some by simp
      show ?thesis
        unfolding steps_to_def
      proof (intro allI impI)
        fix tr assume P: "PInv digest p tr"
        then have h: "held digest (pview p) (jr_assignment rec)" "assignment_id (jr_assignment rec) = k"
          using looked_up_held look(1) Some by (auto simp: PInv_def)
        show "PInv digest q (tr @ natives es) \<and> view_le (pview p) (pview q)"
        proof (cases "jr_outcome rec")
          case None
          have "j_inv digest (pa_journal p)" using P by (simp add: PInv_def)
          from lookup_unfinished[OF this look(1)] have "unfinished k (pview p)" using Some None by simp
          then show ?thesis using keeps_openD[OF free[OF None h(2)] run P] h(1) by simp
        next
          case (Some oc)
          then show ?thesis using keepsD[OF some run] h(1) P by (simp add: steps_to_def)
        qed
      qed
    qed
  qed
qed

lemma keeps_on_cancellation:
  assumes nv: "native_ok digest nv"
  shows "keeps digest {} (on_cancellation_request nv e)"
proof -
  have fin: "keeps_open digest {jr_assignment rec} k (pbind (plift (mk_outcome c rid False d (Some AsCancelled) (JObj []))) (\<lambda>oc.
      pbind (pcomplete nv (jr_assignment rec) oc now) (\<lambda>_. pbind (send_cancellation_ack nv req CsAccepted d' e t) (\<lambda>_.
      send_outcome nv oc now e))))" if "assignment_id (jr_assignment rec) = k" for rec k c rid d d' now req t
  proof (rule keeps_open_plift)
    fix oc assume "mk_outcome c rid False d (Some AsCancelled) (JObj []) = Inr oc"
    then have oc: "valid_outcome oc" "wf_json (oc_outputs oc)" by (auto simp: mk_outcome_Inr_iff)
    show "keeps_open digest {jr_assignment rec} k (pbind (pcomplete nv (jr_assignment rec) oc now) (\<lambda>_.
        pbind (send_cancellation_ack nv req CsAccepted d' e t) (\<lambda>_. send_outcome nv oc now e)))"
      by (rule keeps_open_pcomplete[OF nv _ oc]) (simp_all add: that, intro keeps_quiet quiet_intros)
  qed
  have cancel: "keeps_open digest H k (pbind (pemit (NativeCancel c s)) (\<lambda>_. pbind (plift ans) g))"
    if "\<And>x. keeps_open digest H k (g x)" for H k c s ans and g :: "_ \<Rightarrow> unit pm"
    by (rule keeps_open_quiet[OF quiet_emit_cancel], rule keeps_open_quiet[OF quiet_plift]) (rule that)
  have quick: "keeps digest H (send_cancellation_ack nv req cst d e t)" "keeps digest H (pret ())"
    "keeps digest H (pbind (send_cancellation_ack nv req cst d e t) (\<lambda>_. send_outcome nv oc now e))"
    for H req cst d t oc now
    by (intro keeps_quiet quiet_intros)+
  have quick_open: "keeps_open digest H k (send_cancellation_ack nv req cst d e t)" "keeps_open digest H k (pret ())"
    for H k req cst d t
    by (rule keeps_openI, rule quick)+
  have either: "keeps digest H f \<Longrightarrow> keeps digest H g \<Longrightarrow> keeps digest H (if c then f else g)"
    "keeps_open digest H k f \<Longrightarrow> keeps_open digest H k g \<Longrightarrow> keeps_open digest H k (if c then f else g)"
    for H k c and f g :: "unit pm" by simp_all
  have known: "keeps digest H (case jr_outcome rec of Some oc \<Rightarrow> f oc | None \<Rightarrow> g)"
    if "jr_outcome rec \<noteq> None" "\<And>oc. keeps digest H (f oc)" for rec H f and g :: "unit pm"
    using that by (cases "jr_outcome rec") simp_all
  show ?thesis
    unfolding on_cancellation_request_def Let_def
    apply (rule keeps_pbind[OF keeps_quiet[OF quiet_plift]], rule keeps_pbind[OF keeps_quiet[OF quiet_pgets]])
    apply (rule either(1)[OF quick(2)], rule keeps_plookup)
      apply (simp only: option.case, rule quick(2))
     apply (simp only: option.case, rule either(1)[OF quick(2)], erule known, rule quick(3))
    apply (simp only: option.case, rule either(2)[OF quick_open(2)])
    apply (rule either(2)[OF quick_open(1)], rule cancel, rule either(2)[OF quick_open(1)], erule fin)
    done
qed

lemma nth_tasks:
  assumes "i < length ts"
  shows "set (take i ts @ drop (Suc i) ts) \<union> {ts ! i} = set ts"
    "mset (task_ids (take i ts @ drop (Suc i) ts)) + {#assignment_id (fst (ts ! i))#} = mset (task_ids ts)"
proof -
  have e: "take i ts @ ts ! i # drop (Suc i) ts = ts" using assms by (simp add: id_take_nth_drop[symmetric])
  show "set (take i ts @ drop (Suc i) ts) \<union> {ts ! i} = set ts"
    by (subst (3) e[symmetric]) auto
  show "mset (task_ids (take i ts @ drop (Suc i) ts)) + {#assignment_id (fst (ts ! i))#} = mset (task_ids ts)"
    by (subst (4) e[symmetric]) (simp add: task_ids_def)
qed

lemma keeps_start: "keeps digest {} (start_execution i)"
proof (rule keepsI)
  fix p q es r assume run: "start_execution i p = (q, es, r)"
  show "steps_to digest {} p es q"
  proof (cases "i < length (pa_queue p)")
    case False
    then show ?thesis using run by (simp add: start_execution_def steps_to_quiet)
  next
    case True
    let ?t = "pa_queue p ! i" and ?rest = "take i (pa_queue p) @ drop (Suc i) (pa_queue p)"
    have q: "q = p\<lparr>pa_queue := ?rest, pa_running := pa_running p @ [?t]\<rparr>" "es = [NativeAccept (fst ?t)]"
      using run True by (auto simp: start_execution_def)
    note n = nth_tasks[OF True]
    show ?thesis
      unfolding steps_to_def
    proof (intro allI impI)
      fix tr assume P: "PInv digest p tr"
      have "mset (tr @ natives es @ task_ids ?rest) = mset (tr @ task_ids (pa_queue p))"
        using n(2) by (simp add: q(2))
      then have "distinct ((tr @ natives es) @ task_ids (pa_queue q))"
        using P mset_eq_imp_distinct_iff by (fastforce simp: PInv_def q(1))
      moreover have "set ?rest \<subseteq> set (pa_queue p)" "?t \<in> set (pa_queue p)" using n(1) by blast+
      ultimately show "PInv digest q (tr @ natives es) \<and> view_le (pview p) (pview q)"
        using P held_known unfolding PInv_def q by (simp add: q) blast
    qed
  qed
qed

lemma keeps_finish_execution:
  assumes nv: "native_ok digest nv"
  shows "keeps digest {} (finish_execution nv i)"
  unfolding finish_execution_def
proof (rule keeps_pgets)
  fix p q es r
  assume run: "(if i < length (pa_running p)
     then pbind (pmodify (\<lambda>pa. pa\<lparr>pa_running := take i (pa_running p) @ drop (Suc i) (pa_running p)\<rparr>)) (\<lambda>_.
          finish_assignment nv (fst (pa_running p ! i)) (snd (pa_running p ! i)))
     else pret ()) p = (q, es, r)"
  show "steps_to digest {} p es q"
  proof (cases "i < length (pa_running p)")
    case False
    then show ?thesis using run by (simp add: pret_def steps_to_quiet)
  next
    case True
    let ?t = "pa_running p ! i"
    let ?p = "p\<lparr>pa_running := take i (pa_running p) @ drop (Suc i) (pa_running p)\<rparr>"
    have fin: "finish_assignment nv (fst ?t) (snd ?t) ?p = (q, es, r)"
      using run True by (auto simp: pbind_def pmodify_def split: prod.splits)
    have st: "steps_to digest {fst ?t} ?p es q" by (rule keepsD[OF keeps_finish[OF nv] fin]) simp
    show ?thesis
      unfolding steps_to_def
    proof (intro allI impI)
      fix tr assume P: "PInv digest p tr"
      have "set (take i (pa_running p) @ drop (Suc i) (pa_running p)) \<subseteq> set (pa_running p)"
        using nth_tasks(1)[OF True] by blast
      then have "PInv digest ?p tr" using P unfolding PInv_def by auto
      moreover have "held digest (pview ?p) (fst ?t)" using P True by (auto simp: PInv_def)
      ultimately show "PInv digest q (tr @ natives es) \<and> view_le (pview p) (pview q)"
        using st unfolding steps_to_def by force
    qed
  qed
qed


section \<open>Histories of a participant\<close>

datatype participant_step =
    DoAssignment native envelope
  | DoQuery native envelope
  | DoCancel native envelope
  | DoStart nat
  | DoFinish native nat
  | DoPublishState native int
  | DoPublishSafety native int
  | DoAnnounce native int
  | DoRestart string

text \<open>A new process opens the journal again; queued and running work of the old one is gone. An
  in-memory journal starts empty.\<close>

definition reopen :: "journal \<Rightarrow> journal" where
  "reopen j = (case j of SqliteJournal s \<Rightarrow> SqliteJournal (sj_open s) | MemoryJournal m \<Rightarrow> MemoryJournal mj_empty)"

definition restart :: "string \<Rightarrow> participant \<Rightarrow> participant" where
  "restart session p = p\<lparr>pa_session_id := session, pa_sequences := (\<lambda>_. 0), pa_last_manifest := None,
     pa_last_safety := None, pa_journal := reopen (pa_journal p), pa_queue := [], pa_running := []\<rparr>"

fun do_step :: "participant_step \<Rightarrow> participant \<Rightarrow> participant \<times> effect list" where
  "do_step (DoAssignment nv e) p = (case on_assignment nv e p of (q, es, r) \<Rightarrow> (q, es))"
| "do_step (DoQuery nv e) p = (case on_assignment_query nv e p of (q, es, r) \<Rightarrow> (q, es))"
| "do_step (DoCancel nv e) p = (case on_cancellation_request nv e p of (q, es, r) \<Rightarrow> (q, es))"
| "do_step (DoStart i) p = (case start_execution i p of (q, es, r) \<Rightarrow> (q, es))"
| "do_step (DoFinish nv i) p = (case finish_execution nv i p of (q, es, r) \<Rightarrow> (q, es))"
| "do_step (DoPublishState nv now) p = (case publish_state nv now None None p of (q, es, r) \<Rightarrow> (q, es))"
| "do_step (DoPublishSafety nv now) p = (case publish_safety_state nv now None None p of (q, es, r) \<Rightarrow> (q, es))"
| "do_step (DoAnnounce nv now) p = (case announce nv now None None p of (q, es, r) \<Rightarrow> (q, es))"
| "do_step (DoRestart session) p = (restart session p, [])"

fun participant_run :: "participant_step list \<Rightarrow> participant \<Rightarrow> participant \<times> effect list" where
  "participant_run [] p = (p, [])"
| "participant_run (s # ss) p =
     (case do_step s p of (q, es) \<Rightarrow>
       (case participant_run ss q of (q', fs) \<Rightarrow> (q', es @ fs)))"

text \<open>Steps whose manufacturer side keeps its promise and whose envelope carries JSON.\<close>

fun step_ok :: "(string \<Rightarrow> string) \<Rightarrow> participant_step \<Rightarrow> bool" where
  "step_ok digest (DoAssignment nv e) = (native_ok digest nv \<and> wf_json (env_payload e))"
| "step_ok digest (DoCancel nv e) = native_ok digest nv"
| "step_ok digest (DoFinish nv i) = native_ok digest nv"
| "step_ok digest _ = True"

definition durable :: "participant \<Rightarrow> bool" where
  "durable p = (\<exists>s. pa_journal p = SqliteJournal s)"

lemma restart_PInv:
  assumes P: "PInv digest p tr" and d: "durable p"
  shows "PInv digest (restart session p) tr \<and> view_le (pview p) (pview (restart session p))"
proof -
  obtain s where s: "pa_journal p = SqliteJournal s" using d by (auto simp: durable_def)
  have inv: "sj_inv digest s" and vf: "view_from digest {a. wf_assignment a} (sj_view s)"
    using P s by (auto simp: PInv_def j_inv_def j_view_def)
  have sim: "sj_inv digest (sj_open s)" "sj_view (sj_open s) = av_restart (sj_view s)"
    using sj_open_sim[OF inv] by auto
  have le: "view_le (sj_view s) (sj_view (sj_open s))" by (simp add: sim(2) view_le_restart)
  have "view_from digest {a. wf_assignment a} (sj_view (sj_open s))"
    using vf unfolding sim(2) view_from_def av_restart_def by auto
  moreover have "\<forall>k\<in>set tr. jv_records (sj_view (sj_open s)) k \<noteq> None"
    using P s view_le_known[OF le] by (auto simp: PInv_def j_view_def)
  ultimately show ?thesis
    using P sim(1) le s by (auto simp: PInv_def restart_def reopen_def j_inv_def j_view_def task_ids_def)
qed

text \<open>No handler replaces a durable journal by one in memory.\<close>

definition durability :: "'a pm \<Rightarrow> bool" where
  "durability f = (\<forall>p q es r. f p = (q, es, r) \<longrightarrow> durable p \<longrightarrow> durable q)"

named_theorems durability_intros \<open>computations that keep the kind of journal\<close>

lemma durability_quiet [durability_intros]: "quiet f \<Longrightarrow> durability f"
  unfolding durability_def durable_def using quietD by (metis same_core_def)

lemma durability_pbind [durability_intros]:
  assumes "durability f" "\<And>x. durability (g x)"
  shows "durability (pbind f g)"
  unfolding durability_def
proof (intro allI impI)
  fix p q es r assume "pbind f g p = (q, es, r)" "durable p"
  then show "durable q"
    using assms unfolding durability_def by (cases rule: pbind_cases) blast+
qed

lemma durability_journal:
  "durability (pclaim nv a i now)" "durability (pcomplete nv a oc now)"
  unfolding durability_def durable_def
  by (auto simp: pclaim_def pcomplete_def j_claim_def j_complete_def rbind_def split: sum.splits prod.splits)

lemma durability_tasks:
  "durability (pemit ef)" "durability (pmodify (\<lambda>p. p\<lparr>pa_queue := Q p\<rparr>))" "durability (pmodify (\<lambda>p. p\<lparr>pa_running := R p\<rparr>))"
  "durability (start_execution i)"
  unfolding durability_def durable_def by (auto simp: pemit_def pmodify_def start_execution_def split: if_splits)

lemma durability_finish: "durability (finish_assignment nv a e)"
proof -
  have store: "durability (case latest of
              Some rec \<Rightarrow> (case jr_outcome rec of
                  Some oc \<Rightarrow> pret oc
                | None \<Rightarrow> pbind (pcomplete nv a oc0 now) (\<lambda>_. pret oc0))
            | None \<Rightarrow> pbind (pcomplete nv a oc0 now) (\<lambda>_. pret oc0))" for latest oc0 now
    by (auto intro!: durability_pbind durability_journal durability_quiet[OF quiet_pret] split: option.split)
  have tail: "durability (pbind (send_outcome nv oc now e) (\<lambda>_. publish_state nv now c None))" for oc now c
    by (intro durability_quiet quiet_intros)
  have look: "durability (pbind (pgets pa_journal) (\<lambda>j. plift (j_lookup k j)))" for k
    by (intro durability_quiet quiet_intros)
  show ?thesis
    unfolding finish_assignment_def Let_def
    by (intro durability_pbind[OF durability_quiet[OF quiet_pgets]] durability_pbind[OF durability_quiet[OF quiet_plift]]
        durability_pbind[OF look] durability_pbind[OF store] tail)
qed

lemma durability_after_claim: "durability (after_claim nv a e now c)"
proof (cases "claim_kind c = CkNew")
  case True
  show ?thesis
    unfolding after_claim_def True claim_kind.case execute_assignment_def
    by (rule durability_pbind[OF durability_quiet[OF quiet_messages(2)]],
        rule durability_pbind[OF durability_quiet[OF quiet_pgets]])
      (auto intro!: durability_tasks durability_pbind[OF durability_tasks(1)] durability_finish)
next
  case False
  then have "quiet (after_claim nv a e now c)"
    by (cases "claim_kind c") (auto simp: after_claim_def intro!: quiet_intros split: option.split)
  then show ?thesis by (rule durability_quiet)
qed

lemma durability_on_assignment: "durability (on_assignment nv e)"
proof -
  have quick: "durability (reject nv a e d now)" "durability (plift r)" "durability (pret ())"
    for a d now and r :: "unit res"
    by (intro durability_quiet quiet_intros)+
  have claim: "durability (pbind (pclaim nv a i now) (after_claim nv a e now))" for a i now
    by (rule durability_pbind[OF durability_journal(1)]) (rule durability_after_claim)
  show ?thesis
    unfolding on_assignment_def Let_def
    by (auto intro!: quick claim durability_pbind[OF durability_quiet[OF quiet_pgets]]
        durability_pbind[OF durability_quiet[OF quiet_plift]] split: option.split sum.split error.split)
qed

lemma durability_on_cancellation: "durability (on_cancellation_request nv e)"
proof -
  have quick: "durability (send_cancellation_ack nv req cst d e t)" "durability (pret ())"
    "durability (pbind (send_cancellation_ack nv req cst d e t) (\<lambda>_. send_outcome nv oc now e))"
    for req cst d t oc now
    by (intro durability_quiet quiet_intros)+
  have fin: "durability (pbind (pcomplete nv b oc now) (\<lambda>_. pbind (send_cancellation_ack nv req CsAccepted d e t) (\<lambda>_.
      send_outcome nv oc now e)))" for b oc now req d t
    by (rule durability_pbind[OF durability_journal(2)]) (rule quick)
  show ?thesis
    unfolding on_cancellation_request_def Let_def
    by (auto intro!: quick fin durability_pbind[OF durability_quiet[OF quiet_pgets]] durability_pbind[OF durability_tasks(1)]
        durability_pbind[OF durability_quiet[OF quiet_plift]] durability_pbind[OF durability_quiet[OF quiet_messages(9)]]
        split: option.split)
qed

lemma durability_finish_execution: "durability (finish_execution nv i)"
  unfolding finish_execution_def
  by (auto intro!: durability_pbind[OF durability_quiet[OF quiet_pgets]] durability_pbind[OF durability_tasks(3)]
      durability_finish durability_quiet[OF quiet_pret])

lemma handler_step:
  assumes "keeps digest {} f" "durability f" "f p = (q, es, r)" "PInv digest p tr" "durable p"
  shows "PInv digest q (tr @ natives es) \<and> view_le (pview p) (pview q) \<and> durable q"
proof -
  have "durable q" using assms(2,3,5) unfolding durability_def by blast
  then show ?thesis using keepsD[OF assms(1,3)] assms(4) unfolding steps_to_def by auto
qed

lemma do_step_PInv:
  assumes "step_ok digest s" "PInv digest p tr" "durable p" "do_step s p = (q, es)"
  shows "PInv digest q (tr @ natives es) \<and> view_le (pview p) (pview q) \<and> durable q"
proof (cases s)
  case (DoAssignment nv e)
  then show ?thesis
    using assms handler_step[OF keeps_on_assignment durability_on_assignment _ assms(2,3)] by (auto split: prod.splits)
next
  case (DoQuery nv e)
  then show ?thesis
    using assms handler_step[OF keeps_quiet[OF quiet_query] durability_quiet[OF quiet_query] _ assms(2,3)]
    by (auto split: prod.splits)
next
  case (DoCancel nv e)
  then show ?thesis
    using assms handler_step[OF keeps_on_cancellation durability_on_cancellation _ assms(2,3)] by (auto split: prod.splits)
next
  case (DoStart i)
  then show ?thesis
    using assms handler_step[OF keeps_start durability_tasks(4) _ assms(2,3)] by (auto split: prod.splits)
next
  case (DoFinish nv i)
  then show ?thesis
    using assms handler_step[OF keeps_finish_execution durability_finish_execution _ assms(2,3)] by (auto split: prod.splits)
next
  case (DoPublishState nv now)
  then show ?thesis
    using assms handler_step[OF keeps_quiet[OF quiet_messages(8)] durability_quiet[OF quiet_messages(8)] _ assms(2,3)]
    by (auto split: prod.splits)
next
  case (DoPublishSafety nv now)
  then show ?thesis
    using assms handler_step[OF keeps_quiet[OF quiet_messages(10)] durability_quiet[OF quiet_messages(10)] _ assms(2,3)]
    by (auto split: prod.splits)
next
  case (DoAnnounce nv now)
  then show ?thesis
    using assms handler_step[OF keeps_quiet[OF quiet_publish_manifest(2)] durability_quiet[OF quiet_publish_manifest(2)] _ assms(2,3)]
    by (auto split: prod.splits)
next
  case (DoRestart session)
  then show ?thesis
    using assms restart_PInv[OF assms(2,3), of session]
    by (auto simp: durable_def restart_def reopen_def)
qed

lemma run_PInv:
  assumes "list_all (step_ok digest) ss" "PInv digest p tr" "durable p" "participant_run ss p = (q, es)"
  shows "PInv digest q (tr @ natives es) \<and> view_le (pview p) (pview q) \<and> durable q"
  using assms
proof (induction ss arbitrary: p tr es)
  case (Cons s ss)
  obtain p1 es1 es2 where s1: "do_step s p = (p1, es1)" "participant_run ss p1 = (q, es2)" "es = es1 @ es2"
    using Cons.prems(4) by (auto split: prod.splits)
  have 1: "PInv digest p1 (tr @ natives es1)" "view_le (pview p) (pview p1)" "durable p1"
    using do_step_PInv[OF _ Cons.prems(2,3) s1(1)] Cons.prems(1) by auto
  show ?case
    using Cons.IH[OF _ 1(1,3) s1(2)] Cons.prems(1) s1(3) view_le_trans[OF 1(2)] by auto
qed simp

section \<open>Guarantees\<close>

lemma PInv_initial:
  assumes "participant_init robot session (SqliteJournal sj_empty) az workers = Inr p"
  shows "PInv digest p [] \<and> durable p"
proof -
  have p: "pa_journal p = SqliteJournal sj_empty" "pa_queue p = []" "pa_running p = []"
    using assms by (auto simp: participant_init_def res_simps)
  have v: "jv_records (j_view (SqliteJournal sj_empty)) k = None" for k
    by (simp add: j_view_def sj_view_def sj_lookup_def find_row_def sj_empty_def)
  show ?thesis
    using p sj_inv_empty v by (simp add: PInv_def durable_def j_inv_def view_from_def task_ids_def)
qed

text \<open>C7: At most one native execution. A participant that starts with an empty durable journal and then handles
  any sequence of assignments, queries, cancellations, worker steps and restarts, in any order and with any
  answers of the manufacturer's code, hands an assignment id to the native adapter at most once, and every id it
  handed over is in the journal.\<close>

theorem native_execution_at_most_once:
  assumes "participant_init robot session (SqliteJournal sj_empty) az workers = Inr p"
    and "list_all (step_ok digest) steps" and "participant_run steps p = (q, es)"
  shows "distinct (natives es) \<and> (\<forall>k\<in>set (natives es). jv_records (j_view (pa_journal q)) k \<noteq> None)"
proof -
  have "PInv digest q ([] @ natives es)"
    using run_PInv[OF assms(2) _ _ assms(3)] PInv_initial[OF assms(1)] by blast
  then show ?thesis by (auto simp: PInv_def)
qed

definition sample_capability :: capability where
  "sample_capability = \<lparr>cap_name = ''carry'', cap_description = ''carry trays'', cap_input_schema = JObj [],
     cap_output_schema = JObj [], cap_availability = AvAvailable\<rparr>"

definition sample_native :: native where
  "sample_native = \<lparr>
     nat_manifest = (\<lambda>_. Inr \<lparr>mf_robot_id = ''r1'', mf_manufacturer = ''acme'', mf_model = ''m'', mf_robot_class = ''cart'',
        mf_capabilities = [sample_capability], mf_adapter_version = ''1''\<rparr>),
     nat_state = Inl (NativeError ''TimeoutError''),
     nat_accept = (\<lambda>a. if assignment_id a = ''a1'' then Inr (sample_outcome ''a1'' AsSucceeded)
                         else Inl (NativeError ''TimeoutError'')),
     nat_cancel = (\<lambda>_ _. Inr (True, ''stopped'')),
     schema_valid = (\<lambda>_. True), conforms = (\<lambda>_ _. True), clock = (\<lambda>n. 1000 + int n),
     uuid = (\<lambda>s n. s @ ''-'' @ show_int n), sha = id\<rparr>"

definition sample_order :: "string \<Rightarrow> envelope" where
  "sample_order aid = make_envelope ''m7'' ''assignment'' ''c1'' ''cs'' 1 1000
     (assignment_payload (sample_assignment aid [''dock''])) None OPERATIONAL_STREAM"

definition sample_robot :: "nat \<Rightarrow> participant" where
  "sample_robot workers = \<lparr>pa_robot_id = ''r1'', pa_session_id = ''s'', pa_sequences = (\<lambda>_. 0), pa_last_manifest = None,
     pa_last_safety = None, pa_journal = SqliteJournal sj_empty, pa_authorizer = AllowAll, pa_workers = workers,
     pa_queue = [], pa_running = []\<rparr>"

lemma sample_native_ok: "native_ok id sample_native"
proof -
  have "valid_outcome (sample_outcome ''a1'' AsSucceeded) \<and> wf_json (oc_outputs (sample_outcome ''a1'' AsSucceeded))"
    by code_simp
  then show ?thesis by (auto simp: native_ok_def sample_native_def)
qed

lemma sample_order_wf: "wf_json (env_payload (sample_order ''a1''))"
  by code_simp

definition sample_steps :: "participant_step list" where
  "sample_steps = [DoAssignment sample_native (sample_order ''a1''), DoStart 0,
     DoAssignment sample_native (sample_order ''a1''), DoFinish sample_native 0, DoRestart ''s2'',
     DoAssignment sample_native (sample_order ''a1''), DoStart 0]"

theorem native_execution_at_most_once_witness:
  "distinct (natives (snd (participant_run sample_steps (sample_robot 2))))"
proof -
  have i: "participant_init ''r1'' ''s'' (SqliteJournal sj_empty) AllowAll 2 = Inr (sample_robot 2)"
    by (simp add: participant_init_def sample_robot_def)
  have ok: "list_all (step_ok id) sample_steps"
    using sample_native_ok sample_order_wf by (simp add: sample_steps_def)
  show ?thesis
    using native_execution_at_most_once[OF i ok, of "fst (participant_run sample_steps (sample_robot 2))"
        "snd (participant_run sample_steps (sample_robot 2))"] by simp
qed

text \<open>What must hold for a computation to hand an assignment to the adapter or to a worker.\<close>

definition starts :: "participant \<Rightarrow> effect list \<Rightarrow> participant \<Rightarrow> bool" where
  "starts p es q = (natives es \<noteq> [] \<or> pa_queue q \<noteq> pa_queue p)"

text \<open>\<open>W\<close> is the event that is watched; \<open>P\<close> must hold whenever it happens.\<close>

type_synonym event = "participant \<Rightarrow> effect list \<Rightarrow> participant \<Rightarrow> bool"

definition guarded :: "event \<Rightarrow> bool \<Rightarrow> participant \<Rightarrow> 'a pm \<Rightarrow> bool" where
  "guarded W P p f = (\<forall>q es r. f p = (q, es, r) \<longrightarrow> W p es q \<longrightarrow> P)"

definition cancels :: event where
  "cancels p es q = (\<exists>k reason. NativeCancel k reason \<in> set es)"

lemma guardedD: "guarded W P p f \<Longrightarrow> f p = (q, es, r) \<Longrightarrow> W p es q \<Longrightarrow> P"
  unfolding guarded_def by blast

lemma guarded_pgets: "guarded W P p (g (f p)) \<Longrightarrow> guarded W P p (pbind (pgets f) g)"
  unfolding guarded_def by (auto simp: pbind_def pgets_def split: prod.splits)

lemma guarded_plift:
  assumes "\<not> W p [] p" "\<And>y. x = Inr y \<Longrightarrow> guarded W P p (g y)"
  shows "guarded W P p (pbind (plift x) g)"
  using assms unfolding guarded_def by (auto simp: pbind_def plift_def split: prod.splits sum.splits)

lemma no_event [simp]: "\<not> starts p [] p" "\<not> cancels p [] p"
  by (simp_all add: starts_def cancels_def)

lemmas starts_plift = guarded_plift[where W = starts, OF no_event(1)]
lemmas cancels_plift = guarded_plift[where W = cancels, OF no_event(2)]

lemma guarded_if:
  "(b \<Longrightarrow> guarded W P p f) \<Longrightarrow> (\<not> b \<Longrightarrow> guarded W P p g) \<Longrightarrow> guarded W P p (if b then f else g)"
  by simp

lemma guarded_quiet: "quiet f \<Longrightarrow> guarded starts P p f"
  unfolding guarded_def using quietD[of f] by (fastforce simp: starts_def same_core_def)

lemma after_claim_quiet: "claim_kind c \<noteq> CkNew \<Longrightarrow> quiet (after_claim nv a e now c)"
  by (cases "claim_kind c") (auto simp: after_claim_def intro!: quiet_intros split: option.split)

lemma guarded_claim:
  assumes "\<And>j c. j_claim (sha nv) a i now (pa_journal p) = Inr (j, c) \<Longrightarrow> claim_kind c = CkNew \<Longrightarrow> P"
  shows "guarded starts P p (pbind (pclaim nv a i now) (after_claim nv a e now))"
proof -
  have "P" if run: "after_claim nv a e now c (p\<lparr>pa_journal := j\<rparr>) = (q, es, r)" and st: "starts p es q"
    and cl: "j_claim (sha nv) a i now (pa_journal p) = Inr (j, c)" for j c q es r
  proof (cases "claim_kind c = CkNew")
    case False
    then show ?thesis using quietD[OF after_claim_quiet run] st by (simp add: starts_def same_core_def)
  qed (rule assms[OF cl])
  then show ?thesis
    unfolding guarded_def by (auto simp: pbind_def pclaim_def starts_def split: prod.splits sum.splits)
qed

definition admitted :: "native \<Rightarrow> envelope \<Rightarrow> participant \<Rightarrow> assignment \<Rightarrow> bool" where
  "admitted nv e p a =
     (decode_assignment_value (env_payload e) = Inr a \<and>
      (case not_before_ms (asg_step a) of None \<Rightarrow> True | Some t \<Rightarrow> t \<le> clock nv 0) \<and>
      (case step_deadline_ms (asg_step a) of None \<Rightarrow> True | Some t \<Rightarrow> clock nv 0 \<le> t) \<and>
      is_ok (authorize (source_id e) (pa_robot_id p) a (clock nv 0) (pa_authorizer p)) \<and>
      (case nat_manifest nv 0 of
         Inl _ \<Rightarrow> False
       | Inr mf \<Rightarrow> (case manifest_capability mf (step_capability (asg_step a)) of
             None \<Rightarrow> False
           | Some cap \<Rightarrow> schema_valid nv (cap_input_schema cap) \<and>
                         conforms nv (cap_input_schema cap) (step_inputs (asg_step a)))) \<and>
      (case j_claim (sha nv) a (source_id e) (clock nv 0) (pa_journal p) of
         Inl _ \<Rightarrow> False
       | Inr (_, c) \<Rightarrow> claim_kind c = CkNew))"

text \<open>C8: Nothing is executed or queued without authority. When the handler of an assignment message hands work to
  the native adapter or to a worker, the message named this robot, its time window is open, the authority policy
  permits it to this issuer at this moment, the robot advertises the capability, the inputs conform to the advertised
  schema, and the journal has just accepted the assignment as new.\<close>

theorem execution_requires_authority:
  assumes "on_assignment nv e p = (q, es, r)" and "natives es \<noteq> [] \<or> pa_queue q \<noteq> pa_queue p"
  shows "rbind (jitem (env_payload e) ''step'') (\<lambda>st. jitem st ''assigned_robot_id'') = Inr (JStr (pa_robot_id p)) \<and>
     (\<exists>a. admitted nv e p a)" (is "?P")
proof -
  have "guarded starts ?P p (on_assignment nv e)"
    unfolding on_assignment_def Let_def
  proof (rule guarded_pgets, rule starts_plift, rule guarded_if, goal_cases)
    case (1 target)
    show ?case by (rule guarded_quiet) simp
  next
    case (2 target)
    show ?case
    proof (rule starts_plift, rule guarded_if[OF guarded_quiet[OF quiet_messages(4)]],
        rule guarded_if[OF guarded_quiet[OF quiet_messages(4)]], rule guarded_pgets)
      fix a
      assume a: "decode_assignment_value (env_payload e) = Inr a"
        and w: "\<not> (case not_before_ms (asg_step a) of None \<Rightarrow> False | Some t \<Rightarrow> clock nv 0 < t)"
          "\<not> (case step_deadline_ms (asg_step a) of None \<Rightarrow> False | Some t \<Rightarrow> t < clock nv 0)"
      show "guarded starts ?P p (case authorize (source_id e) (pa_robot_id p) a (clock nv 0) (pa_authorizer p) of
           Inl (AuthorizationError m) \<Rightarrow> reject nv a e (''Assignment authority rejected: '' @ m) (clock nv 0)
         | Inl err \<Rightarrow> plift (Inl err)
         | Inr _ \<Rightarrow>
             pbind (plift (nat_manifest nv 0)) (\<lambda>mf.
             case manifest_capability mf (step_capability (asg_step a)) of
               None \<Rightarrow> reject nv a e ''Assignment requests an unadvertised capability'' (clock nv 0)
             | Some cap \<Rightarrow>
                 if \<not> (schema_valid nv (cap_input_schema cap) \<and> conforms nv (cap_input_schema cap) (step_inputs (asg_step a)))
                 then reject nv a e ''Assignment input does not conform to the advertised schema'' (clock nv 0)
                 else pbind (pclaim nv a (source_id e) (clock nv 0)) (after_claim nv a e (clock nv 0))))"
      proof (cases "authorize (source_id e) (pa_robot_id p) a (clock nv 0) (pa_authorizer p)")
        case (Inl err)
        then show ?thesis by (cases err) (simp_all add: guarded_quiet quiet_intros)
      next
        case (Inr l)
        have P: ?P if "nat_manifest nv 0 = Inr mf" "manifest_capability mf (step_capability (asg_step a)) = Some cap"
          "schema_valid nv (cap_input_schema cap) \<and> conforms nv (cap_input_schema cap) (step_inputs (asg_step a))"
          "j_claim (sha nv) a (source_id e) (clock nv 0) (pa_journal p) = Inr (j, c)" "claim_kind c = CkNew" for mf cap j c
          using that a w Inr 2 by (auto simp: admitted_def split: option.splits)
        show ?thesis
          unfolding Inr sum.case
          by (intro starts_plift)
             (auto intro!: guarded_quiet[OF quiet_messages(4)] guarded_claim split: option.split, (use P in blast)+)
      qed
    qed
  qed
  then show ?thesis using guardedD assms by (fastforce simp: starts_def)
qed

theorem execution_requires_authority_witness:
  "\<exists>a. admitted sample_native (sample_order ''a1'') (sample_robot 1) a"
proof -
  let ?s = "on_assignment sample_native (sample_order ''a1'') (sample_robot 1)"
  have "length (pa_queue (fst ?s)) = 1" by code_simp
  then have "pa_queue (fst ?s) \<noteq> pa_queue (sample_robot 1)" by (auto simp: sample_robot_def)
  then show ?thesis
    using execution_requires_authority[of sample_native "sample_order ''a1''" "sample_robot 1" "fst ?s" "fst (snd ?s)" "snd (snd ?s)"]
    by simp
qed

text \<open>What the participant reports as the result of native execution. It is the adapter's own outcome only when
  the adapter answered for this assignment and this robot and still advertises the capability, and, for a success,
  its outputs conform to the advertised output schema; any exception or mismatch gives a failed outcome with status
  \<open>unknown\<close>, never a success and never a definite failure.\<close>

theorem native_fault_is_unknown:
  assumes "executed_outcome nv robot a = Inr oc"
  shows "oc_assignment_id oc = assignment_id a \<and> oc_robot_id oc = robot \<and>
    (if is_ok (native_outcome nv robot a)
     then nat_accept nv a = Inr oc \<and>
       (\<exists>mf cap. nat_manifest nv 1 = Inr mf \<and> manifest_capability mf (step_capability (asg_step a)) = Some cap \<and>
          (oc_status oc = AsSucceeded \<longrightarrow> conforms nv (cap_output_schema cap) (oc_outputs oc)))
     else oc_status oc = AsUnknown \<and> \<not> oc_succeeded oc)"
proof (cases "native_outcome nv robot a")
  case (Inl err)
  then show ?thesis using assms by (auto simp: executed_outcome_def mk_outcome_Inr_iff resolve_status_def)
next
  case (Inr oc')
  then have "oc' = oc" using assms by (simp add: executed_outcome_def)
  then show ?thesis using Inr unfolding native_outcome_def by (auto simp: res_simps split: option.splits if_splits)
qed

theorem native_fault_is_unknown_witness:
  "(\<exists>oc. executed_outcome sample_native ''r1'' (sample_assignment ''a1'' []) = Inr oc \<and> oc_status oc = AsSucceeded) \<and>
   (\<exists>oc. executed_outcome sample_native ''r1'' (sample_assignment ''a2'' []) = Inr oc \<and> oc_status oc = AsUnknown)"
proof -
  let ?good = "executed_outcome sample_native ''r1'' (sample_assignment ''a1'' [])"
  let ?bad = "executed_outcome sample_native ''r1'' (sample_assignment ''a2'' [])"
  have ok: "is_ok ?good \<and> (case ?good of Inr oc \<Rightarrow> oc_status oc = AsSucceeded | Inl _ \<Rightarrow> False)" by code_simp
  have bad: "is_ok ?bad \<and> \<not> is_ok (native_outcome sample_native ''r1'' (sample_assignment ''a2'' []))" by code_simp
  obtain oc where oc: "?bad = Inr oc" using bad by (auto simp: is_ok_iff)
  have "oc_status oc = AsUnknown" using native_fault_is_unknown[OF oc] bad by simp
  then show ?thesis using ok oc by (auto split: sum.splits)
qed

text \<open>Computations that only publish messages.\<close>

definition publishes :: "'a pm \<Rightarrow> bool" where
  "publishes f = (\<forall>p q es r. f p = (q, es, r) \<longrightarrow> (\<forall>x\<in>set es. \<exists>e. x = Published e))"

named_theorems publishes_intros \<open>computations that only publish\<close>

lemma publishes_basic [publishes_intros]:
  "publishes (pret x)" "publishes (plift y)" "publishes (pgets f)" "publishes (pmodify g)"
  "publishes (pemit (Published e))"
  by (auto simp: publishes_def pret_def plift_def pgets_def pmodify_def pemit_def)

lemma publishes_pbind [publishes_intros]: "publishes f \<Longrightarrow> (\<And>x. publishes (g x)) \<Longrightarrow> publishes (pbind f g)"
  unfolding publishes_def by (fastforce elim!: pbind_cases)

lemma publishes_pcomplete [publishes_intros]: "publishes (pcomplete nv a oc now)"
  by (auto simp: publishes_def pcomplete_def split: sum.splits)

lemma publishes_messages [publishes_intros]:
  "publishes (send nv t b now c s)" "publishes (send_outcome nv oc now e)"
  "publishes (send_cancellation_ack nv req st d e now)"
  by (simp_all add: send_def send_outcome_def send_cancellation_ack_def publishes_intros)

lemma guarded_publishes: "publishes f \<Longrightarrow> guarded cancels P p f"
  unfolding guarded_def publishes_def cancels_def by blast

text \<open>The adapter is asked to cancel only work in flight of the same issuer. When the handler of a cancellation
  request calls the adapter, the request named this robot and an assignment of the journal that was issued by the
  sender of the request, has no stored outcome, and whose execution state is not unknown.\<close>

theorem cancellation_reaches_own_work_only:
  assumes "on_cancellation_request nv e p = (q, es, r)" and "NativeCancel k reason \<in> set es"
  shows "\<exists>aid rec. jitem (env_payload e) ''assignment_id'' = Inr (JStr aid) \<and>
     jitem (env_payload e) ''robot_id'' = Inr (JStr (pa_robot_id p)) \<and> j_lookup aid (pa_journal p) = Inr (Some rec) \<and>
     jr_issuer_id rec = source_id e \<and> jr_outcome rec = None \<and> jr_status rec \<noteq> AsUnknown" (is ?P)
proof -
  have ack: "publishes (send_cancellation_ack nv rq st d e t)"
    "publishes (pbind (send_cancellation_ack nv rq st d e t) (\<lambda>_. send_outcome nv oc t' e))" for rq st d t oc t'
    by (intro publishes_intros)+
  have "guarded cancels ?P p (on_cancellation_request nv e)"
    unfolding on_cancellation_request_def
  proof (rule cancels_plift, rule guarded_pgets, rule guarded_if, goal_cases)
    case (1 request)
    show ?case by (rule guarded_publishes) (rule publishes_intros)
  next
    case (2 request)
    then have rq: "jitem (env_payload e) ''assignment_id'' = Inr (JStr (cr_assignment_id request))"
      "jitem (env_payload e) ''robot_id'' = Inr (JStr (pa_robot_id p))"
      by (auto simp: res_simps as_str_Inr_iff post_init_cancellation_request_def)
    have P: ?P if "j_lookup (cr_assignment_id request) (pa_journal p) = Inr (Some rec)" "jr_issuer_id rec = source_id e"
      "jr_outcome rec = None" "jr_status rec \<noteq> AsUnknown" for rec
      using that rq by blast
    have look: "guarded cancels ?P p (pbind (plookup aid) g)"
      if "\<And>y. j_lookup aid (pa_journal p) = Inr y \<Longrightarrow> guarded cancels ?P p (g y)" for aid and g :: "journal_record option \<Rightarrow> unit pm"
      using that unfolding guarded_def plookup_def
      by (auto simp: pbind_def pgets_def plift_def cancels_def split: prod.splits sum.splits)
    show ?case
    proof (rule look, goal_cases)
      case (1 found)
      show ?case
      proof (cases found)
        case None
        then show ?thesis by (simp add: guarded_publishes publishes_intros)
      next
        case (Some rec)
        show ?thesis
        proof (cases "jr_issuer_id rec = source_id e \<and> jr_outcome rec = None \<and> jr_status rec \<noteq> AsUnknown")
          case True
          then have ?P using P[of rec] 1 Some by blast
          then show ?thesis by (simp add: guarded_def)
        next
          case False
          then show ?thesis
            unfolding Some option.case
            by (cases "jr_outcome rec") (auto intro!: guarded_publishes ack publishes_basic(1))
        qed
      qed
    qed
  qed
  then show ?thesis using guardedD assms by (fastforce simp: cancels_def)
qed

definition sample_claimed :: participant where
  "sample_claimed = (case j_claim id (sample_assignment ''a1'' []) ''c1'' 1 (SqliteJournal sj_empty) of
     Inr (j, _) \<Rightarrow> (sample_robot 1)\<lparr>pa_journal := j\<rparr> | Inl _ \<Rightarrow> sample_robot 1)"

definition sample_cancel :: envelope where
  "sample_cancel = make_envelope ''m8'' ''cancellation_request'' ''c1'' ''cs'' 2 1000
     (JObj [(''assignment_id'', JStr ''a1''), (''robot_id'', JStr ''r1''), (''reason'', JStr ''stop'')]) None
     OPERATIONAL_STREAM"

theorem cancellation_reaches_own_work_only_witness:
  "\<exists>aid rec. jitem (env_payload sample_cancel) ''assignment_id'' = Inr (JStr aid) \<and>
     j_lookup aid (pa_journal sample_claimed) = Inr (Some rec) \<and> jr_outcome rec = None"
proof -
  let ?nv = "sample_native\<lparr>nat_cancel := \<lambda>_ _. Inl (NativeError ''TimeoutError'')\<rparr>"
  let ?s = "on_cancellation_request ?nv sample_cancel sample_claimed"
  have "fst (snd ?s) = [NativeCancel ''a1'' ''stop'']" by code_simp
  then have "NativeCancel ''a1'' ''stop'' \<in> set (fst (snd ?s))" by simp
  then show ?thesis
    using cancellation_reaches_own_work_only[of ?nv sample_cancel sample_claimed "fst ?s" "fst (snd ?s)" "snd (snd ?s)"]
    by (metis prod.collapse)
qed

end
