(* ===== verification/Plan_Validation.thy ===== *)
theory Plan_Validation
  imports Transport Registry
begin

text \<open>
  \<open>collaboration.py\<close>, \<open>validate_plan\<close>: what the coordinator checks of a plan an untrusted planner proposed.
  The dependency check is the recursive depth-first search of the source with its two sets \<open>visiting\<close> and
  \<open>visited\<close> as lists. A call spends one unit of fuel, so that the recursion is total; the theorem
  \<open>cycle_check_exact\<close> shows that one unit more than there are steps is always enough (the plan has at most 256
  steps, below the recursion limit of the interpreter), and that the search accepts exactly the acyclic plans.
\<close>

section \<open>Size of a message\<close>

text \<open>The envelope is built with a fresh \<open>uuid4\<close>, 36 characters whatever they are.\<close>

definition validate_core_message_size :: "string \<Rightarrow> json \<Rightarrow> unit res" where
  "validate_core_message_size mtype body =
     (case encode_envelope (make_envelope (replicate 36 (CHR ''0'')) mtype (replicate 128 (CHR ''s'')) (replicate 128 (CHR ''s''))
             1 0 body (Some (replicate 128 (CHR ''c''))) OPERATIONAL_STREAM) of
        Inr _ \<Rightarrow> Inr ()
      | Inl (ProtocolDecodeError _) \<Rightarrow> Inl (PlanValidationError (mtype @ '' does not fit the 64 KiB core profile''))
      | Inl e \<Rightarrow> Inl e)"

section \<open>The dependency search\<close>

type_synonym graph = "string \<Rightarrow> string list option"
type_synonym marks = "string list \<times> string list"

definition cycle_error :: error where
  "cycle_error = PlanValidationError ''plan contains a dependency cycle''"

function visit :: "nat \<Rightarrow> graph \<Rightarrow> string \<Rightarrow> marks \<Rightarrow> marks res"
  and visit_list :: "nat \<Rightarrow> graph \<Rightarrow> string list \<Rightarrow> marks \<Rightarrow> marks res" where
  "visit 0 g n m = Inl (RuntimeError ''RecursionError'')"
| "visit (Suc k) g n m =
     (if n \<in> set (fst m) then Inl cycle_error
      else if n \<in> set (snd m) then Inr m
      else (case g n of
          None \<Rightarrow> Inl (KeyError n)
        | Some deps \<Rightarrow>
            rbind (visit_list k g deps (n # fst m, snd m)) (\<lambda>m'. Inr (removeAll n (fst m'), snd m' @ [n]))))"
| "visit_list k g [] m = Inr m"
| "visit_list k g (n # ns) m = rbind (visit k g n m) (visit_list k g ns)"
  by pat_completeness auto
termination
  by (relation "measures [\<lambda>x. case x of Inl (k, _) \<Rightarrow> k | Inr (k, _) \<Rightarrow> k,
                          \<lambda>x. case x of Inl _ \<Rightarrow> 0 | Inr (_, _, ns, _) \<Rightarrow> Suc (length ns)]") auto

definition graph_of :: "plan_step list \<Rightarrow> graph" where
  "graph_of steps = map_of (map (\<lambda>s. (step_id s, depends_on s)) steps)"

definition check_cycles :: "plan_step list \<Rightarrow> unit res" where
  "check_cycles steps =
     rbind (visit_list (Suc (length steps)) (graph_of steps) (map step_id steps) ([], [])) (\<lambda>_. Inr ())"

section \<open>The checks\<close>

definition check_plan_step :: "shared_goal \<Rightarrow> plan \<Rightarrow> registry \<Rightarrow> int \<Rightarrow> plan_step \<Rightarrow> unit res" where
  "check_plan_step goal plan reg now step =
     (let robot = assigned_robot_id step in
      rbind (require (robot \<in> set (participant_ids goal)) (PlanValidationError (''unknown participant: '' @ robot))) (\<lambda>_.
      case reg robot of
        None \<Rightarrow> Inl (PlanValidationError (''participant is absent or stale: '' @ robot))
      | Some peer \<Rightarrow>
          (case pv_manifest peer of
             None \<Rightarrow> Inl (PlanValidationError (''participant is absent or stale: '' @ robot))
           | Some mf \<Rightarrow>
               rbind (require (is_fresh reg robot now)
                        (PlanValidationError (''participant is absent or stale: '' @ robot))) (\<lambda>_.
               rbind (require (case manifest_capability mf (step_capability step) of
                         None \<Rightarrow> False | Some cap \<Rightarrow> cap_availability cap = AvAvailable)
                        (PlanValidationError (robot @ '' does not have available capability '' @ step_capability step))) (\<lambda>_.
               rbind (require (case (step_deadline_ms step, goal_deadline_ms goal) of
                         (Some sd, Some gd) \<Rightarrow> \<not> sd > gd | _ \<Rightarrow> True)
                        (PlanValidationError (''step exceeds goal deadline: '' @ step_id step))) (\<lambda>_.
               rbind (require (case step_deadline_ms step of Some sd \<Rightarrow> \<not> now > sd | None \<Rightarrow> True)
                        (PlanValidationError (''step deadline has passed: '' @ step_id step))) (\<lambda>_.
               require (list_all (\<lambda>d. d \<in> set (map step_id (plan_steps plan))) (depends_on step))
                        (PlanValidationError ''unknown dependencies'')))))))) "

definition validate_plan :: "shared_goal \<Rightarrow> plan \<Rightarrow> registry \<Rightarrow> int \<Rightarrow> unit res" where
  "validate_plan goal plan reg now =
     rbind (validate_core_message_size ''plan'' (plan_payload plan)) (\<lambda>_.
     rbind (require (\<not> (plan_goal_id plan \<noteq> goal_id goal \<or> plan_revision plan < 1 \<or> plan_steps plan = []))
              (PlanValidationError ''plan does not identify a valid goal and revision'')) (\<lambda>_.
     rbind (require (\<not> length (plan_steps plan) > 256) (PlanValidationError ''plan exceeds 256 steps'')) (\<lambda>_.
     rbind (require (list_all (\<lambda>s. step_id s \<noteq> []) (plan_steps plan) \<and> distinct (map step_id (plan_steps plan)))
              (PlanValidationError ''step identifiers must be non-empty and unique'')) (\<lambda>_.
     rbind (rforall (check_plan_step goal plan reg now) (plan_steps plan)) (\<lambda>_.
     check_cycles (plan_steps plan))))))"

section \<open>Correctness of the search\<close>

definition edges :: "graph \<Rightarrow> (string \<times> string) set" where
  "edges g = {(d, n). \<exists>ds. g n = Some ds \<and> d \<in> set ds}"

text \<open>\<open>visited\<close> lists the steps after their dependencies.\<close>

fun ordered :: "graph \<Rightarrow> string list \<Rightarrow> bool" where
  "ordered g [] = True"
| "ordered g (n # ns) = (n \<notin> set ns \<and> (\<exists>ds. g n = Some ds \<and> set ds \<subseteq> set ns) \<and> ordered g ns)"

text \<open>The stack is left as it was found.\<close>

lemma visit_stack:
  "visit k g n m = Inr m' \<Longrightarrow> fst m' = fst m"
  "visit_list k g ns m = Inr m' \<Longrightarrow> fst m' = fst m"
proof (induction k g n m and k g ns m arbitrary: m' and m' rule: visit_visit_list.induct)
  case (2 k g n m)
  show ?case
  proof (cases "n \<in> set (fst m) \<or> n \<in> set (snd m)")
    case True
    then show ?thesis using 2(2) by (auto split: if_splits)
  next
    case False
    then obtain ds m1 where "g n = Some ds" "visit_list k g ds (n # fst m, snd m) = Inr m1" "fst m' = removeAll n (fst m1)"
      using 2(2) by (auto simp: res_simps split: option.splits)
    then show ?thesis using 2(1)[of ds m1] False by simp
  qed
next
  case (4 k g n ns m)
  then obtain m1 where "visit k g n m = Inr m1" "visit_list k g ns m1 = Inr m'" by (auto simp: res_simps)
  then show ?case using 4(1,2) by metis
qed simp_all

lemma visit_ordered:
  "visit k g n m = Inr m' \<Longrightarrow> ordered g (rev (snd m)) \<Longrightarrow> set (fst m) \<inter> set (snd m) = {} \<Longrightarrow>
     ordered g (rev (snd m')) \<and> set (snd m) \<subseteq> set (snd m') \<and> n \<in> set (snd m') \<and> set (fst m) \<inter> set (snd m') = {}"
  "visit_list k g ns m = Inr m' \<Longrightarrow> ordered g (rev (snd m)) \<Longrightarrow> set (fst m) \<inter> set (snd m) = {} \<Longrightarrow>
     ordered g (rev (snd m')) \<and> set (snd m) \<subseteq> set (snd m') \<and> set ns \<subseteq> set (snd m') \<and> set (fst m) \<inter> set (snd m') = {}"
proof (induction k g n m and k g ns m arbitrary: m' and m' rule: visit_visit_list.induct)
  case (2 k g n m)
  show ?case
  proof (cases "n \<in> set (fst m) \<or> n \<in> set (snd m)")
    case True
    then show ?thesis using 2 by (auto split: if_splits)
  next
    case False
    then obtain ds m1 where d: "g n = Some ds" "visit_list k g ds (n # fst m, snd m) = Inr m1"
      "m' = (removeAll n (fst m1), snd m1 @ [n])"
      using 2(2) by (auto simp: res_simps split: option.splits)
    have "ordered g (rev (snd m1)) \<and> set (snd m) \<subseteq> set (snd m1) \<and> set ds \<subseteq> set (snd m1) \<and>
        set (n # fst m) \<inter> set (snd m1) = {}"
      using 2(1)[OF _ _ d(1) d(2)] False 2(3,4) by auto
    then show ?thesis using d False by auto
  qed
next
  case (4 k g n ns m)
  obtain m1 where m1: "visit k g n m = Inr m1" "visit_list k g ns m1 = Inr m'"
    using 4(3) by (auto simp: res_simps)
  have 1: "ordered g (rev (snd m1))" "set (snd m) \<subseteq> set (snd m1)" "n \<in> set (snd m1)" "set (fst m) \<inter> set (snd m1) = {}"
    using 4(1)[OF m1(1) 4(4,5)] by auto
  have "set (fst m1) \<inter> set (snd m1) = {}" using 1(4) visit_stack(1)[OF m1(1)] by simp
  then show ?case using 4(2)[OF m1 1(1)] 1 visit_stack(1)[OF m1(1)] by auto
qed simp_all

lemma ordered_pos:
  "ordered g ns \<Longrightarrow> (d, n) \<in> edges g \<Longrightarrow> n \<in> set ns \<Longrightarrow>
     d \<in> set ns \<and> length (takeWhile (\<lambda>x. x \<noteq> n) ns) < length (takeWhile (\<lambda>x. x \<noteq> d) ns)"
proof (induction ns)
  case (Cons a ns)
  then show ?case by (cases "n = a"; cases "d = a") (auto simp: edges_def)
qed simp

lemma ordered_acyclic:
  assumes "ordered g ns" "\<And>n. g n \<noteq> None \<Longrightarrow> n \<in> set ns"
  shows "acyclic (edges g)"
proof -
  let ?f = "\<lambda>n. length (takeWhile (\<lambda>x. x \<noteq> n) ns)"
  have "edges g \<subseteq> (measure ?f)\<inverse>"
    using ordered_pos[OF assms(1)] assms(2) by (fastforce simp: edges_def)
  then have "acyclic ((measure ?f)\<inverse>) \<Longrightarrow> acyclic (edges g)" by (rule acyclic_subset[rotated])
  then show ?thesis by (simp add: wf_acyclic)
qed

text \<open>The search reports a cycle only when there is one: the stack is a chain of dependencies.\<close>

lemma visit_cycle:
  "visit k g n m = Inl e \<Longrightarrow> e = cycle_error \<Longrightarrow> \<forall>v\<in>set (fst m). (n, v) \<in> (edges g)\<^sup>+ \<Longrightarrow> \<not> acyclic (edges g)"
  "visit_list k g ns m = Inl e \<Longrightarrow> e = cycle_error \<Longrightarrow> \<forall>d\<in>set ns. \<forall>v\<in>set (fst m). (d, v) \<in> (edges g)\<^sup>+ \<Longrightarrow>
     \<not> acyclic (edges g)"
proof (induction k g n m and k g ns m rule: visit_visit_list.induct)
  case (2 k g n m)
  show ?case
  proof (cases "n \<in> set (fst m)")
    case True
    then have "(n, n) \<in> (edges g)\<^sup>+" using 2(4) by blast
    then show ?thesis by (auto simp: acyclic_def)
  next
    case False
    then obtain ds where d: "n \<notin> set (snd m)" "g n = Some ds" "visit_list k g ds (n # fst m, snd m) = Inl e"
      using 2(2,3) by (auto simp: res_simps cycle_error_def split: if_splits option.splits)
    have "(x, v) \<in> (edges g)\<^sup>+" if "x \<in> set ds" "v \<in> set (n # fst m)" for x v
    proof -
      have e: "(x, n) \<in> edges g" using d(2) that(1) by (auto simp: edges_def)
      show ?thesis using that(2) e 2(4) by (cases "v = n") (auto intro: trancl_into_trancl2)
    qed
    then show ?thesis using 2(1)[OF False d(1,2,3) 2(3)] by simp
  qed
next
  case (4 k g n ns m)
  show ?case
  proof (cases "visit k g n m")
    case (Inl e')
    then show ?thesis using 4(1)[of ] 4(3,4,5) by simp
  next
    case (Inr m1)
    then have "visit_list k g ns m1 = Inl e" "fst m1 = fst m" using 4(3) visit_stack(1) by auto
    then show ?thesis using 4(2)[OF Inr] 4(4,5) by simp
  qed
qed (simp_all add: cycle_error_def)

text \<open>Enough fuel, and no unknown node: the only failure left is the cycle error.\<close>

lemma visit_total:
  "n \<in> set ids \<Longrightarrow> (\<forall>x\<in>set ids. \<exists>ds. g x = Some ds \<and> set ds \<subseteq> set ids) \<Longrightarrow> distinct (fst m) \<Longrightarrow> set (fst m) \<subseteq> set ids \<Longrightarrow>
     length ids < k + length (fst m) \<Longrightarrow> is_ok (visit k g n m) \<or> visit k g n m = Inl cycle_error"
  "set ns \<subseteq> set ids \<Longrightarrow> (\<forall>x\<in>set ids. \<exists>ds. g x = Some ds \<and> set ds \<subseteq> set ids) \<Longrightarrow> distinct (fst m) \<Longrightarrow> set (fst m) \<subseteq> set ids \<Longrightarrow>
     length ids < k + length (fst m) \<Longrightarrow> is_ok (visit_list k g ns m) \<or> visit_list k g ns m = Inl cycle_error"
proof (induction k g n m and k g ns m rule: visit_visit_list.induct)
  case (1 g n m)
  have "length (fst m) \<le> length ids"
    using 1(3,4) by (metis card_length card_mono distinct_card finite_set order_trans)
  then show ?case using 1(5) by simp
next
  case (2 k g n m)
  obtain ds where ds: "g n = Some ds" "set ds \<subseteq> set ids" using 2(2,3) by blast
  show ?case
  proof (cases "n \<in> set (fst m) \<or> n \<in> set (snd m)")
    case True
    then show ?thesis by auto
  next
    case False
    then have "is_ok (visit_list k g ds (n # fst m, snd m)) \<or> visit_list k g ds (n # fst m, snd m) = Inl cycle_error"
      using 2(1)[OF _ _ ds(1) ds(2) 2(3)] 2(2,4,5,6) by simp
    then show ?thesis using False ds(1) by (auto simp: is_ok_iff)
  qed
next
  case (4 k g n ns m)
  show ?case
  proof (cases "visit k g n m")
    case (Inl e)
    then show ?thesis using 4(1,3,4,5,6,7) by simp
  next
    case (Inr m1)
    then have "fst m1 = fst m" using visit_stack(1) by simp
    then show ?thesis using 4(2)[OF Inr] 4(3,4,5,6,7) Inr by simp
  qed
qed simp

lemma graph_of_closed:
  assumes "distinct (map step_id steps)" "\<forall>s\<in>set steps. set (depends_on s) \<subseteq> set (map step_id steps)"
  shows "\<forall>x\<in>set (map step_id steps). \<exists>ds. graph_of steps x = Some ds \<and> set ds \<subseteq> set (map step_id steps)"
    and "graph_of steps x \<noteq> None \<longleftrightarrow> x \<in> set (map step_id steps)"
    and "edges (graph_of steps) = {(d, step_id s) | d s. s \<in> set steps \<and> d \<in> set (depends_on s)}"
proof -
  have d: "distinct (map fst (map (\<lambda>s. (step_id s, depends_on s)) steps))" using assms(1) by (simp add: comp_def)
  have g: "graph_of steps (step_id s) = Some (depends_on s)" if "s \<in> set steps" for s
    using map_of_is_SomeI[OF d] that by (force simp: graph_of_def)
  show "\<forall>x\<in>set (map step_id steps). \<exists>ds. graph_of steps x = Some ds \<and> set ds \<subseteq> set (map step_id steps)"
    using g assms(2) by auto
  show dom: "graph_of steps x \<noteq> None \<longleftrightarrow> x \<in> set (map step_id steps)" for x
    by (simp add: graph_of_def map_of_eq_None_iff image_image)
  show "edges (graph_of steps) = {(d, step_id s) | d s. s \<in> set steps \<and> d \<in> set (depends_on s)}"
    using g by (auto simp: edges_def graph_of_def dest!: map_of_SomeD)
qed

lemma check_cycles_spec:
  assumes "distinct (map step_id steps)" "\<forall>s\<in>set steps. set (depends_on s) \<subseteq> set (map step_id steps)"
  shows "check_cycles steps =
    (if acyclic {(d, step_id s) | d s. s \<in> set steps \<and> d \<in> set (depends_on s)} then Inr () else Inl cycle_error)"
proof -
  let ?g = "graph_of steps" and ?ids = "map step_id steps"
  let ?r = "visit_list (Suc (length steps)) ?g ?ids ([], [])"
  have tot: "is_ok ?r \<or> ?r = Inl cycle_error"
    by (rule visit_total(2)[OF subset_refl graph_of_closed(1)[OF assms]]) simp_all
  have "acyclic (edges ?g)" if "?r = Inr m" for m
  proof -
    have "ordered ?g (rev (snd m)) \<and> set ?ids \<subseteq> set (snd m)" using visit_ordered(2)[OF that] by simp
    then show ?thesis using graph_of_closed(2)[OF assms] by (intro ordered_acyclic[of ?g "rev (snd m)"]) auto
  qed
  moreover have "\<not> acyclic (edges ?g)" if "?r = Inl cycle_error" using visit_cycle(2)[OF that refl] by simp
  ultimately show ?thesis
    using tot unfolding check_cycles_def graph_of_closed(3)[OF assms] by (auto simp: is_ok_iff)
qed

text \<open>C16: The dependency check is exact and terminates. For steps with distinct ids whose dependencies are steps of the
  plan, the depth-first search never runs out of fuel; it accepts when the dependency relation is acyclic and
  otherwise raises the cycle error.\<close>

theorem cycle_check_exact:
  assumes "distinct (map step_id steps)" "\<forall>s\<in>set steps. set (depends_on s) \<subseteq> set (map step_id steps)"
  shows "check_cycles steps =
    (if acyclic {(d, step_id s) | d s. s \<in> set steps \<and> d \<in> set (depends_on s)} then Inr () else Inl cycle_error)"
  by (rule check_cycles_spec[OF assms])

definition ring_step :: "string \<Rightarrow> string list \<Rightarrow> plan_step" where
  "ring_step sid deps = (sample_step sid ''r1'' [])\<lparr>depends_on := deps\<rparr>"

theorem cycle_check_exact_witness:
  "check_cycles [ring_step ''a'' [], ring_step ''b'' [''a'']] = Inr () \<and>
   check_cycles [ring_step ''a'' [''b''], ring_step ''b'' [''a'']] = Inl cycle_error \<and>
   \<not> acyclic {(d, step_id s) | d s. s \<in> set [ring_step ''a'' [''b''], ring_step ''b'' [''a'']] \<and> d \<in> set (depends_on s)}"
proof -
  have 1: "check_cycles [ring_step ''a'' [], ring_step ''b'' [''a'']] = Inr ()"
    "check_cycles [ring_step ''a'' [''b''], ring_step ''b'' [''a'']] = Inl cycle_error" by code_simp+
  have "distinct (map step_id [ring_step ''a'' [''b''], ring_step ''b'' [''a'']])"
    "\<forall>s\<in>set [ring_step ''a'' [''b''], ring_step ''b'' [''a'']].
       set (depends_on s) \<subseteq> set (map step_id [ring_step ''a'' [''b''], ring_step ''b'' [''a'']])"
    by (simp_all add: ring_step_def sample_step_def)
  from cycle_check_exact[OF this] 1 show ?thesis by (auto split: if_splits)
qed

text \<open>Only sound plans pass. A plan the coordinator accepts is for this goal with a positive revision, fits a message,
  has 1 to 256 steps with distinct non-empty ids and acyclic dependencies inside the plan, and every step goes to a
  participant of the goal that is present and fresh and advertises the capability as available, with a deadline
  that has not passed and does not exceed the goal's.\<close>

theorem accepted_plan_sound:
  assumes "validate_plan goal plan reg now = Inr ()"
  shows "plan_goal_id plan = goal_id goal \<and> 1 \<le> plan_revision plan \<and>
    1 \<le> length (plan_steps plan) \<and> length (plan_steps plan) \<le> 256 \<and> distinct (map step_id (plan_steps plan)) \<and>
    acyclic {(d, step_id s) | d s. s \<in> set (plan_steps plan) \<and> d \<in> set (depends_on s)} \<and>
    (\<forall>s\<in>set (plan_steps plan). step_id s \<noteq> [] \<and> set (depends_on s) \<subseteq> set (map step_id (plan_steps plan)) \<and>
       assigned_robot_id s \<in> set (participant_ids goal) \<and> is_fresh reg (assigned_robot_id s) now \<and>
       (\<exists>peer mf cap. reg (assigned_robot_id s) = Some peer \<and> pv_manifest peer = Some mf \<and>
          manifest_capability mf (step_capability s) = Some cap \<and> cap_availability cap = AvAvailable) \<and>
       (\<forall>sd. step_deadline_ms s = Some sd \<longrightarrow> now \<le> sd \<and> (\<forall>gd. goal_deadline_ms goal = Some gd \<longrightarrow> sd \<le> gd)))"
proof -
  have v: "plan_goal_id plan = goal_id goal" "1 \<le> plan_revision plan" "plan_steps plan \<noteq> []" "length (plan_steps plan) \<le> 256"
    "list_all (\<lambda>s. step_id s \<noteq> []) (plan_steps plan)" "distinct (map step_id (plan_steps plan))"
    "\<forall>s\<in>set (plan_steps plan). check_plan_step goal plan reg now s = Inr ()" "check_cycles (plan_steps plan) = Inr ()"
    using assms by (auto simp: validate_plan_def res_simps)
  have step: "set (depends_on s) \<subseteq> set (map step_id (plan_steps plan)) \<and>
       assigned_robot_id s \<in> set (participant_ids goal) \<and> is_fresh reg (assigned_robot_id s) now \<and>
       (\<exists>peer mf cap. reg (assigned_robot_id s) = Some peer \<and> pv_manifest peer = Some mf \<and>
          manifest_capability mf (step_capability s) = Some cap \<and> cap_availability cap = AvAvailable) \<and>
       (\<forall>sd. step_deadline_ms s = Some sd \<longrightarrow> now \<le> sd \<and> (\<forall>gd. goal_deadline_ms goal = Some gd \<longrightarrow> sd \<le> gd))"
    if "s \<in> set (plan_steps plan)" for s
    using v(7) that
    by (fastforce simp: check_plan_step_def Let_def res_simps list_all_iff split: option.splits)
  have "acyclic {(d, step_id s) | d s. s \<in> set (plan_steps plan) \<and> d \<in> set (depends_on s)}"
    using check_cycles_spec[OF v(6)] step v(8) by (auto split: if_splits)
  then show ?thesis using v step by (auto simp: list_all_iff Suc_le_eq)
qed

definition sample_peer :: peer_view where
  "sample_peer = \<lparr>
     pv_manifest = Some \<lparr>mf_robot_id = ''r1'', mf_manufacturer = ''acme'', mf_model = ''m'', mf_robot_class = ''cart'',
       mf_capabilities = [\<lparr>cap_name = ''carry'', cap_description = ''carry trays'', cap_input_schema = JObj [],
         cap_output_schema = JObj [], cap_availability = AvAvailable\<rparr>], mf_adapter_version = ''1''\<rparr>,
     pv_state = Some \<lparr>st_robot_id = ''r1'', st_mode = MoIdle, st_safety = SaNormal, st_activity = ''idle'', st_intent = ''wait'',
       st_progress = JInt 0, st_summary = ''idle'', st_health = HeHealthy, st_battery = None, st_fresh_for_ms = 500,
       st_blockers = [], st_resources = [], st_assignment_id = None, st_pose = None, st_sensor_references = []\<rparr>,
     pv_state_timestamp_ms = 1000, pv_last_sequences = (\<lambda>_. None), pv_session_id = Some ''s''\<rparr>"

definition sample_registry :: registry where
  "sample_registry r = (if r = ''r1'' then Some sample_peer else None)"

definition ring_goal :: shared_goal where
  "ring_goal = \<lparr>goal_id = ''g1'', goal_description = ''g'', participant_ids = [''r1''], goal_constraints = JObj [],
     goal_deadline_ms = None\<rparr>"

definition ring_plan :: "plan_step list \<Rightarrow> plan" where
  "ring_plan steps = \<lparr>plan_id = ''p1'', plan_goal_id = ''g1'', planner_id = ''pl'', plan_summary = ''p'', plan_steps = steps,
     plan_revision = 1, supersedes_plan_id = None\<rparr>"

theorem accepted_plan_sound_witness:
  "validate_plan ring_goal (ring_plan [ring_step ''a'' []]) sample_registry 1100 = Inr () \<and>
   is_fresh sample_registry ''r1'' 1100"
proof -
  let ?p = "ring_plan [ring_step ''a'' []]"
  have v: "validate_plan ring_goal ?p sample_registry 1100 = Inr ()" by code_simp
  have "\<forall>s\<in>set (plan_steps ?p). is_fresh sample_registry (assigned_robot_id s) 1100"
    using accepted_plan_sound[OF v] by blast
  then show ?thesis using v by (simp add: ring_plan_def ring_step_def sample_step_def)
qed

end
