(* ===== verification/Coordinator_Store.thy ===== *)
theory Coordinator_Store
  imports Models
begin

text \<open>
  \<open>coordinator_store.py\<close>: the SQLite journal of the coordinator. The tables \<open>runs\<close>, \<open>run_steps\<close> and
  \<open>coordinator_metadata\<close> are lists of row records in the order of insertion (the \<open>rowid\<close>). An operation is
  one transaction: a function from the store to the new store and the result or exception; an exception inside
  the transaction rolls back, so the store is then the old one. The text column \<open>dependencies_json\<close> is kept
  as the list of strings it prints.

  The second half relates the tables to the state machine of a step (\<open>step_next\<close>) and shows that every
  operation preserves the invariant \<open>cs_inv\<close> and moves steps along that machine only.
\<close>

section \<open>Rows\<close>

datatype run_status = RunActive | RunSucceeded | RunFailed | RunCancelled | RunUnknown

datatype step_status =
    StPending | StDispatched | StAccepted | StCancellationRequested
  | StSucceeded | StFailed | StRejected | StCancelled | StUnknown

definition TERMINAL_STEP_STATUSES :: "step_status set" where
  "TERMINAL_STEP_STATUSES = {StSucceeded, StFailed, StRejected, StCancelled, StUnknown}"

record run_row =
  run_plan_id :: string
  run_goal_id :: string
  run_goal_json :: string
  run_plan_json :: string
  run_state :: run_status
  run_created_at_ms :: int
  run_updated_at_ms :: int

record step_row =
  sr_assignment_id :: string
  sr_plan_id :: string
  sr_step_id :: string
  sr_assignment_json :: string
  sr_dependencies :: "string list"
  sr_status :: step_status
  sr_updated_at_ms :: int

record coordinator_store =
  cs_runs :: "run_row list"
  cs_steps :: "step_row list"
  cs_coordinator_id :: "string option"

record run_snapshot =
  snap_plan_id :: string
  snap_goal_id :: string
  snap_status :: run_status
  snap_steps :: "(string \<times> step_status) list"

record run_summary =
  sum_plan_id :: string
  sum_goal_id :: string
  sum_status :: run_status
  sum_created_at_ms :: int
  sum_updated_at_ms :: int

type_synonym 'a store_op = "coordinator_store \<Rightarrow> coordinator_store \<times> 'a res"

definition cs_empty :: coordinator_store where
  "cs_empty = \<lparr>cs_runs = [], cs_steps = [], cs_coordinator_id = None\<rparr>"

definition find_run :: "string \<Rightarrow> coordinator_store \<Rightarrow> run_row option" where
  "find_run plan s = find (\<lambda>r. run_plan_id r = plan) (cs_runs s)"

definition find_step :: "string \<Rightarrow> coordinator_store \<Rightarrow> step_row option" where
  "find_step aid s = find (\<lambda>r. sr_assignment_id r = aid) (cs_steps s)"

definition plan_rows :: "string \<Rightarrow> coordinator_store \<Rightarrow> step_row list" where
  "plan_rows plan s = filter (\<lambda>r. sr_plan_id r = plan) (cs_steps s)"

definition set_step_status :: "step_status \<Rightarrow> int \<Rightarrow> step_row \<Rightarrow> step_row" where
  "set_step_status st now r = r\<lparr>sr_status := st, sr_updated_at_ms := now\<rparr>"

section \<open>Operations\<close>

definition in_flight :: "step_status \<Rightarrow> bool" where
  "in_flight st = (st = StDispatched \<or> st = StAccepted \<or> st = StCancellationRequested)"

definition recover_interrupted_runs :: "coordinator_store \<Rightarrow> coordinator_store" where
  "recover_interrupted_runs s =
     (let affected = remdups (map sr_plan_id (filter (\<lambda>r. in_flight (sr_status r)) (cs_steps s))) in
      s\<lparr>cs_steps := upd_where (\<lambda>r. in_flight (sr_status r)) (\<lambda>r. r\<lparr>sr_status := StUnknown\<rparr>) (cs_steps s),
        cs_runs := upd_where (\<lambda>r. run_plan_id r \<in> set affected) (\<lambda>r. r\<lparr>run_state := RunUnknown\<rparr>) (cs_runs s)\<rparr>)"

definition cs_open :: "bool \<Rightarrow> coordinator_store \<Rightarrow> coordinator_store" where
  "cs_open recover s = (if recover then recover_interrupted_runs s else s)"

definition bind_coordinator :: "string \<Rightarrow> unit store_op" where
  "bind_coordinator cid s =
     (if cid = [] \<or> length cid > 128 then (s, Inl (ValueError ''coordinator identity is required and bounded''))
      else (case cs_coordinator_id s of
          None \<Rightarrow> (s\<lparr>cs_coordinator_id := Some cid\<rparr>, Inr ())
        | Some other \<Rightarrow>
            if other \<noteq> cid then (s, Inl (ValueError ''coordinator journal belongs to another identity''))
            else (s, Inr ())))"

text \<open>The inserts of \<open>create_run\<close>: primary key and \<open>UNIQUE(plan_id, step_id)\<close> are checked row by row.\<close>

fun insert_steps :: "string \<Rightarrow> int \<Rightarrow> assignment list \<Rightarrow> step_row list \<Rightarrow> step_row list res" where
  "insert_steps plan now [] rows = Inr rows"
| "insert_steps plan now (a # as) rows =
     (if (\<exists>r\<in>set rows. sr_assignment_id r = assignment_id a \<or>
            (sr_plan_id r = plan \<and> sr_step_id r = step_id (asg_step a)))
      then Inl (IntegrityError ''UNIQUE constraint failed'')
      else insert_steps plan now as (rows @ [\<lparr>sr_assignment_id = assignment_id a, sr_plan_id = plan,
             sr_step_id = step_id (asg_step a), sr_assignment_json = assignment_json a,
             sr_dependencies = depends_on (asg_step a), sr_status = StPending, sr_updated_at_ms = now\<rparr>]))"

definition create_run :: "shared_goal \<Rightarrow> plan \<Rightarrow> assignment list \<Rightarrow> int \<Rightarrow> unit store_op" where
  "create_run goal plan assignments now s =
     (let goal_json = json_dumps (shared_goal_payload goal); plan_json = json_dumps (plan_payload plan) in
      case find_run (plan_id plan) s of
        Some r \<Rightarrow>
          if (run_goal_json r, run_plan_json r) \<noteq> (goal_json, plan_json)
          then (s, Inl (ValueError ''plan_id is already bound to different content''))
          else (s, Inr ())
      | None \<Rightarrow>
          (case insert_steps (plan_id plan) now assignments (cs_steps s) of
             Inl e \<Rightarrow> (s, Inl e)
           | Inr rows \<Rightarrow>
               (s\<lparr>cs_runs := cs_runs s @ [\<lparr>run_plan_id = plan_id plan, run_goal_id = goal_id goal,
                   run_goal_json = goal_json, run_plan_json = plan_json, run_state = RunActive,
                   run_created_at_ms = now, run_updated_at_ms = now\<rparr>],
                  cs_steps := rows\<rparr>, Inr ())))"

definition step_statuses :: "string \<Rightarrow> coordinator_store \<Rightarrow> string \<Rightarrow> step_status option" where
  "step_statuses plan s = map_of (map (\<lambda>r. (sr_step_id r, sr_status r)) (plan_rows plan s))"

definition row_ready :: "string \<Rightarrow> coordinator_store \<Rightarrow> step_row \<Rightarrow> bool" where
  "row_ready plan s r =
     (sr_status r = StPending \<and> list_all (\<lambda>d. step_statuses plan s d = Some StSucceeded) (sr_dependencies r))"

definition ready_assignments :: "string \<Rightarrow> coordinator_store \<Rightarrow> assignment list res" where
  "ready_assignments plan s =
     (case find_run plan s of
        None \<Rightarrow> Inl (KeyError plan)
      | Some run \<Rightarrow>
          if run_state run \<noteq> RunActive then Inr []
          else rmap (\<lambda>r. decode_assignment (sr_assignment_json r)) (filter (row_ready plan s) (plan_rows plan s)))"

definition active_plan_ids :: "coordinator_store \<Rightarrow> string list" where
  "active_plan_ids s =
     map run_plan_id (sort_key run_created_at_ms (filter (\<lambda>r. run_state r = RunActive) (cs_runs s)))"

definition unknown_assignments :: "string \<Rightarrow> coordinator_store \<Rightarrow> assignment list res" where
  "unknown_assignments plan s =
     rmap (\<lambda>r. decode_assignment (sr_assignment_json r)) (filter (\<lambda>r. sr_status r = StUnknown) (plan_rows plan s))"

definition mark_dispatched :: "string \<Rightarrow> int \<Rightarrow> bool store_op" where
  "mark_dispatched aid now s =
     (let hit = (\<lambda>r. sr_assignment_id r = aid \<and> sr_status r = StPending) in
      (s\<lparr>cs_steps := upd_where hit (set_step_status StDispatched now) (cs_steps s)\<rparr>,
       Inr (length (filter hit (cs_steps s)) = 1)))"

definition run_status_of :: "step_status set \<Rightarrow> run_status" where
  "run_status_of sts =
     (if StUnknown \<in> sts then RunUnknown
      else if sts \<inter> {StFailed, StRejected} \<noteq> {} then RunFailed
      else if sts = {StSucceeded} then RunSucceeded
      else if sts \<subseteq> {StSucceeded, StCancelled} then RunCancelled
      else RunActive)"

definition refresh_run :: "string \<Rightarrow> int \<Rightarrow> coordinator_store \<Rightarrow> coordinator_store" where
  "refresh_run plan now s =
     s\<lparr>cs_runs := upd_where (\<lambda>r. run_plan_id r = plan)
         (\<lambda>r. r\<lparr>run_state := run_status_of (set (map sr_status (plan_rows plan s))), run_updated_at_ms := now\<rparr>)
         (cs_runs s)\<rparr>"

definition cancellable :: "step_status \<Rightarrow> bool" where
  "cancellable st = (st = StDispatched \<or> st = StAccepted \<or> st = StUnknown)"

definition request_cancellation :: "string \<Rightarrow> int \<Rightarrow> assignment list store_op" where
  "request_cancellation plan now s =
     (case find_run plan s of
        None \<Rightarrow> (s, Inl (KeyError plan))
      | Some _ \<Rightarrow>
          (let rows = filter (\<lambda>r. cancellable (sr_status r)) (plan_rows plan s);
               s1 = s\<lparr>cs_steps := upd_where (\<lambda>r. sr_plan_id r = plan \<and> sr_status r = StPending)
                        (set_step_status StCancelled now) (cs_steps s)\<rparr>;
               s2 = s1\<lparr>cs_steps := upd_where (\<lambda>r. sr_plan_id r = plan \<and> cancellable (sr_status r))
                        (set_step_status StCancellationRequested now) (cs_steps s1)\<rparr> in
           (refresh_run plan now s2, rmap (\<lambda>r. decode_assignment (sr_assignment_json r)) rows)))"

definition set_status :: "string \<Rightarrow> step_status \<Rightarrow> int \<Rightarrow> coordinator_store \<Rightarrow> coordinator_store" where
  "set_status aid st now s =
     s\<lparr>cs_steps := upd_where (\<lambda>r. sr_assignment_id r = aid) (set_step_status st now) (cs_steps s)\<rparr>"

definition record_cancellation_acknowledgement :: "string \<Rightarrow> bool \<Rightarrow> int \<Rightarrow> string option store_op" where
  "record_cancellation_acknowledgement aid accepted now s =
     (case find_step aid s of
        None \<Rightarrow> (s, Inr None)
      | Some row \<Rightarrow>
          (let s1 = (if sr_status row = StCancellationRequested \<and> \<not> accepted
                     then set_status aid StUnknown now s else s) in
           (refresh_run (sr_plan_id row) now s1, Inr (Some (sr_plan_id row)))))"

definition transition :: "string \<Rightarrow> step_status \<Rightarrow> int \<Rightarrow> bool \<Rightarrow> string option store_op" where
  "transition aid target now from_ack s =
     (case find_step aid s of
        None \<Rightarrow> (s, Inr None)
      | Some row \<Rightarrow>
          (let plan = sr_plan_id row; current = sr_status row in
           if current \<in> TERMINAL_STEP_STATUSES then
             (if from_ack then (s, Inr (Some plan))
              else if current \<noteq> target then (s, Inl (ValueError ''terminal coordinator step status is immutable''))
              else (refresh_run plan now s, Inr (Some plan)))
           else if \<not> (if from_ack then current = StDispatched \<or> current = StAccepted
                      else current = StDispatched \<or> current = StAccepted \<or> current = StCancellationRequested)
           then (s, Inl (ValueError ''invalid step transition''))
           else (refresh_run plan now (set_status aid target now s), Inr (Some plan))))"

definition plan_for_assignment :: "string \<Rightarrow> coordinator_store \<Rightarrow> string option" where
  "plan_for_assignment aid s = map_option sr_plan_id (find_step aid s)"

definition record_acknowledgement :: "string \<Rightarrow> assignment_status \<Rightarrow> int \<Rightarrow> string option store_op" where
  "record_acknowledgement aid st now s =
     (case st of
        AsAccepted \<Rightarrow> transition aid StAccepted now True s
      | AsRejected \<Rightarrow> transition aid StRejected now True s
      | AsUnknown \<Rightarrow> transition aid StUnknown now True s
      | _ \<Rightarrow> (s, Inr (plan_for_assignment aid s)))"

definition outcome_step_status :: "assignment_status \<Rightarrow> step_status option" where
  "outcome_step_status st = (case st of
      AsSucceeded \<Rightarrow> Some StSucceeded | AsFailed \<Rightarrow> Some StFailed | AsRejected \<Rightarrow> Some StRejected
    | AsCancelled \<Rightarrow> Some StCancelled | AsUnknown \<Rightarrow> Some StUnknown | AsAccepted \<Rightarrow> None)"

definition record_outcome :: "string \<Rightarrow> assignment_status \<Rightarrow> int \<Rightarrow> string option store_op" where
  "record_outcome aid st now s =
     (case outcome_step_status st of
        None \<Rightarrow> (s, Inl (ValueError ''outcome status is not terminal''))
      | Some target \<Rightarrow> transition aid target now False s)"

definition reconcile_outcome :: "string \<Rightarrow> assignment_status \<Rightarrow> int \<Rightarrow> string option store_op" where
  "reconcile_outcome aid st now s =
     (case (if st = AsUnknown then None else outcome_step_status st) of
        None \<Rightarrow> (s, Inl (ValueError ''reconciliation requires a known terminal outcome''))
      | Some target \<Rightarrow>
          (case find_step aid s of
             None \<Rightarrow> (s, Inr None)
           | Some row \<Rightarrow>
               if sr_status row \<noteq> StUnknown
               then (s, Inl (ValueError ''only unknown assignments can be reconciled''))
               else (refresh_run (sr_plan_id row) now (set_status aid target now s), Inr (Some (sr_plan_id row)))))"

definition status_for_assignment :: "string \<Rightarrow> coordinator_store \<Rightarrow> step_status option" where
  "status_for_assignment aid s = map_option sr_status (find_step aid s)"

definition cs_assignment :: "string \<Rightarrow> coordinator_store \<Rightarrow> assignment option res" where
  "cs_assignment aid s =
     (case find_step aid s of
        None \<Rightarrow> Inr None
      | Some row \<Rightarrow> rbind (decode_assignment (sr_assignment_json row)) (\<lambda>a. Inr (Some a)))"

definition robot_for_assignment :: "string \<Rightarrow> coordinator_store \<Rightarrow> string option res" where
  "robot_for_assignment aid s =
     rbind (cs_assignment aid s) (\<lambda>a. Inr (map_option (\<lambda>a. assigned_robot_id (asg_step a)) a))"

definition cs_snapshot :: "string \<Rightarrow> coordinator_store \<Rightarrow> run_snapshot res" where
  "cs_snapshot plan s =
     (case find_run plan s of
        None \<Rightarrow> Inl (KeyError plan)
      | Some run \<Rightarrow> Inr \<lparr>snap_plan_id = plan, snap_goal_id = run_goal_id run, snap_status = run_state run,
          snap_steps = map (\<lambda>r. (sr_step_id r, sr_status r)) (plan_rows plan s)\<rparr>)"

definition cs_goal :: "string \<Rightarrow> coordinator_store \<Rightarrow> shared_goal res" where
  "cs_goal plan s = (case find_run plan s of None \<Rightarrow> Inl (KeyError plan) | Some run \<Rightarrow> decode_goal (run_goal_json run))"

definition cs_plan :: "string \<Rightarrow> coordinator_store \<Rightarrow> plan res" where
  "cs_plan plan s = (case find_run plan s of None \<Rightarrow> Inl (KeyError plan) | Some run \<Rightarrow> decode_plan (run_plan_json run))"

text \<open>The read-only queries: bounded history, newest first, and one snapshot.\<close>

definition read_run_summaries :: "run_status option \<Rightarrow> int \<Rightarrow> coordinator_store \<Rightarrow> run_summary list res" where
  "read_run_summaries st limit s =
     rbind (require (1 \<le> limit \<and> limit \<le> 1000) (ValueError ''run history limit must be between 1 and 1000'')) (\<lambda>_.
     Inr (map (\<lambda>r. \<lparr>sum_plan_id = run_plan_id r, sum_goal_id = run_goal_id r, sum_status = run_state r,
                    sum_created_at_ms = run_created_at_ms r, sum_updated_at_ms = run_updated_at_ms r\<rparr>)
       (take (nat limit) (rev (sort_key run_created_at_ms (sort_key run_plan_id
          (filter (\<lambda>r. case st of None \<Rightarrow> True | Some x \<Rightarrow> run_state r = x) (cs_runs s))))))))"

definition read_run_snapshot :: "string \<Rightarrow> coordinator_store \<Rightarrow> run_snapshot res" where
  "read_run_snapshot plan s = cs_snapshot plan s"

section \<open>The state machine of a step\<close>

inductive step_next :: "step_status \<Rightarrow> step_status \<Rightarrow> bool" where
  dispatch: "step_next StPending StDispatched"
| drop_pending: "step_next StPending StCancelled"
| accept: "step_next StDispatched StAccepted"
| finish: "in_flight st \<Longrightarrow> t \<in> TERMINAL_STEP_STATUSES \<Longrightarrow> step_next st t"
| request: "cancellable st \<Longrightarrow> step_next st StCancellationRequested"
| reconcile: "t \<in> TERMINAL_STEP_STATUSES - {StUnknown} \<Longrightarrow> step_next StUnknown t"

abbreviation step_reaches :: "step_status \<Rightarrow> step_status \<Rightarrow> bool" where
  "step_reaches \<equiv> step_next\<^sup>*\<^sup>*"

inductive_cases step_next_to_pending: "step_next st StPending"

lemma step_next_final: "step_next st t \<Longrightarrow> st \<in> TERMINAL_STEP_STATUSES - {StUnknown} \<Longrightarrow> False"
  by (erule step_next.cases) (auto simp: TERMINAL_STEP_STATUSES_def in_flight_def cancellable_def)

lemma step_reaches_final:
  "step_reaches st t \<Longrightarrow> st \<in> TERMINAL_STEP_STATUSES - {StUnknown} \<Longrightarrow> t = st"
  by (induction rule: rtranclp_induct) (auto dest: step_next_final)

lemma step_reaches_pending: "step_reaches st StPending \<Longrightarrow> st = StPending"
  by (erule rtranclp.cases) (auto elim!: step_next_to_pending simp: TERMINAL_STEP_STATUSES_def)

lemma step_reaches_terminal:
  "in_flight st \<Longrightarrow> t \<in> TERMINAL_STEP_STATUSES \<Longrightarrow> step_reaches st t"
  by (blast intro: step_next.finish)

lemma step_reaches_accept: "step_reaches StDispatched StAccepted"
  by (rule r_into_rtranclp) (rule step_next.accept)

section \<open>Invariant\<close>

definition row_ok :: "step_row \<Rightarrow> bool" where
  "row_ok r = (\<exists>a. wf_assignment a \<and> sr_assignment_json r = assignment_json a \<and> sr_assignment_id r = assignment_id a \<and>
     sr_plan_id r = asg_plan_id a \<and> sr_step_id r = step_id (asg_step a) \<and> sr_dependencies r = depends_on (asg_step a))"

definition steps_ok :: "coordinator_store \<Rightarrow> bool" where
  "steps_ok s =
     (distinct (map sr_assignment_id (cs_steps s)) \<and> distinct (map (\<lambda>r. (sr_plan_id r, sr_step_id r)) (cs_steps s)) \<and>
      distinct (map run_plan_id (cs_runs s)) \<and>
      (\<forall>r\<in>set (cs_steps s). row_ok r \<and> sr_plan_id r \<in> run_plan_id ` set (cs_runs s)))"

definition run_ok :: "coordinator_store \<Rightarrow> run_row \<Rightarrow> bool" where
  "run_ok s run = (plan_rows (run_plan_id run) s \<noteq> [] \<and>
     run_state run = run_status_of (set (map sr_status (plan_rows (run_plan_id run) s))))"

text \<open>The invariant with the status of one run left open, as it is inside a transaction.\<close>

definition cs_inv_but :: "string \<Rightarrow> coordinator_store \<Rightarrow> bool" where
  "cs_inv_but plan s = (steps_ok s \<and>
     (\<forall>run\<in>set (cs_runs s). plan_rows (run_plan_id run) s \<noteq> [] \<and> (run_plan_id run \<noteq> plan \<longrightarrow> run_ok s run)))"

definition cs_inv :: "coordinator_store \<Rightarrow> bool" where
  "cs_inv s = (steps_ok s \<and> (\<forall>run\<in>set (cs_runs s). run_ok s run))"

definition same_row :: "step_row \<Rightarrow> step_row \<Rightarrow> bool" where
  "same_row r r' = (sr_assignment_id r' = sr_assignment_id r \<and> sr_plan_id r' = sr_plan_id r \<and> sr_step_id r' = sr_step_id r \<and>
     sr_assignment_json r' = sr_assignment_json r \<and> sr_dependencies r' = sr_dependencies r)"

text \<open>Progress: every step is still there and has moved along the machine only.\<close>

definition cs_le :: "coordinator_store \<Rightarrow> coordinator_store \<Rightarrow> bool" where
  "cs_le s t = (\<forall>r\<in>set (cs_steps s). \<exists>r'\<in>set (cs_steps t). same_row r r' \<and> step_reaches (sr_status r) (sr_status r'))"

lemma cs_le_refl [simp]: "cs_le s s"
  unfolding cs_le_def same_row_def by auto

lemma cs_le_trans: "cs_le s t \<Longrightarrow> cs_le t u \<Longrightarrow> cs_le s u"
  unfolding cs_le_def same_row_def by (fastforce intro: rtranclp_trans)

lemma cs_inv_butI: "cs_inv s \<Longrightarrow> cs_inv_but plan s"
  by (simp add: cs_inv_def cs_inv_but_def run_ok_def)

lemma cs_inv_empty: "cs_inv cs_empty"
  by (simp add: cs_inv_def steps_ok_def cs_empty_def)

subsection \<open>Updating statuses\<close>

definition forward :: "(step_row \<Rightarrow> step_row) \<Rightarrow> step_row list \<Rightarrow> bool" where
  "forward f rows = (\<forall>r\<in>set rows. same_row r (f r) \<and> step_reaches (sr_status r) (sr_status (f r)))"

lemma same_row_set [simp]: "same_row r (set_step_status st now r)" "same_row r (r\<lparr>sr_status := st\<rparr>)" "same_row r r"
  by (simp_all add: same_row_def set_step_status_def)

lemma status_set [simp]:
  "sr_status (set_step_status st now r) = st" "sr_plan_id (set_step_status st now r) = sr_plan_id r"
  "sr_assignment_id (set_step_status st now r) = sr_assignment_id r"
  by (simp_all add: set_step_status_def)

lemma steps_ok_map:
  assumes "steps_ok s" "forward f (cs_steps s)"
  shows "steps_ok (s\<lparr>cs_steps := map f (cs_steps s)\<rparr>)"
proof -
  have f: "same_row r (f r)" if "r \<in> set (cs_steps s)" for r using assms(2) that by (simp add: forward_def)
  have m: "map sr_assignment_id (map f (cs_steps s)) = map sr_assignment_id (cs_steps s)"
    "map (\<lambda>r. (sr_plan_id r, sr_step_id r)) (map f (cs_steps s)) = map (\<lambda>r. (sr_plan_id r, sr_step_id r)) (cs_steps s)"
    using f by (auto simp: same_row_def)
  have k: "row_ok (f r) \<and> sr_plan_id (f r) \<in> run_plan_id ` set (cs_runs s)" if "r \<in> set (cs_steps s)" for r
    using f[OF that] assms(1) that unfolding steps_ok_def row_ok_def same_row_def by auto
  show ?thesis
    using assms(1) k unfolding steps_ok_def by (auto simp: m simp del: map_map list.map_comp)
qed

lemma plan_rows_map:
  assumes "forward f (cs_steps s)"
  shows "plan_rows plan (s\<lparr>cs_steps := map f (cs_steps s)\<rparr>) = map f (plan_rows plan s)"
proof -
  have "filter ((\<lambda>r. sr_plan_id r = plan) \<circ> f) (cs_steps s) = filter (\<lambda>r. sr_plan_id r = plan) (cs_steps s)"
    using assms by (intro filter_cong) (auto simp: forward_def same_row_def)
  then show ?thesis by (simp add: plan_rows_def filter_map)
qed

lemma cs_le_map: "forward f (cs_steps s) \<Longrightarrow> cs_le s (s\<lparr>cs_steps := map f (cs_steps s)\<rparr>)"
  unfolding forward_def cs_le_def by auto

lemma update_plan:
  assumes inv: "cs_inv_but plan s" and fw: "forward f (cs_steps s)"
    and other: "\<And>r. r \<in> set (cs_steps s) \<Longrightarrow> sr_plan_id r \<noteq> plan \<Longrightarrow> f r = r"
  shows "cs_inv_but plan (s\<lparr>cs_steps := map f (cs_steps s)\<rparr>) \<and> cs_le s (s\<lparr>cs_steps := map f (cs_steps s)\<rparr>)"
proof -
  have "map f (plan_rows p s) = plan_rows p s" if "p \<noteq> plan" for p
    using that other by (intro map_idI) (auto simp: plan_rows_def)
  then have "run_ok (s\<lparr>cs_steps := map f (cs_steps s)\<rparr>) run"
    if "run_ok s run" "run_plan_id run \<noteq> plan" for run
    using that by (simp add: run_ok_def plan_rows_map[OF fw])
  moreover have "steps_ok (s\<lparr>cs_steps := map f (cs_steps s)\<rparr>)"
    using inv fw by (simp add: cs_inv_but_def steps_ok_map)
  ultimately show ?thesis
    using inv cs_le_map[OF fw] by (auto simp: cs_inv_but_def plan_rows_map[OF fw])
qed

lemma refresh_run_inv:
  assumes "cs_inv_but plan s"
  shows "cs_inv (refresh_run plan now s) \<and> cs_le s (refresh_run plan now s)"
proof -
  let ?t = "refresh_run plan now s"
  have t: "cs_steps ?t = cs_steps s" "plan_rows p ?t = plan_rows p s" for p
    by (simp_all add: refresh_run_def plan_rows_def)
  have "map run_plan_id (cs_runs ?t) = map run_plan_id (cs_runs s)"
    by (simp add: refresh_run_def upd_where_def comp_def)
  then have "run_plan_id ` set (cs_runs ?t) = run_plan_id ` set (cs_runs s)" "distinct (map run_plan_id (cs_runs ?t)) = distinct (map run_plan_id (cs_runs s))"
    by (metis list.set_map, simp)
  then have "steps_ok ?t" using assms by (simp add: cs_inv_but_def steps_ok_def t)
  moreover have "run_ok ?t run" if "run \<in> set (cs_runs ?t)" for run
    using that assms by (auto simp: run_ok_def t refresh_run_def upd_where_def cs_inv_but_def split: if_splits)
      (auto simp: plan_rows_def)
  moreover have "cs_le s ?t" unfolding cs_le_def t using same_row_set(3) by blast
  ultimately show ?thesis by (simp add: cs_inv_def)
qed

subsection \<open>Every operation keeps the invariant\<close>

definition store_ok :: "'a store_op \<Rightarrow> bool" where
  "store_ok f = (\<forall>s t r. cs_inv s \<longrightarrow> f s = (t, r) \<longrightarrow> cs_inv t \<and> cs_le s t)"

lemma store_okI: "(\<And>s. cs_inv s \<Longrightarrow> cs_inv (fst (f s)) \<and> cs_le s (fst (f s))) \<Longrightarrow> store_ok f"
  unfolding store_ok_def by (metis fst_conv)

lemma store_okD: "store_ok f \<Longrightarrow> cs_inv s \<Longrightarrow> f s = (t, r) \<Longrightarrow> cs_inv t \<and> cs_le s t"
  unfolding store_ok_def by blast

named_theorems store_ok_ops \<open>operations that keep the invariant and move steps forward\<close>

lemma find_stepD:
  "find_step aid s = Some r \<Longrightarrow> r \<in> set (cs_steps s) \<and> sr_assignment_id r = aid"
  unfolding find_step_def by (rule find_key_SomeD)

lemma find_step_unique:
  "steps_ok s \<Longrightarrow> r \<in> set (cs_steps s) \<Longrightarrow> find_step (sr_assignment_id r) s = Some r"
  unfolding find_step_def steps_ok_def by (auto intro!: find_key_unique)

lemma step_unique:
  "steps_ok s \<Longrightarrow> find_step aid s = Some row \<Longrightarrow> r \<in> set (cs_steps s) \<Longrightarrow> sr_assignment_id r = aid \<Longrightarrow> r = row"
  using find_step_unique by fastforce

text \<open>An \<open>UPDATE run_steps SET status\<close> inside one plan, as a map over the rows.\<close>

lemma update_where:
  assumes "cs_inv_but plan s"
    and "\<And>r. r \<in> set (cs_steps s) \<Longrightarrow> P r \<Longrightarrow> sr_plan_id r = plan \<and> step_reaches (sr_status r) st"
  shows "cs_inv_but plan (s\<lparr>cs_steps := upd_where P (set_step_status st now) (cs_steps s)\<rparr>) \<and>
    cs_le s (s\<lparr>cs_steps := upd_where P (set_step_status st now) (cs_steps s)\<rparr>)"
proof -
  let ?f = "\<lambda>r. if P r then set_step_status st now r else r"
  have "forward ?f (cs_steps s)" using assms(2) by (simp add: forward_def)
  moreover have "?f r = r" if "r \<in> set (cs_steps s)" "sr_plan_id r \<noteq> plan" for r using that assms(2) by auto
  ultimately show ?thesis using update_plan[OF assms(1), of ?f] by (simp add: upd_where_def)
qed

lemma set_status_inv:
  assumes "cs_inv s" "find_step aid s = Some row" "step_reaches (sr_status row) st"
  shows "cs_inv (refresh_run (sr_plan_id row) now (set_status aid st now s)) \<and>
    cs_le s (refresh_run (sr_plan_id row) now (set_status aid st now s))"
proof -
  have "steps_ok s" using assms(1) by (simp add: cs_inv_def)
  then have "cs_inv_but (sr_plan_id row) (set_status aid st now s) \<and> cs_le s (set_status aid st now s)"
    unfolding set_status_def
    using assms by (intro update_where) (auto intro: cs_inv_butI dest: step_unique)
  then show ?thesis using refresh_run_inv cs_le_trans by blast
qed

lemma refresh_only:
  "cs_inv s \<Longrightarrow> cs_inv (refresh_run plan now s) \<and> cs_le s (refresh_run plan now s)"
  using refresh_run_inv cs_inv_butI by blast

lemma transition_ok [store_ok_ops]:
  assumes "target \<in> TERMINAL_STEP_STATUSES \<or> (from_ack \<and> target = StAccepted)"
  shows "store_ok (transition aid target now from_ack)"
proof (rule store_okI)
  fix s assume inv: "cs_inv s"
  show "cs_inv (fst (transition aid target now from_ack s)) \<and> cs_le s (fst (transition aid target now from_ack s))"
  proof (cases "find_step aid s")
    case None
    then show ?thesis using inv by (simp add: transition_def)
  next
    case (Some row)
    show ?thesis
    proof (cases "sr_status row \<in> TERMINAL_STEP_STATUSES")
      case True
      then show ?thesis using inv Some refresh_only by (simp add: transition_def Let_def)
    next
      case False
      have "step_reaches (sr_status row) target"
        if "if from_ack then sr_status row = StDispatched \<or> sr_status row = StAccepted
            else sr_status row = StDispatched \<or> sr_status row = StAccepted \<or> sr_status row = StCancellationRequested"
      proof (cases "target \<in> TERMINAL_STEP_STATUSES")
        case True
        then show ?thesis using that step_reaches_terminal by (auto simp: in_flight_def split: if_splits)
      next
        case False
        then show ?thesis using that assms step_reaches_accept by auto
      qed
      then show ?thesis
        using False inv Some set_status_inv[OF inv Some] by (simp add: transition_def Let_def)
    qed
  qed
qed

lemma record_acknowledgement_ok [store_ok_ops]: "store_ok (record_acknowledgement aid st now)"
proof -
  have t: "store_ok (transition aid StAccepted now True)" "store_ok (transition aid StRejected now True)"
    "store_ok (transition aid StUnknown now True)"
    by (intro transition_ok; simp add: TERMINAL_STEP_STATUSES_def)+
  have other: "store_ok (\<lambda>s. (s, Inr (plan_for_assignment aid s)))" by (simp add: store_ok_def)
  have "record_acknowledgement aid st now =
      (case st of AsAccepted \<Rightarrow> transition aid StAccepted now True | AsRejected \<Rightarrow> transition aid StRejected now True
       | AsUnknown \<Rightarrow> transition aid StUnknown now True | _ \<Rightarrow> (\<lambda>s. (s, Inr (plan_for_assignment aid s))))"
    by (rule ext) (simp add: record_acknowledgement_def split: assignment_status.split)
  then show ?thesis using t other by (cases st) simp_all
qed

lemma outcome_step_status_terminal: "outcome_step_status st = Some t \<Longrightarrow> t \<in> TERMINAL_STEP_STATUSES"
  by (cases st) (auto simp: outcome_step_status_def TERMINAL_STEP_STATUSES_def)

lemma record_outcome_ok [store_ok_ops]: "store_ok (record_outcome aid st now)"
proof (cases "outcome_step_status st")
  case (Some t)
  then have "store_ok (transition aid t now False)" using outcome_step_status_terminal by (intro transition_ok) blast
  then show ?thesis using Some by (simp add: store_ok_def record_outcome_def)
qed (simp add: store_ok_def record_outcome_def)

lemma reconcile_outcome_ok [store_ok_ops]: "store_ok (reconcile_outcome aid st now)"
proof (rule store_okI)
  fix s assume inv: "cs_inv s"
  show "cs_inv (fst (reconcile_outcome aid st now s)) \<and> cs_le s (fst (reconcile_outcome aid st now s))"
  proof (cases "(if st = AsUnknown then None else outcome_step_status st)")
    case None
    then show ?thesis using inv by (simp add: reconcile_outcome_def)
  next
    case (Some t)
    then have "t \<in> TERMINAL_STEP_STATUSES - {StUnknown}"
      by (cases st) (auto simp: outcome_step_status_def TERMINAL_STEP_STATUSES_def)
    then have u: "step_reaches StUnknown t" by (blast intro: step_next.reconcile)
    show ?thesis
      using inv Some u set_status_inv[OF inv, of aid _ t now]
      by (auto simp: reconcile_outcome_def split: option.split)
  qed
qed

lemma record_cancellation_acknowledgement_ok [store_ok_ops]:
  "store_ok (record_cancellation_acknowledgement aid accepted now)"
proof (rule store_okI)
  fix s assume inv: "cs_inv s"
  have u: "step_reaches StCancellationRequested StUnknown"
    by (rule step_reaches_terminal) (simp_all add: in_flight_def TERMINAL_STEP_STATUSES_def)
  show "cs_inv (fst (record_cancellation_acknowledgement aid accepted now s)) \<and>
      cs_le s (fst (record_cancellation_acknowledgement aid accepted now s))"
    using inv u set_status_inv[OF inv, of aid _ StUnknown now] refresh_only[OF inv]
    by (auto simp: record_cancellation_acknowledgement_def Let_def split: option.split)
qed

lemma request_cancellation_ok [store_ok_ops]: "store_ok (request_cancellation plan now)"
proof (rule store_okI)
  fix s assume inv: "cs_inv s"
  show "cs_inv (fst (request_cancellation plan now s)) \<and> cs_le s (fst (request_cancellation plan now s))"
  proof (cases "find_run plan s")
    case None
    then show ?thesis using inv by (simp add: request_cancellation_def)
  next
    case (Some run)
    let ?s1 = "s\<lparr>cs_steps := upd_where (\<lambda>r. sr_plan_id r = plan \<and> sr_status r = StPending)
                   (set_step_status StCancelled now) (cs_steps s)\<rparr>"
    let ?s2 = "?s1\<lparr>cs_steps := upd_where (\<lambda>r. sr_plan_id r = plan \<and> cancellable (sr_status r))
                   (set_step_status StCancellationRequested now) (cs_steps ?s1)\<rparr>"
    have 1: "cs_inv_but plan ?s1 \<and> cs_le s ?s1"
      using cs_inv_butI[OF inv] by (intro update_where) (auto intro: step_next.drop_pending)
    have 2: "cs_inv_but plan ?s2 \<and> cs_le ?s1 ?s2"
      using 1 by (intro update_where) (auto intro: step_next.request)
    show ?thesis
      using 1 2 refresh_run_inv[of plan ?s2 now] cs_le_trans Some
      by (simp add: request_cancellation_def Let_def) blast
  qed
qed

text \<open>Dispatching does not change the status of the run, although \<open>mark_dispatched\<close> does not refresh it.\<close>

lemma run_status_of_dispatch:
  assumes "StPending \<in> A" "StDispatched \<in> B" "A - {StPending, StDispatched} = B - {StPending, StDispatched}"
  shows "run_status_of A = run_status_of B"
proof -
  have "x \<in> A \<longleftrightarrow> x \<in> B" if "x \<noteq> StPending" "x \<noteq> StDispatched" for x using assms(3) that by blast
  then show ?thesis using assms(1,2) by (auto simp: run_status_of_def)
qed

lemma mark_dispatched_ok [store_ok_ops]: "store_ok (mark_dispatched aid now)"
proof (rule store_okI)
  fix s assume inv: "cs_inv s"
  let ?hit = "\<lambda>r. sr_assignment_id r = aid \<and> sr_status r = StPending"
  let ?f = "\<lambda>r. if ?hit r then set_step_status StDispatched now r else r"
  let ?t = "s\<lparr>cs_steps := map ?f (cs_steps s)\<rparr>"
  have fw: "forward ?f (cs_steps s)" by (auto simp: forward_def intro: step_next.dispatch)
  have "run_ok ?t run" if "run \<in> set (cs_runs s)" for run
  proof -
    let ?rows = "plan_rows (run_plan_id run) s"
    have ok: "run_ok s run" using inv that by (simp add: cs_inv_def)
    have "run_status_of (set (map sr_status (map ?f ?rows))) = run_status_of (set (map sr_status ?rows))"
    proof (cases "\<exists>r\<in>set ?rows. ?hit r")
      case True
      then obtain r where r: "r \<in> set ?rows" "?hit r" by blast
      have "StPending \<in> set (map sr_status ?rows)" "StDispatched \<in> set (map sr_status (map ?f ?rows))"
        using r by (force, force)
      moreover have "set (map sr_status ?rows) - {StPending, StDispatched} =
          set (map sr_status (map ?f ?rows)) - {StPending, StDispatched}"
        by (force simp: image_iff)
      ultimately show ?thesis by (rule run_status_of_dispatch[symmetric])
    next
      case False
      then have "map ?f ?rows = ?rows" by (intro map_idI) auto
      then show ?thesis by simp
    qed
    then show ?thesis using ok by (simp add: run_ok_def plan_rows_map[OF fw])
  qed
  then have "cs_inv ?t" using inv steps_ok_map[OF _ fw] by (simp add: cs_inv_def)
  then show "cs_inv (fst (mark_dispatched aid now s)) \<and> cs_le s (fst (mark_dispatched aid now s))"
    using cs_le_map[OF fw] by (simp add: mark_dispatched_def upd_where_def Let_def)
qed

lemma bind_coordinator_ok [store_ok_ops]: "store_ok (bind_coordinator cid)"
  by (rule store_okI)
    (auto simp: bind_coordinator_def cs_inv_def steps_ok_def run_ok_def plan_rows_def cs_le_def same_row_def split: option.split)

text \<open>A restart.\<close>

lemma recover_ok: "cs_inv s \<Longrightarrow> cs_inv (recover_interrupted_runs s) \<and> cs_le s (recover_interrupted_runs s)"
proof -
  assume inv: "cs_inv s"
  let ?f = "\<lambda>r. if in_flight (sr_status r) then r\<lparr>sr_status := StUnknown\<rparr> else r"
  let ?t = "s\<lparr>cs_steps := map ?f (cs_steps s)\<rparr>"
  let ?hit = "\<lambda>run. run_plan_id run \<in> sr_plan_id ` {r \<in> set (cs_steps s). in_flight (sr_status r)}"
  let ?g = "\<lambda>run. if ?hit run then run\<lparr>run_state := RunUnknown\<rparr> else run"
  have fw: "forward ?f (cs_steps s)" by (auto simp: forward_def intro!: step_reaches_terminal simp: TERMINAL_STEP_STATUSES_def)
  have rec: "recover_interrupted_runs s = ?t\<lparr>cs_runs := map ?g (cs_runs s)\<rparr>" (is "_ = ?u")
    by (auto simp: recover_interrupted_runs_def upd_where_def Let_def)
  have ok: "steps_ok ?t" using inv by (intro steps_ok_map fw) (simp add: cs_inv_def)
  have pid: "run_plan_id (?g run) = run_plan_id run" for run by simp
  have "map run_plan_id (map ?g (cs_runs s)) = map run_plan_id (cs_runs s)" by simp
  then have "run_plan_id ` set (map ?g (cs_runs s)) = run_plan_id ` set (cs_runs s)" by (metis list.set_map)
  then have "steps_ok ?u" using ok by (simp add: steps_ok_def comp_def pid)
  moreover have runs: "run_ok ?u (?g run)" if "run \<in> set (cs_runs s)" for run
  proof -
    have rows: "plan_rows (run_plan_id run) ?u = map ?f (plan_rows (run_plan_id run) s)"
      using plan_rows_map[OF fw] by (simp add: plan_rows_def)
    have run: "run_ok s run" using inv that by (simp add: cs_inv_def)
    show ?thesis
    proof (cases "?hit run")
      case True
      then obtain r where "r \<in> set (plan_rows (run_plan_id run) s)" "in_flight (sr_status r)" by (auto simp: plan_rows_def)
      then have "StUnknown \<in> set (map sr_status (map ?f (plan_rows (run_plan_id run) s)))" by force
      then have "run_status_of (set (map sr_status (map ?f (plan_rows (run_plan_id run) s)))) = RunUnknown"
        by (simp add: run_status_of_def)
      then show ?thesis using True run unfolding run_ok_def by (simp add: rows)
    next
      case False
      have "\<not> in_flight (sr_status r)" if "r \<in> set (plan_rows (run_plan_id run) s)" for r
      proof
        assume "in_flight (sr_status r)"
        then have "r \<in> {r \<in> set (cs_steps s). in_flight (sr_status r)}" "run_plan_id run = sr_plan_id r"
          using that by (simp_all add: plan_rows_def)
        then show False using False by blast
      qed
      then have "map ?f (plan_rows (run_plan_id run) s) = plan_rows (run_plan_id run) s"
        by (intro map_idI) simp
      then show ?thesis using False run rows by (simp add: run_ok_def)
    qed
  qed
  moreover have "run_ok ?u x" if x: "x \<in> set (cs_runs ?u)" for x
  proof -
    have "x \<in> ?g ` set (cs_runs s)" using x by simp
    then obtain run where "x = ?g run" "run \<in> set (cs_runs s)" by (rule imageE)
    then show ?thesis using runs by (simp only:)
  qed
  moreover have "cs_le s ?u" using cs_le_map[OF fw] by (simp add: cs_le_def)
  ultimately show ?thesis unfolding rec cs_inv_def by blast
qed

lemma cs_open_ok: "cs_inv s \<Longrightarrow> cs_inv (cs_open b s) \<and> cs_le s (cs_open b s)"
  using recover_ok by (simp add: cs_open_def)

text \<open>The assignments of a new run: made for this plan, each with a content the decoder accepts.\<close>

definition batch_ok :: "plan \<Rightarrow> assignment list \<Rightarrow> bool" where
  "batch_ok plan as = (as \<noteq> [] \<and> list_all (\<lambda>a. wf_assignment a \<and> asg_plan_id a = plan_id plan) as)"

definition new_row :: "string \<Rightarrow> int \<Rightarrow> assignment \<Rightarrow> step_row" where
  "new_row plan now a = \<lparr>sr_assignment_id = assignment_id a, sr_plan_id = plan,
     sr_step_id = step_id (asg_step a), sr_assignment_json = assignment_json a,
     sr_dependencies = depends_on (asg_step a), sr_status = StPending, sr_updated_at_ms = now\<rparr>"

lemma insert_steps_Inr:
  "insert_steps plan now as rows = Inr rows' \<Longrightarrow>
     rows' = rows @ map (new_row plan now) as \<and>
     (distinct (map sr_assignment_id rows) \<longrightarrow> distinct (map sr_assignment_id rows')) \<and>
     (distinct (map (\<lambda>r. (sr_plan_id r, sr_step_id r)) rows) \<longrightarrow> distinct (map (\<lambda>r. (sr_plan_id r, sr_step_id r)) rows'))"
proof (induction as arbitrary: rows)
  case (Cons a as)
  then have fresh: "\<not> (\<exists>r\<in>set rows. sr_assignment_id r = assignment_id a \<or> (sr_plan_id r = plan \<and> sr_step_id r = step_id (asg_step a)))"
    and r: "insert_steps plan now as (rows @ [new_row plan now a]) = Inr rows'"
    by (auto simp: new_row_def split: if_splits)
  have "distinct (map sr_assignment_id rows) \<longrightarrow> distinct (map sr_assignment_id (rows @ [new_row plan now a]))"
    "distinct (map (\<lambda>r. (sr_plan_id r, sr_step_id r)) rows) \<longrightarrow>
     distinct (map (\<lambda>r. (sr_plan_id r, sr_step_id r)) (rows @ [new_row plan now a]))"
    using fresh by (auto simp: new_row_def)
  moreover have "rows' = rows @ map (new_row plan now) (a # as)" using Cons.IH[OF r] by simp
  ultimately show ?case using Cons.IH[OF r] by blast
qed simp

lemma create_run_new:
  assumes "create_run goal plan as now s = (t, Inr ())" "find_run (plan_id plan) s = None"
  shows "cs_steps t = cs_steps s @ map (new_row (plan_id plan) now) as \<and>
    (\<exists>run. cs_runs t = cs_runs s @ [run] \<and> run_plan_id run = plan_id plan \<and> run_state run = RunActive) \<and>
    (steps_ok s \<longrightarrow> distinct (map sr_assignment_id (cs_steps t)) \<and> distinct (map (\<lambda>r. (sr_plan_id r, sr_step_id r)) (cs_steps t)))"
proof -
  obtain rows where rows: "insert_steps (plan_id plan) now as (cs_steps s) = Inr rows"
    using assms by (auto simp: create_run_def Let_def split: sum.splits)
  note ins = insert_steps_Inr[OF rows]
  have t: "cs_steps t = rows"
    "\<exists>run. cs_runs t = cs_runs s @ [run] \<and> run_plan_id run = plan_id plan \<and> run_state run = RunActive"
    using assms rows by (auto simp: create_run_def Let_def)
  have "steps_ok s \<longrightarrow> distinct (map sr_assignment_id rows) \<and> distinct (map (\<lambda>r. (sr_plan_id r, sr_step_id r)) rows)"
    using ins unfolding steps_ok_def by blast
  then show ?thesis using t ins by blast
qed

lemma find_run_None: "find_run plan s = None \<longleftrightarrow> plan \<notin> run_plan_id ` set (cs_runs s)"
  by (simp add: find_run_def find_key_None_iff)

lemma create_run_ok:
  assumes "batch_ok plan as"
  shows "store_ok (create_run goal plan as now)"
  unfolding store_ok_def
proof (intro allI impI)
  fix s t r assume inv: "cs_inv s" and run: "create_run goal plan as now s = (t, r)"
  show "cs_inv t \<and> cs_le s t"
  proof (cases "find_run (plan_id plan) s = None \<and> r = Inr ()")
    case False
    then have "t = s" using run by (auto simp: create_run_def Let_def split: option.splits if_splits sum.splits)
    then show ?thesis using inv by simp
  next
    case True
    obtain run where n: "cs_steps t = cs_steps s @ map (new_row (plan_id plan) now) as" "cs_runs t = cs_runs s @ [run]"
      "run_plan_id run = plan_id plan" "run_state run = RunActive"
      "distinct (map sr_assignment_id (cs_steps t))" "distinct (map (\<lambda>r. (sr_plan_id r, sr_step_id r)) (cs_steps t))"
      using create_run_new[of goal plan as now s t] run True inv by (auto simp: cs_inv_def)
    have new: "plan_id plan \<notin> run_plan_id ` set (cs_runs s)" using True by (simp add: find_run_None)
    have "row_ok (new_row (plan_id plan) now a)" if "a \<in> set as" for a
      using assms that unfolding row_ok_def new_row_def batch_ok_def list_all_iff by fastforce
    then have ok: "steps_ok t"
      using inv n new unfolding cs_inv_def steps_ok_def by (auto simp: new_row_def)
    have old: "plan_rows p t = plan_rows p s" if "p \<noteq> plan_id plan" for p
      using that by (simp add: plan_rows_def n(1) new_row_def filter_map o_def)
    have "filter (\<lambda>r. sr_plan_id r = plan_id plan) (cs_steps s) = []"
      using inv new unfolding cs_inv_def steps_ok_def filter_empty_conv by metis
    then have mine: "plan_rows (plan_id plan) t = map (new_row (plan_id plan) now) as"
      by (simp add: plan_rows_def n(1) new_row_def filter_map o_def)
    have "run_ok t run"
    proof -
      have "set (map sr_status (plan_rows (plan_id plan) t)) = {StPending}"
        using assms by (cases as) (auto simp: mine batch_ok_def new_row_def)
      then show ?thesis
        using n(3,4) mine assms by (simp add: run_ok_def run_status_of_def batch_ok_def del: set_map)
    qed
    moreover have "run_ok t x" if "x \<in> set (cs_runs s)" for x
    proof -
      have "run_plan_id x \<noteq> plan_id plan" using new that by (metis imageI)
      then show ?thesis using inv that by (simp add: run_ok_def old cs_inv_def)
    qed
    ultimately have "cs_inv t" using ok n(2) by (auto simp: cs_inv_def)
    moreover have "cs_le s t" unfolding cs_le_def n(1) using same_row_set(3) by fastforce
    ultimately show ?thesis by simp
  qed
qed

end
