(* ===== verification/Store_Runs.thy ===== *)
theory Store_Runs
  imports Coordinator_Store
begin

text \<open>
  Histories of the coordinator's journal: any sequence of its transactions and of restarts. The tables
  refine an abstract board, a map from assignment ids to their steps in which the status of a run is not
  stored but derived (\<open>store_refines_board\<close>); the theorems that follow hold along every history.
\<close>

section \<open>Histories\<close>

datatype store_step =
    OpenStore bool
  | BindCoordinator string
  | CreateRun shared_goal plan "assignment list" int
  | MarkDispatched string int
  | RequestCancellation string int
  | CancellationAck string bool int
  | Acknowledge string assignment_status int
  | RecordOutcome string assignment_status int
  | Reconcile string assignment_status int

fun store_do :: "store_step \<Rightarrow> coordinator_store \<Rightarrow> coordinator_store" where
  "store_do (OpenStore b) s = cs_open b s"
| "store_do (BindCoordinator cid) s = fst (bind_coordinator cid s)"
| "store_do (CreateRun g p as now) s = fst (create_run g p as now s)"
| "store_do (MarkDispatched aid now) s = fst (mark_dispatched aid now s)"
| "store_do (RequestCancellation p now) s = fst (request_cancellation p now s)"
| "store_do (CancellationAck aid b now) s = fst (record_cancellation_acknowledgement aid b now s)"
| "store_do (Acknowledge aid st now) s = fst (record_acknowledgement aid st now s)"
| "store_do (RecordOutcome aid st now) s = fst (record_outcome aid st now s)"
| "store_do (Reconcile aid st now) s = fst (reconcile_outcome aid st now s)"

fun store_run :: "store_step list \<Rightarrow> coordinator_store \<Rightarrow> coordinator_store" where
  "store_run [] s = s"
| "store_run (x # xs) s = store_run xs (store_do x s)"

fun store_step_ok :: "store_step \<Rightarrow> bool" where
  "store_step_ok (CreateRun g p as now) = batch_ok p as"
| "store_step_ok _ = True"

lemma store_ok_fst: "store_ok f \<Longrightarrow> cs_inv s \<Longrightarrow> cs_inv (fst (f s)) \<and> cs_le s (fst (f s))"
  by (metis prod.collapse store_okD)

lemma store_do_ok:
  assumes "store_step_ok x" "cs_inv s"
  shows "cs_inv (store_do x s) \<and> cs_le s (store_do x s)"
  using assms store_ok_fst[OF create_run_ok]
  by (cases x) (simp_all add: cs_open_ok store_ok_fst[OF _ assms(2)] store_ok_ops)

lemma store_run_ok: "list_all store_step_ok xs \<Longrightarrow> cs_inv s \<Longrightarrow> cs_inv (store_run xs s) \<and> cs_le s (store_run xs s)"
proof (induction xs arbitrary: s)
  case (Cons x xs)
  then show ?case using store_do_ok[of x s] cs_le_trans by fastforce
qed simp

section \<open>The abstract board\<close>

record board_step =
  bs_plan :: string
  bs_step :: string
  bs_json :: string
  bs_deps :: "string list"
  bs_status :: step_status

record board =
  bd_runs :: "string \<Rightarrow> (string \<times> string) option"
  bd_steps :: "string \<Rightarrow> board_step option"

definition board_empty :: board where
  "board_empty = \<lparr>bd_runs = Map.empty, bd_steps = Map.empty\<rparr>"

definition bd_update :: "(string \<Rightarrow> board_step \<Rightarrow> bool) \<Rightarrow> step_status \<Rightarrow> board \<Rightarrow> board" where
  "bd_update P st b = b\<lparr>bd_steps := \<lambda>a. map_option (\<lambda>x. if P a x then x\<lparr>bs_status := st\<rparr> else x) (bd_steps b a)\<rparr>"

definition bd_post :: "string \<Rightarrow> assignment list \<Rightarrow> board \<Rightarrow> board" where
  "bd_post plan as b = b\<lparr>bd_steps := \<lambda>k. case find (\<lambda>a. assignment_id a = k) as of
      Some a \<Rightarrow> Some \<lparr>bs_plan = plan, bs_step = step_id (asg_step a), bs_json = assignment_json a,
                    bs_deps = depends_on (asg_step a), bs_status = StPending\<rparr>
    | None \<Rightarrow> bd_steps b k\<rparr>"

text \<open>The steps on the board: guards on one entry, no rows, no run status to maintain.\<close>

definition bd_move :: "string \<Rightarrow> (step_status \<Rightarrow> bool) \<Rightarrow> step_status \<Rightarrow> board \<Rightarrow> board" where
  "bd_move aid pre st b = bd_update (\<lambda>a x. a = aid \<and> pre (bs_status x)) st b"

fun board_do :: "store_step \<Rightarrow> board \<Rightarrow> board" where
  "board_do (OpenStore recover) b = (if recover then bd_update (\<lambda>_ x. in_flight (bs_status x)) StUnknown b else b)"
| "board_do (BindCoordinator _) b = b"
| "board_do (CreateRun g p as now) b =
     (if bd_runs b (plan_id p) = None \<and> distinct (map assignment_id as) \<and> distinct (map (step_id \<circ> asg_step) as) \<and>
         list_all (\<lambda>a. bd_steps b (assignment_id a) = None) as
      then (bd_post (plan_id p) as b)\<lparr>bd_runs := (bd_runs b)(plan_id p \<mapsto>
              (json_dumps (shared_goal_payload g), json_dumps (plan_payload p)))\<rparr>
      else b)"
| "board_do (MarkDispatched aid _) b = bd_move aid (\<lambda>st. st = StPending) StDispatched b"
| "board_do (RequestCancellation plan _) b =
     (if bd_runs b plan = None then b
      else bd_update (\<lambda>_ x. bs_plan x = plan \<and> cancellable (bs_status x)) StCancellationRequested
             (bd_update (\<lambda>_ x. bs_plan x = plan \<and> bs_status x = StPending) StCancelled b))"
| "board_do (CancellationAck aid accepted _) b =
     (if accepted then b else bd_move aid (\<lambda>st. st = StCancellationRequested) StUnknown b)"
| "board_do (Acknowledge aid st _) b =
     (case st of
        AsAccepted \<Rightarrow> bd_move aid (\<lambda>x. x = StDispatched \<or> x = StAccepted) StAccepted b
      | AsRejected \<Rightarrow> bd_move aid (\<lambda>x. x = StDispatched \<or> x = StAccepted) StRejected b
      | AsUnknown \<Rightarrow> bd_move aid (\<lambda>x. x = StDispatched \<or> x = StAccepted) StUnknown b
      | _ \<Rightarrow> b)"
| "board_do (RecordOutcome aid st _) b =
     (case outcome_step_status st of None \<Rightarrow> b | Some t \<Rightarrow> bd_move aid in_flight t b)"
| "board_do (Reconcile aid st _) b =
     (case outcome_step_status st of
        None \<Rightarrow> b
      | Some t \<Rightarrow> if t = StUnknown then b else bd_move aid (\<lambda>x. x = StUnknown) t b)"

fun board_run :: "store_step list \<Rightarrow> board \<Rightarrow> board" where
  "board_run [] b = b"
| "board_run (x # xs) b = board_run xs (board_do x b)"

definition abs_row :: "step_row \<Rightarrow> board_step" where
  "abs_row r = \<lparr>bs_plan = sr_plan_id r, bs_step = sr_step_id r, bs_json = sr_assignment_json r,
     bs_deps = sr_dependencies r, bs_status = sr_status r\<rparr>"

definition board_of :: "coordinator_store \<Rightarrow> board" where
  "board_of s = \<lparr>bd_runs = (\<lambda>p. map_option (\<lambda>r. (run_goal_json r, run_plan_json r)) (find_run p s)),
     bd_steps = (\<lambda>a. map_option abs_row (find_step a s))\<rparr>"

definition board_run_status :: "string \<Rightarrow> board \<Rightarrow> run_status" where
  "board_run_status plan b =
     run_status_of {bs_status x | x. \<exists>a. bd_steps b a = Some x \<and> bs_plan x = plan}"

subsection \<open>Refinement\<close>

lemma find_step_upd:
  assumes "\<And>r. sr_assignment_id (f r) = sr_assignment_id r"
  shows "find_step a (s\<lparr>cs_steps := upd_where P f (cs_steps s)\<rparr>) =
     map_option (\<lambda>r. if P r then f r else r) (find_step a s)"
  using find_upd_where[of sr_assignment_id f a P "cs_steps s"] assms by (simp add: find_step_def)


lemma find_step_refresh [simp]: "find_step a (refresh_run plan now s) = find_step a s"
  by (simp add: refresh_run_def find_step_def)

lemma find_run_upd:
  assumes "\<And>r. run_plan_id (f r) = run_plan_id r"
  shows "find (\<lambda>r. run_plan_id r = p) (upd_where P f runs) = map_option (\<lambda>r. if P r then f r else r) (find (\<lambda>r. run_plan_id r = p) runs)"
  using find_upd_where[of run_plan_id f p P runs] assms by simp

lemma board_runs_refresh: "bd_runs (board_of (refresh_run plan now s)) = bd_runs (board_of s)"
  by (rule ext) (simp add: board_of_def refresh_run_def find_run_def find_run_upd option.map_comp comp_def if_distrib cong: if_cong)

lemma board_refresh [simp]: "board_of (refresh_run plan now s) = board_of s"
  using board_runs_refresh[of plan now s] by (simp add: board_of_def)

lemma find_run_steps [simp]: "find_run p (s\<lparr>cs_steps := rows\<rparr>) = find_run p s"
  by (simp add: find_run_def)

lemma board_upd:
  assumes "\<And>a r. find_step a s = Some r \<Longrightarrow> P r \<longleftrightarrow> Q a (abs_row r)"
  shows "board_of (s\<lparr>cs_steps := upd_where P (set_step_status st now) (cs_steps s)\<rparr>) = bd_update Q st (board_of s)"
proof -
  have "map_option abs_row (find_step a (s\<lparr>cs_steps := upd_where P (set_step_status st now) (cs_steps s)\<rparr>)) =
      map_option (\<lambda>x. if Q a x then x\<lparr>bs_status := st\<rparr> else x) (map_option abs_row (find_step a s))" for a
    using assms[of a] by (cases "find_step a s") (auto simp: find_step_upd abs_row_def set_step_status_def)
  then show ?thesis by (simp add: board_of_def bd_update_def)
qed

text \<open>Changing one entry under a guard on its status.\<close>

lemma board_set_status:
  assumes "find_step aid s = Some row" "pre (sr_status row)"
  shows "board_of (set_status aid st now s) = bd_move aid pre st (board_of s)"
  unfolding set_status_def bd_move_def
proof (rule board_upd)
  fix a r assume r: "find_step a s = Some r"
  show "(sr_assignment_id r = aid) = (a = aid \<and> pre (bs_status (abs_row r)))"
    using find_stepD[OF r] r assms by (auto simp: abs_row_def)
qed

lemma bd_move_none:
  assumes "\<And>row. find_step aid s = Some row \<Longrightarrow> \<not> pre (sr_status row)"
  shows "bd_move aid pre st (board_of s) = board_of s"
proof -
  have "map_option (\<lambda>x. if a = aid \<and> pre (bs_status x) then x\<lparr>bs_status := st\<rparr> else x) (map_option abs_row (find_step a s)) =
      map_option abs_row (find_step a s)" for a
    using assms by (cases "find_step a s") (auto simp: abs_row_def)
  then show ?thesis by (simp add: bd_move_def bd_update_def board_of_def)
qed

lemma board_transition:
  assumes "target \<in> TERMINAL_STEP_STATUSES \<or> from_ack"
  shows "board_of (fst (transition aid target now from_ack s)) =
    bd_move aid (if from_ack then \<lambda>x. x = StDispatched \<or> x = StAccepted else in_flight) target (board_of s)"
    (is "_ = bd_move aid ?pre target _")
proof (cases "\<exists>row. find_step aid s = Some row \<and> ?pre (sr_status row)")
  case True
  then obtain row where row: "find_step aid s = Some row" "?pre (sr_status row)" by blast
  then have "sr_status row \<notin> TERMINAL_STEP_STATUSES"
    by (auto simp: TERMINAL_STEP_STATUSES_def in_flight_def split: if_splits)
  then have "fst (transition aid target now from_ack s) = refresh_run (sr_plan_id row) now (set_status aid target now s)"
    using row by (auto simp: transition_def Let_def in_flight_def split: if_splits)
  then show ?thesis using board_set_status[where pre = ?pre, OF row] by simp
next
  case False
  then have "board_of (fst (transition aid target now from_ack s)) = board_of s"
    by (auto simp: transition_def Let_def in_flight_def split: option.splits)
  then show ?thesis using bd_move_none[of aid s ?pre target] False by auto
qed

lemma board_recover:
  "board_of (recover_interrupted_runs s) = bd_update (\<lambda>_ x. in_flight (bs_status x)) StUnknown (board_of s)"
proof -
  let ?f = "\<lambda>r. r\<lparr>sr_status := StUnknown\<rparr>"
  have "map_option abs_row (find (\<lambda>r. sr_assignment_id r = a) (upd_where (\<lambda>r. in_flight (sr_status r)) ?f (cs_steps s))) =
      map_option (\<lambda>x. if in_flight (bs_status x) then x\<lparr>bs_status := StUnknown\<rparr> else x) (map_option abs_row (find_step a s))" for a
    using find_upd_where[of sr_assignment_id ?f a "\<lambda>r. in_flight (sr_status r)" "cs_steps s"]
    by (cases "find_step a s") (auto simp: abs_row_def find_step_def)
  then show ?thesis
    by (simp add: board_of_def bd_update_def recover_interrupted_runs_def Let_def find_run_def find_step_def find_run_upd
        option.map_comp comp_def if_distrib cong: if_cong)
qed


lemma find_new_rows:
  "find (\<lambda>r. sr_assignment_id r = k) (map (new_row plan now) as) = map_option (new_row plan now) (find (\<lambda>a. assignment_id a = k) as)"
  by (induction as) (auto simp: new_row_def)

lemma find_append: "find P (xs @ ys) = (case find P xs of Some x \<Rightarrow> Some x | None \<Rightarrow> find P ys)"
  by (induction xs) auto

lemma insert_steps_ok:
  assumes "distinct (map assignment_id as)" "distinct (map (step_id \<circ> asg_step) as)"
    and "\<forall>a\<in>set as. \<forall>r\<in>set rows. sr_assignment_id r \<noteq> assignment_id a \<and> \<not> (sr_plan_id r = plan \<and> sr_step_id r = step_id (asg_step a))"
  shows "is_ok (insert_steps plan now as rows)"
  using assms
proof (induction as arbitrary: rows)
  case (Cons a as)
  have "is_ok (insert_steps plan now as (rows @ [new_row plan now a]))"
    using Cons.prems by (intro Cons.IH) (auto simp: new_row_def)
  moreover have "\<not> (\<exists>r\<in>set rows. sr_assignment_id r = assignment_id a \<or> (sr_plan_id r = plan \<and> sr_step_id r = step_id (asg_step a)))"
    using Cons.prems(3) by auto
  ultimately show ?case by (simp add: new_row_def)
qed simp

lemma board_create:
  assumes inv: "cs_inv s"
  shows "board_of (fst (create_run g p as now s)) = board_do (CreateRun g p as now) (board_of s)"
proof (cases "find_run (plan_id p) s")
  case (Some run)
  then show ?thesis by (auto simp: create_run_def Let_def board_of_def)
next
  case None
  have mine: "sr_plan_id r \<noteq> plan_id p" if "r \<in> set (cs_steps s)" for r
    using None inv that unfolding find_run_None cs_inv_def steps_ok_def by metis
  have absent: "bd_steps (board_of s) k = None \<longleftrightarrow> k \<notin> sr_assignment_id ` set (cs_steps s)" for k
    by (simp add: board_of_def find_step_def find_key_None_iff)
  have runs: "bd_runs (board_of s) (plan_id p) = None" using None by (simp add: board_of_def)
  let ?ok = "distinct (map assignment_id as) \<and> distinct (map (step_id \<circ> asg_step) as) \<and>
      list_all (\<lambda>a. bd_steps (board_of s) (assignment_id a) = None) as"
  show ?thesis
  proof (cases "insert_steps (plan_id p) now as (cs_steps s)")
    case (Inl e)
    have "\<not> ?ok"
    proof
      assume ok: ?ok
      have "is_ok (insert_steps (plan_id p) now as (cs_steps s))"
        using ok mine by (intro insert_steps_ok) (auto simp: absent list_all_iff image_iff, metis)
      then show False using Inl by simp
    qed
    then show ?thesis using None Inl runs by (auto simp: create_run_def Let_def)
  next
    case (Inr rows)
    note ins = insert_steps_Inr[OF Inr]
    have d: "distinct (map sr_assignment_id rows)" "distinct (map (\<lambda>r. (sr_plan_id r, sr_step_id r)) rows)"
      using ins inv unfolding cs_inv_def steps_ok_def by blast+
    have rows: "rows = cs_steps s @ map (new_row (plan_id p) now) as" using ins by blast
    have ok: ?ok
      using d unfolding rows by (auto simp: new_row_def distinct_map comp_def list_all_iff absent image_iff inj_on_def)
    have "find_step k (fst (create_run g p as now s)) =
        (case find_step k s of Some r \<Rightarrow> Some r | None \<Rightarrow> map_option (new_row (plan_id p) now) (find (\<lambda>a. assignment_id a = k) as))" for k
      using None Inr rows by (simp add: create_run_def Let_def find_step_def find_append find_new_rows split: option.split)
    moreover have "find (\<lambda>a. assignment_id a = k) as = None" if "find_step k s = Some r" for k r
      using ok that absent[of k] by (auto simp: find_None_iff list_all_iff board_of_def)
    ultimately have st: "map_option abs_row (find_step k (fst (create_run g p as now s))) =
        (case find (\<lambda>a. assignment_id a = k) as of
          Some a \<Rightarrow> Some \<lparr>bs_plan = plan_id p, bs_step = step_id (asg_step a), bs_json = assignment_json a,
                    bs_deps = depends_on (asg_step a), bs_status = StPending\<rparr>
        | None \<Rightarrow> map_option abs_row (find_step k s))" for k
      by (cases "find_step k s"; cases "find (\<lambda>a. assignment_id a = k) as") (auto simp: abs_row_def new_row_def)
    have rn: "map_option (\<lambda>r. (run_goal_json r, run_plan_json r)) (find_run q (fst (create_run g p as now s))) =
        (if q = plan_id p then Some (json_dumps (shared_goal_payload g), json_dumps (plan_payload p))
         else map_option (\<lambda>r. (run_goal_json r, run_plan_json r)) (find_run q s))" for q
      using None Inr by (auto simp: create_run_def Let_def find_run_def find_append split: option.split)
    show ?thesis
      using ok runs by (simp add: board_of_def bd_post_def st rn fun_eq_iff split: option.split)
  qed
qed

lemma board_do_refines:
  assumes inv: "cs_inv s" and ok: "store_step_ok x"
  shows "board_of (store_do x s) = board_do x (board_of s)"
proof (cases x)
  case (OpenStore b)
  then show ?thesis by (simp add: cs_open_def board_recover)
next
  case (BindCoordinator cid)
  then show ?thesis
    by (auto simp: bind_coordinator_def board_of_def find_run_def find_step_def split: option.split)
next
  case (CreateRun g p as now)
  then show ?thesis using board_create[OF inv] by simp
next
  case (MarkDispatched aid now)
  have "board_of (s\<lparr>cs_steps := upd_where (\<lambda>r. sr_assignment_id r = aid \<and> sr_status r = StPending)
      (set_step_status StDispatched now) (cs_steps s)\<rparr>) = bd_move aid (\<lambda>st. st = StPending) StDispatched (board_of s)"
    unfolding bd_move_def by (rule board_upd) (auto simp: abs_row_def dest: find_stepD)
  then show ?thesis using MarkDispatched by (simp add: mark_dispatched_def Let_def)
next
  case (RequestCancellation plan now)
  let ?s1 = "s\<lparr>cs_steps := upd_where (\<lambda>r. sr_plan_id r = plan \<and> sr_status r = StPending)
                 (set_step_status StCancelled now) (cs_steps s)\<rparr>"
  have 1: "board_of ?s1 = bd_update (\<lambda>_ x. bs_plan x = plan \<and> bs_status x = StPending) StCancelled (board_of s)"
    by (rule board_upd) (simp add: abs_row_def)
  have 2: "board_of (?s1\<lparr>cs_steps := upd_where (\<lambda>r. sr_plan_id r = plan \<and> cancellable (sr_status r))
      (set_step_status StCancellationRequested now) (cs_steps ?s1)\<rparr>) =
      bd_update (\<lambda>_ x. bs_plan x = plan \<and> cancellable (bs_status x)) StCancellationRequested (board_of ?s1)"
    by (rule board_upd) (simp add: abs_row_def)
  show ?thesis
    using RequestCancellation 1 2
    by (cases "find_run plan s") (simp_all add: request_cancellation_def Let_def board_of_def[of s])
next
  case (CancellationAck aid b now)
  have "board_of (fst (record_cancellation_acknowledgement aid b now s)) =
      (if b then board_of s else bd_move aid (\<lambda>st. st = StCancellationRequested) StUnknown (board_of s))"
  proof (cases "\<exists>row. find_step aid s = Some row \<and> sr_status row = StCancellationRequested")
    case True
    then obtain row where row: "find_step aid s = Some row" "sr_status row = StCancellationRequested" by blast
    then show ?thesis
      using board_set_status[where pre = "\<lambda>st. st = StCancellationRequested", OF row, of StUnknown now]
      by (simp add: record_cancellation_acknowledgement_def Let_def)
  next
    case False
    then have "board_of (fst (record_cancellation_acknowledgement aid b now s)) = board_of s"
      by (auto simp: record_cancellation_acknowledgement_def Let_def split: option.split)
    then show ?thesis using bd_move_none[of aid s "\<lambda>st. st = StCancellationRequested" StUnknown] False by auto
  qed
  then show ?thesis using CancellationAck by simp
next
  case (Acknowledge aid st now)
  then show ?thesis
    by (cases st) (simp_all add: record_acknowledgement_def board_transition)
next
  case (RecordOutcome aid st now)
  then show ?thesis
    using outcome_step_status_terminal[of st]
    by (cases "outcome_step_status st") (simp_all add: record_outcome_def board_transition)
next
  case (Reconcile aid st now)
  show ?thesis
  proof (cases "if st = AsUnknown then None else outcome_step_status st")
    case None
    then have "outcome_step_status st = None \<or> outcome_step_status st = Some StUnknown"
      by (cases st) (auto simp: outcome_step_status_def)
    then show ?thesis using Reconcile None by (auto simp: reconcile_outcome_def)
  next
    case (Some t)
    then have t: "outcome_step_status st = Some t" "t \<noteq> StUnknown"
      by (cases st; auto simp: outcome_step_status_def)+
    have "board_of (fst (reconcile_outcome aid st now s)) = bd_move aid (\<lambda>x. x = StUnknown) t (board_of s)"
    proof (cases "\<exists>row. find_step aid s = Some row \<and> sr_status row = StUnknown")
      case True
      then obtain row where row: "find_step aid s = Some row" "sr_status row = StUnknown" by blast
      then show ?thesis
        using Some board_set_status[where pre = "\<lambda>st. st = StUnknown", OF row, of t now]
        by (simp add: reconcile_outcome_def)
    next
      case False
      then have "board_of (fst (reconcile_outcome aid st now s)) = board_of s"
        using Some by (auto simp: reconcile_outcome_def split: option.split)
      then show ?thesis using bd_move_none[of aid s "\<lambda>st. st = StUnknown" t] False by auto
    qed
    then show ?thesis using Reconcile t by simp
  qed
qed

lemma board_run_refines:
  "list_all store_step_ok xs \<Longrightarrow> cs_inv s \<Longrightarrow> board_of (store_run xs s) = board_run xs (board_of s)"
proof (induction xs arbitrary: s)
  case (Cons x xs)
  then have "cs_inv (store_do x s)" using store_do_ok[of x s] by simp
  then show ?case using Cons board_do_refines[of s x] by simp
qed simp

lemma run_state_derived:
  assumes inv: "cs_inv s" and run: "find_run plan s = Some run"
  shows "run_state run = board_run_status plan (board_of s)"
proof -
  have r: "run \<in> set (cs_runs s)" "run_plan_id run = plan" using run find_key_SomeD[of run_plan_id plan] by (auto simp: find_run_def)
  have ok: "steps_ok s" using inv by (simp add: cs_inv_def)
  have "set (map sr_status (plan_rows plan s)) = {bs_status x | x. \<exists>a. bd_steps (board_of s) a = Some x \<and> bs_plan x = plan}"
    (is "?A = ?B")
  proof (rule set_eqI, rule iffI)
    fix st assume "st \<in> ?A"
    then obtain r where r: "r \<in> set (cs_steps s)" "sr_plan_id r = plan" "sr_status r = st" by (auto simp: plan_rows_def)
    then have "bd_steps (board_of s) (sr_assignment_id r) = Some (abs_row r)"
      using find_step_unique[OF ok] by (simp add: board_of_def)
    then show "st \<in> ?B" using r by (force simp: abs_row_def)
  next
    fix st assume "st \<in> ?B"
    then show "st \<in> ?A" by (auto simp: board_of_def abs_row_def plan_rows_def dest!: find_stepD)
  qed
  moreover have "run_ok s run" using inv r(1) by (simp add: cs_inv_def)
  ultimately show ?thesis by (simp add: run_ok_def board_run_status_def r(2) del: set_map)
qed

text \<open>C13: The tables refine the board. After any history of transactions and restarts the rows are exactly the entries
  the board has after the same history, and the stored status of every run, which the code maintains
  incrementally, is the one its steps determine.\<close>

theorem store_refines_board:
  assumes "list_all store_step_ok xs"
  shows "board_of (store_run xs cs_empty) = board_run xs board_empty \<and>
    (\<forall>plan run. find_run plan (store_run xs cs_empty) = Some run \<longrightarrow>
       run_state run = board_run_status plan (board_run xs board_empty))"
proof -
  have e: "board_of cs_empty = board_empty"
    by (simp add: board_of_def board_empty_def cs_empty_def find_run_def find_step_def)
  have "board_of (store_run xs cs_empty) = board_run xs board_empty"
    using board_run_refines[OF assms cs_inv_empty] e by simp
  then show ?thesis
    using run_state_derived store_run_ok[OF assms cs_inv_empty] by metis
qed

definition sample_goal :: shared_goal where
  "sample_goal = \<lparr>goal_id = ''g1'', goal_description = ''clear the line'', participant_ids = [''r1''],
     goal_constraints = JObj [], goal_deadline_ms = None\<rparr>"

definition second_step :: plan_step where
  "second_step = (sample_step ''s2'' ''r1'' [])\<lparr>depends_on := [''s1'']\<rparr>"

definition sample_plan :: plan where
  "sample_plan = \<lparr>plan_id = ''p1'', plan_goal_id = ''g1'', planner_id = ''pl'', plan_summary = ''two steps'',
     plan_steps = [sample_step ''s1'' ''r1'' [], second_step], plan_revision = 1, supersedes_plan_id = None\<rparr>"

definition sample_batch :: "assignment list" where
  "sample_batch = [sample_assignment ''a1'' [], (sample_assignment ''a2'' [])\<lparr>asg_step := second_step\<rparr>]"

definition sample_history :: "store_step list" where
  "sample_history = [CreateRun sample_goal sample_plan sample_batch 1, MarkDispatched ''a1'' 2, OpenStore True]"

lemma sample_history_ok: "list_all store_step_ok sample_history"
  by code_simp

theorem store_refines_board_witness:
  "board_run_status ''p1'' (board_run sample_history board_empty) = RunUnknown"
proof -
  have "map_option run_state (find_run ''p1'' (store_run sample_history cs_empty)) = Some RunUnknown" by code_simp
  then show ?thesis using store_refines_board[OF sample_history_ok] by (auto simp: map_option_eq_Some)
qed

section \<open>Along every history\<close>

lemma find_step_le:
  assumes "cs_inv t" "cs_le s t" "find_step aid s = Some r"
  shows "\<exists>r'. find_step aid t = Some r' \<and> same_row r r' \<and> step_reaches (sr_status r) (sr_status r')"
proof -
  obtain r' where r': "r' \<in> set (cs_steps t)" "same_row r r'" "step_reaches (sr_status r) (sr_status r')"
    using assms(2) find_stepD[OF assms(3)] by (auto simp: cs_le_def)
  then show ?thesis
    using find_step_unique[of t r'] find_stepD[OF assms(3)] assms(1) by (auto simp: same_row_def cs_inv_def)
qed

text \<open>A step that has succeeded, failed, been rejected or been cancelled keeps that status whatever transactions
  and restarts follow; only an unknown step can still be reconciled or cancelled.\<close>

theorem final_step_status_immutable:
  assumes "list_all store_step_ok xs" "list_all store_step_ok ys"
    and "status_for_assignment aid (store_run xs cs_empty) = Some st"
    and "st \<in> TERMINAL_STEP_STATUSES - {StUnknown}"
  shows "status_for_assignment aid (store_run ys (store_run xs cs_empty)) = Some st"
proof -
  let ?s = "store_run xs cs_empty"
  have inv: "cs_inv ?s" using store_run_ok[OF assms(1) cs_inv_empty] by blast
  have t: "cs_inv (store_run ys ?s)" "cs_le ?s (store_run ys ?s)" using store_run_ok[OF assms(2) inv] by auto
  obtain r where r: "find_step aid ?s = Some r" "sr_status r = st" using assms(3) by (auto simp: status_for_assignment_def)
  obtain r' where r': "find_step aid (store_run ys ?s) = Some r'" "step_reaches st (sr_status r')"
    using find_step_le[OF t r(1)] r(2) by auto
  have "sr_status r' = st" by (rule step_reaches_final[OF r'(2) assms(4)])
  then show ?thesis using r'(1) by (simp add: status_for_assignment_def)
qed

definition late_messages :: "store_step list" where
  "late_messages = [OpenStore True, RecordOutcome ''a1'' AsFailed 5, RequestCancellation ''p1'' 6, Reconcile ''a1'' AsFailed 7]"

theorem final_step_status_immutable_witness:
  "status_for_assignment ''a1'' (store_run late_messages (store_run
     [CreateRun sample_goal sample_plan sample_batch 1, MarkDispatched ''a1'' 2, RecordOutcome ''a1'' AsSucceeded 3] cs_empty)) =
   Some StSucceeded"
proof -
  let ?xs = "[CreateRun sample_goal sample_plan sample_batch 1, MarkDispatched ''a1'' 2, RecordOutcome ''a1'' AsSucceeded 3]"
  have 1: "list_all store_step_ok ?xs" "list_all store_step_ok late_messages" by code_simp+
  have 2: "status_for_assignment ''a1'' (store_run ?xs cs_empty) = Some StSucceeded" by code_simp
  show ?thesis by (rule final_step_status_immutable[OF 1 2]) (simp add: TERMINAL_STEP_STATUSES_def)
qed

text \<open>The rows of a plan that are ready, under the invariant.\<close>

lemma ready_assignments_rows:
  assumes inv: "cs_inv s" and run: "find_run plan s = Some run" and act: "run_state run = RunActive"
  shows "\<exists>as. ready_assignments plan s = Inr as \<and>
    map assignment_id as = map sr_assignment_id (filter (row_ready plan s) (plan_rows plan s))"
proof -
  have dec: "\<exists>a. decode_assignment (sr_assignment_json r) = Inr a \<and> assignment_id a = sr_assignment_id r"
    if "r \<in> set (cs_steps s)" for r
    using that inv decode_assignment_json unfolding cs_inv_def steps_ok_def row_ok_def by fastforce
  have "\<exists>as. rmap (\<lambda>r. decode_assignment (sr_assignment_json r)) rows = Inr as \<and> map assignment_id as = map sr_assignment_id rows"
    if "set rows \<subseteq> set (cs_steps s)" for rows
    using that
  proof (induction rows)
    case (Cons r rows)
    then obtain as a where "rmap (\<lambda>r. decode_assignment (sr_assignment_json r)) rows = Inr as"
      "map assignment_id as = map sr_assignment_id rows" "decode_assignment (sr_assignment_json r) = Inr a"
      "assignment_id a = sr_assignment_id r" using dec[of r] by auto
    then show ?case by simp
  qed simp
  moreover have "set (filter (row_ready plan s) (plan_rows plan s)) \<subseteq> set (cs_steps s)" by (auto simp: plan_rows_def)
  ultimately show ?thesis using run act by (simp add: ready_assignments_def)
qed

text \<open>C14: Work in flight at a restart is never sent again. Opening the journal after a crash turns every step that was
  dispatched, accepted or being cancelled into an unknown one, and after any further transactions and restarts the
  assignment is not among the ready ones of any plan, and no transaction can mark it as dispatched again.\<close>

theorem restart_never_redispatches:
  assumes "list_all store_step_ok xs" "list_all store_step_ok ys"
    and "status_for_assignment aid (store_run xs cs_empty) = Some st" and "in_flight st"
    and "s = store_run ys (cs_open True (store_run xs cs_empty))"
  shows "status_for_assignment aid (cs_open True (store_run xs cs_empty)) = Some StUnknown \<and>
    (\<forall>plan as. ready_assignments plan s = Inr as \<longrightarrow> aid \<notin> assignment_id ` set as) \<and>
    snd (mark_dispatched aid now s) = Inr False"
proof -
  let ?s = "store_run xs cs_empty" and ?t = "cs_open True (store_run xs cs_empty)"
  have inv: "cs_inv ?s" using store_run_ok[OF assms(1) cs_inv_empty] by blast
  obtain r where r: "find_step aid ?s = Some r" "in_flight (sr_status r)"
    using assms(3,4) by (auto simp: status_for_assignment_def)
  have u: "find_step aid ?t = Some (r\<lparr>sr_status := StUnknown\<rparr>)"
    using r find_upd_where[of sr_assignment_id "\<lambda>r. r\<lparr>sr_status := StUnknown\<rparr>" aid "\<lambda>r. in_flight (sr_status r)" "cs_steps ?s"]
    by (simp add: cs_open_def recover_interrupted_runs_def Let_def find_step_def)
  have t: "cs_inv ?t" using cs_open_ok[OF inv] by blast
  have tu: "cs_inv s" "cs_le ?t s" using store_run_ok[OF assms(2) t] assms(5) by auto
  obtain r' where r': "find_step aid s = Some r'" "step_reaches StUnknown (sr_status r')"
    using find_step_le[OF tu u] by auto
  have "sr_status r' \<noteq> StPending" using r'(2) step_reaches_pending by fastforce
  then have gone: "\<not> (sr_assignment_id x = aid \<and> sr_status x = StPending)" if "x \<in> set (cs_steps s)" for x
    using step_unique[of s aid r' x] tu(1) r'(1) that by (auto simp: cs_inv_def)
  then have "filter (\<lambda>x. sr_assignment_id x = aid \<and> sr_status x = StPending) (cs_steps s) = []"
    by (auto simp: filter_empty_conv)
  then have mark: "snd (mark_dispatched aid now s) = Inr False" by (simp add: mark_dispatched_def Let_def)
  have "aid \<notin> assignment_id ` set as" if ready: "ready_assignments plan s = Inr as" for plan as
  proof (cases "as = []")
    case False
    then obtain run where run: "find_run plan s = Some run" "run_state run = RunActive"
      using ready by (auto simp: ready_assignments_def split: option.splits if_splits)
    have "map assignment_id as = map sr_assignment_id (filter (row_ready plan s) (plan_rows plan s))"
      using ready_assignments_rows[OF tu(1) run] ready by auto
    then have "assignment_id ` set as = sr_assignment_id ` set (filter (row_ready plan s) (plan_rows plan s))"
      by (metis list.set_map)
    then show ?thesis using gone by (auto simp: row_ready_def plan_rows_def)
  qed simp
  then show ?thesis using u mark by (simp add: status_for_assignment_def)
qed

theorem restart_never_redispatches_witness:
  "status_for_assignment ''a1'' (cs_open True (store_run
     [CreateRun sample_goal sample_plan sample_batch 1, MarkDispatched ''a1'' 2] cs_empty)) = Some StUnknown"
proof -
  let ?xs = "[CreateRun sample_goal sample_plan sample_batch 1, MarkDispatched ''a1'' 2]"
  have 1: "list_all store_step_ok ?xs" "list_all store_step_ok []" by code_simp+
  have 2: "status_for_assignment ''a1'' (store_run ?xs cs_empty) = Some StDispatched" by code_simp
  show ?thesis using restart_never_redispatches[OF 1 2 _ refl] by (simp add: in_flight_def)
qed

lemma step_statuses_Some:
  assumes "steps_ok s"
  shows "step_statuses plan s d = Some st \<longleftrightarrow> (\<exists>r\<in>set (cs_steps s). sr_plan_id r = plan \<and> sr_step_id r = d \<and> sr_status r = st)"
proof -
  have "inj_on (\<lambda>r. (sr_plan_id r, sr_step_id r)) (set (cs_steps s))"
    using assms by (simp add: steps_ok_def distinct_map)
  then have "inj_on sr_step_id (set (plan_rows plan s))" by (auto simp: inj_on_def plan_rows_def)
  moreover have "distinct (plan_rows plan s)" using assms by (simp add: plan_rows_def steps_ok_def distinct_map)
  ultimately have "distinct (map fst (map (\<lambda>r. (sr_step_id r, sr_status r)) (plan_rows plan s)))"
    by (simp add: distinct_map comp_def)
  then show ?thesis
    by (auto simp: step_statuses_def plan_rows_def dest: map_of_SomeD intro!: map_of_is_SomeI)
qed

text \<open>The dependency relation of a plan as the rows have it.\<close>

definition deps_rel :: "string \<Rightarrow> coordinator_store \<Rightarrow> (string \<times> string) set" where
  "deps_rel plan s = {(d, sr_step_id r) | d r. r \<in> set (plan_rows plan s) \<and> d \<in> set (sr_dependencies r)}"

definition deps_closed :: "string \<Rightarrow> coordinator_store \<Rightarrow> bool" where
  "deps_closed plan s = (\<forall>r\<in>set (plan_rows plan s). set (sr_dependencies r) \<subseteq> sr_step_id ` set (plan_rows plan s))"

lemma finite_deps_rel: "finite (deps_rel plan s)"
proof -
  have "deps_rel plan s \<subseteq> (\<Union>r\<in>set (plan_rows plan s). (\<lambda>d. (d, sr_step_id r)) ` set (sr_dependencies r))"
    by (auto simp: deps_rel_def)
  then show ?thesis by (rule finite_subset) auto
qed

text \<open>C15: An active run is never stuck. When a run is active, nothing of it is in flight and nothing was cancelled, and
  its dependencies are acyclic and name steps of the plan, then at least one step is ready to be dispatched.\<close>

theorem active_run_has_ready_step:
  assumes "list_all store_step_ok xs" and s: "s = store_run xs cs_empty"
    and run: "find_run plan s = Some run" "run_state run = RunActive"
    and idle: "\<forall>r\<in>set (plan_rows plan s). \<not> in_flight (sr_status r) \<and> sr_status r \<noteq> StCancelled"
    and dag: "acyclic (deps_rel plan s)" "deps_closed plan s"
  shows "\<exists>as. ready_assignments plan s = Inr as \<and> as \<noteq> []"
proof -
  have inv: "cs_inv s" using store_run_ok[OF assms(1) cs_inv_empty] s by blast
  then have ok: "steps_ok s" by (simp add: cs_inv_def)
  let ?rows = "set (plan_rows plan s)"
  have r: "run \<in> set (cs_runs s)" "run_plan_id run = plan"
    using run(1) find_key_SomeD[of run_plan_id plan] by (auto simp: find_run_def)
  then have "run_status_of (sr_status ` ?rows) = RunActive" "plan_rows plan s \<noteq> []"
    using inv run(2) by (auto simp: cs_inv_def run_ok_def)
  then have nof: "StUnknown \<notin> sr_status ` ?rows" "StFailed \<notin> sr_status ` ?rows" "StRejected \<notin> sr_status ` ?rows"
    "sr_status ` ?rows \<noteq> {StSucceeded}" "?rows \<noteq> {}"
    by (auto simp: run_status_of_def split: if_splits)
  have two: "sr_status x = StPending \<or> sr_status x = StSucceeded" if "x \<in> ?rows" for x
    using that nof(1-3) idle by (cases "sr_status x") (auto simp: in_flight_def image_iff)
  have "\<exists>x\<in>?rows. sr_status x = StPending"
  proof (rule ccontr)
    assume "\<not> (\<exists>x\<in>?rows. sr_status x = StPending)"
    then have "sr_status ` ?rows \<subseteq> {StSucceeded}" using two by blast
    then have "sr_status ` ?rows = {StSucceeded}" using nof(5) by (simp add: subset_singleton_iff)
    then show False using nof(4) by blast
  qed
  then obtain x :: step_row where x: "sr_step_id x \<in> {sr_step_id y | y. y \<in> ?rows \<and> sr_status y = StPending}" by blast
  have "wf (deps_rel plan s)" using dag(1) finite_deps_rel finite_acyclic_wf by blast
  then obtain m where m: "m \<in> {sr_step_id y | y. y \<in> ?rows \<and> sr_status y = StPending}"
    "\<And>d. (d, m) \<in> deps_rel plan s \<Longrightarrow> d \<notin> {sr_step_id y | y. y \<in> ?rows \<and> sr_status y = StPending}"
    using wfE_min[OF _ x] by blast
  then obtain y where y: "y \<in> ?rows" "sr_status y = StPending" "m = sr_step_id y" by blast
  have "step_statuses plan s d = Some StSucceeded" if d: "d \<in> set (sr_dependencies y)" for d
  proof -
    obtain z where z: "z \<in> ?rows" "sr_step_id z = d" using dag(2) y(1) d by (auto simp: deps_closed_def)
    have "(d, m) \<in> deps_rel plan s" using y d by (auto simp: deps_rel_def)
    then have "sr_status z = StSucceeded" using m(2) z two[OF z(1)] by blast
    then show ?thesis using z step_statuses_Some[OF ok] by (auto simp: plan_rows_def)
  qed
  then have "row_ready plan s y" using y(2) by (simp add: row_ready_def list_all_iff)
  then have "filter (row_ready plan s) (plan_rows plan s) \<noteq> []" using y(1) by (auto simp: filter_empty_conv)
  moreover obtain as where as: "ready_assignments plan s = Inr as"
    "map assignment_id as = map sr_assignment_id (filter (row_ready plan s) (plan_rows plan s))"
    using ready_assignments_rows[OF inv run] by blast
  ultimately have "as \<noteq> []" by (metis map_is_Nil_conv)
  then show ?thesis using as(1) by blast
qed

lemma acyclic_one: "a \<noteq> b \<Longrightarrow> acyclic {(a, b)}"
  unfolding acyclic_def by (auto elim: tranclE converse_tranclE)

theorem active_run_has_ready_step_witness:
  "\<exists>as. ready_assignments ''p1'' (store_run [CreateRun sample_goal sample_plan sample_batch 1] cs_empty) = Inr as \<and> as \<noteq> []"
proof -
  let ?xs = "[CreateRun sample_goal sample_plan sample_batch 1]"
  let ?s = "store_run ?xs cs_empty"
  have ok: "list_all store_step_ok ?xs" by code_simp
  have "map_option run_state (find_run ''p1'' ?s) = Some RunActive" by code_simp
  then obtain run where run: "find_run ''p1'' ?s = Some run" "run_state run = RunActive" by (auto simp: map_option_eq_Some)
  have rows: "map (\<lambda>r. (sr_step_id r, sr_dependencies r, sr_status r)) (plan_rows ''p1'' ?s) =
      [(''s1'', [], StPending), (''s2'', [''s1''], StPending)]" by code_simp
  obtain r1 r2 where r: "plan_rows ''p1'' ?s = [r1, r2]" "sr_step_id r1 = ''s1''" "sr_step_id r2 = ''s2''"
    "sr_dependencies r1 = []" "sr_dependencies r2 = [''s1'']" "sr_status r1 = StPending" "sr_status r2 = StPending"
    using rows by (auto simp: map_eq_Cons_conv)
  have "deps_rel ''p1'' ?s = (\<Union>x\<in>{r1, r2}. (\<lambda>d. (d, sr_step_id x)) ` set (sr_dependencies x))"
    unfolding deps_rel_def r(1) by auto
  then have "deps_rel ''p1'' ?s = {(''s1'', ''s2'')}" using r by simp
  then have "acyclic (deps_rel ''p1'' ?s)" using acyclic_one[of "''s1''" "''s2''"] by simp
  moreover have "deps_closed ''p1'' ?s" using r by (simp add: deps_closed_def)
  ultimately show ?thesis
    using r by (intro active_run_has_ready_step[OF ok refl run]) (simp_all add: in_flight_def)
qed

lemma run_status_of_cancelled:
  "StCancelled \<in> A \<Longrightarrow> run_status_of A \<noteq> RunSucceeded"
  "StPending \<in> A \<Longrightarrow> A \<inter> {StUnknown, StFailed, StRejected} = {} \<Longrightarrow> run_status_of A = RunActive"
  by (auto simp: run_status_of_def)

text \<open>A cancelled dependency blocks a run for ever. When a pending step depends on a cancelled one, no later
  transaction or restart makes it ready, and the run never succeeds; yet as long as no step is unknown, failed or
  rejected the stored status of the run stays \<open>active\<close> until an operator cancels it.\<close>

lemma cancelled_dependency_blocks:
  assumes "list_all store_step_ok xs" "list_all store_step_ok ys"
    and s: "s = store_run xs cs_empty" and t: "t = store_run ys s"
    and row: "find_step aid s = Some r" "d \<in> set (sr_dependencies r)"
    and dep: "step_statuses (sr_plan_id r) s d = Some StCancelled"
  shows "(\<forall>as. ready_assignments (sr_plan_id r) t = Inr as \<longrightarrow> aid \<notin> set (map assignment_id as)) \<and>
    (\<forall>run. find_run (sr_plan_id r) t = Some run \<longrightarrow> run_state run \<noteq> RunSucceeded \<and>
       ((\<exists>x\<in>set (plan_rows (sr_plan_id r) t). sr_status x = StPending) \<longrightarrow>
        (\<forall>x\<in>set (plan_rows (sr_plan_id r) t). sr_status x \<notin> {StUnknown, StFailed, StRejected}) \<longrightarrow>
        run_state run = RunActive))"
proof -
  let ?p = "sr_plan_id r"
  have inv: "cs_inv s" using store_run_ok[OF assms(1) cs_inv_empty] s by blast
  have st: "cs_inv t" "cs_le s t" using store_run_ok[OF assms(2) inv] t by auto
  have ok: "steps_ok s" "steps_ok t" using inv st(1) by (simp_all add: cs_inv_def)
  obtain c where c: "c \<in> set (cs_steps s)" "sr_plan_id c = ?p" "sr_step_id c = d" "sr_status c = StCancelled"
    using dep step_statuses_Some[OF ok(1)] by auto
  obtain c' where c': "find_step (sr_assignment_id c) t = Some c'" "same_row c c'" "step_reaches StCancelled (sr_status c')"
    using find_step_le[OF st find_step_unique[OF ok(1) c(1)]] c(4) by auto
  have can: "sr_status c' = StCancelled"
    using step_reaches_final[OF c'(3)] by (simp add: TERMINAL_STEP_STATUSES_def)
  have c't: "c' \<in> set (cs_steps t)" "sr_plan_id c' = ?p" "sr_step_id c' = d"
    using find_stepD[OF c'(1)] c'(2) c by (auto simp: same_row_def)
  have dt: "step_statuses ?p t d = Some StCancelled" using c't can step_statuses_Some[OF ok(2)] by blast
  obtain r' where r': "find_step aid t = Some r'" "same_row r r'" using find_step_le[OF st row(1)] by blast
  have "d \<in> set (sr_dependencies r')" using row(2) r'(2) by (simp add: same_row_def)
  then have "\<not> row_ready ?p t r'" using dt unfolding row_ready_def list_all_iff by fastforce
  then have notready: "aid \<notin> sr_assignment_id ` set (filter (row_ready ?p t) (plan_rows ?p t))"
    using step_unique[OF ok(2) r'(1)] by (auto simp: plan_rows_def)
  have "aid \<notin> set (map assignment_id as)" if as: "ready_assignments ?p t = Inr as" for as
  proof (cases "\<exists>run. find_run ?p t = Some run \<and> run_state run = RunActive")
    case True
    then obtain run where "find_run ?p t = Some run" "run_state run = RunActive" by blast
    from ready_assignments_rows[OF st(1) this] as
    have "set (map assignment_id as) = sr_assignment_id ` set (filter (row_ready ?p t) (plan_rows ?p t))"
      by (metis list.set_map sum.inject(2))
    then show ?thesis using notready by simp
  next
    case False
    then show ?thesis using as by (auto simp: ready_assignments_def split: option.splits if_splits)
  qed
  moreover have "run_state run \<noteq> RunSucceeded \<and>
       ((\<exists>x\<in>set (plan_rows ?p t). sr_status x = StPending) \<longrightarrow>
        (\<forall>x\<in>set (plan_rows ?p t). sr_status x \<notin> {StUnknown, StFailed, StRejected}) \<longrightarrow> run_state run = RunActive)"
    if run: "find_run ?p t = Some run" for run
  proof -
    have "run \<in> set (cs_runs t)" "run_plan_id run = ?p"
      using run find_key_SomeD[of run_plan_id ?p] by (auto simp: find_run_def)
    then have "run_state run = run_status_of (sr_status ` set (plan_rows ?p t))"
      using st(1) by (simp add: cs_inv_def run_ok_def)
    moreover have "StCancelled \<in> sr_status ` set (plan_rows ?p t)" using c't can by (force simp: plan_rows_def)
    ultimately show ?thesis
      using run_status_of_cancelled(1) run_status_of_cancelled(2)[of "sr_status ` set (plan_rows ?p t)"]
      by (auto simp: image_iff) metis+
  qed
  ultimately show ?thesis by blast
qed

theorem cancelled_dependency_blocks_witness:
  "case ready_assignments ''p1'' (store_run [CreateRun sample_goal sample_plan sample_batch 1, MarkDispatched ''a1'' 2,
       RecordOutcome ''a1'' AsCancelled 3] cs_empty) of Inl _ \<Rightarrow> False | Inr as \<Rightarrow> ''a2'' \<notin> set (map assignment_id as)"
proof -
  let ?xs = "[CreateRun sample_goal sample_plan sample_batch 1, MarkDispatched ''a1'' 2, RecordOutcome ''a1'' AsCancelled 3]"
  let ?s = "store_run ?xs cs_empty"
  have ok: "list_all store_step_ok ?xs" "list_all store_step_ok []" by code_simp+
  have "map_option (\<lambda>r. (sr_plan_id r, sr_dependencies r)) (find_step ''a2'' ?s) = Some (''p1'', [''s1''])" by code_simp
  then obtain r where r: "find_step ''a2'' ?s = Some r" "sr_plan_id r = ''p1''" "sr_dependencies r = [''s1'']"
    by (auto simp: map_option_eq_Some)
  have dep: "step_statuses ''p1'' ?s ''s1'' = Some StCancelled" by code_simp
  have "\<not> isl (ready_assignments ''p1'' ?s)" by code_simp
  then obtain as where as: "ready_assignments ''p1'' ?s = Inr as" by (cases "ready_assignments ''p1'' ?s") auto
  show ?thesis
    using cancelled_dependency_blocks[OF ok refl refl r(1), of "''s1''"] r(2,3) dep as by simp
qed

end
