(* ===== verification/Coordinator.thy ===== *)
theory Coordinator
  imports Effects Plan_Validation Store_Runs Journal_Runs
begin

text \<open>
  \<open>collaboration.py\<close>, class \<open>Coordinator\<close>. Its state is the record \<open>coordinator\<close>; every method is a computation
  on it that emits the envelopes it publishes, in order.

  Publishing hands control to the bus, and with \<open>InMemoryBus\<close> the bus calls handlers, also those of this very
  coordinator, before \<open>publish\<close> returns. The argument \<open>ce_deliver\<close> is that part: the computation the coordinator
  undergoes while an envelope is being delivered. The network bus only queues, which is \<open>\<lambda>_. pret ()\<close>; a bus that
  calls back is any computation built from the handlers below (\<open>deliver_depth\<close> in the theory of runs).
  The planner, the fresh ids and SHA-256 are the other fields of \<open>co_env\<close>.

  The \<open>assignment_id\<close> of a message goes to SQL as a parameter: text is looked up, \<open>null\<close>, a boolean or a number
  matches no id (ids are \<open>uuid4\<close> texts), a list or object cannot be bound and raises.
\<close>

section \<open>State\<close>

record coordinator =
  co_id :: string
  co_session_id :: string
  co_sequence :: int
  co_store :: coordinator_store
  co_registry :: registry
  co_lease_ids :: "string \<Rightarrow> string option"
  co_require_authority :: bool
  co_outcomes :: "string \<Rightarrow> json option"
  co_acknowledgements :: "string \<Rightarrow> string option"

type_synonym 'a cm = "(coordinator, envelope, 'a) act"

record co_env =
  ce_deliver :: "envelope \<Rightarrow> unit cm"
  ce_message_id :: "int \<Rightarrow> string"
  ce_assignment_id :: "nat \<Rightarrow> nat \<Rightarrow> string"
  ce_propose :: "shared_goal \<Rightarrow> (string \<Rightarrow> manifest option) \<Rightarrow> (string \<Rightarrow> robot_state option) \<Rightarrow> plan res"
  ce_sha :: "string \<Rightarrow> string"

definition coordinator_init ::
  "string \<Rightarrow> string \<Rightarrow> coordinator_store \<Rightarrow> registry \<Rightarrow> (string \<Rightarrow> string option) \<Rightarrow> bool \<Rightarrow> coordinator res" where
  "coordinator_init cid session store reg leases auth =
     (case bind_coordinator cid store of
        (s, Inl e) \<Rightarrow> Inl e
      | (s, Inr _) \<Rightarrow> Inr \<lparr>co_id = cid, co_session_id = session, co_sequence = 0, co_store = s, co_registry = reg,
          co_lease_ids = leases, co_require_authority = auth, co_outcomes = Map.empty, co_acknowledgements = Map.empty\<rparr>)"

definition cstore :: "'a store_op \<Rightarrow> 'a cm" where
  "cstore = pzoom co_store (\<lambda>s c. c\<lparr>co_store := s\<rparr>)"

definition cread :: "(coordinator_store \<Rightarrow> 'a res) \<Rightarrow> 'a cm" where
  "cread f = pbind (pgets co_store) (\<lambda>s. plift (f s))"

definition cpublish :: "co_env \<Rightarrow> string \<Rightarrow> json \<Rightarrow> int \<Rightarrow> string \<Rightarrow> unit cm" where
  "cpublish env mtype body now corr =
     pbind (pmodify (\<lambda>c. c\<lparr>co_sequence := co_sequence c + 1\<rparr>)) (\<lambda>_.
     pbind (pgets (\<lambda>c. make_envelope (ce_message_id env (co_sequence c)) mtype (co_id c) (co_session_id c)
                     (co_sequence c) now body (Some corr) OPERATIONAL_STREAM)) (\<lambda>e.
     pbind (plift (rbind (encode_envelope e) decode_envelope)) (\<lambda>canonical.
     pbind (pemit canonical) (\<lambda>_.
     ce_deliver env canonical))))"

section \<open>Dispatch\<close>

definition dispatch_one :: "co_env \<Rightarrow> int \<Rightarrow> assignment \<Rightarrow> unit cm" where
  "dispatch_one env now a =
     pbind (cstore (mark_dispatched (assignment_id a) now)) (\<lambda>marked.
     if marked then cpublish env ''assignment'' (assignment_payload a) now (asg_goal_id a) else pret ())"

definition dispatch_ready :: "co_env \<Rightarrow> string \<Rightarrow> int \<Rightarrow> unit cm" where
  "dispatch_ready env plan now =
     pbind (cread (ready_assignments plan)) (\<lambda>ready. pforeach (dispatch_one env now) ready)"

definition dispatch_if :: "co_env \<Rightarrow> string option \<Rightarrow> int \<Rightarrow> unit cm" where
  "dispatch_if env plan now = (case plan of None \<Rightarrow> pret () | Some p \<Rightarrow> dispatch_ready env p now)"

section \<open>Messages from robots\<close>

definition sql_key :: "json \<Rightarrow> string option res" where
  "sql_key v = (case v of
      JStr s \<Rightarrow> Inr (Some s)
    | JArr _ \<Rightarrow> Inl (RuntimeError ''InterfaceError'')
    | JObj _ \<Rightarrow> Inl (RuntimeError ''InterfaceError'')
    | _ \<Rightarrow> Inr None)"

text \<open>The beginning of the four handlers: the assignment the message is about, when it is one of this journal and
  the message comes from the robot it was given to; \<open>None\<close> when the handler ignores the message.\<close>

definition assigned_message :: "string \<Rightarrow> envelope \<Rightarrow> string option cm" where
  "assigned_message what e =
     pbind (plift (rbind (jitem (env_payload e) ''assignment_id'') sql_key)) (\<lambda>key.
     case key of
       None \<Rightarrow> pret None
     | Some aid \<Rightarrow>
         pbind (cread (robot_for_assignment aid)) (\<lambda>expected.
         case expected of
           None \<Rightarrow> pret None
         | Some robot \<Rightarrow>
             pbind (plift (jget (env_payload e) ''robot_id'' JNull)) (\<lambda>rid.
             pbind (plift (require (rid = JStr (source_id e))
                      (ValueError (what @ '' robot_id does not match message source'')))) (\<lambda>_.
             pbind (plift (require (source_id e = robot) (ValueError (what @ '' source is not the assigned robot'')))) (\<lambda>_.
             pret (Some aid))))))"

definition co_on_outcome :: "co_env \<Rightarrow> envelope \<Rightarrow> unit cm" where
  "co_on_outcome env e =
     pbind (assigned_message ''outcome'' e) (\<lambda>found.
     case found of
       None \<Rightarrow> pret ()
     | Some aid \<Rightarrow>
         pbind (plift (jitem (env_payload e) ''succeeded'')) (\<lambda>succ.
         pbind (pmodify (\<lambda>c. c\<lparr>co_outcomes := (co_outcomes c)(aid \<mapsto> succ)\<rparr>)) (\<lambda>_.
         pbind (plift (rbind (jitem (env_payload e) ''status'') assignment_status_of)) (\<lambda>st.
         pbind (pgets (\<lambda>c. status_for_assignment aid (co_store c))) (\<lambda>current.
         pbind (if current = Some StUnknown
                then cstore (reconcile_outcome aid st (timestamp_ms e))
                else cstore (record_outcome aid st (timestamp_ms e))) (\<lambda>plan.
         dispatch_if env plan (timestamp_ms e)))))))"

definition co_on_acknowledgement :: "co_env \<Rightarrow> envelope \<Rightarrow> unit cm" where
  "co_on_acknowledgement env e =
     pbind (assigned_message ''acknowledgement'' e) (\<lambda>found.
     case found of
       None \<Rightarrow> pret ()
     | Some aid \<Rightarrow>
         pbind (plift (rbind (jitem (env_payload e) ''status'') assignment_status_of)) (\<lambda>st.
         pbind (pmodify (\<lambda>c. c\<lparr>co_acknowledgements := (co_acknowledgements c)(aid \<mapsto> assignment_status_value st)\<rparr>)) (\<lambda>_.
         pbind (cstore (record_acknowledgement aid st (timestamp_ms e))) (\<lambda>_. pret ()))))"

definition co_on_cancellation_ack :: "co_env \<Rightarrow> envelope \<Rightarrow> unit cm" where
  "co_on_cancellation_ack env e =
     pbind (assigned_message ''cancellation'' e) (\<lambda>found.
     case found of
       None \<Rightarrow> pret ()
     | Some aid \<Rightarrow>
         pbind (plift (rbind (jitem (env_payload e) ''status'') cancellation_status_of)) (\<lambda>st.
         pbind (cstore (record_cancellation_acknowledgement aid (st = CsAccepted \<or> st = CsAlreadyTerminal)
                  (timestamp_ms e))) (\<lambda>_. pret ())))"

definition decode_snapshot :: "string \<Rightarrow> json \<Rightarrow> json \<Rightarrow> snapshot res" where
  "decode_snapshot aid data outcome_data =
     rbind (decode_outcome_value outcome_data) (\<lambda>oc.
     rbind (rbind (jitem data ''robot_id'') as_str) (\<lambda>rid.
     rbind (rbind (jitem data ''status'') assignment_status_of) (\<lambda>st.
     rbind (rbind (jitem data ''description'') as_str) (\<lambda>descr.
     rbind (rbind (jitem data ''fingerprint'') as_str) (\<lambda>fp.
     post_init_snapshot \<lparr>sn_assignment_id = aid, sn_robot_id = rid, sn_status = st, sn_description = descr,
       sn_fingerprint = fp, sn_outcome = Some oc\<rparr>)))))"

definition co_on_snapshot :: "co_env \<Rightarrow> envelope \<Rightarrow> unit cm" where
  "co_on_snapshot env e =
     pbind (assigned_message ''snapshot'' e) (\<lambda>found.
     case found of
       None \<Rightarrow> pret ()
     | Some aid \<Rightarrow>
         pbind (plift (jget (env_payload e) ''outcome'' JNull)) (\<lambda>outcome_data.
         if outcome_data = JNull then pret ()
         else
           pbind (plift (decode_snapshot aid (env_payload e) outcome_data)) (\<lambda>sn.
           pbind (cread (cs_assignment aid)) (\<lambda>stored.
           pbind (plift (require (case stored of None \<Rightarrow> False | Some a \<Rightarrow> sn_fingerprint sn = assignment_fingerprint (ce_sha env) a)
                    (ValueError ''snapshot fingerprint does not match stored assignment''))) (\<lambda>_.
           pbind (cstore (reconcile_outcome aid (sn_status sn) (timestamp_ms e))) (\<lambda>plan.
           pbind (pmodify (\<lambda>c. c\<lparr>co_outcomes := (co_outcomes c)(aid \<mapsto>
                    JBool (case sn_outcome sn of None \<Rightarrow> False | Some oc \<Rightarrow> oc_succeeded oc))\<rparr>)) (\<lambda>_.
           dispatch_if env plan (timestamp_ms e)))))))) "

section \<open>Goals and plans\<close>

definition known_manifests :: "shared_goal \<Rightarrow> registry \<Rightarrow> string \<Rightarrow> manifest option" where
  "known_manifests goal reg rid =
     (if rid \<in> set (participant_ids goal) then (case reg rid of None \<Rightarrow> None | Some p \<Rightarrow> pv_manifest p) else None)"

definition known_states :: "shared_goal \<Rightarrow> registry \<Rightarrow> string \<Rightarrow> robot_state option" where
  "known_states goal reg rid =
     (if rid \<in> set (participant_ids goal) then (case reg rid of None \<Rightarrow> None | Some p \<Rightarrow> pv_state p) else None)"

definition make_assignments :: "(nat \<Rightarrow> string) \<Rightarrow> shared_goal \<Rightarrow> plan \<Rightarrow> (string \<Rightarrow> string option) \<Rightarrow> assignment list res" where
  "make_assignments ids goal plan leases =
     rmap (\<lambda>(i, step). post_init_assignment \<lparr>assignment_id = ids i, asg_goal_id = goal_id goal, asg_plan_id = plan_id plan,
             asg_step = step, authority_lease_id = leases (assigned_robot_id step)\<rparr>)
       (zip [0..<length (plan_steps plan)] (plan_steps plan))"

text \<open>\<open>_prepare\<close>; \<open>n\<close> numbers the goals of a batch, for the fresh ids.\<close>

definition prepare :: "co_env \<Rightarrow> nat \<Rightarrow> shared_goal \<Rightarrow> int \<Rightarrow> coordinator \<Rightarrow> (plan \<times> assignment list) res" where
  "prepare env n goal now c =
     rbind (validate_core_message_size ''goal'' (shared_goal_payload goal)) (\<lambda>_.
     rbind (ce_propose env goal (known_manifests goal (co_registry c)) (known_states goal (co_registry c))) (\<lambda>plan.
     rbind (validate_plan goal plan (co_registry c) now) (\<lambda>_.
     rbind (require (co_require_authority c \<longrightarrow>
                list_all (\<lambda>s. co_lease_ids c (assigned_robot_id s) \<noteq> None) (plan_steps plan))
              (PlanValidationError ''missing authority leases for assigned robots'')) (\<lambda>_.
     rbind (make_assignments (ce_assignment_id env n) goal plan (co_lease_ids c)) (\<lambda>as.
     Inr (plan, as))))))"

definition announce_run :: "co_env \<Rightarrow> shared_goal \<Rightarrow> plan \<Rightarrow> int \<Rightarrow> unit cm" where
  "announce_run env goal plan now =
     pbind (cpublish env ''goal'' (shared_goal_payload goal) now (goal_id goal)) (\<lambda>_.
     pbind (cpublish env ''plan'' (plan_payload plan) now (goal_id goal)) (\<lambda>_.
     dispatch_ready env (plan_id plan) now))"

definition submit :: "co_env \<Rightarrow> shared_goal \<Rightarrow> int \<Rightarrow> plan cm" where
  "submit env goal now =
     pbind (pbind (pgets (prepare env 0 goal now)) plift) (\<lambda>(plan, as).
     pbind (cstore (create_run goal plan as now)) (\<lambda>_.
     pbind (announce_run env goal plan now) (\<lambda>_.
     pret plan)))"

definition submit_many :: "co_env \<Rightarrow> shared_goal list \<Rightarrow> int \<Rightarrow> plan list cm" where
  "submit_many env goals now =
     pbind (plift (require (1 \<le> length goals \<and> length goals \<le> 256)
              (PlanValidationError ''goal batch requires 1 to 256 goals''))) (\<lambda>_.
     pbind (plift (require (distinct (map goal_id goals))
              (PlanValidationError ''goal batch identifiers must be unique''))) (\<lambda>_.
     pbind (pbind (pgets (\<lambda>c. rmap (\<lambda>(n, goal). prepare env n goal now c) (zip [0..<length goals] goals))) plift) (\<lambda>prepared.
     pbind (plift (require (distinct (map (\<lambda>p. plan_id (fst p)) prepared))
              (PlanValidationError ''planner returned duplicate plan identifiers''))) (\<lambda>_.
     pbind (pforeach (\<lambda>(goal, plan, as). cstore (create_run goal plan as now)) (zip goals prepared)) (\<lambda>_.
     pbind (pforeach (\<lambda>(goal, plan, as). announce_run env goal plan now) (zip goals prepared)) (\<lambda>_.
     pret (map fst prepared)))))))"

definition co_snapshot :: "string \<Rightarrow> run_snapshot cm" where
  "co_snapshot plan = cread (cs_snapshot plan)"

definition execute :: "co_env \<Rightarrow> shared_goal \<Rightarrow> int \<Rightarrow> plan cm" where
  "execute env goal now =
     pbind (submit env goal now) (\<lambda>plan.
     pbind (co_snapshot (plan_id plan)) (\<lambda>sn.
     if snap_status sn \<noteq> RunSucceeded then plift (Inl (RuntimeError ''plan did not complete successfully''))
     else pret plan))"

definition execute_many :: "co_env \<Rightarrow> shared_goal list \<Rightarrow> int \<Rightarrow> plan list cm" where
  "execute_many env goals now =
     pbind (submit_many env goals now) (\<lambda>plans.
     pbind (cread (\<lambda>s. rmap (\<lambda>p. cs_snapshot (plan_id p) s) plans)) (\<lambda>sns.
     if \<not> list_all (\<lambda>sn. snap_status sn = RunSucceeded) sns
     then plift (Inl (RuntimeError ''goal batch did not complete successfully''))
     else pret plans))"

definition replan :: "co_env \<Rightarrow> string \<Rightarrow> int \<Rightarrow> plan cm" where
  "replan env previous now =
     pbind (co_snapshot previous) (\<lambda>sn.
     if snap_status sn = RunActive
     then plift (Inl (PlanValidationError ''an active plan must be cancelled before replanning''))
     else
       pbind (cread (cs_plan previous)) (\<lambda>old.
       pbind (cread (cs_goal previous)) (\<lambda>goal.
       pbind (pbind (pgets (prepare env 0 goal now)) plift) (\<lambda>(plan, as).
       pbind (plift (require (plan_id plan \<noteq> plan_id old)
                (PlanValidationError ''replanning requires a new plan identifier''))) (\<lambda>_.
       pbind (plift (require (plan_revision plan = plan_revision old + 1)
                (PlanValidationError ''replanning must increment the plan revision by one''))) (\<lambda>_.
       pbind (plift (require (supersedes_plan_id plan = Some (plan_id old))
                (PlanValidationError ''replanning must identify the exact predecessor plan''))) (\<lambda>_.
       pbind (cstore (create_run goal plan as now)) (\<lambda>_.
       pbind (announce_run env goal plan now) (\<lambda>_.
       pret plan)))))))))"

section \<open>Recovery and cancellation\<close>

definition resume_active :: "co_env \<Rightarrow> int \<Rightarrow> string list cm" where
  "resume_active env now =
     pbind (pgets (\<lambda>c. active_plan_ids (co_store c))) (\<lambda>plans.
     pbind (pforeach (\<lambda>p. dispatch_ready env p now) plans) (\<lambda>_.
     pret plans))"

definition co_reconcile :: "co_env \<Rightarrow> string \<Rightarrow> int \<Rightarrow> string list cm" where
  "co_reconcile env plan now =
     pbind (cread (unknown_assignments plan)) (\<lambda>as.
     pbind (pforeach (\<lambda>a.
       pbind (plift (post_init_query \<lparr>query_assignment_id = assignment_id a, query_robot_id = assigned_robot_id (asg_step a)\<rparr>)) (\<lambda>q.
       cpublish env ''assignment_query'' (query_payload q) now (asg_goal_id a))) as) (\<lambda>_.
     pret (map assignment_id as)))"

definition cancel :: "co_env \<Rightarrow> string \<Rightarrow> string \<Rightarrow> int \<Rightarrow> string list cm" where
  "cancel env plan reason now =
     pbind (plift (require (\<not> (py_blank reason \<or> length reason > 4096))
              (ValueError ''cancellation reason must contain 1 to 4096 UTF-8 bytes''))) (\<lambda>_.
     pbind (cstore (request_cancellation plan now)) (\<lambda>as.
     pbind (pforeach (\<lambda>a.
       pbind (plift (post_init_cancellation_request \<lparr>cr_assignment_id = assignment_id a,
                       cr_robot_id = assigned_robot_id (asg_step a), cr_reason = reason\<rparr>)) (\<lambda>rq.
       cpublish env ''cancellation_request'' (cancellation_request_payload rq) now (asg_goal_id a))) as) (\<lambda>_.
     pret (map assignment_id as))))"

end
