(* ===== verification/Coordinator_Runs.thy ===== *)
theory Coordinator_Runs
  imports Coordinator
begin

text \<open>
  Runs of the coordinator: any sequence of messages, submissions, replanning, cancellations, reconciliations and
  restarts, over any bus that calls back through the coordinator's own handlers only.
\<close>

section \<open>Traces\<close>

text \<open>The assignment ids of the orders among the published envelopes.\<close>

definition order_of :: "envelope \<Rightarrow> string list" where
  "order_of e = (if message_type e = ''assignment''
     then (case jitem (env_payload e) ''assignment_id'' of Inr (JStr k) \<Rightarrow> [k] | _ \<Rightarrow> []) else [])"

definition orders :: "envelope list \<Rightarrow> string list" where
  "orders es = concat (map order_of es)"

lemma orders_simps [simp]: "orders [] = []" "orders (es @ fs) = orders es @ orders fs" "orders (e # es) = order_of e @ orders es"
  by (simp_all add: orders_def)

text \<open>An order that was justified: its step has left \<open>pending\<close> and everything it depends on has succeeded.\<close>

definition deps_done :: "coordinator_store \<Rightarrow> step_row \<Rightarrow> bool" where
  "deps_done s r = (\<forall>d\<in>set (sr_dependencies r). step_statuses (sr_plan_id r) s d = Some StSucceeded)"

definition sent_ok :: "coordinator_store \<Rightarrow> string \<Rightarrow> bool" where
  "sent_ok s k = (\<exists>r. find_step k s = Some r \<and> sr_status r \<noteq> StPending \<and> deps_done s r)"

definition CInv :: "coordinator \<Rightarrow> string list \<Rightarrow> bool" where
  "CInv c tr = (cs_inv (co_store c) \<and> distinct tr \<and> (\<forall>k\<in>set tr. sent_ok (co_store c) k))"

lemma step_statuses_mono:
  assumes inv: "cs_inv s" "cs_inv t" and le: "cs_le s t" and st: "step_statuses plan s d = Some StSucceeded"
  shows "step_statuses plan t d = Some StSucceeded"
proof -
  have ok: "steps_ok s" "steps_ok t" using inv by (simp_all add: cs_inv_def)
  obtain r where r: "r \<in> set (cs_steps s)" "sr_plan_id r = plan" "sr_step_id r = d" "sr_status r = StSucceeded"
    using st step_statuses_Some[OF ok(1)] by auto
  obtain r' where r': "r' \<in> set (cs_steps t)" "same_row r r'" "step_reaches StSucceeded (sr_status r')"
    using le r(1,4) by (auto simp: cs_le_def)
  have "sr_status r' = StSucceeded" using step_reaches_final[OF r'(3)] by (simp add: TERMINAL_STEP_STATUSES_def)
  then show ?thesis using r r' step_statuses_Some[OF ok(2)] by (auto simp: same_row_def)
qed

lemma deps_done_mono:
  assumes "cs_inv s" "cs_inv t" "cs_le s t" "same_row r r'" "deps_done s r"
  shows "deps_done t r'"
  using assms step_statuses_mono[OF assms(1-3)] by (auto simp: deps_done_def same_row_def)

lemma sent_ok_mono:
  assumes "cs_inv s" "cs_inv t" "cs_le s t" "sent_ok s k"
  shows "sent_ok t k"
proof -
  obtain r where r: "find_step k s = Some r" "sr_status r \<noteq> StPending" "deps_done s r" using assms(4) by (auto simp: sent_ok_def)
  obtain r' where r': "find_step k t = Some r'" "same_row r r'" "step_reaches (sr_status r) (sr_status r')"
    using find_step_le[OF assms(2,3) r(1)] by blast
  have "sr_status r' \<noteq> StPending" using r(2) r'(3) step_reaches_pending by metis
  then show ?thesis using r' deps_done_mono[OF assms(1-3) r'(2) r(3)] by (auto simp: sent_ok_def)
qed

lemma CInv_mono: "CInv c tr \<Longrightarrow> cs_inv (co_store q) \<Longrightarrow> cs_le (co_store c) (co_store q) \<Longrightarrow> CInv q tr"
  unfolding CInv_def using sent_ok_mono by blast

section \<open>Computations that keep the invariant\<close>

text \<open>\<open>Q\<close> is what is known of the store at the start; the facts used are stable, they survive any progress.\<close>

definition stable :: "(coordinator_store \<Rightarrow> bool) \<Rightarrow> bool" where
  "stable Q = (\<forall>s t. cs_inv s \<longrightarrow> cs_inv t \<longrightarrow> cs_le s t \<longrightarrow> Q s \<longrightarrow> Q t)"

definition ctraced :: "(coordinator_store \<Rightarrow> bool) \<Rightarrow> 'a cm \<Rightarrow> bool" where
  "ctraced Q f = (\<forall>c q es r tr. f c = (q, es, r) \<longrightarrow> CInv c tr \<longrightarrow> Q (co_store c) \<longrightarrow>
     CInv q (tr @ orders es) \<and> cs_le (co_store c) (co_store q))"

lemma stable_True [simp]: "stable (\<lambda>_. True)"
  by (simp add: stable_def)

lemma ctracedD:
  "ctraced Q f \<Longrightarrow> f c = (q, es, r) \<Longrightarrow> CInv c tr \<Longrightarrow> Q (co_store c) \<Longrightarrow>
     CInv q (tr @ orders es) \<and> cs_le (co_store c) (co_store q)"
  unfolding ctraced_def by blast

named_theorems ctraced_intros \<open>computations that keep the invariant of the coordinator\<close>

lemma ctraced_basic [ctraced_intros]: "ctraced Q (pret x)" "ctraced Q (plift y)" "ctraced Q (pgets f)"
  by (simp_all add: ctraced_def pret_def plift_def pgets_def)

lemma ctraced_modify [ctraced_intros]: "(\<And>c. co_store (f c) = co_store c) \<Longrightarrow> ctraced Q (pmodify f)"
  by (simp add: ctraced_def pmodify_def CInv_def)

lemma ctraced_cstore [ctraced_intros]: "store_ok f \<Longrightarrow> ctraced Q (cstore f)"
  unfolding ctraced_def
proof (intro allI impI)
  fix c q es r tr assume ok: "store_ok f" and run: "cstore f c = (q, es, r)" and inv: "CInv c tr"
  have q: "f (co_store c) = (co_store q, r)" "es = []"
    using run by (auto simp: cstore_def pzoom_def split: prod.splits)
  have "cs_inv (co_store q) \<and> cs_le (co_store c) (co_store q)"
    using store_okD[OF ok _ q(1)] inv by (simp add: CInv_def)
  then show "CInv q (tr @ orders es) \<and> cs_le (co_store c) (co_store q)" using CInv_mono[OF inv] q(2) by simp
qed

lemma ctraced_pbind:
  assumes st: "stable Q" and f: "ctraced Q f" and g: "\<And>x. ctraced Q (g x)"
  shows "ctraced Q (pbind f g)"
  unfolding ctraced_def
proof (intro allI impI)
  fix c q es r tr assume run: "pbind f g c = (q, es, r)" and inv: "CInv c tr" and Q: "Q (co_store c)"
  from run show "CInv q (tr @ orders es) \<and> cs_le (co_store c) (co_store q)"
  proof (cases rule: pbind_cases)
    case (1 e)
    then show ?thesis using ctracedD[OF f _ inv Q] by blast
  next
    case (2 p1 es1 x es2)
    have 1: "CInv p1 (tr @ orders es1)" "cs_le (co_store c) (co_store p1)" using ctracedD[OF f 2(1) inv Q] by auto
    have "Q (co_store p1)" using st Q 1 inv unfolding stable_def CInv_def by blast
    then show ?thesis using ctracedD[OF g 2(2) 1(1)] 1(2) 2(3) cs_le_trans by auto
  qed
qed

lemmas ctraced_bind [ctraced_intros] = ctraced_pbind[OF stable_True]

lemma ctraced_plift:
  assumes "\<And>y. x = Inr y \<Longrightarrow> ctraced Q (g y)"
  shows "ctraced Q (pbind (plift x) g)"
  using assms unfolding ctraced_def by (auto simp: pbind_def plift_def split: sum.splits prod.splits)

text \<open>Reading the store first: what is read may be used afterwards as a stable fact \<open>R\<close>.\<close>

lemma ctraced_cread:
  assumes "\<And>s x. cs_inv s \<Longrightarrow> Q s \<Longrightarrow> F s = Inr x \<Longrightarrow> R x s" "\<And>x. ctraced (R x) (g x)"
  shows "ctraced Q (pbind (cread F) g)"
  unfolding ctraced_def
proof (intro allI impI)
  fix c q es r tr assume run: "pbind (cread F) g c = (q, es, r)" and inv: "CInv c tr" and Q: "Q (co_store c)"
  show "CInv q (tr @ orders es) \<and> cs_le (co_store c) (co_store q)"
  proof (cases "F (co_store c)")
    case (Inl e)
    then show ?thesis using run inv by (auto simp: cread_def pbind_def plift_def pgets_def)
  next
    case (Inr x)
    then have "g x c = (q, es, r)" using run by (auto simp: cread_def pbind_def plift_def pgets_def split: prod.splits)
    moreover have "R x (co_store c)" using assms(1) inv Q Inr by (simp add: CInv_def)
    ultimately show ?thesis using ctracedD[OF assms(2) _ inv] by blast
  qed
qed

lemma ctraced_cread_only [ctraced_intros]: "ctraced Q (cread F)"
  by (auto simp: ctraced_def cread_def pbind_def pgets_def plift_def split: prod.splits sum.splits)

lemma ctraced_foreach:
  assumes "stable Q" "\<And>x. x \<in> set xs \<Longrightarrow> ctraced Q (f x)"
  shows "ctraced Q (pforeach f xs)"
  using assms(2) by (induction xs) (auto intro: ctraced_basic ctraced_pbind[OF assms(1)])

lemma ctraced_weaken: "ctraced Q f \<Longrightarrow> (\<And>s. P s \<Longrightarrow> Q s) \<Longrightarrow> ctraced P f"
  unfolding ctraced_def by blast

lemma ctraced_pure: "(P \<Longrightarrow> ctraced (\<lambda>_. True) f) \<Longrightarrow> ctraced (\<lambda>_. P) f"
  by (cases P) (simp_all add: ctraced_def)

lemma ctraced_if [ctraced_intros]: "ctraced Q f \<Longrightarrow> ctraced Q g \<Longrightarrow> ctraced Q (if b then f else g)"
  by simp


lemma ctraced_option [ctraced_intros]:
  "ctraced Q f \<Longrightarrow> (\<And>x. ctraced Q (g x)) \<Longrightarrow> ctraced Q (case v of None \<Rightarrow> f | Some x \<Rightarrow> g x)"
  by (cases v) simp_all

lemma ctraced_computed:
  assumes "\<And>c y. F c = Inr y \<Longrightarrow> ctraced Q (g y)"
  shows "ctraced Q (pbind (pbind (pgets F) plift) g)"
  using assms unfolding ctraced_def by (auto simp: pbind_def plift_def pgets_def split: sum.splits prod.splits)

section \<open>Publishing\<close>

lemma cpublish_cases:
  assumes run: "cpublish env mtype body now corr c = (q, es, r)" and wf: "wf_json body"
  obtains err where "es = []" "co_store q = co_store c" "r = Inl err"
  | c1 e es' where "co_store c1 = co_store c" "message_type e = mtype" "env_payload e = canon body" "es = e # es'"
      "ce_deliver env e c1 = (q, es', r)"
proof -
  let ?c1 = "c\<lparr>co_sequence := co_sequence c + 1\<rparr>"
  let ?e = "make_envelope (ce_message_id env (co_sequence c + 1)) mtype (co_id c) (co_session_id c)
     (co_sequence c + 1) now body (Some corr) OPERATIONAL_STREAM"
  show thesis
  proof (cases "rbind (encode_envelope ?e) decode_envelope")
    case (Inl err)
    then show thesis using run that(1)[of err] by (auto simp: cpublish_def pbind_def pmodify_def pgets_def plift_def)
  next
    case (Inr e)
    then obtain b where b: "encode_envelope ?e = Inr b" "decode_envelope b = Inr e" by (auto simp: res_simps)
    have "wf_json (env_payload ?e)" using wf by (simp add: make_envelope_def)
    then have "e = canon_envelope ?e" using decode_encoded[OF b(1)] b(2) by blast
    then have e: "message_type e = mtype" "env_payload e = canon body" by (simp_all add: canon_envelope_def make_envelope_def)
    show thesis
      using run Inr that(2)[of ?c1 e, OF _ e]
      by (auto simp: cpublish_def pbind_def pmodify_def pgets_def plift_def pemit_def split: prod.splits sum.splits)
  qed
qed

lemma order_of_assignment:
  "message_type e = ''assignment'' \<Longrightarrow> env_payload e = canon (assignment_payload a) \<Longrightarrow> order_of e = [assignment_id a]"
  by (simp add: order_of_def assignment_payload_def map_of_canon)

lemma order_of_other: "message_type e \<noteq> ''assignment'' \<Longrightarrow> order_of e = []"
  by (simp add: order_of_def)

lemma CInv_store: "co_store q = co_store c \<Longrightarrow> CInv q tr = CInv c tr"
  by (simp add: CInv_def)

text \<open>What \<open>mark_dispatched\<close> has done when it answers true: the assignment had never been ordered, and now may be.\<close>

lemma mark_dispatched_true:
  assumes run: "mark_dispatched aid now s = (t, Inr True)" and inv: "cs_inv s"
    and row: "find_step aid s = Some r" "deps_done s r"
  shows "\<not> sent_ok s aid" "sent_ok t aid" "cs_inv t" "cs_le s t"
proof -
  show t: "cs_inv t" "cs_le s t" using store_okD[OF mark_dispatched_ok inv run] by auto
  have "filter (\<lambda>r. sr_assignment_id r = aid \<and> sr_status r = StPending) (cs_steps s) \<noteq> []"
    using run by (auto simp: mark_dispatched_def Let_def)
  then obtain x where "x \<in> set (cs_steps s)" "sr_assignment_id x = aid" "sr_status x = StPending"
    by (auto simp: filter_empty_conv)
  then have p: "sr_status r = StPending" using step_unique[of s aid r x] row inv by (auto simp: cs_inv_def)
  then show "\<not> sent_ok s aid" using row by (auto simp: sent_ok_def)
  have "find_step aid t = Some (set_step_status StDispatched now r)"
    using run row p find_stepD[OF row(1)] find_step_upd[of "set_step_status StDispatched now"]
    by (auto simp: mark_dispatched_def Let_def)
  moreover have "deps_done t (set_step_status StDispatched now r)"
    by (rule deps_done_mono[OF inv t _ row(2)]) simp
  ultimately show "sent_ok t aid" by (simp add: sent_ok_def)
qed

text \<open>An assignment that may be ordered.\<close>

definition order_ready :: "assignment \<Rightarrow> coordinator_store \<Rightarrow> bool" where
  "order_ready a s = (wf_json (step_inputs (asg_step a)) \<and> (\<exists>r. find_step (assignment_id a) s = Some r \<and> deps_done s r))"

lemma stable_order_ready: "stable (order_ready a)"
  unfolding stable_def order_ready_def
  by (metis find_step_le deps_done_mono)

lemma stable_all: "(\<And>x. stable (Q x)) \<Longrightarrow> stable (\<lambda>s. \<forall>x\<in>A. Q x s)"
  unfolding stable_def by blast

lemma list_all2_set2: "list_all2 P xs ys \<Longrightarrow> y \<in> set ys \<Longrightarrow> \<exists>x\<in>set xs. P x y"
  by (fastforce simp: list_all2_conv_all_nth in_set_conv_nth)

lemma ready_assignments_ready:
  assumes inv: "cs_inv s" and ready: "ready_assignments plan s = Inr as" and a: "a \<in> set as"
  shows "order_ready a s"
proof -
  obtain run where run: "find_run plan s = Some run" "run_state run = RunActive"
    using ready a by (auto simp: ready_assignments_def split: option.splits if_splits)
  have ok: "steps_ok s" using inv by (simp add: cs_inv_def)
  have dec: "rmap (\<lambda>r. decode_assignment (sr_assignment_json r)) (filter (row_ready plan s) (plan_rows plan s)) = Inr as"
    using ready run by (simp add: ready_assignments_def)
  have "\<exists>r\<in>set (filter (row_ready plan s) (plan_rows plan s)). decode_assignment (sr_assignment_json r) = Inr a"
    using dec a by (intro list_all2_set2) (simp_all add: res_simps)
  then obtain r where r: "r \<in> set (cs_steps s)" "sr_plan_id r = plan" "row_ready plan s r"
      "decode_assignment (sr_assignment_json r) = Inr a"
    by (auto simp: plan_rows_def)
  obtain a0 :: assignment where a0: "wf_assignment a0" "sr_assignment_json r = assignment_json a0" "sr_assignment_id r = assignment_id a0"
    using ok r(1) by (auto simp: steps_ok_def Coordinator_Store.row_ok_def)
  have "a = canon_assignment a0" using r(4) decode_assignment_json[OF a0(1)] a0(2) by simp
  then have "wf_json (step_inputs (asg_step a))" "assignment_id a = sr_assignment_id r"
    using a0 wf_canon by (simp_all add: wf_assignment_def canon_step_def)
  moreover have "deps_done s r" using r(2,3) by (simp add: deps_done_def row_ready_def list_all_iff)
  ultimately show ?thesis using find_step_unique[OF ok r(1)] by (auto simp: order_ready_def)
qed


text \<open>A plan, a goal as their constructors leave them.\<close>

definition wf_plan :: "plan \<Rightarrow> bool" where
  "wf_plan p = (post_init_plan p = Inr p \<and>
     list_all (\<lambda>s. post_init_plan_step s = Inr s \<and> wf_json (step_inputs s)) (plan_steps p))"

definition wf_goal :: "shared_goal \<Rightarrow> bool" where
  "wf_goal g = (post_init_shared_goal g = Inr g \<and> wf_json (goal_constraints g))"

text \<open>The planner returns a \<open>Plan\<close>, so its constructor has accepted it.\<close>

definition planner_ok :: "co_env \<Rightarrow> bool" where
  "planner_ok env = (\<forall>g ms ss p. ce_propose env g ms ss = Inr p \<longrightarrow> wf_plan p)"

lemma decode_goal_wf: "decode_goal t = Inr g \<Longrightarrow> wf_goal g"
proof -
  assume dec: "decode_goal t = Inr g"
  obtain v where v: "json_loads t = Some v" "decode_goal_value v = Inr g"
    using dec by (auto simp: decode_goal_def loads_res_def res_simps split: option.splits)
  have wf: "wf_json v" by (rule json_loads_wf[OF v(1)])
  obtain h where h: "post_init_shared_goal h = Inr g" "jget v ''constraints'' (JObj []) = Inr (goal_constraints h)"
    using v(2) by (auto simp: decode_goal_value_def res_simps)
  have "g = h" using h(1) by (auto simp: post_init_shared_goal_def res_simps)
  moreover have "wf_json (goal_constraints h)"
    using h(2) wf by (cases v) (auto simp: jget_def split: option.splits dest!: map_of_SomeD dest: sym)
  ultimately show ?thesis using h(1) by (simp add: wf_goal_def)
qed

lemma wf_payloads [simp]:
  "wf_goal g \<Longrightarrow> wf_json (shared_goal_payload g)" "wf_plan p \<Longrightarrow> wf_json (plan_payload p)"
  "wf_json (query_payload x)" "wf_json (cancellation_request_payload y)"
  by (simp_all add: wf_goal_def wf_plan_def shared_goal_payload_def plan_payload_def query_payload_def
      cancellation_request_payload_def list_all_iff)

lemma make_assignments_ok:
  assumes "make_assignments ids goal plan leases = Inr as" "wf_plan plan"
  shows "batch_ok plan as"
proof -
  let ?mk = "\<lambda>i step. \<lparr>assignment_id = ids i, asg_goal_id = goal_id goal, asg_plan_id = plan_id plan,
             asg_step = step, authority_lease_id = leases (assigned_robot_id step)\<rparr>"
  have id: "post_init_assignment a = Inr b \<Longrightarrow> b = a" for a b by (auto simp: post_init_assignment_def res_simps)
  have l: "list_all2 (\<lambda>x a. post_init_assignment (?mk (fst x) (snd x)) = Inr a) (zip [0..<length (plan_steps plan)] (plan_steps plan)) as"
    using assms(1) by (auto simp: make_assignments_def res_simps case_prod_unfold)
  have "wf_assignment a \<and> asg_plan_id a = plan_id plan" if mem: "a \<in> set as" for a
  proof -
    obtain x where "x \<in> set (zip [0..<length (plan_steps plan)] (plan_steps plan))"
        "post_init_assignment (?mk (fst x) (snd x)) = Inr a"
      using list_all2_set2[OF l mem] by (auto simp: case_prod_unfold)
    then obtain i step where z: "(i, step) \<in> set (zip [0..<length (plan_steps plan)] (plan_steps plan))"
        "post_init_assignment (?mk i step) = Inr a" by (metis prod.collapse)
    have "step \<in> set (plan_steps plan)" using z(1) by (rule set_zip_rightD)
    then show ?thesis using id[OF z(2)] z(2) assms(2) by (auto simp: wf_assignment_def wf_plan_def list_all_iff)
  qed
  moreover have "plan_steps plan \<noteq> []" using assms(2) by (auto simp: wf_plan_def post_init_plan_def res_simps)
  then have "as \<noteq> []" using list_all2_lengthD[OF l] by auto
  ultimately show ?thesis by (simp add: batch_ok_def list_all_iff)
qed

lemma prepare_ok:
  assumes "prepare env n goal now c = Inr (plan, as)" "planner_ok env"
  shows "batch_ok plan as \<and> wf_plan plan"
proof -
  have "wf_plan plan" "make_assignments (ce_assignment_id env n) goal plan (co_lease_ids c) = Inr as"
    using assms by (auto simp: prepare_def planner_ok_def res_simps)
  then show ?thesis using make_assignments_ok by blast
qed

section \<open>A bus that calls back\<close>

text \<open>The contract of the bus: while it delivers an envelope it changes the coordinator through computations that
  keep the invariant only. Under it every operation of the coordinator keeps the invariant.\<close>

locale calling_bus =
  fixes deliver :: "envelope \<Rightarrow> unit cm"
  assumes deliver_traced: "ctraced (\<lambda>_. True) (deliver e)"
begin

lemma publish_traced:
  assumes "ce_deliver env = deliver" "mtype \<noteq> ''assignment''" "wf_json body"
  shows "ctraced Q (cpublish env mtype body now corr)"
  unfolding ctraced_def
proof (intro allI impI)
  fix c q es r tr assume run: "cpublish env mtype body now corr c = (q, es, r)" and inv: "CInv c tr"
  from run assms(3) show "CInv q (tr @ orders es) \<and> cs_le (co_store c) (co_store q)"
  proof (cases rule: cpublish_cases)
    case 1
    then show ?thesis using inv by (simp add: CInv_def)
  next
    case (2 c1 e es')
    then show ?thesis
      using ctracedD[OF deliver_traced, of e c1 q es' r tr] inv assms(1,2) CInv_store[OF 2(1)] by (simp add: order_of_other)
  qed
qed

lemma dispatch_one_traced:
  assumes env: "ce_deliver env = deliver"
  shows "ctraced (order_ready a) (dispatch_one env now a)"
  unfolding ctraced_def
proof (intro allI impI)
  fix c q es r tr assume run: "dispatch_one env now a c = (q, es, r)" and inv: "CInv c tr" and Q: "order_ready a (co_store c)"
  obtain t marked where m: "mark_dispatched (assignment_id a) now (co_store c) = (t, Inr marked)"
    by (simp add: mark_dispatched_def Let_def)
  let ?c1 = "c\<lparr>co_store := t\<rparr>"
  have c1: "CInv ?c1 tr" "cs_le (co_store c) t"
    using store_okD[OF mark_dispatched_ok _ m] CInv_mono[OF inv, of ?c1] inv by (auto simp: CInv_def)
  show "CInv q (tr @ orders es) \<and> cs_le (co_store c) (co_store q)"
  proof (cases marked)
    case False
    then show ?thesis using run m c1 by (auto simp: dispatch_one_def pbind_def cstore_def pzoom_def pret_def)
  next
    case True
    obtain row where row: "find_step (assignment_id a) (co_store c) = Some row" "deps_done (co_store c) row"
      using Q by (auto simp: order_ready_def)
    have s: "\<not> sent_ok (co_store c) (assignment_id a)" "sent_ok t (assignment_id a)"
      using mark_dispatched_true[OF _ _ row] m True inv by (auto simp: CInv_def)
    have sent: "CInv ?c1 (tr @ [assignment_id a])" using c1 s inv by (auto simp: CInv_def)
    have "cpublish env ''assignment'' (assignment_payload a) now (asg_goal_id a) ?c1 = (q, es, r)"
      using run m True by (auto simp: dispatch_one_def pbind_def cstore_def pzoom_def split: prod.splits)
    moreover have "wf_json (assignment_payload a)" using Q by (simp add: order_ready_def)
    ultimately show ?thesis
    proof (cases rule: cpublish_cases)
      case 1
      then show ?thesis using c1 by (simp add: CInv_def)
    next
      case (2 c2 e es')
      then have "CInv q ((tr @ [assignment_id a]) @ orders es') \<and> cs_le (co_store c2) (co_store q)"
        using ctracedD[OF deliver_traced, of e c2 q es' r] sent env CInv_store[OF 2(1)] by blast
      then show ?thesis using 2 c1(2) cs_le_trans order_of_assignment by auto
    qed
  qed
qed

lemma dispatch_ready_traced:
  assumes "ce_deliver env = deliver"
  shows "ctraced Q (dispatch_ready env plan now)"
  unfolding dispatch_ready_def
proof (rule ctraced_cread[where R = "\<lambda>as s. \<forall>a\<in>set as. order_ready a s"])
  show "ctraced (\<lambda>s. \<forall>a\<in>set as. order_ready a s) (pforeach (dispatch_one env now) as)" for as
    by (rule ctraced_foreach, rule stable_all, rule stable_order_ready)
      (rule ctraced_weaken[OF dispatch_one_traced[OF assms]], blast)
qed (blast intro: ready_assignments_ready)

lemma dispatch_if_traced: "ce_deliver env = deliver \<Longrightarrow> ctraced Q (dispatch_if env plan now)"
  by (simp add: dispatch_if_def ctraced_basic dispatch_ready_traced split: option.split)

lemma assigned_message_traced: "ctraced Q (assigned_message what e)"
  unfolding ctraced_def assigned_message_def cread_def
  by (auto simp: pbind_def plift_def pgets_def pret_def split: sum.splits prod.splits option.splits)

lemmas handler_intros = ctraced_intros store_ok_ops assigned_message_traced dispatch_if_traced

lemma on_outcome_traced: "ce_deliver env = deliver \<Longrightarrow> ctraced (\<lambda>_. True) (co_on_outcome env e)"
  unfolding co_on_outcome_def by (intro handler_intros) simp_all

lemma on_acknowledgement_traced: "ctraced (\<lambda>_. True) (co_on_acknowledgement env e)"
  unfolding co_on_acknowledgement_def by (intro handler_intros) simp_all

lemma on_cancellation_ack_traced: "ctraced (\<lambda>_. True) (co_on_cancellation_ack env e)"
  unfolding co_on_cancellation_ack_def by (intro handler_intros)

lemma on_snapshot_traced: "ce_deliver env = deliver \<Longrightarrow> ctraced (\<lambda>_. True) (co_on_snapshot env e)"
  unfolding co_on_snapshot_def by (intro handler_intros) simp_all

lemma announce_run_traced:
  "ce_deliver env = deliver \<Longrightarrow> wf_goal goal \<Longrightarrow> wf_plan plan \<Longrightarrow> ctraced (\<lambda>_. True) (announce_run env goal plan now)"
  unfolding announce_run_def by (intro ctraced_bind publish_traced dispatch_ready_traced) simp_all

lemma start_run_traced:
  assumes "ce_deliver env = deliver" "wf_goal goal" "batch_ok plan as \<and> wf_plan plan"
  shows "ctraced (\<lambda>_. True) (pbind (cstore (create_run goal plan as now)) (\<lambda>_. pbind (announce_run env goal plan now) (\<lambda>_. pret plan)))"
  using assms by (intro ctraced_bind ctraced_cstore create_run_ok announce_run_traced ctraced_basic) simp_all

lemma submit_traced:
  assumes "ce_deliver env = deliver" "planner_ok env" "wf_goal goal"
  shows "ctraced (\<lambda>_. True) (submit env goal now)"
  unfolding submit_def
  by (rule ctraced_computed) (auto intro!: start_run_traced[OF assms(1,3)] dest: prepare_ok[OF _ assms(2)])

lemma submit_many_traced:
  assumes env: "ce_deliver env = deliver" "planner_ok env" and goals: "list_all wf_goal goals"
  shows "ctraced (\<lambda>_. True) (submit_many env goals now)"
proof -
  have *: "ctraced (\<lambda>_. True) (pbind (plift (require b e)) (\<lambda>_.
      pbind (pforeach (\<lambda>(goal, plan, as). cstore (create_run goal plan as now)) (zip goals prepared)) (\<lambda>_.
      pbind (pforeach (\<lambda>(goal, plan, as). announce_run env goal plan now) (zip goals prepared)) (\<lambda>_.
      pret (map fst prepared)))))"
    if "rmap (\<lambda>(n, goal). prepare env n goal now c) (zip [0..<length goals] goals) = Inr prepared" for c prepared b e
  proof -
    have p: "batch_ok plan as \<and> wf_plan plan \<and> wf_goal goal" if "(goal, plan, as) \<in> set (zip goals prepared)" for goal plan as
    proof -
      have "(plan, as) \<in> set prepared" "goal \<in> set goals" using that set_zip_rightD set_zip_leftD by metis+
      moreover obtain x where "prepare env (fst x) (snd x) now c = Inr (plan, as)"
        using list_all2_set2[OF _ calculation(1)] \<open>rmap _ _ = Inr prepared\<close> by (fastforce simp: res_simps case_prod_unfold)
      ultimately show ?thesis using prepare_ok[OF _ env(2)] goals by (auto simp: list_all_iff)
    qed
    then show ?thesis
      by (intro ctraced_bind ctraced_foreach ctraced_basic)
        (auto intro!: ctraced_cstore create_run_ok announce_run_traced[OF env(1)])
  qed
  show ?thesis
    unfolding submit_many_def by (intro ctraced_bind ctraced_basic ctraced_computed *)
qed

lemma replan_traced:
  assumes "ce_deliver env = deliver" "planner_ok env"
  shows "ctraced (\<lambda>_. True) (replan env previous now)"
proof -
  have goal: "ctraced (\<lambda>_. True) (pbind (cread (cs_goal previous)) g)" if "\<And>x. wf_goal x \<Longrightarrow> ctraced (\<lambda>_. True) (g x)" for g :: "shared_goal \<Rightarrow> plan cm"
    by (rule ctraced_cread[where R = "\<lambda>x _. wf_goal x"])
      (auto simp: cs_goal_def dest: decode_goal_wf split: option.splits intro: ctraced_pure that)
  show ?thesis
    unfolding replan_def co_snapshot_def
    by (intro ctraced_bind ctraced_if ctraced_basic ctraced_cread_only goal ctraced_computed)
      (auto intro!: ctraced_bind ctraced_basic start_run_traced[OF assms(1)] dest: prepare_ok[OF _ assms(2)])
qed

lemma resume_active_traced: "ce_deliver env = deliver \<Longrightarrow> ctraced (\<lambda>_. True) (resume_active env now)"
  unfolding resume_active_def by (intro ctraced_bind ctraced_basic ctraced_foreach dispatch_ready_traced) simp_all

lemma reconcile_traced: "ce_deliver env = deliver \<Longrightarrow> ctraced (\<lambda>_. True) (co_reconcile env plan now)"
  unfolding co_reconcile_def
  by (intro ctraced_bind ctraced_basic ctraced_foreach ctraced_cread_only publish_traced) simp_all

lemma cancel_traced: "ce_deliver env = deliver \<Longrightarrow> ctraced (\<lambda>_. True) (cancel env plan reason now)"
  unfolding cancel_def
  by (intro ctraced_bind ctraced_basic ctraced_foreach ctraced_cstore request_cancellation_ok publish_traced) simp_all

end

section \<open>Buses\<close>

text \<open>The subscriptions of the constructor.\<close>

definition co_handle :: "co_env \<Rightarrow> envelope \<Rightarrow> unit cm" where
  "co_handle env e =
     (if message_type e = ''assignment_ack'' then co_on_acknowledgement env e
      else if message_type e = ''outcome'' then co_on_outcome env e
      else if message_type e = ''assignment_snapshot'' then co_on_snapshot env e
      else if message_type e = ''cancellation_ack'' then co_on_cancellation_ack env e
      else pret ())"

lemma co_handle_traced: "calling_bus deliver \<Longrightarrow> ce_deliver env = deliver \<Longrightarrow> ctraced (\<lambda>_. True) (co_handle env e)"
  unfolding co_handle_def
  by (intro ctraced_if ctraced_basic calling_bus.on_outcome_traced calling_bus.on_acknowledgement_traced
      calling_bus.on_snapshot_traced calling_bus.on_cancellation_ack_traced) assumption+

text \<open>The bus of a network node: publishing only queues.\<close>

definition queue_deliver :: "envelope \<Rightarrow> unit cm" where
  "queue_deliver e = pret ()"

text \<open>The in-memory bus: \<open>react e\<close> are the messages the other members publish while they handle \<open>e\<close>; each goes to
  the coordinator at once, and what it publishes then is delivered the same way, one level deeper. The interpreter
  limits that depth.\<close>

fun call_deliver :: "nat \<Rightarrow> co_env \<Rightarrow> (envelope \<Rightarrow> envelope list) \<Rightarrow> envelope \<Rightarrow> unit cm" where
  "call_deliver 0 env react e = plift (Inl (RuntimeError ''maximum recursion depth exceeded''))"
| "call_deliver (Suc n) env react e =
     pforeach (co_handle (env\<lparr>ce_deliver := call_deliver n env react\<rparr>)) (react e)"

lemma call_deliver_traced: "ctraced (\<lambda>_. True) (call_deliver n env react e)"
proof (induction n arbitrary: e)
  case (Suc n)
  have "calling_bus (call_deliver n env react)" by (rule calling_bus.intro) (rule Suc.IH)
  then show ?case by (auto intro!: ctraced_foreach co_handle_traced)
qed (simp add: ctraced_basic)

interpretation queued: calling_bus queue_deliver
  by unfold_locales (simp add: queue_deliver_def ctraced_def pret_def)

interpretation nested: calling_bus "call_deliver n env react" for n env react
  by unfold_locales (rule call_deliver_traced)

section \<open>Histories\<close>

datatype bus_kind = Queued | Nested nat "envelope \<Rightarrow> envelope list"

definition with_bus :: "bus_kind \<Rightarrow> co_env \<Rightarrow> co_env" where
  "with_bus k env = env\<lparr>ce_deliver := (case k of Queued \<Rightarrow> queue_deliver | Nested n react \<Rightarrow> call_deliver n env react)\<rparr>"

text \<open>What happens to a coordinator: a message arrives, a client calls a method, the registry learns something, the
  process is restarted on the same journal.\<close>

datatype co_call =
    CoMessage envelope
  | CoSubmit shared_goal int
  | CoSubmitMany "shared_goal list" int
  | CoReplan string int
  | CoResume int
  | CoReconcile string int
  | CoCancel string string int
  | CoRegistry registry
  | CoRestart string

definition co_restart :: "string \<Rightarrow> unit cm" where
  "co_restart session c =
     (case coordinator_init (co_id c) session (cs_open True (co_store c)) (co_registry c) (co_lease_ids c)
             (co_require_authority c) of
        Inl e \<Rightarrow> (c\<lparr>co_store := cs_open True (co_store c)\<rparr>, [], Inl e)
      | Inr d \<Rightarrow> (d, [], Inr ()))"

fun co_do :: "co_env \<Rightarrow> co_call \<Rightarrow> unit cm" where
  "co_do env (CoMessage e) = co_handle env e"
| "co_do env (CoSubmit g now) = pbind (submit env g now) (\<lambda>_. pret ())"
| "co_do env (CoSubmitMany gs now) = pbind (submit_many env gs now) (\<lambda>_. pret ())"
| "co_do env (CoReplan p now) = pbind (replan env p now) (\<lambda>_. pret ())"
| "co_do env (CoResume now) = pbind (resume_active env now) (\<lambda>_. pret ())"
| "co_do env (CoReconcile p now) = pbind (co_reconcile env p now) (\<lambda>_. pret ())"
| "co_do env (CoCancel p reason now) = pbind (cancel env p reason now) (\<lambda>_. pret ())"
| "co_do env (CoRegistry reg) = pmodify (\<lambda>c. c\<lparr>co_registry := reg\<rparr>)"
| "co_do env (CoRestart session) = co_restart session"

text \<open>The state after a history and all envelopes published in it; an exception ends one call, not the history.\<close>

fun co_run :: "bus_kind \<Rightarrow> (co_env \<times> co_call) list \<Rightarrow> coordinator \<Rightarrow> coordinator \<times> envelope list" where
  "co_run k [] c = (c, [])"
| "co_run k ((env, x) # xs) c =
     (case co_do (with_bus k env) x c of (c1, es, r) \<Rightarrow> case co_run k xs c1 of (c2, es2) \<Rightarrow> (c2, es @ es2))"

text \<open>The arguments are objects their constructors accepted.\<close>

fun co_call_ok :: "co_env \<times> co_call \<Rightarrow> bool" where
  "co_call_ok (env, CoSubmit g now) = (planner_ok env \<and> wf_goal g)"
| "co_call_ok (env, CoSubmitMany gs now) = (planner_ok env \<and> list_all wf_goal gs)"
| "co_call_ok (env, CoReplan p now) = planner_ok env"
| "co_call_ok (env, x) = True"

lemma with_bus_calling: "calling_bus (ce_deliver (with_bus k env))"
  by (cases k) (simp_all add: with_bus_def queued.calling_bus_axioms nested.calling_bus_axioms)

lemma planner_ok_with_bus [simp]: "planner_ok (with_bus k env) = planner_ok env"
  by (simp add: planner_ok_def with_bus_def)

lemma co_restart_traced: "ctraced (\<lambda>_. True) (co_restart session)"
  unfolding ctraced_def
proof (intro allI impI)
  fix c q es r tr assume run: "co_restart session c = (q, es, r)" and inv: "CInv c tr"
  have o: "cs_inv (cs_open True (co_store c))" "cs_le (co_store c) (cs_open True (co_store c))"
    using cs_open_ok inv by (auto simp: CInv_def)
  obtain t u where t: "bind_coordinator (co_id c) (cs_open True (co_store c)) = (t, u)" by fastforce
  have "cs_inv t \<and> cs_le (cs_open True (co_store c)) t" using store_okD[OF bind_coordinator_ok o(1) t] .
  then have "cs_inv t \<and> cs_le (co_store c) t" using o(2) cs_le_trans by blast
  moreover have "(co_store q = t \<or> co_store q = cs_open True (co_store c)) \<and> es = []"
    using run t by (auto simp: co_restart_def coordinator_init_def split: sum.splits prod.splits)
  ultimately show "CInv q (tr @ orders es) \<and> cs_le (co_store c) (co_store q)" using o CInv_mono[OF inv] by auto
qed

lemma co_do_traced:
  assumes "co_call_ok (env, x)"
  shows "ctraced (\<lambda>_. True) (co_do (with_bus k env) x)"
proof -
  note bus = with_bus_calling[of k env]
  show ?thesis
    using assms
    by (cases x) (auto intro!: ctraced_bind ctraced_basic ctraced_modify co_restart_traced co_handle_traced[OF bus]
        calling_bus.submit_traced[OF bus] calling_bus.submit_many_traced[OF bus] calling_bus.replan_traced[OF bus]
        calling_bus.resume_active_traced[OF bus] calling_bus.reconcile_traced[OF bus] calling_bus.cancel_traced[OF bus])
qed

lemma co_run_traced:
  "list_all co_call_ok xs \<Longrightarrow> CInv c tr \<Longrightarrow> co_run k xs c = (d, es) \<Longrightarrow>
     CInv d (tr @ orders es) \<and> cs_le (co_store c) (co_store d)"
proof (induction xs arbitrary: c tr es)
  case (Cons p xs)
  obtain env x where p: "p = (env, x)" by (cases p)
  obtain c1 es1 r where 1: "co_do (with_bus k env) x c = (c1, es1, r)" by (metis prod_cases3)
  obtain es2 where 2: "co_run k xs c1 = (d, es2)" "es = es1 @ es2" using Cons.prems(3) 1 p by (auto split: prod.splits)
  have a: "CInv c1 (tr @ orders es1) \<and> cs_le (co_store c) (co_store c1)"
    using ctracedD[OF co_do_traced 1 Cons.prems(2)] Cons.prems(1) p by simp
  moreover have "CInv d ((tr @ orders es1) @ orders es2) \<and> cs_le (co_store c1) (co_store d)"
    using Cons.IH[OF _ conjunct1[OF a] 2(1)] Cons.prems(1) by simp
  ultimately show ?case using 2(2) cs_le_trans by auto
qed simp

text \<open>C17: A coordinator orders each assignment at most once, and only when it may. From any journal earlier processes
  left, whatever messages arrive, whatever its methods are called with, however often the process restarts, and
  even when the bus calls back into the coordinator while it publishes: no assignment id occurs in two published
  assignment messages, and for each one published the journal has its step, no longer pending, with every step it
  depends on succeeded.\<close>

theorem assignments_ordered_once_after_dependencies:
  assumes "list_all store_step_ok ss" and "coordinator_init cid session (store_run ss cs_empty) reg leases auth = Inr c"
    and "list_all co_call_ok xs" and "co_run k xs c = (d, es)"
  shows "distinct (orders es) \<and>
    (\<forall>aid\<in>set (orders es). \<exists>r. find_step aid (co_store d) = Some r \<and> sr_status r \<noteq> StPending \<and>
       (\<forall>dep\<in>set (sr_dependencies r). step_statuses (sr_plan_id r) (co_store d) dep = Some StSucceeded))"
proof -
  obtain s u where s: "bind_coordinator cid (store_run ss cs_empty) = (s, u)" by fastforce
  have "cs_inv (store_run ss cs_empty)" using store_run_ok[OF assms(1) cs_inv_empty] by blast
  moreover have "co_store c = s" using assms(2) s by (auto simp: coordinator_init_def split: sum.splits)
  ultimately have "CInv c []" using store_okD[OF bind_coordinator_ok _ s] by (simp add: CInv_def)
  then have "CInv d (orders es)" using co_run_traced[OF assms(3) _ assms(4)] by fastforce
  then show ?thesis by (auto simp: CInv_def sent_ok_def deps_done_def)
qed

definition sample_env :: co_env where
  "sample_env = \<lparr>ce_deliver = queue_deliver, ce_message_id = (\<lambda>n. ''m''), ce_assignment_id = (\<lambda>n i. ''b''),
     ce_propose = (\<lambda>g m s. Inr ((ring_plan [ring_step ''a'' []])\<lparr>plan_id := ''p2'', plan_revision := 2, supersedes_plan_id := Some ''p1''\<rparr>)),
     ce_sha = (\<lambda>t. ''h'')\<rparr>"

definition ring_assignment :: assignment where
  "ring_assignment = \<lparr>assignment_id = ''a1'', asg_goal_id = ''g1'', asg_plan_id = ''p1'', asg_step = ring_step ''a'' [],
     authority_lease_id = None\<rparr>"

definition sample_coordinator :: "coordinator_store \<Rightarrow> coordinator" where
  "sample_coordinator s = \<lparr>co_id = ''c'', co_session_id = ''s'', co_sequence = 0, co_store = s\<lparr>cs_coordinator_id := Some ''c''\<rparr>,
     co_registry = Map.empty, co_lease_ids = Map.empty, co_require_authority = False, co_outcomes = Map.empty,
     co_acknowledgements = Map.empty\<rparr>"

theorem assignments_ordered_once_after_dependencies_witness:
  "\<exists>d es. co_run Queued [(sample_env, CoResume 2)]
       (sample_coordinator (store_run [CreateRun ring_goal (ring_plan [ring_step ''a'' []]) [ring_assignment] 1] cs_empty)) = (d, es) \<and>
     orders es = [''a1''] \<and> distinct (orders es)"
proof -
  let ?ss = "[CreateRun ring_goal (ring_plan [ring_step ''a'' []]) [ring_assignment] 1]" and ?xs = "[(sample_env, CoResume 2)]"
  let ?c = "sample_coordinator (store_run ?ss cs_empty)"
  have 1: "list_all store_step_ok ?ss" by code_simp
  have "cs_coordinator_id (store_run ?ss cs_empty) = None" by code_simp
  then have 2: "coordinator_init ''c'' ''s'' (store_run ?ss cs_empty) Map.empty Map.empty False = Inr ?c"
    by (simp add: coordinator_init_def bind_coordinator_def sample_coordinator_def)
  have 3: "list_all co_call_ok ?xs" by simp
  obtain d es where 4: "co_run Queued ?xs ?c = (d, es)" by fastforce
  have "orders (snd (co_run Queued ?xs ?c)) = [''a1'']" by code_simp
  then show ?thesis using assignments_ordered_once_after_dependencies[OF 1 2 3 4] 4 by simp
qed

section \<open>Who may report\<close>

definition report_types :: "string list" where
  "report_types = [''assignment_ack'', ''outcome'', ''assignment_snapshot'', ''cancellation_ack'']"

lemma assigned_message_wrong:
  assumes "jitem (env_payload e) ''assignment_id'' = Inr (JStr aid)"
    and "robot_for_assignment aid (co_store c) = Inr (Some robot)" "source_id e \<noteq> robot"
  shows "\<exists>err. assigned_message what e c = (c, [], Inl err)"
  using assms
  by (auto simp: assigned_message_def sql_key_def pbind_def plift_def pgets_def pret_def cread_def require_def
      split: sum.splits)

text \<open>C18: Only the robot a step was given to reports on it. An acknowledgement, outcome, snapshot or cancellation answer about
  an assignment of the journal that comes from any other source raises, and neither journal nor coordinator change
  and nothing is published.\<close>

theorem report_from_other_robot_rejected:
  assumes "message_type e \<in> set report_types"
    and "jitem (env_payload e) ''assignment_id'' = Inr (JStr aid)"
    and "robot_for_assignment aid (co_store c) = Inr (Some robot)" and "source_id e \<noteq> robot"
  shows "\<exists>err. co_handle env e c = (c, [], Inl err)"
proof -
  have *: "\<exists>err. pbind (assigned_message what e) g c = (c, [], Inl err)" for what and g :: "string option \<Rightarrow> unit cm"
    using assigned_message_wrong[OF assms(2-4), of what] by (auto simp: pbind_def)
  show ?thesis
    using assms(1) unfolding co_handle_def report_types_def co_on_acknowledgement_def co_on_outcome_def co_on_snapshot_def
      co_on_cancellation_ack_def by (auto intro: *)
qed

definition sample_report :: envelope where
  "sample_report = make_envelope ''m1'' ''outcome'' ''r2'' ''s1'' 1 1000
     (JObj [(''assignment_id'', JStr ''a1''), (''robot_id'', JStr ''r2''), (''succeeded'', JBool True)]) None OPERATIONAL_STREAM"

theorem report_from_other_robot_rejected_witness:
  "\<exists>err. co_handle sample_env sample_report
     (sample_coordinator (store_run [CreateRun ring_goal (ring_plan [ring_step ''a'' []]) [ring_assignment] 1] cs_empty)) =
     (sample_coordinator (store_run [CreateRun ring_goal (ring_plan [ring_step ''a'' []]) [ring_assignment] 1] cs_empty), [], Inl err)"
proof (rule report_from_other_robot_rejected)
  show "message_type sample_report \<in> set report_types"
    "jitem (env_payload sample_report) ''assignment_id'' = Inr (JStr ''a1'')" "source_id sample_report \<noteq> ''r1''"
    by (simp_all add: sample_report_def make_envelope_def report_types_def)
  show "robot_for_assignment ''a1'' (co_store (sample_coordinator (store_run [CreateRun ring_goal (ring_plan [ring_step ''a'' []])
      [ring_assignment] 1] cs_empty))) = Inr (Some ''r1'')" by code_simp
qed

section \<open>Replanning\<close>

text \<open>C19: What replanning accepts. As soon as \<open>replan\<close> changes the journal, publishes anything or returns, even if it
  raises later, the journal held the previous plan, its run was not active, and the plan the planner proposed
  for the stored goal is valid, has another id, the next revision and names exactly that plan as its predecessor.\<close>

theorem replan_links_revisions:
  assumes "replan env previous now c = (q, es, r)" and "co_store q \<noteq> co_store c \<or> es \<noteq> [] \<or> r = Inr plan"
  shows "\<exists>run old goal new. find_run previous (co_store c) = Some run \<and> run_state run \<noteq> RunActive \<and>
    decode_plan (run_plan_json run) = Inr old \<and> decode_goal (run_goal_json run) = Inr goal \<and>
    ce_propose env goal (known_manifests goal (co_registry c)) (known_states goal (co_registry c)) = Inr new \<and>
    validate_plan goal new (co_registry c) now = Inr () \<and> plan_id new \<noteq> plan_id old \<and>
    plan_revision new = plan_revision old + 1 \<and> supersedes_plan_id new = Some (plan_id old)"
proof (rule ccontr)
  assume no: "\<not> ?thesis"
  have "q = c \<and> es = [] \<and> (\<forall>plan. r \<noteq> Inr plan)"
    using assms(1) no
    by (auto simp: replan_def co_snapshot_def cread_def pbind_def plift_def pgets_def cs_snapshot_def cs_plan_def cs_goal_def
        require_def pret_def prepare_def res_simps split: sum.splits option.splits if_splits)
  then show False using assms(2) by auto
qed

text \<open>A journal whose only run has been cancelled, a planner with a second revision, and a bus that raises.\<close>

definition cancelled_store :: coordinator_store where
  "cancelled_store = \<lparr>
     cs_runs = [\<lparr>run_plan_id = ''p1'', run_goal_id = ''g1'', run_goal_json = json_dumps (shared_goal_payload ring_goal),
       run_plan_json = json_dumps (plan_payload (ring_plan [ring_step ''a'' []])), run_state = RunCancelled,
       run_created_at_ms = 1, run_updated_at_ms = 2\<rparr>],
     cs_steps = [\<lparr>sr_assignment_id = ''a1'', sr_plan_id = ''p1'', sr_step_id = ''a'', sr_assignment_json = assignment_json ring_assignment,
       sr_dependencies = [], sr_status = StCancelled, sr_updated_at_ms = 2\<rparr>],
     cs_coordinator_id = Some ''c''\<rparr>"

definition second_revision :: plan where
  "second_revision = (ring_plan [ring_step ''a'' []])\<lparr>plan_id := ''p2'', plan_revision := 2, supersedes_plan_id := Some ''p1''\<rparr>"

definition failing_bus :: co_env where
  "failing_bus = sample_env\<lparr>ce_deliver := call_deliver 0 sample_env (\<lambda>_. []), ce_propose := (\<lambda>g m s. Inr second_revision)\<rparr>"

definition cancelled_run :: coordinator where
  "cancelled_run = (sample_coordinator cancelled_store)\<lparr>co_registry := sample_registry\<rparr>"

lemma failing_bus_publish:
  assumes "wf_json body"
  shows "\<exists>q es err. cpublish failing_bus mtype body now corr c = (q, es, Inl err) \<and> co_store q = co_store c"
proof -
  obtain q es r where run: "cpublish failing_bus mtype body now corr c = (q, es, r)" by (metis prod_cases3)
  from run assms show ?thesis
  proof (cases rule: cpublish_cases)
    case (2 c1 e es')
    then show ?thesis using run by (auto simp: failing_bus_def plift_def)
  qed (use run in auto)
qed

lemma cancelled_run_reads:
  "find_run ''p1'' cancelled_store = Some (hd (cs_runs cancelled_store))"
  "cs_goal ''p1'' cancelled_store = Inr ring_goal" "cs_plan ''p1'' cancelled_store = Inr (ring_plan [ring_step ''a'' []])"
proof -
  show run: "find_run ''p1'' cancelled_store = Some (hd (cs_runs cancelled_store))" by (simp add: find_run_def cancelled_store_def)
  have "post_init_shared_goal ring_goal = Inr ring_goal" "wf_json (goal_constraints ring_goal)" "canon_goal ring_goal = ring_goal" by code_simp+
  then show "cs_goal ''p1'' cancelled_store = Inr ring_goal"
    using decode_goal_text[of ring_goal] run by (simp add: cs_goal_def cancelled_store_def)
  let ?p = "ring_plan [ring_step ''a'' []]"
  have "post_init_plan ?p = Inr ?p" "post_init_plan_step (ring_step ''a'' []) = Inr (ring_step ''a'' [])"
    "wf_json (step_inputs (ring_step ''a'' []))" "canon_plan ?p = ?p" by code_simp+
  then show "cs_plan ''p1'' cancelled_store = Inr ?p"
    using decode_plan_text[of ?p] run by (simp add: cs_plan_def cancelled_store_def ring_plan_def)
qed

lemma cancelled_run_prepare:
  "prepare failing_bus 0 ring_goal 1100 cancelled_run =
     Inr (second_revision, [ring_assignment\<lparr>assignment_id := ''b'', asg_plan_id := ''p2''\<rparr>])"
proof -
  have "validate_core_message_size ''goal'' (shared_goal_payload ring_goal) = Inr ()" by code_simp
  moreover have "validate_plan ring_goal second_revision sample_registry 1100 = Inr ()" by code_simp
  moreover have "make_assignments (\<lambda>i. ''b'') ring_goal second_revision Map.empty =
      Inr [ring_assignment\<lparr>assignment_id := ''b'', asg_plan_id := ''p2''\<rparr>]" by code_simp
  ultimately show ?thesis
    by (simp add: prepare_def failing_bus_def sample_env_def cancelled_run_def sample_coordinator_def require_def)
qed

theorem replan_links_revisions_witness:
  "\<exists>q es r. replan failing_bus ''p1'' 1100 cancelled_run = (q, es, r) \<and> co_store q \<noteq> co_store cancelled_run \<and>
     (\<exists>run. find_run ''p1'' (co_store cancelled_run) = Some run \<and> run_state run \<noteq> RunActive)"
proof -
  obtain q es r where run: "replan failing_bus ''p1'' 1100 cancelled_run = (q, es, r)" by (metis prod_cases3)
  have store: "co_store cancelled_run = cancelled_store"
    by (simp add: cancelled_run_def sample_coordinator_def cancelled_store_def)
  let ?as = "[ring_assignment\<lparr>assignment_id := ''b'', asg_plan_id := ''p2''\<rparr>]"
  obtain t where t: "create_run ring_goal second_revision ?as 1100 cancelled_store = (t, Inr ())" "cs_runs t \<noteq> cs_runs cancelled_store"
    by (simp add: create_run_def find_run_def cancelled_store_def second_revision_def ring_plan_def ring_assignment_def ring_step_def
        sample_step_def Let_def)
  have wf: "wf_json (shared_goal_payload ring_goal)" by code_simp
  obtain q1 es1 err where p: "cpublish failing_bus ''goal'' (shared_goal_payload ring_goal) 1100 (goal_id ring_goal)
      (cancelled_run\<lparr>co_store := t\<rparr>) = (q1, es1, Inl err)" "co_store q1 = t"
    using failing_bus_publish[OF wf, of "''goal''" 1100 "goal_id ring_goal" "cancelled_run\<lparr>co_store := t\<rparr>"] by auto
  have "snap_status sn = RunCancelled" if "cs_snapshot ''p1'' cancelled_store = Inr sn" for sn
    using that cancelled_run_reads(1) by (auto simp: cs_snapshot_def cancelled_store_def)
  moreover obtain sn where sn: "cs_snapshot ''p1'' cancelled_store = Inr sn" using cancelled_run_reads(1) by (simp add: cs_snapshot_def)
  ultimately have "replan failing_bus ''p1'' 1100 cancelled_run = (q1, es1, Inl err)"
    using t(1) p(1)
    by (simp add: replan_def co_snapshot_def cread_def pbind_def plift_def pgets_def store cancelled_run_reads cancelled_run_prepare
        cstore_def pzoom_def announce_run_def require_def) (simp add: second_revision_def ring_plan_def)
  then have "co_store q \<noteq> co_store cancelled_run" using run p(2) t(2) store by auto
  then show ?thesis using replan_links_revisions[OF run] run by blast
qed

end
