(* ===== verification/Outbox.thy ===== *)
theory Outbox
  imports Transport
begin

text \<open>
  \<open>delivery.py\<close>, class \<open>SqliteOutbox\<close>: the durable queue of messages to peers. The table \<open>outbound_messages\<close> is
  the list of its rows in \<open>queue_order\<close>; a method is one transaction, from the outbox to the new outbox and the
  result. SQLite stores integers of 64 bits; a larger one raises while it is bound (\<open>sql_int\<close>), and the table stays.
  \<open>ready\<close> sorts by priority, creation time and peer; among equal rows SQL promises no order, the model keeps
  that of the queue.
\<close>

section \<open>Rows\<close>

datatype delivery_status = DsPending | DsDelivered

record outbox_row =
  or_order :: nat
  or_peer_id :: string
  or_message_id :: string
  or_session_id :: string
  or_stream :: string
  or_sequence :: int
  or_priority :: int
  or_envelope :: string
  or_status :: delivery_status
  or_attempts :: int
  or_next_attempt_ms :: int
  or_last_error :: "string option"
  or_created_at_ms :: int
  or_updated_at_ms :: int

record outbox =
  ob_maximum :: int
  ob_reserve :: int
  ob_rows :: "outbox_row list"
  ob_next :: nat
  ob_unique_ids :: bool

record pending_delivery =
  pd_peer_id :: string
  pd_envelope :: envelope
  pd_attempts :: int
  pd_next_attempt_ms :: int

record delivery_metrics =
  dm_pending :: nat
  dm_delivered :: nat
  dm_failed_attempts :: int

text \<open>\<open>text[:n]\<close> on UTF-8 bytes: the first \<open>n\<close> characters.\<close>

fun take_chars :: "nat \<Rightarrow> string \<Rightarrow> string" where
  "take_chars n [] = []"
| "take_chars n (c # cs) =
     (if cont_byte (of_char c) then c # take_chars n cs
      else (case n of 0 \<Rightarrow> [] | Suc m \<Rightarrow> c # take_chars m cs))"

definition sql_int :: "int \<Rightarrow> unit res" where
  "sql_int n = require (- (2 ^ 63) \<le> n \<and> n < 2 ^ 63) (RuntimeError ''OverflowError'')"

section \<open>Opening\<close>

text \<open>The constructor on an existing table; \<open>safety_reserve\<close> defaults to a tenth, at most 64.\<close>

definition outbox_open :: "int \<Rightarrow> int option \<Rightarrow> outbox_row list \<Rightarrow> nat \<Rightarrow> bool \<Rightarrow> outbox res" where
  "outbox_open maximum reserve rows nx unique_ids =
     rbind (require (\<not> maximum < 1) (ValueError ''maximum_pending must be positive'')) (\<lambda>_.
     let r = (case reserve of None \<Rightarrow> min 64 (maximum div 10) | Some r \<Rightarrow> r) in
     rbind (require (0 \<le> r \<and> r < maximum) (ValueError ''safety_reserve must be smaller than maximum_pending'')) (\<lambda>_.
     Inr \<lparr>ob_maximum = maximum, ob_reserve = r, ob_rows = rows, ob_next = nx, ob_unique_ids = unique_ids\<rparr>))"

text \<open>Rows that may not stand in the table together; a migrated table also has \<open>message_id UNIQUE\<close>.\<close>

definition out_clash :: "bool \<Rightarrow> outbox_row \<Rightarrow> outbox_row \<Rightarrow> bool" where
  "out_clash unique_ids r q =
     ((or_peer_id r = or_peer_id q \<and> or_message_id r = or_message_id q) \<or>
      (or_peer_id r = or_peer_id q \<and> or_session_id r = or_session_id q \<and> or_stream r = or_stream q \<and>
       or_sequence r = or_sequence q) \<or>
      (unique_ids \<and> or_message_id r = or_message_id q))"

text \<open>The migration of a table without streams: every row becomes operational, with priority 0.\<close>

fun migrate_rows :: "outbox_row list \<Rightarrow> outbox_row list \<Rightarrow> outbox_row list res" where
  "migrate_rows [] done = Inr done"
| "migrate_rows (r # rs) done =
     (let r' = r\<lparr>or_stream := OPERATIONAL_STREAM, or_priority := 0\<rparr> in
      if \<exists>q\<in>set done. out_clash True q r' then Inl (IntegrityError ''UNIQUE constraint failed'')
      else migrate_rows rs (done @ [r']))"

definition migrate_outbox_streams :: "int \<Rightarrow> int option \<Rightarrow> outbox_row list \<Rightarrow> nat \<Rightarrow> outbox res" where
  "migrate_outbox_streams maximum reserve legacy nx =
     rbind (migrate_rows legacy []) (\<lambda>rows. outbox_open maximum reserve rows nx True)"

section \<open>Operations\<close>

definition pending_rows :: "outbox_row list \<Rightarrow> outbox_row list" where
  "pending_rows rows = filter (\<lambda>r. or_status r = DsPending) rows"

definition find_out :: "string \<Rightarrow> string \<Rightarrow> outbox_row list \<Rightarrow> outbox_row option" where
  "find_out peer mid rows = find (\<lambda>r. or_peer_id r = peer \<and> or_message_id r = mid) rows"

type_synonym encoded = "string \<times> envelope \<times> string"

definition item_key :: "encoded \<Rightarrow> string \<times> string" where
  "item_key x = (fst x, message_id (fst (snd x)))"

text \<open>The loop that collects what is new; \<open>seen\<close> holds the bodies met in this call.\<close>

fun new_items :: "outbox_row list \<Rightarrow> (string \<times> string \<Rightarrow> string option) \<Rightarrow> encoded list \<Rightarrow> encoded list \<Rightarrow> encoded list res" where
  "new_items rows seen new [] = Inr new"
| "new_items rows seen new (x # xs) =
     (let key = item_key x; body = snd (snd x) in
      if seen key \<noteq> None \<and> seen key \<noteq> Some body
      then Inl (ValueError ''outbox message ID is bound to different content'')
      else (let seen' = seen(key \<mapsto> body) in
        case find_out (fst key) (snd key) rows of
          Some r \<Rightarrow>
            if or_envelope r \<noteq> body then Inl (ValueError ''outbox message ID is bound to different content'')
            else new_items rows seen' new xs
        | None \<Rightarrow>
            if key \<in> item_key ` set new then new_items rows seen' new xs
            else new_items rows seen' (new @ [x]) xs))"

definition out_row :: "nat \<Rightarrow> int \<Rightarrow> encoded \<Rightarrow> outbox_row" where
  "out_row order now x = (case x of (peer, e, body) \<Rightarrow>
     \<lparr>or_order = order, or_peer_id = peer, or_message_id = message_id e, or_session_id = session_id e,
      or_stream = env_stream e, or_sequence = env_sequence e,
      or_priority = (if env_stream e = SAFETY_STREAM then 1 else 0), or_envelope = body, or_status = DsPending,
      or_attempts = 0, or_next_attempt_ms = now, or_last_error = None, or_created_at_ms = now, or_updated_at_ms = now\<rparr>)"

fun insert_items :: "bool \<Rightarrow> int \<Rightarrow> encoded list \<Rightarrow> nat \<times> outbox_row list \<Rightarrow> (nat \<times> outbox_row list) res" where
  "insert_items unique_ids now [] t = Inr t"
| "insert_items unique_ids now (x # xs) t =
     rbind (sql_int (env_sequence (fst (snd x)))) (\<lambda>_.
     rbind (sql_int now) (\<lambda>_.
     let r = out_row (fst t) now x in
     if \<exists>q\<in>set (snd t). out_clash unique_ids q r then Inl (IntegrityError ''UNIQUE constraint failed'')
     else insert_items unique_ids now xs (Suc (fst t), snd t @ [r])))"

definition is_operational :: "encoded \<Rightarrow> bool" where
  "is_operational x = (env_stream (fst (snd x)) = OPERATIONAL_STREAM)"

definition operational_rows :: "outbox_row list \<Rightarrow> outbox_row list" where
  "operational_rows rows = filter (\<lambda>r. or_stream r = OPERATIONAL_STREAM) rows"

definition encode_item :: "string \<times> envelope \<Rightarrow> encoded res" where
  "encode_item d = rbind (encode_envelope (snd d)) (\<lambda>body. Inr (fst d, snd d, body))"

definition enqueue_many :: "(string \<times> envelope) list \<Rightarrow> int \<Rightarrow> outbox \<Rightarrow> outbox \<times> unit res" where
  "enqueue_many deliveries now b =
     (if deliveries = [] then (b, Inr ())
      else (case rmap encode_item deliveries of
        Inl err \<Rightarrow> (b, Inl err)
      | Inr encoded \<Rightarrow>
          (let pending = pending_rows (ob_rows b) in
           case rbind (new_items (ob_rows b) Map.empty [] encoded) (\<lambda>new.
                rbind (require (\<not> int (length pending + length new) > ob_maximum b)
                         (OutboxFullError ''durable outbound queue is full'')) (\<lambda>_.
                rbind (require (\<not> int (length (operational_rows pending) +
                                       length (filter is_operational new)) > ob_maximum b - ob_reserve b)
                         (OutboxFullError ''durable outbound queue is preserving safety capacity'')) (\<lambda>_.
                insert_items (ob_unique_ids b) now new (ob_next b, ob_rows b)))) of
             Inl err \<Rightarrow> (b, Inl err)
           | Inr (nx, rows) \<Rightarrow> (b\<lparr>ob_next := nx, ob_rows := rows\<rparr>, Inr ()))))"

definition head_of_line :: "outbox_row list \<Rightarrow> outbox_row \<Rightarrow> bool" where
  "head_of_line rows r = (\<forall>q\<in>set rows.
     or_peer_id q = or_peer_id r \<and> or_stream q = or_stream r \<and> or_status q = DsPending \<longrightarrow> or_order r \<le> or_order q)"

definition ready_rows :: "int \<Rightarrow> int \<Rightarrow> string option \<Rightarrow> outbox \<Rightarrow> outbox_row list" where
  "ready_rows now limit strm b =
     take (nat limit) (sort_key (\<lambda>r. - or_priority r) (sort_key or_created_at_ms (sort_key or_peer_id
       (filter (\<lambda>r. or_status r = DsPending \<and> head_of_line (ob_rows b) r \<and>
          (case strm of None \<Rightarrow> True | Some s \<Rightarrow> or_stream r = s) \<and> or_next_attempt_ms r \<le> now) (ob_rows b)))))"

definition ready :: "int \<Rightarrow> int \<Rightarrow> string option \<Rightarrow> outbox \<Rightarrow> pending_delivery list res" where
  "ready now limit strm b =
     rbind (require (\<not> limit < 1) (ValueError ''delivery limit must be positive'')) (\<lambda>_.
     rbind (sql_int now) (\<lambda>_. rbind (sql_int limit) (\<lambda>_.
     rmap (\<lambda>r. rbind (decode_envelope (or_envelope r)) (\<lambda>e.
            Inr \<lparr>pd_peer_id = or_peer_id r, pd_envelope = e, pd_attempts = or_attempts r,
                 pd_next_attempt_ms = or_next_attempt_ms r\<rparr>)) (ready_rows now limit strm b))))"

definition delivered_row :: "string \<Rightarrow> string \<Rightarrow> int \<Rightarrow> outbox \<Rightarrow> outbox" where
  "delivered_row peer mid now b = b\<lparr>ob_rows :=
     upd_where (\<lambda>r. or_peer_id r = peer \<and> or_message_id r = mid \<and> or_status r = DsPending)
       (\<lambda>r. r\<lparr>or_status := DsDelivered, or_updated_at_ms := now\<rparr>) (ob_rows b)\<rparr>"

definition delivered :: "string \<Rightarrow> string \<Rightarrow> int \<Rightarrow> outbox \<Rightarrow> outbox \<times> unit res" where
  "delivered peer mid now b =
     (case sql_int now of Inl err \<Rightarrow> (b, Inl err) | Inr _ \<Rightarrow> (delivered_row peer mid now b, Inr ()))"

definition backoff :: "int \<Rightarrow> int \<Rightarrow> int \<Rightarrow> int" where
  "backoff base maximum attempts = min (base * 2 ^ nat (min (attempts - 1) 16)) maximum"

definition failed_row :: "string \<Rightarrow> string \<Rightarrow> string \<Rightarrow> int \<Rightarrow> int \<Rightarrow> int \<Rightarrow> outbox \<Rightarrow> outbox" where
  "failed_row peer mid err now delay attempts b = b\<lparr>ob_rows :=
     upd_where (\<lambda>r. or_peer_id r = peer \<and> or_message_id r = mid)
       (\<lambda>r. r\<lparr>or_attempts := attempts, or_next_attempt_ms := now + delay,
              or_last_error := Some (take_chars 1024 err), or_updated_at_ms := now\<rparr>) (ob_rows b)\<rparr>"

definition failed :: "string \<Rightarrow> string \<Rightarrow> string \<Rightarrow> int \<Rightarrow> int \<Rightarrow> int \<Rightarrow> outbox \<Rightarrow> outbox \<times> unit res" where
  "failed peer mid err now base maximum b =
     (case find (\<lambda>r. or_peer_id r = peer \<and> or_message_id r = mid \<and> or_status r = DsPending) (ob_rows b) of
        None \<Rightarrow> (b, Inr ())
      | Some row \<Rightarrow>
          (let attempts = or_attempts row + 1; delay = backoff base maximum attempts in
           case rbind (sql_int attempts) (\<lambda>_. rbind (sql_int (now + delay)) (\<lambda>_. sql_int now)) of
             Inl e \<Rightarrow> (b, Inl e)
           | Inr _ \<Rightarrow> (failed_row peer mid err now delay attempts b, Inr ())))"

definition ob_metrics :: "outbox \<Rightarrow> delivery_metrics" where
  "ob_metrics b = \<lparr>dm_pending = length (pending_rows (ob_rows b)),
     dm_delivered = length (filter (\<lambda>r. or_status r = DsDelivered) (ob_rows b)),
     dm_failed_attempts = sum_list (map or_attempts (ob_rows b))\<rparr>"

end
