(* ===== verification/Replay.thy ===== *)
theory Replay
  imports Outbox
begin

text \<open>
  The two replay protectors of \<open>network.py\<close>. Both remember the last sequence number of each (peer, session, stream);
  the in-memory one forgets the least recently used when it holds more than its maximum, the SQLite one forgets
  nothing. What they share is the locale \<open>replay_protector\<close>; the durable one extends it.
\<close>

type_synonym replay_key = "string \<times> string \<times> string"

section \<open>In memory\<close>

text \<open>The \<open>OrderedDict\<close> as an association list, oldest first.\<close>

record replay_memory =
  rm_maximum :: int
  rm_sequences :: "(replay_key \<times> int) list"

definition rm_init :: "int \<Rightarrow> replay_memory res" where
  "rm_init maximum = rbind (require (\<not> maximum < 1) (ValueError ''maximum_sessions must be positive'')) (\<lambda>_.
     Inr \<lparr>rm_maximum = maximum, rm_sequences = []\<rparr>)"

definition replay_error :: error where
  "replay_error = ReplayError ''replayed sequence''"

definition rm_last :: "replay_memory \<Rightarrow> replay_key \<Rightarrow> int" where
  "rm_last m k = (case map_of (rm_sequences m) k of None \<Rightarrow> 0 | Some n \<Rightarrow> n)"

definition rm_accept :: "replay_key \<Rightarrow> int \<Rightarrow> replay_memory \<Rightarrow> replay_memory \<times> unit res" where
  "rm_accept k sequence m =
     (if sequence \<le> rm_last m k then (m, Inl replay_error)
      else (let moved = filter (\<lambda>x. fst x \<noteq> k) (rm_sequences m) @ [(k, sequence)] in
        (m\<lparr>rm_sequences := drop (length moved - nat (rm_maximum m)) moved\<rparr>, Inr ())))"

section \<open>In SQLite\<close>

record replay_row =
  rp_key :: replay_key
  rp_last_sequence :: int
  rp_updated_at_ms :: int

type_synonym replay_store = "replay_row list"

definition rs_row :: "replay_key \<Rightarrow> replay_store \<Rightarrow> replay_row option" where
  "rs_row k s = find (\<lambda>r. rp_key r = k) s"

definition rs_last :: "replay_store \<Rightarrow> replay_key \<Rightarrow> int" where
  "rs_last s k = (case rs_row k s of None \<Rightarrow> 0 | Some r \<Rightarrow> rp_last_sequence r)"

text \<open>The migration of a table without streams: its keys (peer, session) belong to the operational stream.\<close>

definition migrate_replay_streams :: "(string \<times> string \<times> int \<times> int) list \<Rightarrow> replay_store" where
  "migrate_replay_streams legacy =
     map (\<lambda>(p, s, n, t). \<lparr>rp_key = (p, s, OPERATIONAL_STREAM), rp_last_sequence = n, rp_updated_at_ms = t\<rparr>) legacy"

definition rs_accept :: "int \<Rightarrow> replay_key \<Rightarrow> int \<Rightarrow> replay_store \<Rightarrow> replay_store \<times> unit res" where
  "rs_accept now k sequence s =
     (if sequence \<le> rs_last s k then (s, Inl replay_error)
      else case rbind (sql_int sequence) (\<lambda>_. sql_int now) of
        Inl err \<Rightarrow> (s, Inl err)
      | Inr _ \<Rightarrow>
          (if rs_row k s = None then s @ [\<lparr>rp_key = k, rp_last_sequence = sequence, rp_updated_at_ms = now\<rparr>]
           else upd_where (\<lambda>r. rp_key r = k) (\<lambda>r. r\<lparr>rp_last_sequence := sequence, rp_updated_at_ms := now\<rparr>) s, Inr ()))"

section \<open>The contract\<close>

text \<open>The sequence numbers accepted in a series of attempts, oldest first.\<close>

fun accepted :: "(replay_key \<Rightarrow> int \<Rightarrow> 'r \<Rightarrow> 'r \<times> unit res) \<Rightarrow> (replay_key \<times> int) list \<Rightarrow> 'r \<Rightarrow> (replay_key \<times> int) list" where
  "accepted accept [] r = []"
| "accepted accept ((k, n) # xs) r = (case accept k n r of
     (r', Inl e) \<Rightarrow> accepted accept xs r' | (r', Inr _) \<Rightarrow> (k, n) # accepted accept xs r')"

locale replay_protector =
  fixes accept :: "replay_key \<Rightarrow> int \<Rightarrow> 'r \<Rightarrow> 'r \<times> unit res" and last_of :: "'r \<Rightarrow> replay_key \<Rightarrow> int"
    and good :: "'r \<Rightarrow> bool"
  assumes accept_new: "good r \<Longrightarrow> accept k n r = (r', Inr ()) \<Longrightarrow> last_of r k < n \<and> last_of r' k = n \<and> good r'"
    and accept_refused: "good r \<Longrightarrow> accept k n r = (r', Inl e) \<Longrightarrow> r' = r"
begin

lemma no_immediate_replay:
  assumes "good r" "accept k n r = (r', Inr ())" "m \<le> n"
  shows "\<exists>e. accept k m r' = (r', Inl e)"
proof -
  obtain r2 v where run: "accept k m r' = (r2, v)" by fastforce
  have g: "good r'" "last_of r' k = n" using accept_new assms by auto
  show ?thesis
  proof (cases v)
    case (Inl e)
    then show ?thesis using accept_refused[OF g(1)] run by auto
  next
    case (Inr u)
    then have "last_of r' k < m" using accept_new[OF g(1), of k m r2] run by simp
    then show ?thesis using g(2) assms(3) by simp
  qed
qed

end

locale durable_replay = replay_protector accept last_of good
  for accept :: "replay_key \<Rightarrow> int \<Rightarrow> 'r \<Rightarrow> 'r \<times> unit res" and last_of and good +
  assumes accept_others: "good r \<Longrightarrow> accept k n r = (r', Inr ()) \<Longrightarrow> j \<noteq> k \<Longrightarrow> last_of r' j = last_of r j"
begin

lemma accepted_above: "good r \<Longrightarrow> (k, n) \<in> set (accepted accept xs r) \<Longrightarrow> last_of r k < n"
proof (induction xs arbitrary: r)
  case (Cons x xs)
  obtain j m where x: "x = (j, m)" by (cases x)
  obtain r' v where run: "accept j m r = (r', v)" by fastforce
  show ?case
  proof (cases v)
    case (Inl e)
    then have "r' = r" using accept_refused[OF Cons.prems(1)] run by blast
    then show ?thesis using Cons Inl run x by simp
  next
    case (Inr u)
    have a: "last_of r j < m" "last_of r' j = m" "good r'" using accept_new[OF Cons.prems(1)] run Inr by auto
    have "(k, n) = (j, m) \<or> (k, n) \<in> set (accepted accept xs r')" using Cons.prems(2) run Inr x by auto
    then show ?thesis
    proof
      assume "(k, n) \<in> set (accepted accept xs r')"
      then have "last_of r' k < n" using Cons.IH[OF a(3)] by blast
      then show ?thesis using a accept_others[OF Cons.prems(1), of j m r' k] run Inr by (cases "k = j") auto
    qed (use a in auto)
  qed
qed simp

lemma accepted_increasing: "good r \<Longrightarrow> sorted_wrt (<) (map snd (filter (\<lambda>x. fst x = k) (accepted accept xs r)))"
proof (induction xs arbitrary: r)
  case (Cons x xs)
  obtain j m where x: "x = (j, m)" by (cases x)
  obtain r' v where run: "accept j m r = (r', v)" by fastforce
  show ?case
  proof (cases v)
    case (Inl e)
    then have "r' = r" using accept_refused[OF Cons.prems(1)] run by blast
    then show ?thesis using Cons Inl run x by simp
  next
    case (Inr u)
    have a: "last_of r' j = m" "good r'" using accept_new[OF Cons.prems(1)] run Inr by auto
    have "m < snd y" if "y \<in> set (accepted accept xs r')" "fst y = j" for y
      using accepted_above[OF a(2), of j "snd y" xs] that a(1) by (metis prod.collapse)
    then show ?thesis using Cons.IH[OF a(2)] run Inr x by auto
  qed
qed simp

end

section \<open>Both protectors keep it\<close>

definition rm_good :: "replay_memory \<Rightarrow> bool" where
  "rm_good m = (1 \<le> rm_maximum m \<and> distinct (map fst (rm_sequences m)) \<and> int (length (rm_sequences m)) \<le> rm_maximum m)"

definition rs_good :: "replay_store \<Rightarrow> bool" where
  "rs_good s = distinct (map rp_key s)"

lemma rm_accept_good:
  assumes good: "rm_good m" and run: "rm_accept k n m = (m', Inr ())"
  shows "rm_last m k < n \<and> rm_last m' k = n \<and> rm_good m'"
proof -
  let ?moved = "filter (\<lambda>x. fst x \<noteq> k) (rm_sequences m) @ [(k, n)]"
  let ?d = "length ?moved - nat (rm_maximum m)"
  define D where "D = drop ?d ?moved"
  have n: "rm_last m k < n" and m': "m' = m\<lparr>rm_sequences := D\<rparr>"
    using run by (auto simp: rm_accept_def Let_def D_def split: if_splits)
  have d: "distinct (map fst ?moved)" using good by (auto simp: rm_good_def distinct_map_filter)
  have one: "1 \<le> nat (rm_maximum m)" using good unfolding rm_good_def by linarith
  then have "?d \<le> length (filter (\<lambda>x. fst x \<noteq> k) (rm_sequences m))" by simp
  then have "D = drop ?d (filter (\<lambda>x. fst x \<noteq> k) (rm_sequences m)) @ [(k, n)]" by (simp add: D_def)
  moreover have dD: "distinct (map fst D)" using distinct_drop[OF d, of ?d] by (simp only: drop_map D_def)
  ultimately have "map_of D k = Some n" by (intro map_of_is_SomeI) auto
  moreover have "length D \<le> nat (rm_maximum m)" by (simp add: D_def)
  then have "int (length D) \<le> rm_maximum m" using one by linarith
  ultimately show ?thesis using good n dD by (simp add: m' rm_last_def rm_good_def)
qed

interpretation memory_replay: replay_protector rm_accept rm_last rm_good
  by unfold_locales (use rm_accept_good in blast, auto simp: rm_accept_def Let_def split: if_splits)

lemma rs_accept_last:
  assumes good: "rs_good s" and run: "rs_accept now k n s = (s', Inr ())"
  shows "rs_last s k < n \<and> rs_last s' k = n \<and> rs_good s' \<and> (\<forall>j. j \<noteq> k \<longrightarrow> rs_last s' j = rs_last s j)"
proof -
  have n: "rs_last s k < n" using run by (auto simp: rs_accept_def split: if_splits)
  show ?thesis
  proof (cases "rs_row k s")
    case None
    then have s': "s' = s @ [\<lparr>rp_key = k, rp_last_sequence = n, rp_updated_at_ms = now\<rparr>]"
      using run n by (auto simp: rs_accept_def split: if_splits sum.splits)
    have "k \<notin> rp_key ` set s" using None by (simp add: rs_row_def find_key_None_iff)
    then show ?thesis using good n None
      by (auto simp: s' rs_good_def rs_last_def rs_row_def find_key_append split: option.split)
  next
    case (Some r)
    let ?f = "\<lambda>r. r\<lparr>rp_last_sequence := n, rp_updated_at_ms := now\<rparr>"
    have s': "s' = upd_where (\<lambda>r. rp_key r = k) ?f s"
      using run n Some by (auto simp: rs_accept_def split: if_splits sum.splits)
    have row: "rs_row j s' = map_option (\<lambda>r. if rp_key r = k then ?f r else r) (rs_row j s)" for j
      using find_upd_where[of rp_key ?f j "\<lambda>r. rp_key r = k" s] by (simp add: rs_row_def s')
    have key: "rp_key x = j" if "rs_row j s = Some x" for j x
      using find_key_SomeD[of rp_key j s x] that by (simp add: rs_row_def)
    have "rs_last s' j = (if j = k then n else rs_last s j)" for j
      using row[of j] key[of j] Some by (auto simp: rs_last_def split: option.split)
    moreover have "rs_good s'" using good by (simp add: rs_good_def s' map_upd_where)
    ultimately show ?thesis using n by simp
  qed
qed

lemma rs_accept_refused: "rs_accept now k n s = (s', Inl e) \<Longrightarrow> s' = s"
  by (auto simp: rs_accept_def split: if_splits sum.splits)

interpretation sqlite_replay: durable_replay "rs_accept now" rs_last rs_good for now
  by unfold_locales (use rs_accept_last rs_accept_refused in blast)+

text \<open>Replay protection is durable. Whatever is tried, in whatever order and over any restarts, the sequence numbers that
  the SQLite protector accepts for one peer, session and stream increase strictly.\<close>

theorem accepted_sequences_increase:
  "sorted_wrt (<) (map snd (filter (\<lambda>x. fst x = k) (accepted (rs_accept now) attempts [])))"
  by (rule sqlite_replay.accepted_increasing) (simp add: rs_good_def)

end
