(* ===== verification/Network_Codec.thy ===== *)
theory Network_Codec
  imports Replay Robot_Models
begin

text \<open>
  \<open>network.py\<close>: what goes over the wire and what is read from configuration. Delivery acknowledgements, frames
  with their length header, the robot identity of a certificate, peer endpoints, the network configuration and
  discovery announcements. A connection is the list of the byte strings its \<open>recv\<close> calls give.
  The file system is the text read, if any, and the parameter \<open>is_file\<close>.
\<close>

section \<open>Acknowledgements\<close>

definition DELIVERY_ACK_PROTOCOL :: string where "DELIVERY_ACK_PROTOCOL = ''ump-delivery-ack/0.1''"

definition ack_statuses :: "string list" where
  "ack_statuses = [''received'', ''processed'', ''duplicate'']"

record delivery_ack =
  ack_message_id :: string
  ack_status :: string

definition ack_document :: "delivery_ack \<Rightarrow> json" where
  "ack_document a = JObj [(''protocol'', JStr DELIVERY_ACK_PROTOCOL), (''message_id'', JStr (ack_message_id a)),
     (''status'', JStr (ack_status a))]"

text \<open>\<open>json.dumps\<close> with its default \<open>ensure_ascii=True\<close>: what is not printable ASCII becomes \<open>\uXXXX\<close>, above the
  basic plane two of them.\<close>

definition u_escape :: "nat \<Rightarrow> string" where
  "u_escape n = [CHR 0x5C, CHR ''u'', hex_char (n div 4096), hex_char (n div 256 mod 16), hex_char (n div 16 mod 16), hex_char (n mod 16)]"

definition ascii_point :: "nat \<Rightarrow> string" where
  "ascii_point n =
     (if n < 127 then [char_of n] else if n < 65536 then u_escape n
      else u_escape (55296 + (n - 65536) div 1024) @ u_escape (56320 + (n - 65536) mod 1024))"

definition json_dumps_ascii :: "json \<Rightarrow> string" where
  "json_dumps_ascii v = concat (map ascii_point (codepoints (json_dumps v)))"

definition encode_delivery_ack :: "delivery_ack \<Rightarrow> string res" where
  "encode_delivery_ack a =
     rbind (require (ack_status a \<in> set ack_statuses)
              (DeliveryAcknowledgementError ''invalid delivery acknowledgement status'')) (\<lambda>_.
     Inr (json_dumps_ascii (ack_document a)))"

text \<open>\<open>status not in {...}\<close> hashes the value: an array or an object raises \<open>TypeError\<close>.\<close>

definition decode_delivery_ack :: "string \<Rightarrow> string \<Rightarrow> delivery_ack res" where
  "decode_delivery_ack encoded expected =
     (case loads_bytes encoded of
        None \<Rightarrow> Inl (DeliveryAcknowledgementError ''delivery acknowledgement is not valid UTF-8 JSON'')
      | Some v \<Rightarrow>
          rbind (require (is_object v \<and> jget v ''protocol'' JNull = Inr (JStr DELIVERY_ACK_PROTOCOL))
                   (DeliveryAcknowledgementError ''invalid delivery acknowledgement protocol'')) (\<lambda>_.
          rbind (require (jget v ''message_id'' JNull = Inr (JStr expected))
                   (DeliveryAcknowledgementError ''delivery acknowledgement message ID mismatch'')) (\<lambda>_.
          rbind (jget v ''status'' JNull) (\<lambda>status.
          case status of
            JStr s \<Rightarrow>
              if s \<in> set ack_statuses then Inr \<lparr>ack_message_id = expected, ack_status = s\<rparr>
              else Inl (DeliveryAcknowledgementError ''invalid delivery acknowledgement status'')
          | JArr _ \<Rightarrow> Inl (TypeError ''unhashable type'')
          | JObj _ \<Rightarrow> Inl (TypeError ''unhashable type'')
          | _ \<Rightarrow> Inl (DeliveryAcknowledgementError ''invalid delivery acknowledgement status'')))))"

section \<open>Frames\<close>

text \<open>\<open>struct.pack("!I", n)\<close>: four bytes, most significant first.\<close>

definition pack_size :: "nat \<Rightarrow> string" where
  "pack_size n = map char_of [n div 16777216 mod 256, n div 65536 mod 256, n div 256 mod 256, n mod 256]"

definition unpack_size :: "string \<Rightarrow> nat" where
  "unpack_size s = fold (\<lambda>c n. 256 * n + of_char c) s 0"

definition frame_size_error :: error where
  "frame_size_error = NetworkProtocolError ''frame size is outside the UMP core profile''"

definition send_frame :: "string \<Rightarrow> string res" where
  "send_frame encoded =
     (if encoded = [] \<or> length encoded > MAX_MESSAGE_BYTES then Inl frame_size_error
      else Inr (pack_size (length encoded) @ encoded))"

text \<open>The loop of \<open>_receive_exact\<close>: \<open>recv(n)\<close> gives at most \<open>n\<close> bytes of the next arrival, the rest stays; an empty
  arrival is the end of the stream.\<close>

fun receive_loop :: "nat \<Rightarrow> bool \<Rightarrow> string \<Rightarrow> string list \<Rightarrow> (string list \<times> string option) res" where
  "receive_loop need clean acc arrivals =
     (if length acc \<ge> need then Inr (arrivals, Some acc)
      else (case arrivals of
          [] \<Rightarrow> if acc = [] \<and> clean then Inr ([], None)
                else Inl (NetworkProtocolError ''connection closed inside a UMP frame'')
        | c # cs \<Rightarrow>
            if c = [] then (if acc = [] \<and> clean then Inr (cs, None)
                            else Inl (NetworkProtocolError ''connection closed inside a UMP frame''))
            else if length c \<le> need - length acc then receive_loop need clean (acc @ c) cs
            else Inr (drop (need - length acc) c # cs, Some (acc @ take (need - length acc) c))))"

definition receive_exact :: "nat \<Rightarrow> bool \<Rightarrow> string list \<Rightarrow> (string list \<times> string option) res" where
  "receive_exact need clean arrivals = receive_loop need clean [] arrivals"

definition receive_frame :: "string list \<Rightarrow> (string list \<times> string option) res" where
  "receive_frame arrivals =
     rbind (receive_exact 4 True arrivals) (\<lambda>(rest, header).
     case header of
       None \<Rightarrow> Inr (rest, None)
     | Some h \<Rightarrow>
         (let n = unpack_size h in
          rbind (require (1 \<le> n \<and> n \<le> MAX_MESSAGE_BYTES) frame_size_error) (\<lambda>_.
          rbind (receive_exact n False rest) (\<lambda>(rest', body).
          case body of None \<Rightarrow> Inl (RuntimeError ''AssertionError'') | Some b \<Rightarrow> Inr (rest', Some b)))))"

section \<open>Certificates\<close>

definition IDENTITY_URI_PREFIX :: string where "IDENTITY_URI_PREFIX = ''urn:ump:robot:''"

text \<open>The argument is the \<open>subjectAltName\<close> of the certificate, as pairs of kind and value.\<close>

definition certificate_robot_id :: "(string \<times> string) list \<Rightarrow> string res" where
  "certificate_robot_id san =
     (case remdups (map (\<lambda>(kind, v). drop (length IDENTITY_URI_PREFIX) v)
        (filter (\<lambda>(kind, v). kind = ''URI'' \<and> take (length IDENTITY_URI_PREFIX) v = IDENTITY_URI_PREFIX) san)) of
       [rid] \<Rightarrow> if rid = [] then Inl (PeerIdentityError ''certificate must contain exactly one UMP robot URI identity'')
                else Inr rid
     | _ \<Rightarrow> Inl (PeerIdentityError ''certificate must contain exactly one UMP robot URI identity''))"

definition certificate_sha256 :: "(string \<Rightarrow> string) \<Rightarrow> string \<Rightarrow> string res" where
  "certificate_sha256 sha der =
     (if der = [] then Inl (PeerIdentityError ''peer did not provide a certificate'') else Inr (sha der))"

section \<open>Peers and configuration\<close>

record peer_endpoint =
  pe_robot_id :: string
  pe_host :: string
  pe_port :: int
  pe_certificate_sha256 :: "string option"
  pe_allowed_message_types :: "string list"
  pe_allowed_capabilities :: "string list"

definition hex_sha256 :: "string \<Rightarrow> bool" where
  "hex_sha256 s = (length s = 64 \<and> list_all (\<lambda>c. c \<in> set ''0123456789abcdef'') s)"

definition versioned :: "string \<Rightarrow> bool" where
  "versioned s = (case py_rpartition ''/v'' s of (a, m, b) \<Rightarrow> a \<noteq> [] \<and> py_isdigit b)"

text \<open>\<open>PeerEndpoint.__post_init__\<close> on a record whose fields have their declared types; the tests of the types are in
  \<open>load_peer\<close>, where the values come from JSON.\<close>

definition post_init_endpoint :: "peer_endpoint \<Rightarrow> peer_endpoint res" where
  "post_init_endpoint p =
     rbind (require (\<not> (py_blank (pe_robot_id p) \<or> length (pe_robot_id p) > 128 \<or> py_blank (pe_host p) \<or>
                        length (pe_host p) > 255 \<or> \<not> (1 \<le> pe_port p \<and> pe_port p \<le> 65535)))
              (ValueError ''invalid UMP peer endpoint'')) (\<lambda>_.
     rbind (require (case pe_certificate_sha256 p of None \<Rightarrow> True | Some f \<Rightarrow> hex_sha256 f)
              (ValueError ''peer certificate fingerprint must be lowercase SHA-256'')) (\<lambda>_.
     rbind (require (distinct (pe_allowed_message_types p)) (ValueError ''peer allowed message types must be unique'')) (\<lambda>_.
     rbind (require (set (pe_allowed_message_types p) \<subseteq> set MESSAGE_TYPES)
              (ValueError ''peer policy contains unknown message types'')) (\<lambda>_.
     rbind (require (length (pe_allowed_capabilities p) \<le> 256 \<and>
                     list_all (\<lambda>c. length c \<le> 128 \<and> versioned c) (pe_allowed_capabilities p))
              (ValueError ''peer allowed capabilities must be versioned strings'')) (\<lambda>_.
     rbind (require (distinct (pe_allowed_capabilities p)) (ValueError ''peer allowed capabilities must be unique'')) (\<lambda>_.
     Inr p))))))"

definition only_strings :: "string \<Rightarrow> json \<Rightarrow> string list res" where
  "only_strings message v = rbind (py_iter v) (rmap (\<lambda>x. case x of JStr s \<Rightarrow> Inr s | _ \<Rightarrow> Inl (ValueError message)))"

definition typed :: "error \<Rightarrow> 'a res \<Rightarrow> 'a res" where
  "typed e r = (case r of Inl _ \<Rightarrow> Inl e | Inr x \<Rightarrow> Inr x)"

definition has_only :: "string list \<Rightarrow> json \<Rightarrow> bool" where
  "has_only names v = (case v of JObj kvs \<Rightarrow> \<forall>kv\<in>set kvs. fst kv \<in> set names | _ \<Rightarrow> False)"

definition load_peer :: "json \<Rightarrow> peer_endpoint res" where
  "load_peer v =
     rbind (require (is_object v) (ValueError ''network peer must be an object'')) (\<lambda>_.
     rbind (require (has_only [''robot_id'', ''host'', ''port'', ''certificate_sha256'', ''allowed_message_types'',
                               ''allowed_capabilities''] v) (ValueError ''network peer has unknown fields'')) (\<lambda>_.
     rbind (jitem v ''robot_id'') (\<lambda>rid.
     rbind (jitem v ''host'') (\<lambda>host.
     rbind (jitem v ''port'') (\<lambda>port.
     rbind (jget v ''certificate_sha256'' JNull) (\<lambda>fp.
     rbind (rbind (jget v ''allowed_message_types'' (JArr [])) (only_strings ''peer allowed message types must be strings'')) (\<lambda>types.
     rbind (rbind (jget v ''allowed_capabilities'' (JArr [])) (only_strings ''peer allowed capabilities must be versioned strings'')) (\<lambda>caps.
     rbind (typed (ValueError ''invalid UMP peer endpoint'') (as_str rid)) (\<lambda>rid'.
     rbind (typed (ValueError ''invalid UMP peer endpoint'') (as_str host)) (\<lambda>host'.
     rbind (typed (ValueError ''invalid UMP peer endpoint'') (as_int port)) (\<lambda>port'.
     rbind (typed (ValueError ''peer certificate fingerprint must be lowercase SHA-256'') (as_opt_str fp)) (\<lambda>fp'.
     post_init_endpoint \<lparr>pe_robot_id = rid', pe_host = host', pe_port = port', pe_certificate_sha256 = fp',
       pe_allowed_message_types = types, pe_allowed_capabilities = caps\<rparr>))))))))))))"

record network_config =
  nc_robot_id :: string
  nc_bind_host :: string
  nc_bind_port :: int
  nc_certificate_path :: string
  nc_private_key_path :: string
  nc_ca_path :: string
  nc_replay_database_path :: string
  nc_inbox_database_path :: string
  nc_outbox_database_path :: string
  nc_peers :: "peer_endpoint list"
  nc_timeout :: json
  nc_maximum_pending :: int
  nc_reserved_safety :: int

text \<open>\<open>0.1 <= timeout <= 60.0\<close> on the exact decimal \<open>m / 10 ^ k\<close>.\<close>

definition timeout_ok :: "json \<Rightarrow> bool" where
  "timeout_ok v = (case v of
      JInt n \<Rightarrow> 1 \<le> n \<and> n \<le> 60
    | JFloat t \<Rightarrow> (case dec_value v of Inr (Some (m, k)) \<Rightarrow> 10 ^ k \<le> m * 10 \<and> m \<le> 60 * 10 ^ k | _ \<Rightarrow> False)
    | _ \<Rightarrow> False)"

definition post_init_network :: "(string \<Rightarrow> bool) \<Rightarrow> network_config \<Rightarrow> network_config res" where
  "post_init_network is_file c =
     rbind (require (\<not> (py_blank (nc_robot_id c) \<or> length (nc_robot_id c) > 128 \<or> py_blank (nc_bind_host c) \<or>
                        length (nc_bind_host c) > 255)) (ValueError ''network robot_id and bind_host are required'')) (\<lambda>_.
     rbind (require (0 \<le> nc_bind_port c \<and> nc_bind_port c \<le> 65535) (ValueError ''network bind_port is invalid'')) (\<lambda>_.
     rbind (require (timeout_ok (nc_timeout c)) (ValueError ''network timeout must be between 0.1 and 60 seconds'')) (\<lambda>_.
     rbind (require (1 \<le> nc_maximum_pending c \<and> nc_maximum_pending c \<le> 1000000)
              (ValueError ''maximum pending deliveries is outside supported bounds'')) (\<lambda>_.
     rbind (require (0 \<le> nc_reserved_safety c \<and> nc_reserved_safety c < nc_maximum_pending c)
              (ValueError ''reserved safety deliveries must fit inside the outbox'')) (\<lambda>_.
     rbind (require (length (nc_peers c) \<le> 1024) (ValueError ''network peers must be a bounded tuple'')) (\<lambda>_.
     rbind (rforall (\<lambda>p. require (is_file p) (ValueError (''network credential file does not exist: '' @ p)))
              [nc_certificate_path c, nc_private_key_path c, nc_ca_path c]) (\<lambda>_.
     rbind (require (distinct (map pe_robot_id (nc_peers c))) (ValueError ''network peer robot IDs must be unique'')) (\<lambda>_.
     Inr c))))))))"

definition required_network :: "string list" where
  "required_network = [''robot_id'', ''bind_host'', ''bind_port'', ''certificate_path'', ''private_key_path'', ''ca_path'',
     ''replay_database_path'', ''inbox_database_path'', ''outbox_database_path'']"

definition credential_path :: "string \<Rightarrow> json \<Rightarrow> string \<Rightarrow> string res" where
  "credential_path dir v field_name = rbind (rbind (jitem v field_name) (\<lambda>x. typed (TypeError ''path'') (as_str x))) (\<lambda>s.
     Inr (if take 1 s = ''/'' then s else dir @ ''/'' @ s))"

definition load_network_config :: "(string \<Rightarrow> bool) \<Rightarrow> string \<Rightarrow> string option \<Rightarrow> network_config res" where
  "load_network_config is_file dir content =
     (case (case content of None \<Rightarrow> None | Some t \<Rightarrow> json_loads t) of
        None \<Rightarrow> Inl (ValueError ''network configuration is not readable JSON'')
      | Some v \<Rightarrow>
          rbind (require (is_object v) (ValueError ''network configuration must be an object'')) (\<lambda>_.
          rbind (require (list_all (\<lambda>k. is_ok (jitem v k)) required_network) (ValueError ''network configuration is missing fields'')) (\<lambda>_.
          rbind (require (has_only (required_network @ [''peers'', ''timeout'', ''maximum_pending_deliveries'', ''reserved_safety_deliveries'']) v)
                   (ValueError ''network configuration has unknown fields'')) (\<lambda>_.
          typed (ValueError ''network configuration contains invalid values'')
           (rbind (jget v ''peers'' (JNull)) (\<lambda>docs.
            rbind (case docs of JArr vs \<Rightarrow> Inr vs | _ \<Rightarrow> Inl (ValueError ''network peers must be an array'')) (\<lambda>vs.
            rbind (rmap load_peer vs) (\<lambda>peers.
            rbind (rbind (jitem v ''robot_id'') as_str) (\<lambda>rid.
            rbind (rbind (jitem v ''bind_host'') as_str) (\<lambda>host.
            rbind (rbind (jitem v ''bind_port'') as_int) (\<lambda>port.
            rbind (rmap (credential_path dir v) (drop 3 required_network)) (\<lambda>paths.
            rbind (jget v ''timeout'' (JFloat ''2.0'')) (\<lambda>timeout.
            rbind (rbind (jget v ''maximum_pending_deliveries'' (JInt 10000)) as_int) (\<lambda>maximum.
            rbind (rbind (jget v ''reserved_safety_deliveries'' (JInt 64)) as_int) (\<lambda>reserved.
            post_init_network is_file \<lparr>nc_robot_id = rid, nc_bind_host = host, nc_bind_port = port,
              nc_certificate_path = paths ! 0, nc_private_key_path = paths ! 1, nc_ca_path = paths ! 2,
              nc_replay_database_path = paths ! 3, nc_inbox_database_path = paths ! 4, nc_outbox_database_path = paths ! 5,
              nc_peers = peers, nc_timeout = timeout, nc_maximum_pending = maximum, nc_reserved_safety = reserved\<rparr>)))))))))))))))"

section \<open>Discovery\<close>

definition DISCOVERY_PROTOCOL :: string where "DISCOVERY_PROTOCOL = ''ump-discovery/0.1''"
definition MAX_DISCOVERY_BYTES :: nat where "MAX_DISCOVERY_BYTES = 2048"

record discovery =
  da_robot_id :: string
  da_host :: string
  da_port :: json
  da_certificate_sha256 :: string
  da_expires_at_ms :: json
  da_protocol :: string

text \<open>Python compares numbers of any kind: \<open>num_below v n\<close> is \<open>None\<close> for \<open>NaN\<close>, otherwise whether \<open>v < n\<close>. What is no
  number raises \<open>TypeError\<close>.\<close>

definition num_below :: "json \<Rightarrow> int \<Rightarrow> bool option res" where
  "num_below v n = (case v of
      JInt i \<Rightarrow> Inr (Some (i < n))
    | JBool b \<Rightarrow> Inr (Some ((if b then 1 else 0) < n))
    | JFloat t \<Rightarrow>
        if t = ''NaN'' then Inr None
        else if t = ''Infinity'' then Inr (Some False)
        else if t = ''-Infinity'' then Inr (Some True)
        else (let d = literal_value t in Inr (Some (fst d < n * 10 ^ snd d)))
    | _ \<Rightarrow> Inl (TypeError ''not supported between instances''))"

definition num_equal :: "json \<Rightarrow> int \<Rightarrow> bool" where
  "num_equal v n = (case v of
      JInt i \<Rightarrow> i = n
    | JBool b \<Rightarrow> (if b then 1 else 0) = n
    | JFloat t \<Rightarrow> t \<notin> {''NaN'', ''Infinity'', ''-Infinity''} \<and> (let d = literal_value t in fst d = n * 10 ^ snd d)
    | _ \<Rightarrow> False)"

definition falsy :: "json \<Rightarrow> bool" where
  "falsy v = (v = JNull \<or> v = JBool False \<or> v = JStr [] \<or> v = JArr [] \<or> v = JObj [] \<or> num_equal v 0)"

text \<open>\<open>not text or len(text.encode()) > n\<close> on any value.\<close>

definition discovery_text :: "string \<Rightarrow> nat \<Rightarrow> json \<Rightarrow> string res" where
  "discovery_text message n v =
     (if falsy v then Inl (ValueError message)
      else rbind (as_str v) (\<lambda>s. if length s > n then Inl (ValueError message) else Inr s))"

definition make_discovery :: "json \<Rightarrow> json \<Rightarrow> json \<Rightarrow> json \<Rightarrow> json \<Rightarrow> string \<Rightarrow> discovery res" where
  "make_discovery rid host port fp expires protocol =
     rbind (discovery_text ''invalid discovery robot_id'' 128 rid) (\<lambda>rid'.
     rbind (discovery_text ''invalid discovery host'' 255 host) (\<lambda>host'.
     rbind (num_below port 1) (\<lambda>low.
     rbind (num_below port 65535) (\<lambda>high.
     rbind (require (low = Some False \<and> (high = Some True \<or> num_equal port 65535)) (ValueError ''invalid discovery port'')) (\<lambda>_.
     rbind (typed (AttributeError ''lower'') (as_str fp)) (\<lambda>fp'.
     rbind (require (hex_sha256 (map to_lower fp')) (ValueError ''certificate fingerprint must be 64 lowercase hex characters'')) (\<lambda>_.
     rbind (num_below expires 0) (\<lambda>negative.
     rbind (require (negative \<noteq> Some True) (ValueError ''discovery expiry cannot be negative'')) (\<lambda>_.
     Inr \<lparr>da_robot_id = rid', da_host = host', da_port = port, da_certificate_sha256 = fp',
          da_expires_at_ms = expires, da_protocol = protocol\<rparr>)))))))))"

definition discovery_document :: "discovery \<Rightarrow> json" where
  "discovery_document d = JObj [(''robot_id'', JStr (da_robot_id d)), (''host'', JStr (da_host d)), (''port'', da_port d),
     (''certificate_sha256'', JStr (da_certificate_sha256 d)), (''expires_at_ms'', da_expires_at_ms d),
     (''protocol'', JStr (da_protocol d))]"

definition encode_discovery :: "discovery \<Rightarrow> string res" where
  "encode_discovery d = (let encoded = json_dumps (discovery_document d) in
     if length encoded > MAX_DISCOVERY_BYTES then Inl (NetworkProtocolError ''discovery announcement is too large'') else Inr encoded)"

definition decode_discovery :: "string \<Rightarrow> int \<Rightarrow> discovery res" where
  "decode_discovery encoded now =
     rbind (require (\<not> (encoded = [] \<or> length encoded > MAX_DISCOVERY_BYTES))
              (NetworkProtocolError ''discovery announcement size is invalid'')) (\<lambda>_.
     case loads_bytes encoded of
       None \<Rightarrow> Inl (NetworkProtocolError ''discovery announcement is not valid JSON'')
     | Some v \<Rightarrow>
         rbind (require (is_object v) (NetworkProtocolError ''discovery announcement must be an object'')) (\<lambda>_.
         rbind (require (list_all (\<lambda>k. is_ok (jitem v k)) [''robot_id'', ''host'', ''port'', ''certificate_sha256'', ''expires_at_ms'', ''protocol''])
                  (NetworkProtocolError ''discovery announcement is missing fields'')) (\<lambda>_.
         rbind (require (jitem v ''protocol'' = Inr (JStr DISCOVERY_PROTOCOL)) (NetworkProtocolError ''unsupported discovery protocol'')) (\<lambda>_.
         rbind (jitem v ''robot_id'') (\<lambda>rid.
         rbind (jitem v ''host'') (\<lambda>host.
         rbind (jitem v ''port'') (\<lambda>port.
         rbind (jitem v ''certificate_sha256'') (\<lambda>fp.
         rbind (jitem v ''expires_at_ms'') (\<lambda>expires.
         rbind (case make_discovery rid host port fp expires DISCOVERY_PROTOCOL of
                  Inl (TypeError _) \<Rightarrow> Inl (NetworkProtocolError ''invalid discovery announcement'')
                | Inl (ValueError _) \<Rightarrow> Inl (NetworkProtocolError ''invalid discovery announcement'')
                | r \<Rightarrow> r) (\<lambda>d.
         rbind (num_below (da_expires_at_ms d) now) (\<lambda>expired.
         if expired = Some True then Inl (NetworkProtocolError ''discovery announcement has expired'') else Inr d)))))))))))"

section \<open>Frames come through\<close>

declare receive_loop.simps [simp del]

lemma receive_loop_enough:
  assumes "[] \<notin> set arrivals" "length acc \<le> need" "need \<le> length acc + length (concat arrivals)"
  shows "\<exists>rest. receive_loop need clean acc arrivals = Inr (rest, Some (take need (acc @ concat arrivals))) \<and>
    concat rest = drop need (acc @ concat arrivals) \<and> [] \<notin> set rest"
  using assms
proof (induction arrivals arbitrary: acc)
  case Nil
  then have "length acc = need" by simp
  then show ?case by (simp add: receive_loop.simps)
next
  case (Cons c cs)
  have c: "c \<noteq> []" using Cons.prems(1) by auto
  show ?case
  proof (cases "length acc = need")
    case True
    then show ?thesis using Cons.prems(1) by (simp add: receive_loop.simps)
  next
    case short: False
    show ?thesis
    proof (cases "length c \<le> need - length acc")
      case True
      then have "receive_loop need clean acc (c # cs) = receive_loop need clean (acc @ c) cs"
        using short Cons.prems(2) c by (subst receive_loop.simps) simp
      then show ?thesis using Cons.IH[of "acc @ c"] Cons.prems True short by simp
    next
      case False
      then have "receive_loop need clean acc (c # cs) =
          Inr (drop (need - length acc) c # cs, Some (acc @ take (need - length acc) c))"
        using short Cons.prems(2) c by (subst receive_loop.simps) simp
      then show ?thesis using False Cons.prems by auto
    qed
  qed
qed

lemma unpack_pack: "n < 2 ^ 32 \<Longrightarrow> unpack_size (pack_size n) = n"
proof -
  assume n: "n < 2 ^ 32"
  have "of_char (char_of (k mod 256) :: char) = k mod 256" for k :: nat by (simp add: of_char_of)
  then have "unpack_size (pack_size n) = 256 * (256 * (256 * (n div 16777216 mod 256) + n div 65536 mod 256) + n div 256 mod 256) + n mod 256"
    by (simp add: unpack_size_def pack_size_def)
  also have "\<dots> = n"
  proof -
    have "n div 16777216 < 256" using n by (intro less_mult_imp_div_less) simp
    then have 3: "n div 16777216 mod 256 = n div 16777216" by simp
    have "n div 65536 div 256 = n div 16777216" "n div 256 div 256 = n div 65536" by (simp_all flip: div_mult2_eq)
    then show ?thesis
      unfolding 3 using mult_div_mod_eq[of 256 "n div 65536"] mult_div_mod_eq[of 256 "n div 256"] mult_div_mod_eq[of 256 n] by metis
  qed
  finally show ?thesis .
qed

text \<open>C26: Frames come through. A frame that \<open>send_frame\<close> writes is read back by \<open>receive_frame\<close> as the same bytes, however
  the network cuts it into pieces, and what follows the frame is still there.\<close>

theorem frame_round_trip:
  assumes "send_frame body = Inr frame" and "concat arrivals = frame @ tail" and "[] \<notin> set arrivals"
  shows "\<exists>rest. receive_frame arrivals = Inr (rest, Some body) \<and> concat rest = tail"
proof -
  have b: "1 \<le> length body" "length body \<le> MAX_MESSAGE_BYTES" "frame = pack_size (length body) @ body"
    using assms(1) by (auto simp: send_frame_def Suc_le_eq split: if_splits)
  have p: "length (pack_size (length body)) = 4" by (simp add: pack_size_def)
  have size: "unpack_size (pack_size (length body)) = length body"
    using b(2) by (intro unpack_pack) (simp add: MAX_MESSAGE_BYTES_def)
  obtain r1 where r1: "receive_exact 4 True arrivals = Inr (r1, Some (pack_size (length body)))" "concat r1 = body @ tail" "[] \<notin> set r1"
    using receive_loop_enough[OF assms(3), of "[]" 4 True] assms(2) b(3) p by (auto simp: receive_exact_def)
  obtain r2 where "receive_exact (length body) False r1 = Inr (r2, Some body)" "concat r2 = tail"
    using receive_loop_enough[OF r1(3), of "[]" "length body" False] r1(2) by (auto simp: receive_exact_def)
  then show ?thesis using r1(1) size b(1,2) by (simp add: receive_frame_def Let_def)
qed

theorem frame_round_trip_witness:
  "\<exists>rest. receive_frame [[char_of (0::nat), char_of (0::nat)], [char_of (0::nat)], [char_of (2::nat), CHR ''h''], ''i!'', ''x''] = Inr (rest, Some ''hi'') \<and>
     concat rest = ''!x''"
proof (rule frame_round_trip)
  show "send_frame ''hi'' = Inr (pack_size 2 @ ''hi'')" by (simp add: send_frame_def MAX_MESSAGE_BYTES_def numeral_2_eq_2)
qed (simp_all add: pack_size_def)

section \<open>Acknowledgements\<close>

definition plain_ascii :: "string \<Rightarrow> bool" where
  "plain_ascii s = (\<forall>c\<in>set s. (of_char c :: nat) < 127)"

lemma utf8_ok_ascii: "(\<forall>b\<in>set bs. b < 127) \<Longrightarrow> utf8_ok bs"
  by (induction bs) auto

lemma plain_ascii_valid: "plain_ascii s \<Longrightarrow> utf8_valid s"
  by (auto simp: plain_ascii_def utf8_valid_def intro!: utf8_ok_ascii)

lemma dumps_plain_ascii: "plain_ascii (json_dumps v) \<Longrightarrow> json_dumps_ascii v = json_dumps v"
proof -
  have "decode_bytes (map of_char s) = map of_char s" if "plain_ascii s" for s
    using that by (induction s) (auto simp: plain_ascii_def)
  then have "concat (map ascii_point (codepoints s)) = s" if "plain_ascii s" for s
    using that unfolding codepoints_def by (induction s) (simp_all add: plain_ascii_def ascii_point_def)
  then show "plain_ascii (json_dumps v) \<Longrightarrow> json_dumps_ascii v = json_dumps v" by (simp add: json_dumps_ascii_def)
qed

lemma ack_round_trip:
  assumes "encode_delivery_ack a = Inr b" "plain_ascii (json_dumps (ack_document a))"
  shows "decode_delivery_ack b (ack_message_id a) = Inr a"
proof -
  have st: "ack_status a \<in> set ack_statuses" and b: "b = json_dumps (ack_document a)"
    using assms dumps_plain_ascii by (auto simp: encode_delivery_ack_def res_simps)
  have "loads_bytes b = Some (canon (ack_document a))"
    using loads_bytes_dumps plain_ascii_valid[OF assms(2)] unfolding b ack_document_def by simp
  then show ?thesis
    using st by (cases a) (simp add: decode_delivery_ack_def ack_document_def map_of_canon is_object_def)
qed

text \<open>An acknowledgement whose status is an array makes the decoder raise \<open>TypeError\<close>, which is none of the errors its
  callers handle.\<close>

definition hostile_ack :: "string \<Rightarrow> string" where
  "hostile_ack mid = json_dumps (JObj [(''protocol'', JStr DELIVERY_ACK_PROTOCOL), (''message_id'', JStr mid), (''status'', JArr [])])"

lemma hostile_ack_raises:
  assumes "utf8_valid (hostile_ack mid)"
  shows "decode_delivery_ack (hostile_ack mid) mid = Inl (TypeError ''unhashable type'')"
proof -
  have "loads_bytes (hostile_ack mid) =
      Some (canon (JObj [(''protocol'', JStr DELIVERY_ACK_PROTOCOL), (''message_id'', JStr mid), (''status'', JArr [])]))"
    using loads_bytes_dumps assms unfolding hostile_ack_def by simp
  then show ?thesis by (simp add: decode_delivery_ack_def map_of_canon is_object_def)
qed

end
