(* ===== verification/Inbox.thy ===== *)
theory Inbox
  imports Outbox
begin

text \<open>
  \<open>delivery.py\<close>, class \<open>SqliteInbox\<close>: the durable queue of received messages. The table \<open>inbound_messages\<close> is the list
  of its rows in \<open>inbox_order\<close>. The worker threads are explicit steps: \<open>ix_claim\<close> takes a message for the
  handler, \<open>ix_finish\<close> records what the handler did. Waking and stopping threads changes no state.
  SHA-256 is the argument \<open>sha\<close>.
\<close>

section \<open>Rows\<close>

datatype inbox_status = IsStaged | IsReceived | IsProcessing | IsProcessed | IsFailed

record inbox_row =
  ir_order :: nat
  ir_message_id :: string
  ir_source_id :: string
  ir_session_id :: string
  ir_stream :: string
  ir_sequence :: int
  ir_priority :: int
  ir_envelope :: string
  ir_digest :: string
  ir_status :: inbox_status
  ir_error :: "string option"
  ir_received_at_ms :: int
  ir_updated_at_ms :: int

record inbox =
  ix_rows :: "inbox_row list"
  ix_next :: nat

record inbox_failure =
  if_message_id :: string
  if_source_id :: string
  if_session_id :: string
  if_sequence :: int
  if_error :: "string option"
  if_updated_at_ms :: int

definition inbox_empty :: inbox where
  "inbox_empty = \<lparr>ix_rows = [], ix_next = 1\<rparr>"

text \<open>Messages of one stream of one session of one source.\<close>

definition ir_key :: "inbox_row \<Rightarrow> string \<times> string \<times> string" where
  "ir_key r = (ir_source_id r, ir_session_id r, ir_stream r)"

definition env_key :: "envelope \<Rightarrow> string \<times> string \<times> string" where
  "env_key e = (source_id e, session_id e, env_stream e)"

section \<open>Opening\<close>

text \<open>What was being processed when the process stopped is received again.\<close>

definition inbox_open :: "int \<Rightarrow> inbox \<Rightarrow> inbox res" where
  "inbox_open workers ix =
     rbind (require (\<not> (workers < 1 \<or> workers > 64)) (ValueError ''inbox worker_count must be between 1 and 64'')) (\<lambda>_.
     Inr (ix\<lparr>ix_rows := upd_where (\<lambda>r. ir_status r = IsProcessing) (\<lambda>r. r\<lparr>ir_status := IsReceived\<rparr>) (ix_rows ix)\<rparr>))"

text \<open>A table from before streams: all rows become operational; the keys of that table imply those of the new one.\<close>

definition migrate_inbox_streams :: "inbox \<Rightarrow> inbox" where
  "migrate_inbox_streams ix =
     ix\<lparr>ix_rows := map (\<lambda>r. r\<lparr>ir_stream := OPERATIONAL_STREAM, ir_priority := 0\<rparr>) (ix_rows ix)\<rparr>"

section \<open>Operations\<close>

definition find_in :: "string \<Rightarrow> inbox_row list \<Rightarrow> inbox_row option" where
  "find_in mid rows = find (\<lambda>r. ir_message_id r = mid) rows"

definition ix_enqueue :: "(string \<Rightarrow> string) \<Rightarrow> envelope \<Rightarrow> int \<Rightarrow> bool \<Rightarrow> inbox \<Rightarrow> inbox \<times> bool res" where
  "ix_enqueue sha e now activated ix =
     (case encode_envelope e of
        Inl err \<Rightarrow> (ix, Inl err)
      | Inr body \<Rightarrow>
          (case find_in (message_id e) (ix_rows ix) of
             Some r \<Rightarrow>
               if ir_digest r \<noteq> sha body then (ix, Inl (InboxConflictError ''inbox message ID is bound to different content''))
               else (ix, Inr False)
           | None \<Rightarrow>
               (case rbind (sql_int (env_sequence e)) (\<lambda>_. rbind (sql_int now) (\<lambda>_.
                       require (\<forall>r\<in>set (ix_rows ix). \<not> (ir_key r = env_key e \<and> ir_sequence r = env_sequence e))
                         (IntegrityError ''UNIQUE constraint failed''))) of
                  Inl err \<Rightarrow> (ix, Inl err)
                | Inr _ \<Rightarrow>
                    (ix\<lparr>ix_rows := ix_rows ix @ [\<lparr>ir_order = ix_next ix, ir_message_id = message_id e,
                          ir_source_id = source_id e, ir_session_id = session_id e, ir_stream = env_stream e,
                          ir_sequence = env_sequence e, ir_priority = (if env_stream e = SAFETY_STREAM then 1 else 0),
                          ir_envelope = body, ir_digest = sha body, ir_status = (if activated then IsReceived else IsStaged),
                          ir_error = None, ir_received_at_ms = now, ir_updated_at_ms = now\<rparr>],
                        ix_next := Suc (ix_next ix)\<rparr>, Inr True))))"

definition ix_activate :: "string \<Rightarrow> int \<Rightarrow> inbox \<Rightarrow> inbox" where
  "ix_activate mid now ix = ix\<lparr>ix_rows := upd_where (\<lambda>r. ir_message_id r = mid \<and> ir_status r = IsStaged)
     (\<lambda>r. r\<lparr>ir_status := IsReceived, ir_updated_at_ms := now\<rparr>) (ix_rows ix)\<rparr>"

definition ix_discard_staged :: "string \<Rightarrow> inbox \<Rightarrow> inbox" where
  "ix_discard_staged mid ix = ix\<lparr>ix_rows := filter (\<lambda>r. \<not> (ir_message_id r = mid \<and> ir_status r = IsStaged)) (ix_rows ix)\<rparr>"

definition ix_contains_exact :: "(string \<Rightarrow> string) \<Rightarrow> envelope \<Rightarrow> inbox \<Rightarrow> bool res" where
  "ix_contains_exact sha e ix = rbind (encode_envelope e) (\<lambda>body.
     Inr (case find_in (message_id e) (ix_rows ix) of None \<Rightarrow> False | Some r \<Rightarrow> ir_digest r = sha body))"

definition ir_active :: "inbox_row \<Rightarrow> bool" where
  "ir_active r = (ir_status r = IsReceived \<or> ir_status r = IsProcessing)"

definition claimable :: "inbox_row list \<Rightarrow> inbox_row \<Rightarrow> bool" where
  "claimable rows r = (ir_status r = IsReceived \<and>
     (\<forall>q\<in>set rows. \<not> (ir_key q = ir_key r \<and> ir_order q < ir_order r \<and> ir_active q)))"

definition next_claim :: "inbox \<Rightarrow> inbox_row option" where
  "next_claim ix = (case sort_key (\<lambda>r. - ir_priority r) (filter (claimable (ix_rows ix)) (ix_rows ix)) of
     [] \<Rightarrow> None | r # _ \<Rightarrow> Some r)"

definition ix_claim :: "int \<Rightarrow> inbox \<Rightarrow> inbox \<times> envelope option res" where
  "ix_claim now ix = (case next_claim ix of
      None \<Rightarrow> (ix, Inr None)
    | Some r \<Rightarrow>
        (ix\<lparr>ix_rows := upd_where (\<lambda>q. ir_message_id q = ir_message_id r)
              (\<lambda>q. q\<lparr>ir_status := IsProcessing, ir_updated_at_ms := now\<rparr>) (ix_rows ix)\<rparr>,
         rbind (decode_envelope (ir_envelope r)) (\<lambda>e. Inr (Some e))))"

text \<open>The end of a turn of \<open>_worker\<close>: the handler returned, or raised an exception with this description.\<close>

definition ix_finish :: "string \<Rightarrow> string option \<Rightarrow> int \<Rightarrow> inbox \<Rightarrow> inbox" where
  "ix_finish mid err now ix = ix\<lparr>ix_rows := upd_where (\<lambda>r. ir_message_id r = mid)
     (\<lambda>r. r\<lparr>ir_status := (if err = None then IsProcessed else IsFailed), ir_error := map_option (take_chars 1024) err,
            ir_updated_at_ms := now\<rparr>) (ix_rows ix)\<rparr>"

definition inbox_statuses :: "inbox_status list" where
  "inbox_statuses = [IsFailed, IsProcessed, IsProcessing, IsReceived, IsStaged]"

definition ix_counts :: "inbox \<Rightarrow> (inbox_status \<times> nat) list" where
  "ix_counts ix = filter (\<lambda>(s, n). n > 0) (map (\<lambda>s. (s, length (filter (\<lambda>r. ir_status r = s) (ix_rows ix)))) inbox_statuses)"

definition ix_failures :: "int \<Rightarrow> inbox \<Rightarrow> inbox_failure list res" where
  "ix_failures limit ix =
     rbind (require (\<not> (limit < 1 \<or> limit > 10000)) (ValueError ''inbox failure limit must be between 1 and 10000'')) (\<lambda>_.
     Inr (map (\<lambda>r. \<lparr>if_message_id = ir_message_id r, if_source_id = ir_source_id r, if_session_id = ir_session_id r,
                     if_sequence = ir_sequence r, if_error = ir_error r, if_updated_at_ms = ir_updated_at_ms r\<rparr>)
       (take (nat limit) (sort_key (\<lambda>r. - ir_updated_at_ms r) (filter (\<lambda>r. ir_status r = IsFailed) (ix_rows ix))))))"

end
