(* ===== verification/Network_Server.thy ===== *)
theory Network_Server
  imports Network_Codec Inbox
begin

text \<open>
  \<open>network.py\<close>, classes \<open>TlsMessageServer\<close> and \<open>TlsMessageClient\<close>. The TLS library is what it reports: a connection that
  was accepted is a \<open>tls_session\<close> with the negotiated protocol, the certificate and the arriving bytes, where
  \<open>ts_answer\<close> may depend on what was written. The handler of the server is the argument \<open>handle\<close> on a
  local state of its own. A reading of the clock is \<open>clock i\<close>.
\<close>

section \<open>Server\<close>

datatype replay = MemoryReplay replay_memory | SqliteReplay replay_store

definition replay_accept :: "int \<Rightarrow> replay_key \<Rightarrow> int \<Rightarrow> replay \<Rightarrow> replay \<times> unit res" where
  "replay_accept now k n p = (case p of
      MemoryReplay m \<Rightarrow> (case rm_accept k n m of (m', r) \<Rightarrow> (MemoryReplay m', r))
    | SqliteReplay s \<Rightarrow> (case rs_accept now k n s of (s', r) \<Rightarrow> (SqliteReplay s', r)))"

record server =
  sv_inbox :: "inbox option"
  sv_replay :: replay
  sv_errors :: "error list"

definition server_init :: "string \<Rightarrow> int \<Rightarrow> inbox option \<Rightarrow> replay option \<Rightarrow> server res" where
  "server_init robot_id workers stored protector =
     rbind (require (robot_id \<noteq> []) (ValueError ''robot_id cannot be empty'')) (\<lambda>_.
     rbind (case stored of None \<Rightarrow> Inr None | Some ix \<Rightarrow> rbind (inbox_open workers ix) (\<lambda>ix'. Inr (Some ix'))) (\<lambda>ix.
     Inr \<lparr>sv_inbox = ix,
          sv_replay = (case protector of None \<Rightarrow> MemoryReplay \<lparr>rm_maximum = 4096, rm_sequences = []\<rparr> | Some p \<Rightarrow> p),
          sv_errors = []\<rparr>))"

record tls_session =
  ts_alpn :: "string option"
  ts_san :: "(string \<times> string) list"
  ts_der :: string
  ts_answer :: "string \<Rightarrow> string list"

definition TLS_ALPN :: string where "TLS_ALPN = ''ump/0.1''"

definition OSError :: error where
  "OSError = RuntimeError ''OSError''"

text \<open>The exceptions that are a \<open>ValueError\<close> or an \<open>OSError\<close>; \<open>PermissionError\<close> is one of the latter.\<close>

definition value_or_os_error :: "error \<Rightarrow> bool" where
  "value_or_os_error e = (e = OSError \<or> (case e of
      ValueError _ \<Rightarrow> True | AuthorizationError _ \<Rightarrow> True | AuthorityReadError _ \<Rightarrow> True | PlanValidationError _ \<Rightarrow> True
    | ProtocolDecodeError _ \<Rightarrow> True | NetworkProtocolError _ \<Rightarrow> True | PeerIdentityError _ \<Rightarrow> True | ReplayError _ \<Rightarrow> True
    | DeliveryAcknowledgementError _ \<Rightarrow> True | InspectorStoreError _ \<Rightarrow> True | CredentialError _ \<Rightarrow> True | _ \<Rightarrow> False))"

definition record_error :: "error \<Rightarrow> server \<Rightarrow> server" where
  "record_error e sv = (let es = sv_errors sv @ [e] in sv\<lparr>sv_errors := drop (length es - 1000) es\<rparr>)"

definition is_replay_error :: "error \<Rightarrow> bool" where
  "is_replay_error e = (case e of ReplayError _ \<Rightarrow> True | _ \<Rightarrow> False)"

text \<open>What is read from a connection before anything is stored: the checks of the peer and the decoded envelope.\<close>

definition receive_envelope :: "(string \<Rightarrow> string) \<Rightarrow> (string \<Rightarrow> bool) \<Rightarrow> tls_session \<Rightarrow> (string \<times> envelope) res" where
  "receive_envelope sha revoked c =
     rbind (require (ts_alpn c = Some TLS_ALPN) (NetworkProtocolError ''TLS peer did not negotiate the UMP ALPN'')) (\<lambda>_.
     rbind (certificate_robot_id (ts_san c)) (\<lambda>peer.
     rbind (certificate_sha256 sha (ts_der c)) (\<lambda>fp.
     rbind (require (\<not> revoked fp) (PeerIdentityError ''peer certificate is locally revoked'')) (\<lambda>_.
     rbind (receive_frame (ts_answer c [])) (\<lambda>(_, frame).
     case frame of
       None \<Rightarrow> Inl (NetworkProtocolError ''TLS connection contained no UMP frame'')
     | Some encoded \<Rightarrow>
         rbind (decode_envelope encoded) (\<lambda>e.
         rbind (require (source_id e = peer)
                  (PeerIdentityError ''envelope source does not match authenticated certificate identity'')) (\<lambda>_.
         Inr (peer, e))))))))"

text \<open>
  The three transactions of a connection: the envelope is staged in the inbox, its sequence number is accepted, and it
  is settled, that is activated or handled and acknowledged. Other connections, the workers or a crash may
  come between them.
\<close>

definition stage :: "(string \<Rightarrow> string) \<Rightarrow> int \<Rightarrow> envelope \<Rightarrow> server \<Rightarrow> server \<times> bool res" where
  "stage sha now e sv = (case sv_inbox sv of
      None \<Rightarrow> (sv, Inr False)
    | Some ix \<Rightarrow> (case ix_enqueue sha e now False ix of (ix', r) \<Rightarrow> (sv\<lparr>sv_inbox := Some ix'\<rparr>, r)))"

definition accept_sequence :: "int \<Rightarrow> string \<Rightarrow> envelope \<Rightarrow> server \<Rightarrow> server \<times> unit res" where
  "accept_sequence now peer e sv =
     (case replay_accept now (peer, session_id e, env_stream e) (env_sequence e) (sv_replay sv) of
        (p, r) \<Rightarrow> (sv\<lparr>sv_replay := p\<rparr>, r))"

definition in_inbox :: "(inbox \<Rightarrow> inbox) \<Rightarrow> server \<Rightarrow> server" where
  "in_inbox f sv = sv\<lparr>sv_inbox := map_option f (sv_inbox sv)\<rparr>"

definition stored_exactly :: "(string \<Rightarrow> string) \<Rightarrow> envelope \<Rightarrow> server \<Rightarrow> bool res" where
  "stored_exactly sha e sv = (case sv_inbox sv of None \<Rightarrow> Inr False | Some ix \<Rightarrow> ix_contains_exact sha e ix)"

definition send_ack :: "(string \<Rightarrow> unit res) \<Rightarrow> envelope \<Rightarrow> string \<Rightarrow> string list \<times> unit res" where
  "send_ack write e status =
     (case rbind (encode_delivery_ack \<lparr>ack_message_id = message_id e, ack_status = status\<rparr>) send_frame of
        Inl err \<Rightarrow> ([], Inl err)
      | Inr frame \<Rightarrow> ([frame], write frame))"

type_synonym 'l local_handler = "envelope \<Rightarrow> 'l \<Rightarrow> 'l \<times> unit res"

definition settle ::
  "(string \<Rightarrow> string) \<Rightarrow> 'l local_handler \<Rightarrow> (string \<Rightarrow> unit res) \<Rightarrow> int \<Rightarrow> envelope \<Rightarrow> bool \<Rightarrow> unit res \<Rightarrow>
    server \<times> 'l \<Rightarrow> (server \<times> 'l) \<times> string list \<times> unit res" where
  "settle sha handle write now e is_new accepted_seq s = (case s of (sv, l) \<Rightarrow>
     (case accepted_seq of
        Inl err \<Rightarrow>
          if \<not> is_replay_error err then (s, [], Inl err)
          else (case (if is_new then Inr False else stored_exactly sha e sv) of
             Inl err' \<Rightarrow> (s, [], Inl err')
           | Inr True \<Rightarrow> ((in_inbox (ix_activate (message_id e) now) sv, l), send_ack write e ''duplicate'')
           | Inr False \<Rightarrow>
               ((if is_new then in_inbox (ix_discard_staged (message_id e)) sv else sv, l), [], Inl err))
      | Inr _ \<Rightarrow>
          (if sv_inbox sv \<noteq> None then
             ((in_inbox (ix_activate (message_id e) now) sv, l),
              send_ack write e (if is_new then ''received'' else ''duplicate''))
           else (case handle e l of
               (l', Inl err) \<Rightarrow> ((sv, l'), [], Inl err)
             | (l', Inr _) \<Rightarrow> ((sv, l'), send_ack write e ''processed'')))))"

text \<open>The body of \<open>_handle_connection\<close> inside its \<open>try\<close>, then the handler of the exceptions.\<close>

definition connection_body ::
  "(string \<Rightarrow> string) \<Rightarrow> (string \<Rightarrow> bool) \<Rightarrow> 'l local_handler \<Rightarrow> (string \<Rightarrow> unit res) \<Rightarrow> (nat \<Rightarrow> int) \<Rightarrow> tls_session \<Rightarrow>
    server \<times> 'l \<Rightarrow> (server \<times> 'l) \<times> string list \<times> unit res" where
  "connection_body sha revoked handle write clock c s = (case s of (sv, l) \<Rightarrow>
     (case receive_envelope sha revoked c of
        Inl err \<Rightarrow> (s, [], Inl err)
      | Inr (peer, e) \<Rightarrow>
          (case stage sha (clock 0) e sv of
             (sv1, Inl err) \<Rightarrow> ((sv1, l), [], Inl err)
           | (sv1, Inr is_new) \<Rightarrow>
               (case accept_sequence (clock 1) peer e sv1 of
                  (sv2, r) \<Rightarrow> settle sha handle write (clock 2) e is_new r (sv2, l)))))"

definition handle_connection ::
  "(string \<Rightarrow> string) \<Rightarrow> (string \<Rightarrow> bool) \<Rightarrow> 'l local_handler \<Rightarrow> (string \<Rightarrow> unit res) \<Rightarrow> (nat \<Rightarrow> int) \<Rightarrow> tls_session \<Rightarrow>
    server \<times> 'l \<Rightarrow> (server \<times> 'l) \<times> string list \<times> unit res" where
  "handle_connection sha revoked handle write clock c s =
     (case connection_body sha revoked handle write clock c s of
        ((sv, l), out, Inl err) \<Rightarrow>
          (if value_or_os_error err then ((record_error err sv, l), out, Inr ()) else ((sv, l), out, Inl err))
      | (s', out, Inr _) \<Rightarrow> (s', out, Inr ()))"

definition server_inbox_counts :: "server \<Rightarrow> (inbox_status \<times> nat) list" where
  "server_inbox_counts sv = (case sv_inbox sv of None \<Rightarrow> [] | Some ix \<Rightarrow> ix_counts ix)"

definition server_inbox_failures :: "int \<Rightarrow> server \<Rightarrow> inbox_failure list res" where
  "server_inbox_failures limit sv = (case sv_inbox sv of None \<Rightarrow> Inr [] | Some ix \<Rightarrow> ix_failures limit ix)"

section \<open>Client\<close>

text \<open>\<open>TlsMessageClient.send\<close>: \<open>connect\<close> gives the TLS session with the peer, or the \<open>OSError\<close> of connecting.\<close>

definition client_init :: "string \<Rightarrow> string res" where
  "client_init robot_id = rbind (require (robot_id \<noteq> []) (ValueError ''robot_id cannot be empty'')) (\<lambda>_. Inr robot_id)"

definition no_ack_error :: error where
  "no_ack_error = DeliveryAcknowledgementError ''peer closed without a delivery acknowledgement''"

definition client_send ::
  "(string \<Rightarrow> string) \<Rightarrow> (string \<Rightarrow> bool) \<Rightarrow> string \<Rightarrow> (string \<Rightarrow> int \<Rightarrow> tls_session res) \<Rightarrow> string \<Rightarrow> int \<Rightarrow> string \<Rightarrow> envelope \<Rightarrow>
    string option \<Rightarrow> delivery_ack res" where
  "client_send sha revoked robot_id connect host port expected e fingerprint =
     rbind (require (source_id e = robot_id) (PeerIdentityError ''outbound envelope source does not match local identity'')) (\<lambda>_.
     rbind (encode_envelope e) (\<lambda>encoded.
     rbind (connect host port) (\<lambda>c.
     rbind (require (ts_alpn c = Some TLS_ALPN) (NetworkProtocolError ''TLS peer did not negotiate the UMP ALPN'')) (\<lambda>_.
     rbind (certificate_robot_id (ts_san c)) (\<lambda>actual.
     rbind (require (actual = expected) (PeerIdentityError ''expected another peer'')) (\<lambda>_.
     rbind (certificate_sha256 sha (ts_der c)) (\<lambda>fp.
     rbind (require (\<not> revoked fp) (PeerIdentityError ''peer certificate is locally revoked'')) (\<lambda>_.
     rbind (require (case fingerprint of None \<Rightarrow> True | Some f \<Rightarrow> fp = map to_lower f)
              (PeerIdentityError ''peer certificate fingerprint does not match discovery hint'')) (\<lambda>_.
     rbind (send_frame encoded) (\<lambda>frame.
     rbind (receive_frame (ts_answer c frame)) (\<lambda>(_, answer).
     case answer of
       None \<Rightarrow> Inl no_ack_error
     | Some a \<Rightarrow> decode_delivery_ack a (message_id e))))))))))))"

end
