(* ===== verification/Network_Bus.thy ===== *)
theory Network_Bus
  imports Network_Server "HOL-Library.AList"
begin

text \<open>
  \<open>network.py\<close>, class \<open>TlsNetworkBus\<close>: the bus of a robot on the network. It discloses to every peer what its
  policy allows, keeps it in the outbox, publishes to the local subscribers and sends what is ready. \<open>send k\<close> is what
  the client answers the \<open>k\<close>th time it is called, and \<open>call\<close> what the local handlers answer; the effects are
  the envelopes given to the client and the calls of handlers with the canonical envelope, in order. The text that an exception
  gives \<open>last_error\<close> is \<open>describe\<close>.
\<close>

record 'h network_bus =
  nb_robot_id :: string
  nb_peers :: "(string \<times> peer_endpoint) list"
  nb_local :: "'h bus"
  nb_outbox :: "outbox option"
  nb_delivery_errors :: "(peer_endpoint \<times> error) list"
  nb_attempts :: nat
  nb_server :: server

datatype 'h network_effect = NbSent peer_endpoint envelope | NbCalled 'h envelope | NbAcked string

type_synonym sender = "nat \<Rightarrow> peer_endpoint \<Rightarrow> envelope \<Rightarrow> delivery_ack res"
type_synonym 'h nb_run = "'h network_bus \<times> 'h network_effect list \<times> unit res"

section \<open>Peers\<close>

definition add_peer :: "peer_endpoint \<Rightarrow> 'h network_bus \<Rightarrow> 'h network_bus res" where
  "add_peer p nb =
     (if pe_robot_id p = nb_robot_id nb then Inl (ValueError ''cannot add the local robot as a network peer'')
      else Inr (nb\<lparr>nb_peers := AList.update (pe_robot_id p) p (nb_peers nb)\<rparr>))"

definition remove_peer :: "string \<Rightarrow> 'h network_bus \<Rightarrow> 'h network_bus" where
  "remove_peer rid nb = nb\<lparr>nb_peers := AList.delete rid (nb_peers nb)\<rparr>"

text \<open>\<open>observed_host or announcement.host\<close>; the port of an announcement may be any number, an endpoint takes only an
  \<open>int\<close>.\<close>

definition add_discovery_hint :: "discovery \<Rightarrow> string option \<Rightarrow> 'h network_bus \<Rightarrow> 'h network_bus res" where
  "add_discovery_hint d observed nb =
     rbind (typed (ValueError ''invalid UMP peer endpoint'') (as_int (da_port d))) (\<lambda>port.
     rbind (post_init_endpoint \<lparr>pe_robot_id = da_robot_id d,
              pe_host = (case observed of None \<Rightarrow> da_host d | Some h \<Rightarrow> if h = [] then da_host d else h),
              pe_port = port, pe_certificate_sha256 = Some (da_certificate_sha256 d),
              pe_allowed_message_types = [], pe_allowed_capabilities = []\<rparr>) (\<lambda>p.
     add_peer p nb))"

definition nb_init :: "string \<Rightarrow> outbox option \<Rightarrow> server \<Rightarrow> 'h network_bus" where
  "nb_init rid ob sv = \<lparr>nb_robot_id = rid, nb_peers = [], nb_local = bus_empty, nb_outbox = ob, nb_delivery_errors = [],
     nb_attempts = 0, nb_server = sv\<rparr>"

text \<open>\<open>from_config\<close> on the tables it finds in the three database files.\<close>

fun add_peers :: "peer_endpoint list \<Rightarrow> 'h network_bus \<Rightarrow> 'h network_bus res" where
  "add_peers [] nb = Inr nb"
| "add_peers (p # ps) nb = rbind (add_peer p nb) (add_peers ps)"

definition from_config :: "network_config \<Rightarrow> inbox \<Rightarrow> replay_store \<Rightarrow> outbox_row list \<Rightarrow> nat \<Rightarrow> bool \<Rightarrow> 'h network_bus res" where
  "from_config cfg ix rs rows nx unique_ids =
     rbind (outbox_open (nc_maximum_pending cfg) (Some (nc_reserved_safety cfg)) rows nx unique_ids) (\<lambda>ob.
     rbind (client_init (nc_robot_id cfg)) (\<lambda>rid.
     rbind (server_init rid 4 (Some ix) (Some (SqliteReplay rs))) (\<lambda>sv.
     add_peers (nc_peers cfg) (nb_init rid (Some ob) sv))))"

section \<open>Disclosure\<close>

text \<open>\<open>capability.get("name") in allowed\<close>, for a set of strings.\<close>

definition capability_allowed :: "string list \<Rightarrow> json \<Rightarrow> bool res" where
  "capability_allowed allowed c =
     rbind (jget c ''name'' JNull) (\<lambda>n. case n of
        JStr s \<Rightarrow> Inr (s \<in> set allowed)
      | JArr _ \<Rightarrow> Inl (TypeError ''unhashable type'')
      | JObj _ \<Rightarrow> Inl (TypeError ''unhashable type'')
      | _ \<Rightarrow> Inr False)"

fun keep_allowed :: "string list \<Rightarrow> json list \<Rightarrow> json list res" where
  "keep_allowed allowed [] = Inr []"
| "keep_allowed allowed (c # cs) =
     rbind (capability_allowed allowed c) (\<lambda>b.
     rbind (keep_allowed allowed cs) (\<lambda>rest. Inr (if b then c # rest else rest)))"

definition set_member :: "string \<Rightarrow> json \<Rightarrow> json \<Rightarrow> json" where
  "set_member k v d = (case d of JObj kvs \<Rightarrow> JObj (dict_set k v kvs) | _ \<Rightarrow> d)"

definition disclose :: "peer_endpoint \<Rightarrow> envelope \<Rightarrow> envelope option res" where
  "disclose p e =
     (if message_type e \<notin> set (pe_allowed_message_types p) then Inr None
      else if message_type e \<noteq> ''manifest'' then Inr (Some e)
      else rbind (jget (env_payload e) ''capabilities'' (JArr [])) (\<lambda>v.
           rbind (py_iter v) (\<lambda>caps.
           rbind (keep_allowed (pe_allowed_capabilities p) caps) (\<lambda>kept.
           Inr (Some (e\<lparr>env_payload := set_member ''capabilities'' (JArr kept) (env_payload e)\<rparr>))))))"

fun disclosures :: "peer_endpoint list \<Rightarrow> envelope \<Rightarrow> (peer_endpoint \<times> envelope) list res" where
  "disclosures [] e = Inr []"
| "disclosures (p # ps) e =
     rbind (disclose p e) (\<lambda>d.
     rbind (disclosures ps e) (\<lambda>rest. Inr (case d of None \<Rightarrow> rest | Some e' \<Rightarrow> (p, e') # rest)))"

section \<open>Sending what is ready\<close>

text \<open>\<open>except (OSError, ssl.SSLError, NetworkProtocolError)\<close>: the three subclasses of the last as well.\<close>

definition send_caught :: "error \<Rightarrow> bool" where
  "send_caught e = (e = OSError \<or> (case e of
      NetworkProtocolError _ \<Rightarrow> True | PeerIdentityError _ \<Rightarrow> True | ReplayError _ \<Rightarrow> True
    | DeliveryAcknowledgementError _ \<Rightarrow> True | AuthorizationError _ \<Rightarrow> True | _ \<Rightarrow> False))"

definition record_delivery_error :: "peer_endpoint \<Rightarrow> error \<Rightarrow> 'h network_bus \<Rightarrow> 'h network_bus" where
  "record_delivery_error p err nb =
     (let es = nb_delivery_errors nb @ [(p, err)] in nb\<lparr>nb_delivery_errors := drop (length es - 1000) es\<rparr>)"

text \<open>A call of a method of \<open>self._outbox\<close>.\<close>

definition outbox_call :: "(outbox \<Rightarrow> outbox \<times> unit res) \<Rightarrow> 'h network_bus \<Rightarrow> 'h network_bus \<times> unit res" where
  "outbox_call f nb = (case nb_outbox nb of
      None \<Rightarrow> (nb, Inl (AttributeError ''outbox''))
    | Some ob \<Rightarrow> (case f ob of (ob', r) \<Rightarrow> (nb\<lparr>nb_outbox := Some ob'\<rparr>, r)))"

definition mark_failed :: "pending_delivery \<Rightarrow> string \<Rightarrow> int \<Rightarrow> 'h network_bus \<Rightarrow> 'h network_bus \<times> unit res" where
  "mark_failed item text now nb =
     outbox_call (failed (pd_peer_id item) (message_id (pd_envelope item)) text now 250 30000) nb"

text \<open>One item of a round: whether it was delivered.\<close>

definition deliver_item :: "(error \<Rightarrow> string) \<Rightarrow> sender \<Rightarrow> int \<Rightarrow> pending_delivery \<Rightarrow> 'h network_bus \<Rightarrow>
    'h network_bus \<times> 'h network_effect list \<times> bool res" where
  "deliver_item describe send now item nb =
     (case map_of (nb_peers nb) (pd_peer_id item) of
        None \<Rightarrow>
          (case mark_failed item (''outbox peer is not configured: '' @ pd_peer_id item) now nb of
             (nb1, r) \<Rightarrow> (nb1, [], rbind r (\<lambda>_. Inr False)))
      | Some p \<Rightarrow>
          (let k = nb_attempts nb; nb1 = nb\<lparr>nb_attempts := Suc k\<rparr>; out = [NbSent p (pd_envelope item)] in
           case send k p (pd_envelope item) of
             Inl err \<Rightarrow>
               if send_caught err
               then (case mark_failed item (describe err) now nb1 of
                   (nb2, Inl e) \<Rightarrow> (nb2, out, Inl e)
                 | (nb2, Inr _) \<Rightarrow> (record_delivery_error p err nb2, out, Inr False))
               else (nb1, out, Inl err)
           | Inr _ \<Rightarrow>
               (case outbox_call (delivered (pd_peer_id item) (message_id (pd_envelope item)) now) nb1 of
                  (nb2, r) \<Rightarrow> (nb2, out, rbind r (\<lambda>_. Inr True)))))"

fun deliver_items :: "(error \<Rightarrow> string) \<Rightarrow> sender \<Rightarrow> int \<Rightarrow> pending_delivery list \<Rightarrow> 'h network_bus \<Rightarrow>
    'h network_bus \<times> 'h network_effect list \<times> nat res" where
  "deliver_items describe send now [] nb = (nb, [], Inr 0)"
| "deliver_items describe send now (i # items) nb =
     (case deliver_item describe send now i nb of
        (nb1, out1, Inl err) \<Rightarrow> (nb1, out1, Inl err)
      | (nb1, out1, Inr b) \<Rightarrow>
          (case deliver_items describe send now items nb1 of
             (nb2, out2, Inl err) \<Rightarrow> (nb2, out1 @ out2, Inl err)
           | (nb2, out2, Inr n) \<Rightarrow> (nb2, out1 @ out2, Inr (if b then Suc n else n))))"

text \<open>The loop of \<open>flush\<close> for one stream. A round that delivers nothing ends it, so every other round lessens what
  is left to the limit.\<close>

function flush_loop :: "(error \<Rightarrow> string) \<Rightarrow> sender \<Rightarrow> int \<Rightarrow> int \<Rightarrow> string \<Rightarrow> int \<Rightarrow> 'h network_bus \<Rightarrow>
    'h network_bus \<times> 'h network_effect list \<times> int res" where
  "flush_loop describe send now limit strm sent nb =
     (if \<not> sent < limit then (nb, [], Inr sent)
      else (case nb_outbox nb of
          None \<Rightarrow> (nb, [], Inl (AttributeError ''ready''))
        | Some ob \<Rightarrow>
            (case ready now (limit - sent) (Some strm) ob of
               Inl err \<Rightarrow> (nb, [], Inl err)
             | Inr items \<Rightarrow>
                 if items = [] then (nb, [], Inr sent)
                 else (case deliver_items describe send now items nb of
                     (nb1, out1, Inl err) \<Rightarrow> (nb1, out1, Inl err)
                   | (nb1, out1, Inr n) \<Rightarrow>
                       if n = 0 then (nb1, out1, Inr sent)
                       else (case flush_loop describe send now limit strm (sent + int n) nb1 of
                           (nb2, out2, r) \<Rightarrow> (nb2, out1 @ out2, r))))))"
  by pat_completeness auto
termination by (relation "measure (\<lambda>(describe, send, now, limit, strm, sent, nb). nat (limit - sent))") auto

declare flush_loop.simps [simp del]

definition flush_stream :: "(error \<Rightarrow> string) \<Rightarrow> sender \<Rightarrow> int \<Rightarrow> int \<Rightarrow> string \<Rightarrow> 'h network_bus \<Rightarrow>
    'h network_bus \<times> 'h network_effect list \<times> int res" where
  "flush_stream describe send now limit strm nb =
     (if nb_outbox nb = None then (nb, [], Inr 0)
      else if strm \<notin> set STREAMS then (nb, [], Inl (ValueError ''unknown delivery stream''))
      else flush_loop describe send now limit strm 0 nb)"

definition flush :: "(error \<Rightarrow> string) \<Rightarrow> sender \<Rightarrow> int \<Rightarrow> int \<Rightarrow> string option \<Rightarrow> 'h network_bus \<Rightarrow>
    'h network_bus \<times> 'h network_effect list \<times> int res" where
  "flush describe send now limit strm nb =
     (if nb_outbox nb = None then (nb, [], Inr 0)
      else (case strm of
          Some s \<Rightarrow> flush_stream describe send now limit s nb
        | None \<Rightarrow>
            (case flush_stream describe send now limit SAFETY_STREAM nb of
               (nb1, out1, Inl err) \<Rightarrow> (nb1, out1, Inl err)
             | (nb1, out1, Inr safety) \<Rightarrow>
                 if safety \<ge> limit then (nb1, out1, Inr safety)
                 else (case flush_stream describe send now (limit - safety) OPERATIONAL_STREAM nb1 of
                     (nb2, out2, Inl err) \<Rightarrow> (nb2, out1 @ out2, Inl err)
                   | (nb2, out2, Inr n) \<Rightarrow> (nb2, out1 @ out2, Inr (safety + n))))))"

text \<open>One turn of \<open>_retry_loop\<close>; an exception ends the thread.\<close>

definition retry_turn :: "(error \<Rightarrow> string) \<Rightarrow> sender \<Rightarrow> int \<Rightarrow> int \<Rightarrow> 'h network_bus \<Rightarrow> 'h nb_run" where
  "retry_turn describe send now1 now2 nb =
     (case flush describe send now1 256 (Some SAFETY_STREAM) nb of
        (nb1, out1, Inl err) \<Rightarrow> (nb1, out1, Inl err)
      | (nb1, out1, Inr _) \<Rightarrow>
          (case flush describe send now2 256 (Some OPERATIONAL_STREAM) nb1 of
             (nb2, out2, r) \<Rightarrow> (nb2, out1 @ out2, rbind r (\<lambda>_. Inr ()))))"

section \<open>Publishing\<close>

text \<open>Without an outbox the disclosures are sent at once, one after the other.\<close>

fun send_all :: "sender \<Rightarrow> (peer_endpoint \<times> envelope) list \<Rightarrow> 'h network_bus \<Rightarrow> 'h nb_run" where
  "send_all send [] nb = (nb, [], Inr ())"
| "send_all send ((p, e) # ds) nb =
     (let k = nb_attempts nb; nb1 = nb\<lparr>nb_attempts := Suc k\<rparr> in
      case send k p e of
        Inl err \<Rightarrow>
          if send_caught err
          then (case send_all send ds (record_delivery_error p err nb1) of (nb2, out, r) \<Rightarrow> (nb2, NbSent p e # out, r))
          else (nb1, [NbSent p e], Inl err)
      | Inr _ \<Rightarrow> (case send_all send ds nb1 of (nb2, out, r) \<Rightarrow> (nb2, NbSent p e # out, r)))"

definition store_disclosures :: "int \<Rightarrow> (peer_endpoint \<times> envelope) list \<Rightarrow> 'h network_bus \<Rightarrow> 'h network_bus \<times> unit res" where
  "store_disclosures now ds nb = (case nb_outbox nb of
      None \<Rightarrow> (nb, Inr ())
    | Some ob \<Rightarrow> (case enqueue_many (map (\<lambda>(p, e). (pe_robot_id p, e)) ds) now ob of
         (ob', r) \<Rightarrow> (nb\<lparr>nb_outbox := Some ob'\<rparr>, r)))"

definition publish_locally :: "('h \<Rightarrow> envelope \<Rightarrow> unit res) \<Rightarrow> envelope \<Rightarrow> 'h network_bus \<Rightarrow> 'h nb_run" where
  "publish_locally call e nb = (case bus_publish call e (nb_local nb) of
      (b, called, r) \<Rightarrow> (nb\<lparr>nb_local := b\<rparr>, map (\<lambda>h. NbCalled h (last (bus_trace b))) called, r))"

definition nb_publish :: "(error \<Rightarrow> string) \<Rightarrow> sender \<Rightarrow> ('h \<Rightarrow> envelope \<Rightarrow> unit res) \<Rightarrow> int \<Rightarrow> int \<Rightarrow> envelope \<Rightarrow>
    'h network_bus \<Rightarrow> 'h nb_run" where
  "nb_publish describe send call now1 now2 e nb =
     (if source_id e \<noteq> nb_robot_id nb
      then (nb, [], Inl (PeerIdentityError ''local bus may publish only the configured robot identity''))
      else (case disclosures (map snd (nb_peers nb)) e of
          Inl err \<Rightarrow> (nb, [], Inl err)
        | Inr ds \<Rightarrow>
            (case store_disclosures now1 ds nb of
               (nb1, Inl err) \<Rightarrow> (nb1, [], Inl err)
             | (nb1, Inr _) \<Rightarrow>
                 (case publish_locally call e nb1 of
                    (nb2, out1, Inl err) \<Rightarrow> (nb2, out1, Inl err)
                  | (nb2, out1, Inr _) \<Rightarrow>
                      (if nb_outbox nb2 \<noteq> None then
                         (case flush describe send now2 256 (Some (env_stream e)) nb2 of
                            (nb3, out2, r) \<Rightarrow> (nb3, out1 @ out2, rbind r (\<lambda>_. Inr ())))
                       else (case send_all send ds nb2 of (nb3, out2, r) \<Rightarrow> (nb3, out1 @ out2, r)))))))"

section \<open>Receiving\<close>

type_synonym 'h local_state = "'h bus \<times> 'h network_effect list"

text \<open>\<open>_receive_authenticated\<close>, the handler that the bus gives its server.\<close>

definition receive_authenticated :: "string \<Rightarrow> ('h \<Rightarrow> envelope \<Rightarrow> unit res) \<Rightarrow> 'h local_state local_handler" where
  "receive_authenticated rid call e l = (case l of (b, out) \<Rightarrow>
     (if source_id e = rid then (l, Inl (PeerIdentityError ''remote connection claimed the local robot identity''))
      else (case bus_publish call e b of (b', called, r) \<Rightarrow> ((b', out @ map (\<lambda>h. NbCalled h (last (bus_trace b'))) called), r))))"

definition nb_connection :: "(string \<Rightarrow> string) \<Rightarrow> (string \<Rightarrow> bool) \<Rightarrow> ('h \<Rightarrow> envelope \<Rightarrow> unit res) \<Rightarrow> (string \<Rightarrow> unit res) \<Rightarrow>
    (nat \<Rightarrow> int) \<Rightarrow> tls_session \<Rightarrow> 'h network_bus \<Rightarrow> 'h nb_run" where
  "nb_connection sha revoked call write clock c nb =
     (case handle_connection sha revoked (receive_authenticated (nb_robot_id nb) call) write clock c
             (nb_server nb, (nb_local nb, [])) of
        ((sv, (b, out)), acks, r) \<Rightarrow> (nb\<lparr>nb_server := sv, nb_local := b\<rparr>, out @ map NbAcked acks, r))"

text \<open>A worker of the inbox: it claims a message, then gives it to the handler and records what that did.\<close>

definition worker_claim :: "int \<Rightarrow> 'h network_bus \<Rightarrow> 'h network_bus \<times> envelope option res" where
  "worker_claim now nb = (case sv_inbox (nb_server nb) of
      None \<Rightarrow> (nb, Inr None)
    | Some ix \<Rightarrow> (case ix_claim now ix of (ix', r) \<Rightarrow> (nb\<lparr>nb_server := (nb_server nb)\<lparr>sv_inbox := Some ix'\<rparr>\<rparr>, r)))"

definition worker_handle :: "(error \<Rightarrow> string) \<Rightarrow> ('h \<Rightarrow> envelope \<Rightarrow> unit res) \<Rightarrow> int \<Rightarrow> envelope \<Rightarrow> 'h network_bus \<Rightarrow> 'h nb_run" where
  "worker_handle describe call now e nb =
     (case receive_authenticated (nb_robot_id nb) call e (nb_local nb, []) of
        ((b, out), r) \<Rightarrow>
          (nb\<lparr>nb_local := b, nb_server := in_inbox (ix_finish (message_id e)
                (case r of Inl err \<Rightarrow> Some (describe err) | Inr _ \<Rightarrow> None) now) (nb_server nb)\<rparr>, out, Inr ()))"

section \<open>Reading\<close>

definition nb_errors :: "'h network_bus \<Rightarrow> error list" where
  "nb_errors nb = sv_errors (nb_server nb) @ map snd (nb_delivery_errors nb)"

definition nb_metrics :: "'h network_bus \<Rightarrow> delivery_metrics" where
  "nb_metrics nb = (case nb_outbox nb of
      None \<Rightarrow> \<lparr>dm_pending = 0, dm_delivered = 0, dm_failed_attempts = int (length (nb_delivery_errors nb))\<rparr>
    | Some ob \<Rightarrow> ob_metrics ob)"

text \<open>The client of the bus, as the \<open>send\<close> that the operations take.\<close>

definition bus_client :: "(string \<Rightarrow> string) \<Rightarrow> (string \<Rightarrow> bool) \<Rightarrow> string \<Rightarrow> (nat \<Rightarrow> string \<Rightarrow> int \<Rightarrow> tls_session res) \<Rightarrow> sender" where
  "bus_client sha revoked rid connect k p e =
     client_send sha revoked rid (connect k) (pe_host p) (pe_port p) (pe_robot_id p) e (pe_certificate_sha256 p)"

end
