(* ===== verification/Outbox_Runs.thy ===== *)
theory Outbox_Runs
  imports Outbox
begin

text \<open>
  The outbox over any history of calls: its capacity with the reserve for safety messages, the order in which it
  offers messages, the delays of retries, and what a call of \<open>enqueue_many\<close> does to the table.
\<close>

section \<open>Enqueuing\<close>

definition row_key :: "outbox_row \<Rightarrow> string \<times> string" where
  "row_key r = (or_peer_id r, or_message_id r)"

lemma find_out_key: "find_out (fst k) (snd k) rows = find (\<lambda>r. row_key r = k) rows"
  by (cases k) (simp add: find_out_def row_key_def)

lemma find_out_None: "find_out (fst k) (snd k) rows = None \<longleftrightarrow> k \<notin> row_key ` set rows"
  by (simp add: find_out_key find_key_None_iff)

lemma insert_diff: "k \<notin> B \<Longrightarrow> k \<notin> C \<Longrightarrow> insert k (A - B - insert k C) = insert k A - B - C"
  by blast

lemma insert_diff_in: "k \<in> B \<or> k \<in> C \<Longrightarrow> insert k A - B - C = A - B - C"
  by blast

text \<open>What the collecting loop returns: each new key once, in the order of first occurrence.\<close>

lemma new_items_spec:
  assumes "new_items rows seen new xs = Inr res"
  shows "\<exists>zs. res = new @ zs \<and> set zs \<subseteq> set xs \<and>
    item_key ` set zs = item_key ` set xs - row_key ` set rows - item_key ` set new \<and>
    (distinct (map item_key new) \<longrightarrow> distinct (map item_key res)) \<and>
    (\<forall>x\<in>set xs. \<forall>r. find_out (fst (item_key x)) (snd (item_key x)) rows = Some r \<longrightarrow> or_envelope r = snd (snd x)) \<and>
    (\<forall>x\<in>set xs. seen (item_key x) = None \<or> seen (item_key x) = Some (snd (snd x))) \<and>
    (\<forall>x\<in>set xs. \<forall>y\<in>set xs. item_key x = item_key y \<longrightarrow> snd (snd x) = snd (snd y))"
  using assms
proof (induction xs arbitrary: seen new)
  case (Cons x xs)
  let ?k = "item_key x" and ?seen = "seen(item_key x \<mapsto> snd (snd x))"
  have seen: "seen ?k = None \<or> seen ?k = Some (snd (snd x))" using Cons.prems by (auto simp: Let_def split: if_splits)
  have step: "(\<forall>y\<in>set (x # xs). seen (item_key y) = None \<or> seen (item_key y) = Some (snd (snd y))) \<and>
      (\<forall>y\<in>set (x # xs). \<forall>z\<in>set (x # xs). item_key y = item_key z \<longrightarrow> snd (snd y) = snd (snd z))"
    if run: "new_items rows ?seen new' xs = Inr res" for new'
  proof -
    have 1: "\<forall>y\<in>set xs. ?seen (item_key y) = None \<or> ?seen (item_key y) = Some (snd (snd y))"
      and 2: "\<forall>y\<in>set xs. \<forall>z\<in>set xs. item_key y = item_key z \<longrightarrow> snd (snd y) = snd (snd z)"
      using Cons.IH[OF run] by blast+
    have A: "snd (snd y) = snd (snd x)" if "y \<in> set xs" "item_key y = ?k" for y using 1 that by auto
    have B: "seen (item_key y) = None \<or> seen (item_key y) = Some (snd (snd y))" if "y \<in> set xs" for y
      using 1 A[OF that] that seen by (cases "item_key y = ?k") (simp, metis fun_upd_other)
    show ?thesis
    proof (intro conjI ballI impI)
      fix y assume "y \<in> set (x # xs)"
      then show "seen (item_key y) = None \<or> seen (item_key y) = Some (snd (snd y))" using B seen by (metis set_ConsD)
    next
      fix y z assume "y \<in> set (x # xs)" "z \<in> set (x # xs)" "item_key y = item_key z"
      then show "snd (snd y) = snd (snd z)" using A 2 by (metis set_ConsD)
    qed
  qed
  show ?case
  proof (cases "find_out (fst ?k) (snd ?k) rows")
    case (Some r)
    then have run: "new_items rows ?seen new xs = Inr res" and body: "or_envelope r = snd (snd x)"
      using Cons.prems by (auto simp: Let_def split: if_splits)
    have "?k \<in> row_key ` set rows" using Some find_out_None[of ?k rows] by auto
    obtain zs where zs: "res = new @ zs" "set zs \<subseteq> set xs" "item_key ` set zs = item_key ` set xs - row_key ` set rows - item_key ` set new"
        "distinct (map item_key new) \<longrightarrow> distinct (map item_key res)"
        "\<forall>x\<in>set xs. \<forall>r. find_out (fst (item_key x)) (snd (item_key x)) rows = Some r \<longrightarrow> or_envelope r = snd (snd x)"
      using Cons.IH[OF run] by blast
    have 5: "\<forall>y\<in>set (x # xs). \<forall>r. find_out (fst (item_key y)) (snd (item_key y)) rows = Some r \<longrightarrow> or_envelope r = snd (snd y)"
      using zs(5) Some body by (metis option.inject set_ConsD)
    have 3: "item_key ` set zs = item_key ` set (x # xs) - row_key ` set rows - item_key ` set new"
      using zs(3) insert_diff_in[of ?k "row_key ` set rows" "item_key ` set new"] \<open>?k \<in> _\<close> by simp
    have "set zs \<subseteq> set (x # xs)" using zs(2) by auto
    then show ?thesis using zs(1,4) 3 5 step[OF run] by blast
  next
    case None
    show ?thesis
    proof (cases "?k \<in> item_key ` set new")
      case True
      then have run: "new_items rows ?seen new xs = Inr res" using Cons.prems None by (auto simp: Let_def split: if_splits)
      obtain zs where zs: "res = new @ zs" "set zs \<subseteq> set xs" "item_key ` set zs = item_key ` set xs - row_key ` set rows - item_key ` set new"
          "distinct (map item_key new) \<longrightarrow> distinct (map item_key res)"
          "\<forall>x\<in>set xs. \<forall>r. find_out (fst (item_key x)) (snd (item_key x)) rows = Some r \<longrightarrow> or_envelope r = snd (snd x)"
        using Cons.IH[OF run] by blast
      have 5: "\<forall>y\<in>set (x # xs). \<forall>r. find_out (fst (item_key y)) (snd (item_key y)) rows = Some r \<longrightarrow> or_envelope r = snd (snd y)"
        using zs(5) None by (metis option.distinct(1) set_ConsD)
      have 3: "item_key ` set zs = item_key ` set (x # xs) - row_key ` set rows - item_key ` set new"
        using zs(3) insert_diff_in[of ?k "row_key ` set rows" "item_key ` set new"] True by simp
      have "set zs \<subseteq> set (x # xs)" using zs(2) by auto
      then show ?thesis using zs(1,4) 3 5 step[OF run] by blast
    next
      case False
      then have run: "new_items rows ?seen (new @ [x]) xs = Inr res" using Cons.prems None by (auto simp: Let_def split: if_splits)
      obtain zs where zs: "res = (new @ [x]) @ zs" "set zs \<subseteq> set xs"
          "item_key ` set zs = item_key ` set xs - row_key ` set rows - item_key ` set (new @ [x])"
          "distinct (map item_key (new @ [x])) \<longrightarrow> distinct (map item_key res)"
          "\<forall>x\<in>set xs. \<forall>r. find_out (fst (item_key x)) (snd (item_key x)) rows = Some r \<longrightarrow> or_envelope r = snd (snd x)"
        using Cons.IH[OF run] by blast
      have "?k \<notin> row_key ` set rows" using None find_out_None by blast
      then have "item_key ` set (x # zs) = item_key ` set (x # xs) - row_key ` set rows - item_key ` set new"
        using insert_diff[of ?k "row_key ` set rows" "item_key ` set new" "item_key ` set xs"] False zs(3) by simp
      moreover have "distinct (map item_key new) \<longrightarrow> distinct (map item_key (new @ [x]))" using False by auto
      moreover have "\<forall>y\<in>set (x # xs). \<forall>r. find_out (fst (item_key y)) (snd (item_key y)) rows = Some r \<longrightarrow> or_envelope r = snd (snd y)"
        using zs(5) None by (metis option.distinct(1) set_ConsD)
      moreover have "res = new @ (x # zs)" "set (x # zs) \<subseteq> set (x # xs)" using zs(1,2) by auto
      ultimately show ?thesis using zs(4) step[OF run] by blast
    qed
  qed
qed auto

lemma new_items_start:
  assumes "new_items rows Map.empty [] xs = Inr res"
  shows "set res \<subseteq> set xs" "item_key ` set res = item_key ` set xs - row_key ` set rows" "distinct (map item_key res)"
    "\<forall>x\<in>set xs. \<forall>r. find_out (fst (item_key x)) (snd (item_key x)) rows = Some r \<longrightarrow> or_envelope r = snd (snd x)"
    "\<forall>x\<in>set xs. \<forall>y\<in>set xs. item_key x = item_key y \<longrightarrow> snd (snd x) = snd (snd y)"
proof -
  obtain zs where zs: "res = [] @ zs" "set zs \<subseteq> set xs"
      "item_key ` set zs = item_key ` set xs - row_key ` set rows - item_key ` set ([] :: encoded list)"
      "distinct (map item_key ([] :: encoded list)) \<longrightarrow> distinct (map item_key res)"
    and rest: "\<forall>x\<in>set xs. \<forall>r. find_out (fst (item_key x)) (snd (item_key x)) rows = Some r \<longrightarrow> or_envelope r = snd (snd x)"
      "\<forall>x\<in>set xs. \<forall>y\<in>set xs. item_key x = item_key y \<longrightarrow> snd (snd x) = snd (snd y)"
    using new_items_spec[OF assms] by blast
  show "set res \<subseteq> set xs" "item_key ` set res = item_key ` set xs - row_key ` set rows" "distinct (map item_key res)"
    using zs by simp_all
  show "\<forall>x\<in>set xs. \<forall>r. find_out (fst (item_key x)) (snd (item_key x)) rows = Some r \<longrightarrow> or_envelope r = snd (snd x)"
    "\<forall>x\<in>set xs. \<forall>y\<in>set xs. item_key x = item_key y \<longrightarrow> snd (snd x) = snd (snd y)"
    by (rule rest)+
qed

text \<open>The inserts append the rows of the new items with increasing numbers.\<close>

lemma insert_items_spec:
  assumes "insert_items u now xs t = Inr t'"
  shows "\<exists>rows. snd t' = snd t @ rows \<and> length rows = length xs \<and> fst t' = fst t + length xs \<and>
    (\<forall>i<length xs. rows ! i = out_row (fst t + i) now (xs ! i))"
  using assms
proof (induction xs arbitrary: t)
  case (Cons x xs)
  let ?r = "out_row (fst t) now x"
  have "insert_items u now xs (Suc (fst t), snd t @ [?r]) = Inr t'"
    using Cons.prems by (auto simp: rbind_Inr_iff Let_def split: if_splits)
  then obtain rows where rows: "snd t' = (snd t @ [?r]) @ rows" "length rows = length xs" "fst t' = Suc (fst t) + length xs"
      "\<forall>i<length xs. rows ! i = out_row (Suc (fst t) + i) now (xs ! i)"
    using Cons.IH by (metis fst_conv snd_conv)
  have "(?r # rows) ! i = out_row (fst t + i) now ((x # xs) ! i)" if "i < length (x # xs)" for i
    using that rows(4) by (cases i) auto
  then show ?case using rows by (intro exI[of _ "?r # rows"]) auto
qed simp

lemma out_row_simps [simp]:
  "or_order (out_row n now x) = n" "row_key (out_row n now x) = item_key x" "or_status (out_row n now x) = DsPending"
  "or_stream (out_row n now x) = env_stream (fst (snd x))" "or_envelope (out_row n now x) = snd (snd x)"
  "or_attempts (out_row n now x) = 0" "or_next_attempt_ms (out_row n now x) = now"
  "or_priority (out_row n now x) = (if env_stream (fst (snd x)) = SAFETY_STREAM then 1 else 0)"
  by (cases x; simp add: out_row_def row_key_def item_key_def)+

lemma encode_items_keys:
  assumes "rmap encode_item ds = Inr encoded"
  shows "map (\<lambda>x. (fst x, fst (snd x))) encoded = ds \<and> (\<forall>x\<in>set encoded. encode_envelope (fst (snd x)) = Inr (snd (snd x)))"
  using assms
proof (induction ds arbitrary: encoded)
  case (Cons d ds)
  obtain body ys where "encode_envelope (snd d) = Inr body" "rmap encode_item ds = Inr ys" "encoded = (fst d, snd d, body) # ys"
    using Cons.prems unfolding encode_item_def by (auto simp: rbind_Inr_iff)
  then show ?case using Cons.IH[of ys] by simp
qed simp

definition delivery_key :: "string \<times> envelope \<Rightarrow> string \<times> string" where
  "delivery_key d = (fst d, message_id (snd d))"

text \<open>A successful call with its new rows.\<close>

lemma enqueue_many_Inr:
  assumes "enqueue_many ds now b = (b', Inr ())"
  shows "\<exists>rows. ob_rows b' = ob_rows b @ rows \<and> ob_next b' = ob_next b + length rows \<and>
    ob_maximum b' = ob_maximum b \<and> ob_reserve b' = ob_reserve b \<and> ob_unique_ids b' = ob_unique_ids b \<and>
    (\<forall>i<length rows. or_order (rows ! i) = ob_next b + i) \<and>
    (\<forall>r\<in>set rows. or_status r = DsPending \<and> or_attempts r = 0 \<and> or_next_attempt_ms r = now \<and>
       or_priority r = (if or_stream r = SAFETY_STREAM then 1 else 0) \<and>
       (\<exists>d\<in>set ds. row_key r = delivery_key d \<and> or_stream r = env_stream (snd d) \<and> encode_envelope (snd d) = Inr (or_envelope r))) \<and>
    distinct (map row_key rows) \<and> row_key ` set rows = delivery_key ` set ds - row_key ` set (ob_rows b) \<and>
    (ds \<noteq> [] \<longrightarrow> int (length (pending_rows (ob_rows b'))) \<le> ob_maximum b \<and>
       int (length (operational_rows (pending_rows (ob_rows b')))) \<le> ob_maximum b - ob_reserve b)"
proof (cases "ds = []")
  case True
  then show ?thesis using assms by (simp add: enqueue_many_def)
next
  case False
  obtain encoded new nx rows' where
    e: "rmap encode_item ds = Inr encoded" and n: "new_items (ob_rows b) Map.empty [] encoded = Inr new"
    and cap: "int (length (pending_rows (ob_rows b)) + length new) \<le> ob_maximum b"
      "int (length (operational_rows (pending_rows (ob_rows b))) + length (filter is_operational new)) \<le> ob_maximum b - ob_reserve b"
    and i: "insert_items (ob_unique_ids b) now new (ob_next b, ob_rows b) = Inr (nx, rows')"
    and b': "b' = b\<lparr>ob_next := nx, ob_rows := rows'\<rparr>"
    using assms False by (auto simp: enqueue_many_def Let_def not_less res_simps split: sum.splits)
  obtain rows where rows: "rows' = ob_rows b @ rows" "length rows = length new" "nx = ob_next b + length new"
      "\<forall>i<length new. rows ! i = out_row (ob_next b + i) now (new ! i)"
    using insert_items_spec[OF i] by auto
  note new = new_items_start(1-3)[OF n]
  note k = encode_items_keys[OF e]
  have keys: "map row_key rows = map item_key new" "map or_stream rows = map (\<lambda>x. env_stream (fst (snd x))) new"
    using rows(2,4) by (auto intro!: nth_equalityI)
  have mem: "\<exists>i x. r = out_row (ob_next b + i) now x \<and> x \<in> set new" if "r \<in> set rows" for r
    using that rows(2,4) by (metis in_set_conv_nth)
  have src: "\<exists>d\<in>set ds. item_key x = delivery_key d \<and> env_stream (fst (snd x)) = env_stream (snd d) \<and>
      encode_envelope (snd d) = Inr (snd (snd x))" if "x \<in> set new" for x
  proof -
    have "x \<in> set encoded" using that new(1) by blast
    moreover have "(fst x, fst (snd x)) \<in> set ds" using k \<open>x \<in> set encoded\<close> by (metis (no_types, lifting) image_eqI list.set_map)
    ultimately show ?thesis using k by (intro bexI[of _ "(fst x, fst (snd x))"]) (auto simp: item_key_def delivery_key_def)
  qed
  have "item_key ` set encoded = delivery_key ` set ds"
  proof -
    have "map item_key encoded = map delivery_key ds"
      using k by (auto simp: item_key_def delivery_key_def o_def)
    then show ?thesis by (metis list.set_map)
  qed
  then have ks: "row_key ` set rows = delivery_key ` set ds - row_key ` set (ob_rows b)"
    using keys(1) new(2) by (metis list.set_map)
  have pend: "pending_rows rows = rows" using mem by (force simp: pending_rows_def filter_id_conv)
  have "length (operational_rows rows) = length (filter is_operational new)"
  proof -
    have "length (operational_rows rows) = length (filter (\<lambda>s. s = OPERATIONAL_STREAM) (map or_stream rows))"
      by (simp add: operational_rows_def filter_map o_def)
    also have "\<dots> = length (filter is_operational new)"
      unfolding keys(2) by (simp add: filter_map o_def is_operational_def[abs_def])
    finally show ?thesis .
  qed
  then have caps: "int (length (pending_rows (ob_rows b'))) \<le> ob_maximum b"
      "int (length (operational_rows (pending_rows (ob_rows b')))) \<le> ob_maximum b - ob_reserve b"
    using cap pend rows(2) by (simp_all add: b' rows(1) pending_rows_def operational_rows_def)
  have ord: "\<forall>i<length rows. or_order (rows ! i) = ob_next b + i" using rows(2,4) by simp
  have props: "\<forall>r\<in>set rows. or_status r = DsPending \<and> or_attempts r = 0 \<and> or_next_attempt_ms r = now \<and>
       or_priority r = (if or_stream r = SAFETY_STREAM then 1 else 0) \<and>
       (\<exists>d\<in>set ds. row_key r = delivery_key d \<and> or_stream r = env_stream (snd d) \<and> encode_envelope (snd d) = Inr (or_envelope r))"
  proof
    fix r assume "r \<in> set rows"
    then obtain i x where "r = out_row (ob_next b + i) now x" "x \<in> set new" using mem by blast
    then show "or_status r = DsPending \<and> or_attempts r = 0 \<and> or_next_attempt_ms r = now \<and>
       or_priority r = (if or_stream r = SAFETY_STREAM then 1 else 0) \<and>
       (\<exists>d\<in>set ds. row_key r = delivery_key d \<and> or_stream r = env_stream (snd d) \<and> encode_envelope (snd d) = Inr (or_envelope r))"
      using src[of x] by simp
  qed
  show ?thesis
    by (rule exI[of _ rows]) (use ord props ks caps keys(1) new(3) in \<open>simp add: b' rows\<close>)
qed

lemma enqueue_many_Inl: "enqueue_many ds now b = (b', Inl e) \<Longrightarrow> b' = b"
  by (auto simp: enqueue_many_def Let_def not_less split: if_splits sum.splits prod.splits)

text \<open>Calling it again with the same deliveries finds every one of them.\<close>

lemma new_items_known:
  assumes "\<And>x. x \<in> set xs \<Longrightarrow> \<exists>r. find_out (fst (item_key x)) (snd (item_key x)) rows = Some r \<and> or_envelope r = snd (snd x)"
    and "\<And>k body. seen k = Some body \<Longrightarrow> \<exists>r. find_out (fst k) (snd k) rows = Some r \<and> or_envelope r = body"
  shows "new_items rows seen new xs = Inr new"
  using assms
proof (induction xs arbitrary: seen)
  case (Cons x xs)
  obtain r where r: "find_out (fst (item_key x)) (snd (item_key x)) rows = Some r" "or_envelope r = snd (snd x)"
    using Cons.prems(1)[of x] by auto
  have "seen (item_key x) = None \<or> seen (item_key x) = Some (snd (snd x))"
    using Cons.prems(2)[of "item_key x"] r by (cases "seen (item_key x)") auto
  moreover have "new_items rows (seen(item_key x \<mapsto> snd (snd x))) new xs = Inr new"
    using Cons.prems r by (intro Cons.IH) (auto split: if_splits)
  ultimately show ?case using r by (auto simp: Let_def)
qed simp

lemma enqueue_many_again:
  assumes run: "enqueue_many ds now b = (b', Inr ())"
  shows "enqueue_many ds now' b' = (b', Inr ())"
proof (cases "ds = []")
  case True
  then show ?thesis by (simp add: enqueue_many_def)
next
  case False
  obtain encoded new nx rows' where
    e: "rmap encode_item ds = Inr encoded" and n: "new_items (ob_rows b) Map.empty [] encoded = Inr new"
    and i: "insert_items (ob_unique_ids b) now new (ob_next b, ob_rows b) = Inr (nx, rows')"
    and b': "b' = b\<lparr>ob_next := nx, ob_rows := rows'\<rparr>"
    using run False by (auto simp: enqueue_many_def Let_def res_simps split: sum.splits)
  obtain rows where rows: "rows' = ob_rows b @ rows" "length rows = length new"
      "\<forall>i<length new. rows ! i = out_row (ob_next b + i) now (new ! i)"
    using insert_items_spec[OF i] by auto
  note new = new_items_start[OF n]
  have known: "\<exists>r. find_out (fst (item_key x)) (snd (item_key x)) rows' = Some r \<and> or_envelope r = snd (snd x)"
    if x: "x \<in> set encoded" for x
  proof (cases "find_out (fst (item_key x)) (snd (item_key x)) (ob_rows b)")
    case (Some r)
    then have "find_out (fst (item_key x)) (snd (item_key x)) rows' = Some r" by (simp add: find_out_def rows(1) find_key_append)
    then show ?thesis using new(4) x Some by fastforce
  next
    case None
    then have "item_key x \<in> item_key ` set new" using new(2) x find_out_None[of "item_key x"] by blast
    moreover have "map row_key rows = map item_key new" using rows(2,3) by (intro nth_equalityI) simp_all
    ultimately have "item_key x \<in> row_key ` set rows" by (metis list.set_map)
    then obtain r where r: "find_out (fst (item_key x)) (snd (item_key x)) rows = Some r"
      using find_out_None[of "item_key x" rows] by (metis not_None_eq)
    have "find (\<lambda>y. row_key y = item_key x) rows = Some r" using r by (simp only: find_out_key)
    then have rk: "r \<in> set rows" "row_key r = item_key x" using find_key_SomeD[of row_key] by blast+
    then obtain i where "i < length rows" "rows ! i = r" by (metis in_set_conv_nth)
    then have i: "i < length new" "out_row (ob_next b + i) now (new ! i) = r" using rows(2,3) by simp_all
    have y: "new ! i \<in> set new" "item_key (new ! i) = item_key x" "or_envelope r = snd (snd (new ! i))"
      using i rk(2) out_row_simps(2,5)[of "ob_next b + i" now "new ! i"] by simp_all
    then have "or_envelope r = snd (snd x)" using new(1,5) x by (metis subsetD)
    then show ?thesis using r None by (simp add: find_out_def rows(1) find_key_append)
  qed
  have "new_items (ob_rows b') Map.empty [] encoded = Inr []"
    by (rule new_items_known) (use known in \<open>auto simp: b'\<close>)
  moreover have "int (length (pending_rows (ob_rows b'))) \<le> ob_maximum b' \<and>
      int (length (operational_rows (pending_rows (ob_rows b')))) \<le> ob_maximum b' - ob_reserve b'"
    using enqueue_many_Inr[OF run] False by auto
  ultimately show ?thesis using e False by (simp add: enqueue_many_def Let_def not_less)
qed

section \<open>Histories\<close>

datatype outbox_op =
    ObEnqueue "(string \<times> envelope) list" int
  | ObDelivered string string int
  | ObFailed string string string int int int

fun ob_do :: "outbox_op \<Rightarrow> outbox \<Rightarrow> outbox" where
  "ob_do (ObEnqueue ds now) b = fst (enqueue_many ds now b)"
| "ob_do (ObDelivered peer mid now) b = fst (delivered peer mid now b)"
| "ob_do (ObFailed peer mid err now base maximum) b = fst (failed peer mid err now base maximum b)"

fun ob_run :: "outbox_op list \<Rightarrow> outbox \<Rightarrow> outbox" where
  "ob_run [] b = b"
| "ob_run (x # xs) b = ob_run xs (ob_do x b)"

definition ob_inv :: "outbox \<Rightarrow> bool" where
  "ob_inv b = (sorted_wrt (<) (map or_order (ob_rows b)) \<and> (\<forall>r\<in>set (ob_rows b). or_order r < ob_next b) \<and>
     distinct (map row_key (ob_rows b)) \<and>
     (\<forall>r\<in>set (ob_rows b). 0 \<le> or_attempts r \<and> or_priority r = (if or_stream r = SAFETY_STREAM then 1 else 0)) \<and>
     int (length (pending_rows (ob_rows b))) \<le> ob_maximum b \<and>
     int (length (operational_rows (pending_rows (ob_rows b)))) \<le> ob_maximum b - ob_reserve b)"

lemma filter_map_length:
  "(\<And>x. x \<in> set xs \<Longrightarrow> P (f x) \<Longrightarrow> P x) \<Longrightarrow> length (filter P (map f xs)) \<le> length (filter P xs)"
  by (induction xs) (auto simp: le_SucI)

lemma ob_inv_map:
  assumes inv: "ob_inv b"
    and f: "\<And>r. or_order (f r) = or_order r" "\<And>r. row_key (f r) = row_key r" "\<And>r. or_stream (f r) = or_stream r"
      "\<And>r. or_priority (f r) = or_priority r" "\<And>r. 0 \<le> or_attempts r \<Longrightarrow> r \<in> set (ob_rows b) \<Longrightarrow> 0 \<le> or_attempts (f r)"
      "\<And>r. or_status (f r) = DsPending \<Longrightarrow> or_status r = DsPending"
  shows "ob_inv (b\<lparr>ob_rows := map f (ob_rows b)\<rparr>)"
proof -
  have o: "or_order \<circ> f = or_order" "row_key \<circ> f = row_key" using f by auto
  have 1: "length (filter (\<lambda>r. or_status r = DsPending) (map f (ob_rows b))) \<le> length (filter (\<lambda>r. or_status r = DsPending) (ob_rows b))"
    by (rule filter_map_length) (rule f(6))
  have 2: "length (filter (\<lambda>r. or_status r = DsPending \<and> or_stream r = OPERATIONAL_STREAM) (map f (ob_rows b))) \<le>
      length (filter (\<lambda>r. or_status r = DsPending \<and> or_stream r = OPERATIONAL_STREAM) (ob_rows b))"
    by (rule filter_map_length) (auto simp: f(3) dest: f(6))
  show ?thesis
    using inv 1 2 f(5) unfolding ob_inv_def pending_rows_def operational_rows_def filter_filter
    by (auto simp: o f(1,3,4))
qed

lemma ob_inv_enqueue:
  assumes inv: "ob_inv b" shows "ob_inv (fst (enqueue_many ds now b))"
proof -
  obtain b' r where run: "enqueue_many ds now b = (b', r)" by fastforce
  show ?thesis
  proof (cases r)
    case (Inl e)
    then show ?thesis using run inv enqueue_many_Inl by fastforce
  next
    case (Inr u)
    have ok: "enqueue_many ds now b = (b', Inr ())" using run Inr by simp
    show ?thesis
    proof (cases "ds = []")
      case True
      then show ?thesis using run inv by (simp add: enqueue_many_def)
    next
      case False
      obtain rows where rows: "ob_rows b' = ob_rows b @ rows" "ob_next b' = ob_next b + length rows"
          "ob_maximum b' = ob_maximum b" "ob_reserve b' = ob_reserve b"
          "\<forall>i<length rows. or_order (rows ! i) = ob_next b + i"
          "\<forall>r\<in>set rows. or_attempts r = 0 \<and> or_priority r = (if or_stream r = SAFETY_STREAM then 1 else 0)"
          "distinct (map row_key rows)" "row_key ` set rows \<inter> row_key ` set (ob_rows b) = {}"
          "int (length (pending_rows (ob_rows b'))) \<le> ob_maximum b"
          "int (length (operational_rows (pending_rows (ob_rows b')))) \<le> ob_maximum b - ob_reserve b"
        using enqueue_many_Inr[OF ok] False Diff_disjoint[of "row_key ` set (ob_rows b)" "delivery_key ` set ds"]
        by (metis (no_types, lifting) Int_commute)
      have n: "map or_order rows = [ob_next b..<ob_next b + length rows]"
        using rows(5) by (intro nth_equalityI) auto
      have "sorted_wrt (<) (map or_order (ob_rows b'))"
        using inv by (auto simp: rows(1) n sorted_wrt_append ob_inv_def)
      moreover have "or_order r < ob_next b'" if "r \<in> set (ob_rows b')" for r
      proof -
        have "or_order r \<in> set (map or_order (ob_rows b)) \<or> or_order r \<in> set (map or_order rows)" using that rows(1) by auto
        then show ?thesis using inv unfolding n by (auto simp: rows(2) ob_inv_def)
      qed
      moreover have "distinct (map row_key (ob_rows b'))"
        using inv rows(7,8) by (auto simp: rows(1) ob_inv_def)
      ultimately show ?thesis using inv rows(3,4,6,9,10) run by (auto simp: ob_inv_def rows(1))
    qed
  qed
qed

text \<open>A call either changes its rows or, when a number does not fit, raises and leaves the outbox.\<close>

lemma sql_int_Inl: "sql_int n = Inl err \<Longrightarrow> err = RuntimeError ''OverflowError'' \<and> (n < - (2 ^ 63) \<or> 2 ^ 63 \<le> n)"
  by (auto simp: sql_int_def require_def split: if_splits)

lemma delivered_cases:
  "(\<exists>u. delivered peer mid now b = (delivered_row peer mid now b, Inr u)) \<or> (\<exists>err. delivered peer mid now b = (b, Inl err))"
  by (simp add: delivered_def split: sum.split)

lemma failed_cases:
  assumes "find (\<lambda>r. or_peer_id r = peer \<and> or_message_id r = mid \<and> or_status r = DsPending) (ob_rows b) = Some row"
  shows "failed peer mid msg now base maximum b =
      (failed_row peer mid msg now (backoff base maximum (or_attempts row + 1)) (or_attempts row + 1) b, Inr ()) \<or>
    (\<exists>err. failed peer mid msg now base maximum b = (b, Inl err))"
  using assms by (simp add: failed_def Let_def split: sum.split)

lemma ob_inv_delivered_row: "ob_inv b \<Longrightarrow> ob_inv (delivered_row peer mid now b)"
  unfolding delivered_row_def upd_where_def by (intro ob_inv_map) (auto simp: row_key_def split: if_splits)

lemma ob_inv_failed_row: "ob_inv b \<Longrightarrow> 0 \<le> attempts \<Longrightarrow> ob_inv (failed_row peer mid msg now delay attempts b)"
  unfolding failed_row_def upd_where_def by (intro ob_inv_map) (auto simp: row_key_def split: if_splits)

lemma ob_inv_do: "ob_inv b \<Longrightarrow> ob_inv (ob_do x b)"
proof (cases x)
  case (ObDelivered peer mid now)
  assume "ob_inv b"
  then show ?thesis using delivered_cases[of peer mid now b] ob_inv_delivered_row by (auto simp: ObDelivered)
next
  case (ObFailed peer mid msg now base maximum)
  assume inv: "ob_inv b"
  show ?thesis
  proof (cases "find (\<lambda>r. or_peer_id r = peer \<and> or_message_id r = mid \<and> or_status r = DsPending) (ob_rows b)")
    case None
    then show ?thesis using inv by (simp add: ObFailed failed_def)
  next
    case (Some row)
    then have "0 \<le> or_attempts row" using inv by (auto simp: find_Some_iff ob_inv_def)
    then show ?thesis using inv failed_cases[OF Some, of msg now base maximum] ob_inv_failed_row by (auto simp: ObFailed)
  qed
qed (simp add: ob_inv_enqueue)

lemma ob_inv_run: "ob_inv b \<Longrightarrow> ob_inv (ob_run xs b)"
  by (induction xs arbitrary: b) (simp_all add: ob_inv_do)

lemma ob_inv_open: "outbox_open maximum reserve [] n u = Inr b \<Longrightarrow> ob_inv b \<and> ob_maximum b = maximum \<and> 0 \<le> ob_reserve b \<and> ob_reserve b < maximum"
  by (auto simp: outbox_open_def ob_inv_def pending_rows_def operational_rows_def res_simps Let_def)

lemma ob_run_limits: "ob_maximum (ob_run xs b) = ob_maximum b \<and> ob_reserve (ob_run xs b) = ob_reserve b"
proof (induction xs arbitrary: b)
  case (Cons x xs)
  have "ob_maximum (ob_do x b) = ob_maximum b \<and> ob_reserve (ob_do x b) = ob_reserve b"
    by (cases x) (auto simp: enqueue_many_def delivered_def delivered_row_def failed_def failed_row_def Let_def split: option.splits sum.splits)
  then show ?case using Cons by simp
qed simp

section \<open>Properties\<close>

text \<open>Where \<open>OutboxFullError\<close> comes from.\<close>

lemma new_items_not_full: "new_items rows seen new xs \<noteq> Inl (OutboxFullError m)"
  by (induction xs arbitrary: seen new) (simp_all add: Let_def split: option.split)

lemma insert_items_not_full: "insert_items u now xs t \<noteq> Inl (OutboxFullError m)"
  by (induction xs arbitrary: t) (simp_all add: rbind_def sql_int_def require_def Let_def)

lemma encode_items_not_full: "rmap encode_item ds \<noteq> Inl (OutboxFullError m)"
proof (induction ds)
  case (Cons d ds)
  have "encode_item d \<noteq> Inl (OutboxFullError m)"
    by (auto simp: encode_item_def encode_envelope_def rbind_def require_def Let_def)
  then show ?case using Cons by (auto simp: rbind_def split: sum.splits)
qed simp

lemma enqueue_many_full:
  assumes "enqueue_many ds now b = (b', Inl (OutboxFullError m))"
  shows "\<exists>encoded new. rmap encode_item ds = Inr encoded \<and> new_items (ob_rows b) Map.empty [] encoded = Inr new \<and>
    (int (length (pending_rows (ob_rows b)) + length new) > ob_maximum b \<or>
     int (length (operational_rows (pending_rows (ob_rows b))) + length (filter is_operational new)) > ob_maximum b - ob_reserve b)"
proof -
  obtain encoded where e: "rmap encode_item ds = Inr encoded"
    using assms encode_items_not_full[of ds m] by (auto simp: enqueue_many_def split: if_splits sum.splits)
  obtain new where n: "new_items (ob_rows b) Map.empty [] encoded = Inr new"
    using assms e new_items_not_full[of "ob_rows b" Map.empty "[]" encoded m]
    by (cases "new_items (ob_rows b) Map.empty [] encoded") (auto simp: enqueue_many_def Let_def split: if_splits)
  show ?thesis
  proof (rule ccontr)
    assume "\<not> ?thesis"
    then have "\<not> int (length (pending_rows (ob_rows b)) + length new) > ob_maximum b"
      "\<not> int (length (operational_rows (pending_rows (ob_rows b))) + length (filter is_operational new)) > ob_maximum b - ob_reserve b"
      using e n by auto
    then show False
      using assms e n insert_items_not_full[of "ob_unique_ids b" now new "(ob_next b, ob_rows b)" m]
      by (auto simp: enqueue_many_def Let_def split: if_splits sum.splits)
  qed
qed

text \<open>C20: The capacity of the outbox. Over any history of calls the pending messages never exceed the configured maximum
  and the pending operational ones never exceed the maximum less the reserve; and however full operational
  traffic makes it, safety messages that fit in the reserve are never refused for lack of room.\<close>

theorem outbox_capacity:
  assumes "outbox_open maximum reserve [] n u = Inr b0" and "b = ob_run ops b0"
  shows "int (length (pending_rows (ob_rows b))) \<le> maximum \<and>
    int (length (operational_rows (pending_rows (ob_rows b)))) \<le> maximum - ob_reserve b0 \<and>
    (\<forall>ds now b' m. list_all (\<lambda>d. env_stream (snd d) = SAFETY_STREAM) ds \<longrightarrow>
       int (length (filter (\<lambda>r. or_stream r \<noteq> OPERATIONAL_STREAM) (pending_rows (ob_rows b))) + length ds) \<le> ob_reserve b0 \<longrightarrow>
       enqueue_many ds now b \<noteq> (b', Inl (OutboxFullError m)))"
proof -
  have inv: "ob_inv b" using ob_inv_open[OF assms(1)] ob_inv_run assms(2) by blast
  have lim: "ob_maximum b = maximum" "ob_reserve b = ob_reserve b0"
    using ob_inv_open[OF assms(1)] ob_run_limits[of ops b0] assms(2) by simp_all
  let ?P = "pending_rows (ob_rows b)"
  have caps: "int (length ?P) \<le> maximum" "int (length (operational_rows ?P)) \<le> maximum - ob_reserve b0"
    using inv lim by (simp_all add: ob_inv_def)
  have room: "enqueue_many ds now b \<noteq> (b', Inl (OutboxFullError m))"
    if safe: "list_all (\<lambda>d. env_stream (snd d) = SAFETY_STREAM) ds"
      and fits: "int (length (filter (\<lambda>r. or_stream r \<noteq> OPERATIONAL_STREAM) ?P) + length ds) \<le> ob_reserve b0" for ds now b' m
  proof
    assume "enqueue_many ds now b = (b', Inl (OutboxFullError m))"
    then obtain encoded new where e: "rmap encode_item ds = Inr encoded" and n: "new_items (ob_rows b) Map.empty [] encoded = Inr new"
      and full: "int (length ?P + length new) > maximum \<or>
        int (length (operational_rows ?P) + length (filter is_operational new)) > maximum - ob_reserve b0"
      using enqueue_many_full lim by metis
    note k = conjunct1[OF encode_items_keys[OF e]]
    have "length encoded = length ds" using k by (metis length_map)
    moreover have "distinct new" "set new \<subseteq> set encoded" using new_items_start(1,3)[OF n] by (simp_all add: distinct_map)
    then have "length new \<le> length encoded" by (metis card_length card_mono distinct_card finite_set le_trans)
    moreover have "\<not> is_operational x" if "x \<in> set new" for x
    proof -
      have "(fst x, fst (snd x)) \<in> set ds" using that k \<open>set new \<subseteq> _\<close> by (metis (no_types, lifting) image_eqI list.set_map subsetD)
      then show ?thesis using safe by (auto simp: list_all_iff is_operational_def SAFETY_STREAM_def OPERATIONAL_STREAM_def)
    qed
    then have "filter is_operational new = []" by (simp add: filter_empty_conv)
    moreover have "length ?P = length (operational_rows ?P) + length (filter (\<lambda>r. or_stream r \<noteq> OPERATIONAL_STREAM) ?P)"
      by (simp add: operational_rows_def sum_length_filter_compl)
    ultimately show False using full caps fits by auto
  qed
  show ?thesis using caps room by blast
qed

lemma find_conj: "find P xs = Some r \<Longrightarrow> Q r \<Longrightarrow> find (\<lambda>x. P x \<and> Q x) xs = Some r"
  by (induction xs) (auto split: if_splits)

lemma ready_rows_set:
  "r \<in> set (ready_rows now limit strm b) \<Longrightarrow> r \<in> set (ob_rows b) \<and> or_status r = DsPending \<and> head_of_line (ob_rows b) r \<and>
     (case strm of None \<Rightarrow> True | Some s \<Rightarrow> or_stream r = s) \<and> or_next_attempt_ms r \<le> now"
  unfolding ready_rows_def by (drule in_set_takeD) auto

lemma backoff_bounds:
  assumes "0 \<le> a"
  shows "backoff 250 30000 (a + 1) = min (250 * 2 ^ nat (min a 16)) 30000" "250 \<le> backoff 250 30000 (a + 1)"
    "backoff 250 30000 (a + 1) \<le> 30000"
proof -
  have "(1::int) \<le> 2 ^ nat (min a 16)" by simp
  then show "backoff 250 30000 (a + 1) = min (250 * 2 ^ nat (min a 16)) 30000" "250 \<le> backoff 250 30000 (a + 1)"
    "backoff 250 30000 (a + 1) \<le> 30000" unfolding backoff_def by simp_all
qed

text \<open>The delays of retries. A failed attempt of a pending message counts one more attempt and puts the next one off
  by 250 ms doubled with every earlier attempt, never less than 250 ms and never more than 30 s, keeping at most
  1024 characters of the error; until then \<open>ready\<close> does not offer the message.\<close>

lemma failed_delays_retry:
  assumes "outbox_open maximum reserve [] n u = Inr b0" and "b = ob_run ops b0"
    and "find_out peer mid (ob_rows b) = Some r" and "or_status r = DsPending"
    and "failed peer mid msg now 250 30000 b = (b', Inr v)"
  shows "\<exists>r'. find_out peer mid (ob_rows b') = Some r' \<and>
    or_status r' = DsPending \<and> or_attempts r' = or_attempts r + 1 \<and>
    or_next_attempt_ms r' = now + min (250 * 2 ^ nat (min (or_attempts r) 16)) 30000 \<and>
    now + 250 \<le> or_next_attempt_ms r' \<and> or_next_attempt_ms r' \<le> now + 30000 \<and>
    or_last_error r' = Some (take_chars 1024 msg) \<and> r' \<notin> set (ready_rows (now + 249) limit strm b')"
proof -
  have inv: "ob_inv b" using ob_inv_open[OF assms(1)] ob_inv_run assms(2) by blast
  let ?t = "now + backoff 250 30000 (or_attempts r + 1)"
  let ?f = "\<lambda>x. x\<lparr>or_attempts := or_attempts r + 1, or_next_attempt_ms := ?t, or_last_error := Some (take_chars 1024 msg),
    or_updated_at_ms := now\<rparr>"
  have f: "find (\<lambda>x. row_key x = (peer, mid)) (ob_rows b) = Some r"
    using assms(3) find_out_key[of "(peer, mid)"] by simp
  have r: "r \<in> set (ob_rows b)" "row_key r = (peer, mid)" using find_key_SomeD[OF f] by auto
  have a: "0 \<le> or_attempts r" using inv r(1) by (simp add: ob_inv_def)
  have "find (\<lambda>x. or_peer_id x = peer \<and> or_message_id x = mid \<and> or_status x = DsPending) (ob_rows b) = Some r"
    using find_conj[of "\<lambda>x. or_peer_id x = peer \<and> or_message_id x = mid"] assms(3,4) by (simp add: find_out_def)
  then have rows: "ob_rows b' = upd_where (\<lambda>x. or_peer_id x = peer \<and> or_message_id x = mid) ?f (ob_rows b)"
    using failed_cases[of peer mid b r msg now 250 30000] assms(5) by (auto simp: failed_row_def)
  have "row_key (?f x) = row_key x" for x by (simp add: row_key_def)
  then have "find_out peer mid (ob_rows b') = Some (?f r)"
    using find_upd_where[of row_key ?f "(peer, mid)" "\<lambda>x. or_peer_id x = peer \<and> or_message_id x = mid" "ob_rows b"] f r(2)
      find_out_key[of "(peer, mid)" "ob_rows b'"] by (simp add: rows row_key_def)
  moreover have "?f r \<notin> set (ready_rows (now + 249) limit strm b')"
    using ready_rows_set[of "?f r" "now + 249" limit strm b'] backoff_bounds(2)[OF a] by auto
  ultimately show ?thesis using backoff_bounds[OF a] assms(4) by (intro exI[of _ "?f r"]) simp
qed

text \<open>C21: Order of delivery. Whatever happened before, \<open>ready\<close> offers at most \<open>limit\<close> messages, at most one for each peer
  and stream, safety messages before operational ones, none before its time; and every message that was enqueued
  earlier for the same peer and stream has been delivered.\<close>

theorem ready_is_head_of_line:
  assumes "outbox_open maximum reserve [] n u = Inr b0" and "b = ob_run ops b0" and "ready now limit strm b = Inr ds"
  shows "\<exists>rs. list_all2 (\<lambda>r d. pd_peer_id d = or_peer_id r \<and> pd_attempts d = or_attempts r \<and>
        decode_envelope (or_envelope r) = Inr (pd_envelope d)) rs ds \<and>
    int (length ds) \<le> limit \<and> distinct (map (\<lambda>r. (or_peer_id r, or_stream r)) rs) \<and>
    sorted_wrt (\<lambda>r q. or_stream q = SAFETY_STREAM \<longrightarrow> or_stream r = SAFETY_STREAM) rs \<and>
    (\<forall>r\<in>set rs. or_next_attempt_ms r \<le> now \<and> (\<exists>i<length (ob_rows b). ob_rows b ! i = r \<and> or_status r = DsPending \<and>
       (\<forall>j<i. or_peer_id (ob_rows b ! j) = or_peer_id r \<longrightarrow> or_stream (ob_rows b ! j) = or_stream r \<longrightarrow>
          or_status (ob_rows b ! j) = DsDelivered)))"
proof -
  have inv: "ob_inv b" using ob_inv_open[OF assms(1)] ob_inv_run assms(2) by blast
  let ?rs = "ready_rows now limit strm b"
  have lim: "1 \<le> limit" and dec: "rmap (\<lambda>r. rbind (decode_envelope (or_envelope r)) (\<lambda>e.
      Inr \<lparr>pd_peer_id = or_peer_id r, pd_envelope = e, pd_attempts = or_attempts r,
           pd_next_attempt_ms = or_next_attempt_ms r\<rparr>)) ?rs = Inr ds"
    using assms(3) by (auto simp: ready_def rbind_Inr_iff require_Inr_iff)
  have 1: "list_all2 (\<lambda>r d. pd_peer_id d = or_peer_id r \<and> pd_attempts d = or_attempts r \<and>
      decode_envelope (or_envelope r) = Inr (pd_envelope d)) ?rs ds"
    using dec unfolding rmap_Inr_iff by (rule list_all2_mono) (auto simp: rbind_Inr_iff)
  have 2: "int (length ds) \<le> limit" using list_all2_lengthD[OF 1] lim by (simp add: ready_rows_def)
  have sorted: "sorted_wrt (<) (map or_order (ob_rows b))" using inv by (simp add: ob_inv_def)
  then have inj: "inj_on or_order (set (ob_rows b))" by (simp add: strict_sorted_iff distinct_map)
  have same: "r = q" if "r \<in> set ?rs" "q \<in> set ?rs" "or_peer_id r = or_peer_id q" "or_stream r = or_stream q" for r q
  proof -
    have "or_order r = or_order q"
      using that ready_rows_set[of r] ready_rows_set[of q] unfolding head_of_line_def by (metis le_antisym)
    then show ?thesis using inj ready_rows_set[OF that(1)] ready_rows_set[OF that(2)] by (auto dest: inj_onD)
  qed
  have "distinct ?rs" using inv by (simp add: ready_rows_def ob_inv_def distinct_map)
  then have 3: "distinct (map (\<lambda>r. (or_peer_id r, or_stream r)) ?rs)"
    using same by (simp add: distinct_map inj_on_def)
  have prio: "or_priority r = (if or_stream r = SAFETY_STREAM then 1 else 0)" if "r \<in> set ?rs" for r
    using ready_rows_set[OF that] inv by (simp add: ob_inv_def)
  have "sorted (map (\<lambda>r. - or_priority r) ?rs)"
    by (simp add: ready_rows_def take_map[symmetric] sorted_wrt_take)
  then have 4: "sorted_wrt (\<lambda>r q. or_stream q = SAFETY_STREAM \<longrightarrow> or_stream r = SAFETY_STREAM) ?rs"
    unfolding sorted_map by (rule sorted_wrt_mono_rel[rotated]) (auto simp: prio split: if_splits)
  have 5: "or_next_attempt_ms r \<le> now \<and> (\<exists>i<length (ob_rows b). ob_rows b ! i = r \<and> or_status r = DsPending \<and>
       (\<forall>j<i. or_peer_id (ob_rows b ! j) = or_peer_id r \<longrightarrow> or_stream (ob_rows b ! j) = or_stream r \<longrightarrow>
          or_status (ob_rows b ! j) = DsDelivered))" if r: "r \<in> set ?rs" for r
  proof -
    note s = ready_rows_set[OF r]
    obtain i where i: "i < length (ob_rows b)" "ob_rows b ! i = r" using s by (metis in_set_conv_nth)
    have "or_status (ob_rows b ! j) = DsDelivered"
      if "j < i" "or_peer_id (ob_rows b ! j) = or_peer_id r" "or_stream (ob_rows b ! j) = or_stream r" for j
    proof (rule ccontr)
      assume "or_status (ob_rows b ! j) \<noteq> DsDelivered"
      then have "or_status (ob_rows b ! j) = DsPending" by (cases "or_status (ob_rows b ! j)") simp_all
      then have "or_order r \<le> or_order (ob_rows b ! j)" using s that i by (simp add: head_of_line_def)
      moreover have "or_order (ob_rows b ! j) < or_order r"
        using sorted_wrt_nth_less[OF sorted, of j i] that(1) i by simp
      ultimately show False by simp
    qed
    then show ?thesis using s i by blast
  qed
  show ?thesis using 1 2 3 4 5 by blast
qed

text \<open>C22: \<open>enqueue_many\<close> is all or nothing and idempotent. When it raises, the table is unchanged. When it returns, it has
  appended exactly one pending row for each peer and message id that was not there yet, each with the encoding of
  one of the envelopes given; and the same call again returns and changes nothing.\<close>

theorem enqueue_all_or_nothing:
  assumes "enqueue_many ds now b = (b', r)"
  shows "(\<forall>err. r = Inl err \<longrightarrow> b' = b) \<and>
    (r = Inr () \<longrightarrow> enqueue_many ds now' b' = (b', Inr ()) \<and>
      (\<exists>rows. ob_rows b' = ob_rows b @ rows \<and> distinct (map row_key rows) \<and>
        row_key ` set rows = delivery_key ` set ds - row_key ` set (ob_rows b) \<and>
        (\<forall>x\<in>set rows. or_status x = DsPending \<and> or_next_attempt_ms x = now \<and>
          (\<exists>d\<in>set ds. row_key x = delivery_key d \<and> encode_envelope (snd d) = Inr (or_envelope x)))))"
proof (cases r)
  case (Inl err)
  then show ?thesis using assms enqueue_many_Inl by fastforce
next
  case (Inr v)
  then have ok: "enqueue_many ds now b = (b', Inr ())" using assms by simp
  have "\<exists>rows. ob_rows b' = ob_rows b @ rows \<and> distinct (map row_key rows) \<and>
        row_key ` set rows = delivery_key ` set ds - row_key ` set (ob_rows b) \<and>
        (\<forall>x\<in>set rows. or_status x = DsPending \<and> or_next_attempt_ms x = now \<and>
          (\<exists>d\<in>set ds. row_key x = delivery_key d \<and> encode_envelope (snd d) = Inr (or_envelope x)))"
    using enqueue_many_Inr[OF ok]
  proof (elim exE conjE, intro exI conjI)
    fix rows
    assume p: "\<forall>r\<in>set rows. or_status r = DsPending \<and> or_attempts r = 0 \<and> or_next_attempt_ms r = now \<and>
       or_priority r = (if or_stream r = SAFETY_STREAM then 1 else 0) \<and>
       (\<exists>d\<in>set ds. row_key r = delivery_key d \<and> or_stream r = env_stream (snd d) \<and> encode_envelope (snd d) = Inr (or_envelope r))"
    show "\<forall>x\<in>set rows. or_status x = DsPending \<and> or_next_attempt_ms x = now \<and>
          (\<exists>d\<in>set ds. row_key x = delivery_key d \<and> encode_envelope (snd d) = Inr (or_envelope x))"
    proof
      fix x assume "x \<in> set rows"
      then show "or_status x = DsPending \<and> or_next_attempt_ms x = now \<and>
          (\<exists>d\<in>set ds. row_key x = delivery_key d \<and> encode_envelope (snd d) = Inr (or_envelope x))" using bspec[OF p] by meson
    qed
  qed
  then show ?thesis using enqueue_many_again[OF ok] Inr by simp
qed

section \<open>Instances\<close>

definition sample_outbox :: outbox where
  "sample_outbox = \<lparr>ob_maximum = 10, ob_reserve = 1, ob_rows = [], ob_next = 1, ob_unique_ids = False\<rparr>"

lemma sample_outbox_open: "outbox_open 10 None [] 1 False = Inr sample_outbox"
  by (simp add: outbox_open_def sample_outbox_def)

definition sample_enqueued :: "outbox_op list" where
  "sample_enqueued = [ObEnqueue [(''r2'', sample_message)] 5]"

theorem outbox_capacity_witness:
  "length (pending_rows (ob_rows (ob_run sample_enqueued sample_outbox))) = 1 \<and>
   int (length (pending_rows (ob_rows (ob_run sample_enqueued sample_outbox)))) \<le> 10"
proof
  show "length (pending_rows (ob_rows (ob_run sample_enqueued sample_outbox))) = 1" by code_simp
  show "int (length (pending_rows (ob_rows (ob_run sample_enqueued sample_outbox)))) \<le> 10"
    using outbox_capacity[OF sample_outbox_open refl] by blast
qed

theorem ready_is_head_of_line_witness:
  "\<exists>ds. ready 5 10 None (ob_run sample_enqueued sample_outbox) = Inr ds \<and> length ds = 1 \<and> int (length ds) \<le> 10"
proof -
  have "(case ready 5 10 None (ob_run sample_enqueued sample_outbox) of Inl _ \<Rightarrow> 0 | Inr ds \<Rightarrow> length ds) = 1" by code_simp
  then obtain ds where ds: "ready 5 10 None (ob_run sample_enqueued sample_outbox) = Inr ds" "length ds = 1"
    by (auto split: sum.splits)
  show ?thesis using ready_is_head_of_line[OF sample_outbox_open refl ds(1)] ds by auto
qed

theorem enqueue_all_or_nothing_witness:
  "\<exists>b'. enqueue_many [(''r2'', sample_message)] 5 sample_outbox = (b', Inr ()) \<and>
     enqueue_many [(''r2'', sample_message)] 9 b' = (b', Inr ())"
proof -
  have "is_ok (snd (enqueue_many [(''r2'', sample_message)] 5 sample_outbox))" by code_simp
  then obtain b' where b': "enqueue_many [(''r2'', sample_message)] 5 sample_outbox = (b', Inr ())"
    by (metis (full_types) is_ok_iff old.unit.exhaust prod.collapse)
  show ?thesis using enqueue_all_or_nothing[OF b'] b' by blast
qed

section \<open>A migrated table\<close>

text \<open>\<open>_migrate_outbox_streams\<close> gives the migrated table \<open>message_id TEXT NOT NULL UNIQUE\<close>, which the table of a new
  database does not have. A message for two peers, which is what publishing with two peers is, then cannot be
  enqueued.\<close>

lemma migrated_outbox_refuses_broadcast:
  assumes "ob_unique_ids b" and "encode_envelope e = Inr body" and "p \<noteq> q"
    and "find_out p (message_id e) (ob_rows b) = None" and "find_out q (message_id e) (ob_rows b) = None"
  shows "\<exists>err. enqueue_many [(p, e), (q, e)] now b = (b, Inl err)"
proof -
  let ?x = "(p, e, body)" and ?y = "(q, e, body)"
  have enc: "rmap encode_item [(p, e), (q, e)] = Inr [?x, ?y]" using assms(2) by (simp add: encode_item_def)
  have new: "new_items (ob_rows b) Map.empty [] [?x, ?y] = Inr [?x, ?y]"
    using assms(3-5) by (simp add: item_key_def)
  have "out_clash True (out_row n now ?x) (out_row n' now ?y)" for n n' by (simp add: out_clash_def out_row_def)
  then have "\<exists>err. insert_items (ob_unique_ids b) now [?x, ?y] (ob_next b, ob_rows b) = Inl err"
    using assms(1) by (auto simp: rbind_def Let_def split: sum.split)
  then show ?thesis by (auto simp: enqueue_many_def Let_def enc new rbind_def require_def simp del: rmap.simps new_items.simps insert_items.simps)
qed

end
