(* ===== verification/Network_Runs.thy ===== *)
theory Network_Runs
  imports Network_Bus Outbox_Runs
begin

text \<open>
  Histories of a \<open>TlsNetworkBus\<close>: peers come and go, messages are published, flushed, received and handled, the
  process restarts with the same database files. Along every history nothing is sent to a peer that its policy did
  not allow, and nothing counts as delivered that the peer did not acknowledge.
\<close>

section \<open>Histories\<close>

record 'h surroundings =
  en_sha :: "string \<Rightarrow> string"
  en_revoked :: "string \<Rightarrow> bool"
  en_describe :: "error \<Rightarrow> string"
  en_send :: sender
  en_call :: "'h \<Rightarrow> envelope \<Rightarrow> unit res"
  en_write :: "string \<Rightarrow> unit res"

datatype nb_event =
    NeAddPeer peer_endpoint
  | NeRemovePeer string
  | NePublish int int envelope
  | NeFlush int int "string option"
  | NeRetry int int
  | NeConnection "nat \<Rightarrow> int" tls_session
  | NeClaim int
  | NeHandle int envelope
  | NeRestart

text \<open>The process stops and the bus is built again on the same files.\<close>

definition nb_restart :: "'h network_bus \<Rightarrow> 'h network_bus" where
  "nb_restart nb =
     (case server_init (nb_robot_id nb) 4 (sv_inbox (nb_server nb))
             (Some (case sv_replay (nb_server nb) of MemoryReplay m \<Rightarrow> MemoryReplay (m\<lparr>rm_sequences := []\<rparr>) | p \<Rightarrow> p)) of
        Inl _ \<Rightarrow> nb
      | Inr sv \<Rightarrow> nb\<lparr>nb_peers := [], nb_local := bus_empty, nb_delivery_errors := [], nb_server := sv\<rparr>)"

fun nb_do :: "'h surroundings \<Rightarrow> nb_event \<Rightarrow> 'h network_bus \<Rightarrow> 'h network_bus \<times> 'h network_effect list" where
  "nb_do en (NeAddPeer p) nb = ((case add_peer p nb of Inl _ \<Rightarrow> nb | Inr nb' \<Rightarrow> nb'), [])"
| "nb_do en (NeRemovePeer rid) nb = (remove_peer rid nb, [])"
| "nb_do en (NePublish now1 now2 e) nb =
     (case nb_publish (en_describe en) (en_send en) (en_call en) now1 now2 e nb of (nb', out, _) \<Rightarrow> (nb', out))"
| "nb_do en (NeFlush now limit strm) nb =
     (case flush (en_describe en) (en_send en) now limit strm nb of (nb', out, _) \<Rightarrow> (nb', out))"
| "nb_do en (NeRetry now1 now2) nb =
     (case retry_turn (en_describe en) (en_send en) now1 now2 nb of (nb', out, _) \<Rightarrow> (nb', out))"
| "nb_do en (NeConnection clock c) nb =
     (case nb_connection (en_sha en) (en_revoked en) (en_call en) (en_write en) clock c nb of (nb', out, _) \<Rightarrow> (nb', out))"
| "nb_do en (NeClaim now) nb = (fst (worker_claim now nb), [])"
| "nb_do en (NeHandle now e) nb =
     (case worker_handle (en_describe en) (en_call en) now e nb of (nb', out, _) \<Rightarrow> (nb', out))"
| "nb_do en NeRestart nb = (nb_restart nb, [])"

fun nb_history :: "'h surroundings \<Rightarrow> nb_event list \<Rightarrow> 'h network_bus \<Rightarrow> 'h network_bus \<times> 'h network_effect list" where
  "nb_history en [] nb = (nb, [])"
| "nb_history en (ev # evs) nb =
     (case nb_do en ev nb of (nb1, out1) \<Rightarrow> (case nb_history en evs nb1 of (nb2, out2) \<Rightarrow> (nb2, out1 @ out2)))"

section \<open>Disclosure\<close>

text \<open>What a policy lets a peer see of an envelope.\<close>

definition discloses :: "peer_endpoint \<Rightarrow> envelope \<Rightarrow> bool" where
  "discloses p e =
     (message_type e \<in> set (pe_allowed_message_types p) \<and>
      (message_type e = ''manifest'' \<longrightarrow>
        (\<exists>cs. jget (env_payload e) ''capabilities'' JNull = Inr (JArr cs) \<and>
           (\<forall>c\<in>set cs. \<exists>n. jget c ''name'' JNull = Inr (JStr n) \<and> n \<in> set (pe_allowed_capabilities p)))))"

lemma keep_allowed_names:
  "keep_allowed allowed cs = Inr kept \<Longrightarrow> set kept \<subseteq> set cs \<and>
     (\<forall>c\<in>set kept. \<exists>n. jget c ''name'' JNull = Inr (JStr n) \<and> n \<in> set allowed)"
proof (induction cs arbitrary: kept)
  case (Cons c cs)
  obtain b rest where b: "capability_allowed allowed c = Inr b" "keep_allowed allowed cs = Inr rest"
      "kept = (if b then c # rest else rest)" using Cons.prems by (auto simp: res_simps)
  have "\<exists>n. jget c ''name'' JNull = Inr (JStr n) \<and> n \<in> set allowed" if b
  proof -
    obtain v where "jget c ''name'' JNull = Inr v" using b(1) by (auto simp: capability_allowed_def res_simps)
    then show ?thesis using b(1) that by (cases v) (auto simp: capability_allowed_def)
  qed
  then show ?case using Cons.IH[OF b(2)] b(3) by auto
qed simp

lemma wf_members: "wf_json v \<Longrightarrow> jget v k d = Inr w \<Longrightarrow> wf_json d \<Longrightarrow> wf_json w"
  by (auto simp: jget_def split: json.splits option.splits dest!: map_of_SomeD)

lemma wf_py_iter: "wf_json v \<Longrightarrow> py_iter v = Inr vs \<Longrightarrow> x \<in> set vs \<Longrightarrow> wf_json x"
  by (auto simp: py_iter_def split: json.splits)

lemma wf_dict_set: "wf_json (JObj kvs) \<Longrightarrow> wf_json v \<Longrightarrow> wf_json (JObj (dict_set k v kvs))"
proof (induction kvs)
  case (Cons kv kvs)
  then show ?case by (cases kv) (auto simp: fst_dict_set simp del: image_set)
qed simp

lemma disclose_Some:
  assumes "disclose p e = Inr (Some e')" and wf: "wf_json (env_payload e)"
  shows "discloses p e' \<and> message_id e' = message_id e \<and> source_id e' = source_id e \<and> env_stream e' = env_stream e \<and>
    wf_json (env_payload e') \<and> (valid_envelope e \<longrightarrow> valid_envelope e')"
proof (cases "message_type e = ''manifest''")
  case False
  then show ?thesis using assms by (auto simp: disclose_def discloses_def split: if_splits)
next
  case True
  then obtain v caps kept where k: "message_type e \<in> set (pe_allowed_message_types p)"
      "jget (env_payload e) ''capabilities'' (JArr []) = Inr v" "py_iter v = Inr caps"
      "keep_allowed (pe_allowed_capabilities p) caps = Inr kept"
      "e' = e\<lparr>env_payload := set_member ''capabilities'' (JArr kept) (env_payload e)\<rparr>"
    using assms(1) by (auto simp: disclose_def res_simps split: if_splits)
  obtain kvs where kvs: "env_payload e = JObj kvs" using k(2) by (auto simp: jget_def split: json.splits)
  have "wf_json v" using wf_members[OF wf k(2)] by simp
  then have "\<forall>c\<in>set kept. wf_json c" using wf_py_iter[OF _ k(3)] keep_allowed_names[OF k(4)] by blast
  then have "wf_json (JObj (dict_set ''capabilities'' (JArr kept) kvs))" using wf_dict_set[of kvs "JArr kept"] wf kvs by simp
  then show ?thesis using k(1,5) kvs keep_allowed_names[OF k(4)] True
    by (simp add: discloses_def set_member_def valid_envelope_def is_object_def)
qed

lemma jget_canon: "wf_json v \<Longrightarrow> jget v k JNull = Inr w \<Longrightarrow> jget (canon v) k JNull = Inr (canon w)"
proof -
  assume v: "wf_json v" "jget v k JNull = Inr w"
  then obtain kvs where kvs: "v = JObj kvs" "distinct (map fst kvs)" by (auto simp: jget_def split: json.splits)
  then show ?thesis using v(2) by (cases "map_of kvs k") (auto simp: map_of_canon simp del: map_of_eq_Some_iff)
qed

lemma discloses_canon:
  assumes "discloses p e" "wf_json (env_payload e)"
  shows "discloses p (canon_envelope e)"
proof -
  have c: "\<exists>n. jget (canon c) ''name'' JNull = Inr (JStr n) \<and> n \<in> A"
    if "wf_json c" "jget c ''name'' JNull = Inr (JStr n)" "n \<in> A" for c n A
    using jget_canon[OF that(1,2)] that(3) by simp
  have "\<exists>cs'. jget (canon (env_payload e)) ''capabilities'' JNull = Inr (JArr cs') \<and>
      (\<forall>c\<in>set cs'. \<exists>n. jget c ''name'' JNull = Inr (JStr n) \<and> n \<in> set (pe_allowed_capabilities p))"
    if cs: "jget (env_payload e) ''capabilities'' JNull = Inr (JArr cs)"
      "\<forall>c\<in>set cs. \<exists>n. jget c ''name'' JNull = Inr (JStr n) \<and> n \<in> set (pe_allowed_capabilities p)" for cs
  proof (intro exI[of _ "map canon cs"] conjI ballI)
    show "jget (canon (env_payload e)) ''capabilities'' JNull = Inr (JArr (map canon cs))"
      using jget_canon[OF assms(2) cs(1)] by simp
    fix c assume "c \<in> set (map canon cs)"
    then obtain d where d: "d \<in> set cs" "c = canon d" by auto
    have "wf_json d" using wf_members[OF assms(2) cs(1)] d(1) by simp
    then show "\<exists>n. jget c ''name'' JNull = Inr (JStr n) \<and> n \<in> set (pe_allowed_capabilities p)"
      using cs(2) d c by blast
  qed
  then show ?thesis using assms(1) unfolding discloses_def canon_envelope_def by force
qed

section \<open>The invariant\<close>

text \<open>With \<open>V\<close> every published envelope is one that the decoder accepts.\<close>

definition sendable :: "peer_endpoint set \<Rightarrow> string \<Rightarrow> string \<Rightarrow> envelope \<Rightarrow> bool" where
  "sendable pol rid peer e = (source_id e = rid \<and> (\<exists>p\<in>pol. pe_robot_id p = peer \<and> discloses p e))"

definition acknowledged :: "sender \<Rightarrow> string \<Rightarrow> string \<Rightarrow> bool" where
  "acknowledged send peer mid = (\<exists>k p e ack. send k p e = Inr ack \<and> pe_robot_id p = peer \<and> message_id e = mid)"

definition row_safe :: "bool \<Rightarrow> peer_endpoint set \<Rightarrow> sender \<Rightarrow> string \<Rightarrow> outbox_row \<Rightarrow> bool" where
  "row_safe V pol send rid r =
     ((\<forall>e. decode_envelope (or_envelope r) = Inr e \<longrightarrow> message_id e = or_message_id r \<and> sendable pol rid (or_peer_id r) e) \<and>
      (V \<longrightarrow> is_ok (decode_envelope (or_envelope r))) \<and>
      (or_status r = DsDelivered \<longrightarrow> acknowledged send (or_peer_id r) (or_message_id r)))"

definition outbox_safe :: "bool \<Rightarrow> peer_endpoint set \<Rightarrow> sender \<Rightarrow> string \<Rightarrow> outbox \<Rightarrow> bool" where
  "outbox_safe V pol send rid ob = (ob_inv ob \<and> (\<forall>r\<in>set (ob_rows ob). row_safe V pol send rid r))"

definition net_inv :: "bool \<Rightarrow> peer_endpoint set \<Rightarrow> sender \<Rightarrow> string \<Rightarrow> 'h network_bus \<Rightarrow> bool" where
  "net_inv V pol send rid nb =
     (nb_robot_id nb = rid \<and> (\<forall>(k, p)\<in>set (nb_peers nb). pe_robot_id p = k \<and> p \<in> pol) \<and>
      (\<forall>ob. nb_outbox nb = Some ob \<longrightarrow> outbox_safe V pol send rid ob))"

definition effects_safe :: "peer_endpoint set \<Rightarrow> string \<Rightarrow> 'h network_effect list \<Rightarrow> bool" where
  "effects_safe pol rid out = (\<forall>p e. NbSent p e \<in> set out \<longrightarrow> sendable pol rid (pe_robot_id p) e)"

lemma effects_safe_simps [simp]:
  "effects_safe pol rid []" "effects_safe pol rid (out @ out') \<longleftrightarrow> effects_safe pol rid out \<and> effects_safe pol rid out'"
  "effects_safe pol rid (NbSent p e # out) \<longleftrightarrow> sendable pol rid (pe_robot_id p) e \<and> effects_safe pol rid out"
  "effects_safe pol rid (NbCalled h e # out) \<longleftrightarrow> effects_safe pol rid out"
  "effects_safe pol rid (map (\<lambda>h. NbCalled h e) hs)" "effects_safe pol rid (map NbAcked fs)"
  by (auto simp: effects_safe_def)

lemma sendable_mono: "sendable pol rid peer e \<Longrightarrow> pol \<subseteq> pol' \<Longrightarrow> sendable pol' rid peer e"
  unfolding sendable_def by blast

lemma row_safe_mono: "row_safe V pol send rid r \<Longrightarrow> pol \<subseteq> pol' \<Longrightarrow> row_safe V pol' send rid r"
  unfolding row_safe_def by (meson sendable_mono)

lemma net_inv_mono: "net_inv V pol send rid nb \<Longrightarrow> pol \<subseteq> pol' \<Longrightarrow> net_inv V pol' send rid nb"
proof -
  assume inv: "net_inv V pol send rid nb" and sub: "pol \<subseteq> pol'"
  have "outbox_safe V pol' send rid ob" if "outbox_safe V pol send rid ob" for ob
    using that sub unfolding outbox_safe_def by (meson row_safe_mono)
  then show ?thesis using inv sub by (auto simp: net_inv_def)
qed

lemma effects_safe_mono: "effects_safe pol rid out \<Longrightarrow> pol \<subseteq> pol' \<Longrightarrow> effects_safe pol' rid out"
  unfolding effects_safe_def by (meson sendable_mono)

lemma net_inv_fields [simp]:
  "net_inv V pol send rid (nb\<lparr>nb_attempts := k\<rparr>) = net_inv V pol send rid nb"
  "net_inv V pol send rid (nb\<lparr>nb_local := b\<rparr>) = net_inv V pol send rid nb"
  "net_inv V pol send rid (nb\<lparr>nb_server := sv\<rparr>) = net_inv V pol send rid nb"
  "net_inv V pol send rid (record_delivery_error q err nb) = net_inv V pol send rid nb"
  by (simp_all add: net_inv_def record_delivery_error_def Let_def)

lemma net_inv_outbox:
  assumes "net_inv V pol send rid nb" "\<And>ob. outbox_safe V pol send rid ob \<Longrightarrow> outbox_safe V pol send rid (fst (f ob))"
  shows "net_inv V pol send rid (fst (outbox_call f nb))"
  using assms by (auto simp: net_inv_def outbox_call_def split: option.splits prod.splits) (metis fst_conv)

lemma row_safe_change:
  assumes "row_safe V pol send rid r" "or_peer_id r' = or_peer_id r" "or_message_id r' = or_message_id r"
    "or_envelope r' = or_envelope r"
    "or_status r' = or_status r \<or> acknowledged send (or_peer_id r) (or_message_id r)"
  shows "row_safe V pol send rid r'"
  using assms unfolding row_safe_def by metis

lemma outbox_safe_upd:
  assumes "outbox_safe V pol send rid ob" "\<And>r. P r \<Longrightarrow> row_safe V pol send rid r \<Longrightarrow> row_safe V pol send rid (f r)"
    and "ob_inv ob'" "ob_rows ob' = upd_where P f (ob_rows ob)"
  shows "outbox_safe V pol send rid ob'"
  using assms by (auto simp: outbox_safe_def set_upd_where)

lemma outbox_safe_failed:
  assumes "outbox_safe V pol send rid ob"
  shows "outbox_safe V pol send rid (fst (failed peer mid msg now base mx ob))"
proof -
  have inv: "ob_inv ob" using assms by (simp add: outbox_safe_def)
  show ?thesis
  proof (cases "find (\<lambda>r. or_peer_id r = peer \<and> or_message_id r = mid \<and> or_status r = DsPending) (ob_rows ob)")
    case None
    then show ?thesis using assms by (simp add: failed_def)
  next
    case (Some row)
    then have "0 \<le> or_attempts row" using inv by (auto simp: find_Some_iff ob_inv_def)
    then have "ob_inv (failed_row peer mid msg now delay (or_attempts row + 1) ob)" for delay using ob_inv_failed_row[OF inv] by simp
    then have "outbox_safe V pol send rid (failed_row peer mid msg now delay (or_attempts row + 1) ob)" for delay
      unfolding failed_row_def by (rule outbox_safe_upd[OF assms, rotated]) (simp, erule row_safe_change, simp_all)
    then show ?thesis using assms failed_cases[OF Some, of msg now base mx] by auto
  qed
qed

lemma outbox_safe_delivered:
  assumes "outbox_safe V pol send rid ob" "acknowledged send peer mid"
  shows "outbox_safe V pol send rid (fst (delivered peer mid now ob))"
proof -
  have "ob_inv (delivered_row peer mid now ob)" using assms by (simp add: outbox_safe_def ob_inv_delivered_row)
  then have "outbox_safe V pol send rid (delivered_row peer mid now ob)" unfolding delivered_row_def
    by (rule outbox_safe_upd[OF assms(1), rotated]) (simp, erule row_safe_change, use assms(2) in auto)
  then show ?thesis using assms(1) delivered_cases[of peer mid now ob] by auto
qed

section \<open>Sending keeps it\<close>

definition item_safe :: "peer_endpoint set \<Rightarrow> string \<Rightarrow> pending_delivery \<Rightarrow> bool" where
  "item_safe pol rid i = sendable pol rid (pd_peer_id i) (pd_envelope i)"

lemma rmap_member: "rmap f xs = Inr ys \<Longrightarrow> y \<in> set ys \<Longrightarrow> \<exists>x\<in>set xs. f x = Inr y"
  by (induction xs arbitrary: ys) (auto simp: rbind_Inr_iff)

lemma ready_safe:
  assumes "outbox_safe V pol send rid ob" "ready now limit strm ob = Inr items"
  shows "\<forall>i\<in>set items. item_safe pol rid i"
proof
  fix i assume "i \<in> set items"
  then obtain r where r: "r \<in> set (ready_rows now limit strm ob)" "rbind (decode_envelope (or_envelope r)) (\<lambda>e.
      Inr \<lparr>pd_peer_id = or_peer_id r, pd_envelope = e, pd_attempts = or_attempts r, pd_next_attempt_ms = or_next_attempt_ms r\<rparr>) = Inr i"
    using assms(2) unfolding ready_def by (auto simp: rbind_Inr_iff dest: rmap_member)
  then have "decode_envelope (or_envelope r) = Inr (pd_envelope i)" "pd_peer_id i = or_peer_id r" by (auto simp: rbind_Inr_iff)
  moreover have "row_safe V pol send rid r" using ready_rows_set[OF r(1)] assms(1) by (simp add: outbox_safe_def)
  ultimately show "item_safe pol rid i" by (simp add: row_safe_def item_safe_def)
qed

lemma deliver_item_safe:
  assumes inv: "net_inv V pol send rid nb" and i: "item_safe pol rid i"
    and run: "deliver_item describe send now i nb = (nb', out, r)"
  shows "net_inv V pol send rid nb' \<and> effects_safe pol rid out"
proof -
  have fl: "net_inv V pol send rid (fst (mark_failed i msg now nb1))" if "net_inv V pol send rid nb1" for msg and nb1 :: "'a network_bus"
    unfolding mark_failed_def by (rule net_inv_outbox[OF that outbox_safe_failed])
  show ?thesis
  proof (cases "map_of (nb_peers nb) (pd_peer_id i)")
    case None
    obtain nb2 r2 where mf: "mark_failed i (''outbox peer is not configured: '' @ pd_peer_id i) now nb = (nb2, r2)" by fastforce
    then have "net_inv V pol send rid nb2" using fl[OF inv] by (metis fst_conv)
    then show ?thesis using run None mf by (simp add: deliver_item_def)
  next
    case (Some p)
    have p: "pe_robot_id p = pd_peer_id i" using map_of_SomeD[OF Some] inv by (auto simp: net_inv_def)
    have sent: "sendable pol rid (pe_robot_id p) (pd_envelope i)" using i p by (simp add: item_safe_def)
    let ?nb = "nb\<lparr>nb_attempts := Suc (nb_attempts nb)\<rparr>"
    have inv1: "net_inv V pol send rid ?nb" using inv by simp
    show ?thesis
    proof (cases "send (nb_attempts nb) p (pd_envelope i)")
      case (Inl err)
      obtain nb2 r2 where mf: "mark_failed i (describe err) now ?nb = (nb2, r2)" by fastforce
      then have "net_inv V pol send rid nb2" using fl[OF inv1] by (metis fst_conv)
      moreover have "(nb', out) \<in> {(nb2, [NbSent p (pd_envelope i)]), (?nb, [NbSent p (pd_envelope i)]),
          (record_delivery_error p err nb2, [NbSent p (pd_envelope i)])}"
        using run by (cases r2) (auto simp: deliver_item_def Let_def Some Inl mf simp del: map_of_eq_Some_iff split: if_splits)
      ultimately show ?thesis using sent inv1 by auto
    next
      case (Inr ack)
      then have ack: "acknowledged send (pd_peer_id i) (message_id (pd_envelope i))" using p unfolding acknowledged_def by metis
      obtain nb2 r2 where dl: "outbox_call (delivered (pd_peer_id i) (message_id (pd_envelope i)) now) ?nb = (nb2, r2)" by fastforce
      have "net_inv V pol send rid (fst (outbox_call (delivered (pd_peer_id i) (message_id (pd_envelope i)) now) ?nb))"
        by (rule net_inv_outbox[OF inv1]) (rule outbox_safe_delivered[OF _ ack])
      then have "net_inv V pol send rid nb2" unfolding dl by simp
      moreover have "nb' = nb2 \<and> out = [NbSent p (pd_envelope i)]"
        using run by (simp add: deliver_item_def Let_def Some Inr dl del: map_of_eq_Some_iff)
      ultimately show ?thesis using sent by simp
    qed
  qed
qed

lemma deliver_items_safe:
  assumes "net_inv V pol send rid nb" "\<forall>i\<in>set items. item_safe pol rid i" "deliver_items describe send now items nb = (nb', out, r)"
  shows "net_inv V pol send rid nb' \<and> effects_safe pol rid out"
  using assms
proof (induction items arbitrary: nb nb' out r)
  case (Cons i items)
  obtain nb1 out1 r1 where one: "deliver_item describe send now i nb = (nb1, out1, r1)" by (metis prod_cases3)
  obtain nb2 out2 r2 where rest: "deliver_items describe send now items nb1 = (nb2, out2, r2)" by (metis prod_cases3)
  have s: "net_inv V pol send rid nb1" "effects_safe pol rid out1" using deliver_item_safe one Cons.prems by (simp, blast)+
  then have "net_inv V pol send rid nb2 \<and> effects_safe pol rid out2" using Cons.IH[OF s(1) _ rest] Cons.prems(2) by simp
  then show ?case using Cons.prems(3) one rest s by (auto split: sum.splits)
qed auto

lemma flush_loop_safe:
  assumes "net_inv V pol send rid nb" "flush_loop describe send now limit strm n nb = (nb', out, r)"
  shows "net_inv V pol send rid nb' \<and> effects_safe pol rid out"
  using assms
proof (induction describe send now limit strm n nb arbitrary: nb' out r rule: flush_loop.induct)
  case (1 describe send now limit strm n nb)
  show ?case
  proof (cases "n < limit \<and> (\<exists>ob items. nb_outbox nb = Some ob \<and> ready now (limit - n) (Some strm) ob = Inr items \<and> items \<noteq> [])")
    case False
    then show ?thesis using "1.prems" by (auto simp: flush_loop.simps[of _ _ _ _ _ n] split: if_splits option.splits sum.splits)
  next
    case True
    then obtain ob items where ob: "n < limit" "nb_outbox nb = Some ob" "ready now (limit - n) (Some strm) ob = Inr items" "items \<noteq> []"
      by blast
    obtain nb1 out1 r1 where round: "deliver_items describe send now items nb = (nb1, out1, r1)" by (metis prod_cases3)
    have "\<forall>i\<in>set items. item_safe pol rid i" using ready_safe ob(2,3) "1.prems"(1) by (auto simp: net_inv_def)
    then have s: "net_inv V pol send rid nb1" "effects_safe pol rid out1" using deliver_items_safe[OF "1.prems"(1) _ round] by auto
    show ?thesis
    proof (cases "\<exists>k. r1 = Inr k \<and> k \<noteq> 0")
      case False
      then have "nb' = nb1 \<and> out = out1"
        using "1.prems"(2) ob round by (auto simp: flush_loop.simps[of _ _ _ _ _ n] split: sum.splits if_splits)
      then show ?thesis using s by simp
    next
      case True
      then obtain k where k: "r1 = Inr k" "k \<noteq> 0" by blast
      obtain nb2 out2 r2 where rest: "flush_loop describe send now limit strm (n + int k) nb1 = (nb2, out2, r2)" by (metis prod_cases3)
      have res: "nb' = nb2 \<and> out = out1 @ out2"
        using "1.prems"(2) ob round k rest by (simp add: flush_loop.simps[of _ _ _ _ _ n])
      have "net_inv V pol send rid nb2 \<and> effects_safe pol rid out2"
        using "1.IH"[of ob items nb1 "(out1, r1)" out1 r1 k] ob round k rest s(1) by simp
      then show ?thesis using res s(2) by simp
    qed
  qed
qed

lemma flush_stream_safe:
  "net_inv V pol send rid nb \<Longrightarrow> flush_stream describe send now limit strm nb = (nb', out, r) \<Longrightarrow>
     net_inv V pol send rid nb' \<and> effects_safe pol rid out"
  unfolding flush_stream_def by (auto split: if_splits dest: flush_loop_safe)

lemma flush_safe:
  assumes "net_inv V pol send rid nb" "flush describe send now limit strm nb = (nb', out, r)"
  shows "net_inv V pol send rid nb' \<and> effects_safe pol rid out"
proof (cases "nb_outbox nb = None \<or> strm \<noteq> None")
  case True
  then show ?thesis using assms by (cases strm) (auto simp: flush_def split: if_splits dest: flush_stream_safe)
next
  case False
  obtain nb1 out1 r1 where one: "flush_stream describe send now limit SAFETY_STREAM nb = (nb1, out1, r1)" by (metis prod_cases3)
  have s: "net_inv V pol send rid nb1" "effects_safe pol rid out1" using flush_stream_safe[OF assms(1) one] by auto
  show ?thesis
  proof (cases "\<exists>n. r1 = Inr n \<and> n < limit")
    case False
    then have "nb' = nb1 \<and> out = out1" using assms(2) one \<open>\<not> (nb_outbox nb = None \<or> strm \<noteq> None)\<close>
      by (auto simp: flush_def split: sum.splits if_splits)
    then show ?thesis using s by simp
  next
    case True
    then obtain n where n: "r1 = Inr n" "n < limit" by blast
    obtain nb2 out2 r2 where two: "flush_stream describe send now (limit - n) OPERATIONAL_STREAM nb1 = (nb2, out2, r2)"
      by (metis prod_cases3)
    have "nb' = nb2 \<and> out = out1 @ out2" using assms(2) one two n \<open>\<not> (nb_outbox nb = None \<or> strm \<noteq> None)\<close>
      by (auto simp: flush_def split: sum.splits)
    then show ?thesis using flush_stream_safe[OF s(1) two] s(2) by simp
  qed
qed

lemma retry_turn_safe:
  assumes "net_inv V pol send rid nb" "retry_turn describe send now1 now2 nb = (nb', out, r)"
  shows "net_inv V pol send rid nb' \<and> effects_safe pol rid out"
proof -
  obtain nb1 out1 r1 where one: "flush describe send now1 256 (Some SAFETY_STREAM) nb = (nb1, out1, r1)" by (metis prod_cases3)
  obtain nb2 out2 r2 where two: "flush describe send now2 256 (Some OPERATIONAL_STREAM) nb1 = (nb2, out2, r2)" by (metis prod_cases3)
  have s: "net_inv V pol send rid nb1" "effects_safe pol rid out1" using flush_safe[OF assms(1) one] by auto
  show ?thesis using assms(2) one two s flush_safe[OF s(1) two]
    by (auto simp: retry_turn_def split: sum.splits)
qed

section \<open>Publishing keeps it\<close>

lemma disclosures_spec:
  "disclosures ps e = Inr ds \<Longrightarrow> (p, e') \<in> set ds \<Longrightarrow> p \<in> set ps \<and> disclose p e = Inr (Some e')"
  by (induction ps arbitrary: ds) (auto simp: rbind_Inr_iff split: option.splits)

lemma send_all_safe:
  assumes "net_inv V pol send rid nb" "\<forall>(p, e)\<in>set ds. sendable pol rid (pe_robot_id p) e" "send_all send ds nb = (nb', out, r)"
  shows "net_inv V pol send rid nb' \<and> effects_safe pol rid out"
  using assms
proof (induction ds arbitrary: nb nb' out r)
  case (Cons d ds)
  obtain p e where d: "d = (p, e)" by (cases d)
  let ?nb = "nb\<lparr>nb_attempts := Suc (nb_attempts nb)\<rparr>"
  have inv: "net_inv V pol send rid ?nb" "net_inv V pol send rid (record_delivery_error p err ?nb)" for err using Cons.prems(1) by simp_all
  have s: "sendable pol rid (pe_robot_id p) e" using Cons.prems(2) d by simp
  have all: "\<forall>(p, e)\<in>set ds. sendable pol rid (pe_robot_id p) e" using Cons.prems(2) by simp
  show ?case
  proof (cases "send (nb_attempts nb) p e")
    case (Inl err)
    show ?thesis
    proof (cases "send_caught err")
      case True
      obtain nb2 out2 r2 where rest: "send_all send ds (record_delivery_error p err ?nb) = (nb2, out2, r2)" by (metis prod_cases3)
      show ?thesis using Cons.IH[OF inv(2) all rest] Cons.prems(3) d Inl True rest s by (auto simp: Let_def)
    qed (use Cons.prems(3) d Inl s inv in \<open>auto simp: Let_def\<close>)
  next
    case (Inr ack)
    obtain nb2 out2 r2 where rest: "send_all send ds ?nb = (nb2, out2, r2)" by (metis prod_cases3)
    show ?thesis using Cons.IH[OF inv(1) all rest] Cons.prems(3) d Inr rest s by (auto simp: Let_def)
  qed
qed simp

lemma enqueue_many_rows:
  assumes "enqueue_many ds now b = (b', Inr ())"
  shows "\<exists>rows. ob_rows b' = ob_rows b @ rows \<and> (\<forall>x\<in>set rows. or_status x = DsPending \<and>
    (\<exists>d\<in>set ds. row_key x = delivery_key d \<and> encode_envelope (snd d) = Inr (or_envelope x)))"
  using enqueue_many_Inr[OF assms] by (elim exE conjE) (intro exI conjI, assumption, meson)

lemma stored_row_safe:
  assumes "disclose p e = Inr (Some e')" "wf_json (env_payload e)" "p \<in> pol" "source_id e = rid"
    and "encode_envelope e' = Inr (or_envelope r)" "or_peer_id r = pe_robot_id p" "or_message_id r = message_id e'"
    and "or_status r = DsPending" and "V \<longrightarrow> valid_envelope e"
  shows "row_safe V pol send rid r"
proof -
  have d: "discloses p e'" "source_id e' = rid" "wf_json (env_payload e')" using disclose_Some[OF assms(1,2)] assms(4) by auto
  have "message_id x = or_message_id r \<and> sendable pol rid (or_peer_id r) x" if "decode_envelope (or_envelope r) = Inr x" for x
  proof -
    have x: "x = canon_envelope e'" using decode_encoded[OF assms(5) d(3)] that by blast
    have "discloses p x" using discloses_canon[OF d(1,3)] x by simp
    then show ?thesis using x d(2) assms(3,6,7) by (auto simp: sendable_def canon_envelope_def)
  qed
  moreover have "is_ok (decode_envelope (or_envelope r))" if V
    using decode_encoded[OF assms(5) d(3)] valid_canon_envelope disclose_Some[OF assms(1,2)] assms(9) that by (auto simp: is_ok_iff)
  ultimately show ?thesis using assms(8) by (simp add: row_safe_def)
qed

lemma store_disclosures_safe:
  assumes inv: "net_inv V pol send rid nb" and src: "source_id e = rid" and wf: "wf_json (env_payload e)" and v: "V \<longrightarrow> valid_envelope e"
    and ds: "disclosures (map snd (nb_peers nb)) e = Inr ds" and run: "store_disclosures now ds nb = (nb', r)"
  shows "net_inv V pol send rid nb' \<and> (\<forall>(p, e')\<in>set ds. sendable pol rid (pe_robot_id p) e')"
proof
  have known: "p \<in> pol \<and> disclose p e = Inr (Some e')" if "(p, e') \<in> set ds" for p e'
    using disclosures_spec[OF ds that] inv by (auto simp: net_inv_def)
  show "\<forall>(p, e')\<in>set ds. sendable pol rid (pe_robot_id p) e'"
    using known disclose_Some[OF _ wf] src by (fastforce simp: sendable_def)
  show "net_inv V pol send rid nb'"
  proof (cases "nb_outbox nb")
    case None
    then show ?thesis using run inv by (simp add: store_disclosures_def)
  next
    case (Some ob)
    obtain ob' r' where q: "enqueue_many (map (\<lambda>(p, e). (pe_robot_id p, e)) ds) now ob = (ob', r')" by fastforce
    have old: "outbox_safe V pol send rid ob" using inv Some by (simp add: net_inv_def)
    have "outbox_safe V pol send rid ob'"
    proof (cases r')
      case (Inl err)
      then show ?thesis using enqueue_many_Inl q old by blast
    next
      case (Inr u)
      then have q': "enqueue_many (map (\<lambda>(p, e). (pe_robot_id p, e)) ds) now ob = (ob', Inr ())" using q by simp
      obtain rows where rows: "ob_rows ob' = ob_rows ob @ rows" "\<forall>x\<in>set rows. or_status x = DsPending \<and>
          (\<exists>d\<in>set (map (\<lambda>(p, e). (pe_robot_id p, e)) ds). row_key x = delivery_key d \<and> encode_envelope (snd d) = Inr (or_envelope x))"
        using enqueue_many_rows[OF q'] by (elim exE conjE) (rule that)
      have "row_safe V pol send rid x" if x: "x \<in> set rows" for x
      proof -
        obtain p e' where d: "(p, e') \<in> set ds" "row_key x = (pe_robot_id p, message_id e')" "encode_envelope e' = Inr (or_envelope x)"
          using rows(2) x by (fastforce simp: delivery_key_def)
        show ?thesis using stored_row_safe[of p e e' pol rid x V send] known[OF d(1)] wf v src d rows(2) x by (simp add: row_key_def)
      qed
      moreover have "ob_inv ob'" using ob_inv_enqueue[of ob] old q' by (metis fst_conv outbox_safe_def)
      ultimately show ?thesis using old rows(1) by (auto simp: outbox_safe_def)
    qed
    then show ?thesis using run inv Some q by (auto simp: store_disclosures_def net_inv_def)
  qed
qed

lemma publish_locally_safe:
  "net_inv V pol send rid nb \<Longrightarrow> publish_locally call e nb = (nb', out, r) \<Longrightarrow> net_inv V pol send rid nb' \<and> effects_safe pol rid out"
  by (auto simp: publish_locally_def split: prod.splits)

lemma nb_publish_safe:
  assumes inv: "net_inv V pol send rid nb" and wf: "wf_json (env_payload e)" and v: "V \<longrightarrow> valid_envelope e"
    and run: "nb_publish describe send call now1 now2 e nb = (nb', out, r)"
  shows "net_inv V pol send rid nb' \<and> effects_safe pol rid out"
proof (cases "source_id e = rid \<and> is_ok (disclosures (map snd (nb_peers nb)) e)")
  case False
  then show ?thesis using run inv by (auto simp: nb_publish_def net_inv_def is_ok_def split: if_splits sum.splits)
next
  case True
  then obtain ds where ds: "disclosures (map snd (nb_peers nb)) e = Inr ds" by (auto simp: is_ok_iff)
  have src: "source_id e = nb_robot_id nb" using True inv by (simp add: net_inv_def)
  obtain nb1 r1 where st: "store_disclosures now1 ds nb = (nb1, r1)" by fastforce
  obtain nb2 out2 r2 where loc: "publish_locally call e nb1 = (nb2, out2, r2)" by (metis prod_cases3)
  obtain nb3 out3 r3 where fl: "flush describe send now2 256 (Some (env_stream e)) nb2 = (nb3, out3, r3)" by (metis prod_cases3)
  obtain nb4 out4 r4 where sd: "send_all send ds nb2 = (nb4, out4, r4)" by (metis prod_cases3)
  have s1: "net_inv V pol send rid nb1" "\<forall>(p, e')\<in>set ds. sendable pol rid (pe_robot_id p) e'"
    using store_disclosures_safe[OF inv _ wf v ds st] True by auto
  have s2: "net_inv V pol send rid nb2" "effects_safe pol rid out2" using publish_locally_safe[OF s1(1) loc] by auto
  have "(nb', out) = (nb1, []) \<or> (nb', out) = (nb2, out2) \<or> (nb', out) = (nb3, out2 @ out3) \<or> (nb', out) = (nb4, out2 @ out4)"
    using run src ds st loc fl sd by (auto simp: nb_publish_def split: sum.splits if_splits)
  then show ?thesis using s1(1) s2 flush_safe[OF s2(1) fl] send_all_safe[OF s2(1) s1(2) sd] by auto
qed

section \<open>The other operations keep it\<close>

lemma add_peer_safe:
  assumes "net_inv V pol send rid nb" "add_peer p nb = Inr nb'"
  shows "net_inv V (insert p pol) send rid nb'"
proof -
  have nb': "nb' = nb\<lparr>nb_peers := AList.update (pe_robot_id p) p (nb_peers nb)\<rparr>"
    using assms(2) by (auto simp: add_peer_def split: if_splits)
  have "set (AList.update k v al) \<subseteq> insert (k, v) (set al)" for k :: string and v :: peer_endpoint and al
    by (induction al) auto
  then have "set (nb_peers nb') \<subseteq> insert (pe_robot_id p, p) (set (nb_peers nb))" by (simp add: nb')
  moreover have "net_inv V (insert p pol) send rid nb" using net_inv_mono[OF assms(1)] by blast
  ultimately show ?thesis by (auto simp: nb' net_inv_def)
qed

lemma remove_peer_safe: "net_inv V pol send rid nb \<Longrightarrow> net_inv V pol send rid (remove_peer p nb)"
proof -
  have "set (AList.delete k al) \<subseteq> set al" for k :: string and al :: "(string \<times> peer_endpoint) list"
    by (auto simp: AList.delete_eq)
  then show "net_inv V pol send rid nb \<Longrightarrow> net_inv V pol send rid (remove_peer p nb)"
    unfolding net_inv_def remove_peer_def by simp blast
qed

lemma receive_authenticated_calls:
  "receive_authenticated rid call e (b, out) = ((b', out'), r) \<Longrightarrow> effects_safe pol rid' out \<Longrightarrow> effects_safe pol rid' out'"
  by (auto simp: receive_authenticated_def split: if_splits prod.splits)

lemma nb_connection_safe:
  assumes "net_inv V pol send rid nb" "nb_connection sha revoked call write clock c nb = (nb', out, r)"
  shows "net_inv V pol send rid nb' \<and> effects_safe pol rid out"
proof -
  obtain sv b out1 acks r1 where run: "handle_connection sha revoked (receive_authenticated (nb_robot_id nb) call) write clock c
      (nb_server nb, (nb_local nb, [])) = ((sv, (b, out1)), acks, r1)" by (metis prod_cases5 prod_cases3)
  have h: "effects_safe pol rid (snd (fst (receive_authenticated (nb_robot_id nb) call e (nb_local nb, []))))" for e
    using receive_authenticated_calls[of "nb_robot_id nb" call e "nb_local nb" "[]"] by (metis effects_safe_simps(1) prod.collapse)
  have "effects_safe pol rid out1"
    using run h unfolding handle_connection_def connection_body_def settle_def
    by (auto split: prod.splits sum.splits if_splits bool.splits) (metis fst_conv snd_conv)+
  then show ?thesis using assms run by (auto simp: nb_connection_def net_inv_def)
qed

lemma nb_restart_safe: "net_inv V pol send rid nb \<Longrightarrow> net_inv V pol send rid (nb_restart nb)"
  by (auto simp: nb_restart_def net_inv_def split: sum.splits)

section \<open>Every history\<close>

fun event_ok :: "bool \<Rightarrow> nb_event \<Rightarrow> bool" where
  "event_ok V (NePublish now1 now2 e) = (wf_json (env_payload e) \<and> (V \<longrightarrow> valid_envelope e))"
| "event_ok V _ = True"

definition policies :: "nb_event list \<Rightarrow> peer_endpoint set" where
  "policies evs = {p. NeAddPeer p \<in> set evs}"

lemma nb_do_safe:
  assumes inv: "net_inv V pol (en_send en) rid nb" and ok: "event_ok V ev" and run: "nb_do en ev nb = (nb', out)"
  shows "net_inv V (pol \<union> policies [ev]) (en_send en) rid nb' \<and> effects_safe (pol \<union> policies [ev]) rid out"
proof -
  have "net_inv V pol (en_send en) rid nb' \<and> effects_safe pol rid out" if "\<And>p. ev \<noteq> NeAddPeer p"
  proof (cases ev)
    case (NeRemovePeer x)
    then show ?thesis using run remove_peer_safe[OF inv] by auto
  next
    case (NePublish now1 now2 e)
    then show ?thesis using run ok nb_publish_safe[OF inv] by (auto split: prod.splits)
  next
    case (NeFlush now limit strm)
    then show ?thesis using run flush_safe[OF inv] by (auto split: prod.splits)
  next
    case (NeRetry now1 now2)
    then show ?thesis using run retry_turn_safe[OF inv] by (auto split: prod.splits)
  next
    case (NeConnection clock c)
    then show ?thesis using run nb_connection_safe[OF inv] by (auto split: prod.splits)
  next
    case (NeClaim now)
    then show ?thesis using run inv by (auto simp: worker_claim_def split: option.splits prod.splits)
  next
    case (NeHandle now e)
    then show ?thesis using run inv receive_authenticated_calls[of "nb_robot_id nb" "en_call en" e "nb_local nb" "[]"]
      by (auto simp: worker_handle_def net_inv_def split: prod.splits)
  next
    case NeRestart
    then show ?thesis using run nb_restart_safe[OF inv] by auto
  qed (use that in auto)
  moreover have ?thesis if "ev = NeAddPeer p" for p
    using that run add_peer_safe[OF inv, of p] net_inv_mono[OF inv, of "insert p pol"]
    by (auto simp: policies_def split: sum.splits)
  ultimately show ?thesis using net_inv_mono[of V pol "en_send en" rid nb' "pol \<union> policies [ev]"]
      effects_safe_mono[of pol rid out "pol \<union> policies [ev]"] by blast
qed

lemma nb_history_safe:
  assumes "net_inv V pol (en_send en) rid nb" "\<forall>ev\<in>set evs. event_ok V ev" "nb_history en evs nb = (nb', out)"
  shows "net_inv V (pol \<union> policies evs) (en_send en) rid nb' \<and> effects_safe (pol \<union> policies evs) rid out"
  using assms
proof (induction evs arbitrary: pol nb nb' out)
  case (Cons ev evs)
  obtain nb1 out1 where one: "nb_do en ev nb = (nb1, out1)" by fastforce
  obtain nb2 out2 where rest: "nb_history en evs nb1 = (nb2, out2)" by fastforce
  let ?pol = "pol \<union> policies [ev]"
  have s: "net_inv V ?pol (en_send en) rid nb1" "effects_safe ?pol rid out1" using nb_do_safe[OF Cons.prems(1) _ one] Cons.prems(2) by auto
  have all: "pol \<union> policies (ev # evs) = ?pol \<union> policies evs" by (auto simp: policies_def)
  have t: "net_inv V (?pol \<union> policies evs) (en_send en) rid nb2 \<and> effects_safe (?pol \<union> policies evs) rid out2"
    using Cons.IH[OF s(1) _ rest] Cons.prems(2) by simp
  have "effects_safe (?pol \<union> policies evs) rid out1" using effects_safe_mono[OF s(2)] by blast
  then show ?case using t all Cons.prems(3) one rest by auto
qed (simp add: policies_def)

lemma net_inv_init:
  assumes "outbox_open maximum reserve [] n u = Inr ob"
  shows "net_inv V {} send rid (nb_init rid (Some ob) sv)"
proof -
  have "ob_inv ob" using ob_inv_open[OF assms] by blast
  moreover have "ob_rows ob = []" using assms by (auto simp: outbox_open_def rbind_Inr_iff Let_def)
  ultimately show ?thesis by (simp add: net_inv_def nb_init_def outbox_safe_def)
qed

lemma net_inv_start:
  assumes "\<forall>b. box = Some b \<longrightarrow> (\<exists>maximum reserve n u. outbox_open maximum reserve [] n u = Inr b)"
  shows "net_inv V {} send rid (nb_init rid box sv)"
proof (cases box)
  case None
  then show ?thesis by (simp add: net_inv_def nb_init_def)
next
  case (Some b)
  then show ?thesis using assms net_inv_init by blast
qed

text \<open>C23: Disclosure. Along every history of the bus of a robot, with an outbox that was empty at the start or without one,
  restarts and changing policies included, every envelope that is given to the client for a peer carries the identity of
  this robot, has a message type, and as a manifest only capabilities, that a policy configured for this very peer
  allows. The payloads given to \<open>publish\<close> are dicts, so their keys are distinct.\<close>

theorem only_disclosed_is_sent:
  assumes "nb_history en evs (nb_init rid box sv) = (nb, out)"
    and "\<forall>b. box = Some b \<longrightarrow> (\<exists>maximum reserve n u. outbox_open maximum reserve [] n u = Inr b)"
    and "\<forall>ev\<in>set evs. event_ok False ev" and "NbSent p e \<in> set out"
  shows "source_id e = rid \<and> (\<exists>q. NeAddPeer q \<in> set evs \<and> pe_robot_id q = pe_robot_id p \<and>
    message_type e \<in> set (pe_allowed_message_types q) \<and>
    (message_type e = ''manifest'' \<longrightarrow>
      (\<exists>cs. jget (env_payload e) ''capabilities'' JNull = Inr (JArr cs) \<and>
        (\<forall>c\<in>set cs. \<exists>n. jget c ''name'' JNull = Inr (JStr n) \<and> n \<in> set (pe_allowed_capabilities q)))))"
proof -
  have "net_inv False {} (en_send en) rid (nb_init rid box sv)"
    by (rule net_inv_start[OF assms(2)])
  then have "effects_safe (policies evs) rid out" using nb_history_safe[OF _ assms(3,1)] by fastforce
  then have "sendable (policies evs) rid (pe_robot_id p) e" using assms(4) unfolding effects_safe_def by blast
  then show ?thesis unfolding sendable_def discloses_def policies_def by blast
qed

text \<open>C24: A delivery is real. Along every history of the bus a row of the outbox counts as delivered only when the client
  returned an acknowledgement for that message from that peer.\<close>

theorem delivered_only_if_acknowledged:
  assumes "nb_history en evs (nb_init rid (Some ob) sv) = (nb, out)" and "outbox_open maximum reserve [] n u = Inr ob"
    and "\<forall>ev\<in>set evs. event_ok False ev" and "nb_outbox nb = Some ob'" and "r \<in> set (ob_rows ob')" and "or_status r = DsDelivered"
  shows "\<exists>k p e ack. en_send en k p e = Inr ack \<and> pe_robot_id p = or_peer_id r \<and> message_id e = or_message_id r"
proof -
  have "net_inv False {} (en_send en) rid (nb_init rid (Some ob) sv)"
    by (rule net_inv_init[OF assms(2)])
  then have "net_inv False (policies evs) (en_send en) rid nb" using nb_history_safe[OF _ assms(3,1)] by fastforce
  then have "row_safe False (policies evs) (en_send en) rid r" using assms(4,5) by (simp add: net_inv_def outbox_safe_def)
  then show ?thesis using assms(6) by (simp add: row_safe_def acknowledged_def)
qed

text \<open>A robot that publishes its manifest to a peer that may see one of its two capabilities.\<close>

definition limited_peer :: peer_endpoint where
  "limited_peer = \<lparr>pe_robot_id = ''r2'', pe_host = ''h'', pe_port = 7000, pe_certificate_sha256 = None,
     pe_allowed_message_types = [''manifest''], pe_allowed_capabilities = [''a/v1'']\<rparr>"

definition sample_manifest :: envelope where
  "sample_manifest = make_envelope ''m1'' ''manifest'' ''r1'' ''s1'' 1 1000
     (JObj [(''capabilities'', JArr [JObj [(''name'', JStr ''a/v1'')], JObj [(''name'', JStr ''b/v1'')]])]) None OPERATIONAL_STREAM"

definition sample_surroundings :: "unit surroundings" where
  "sample_surroundings = \<lparr>en_sha = (\<lambda>s. s), en_revoked = (\<lambda>_. False), en_describe = (\<lambda>_. []),
     en_send = (\<lambda>k p e. Inr \<lparr>ack_message_id = message_id e, ack_status = ''received''\<rparr>),
     en_call = (\<lambda>_ _. Inr ()), en_write = (\<lambda>_. Inr ())\<rparr>"

definition sample_server :: server where
  "sample_server = \<lparr>sv_inbox = Some inbox_empty, sv_replay = SqliteReplay [], sv_errors = []\<rparr>"

definition sample_bus_events :: "nb_event list" where
  "sample_bus_events = [NeAddPeer limited_peer, NePublish 5 6 sample_manifest]"

definition sample_bus :: "unit network_bus \<times> unit network_effect list" where
  "sample_bus = nb_history sample_surroundings sample_bus_events (nb_init ''r1'' (Some sample_outbox) sample_server)"

lemma sample_bus_runs:
  "case sample_bus of (nb, out) \<Rightarrow> (case out of NbSent p e # _ \<Rightarrow> message_type e = ''manifest'' | _ \<Rightarrow> False) \<and>
     (case nb_outbox nb of None \<Rightarrow> False | Some ob \<Rightarrow> map or_status (ob_rows ob) = [DsDelivered])"
  by code_simp

lemma sample_bus_result:
  obtains nb p e rest ob r where
    "nb_history sample_surroundings sample_bus_events (nb_init ''r1'' (Some sample_outbox) sample_server) = (nb, NbSent p e # rest)"
    "message_type e = ''manifest''" "nb_outbox nb = Some ob" "ob_rows ob = [r]" "or_status r = DsDelivered"
  using sample_bus_runs unfolding sample_bus_def
  by (auto split: prod.splits list.splits network_effect.splits option.splits)

lemma sample_events_ok: "\<forall>ev\<in>set sample_bus_events. event_ok False ev"
  by (simp add: sample_bus_events_def sample_manifest_def make_envelope_def)

text \<open>The same robot without an outbox.\<close>

definition sample_direct :: "unit network_bus \<times> unit network_effect list" where
  "sample_direct = nb_history sample_surroundings sample_bus_events (nb_init ''r1'' None sample_server)"

lemma sample_direct_runs:
  "case sample_direct of (nb, out) \<Rightarrow> (case out of NbSent p e # _ \<Rightarrow> message_type e = ''manifest'' | _ \<Rightarrow> False)"
  by code_simp

theorem only_disclosed_is_sent_witness:
  "(\<exists>p e. NbSent p e \<in> set (snd sample_bus) \<and> message_type e = ''manifest'' \<and> source_id e = ''r1'') \<and>
   (\<exists>p e q. NbSent p e \<in> set (snd sample_direct) \<and> message_type e = ''manifest'' \<and> source_id e = ''r1'' \<and>
     NeAddPeer q \<in> set sample_bus_events \<and> pe_robot_id q = pe_robot_id p)"
proof
  show "\<exists>p e. NbSent p e \<in> set (snd sample_bus) \<and> message_type e = ''manifest'' \<and> source_id e = ''r1''"
  proof (rule sample_bus_result)
    fix nb p e rest
    assume run: "nb_history sample_surroundings sample_bus_events (nb_init ''r1'' (Some sample_outbox) sample_server) = (nb, NbSent p e # rest)"
      and e: "message_type e = ''manifest''"
    have "\<forall>b. Some sample_outbox = Some b \<longrightarrow> (\<exists>maximum reserve n u. outbox_open maximum reserve [] n u = Inr b)"
      using sample_outbox_open by blast
    then show ?thesis
      using only_disclosed_is_sent[OF run _ sample_events_ok, of p e] e run by (auto simp: sample_bus_def)
  qed
  obtain nb p e rest where run: "nb_history sample_surroundings sample_bus_events (nb_init ''r1'' None sample_server) = (nb, NbSent p e # rest)"
      "message_type e = ''manifest''"
    using sample_direct_runs unfolding sample_direct_def
    by (auto split: prod.splits list.splits network_effect.splits)
  then show "\<exists>p e q. NbSent p e \<in> set (snd sample_direct) \<and> message_type e = ''manifest'' \<and> source_id e = ''r1'' \<and>
     NeAddPeer q \<in> set sample_bus_events \<and> pe_robot_id q = pe_robot_id p"
    using only_disclosed_is_sent[OF run(1) _ sample_events_ok, of p e] by (auto simp: sample_direct_def)
qed

theorem delivered_only_if_acknowledged_witness:
  "\<exists>r k p e ack ob. nb_outbox (fst sample_bus) = Some ob \<and> r \<in> set (ob_rows ob) \<and> or_status r = DsDelivered \<and>
     en_send sample_surroundings k p e = Inr ack \<and> pe_robot_id p = or_peer_id r \<and> message_id e = or_message_id r"
proof (rule sample_bus_result)
  fix nb p e rest ob r assume run: "nb_history sample_surroundings sample_bus_events (nb_init ''r1'' (Some sample_outbox) sample_server) = (nb, NbSent p e # rest)"
    and r: "nb_outbox nb = Some ob" "ob_rows ob = [r]" "or_status r = DsDelivered"
  have "r \<in> set (ob_rows ob)" using r(2) by simp
  then show ?thesis
    using delivered_only_if_acknowledged[OF run sample_outbox_open sample_events_ok r(1) _ r(3)] run r by (auto simp: sample_bus_def)
qed

end
