(* ===== verification/Flush.thy ===== *)
theory Flush
  imports Network_Runs
begin

text \<open>
  The loop of \<open>TlsNetworkBus.flush\<close>: it returns within its limit, whatever the network does, counts exactly the rows
  that became delivered, and gives no message to the client twice.
\<close>

section \<open>What one flush changes\<close>

definition row_due :: "int \<Rightarrow> outbox_row \<Rightarrow> bool" where
  "row_due now r = (or_status r = DsPending \<and> or_next_attempt_ms r \<le> now)"

definition due :: "int \<Rightarrow> string \<times> string \<Rightarrow> outbox \<Rightarrow> bool" where
  "due now k ob = (\<exists>r\<in>set (ob_rows ob). row_key r = k \<and> row_due now r)"

definition decodable :: "outbox \<Rightarrow> bool" where
  "decodable ob = (\<forall>r\<in>set (ob_rows ob). \<exists>e. decode_envelope (or_envelope r) = Inr e \<and> message_id e = or_message_id r)"

definition sent_keys :: "'h network_effect list \<Rightarrow> (string \<times> string) list" where
  "sent_keys out = concat (map (\<lambda>x. case x of NbSent p e \<Rightarrow> [(pe_robot_id p, message_id e)] | _ \<Rightarrow> []) out)"

lemma sent_keys_simps [simp]:
  "sent_keys [] = []" "sent_keys (out @ out') = sent_keys out @ sent_keys out'"
  "sent_keys (NbSent p e # out) = (pe_robot_id p, message_id e) # sent_keys out"
  by (simp_all add: sent_keys_def)

definition flushed :: "int \<Rightarrow> outbox \<Rightarrow> outbox \<Rightarrow> (string \<times> string) list \<Rightarrow> nat \<Rightarrow> bool" where
  "flushed now ob ob' ks n =
     (ob_inv ob' \<and> decodable ob' \<and> length (pending_rows (ob_rows ob')) + n = length (pending_rows (ob_rows ob)) \<and>
      distinct ks \<and> (\<forall>k\<in>set ks. due now k ob \<and> \<not> due now k ob') \<and> (\<forall>k. due now k ob' \<longrightarrow> due now k ob))"

lemma flushed_refl: "ob_inv ob \<Longrightarrow> decodable ob \<Longrightarrow> flushed now ob ob [] 0"
  by (simp add: flushed_def)

lemma flushed_trans:
  assumes "flushed now ob ob1 ks n" "flushed now ob1 ob2 ks' m"
  shows "flushed now ob ob2 (ks @ ks') (n + m)"
  using assms unfolding flushed_def by (simp, blast)

text \<open>A change of the one row of a key.\<close>

lemma upd_key:
  assumes "ob_inv ob" "r \<in> set (ob_rows ob)" "row_key r = k" "or_status r = DsPending"
    and f: "\<And>r. row_key (f r) = row_key r" and P: "\<And>q. q \<in> set (ob_rows ob) \<Longrightarrow> P q \<longleftrightarrow> q = r"
    and rows: "ob_rows ob' = upd_where P f (ob_rows ob)"
  shows "length (pending_rows (ob_rows ob')) + (if or_status (f r) = DsPending then 0 else 1) = length (pending_rows (ob_rows ob))"
    and "due now j ob' \<longleftrightarrow> (if j = k then row_due now (f r) else due now j ob)"
proof -
  have d: "distinct (map row_key (ob_rows ob))" using assms(1) by (simp add: ob_inv_def)
  obtain xs ys where split: "ob_rows ob = xs @ r # ys" using split_list[OF assms(2)] by blast
  have other: "q \<noteq> r \<and> row_key q \<noteq> k" if "q \<in> set xs \<union> set ys" for q
    using d that assms(3) unfolding split by auto (metis image_eqI)+
  have "upd_where P f xs = xs" "upd_where P f ys = ys" using P other split by (auto intro!: upd_where_none)
  then have rows': "ob_rows ob' = xs @ f r # ys" using rows P[OF assms(2)] split by (simp add: upd_where_def)
  show "length (pending_rows (ob_rows ob')) + (if or_status (f r) = DsPending then 0 else 1) = length (pending_rows (ob_rows ob))"
    using assms(4) by (simp add: rows' split pending_rows_def)
  show "due now j ob' \<longleftrightarrow> (if j = k then row_due now (f r) else due now j ob)"
    using other f assms(3) by (auto simp: due_def rows' split)
qed

lemma row_of_key:
  assumes "ob_inv ob" "r \<in> set (ob_rows ob)" "q \<in> set (ob_rows ob)" "row_key q = row_key r"
  shows "q = r"
proof -
  have "distinct (map row_key (ob_rows ob))" using assms(1) by (simp add: ob_inv_def)
  then have "inj_on row_key (set (ob_rows ob))" by (simp only: distinct_map)
  then show ?thesis by (rule inj_onD) (use assms(2-4) in simp_all)
qed

lemma find_only:
  assumes "r \<in> set xs" "P r" "\<And>q. q \<in> set xs \<Longrightarrow> P q \<Longrightarrow> q = r"
  shows "find P xs = Some r"
proof (cases "find P xs")
  case None
  then show ?thesis using assms(1,2) by (auto simp: find_None_iff)
next
  case (Some q)
  then have "q \<in> set xs" "P q" by (auto simp: find_Some_iff)
  then show ?thesis using Some assms(3) by blast
qed

lemma decodable_upd:
  assumes "decodable ob" "\<And>r. or_envelope (f r) = or_envelope r" "\<And>r. or_message_id (f r) = or_message_id r"
    "ob_rows ob' = upd_where P f (ob_rows ob)"
  shows "decodable ob'"
  using assms by (auto simp: decodable_def set_upd_where)

text \<open>What a flush may raise: an error of the client that the bus does not catch, or the \<open>OverflowError\<close> of a number
  that SQLite cannot store.\<close>

definition out_of_range :: "int \<Rightarrow> int \<Rightarrow> outbox \<Rightarrow> bool" where
  "out_of_range now limit ob =
     (now < - (2 ^ 63) \<or> 2 ^ 63 \<le> now + 30000 \<or> 2 ^ 63 \<le> limit \<or> (\<exists>r\<in>set (ob_rows ob). 2 ^ 63 \<le> or_attempts r + 1))"

definition flush_error :: "sender \<Rightarrow> int \<Rightarrow> int \<Rightarrow> outbox \<Rightarrow> error \<Rightarrow> bool" where
  "flush_error send now limit ob err =
     (((\<exists>k p e. send k p e = Inl err) \<and> \<not> send_caught err) \<or>
      (err = RuntimeError ''OverflowError'' \<and> out_of_range now limit ob))"

lemma flush_error_mono: "flush_error send now limit ob err \<Longrightarrow> limit \<le> limit' \<Longrightarrow> flush_error send now limit' ob err"
  by (auto simp: flush_error_def out_of_range_def)

lemma delivered_flushed:
  assumes inv: "ob_inv ob" "decodable ob" and due: "due now (peer, mid) ob" and run: "delivered peer mid now ob = (ob1, r)"
  shows "r = Inr u \<Longrightarrow> flushed now ob ob1 [(peer, mid)] 1"
    and "j \<noteq> (peer, mid) \<Longrightarrow> due now j ob1 = due now j ob"
    and "r = Inl err \<Longrightarrow> flush_error send now 0 ob1 err"
proof -
  obtain q where q: "q \<in> set (ob_rows ob)" "row_key q = (peer, mid)" "or_status q = DsPending"
    using due by (auto simp: due_def row_due_def)
  let ?P = "\<lambda>r. or_peer_id r = peer \<and> or_message_id r = mid \<and> or_status r = DsPending"
  let ?f = "\<lambda>r. r\<lparr>or_status := DsDelivered, or_updated_at_ms := now\<rparr>" and ?ob = "delivered_row peer mid now ob"
  have P: "?P x \<longleftrightarrow> x = q" if "x \<in> set (ob_rows ob)" for x
    using row_of_key[OF inv(1) q(1) that] q(2,3) by (auto simp: row_key_def)
  have rows: "ob_rows ?ob = upd_where ?P ?f (ob_rows ob)" by (simp add: delivered_row_def)
  have f: "row_key (?f r) = row_key r" for r by (simp add: row_key_def)
  note upd = upd_key[OF inv(1) q(1,2,3) f P rows]
  have "decodable ?ob" by (rule decodable_upd[OF inv(2) _ _ rows]) simp_all
  then have fl: "flushed now ob ?ob [(peer, mid)] 1"
    using upd due ob_inv_delivered_row[OF inv(1)] by (simp add: flushed_def row_due_def)
  have ok: "ob1 = ?ob" if "r = Inr u" for u using run that by (auto simp: delivered_def split: sum.splits)
  have ko: "ob1 = ob \<and> sql_int now = Inl err" if "r = Inl err" for err using run that by (auto simp: delivered_def split: sum.splits)
  show "r = Inr u \<Longrightarrow> flushed now ob ob1 [(peer, mid)] 1" using fl ok by blast
  show "j \<noteq> (peer, mid) \<Longrightarrow> due now j ob1 = due now j ob" using upd ok ko by (cases r) auto
  show "r = Inl err \<Longrightarrow> flush_error send now 0 ob1 err"
    using ko by (auto simp: flush_error_def out_of_range_def dest!: sql_int_Inl)
qed

lemma failed_flushed:
  assumes inv: "ob_inv ob" "decodable ob" and due: "due now (peer, mid) ob"
    and run: "failed peer mid msg now 250 30000 ob = (ob1, r)"
  shows "r = Inr u \<Longrightarrow> flushed now ob ob1 [(peer, mid)] 0"
    and "j \<noteq> (peer, mid) \<Longrightarrow> due now j ob1 = due now j ob"
    and "r = Inl err \<Longrightarrow> flush_error send now 0 ob1 err"
proof -
  obtain q where q: "q \<in> set (ob_rows ob)" "row_key q = (peer, mid)" "or_status q = DsPending"
    using due by (auto simp: due_def row_due_def)
  let ?P = "\<lambda>r. or_peer_id r = peer \<and> or_message_id r = mid"
  have P: "?P x \<longleftrightarrow> x = q" if "x \<in> set (ob_rows ob)" for x
    using row_of_key[OF inv(1) q(1) that] q(2) by (auto simp: row_key_def)
  have found: "find (\<lambda>r. or_peer_id r = peer \<and> or_message_id r = mid \<and> or_status r = DsPending) (ob_rows ob) = Some q"
    by (rule find_only) (use q P in \<open>auto simp: row_key_def\<close>)
  let ?a = "or_attempts q + 1"
  let ?d = "backoff 250 30000 ?a"
  let ?f = "\<lambda>x. x\<lparr>or_attempts := ?a, or_next_attempt_ms := now + ?d,
                  or_last_error := Some (take_chars 1024 msg), or_updated_at_ms := now\<rparr>"
  let ?ob = "failed_row peer mid msg now ?d ?a ob"
  have rows: "ob_rows ?ob = upd_where ?P ?f (ob_rows ob)" by (simp add: failed_row_def)
  have f: "row_key (?f r) = row_key r" for r by (simp add: row_key_def)
  note upd = upd_key[OF inv(1) q(1,2,3) f P rows]
  have a: "0 \<le> or_attempts q" using inv(1) q(1) by (simp add: ob_inv_def)
  note b = backoff_bounds(2,3)[OF a]
  have late: "\<not> row_due now (?f q)" using b(1) by (simp add: row_due_def)
  have "decodable ?ob" by (rule decodable_upd[OF inv(2) _ _ rows]) simp_all
  moreover have "ob_inv ?ob" using ob_inv_failed_row[OF inv(1)] a by simp
  ultimately have fl: "flushed now ob ?ob [(peer, mid)] 0" using upd due late q(3) by (simp add: flushed_def)
  have ok: "ob1 = ?ob" if "r = Inr u" for u using run that found by (auto simp: failed_def Let_def split: sum.splits)
  have ko: "ob1 = ob \<and> (sql_int ?a = Inl err \<or> sql_int (now + ?d) = Inl err \<or> sql_int now = Inl err)" if "r = Inl err" for err
    using run that found by (auto simp: failed_def Let_def rbind_def split: sum.splits)
  show "r = Inr u \<Longrightarrow> flushed now ob ob1 [(peer, mid)] 0" using fl ok by blast
  show "j \<noteq> (peer, mid) \<Longrightarrow> due now j ob1 = due now j ob" using upd ok ko by (cases r) auto
  assume err: "r = Inl err"
  have "err = RuntimeError ''OverflowError'' \<and> (2 ^ 63 \<le> ?a \<or> now < - (2 ^ 63) \<or> 2 ^ 63 \<le> now + 30000)"
    using ko[OF err] a b by (elim conjE disjE) (drule sql_int_Inl, simp, linarith?)+
  then show "flush_error send now 0 ob1 err"
    using ko[OF err] q(1) unfolding flush_error_def out_of_range_def by blast
qed

section \<open>A round\<close>

definition item_key_of :: "pending_delivery \<Rightarrow> string \<times> string" where
  "item_key_of i = (pd_peer_id i, message_id (pd_envelope i))"

definition peers_named :: "'h network_bus \<Rightarrow> bool" where
  "peers_named nb = (\<forall>(k, p)\<in>set (nb_peers nb). pe_robot_id p = k)"

lemma deliver_item_flushed:
  assumes inv: "nb_outbox nb = Some ob" "ob_inv ob" "decodable ob" "peers_named nb" and due: "due now (item_key_of i) ob"
    and run: "deliver_item describe send now i nb = (nb', out, r)"
  shows "\<exists>ob'. nb_outbox nb' = Some ob' \<and> peers_named nb' \<and> (\<forall>j. j \<noteq> item_key_of i \<longrightarrow> due now j ob' = due now j ob) \<and>
    (\<forall>b. r = Inr b \<longrightarrow> flushed now ob ob' (sent_keys out) (if b then 1 else 0)) \<and>
    (\<forall>err. r = Inl err \<longrightarrow> flush_error send now 0 ob' err)"
proof -
  have d: "due now (pd_peer_id i, message_id (pd_envelope i)) ob" using due by (simp add: item_key_of_def)
  note dl = delivered_flushed[OF inv(2,3) d] and fl = failed_flushed[OF inv(2,3) d]
  have named: "peers_named (record_delivery_error p err nb1) = peers_named nb1" "nb_outbox (record_delivery_error p err nb1) = nb_outbox nb1"
    for p err and nb1 :: "'a network_bus" by (simp_all add: peers_named_def record_delivery_error_def Let_def)
  let ?nb = "nb\<lparr>nb_attempts := Suc (nb_attempts nb)\<rparr>"
  show ?thesis
  proof (cases "map_of (nb_peers nb) (pd_peer_id i)")
    case None
    let ?msg = "''outbox peer is not configured: '' @ pd_peer_id i"
    obtain ob1 r1 where f: "failed (pd_peer_id i) (message_id (pd_envelope i)) ?msg now 250 30000 ob = (ob1, r1)" by fastforce
    have nb': "nb' = nb\<lparr>nb_outbox := Some ob1\<rparr>" "out = []" "r = rbind r1 (\<lambda>_. Inr False)"
      using run None inv(1) f by (simp_all add: deliver_item_def mark_failed_def outbox_call_def)
    have "flushed now ob ob1 [] 0" if "flushed now ob ob1 [(pd_peer_id i, message_id (pd_envelope i))] 0"
      using that by (simp add: flushed_def)
    then show ?thesis using nb' fl[OF f] inv(4) by (cases r1) (auto simp: peers_named_def item_key_of_def)
  next
    case (Some p)
    have p: "pe_robot_id p = pd_peer_id i" using map_of_SomeD[OF Some] inv(4) by (auto simp: peers_named_def)
    show ?thesis
    proof (cases "send (nb_attempts nb) p (pd_envelope i)")
      case (Inl err)
      show ?thesis
      proof (cases "send_caught err")
        case True
        obtain ob1 r1 where f: "failed (pd_peer_id i) (message_id (pd_envelope i)) (describe err) now 250 30000 ob = (ob1, r1)" by fastforce
        have "mark_failed i (describe err) now ?nb = (?nb\<lparr>nb_outbox := Some ob1\<rparr>, r1)"
          using inv(1) f by (simp add: mark_failed_def outbox_call_def)
        then have nb': "nb' \<in> {?nb\<lparr>nb_outbox := Some ob1\<rparr>, record_delivery_error p err (?nb\<lparr>nb_outbox := Some ob1\<rparr>)}"
            "out = [NbSent p (pd_envelope i)]" "r = rbind r1 (\<lambda>_. Inr False)"
          using run Some Inl True by (cases r1; auto simp: deliver_item_def Let_def)+
        have "nb_outbox nb' = Some ob1" "peers_named nb'" using nb'(1) inv(4) named by (auto simp: peers_named_def record_delivery_error_def Let_def)
        then show ?thesis using nb'(2,3) fl[OF f] p by (cases r1) (auto simp: item_key_of_def)
      next
        case False
        then have "nb' = ?nb" "r = Inl err"
          using run Some Inl by (simp_all add: deliver_item_def Let_def)
        then show ?thesis using inv Inl False by (auto simp: peers_named_def flush_error_def)
      qed
    next
      case (Inr ack)
      obtain ob1 r1 where f: "delivered (pd_peer_id i) (message_id (pd_envelope i)) now ob = (ob1, r1)" by fastforce
      have "nb' = ?nb\<lparr>nb_outbox := Some ob1\<rparr>" "out = [NbSent p (pd_envelope i)]" "r = rbind r1 (\<lambda>_. Inr True)"
        using run Some Inr f inv(1) by (simp_all add: deliver_item_def Let_def outbox_call_def)
      then show ?thesis using dl[OF f] inv(4) p by (cases r1) (auto simp: peers_named_def item_key_of_def)
    qed
  qed
qed

lemma deliver_items_flushed:
  assumes "nb_outbox nb = Some ob" "ob_inv ob" "decodable ob" "peers_named nb"
    and "\<forall>i\<in>set items. due now (item_key_of i) ob" "distinct (map item_key_of items)"
    and "deliver_items describe send now items nb = (nb', out, r)"
  shows "\<exists>ob'. nb_outbox nb' = Some ob' \<and> peers_named nb' \<and>
    (\<forall>n. r = Inr n \<longrightarrow> flushed now ob ob' (sent_keys out) n \<and> n \<le> length items) \<and>
    (\<forall>err. r = Inl err \<longrightarrow> flush_error send now 0 ob' err)"
  using assms
proof (induction items arbitrary: nb ob nb' out r)
  case Nil
  then show ?case by (auto simp: flushed_refl)
next
  case (Cons i items)
  obtain nb1 out1 r1 where one: "deliver_item describe send now i nb = (nb1, out1, r1)" by (metis prod_cases3)
  obtain nb2 out2 r2 where rest: "deliver_items describe send now items nb1 = (nb2, out2, r2)" by (metis prod_cases3)
  obtain ob1 where ob1: "nb_outbox nb1 = Some ob1" "peers_named nb1" "\<forall>j. j \<noteq> item_key_of i \<longrightarrow> due now j ob1 = due now j ob"
      "\<forall>b. r1 = Inr b \<longrightarrow> flushed now ob ob1 (sent_keys out1) (if b then 1 else 0)"
      "\<forall>err. r1 = Inl err \<longrightarrow> flush_error send now 0 ob1 err"
    using deliver_item_flushed[OF Cons.prems(1-4) _ one] Cons.prems(5) by auto
  show ?case
  proof (cases r1)
    case (Inl err)
    then show ?thesis using Cons.prems(7) one ob1 by auto
  next
    case (Inr b)
    have f1: "flushed now ob ob1 (sent_keys out1) (if b then 1 else 0)" using ob1(4) Inr by blast
    have inv1: "ob_inv ob1" "decodable ob1" using f1 by (simp_all add: flushed_def)
    have dues: "\<forall>j\<in>set items. due now (item_key_of j) ob1" using ob1(3) Cons.prems(5,6) by (metis distinct.simps(2) image_eqI list.set_map list.simps(9) set_subset_Cons subsetD)
    have dist: "distinct (map item_key_of items)" using Cons.prems(6) by simp
    obtain ob2 where ob2: "nb_outbox nb2 = Some ob2" "peers_named nb2"
        "\<forall>n. r2 = Inr n \<longrightarrow> flushed now ob1 ob2 (sent_keys out2) n \<and> n \<le> length items"
        "\<forall>err. r2 = Inl err \<longrightarrow> flush_error send now 0 ob2 err"
      using Cons.IH[OF ob1(1) inv1 ob1(2) dues dist rest] by blast
    show ?thesis
    proof (cases r2)
      case (Inl err)
      then show ?thesis using Cons.prems(7) one rest Inr ob2 by auto
    next
      case (Inr n)
      have "flushed now ob ob2 (sent_keys (out1 @ out2)) ((if b then 1 else 0) + n)"
        using flushed_trans[OF f1] ob2(3) Inr by simp
      then show ?thesis using Cons.prems(7) one rest Inr \<open>r1 = Inr b\<close> ob2 by (auto split: if_splits)
    qed
  qed
qed

section \<open>The loop\<close>

lemma distinct_keys_sub:
  assumes "distinct (map row_key rows)" "set rs \<subseteq> set rows" "distinct rs"
  shows "distinct (map row_key rs)"
  using assms by (auto simp: distinct_map intro: inj_on_subset)

lemma rmap_all: "(\<And>x. x \<in> set xs \<Longrightarrow> \<exists>y. f x = Inr y) \<Longrightarrow> \<exists>ys. rmap f xs = Inr ys"
proof (induction xs)
  case (Cons x xs)
  then obtain y ys where "f x = Inr y" "rmap f xs = Inr ys" by (metis list.set_intros)
  then show ?case by simp
qed simp

lemma ready_items:
  assumes inv: "ob_inv ob" "decodable ob" and l: "1 \<le> limit"
  shows "(\<exists>items. ready now limit strm ob = Inr items \<and> (\<forall>i\<in>set items. due now (item_key_of i) ob) \<and>
      distinct (map item_key_of items) \<and> int (length items) \<le> limit) \<or>
    (\<exists>err. ready now limit strm ob = Inl err \<and> flush_error send now limit ob err)"
proof (cases "sql_int now = Inr () \<and> sql_int limit = Inr ()")
  case False
  then obtain err where err: "sql_int now = Inl err \<or> (sql_int now = Inr () \<and> sql_int limit = Inl err)"
    by (cases "sql_int now"; cases "sql_int limit") auto
  then have "ready now limit strm ob = Inl err" using l by (auto simp: ready_def rbind_def require_def)
  moreover have "flush_error send now limit ob err"
    using err l by (auto simp: flush_error_def out_of_range_def dest!: sql_int_Inl)
  ultimately show ?thesis by blast
next
  case sql: True
  let ?rs = "ready_rows now limit strm ob"
  let ?f = "\<lambda>r. rbind (decode_envelope (or_envelope r)) (\<lambda>e. Inr \<lparr>pd_peer_id = or_peer_id r, pd_envelope = e,
      pd_attempts = or_attempts r, pd_next_attempt_ms = or_next_attempt_ms r\<rparr>)"
  note row = ready_rows_set[of _ now limit strm ob]
  have key: "\<exists>i. ?f r = Inr i \<and> item_key_of i = row_key r" if "r \<in> set ?rs" for r
    using row[OF that] inv(2) by (force simp: decodable_def item_key_of_def row_key_def)
  then obtain items where items: "rmap ?f ?rs = Inr items" using rmap_all[of ?rs ?f] by meson
  then have all2: "list_all2 (\<lambda>r i. ?f r = Inr i) ?rs items" by (simp add: rmap_Inr_iff)
  have keys: "map item_key_of items = map row_key ?rs"
  proof (rule nth_equalityI)
    show len: "length (map item_key_of items) = length (map row_key ?rs)" using list_all2_lengthD[OF all2] by simp
    fix n assume "n < length (map item_key_of items)"
    then have n: "n < length ?rs" using len by simp
    then show "map item_key_of items ! n = map row_key ?rs ! n"
      using key[OF nth_mem[OF n]] list_all2_nthD[OF all2 n] len by auto
  qed
  have d: "distinct (map row_key (ob_rows ob))" using inv(1) by (simp add: ob_inv_def)
  then have "distinct (ob_rows ob)" by (simp only: distinct_map)
  then have "distinct ?rs" by (simp add: ready_rows_def)
  then have "distinct (map row_key ?rs)" using distinct_keys_sub[OF d] row by blast
  moreover have "due now (row_key r) ob" if "r \<in> set ?rs" for r using row[OF that] by (auto simp: due_def row_due_def)
  then have "\<forall>k\<in>set (map row_key ?rs). due now k ob" by auto
  moreover have "int (length items) \<le> limit" using list_all2_lengthD[OF all2] l by (simp add: ready_rows_def)
  moreover have "ready now limit strm ob = Inr items" using items l sql by (simp add: ready_def require_def)
  ultimately show ?thesis unfolding keys[symmetric] by auto
qed

lemma flush_loop_flushed:
  assumes "nb_outbox nb = Some ob" "ob_inv ob" "decodable ob" "peers_named nb" "0 \<le> sent"
    and "flush_loop describe send now limit strm sent nb = (nb', out, r)"
  shows "\<exists>ob'. nb_outbox nb' = Some ob' \<and> peers_named nb' \<and>
    (\<forall>m. r = Inr m \<longrightarrow> sent \<le> m \<and> m \<le> max sent limit \<and> flushed now ob ob' (sent_keys out) (nat (m - sent))) \<and>
    (\<forall>err. r = Inl err \<longrightarrow> flush_error send now limit ob' err)"
  using assms
proof (induction describe send now limit strm sent nb arbitrary: ob nb' out r rule: flush_loop.induct)
  case (1 describe send now limit strm sent nb)
  note simps = flush_loop.simps[of describe send now limit strm sent nb]
  have here: ?case if "nb' = nb" "out = []" "r = Inr sent" using that "1.prems" by (auto simp: flushed_refl)
  show ?case
  proof (cases "sent < limit")
    case False
    then show ?thesis using "1.prems"(6) by (intro here) (simp_all add: simps)
  next
    case less: True
    show ?thesis
    proof (cases "ready now (limit - sent) (Some strm) ob")
      case (Inl err)
      then have "nb' = nb \<and> out = [] \<and> r = Inl err" using "1.prems"(1,6) less by (simp add: simps)
      moreover have "flush_error send now (limit - sent) ob err"
        using ready_items[OF "1.prems"(2,3), of "limit - sent" now "Some strm" send] less Inl by simp
      then have "flush_error send now limit ob err" by (rule flush_error_mono) (use "1.prems"(5) in simp)
      ultimately show ?thesis using "1.prems"(1,4) by auto
    next
    case (Inr items')
    then obtain items where items: "ready now (limit - sent) (Some strm) ob = Inr items" "\<forall>i\<in>set items. due now (item_key_of i) ob"
        "distinct (map item_key_of items)" "int (length items) \<le> limit - sent"
      using ready_items[OF "1.prems"(2,3), of "limit - sent" now "Some strm" send] less by fastforce
    obtain nb1 out1 r1 where round: "deliver_items describe send now items nb = (nb1, out1, r1)" by (metis prod_cases3)
    obtain ob1 where ob1: "nb_outbox nb1 = Some ob1" "peers_named nb1"
        "\<forall>n. r1 = Inr n \<longrightarrow> flushed now ob ob1 (sent_keys out1) n \<and> n \<le> length items"
        "\<forall>err. r1 = Inl err \<longrightarrow> flush_error send now 0 ob1 err"
      using deliver_items_flushed[OF "1.prems"(1-4) items(2,3) round] by blast
    show ?thesis
    proof (cases "items = []")
      case True
      then show ?thesis using "1.prems"(1,6) less items(1) by (intro here) (simp_all add: simps)
    next
      case some: False
      show ?thesis
      proof (cases r1)
        case (Inl err)
        then have "nb' = nb1 \<and> out = out1 \<and> r = Inl err" using "1.prems"(1,6) less items(1) some round by (simp add: simps)
        moreover have "flush_error send now limit ob1 err"
          by (rule flush_error_mono) (use ob1(4) Inl less "1.prems"(5) in auto)
        ultimately show ?thesis using ob1 by auto
      next
        case (Inr n)
        have f1: "flushed now ob ob1 (sent_keys out1) n" "n \<le> length items" using ob1(3) Inr by auto
        show ?thesis
        proof (cases "n = 0")
          case True
          then have "nb' = nb1 \<and> out = out1 \<and> r = Inr sent" using "1.prems"(1,6) less items(1) some round Inr by (simp add: simps)
          then show ?thesis using ob1 f1 True less by auto
        next
          case False
          obtain nb2 out2 r2 where rest: "flush_loop describe send now limit strm (sent + int n) nb1 = (nb2, out2, r2)" by (metis prod_cases3)
          have res: "nb' = nb2 \<and> out = out1 @ out2 \<and> r = r2"
            using "1.prems"(1,6) less items(1) some round Inr False rest by (simp add: simps)
          have inv1: "ob_inv ob1" "decodable ob1" using f1(1) by (simp_all add: flushed_def)
          obtain ob2 where ob2: "nb_outbox nb2 = Some ob2" "peers_named nb2"
              "\<forall>m. r2 = Inr m \<longrightarrow> sent + int n \<le> m \<and> m \<le> max (sent + int n) limit \<and> flushed now ob1 ob2 (sent_keys out2) (nat (m - (sent + int n)))"
              "\<forall>err. r2 = Inl err \<longrightarrow> flush_error send now limit ob2 err"
            using "1.IH"[of ob items nb1 "(out1, r1)" out1 r1 n ob1 nb2 out2 r2] "1.prems"(1,5) less items(1) some round Inr False inv1 ob1(1,2) rest
            by auto
          have "sent \<le> m \<and> m \<le> max sent limit \<and> flushed now ob ob2 (sent_keys (out1 @ out2)) (nat (m - sent))" if m: "r2 = Inr m" for m
          proof -
            have b: "sent + int n \<le> m" "m \<le> max (sent + int n) limit" "flushed now ob1 ob2 (sent_keys out2) (nat (m - (sent + int n)))"
              using ob2(3) m by auto
            have "n + nat (m - (sent + int n)) = nat (m - sent)" using b(1) by linarith
            then show ?thesis using flushed_trans[OF f1(1) b(3)] b(1,2) f1(2) items(4) by simp
          qed
          then show ?thesis using ob2 res by auto
        qed
      qed
    qed
    qed
  qed
qed

lemma flush_stream_flushed:
  assumes "nb_outbox nb = Some ob" "ob_inv ob" "decodable ob" "peers_named nb" "1 \<le> limit" "strm \<in> set STREAMS"
    and "flush_stream describe send now limit strm nb = (nb', out, r)"
  shows "\<exists>ob'. nb_outbox nb' = Some ob' \<and> peers_named nb' \<and>
    (\<forall>m. r = Inr m \<longrightarrow> 0 \<le> m \<and> m \<le> limit \<and> flushed now ob ob' (sent_keys out) (nat m)) \<and>
    (\<forall>err. r = Inl err \<longrightarrow> flush_error send now limit ob' err)"
proof -
  have "flush_loop describe send now limit strm 0 nb = (nb', out, r)" using assms(1,6,7) by (simp add: flush_stream_def)
  from flush_loop_flushed[OF assms(1-4) _ this] show ?thesis using assms(5) by auto
qed

text \<open>C25: A flush ends within its limit. After any history of a bus with an outbox in which only envelopes that the decoder
  accepts were given to \<open>publish\<close>, a flush of one stream or of both with a limit of at least one returns a number
  between zero and its limit, or raises. The number is how many pending rows became delivered; then no message was given
  to the client twice, and only messages that were due at the start. It raises only an error of the client that the
  bus does not catch, or \<open>OverflowError\<close> when the time, the limit or a count of attempts leaves the 64 bits that SQLite
  stores.\<close>

theorem flush_within_limit:
  assumes "outbox_open maximum reserve [] n u = Inr ob0" and "nb_history en evs (nb_init rid (Some ob0) sv) = (nb, out0)"
    and "\<forall>ev\<in>set evs. event_ok True ev" and "flush (en_describe en) (en_send en) now limit strm nb = (nb', out, r)"
    and "1 \<le> limit" and "strm \<in> {None, Some SAFETY_STREAM, Some OPERATIONAL_STREAM}" and "nb_outbox nb = Some ob"
  shows "\<exists>ob'. nb_outbox nb' = Some ob' \<and>
    (\<forall>m. r = Inr m \<longrightarrow> 0 \<le> m \<and> m \<le> limit \<and>
       int (length (pending_rows (ob_rows ob'))) + m = int (length (pending_rows (ob_rows ob))) \<and>
       distinct (sent_keys out) \<and> (\<forall>k\<in>set (sent_keys out). due now k ob)) \<and>
    (\<forall>err. r = Inl err \<longrightarrow> flush_error (en_send en) now limit ob' err)"
proof -
  have net: "net_inv True (policies evs) (en_send en) rid nb"
    using nb_history_safe[OF net_inv_init[OF assms(1)] assms(3,2)] by simp
  then have safe: "outbox_safe True (policies evs) (en_send en) rid ob" using assms(7) by (simp add: net_inv_def)
  then have inv: "ob_inv ob" by (simp add: outbox_safe_def)
  have dec: "decodable ob" unfolding decodable_def
  proof
    fix r assume "r \<in> set (ob_rows ob)"
    then have "row_safe True (policies evs) (en_send en) rid r" using safe by (simp add: outbox_safe_def)
    then show "\<exists>e. decode_envelope (or_envelope r) = Inr e \<and> message_id e = or_message_id r"
      by (auto simp: row_safe_def is_ok_iff)
  qed
  have named: "peers_named nb" using net by (auto simp: peers_named_def net_inv_def)
  have known: "SAFETY_STREAM \<in> set STREAMS" "OPERATIONAL_STREAM \<in> set STREAMS" by (simp_all add: STREAMS_def)
  let ?R = "\<lambda>nb' out r. \<exists>ob'. nb_outbox nb' = Some ob' \<and> (\<forall>m. r = Inr m \<longrightarrow> 0 \<le> m \<and> m \<le> limit \<and> flushed now ob ob' (sent_keys out) (nat m)) \<and>
    (\<forall>err. r = Inl err \<longrightarrow> flush_error (en_send en) now limit ob' err)"
  have "?R nb' out r"
  proof (cases strm)
    case (Some s)
    then have "flush_stream (en_describe en) (en_send en) now limit s nb = (nb', out, r)" using assms(4,7) by (simp add: flush_def)
    then show ?thesis using flush_stream_flushed[OF assms(7) inv dec named assms(5)] known assms(6) Some by fastforce
  next
    case None
    obtain nb1 out1 r1 where one: "flush_stream (en_describe en) (en_send en) now limit SAFETY_STREAM nb = (nb1, out1, r1)" by (metis prod_cases3)
    obtain ob1 where ob1: "nb_outbox nb1 = Some ob1" "peers_named nb1"
        "\<forall>m. r1 = Inr m \<longrightarrow> 0 \<le> m \<and> m \<le> limit \<and> flushed now ob ob1 (sent_keys out1) (nat m)"
        "\<forall>err. r1 = Inl err \<longrightarrow> flush_error (en_send en) now limit ob1 err"
      using flush_stream_flushed[OF assms(7) inv dec named assms(5) known(1) one] by blast
    show ?thesis
    proof (cases "\<exists>m. r1 = Inr m \<and> m < limit")
      case False
      then have "nb' = nb1 \<and> out = out1 \<and> r = r1" using assms(4,7) None one by (auto simp: flush_def split: sum.splits if_splits)
      then show ?thesis using ob1 by auto
    next
      case True
      then obtain m where m: "r1 = Inr m" "m < limit" by blast
      have f1: "0 \<le> m" "flushed now ob ob1 (sent_keys out1) (nat m)" using ob1(3) m by auto
      then have inv1: "ob_inv ob1" "decodable ob1" by (simp_all add: flushed_def)
      obtain nb2 out2 r2 where two: "flush_stream (en_describe en) (en_send en) now (limit - m) OPERATIONAL_STREAM nb1 = (nb2, out2, r2)"
        by (metis prod_cases3)
      obtain ob2 where ob2: "nb_outbox nb2 = Some ob2"
          "\<forall>k. r2 = Inr k \<longrightarrow> 0 \<le> k \<and> k \<le> limit - m \<and> flushed now ob1 ob2 (sent_keys out2) (nat k)"
          "\<forall>err. r2 = Inl err \<longrightarrow> flush_error (en_send en) now (limit - m) ob2 err"
        using flush_stream_flushed[OF ob1(1) inv1 ob1(2) _ known(2) two] m(2) by auto
      have res: "nb' = nb2 \<and> out = out1 @ out2 \<and> r = (case r2 of Inl err \<Rightarrow> Inl err | Inr k \<Rightarrow> Inr (m + k))"
        using assms(4,7) None one two m by (auto simp: flush_def split: sum.splits)
      have "flushed now ob ob2 (sent_keys (out1 @ out2)) (nat (m + k))" if "r2 = Inr k" for k
        using flushed_trans[OF f1(2)] ob2(2) that f1(1) by (auto simp: nat_add_distrib)
      moreover have "flush_error (en_send en) now limit ob2 err" if "r2 = Inl err" for err
        by (rule flush_error_mono) (use ob2(3) that f1(1) in auto)
      ultimately show ?thesis using res ob2 f1(1) by (auto split: sum.splits)
    qed
  qed
  then show ?thesis unfolding flushed_def by fastforce
qed

theorem flush_within_limit_witness:
  "\<exists>nb out r ob'. flush (en_describe sample_surroundings) (en_send sample_surroundings) 9 10 None (fst sample_bus) = (nb, out, r) \<and>
     nb_outbox nb = Some ob' \<and> distinct (sent_keys out)"
proof (rule sample_bus_result)
  fix nb p e rest ob assume run: "nb_history sample_surroundings sample_bus_events (nb_init ''r1'' (Some sample_outbox) sample_server) = (nb, NbSent p e # rest)"
    and ob: "nb_outbox nb = Some ob"
  have "\<forall>ev\<in>set sample_bus_events. event_ok True ev"
    by (simp add: sample_bus_events_def sample_manifest_def make_envelope_def valid_envelope_def PROTOCOL_VERSION_def MESSAGE_TYPES_def
        STREAMS_def is_object_def OPERATIONAL_STREAM_def SAFETY_STREAM_def)
  moreover obtain nb' out r where fl: "flush (en_describe sample_surroundings) (en_send sample_surroundings) 9 10 None nb = (nb', out, r)"
    by (metis prod_cases3)
  ultimately obtain ob' where "nb_outbox nb' = Some ob'" "\<forall>m. r = Inr m \<longrightarrow> distinct (sent_keys out)"
    using flush_within_limit[OF sample_outbox_open run _ fl _ _ ob] by fastforce
  moreover have "\<exists>m. r = Inr m"
  proof -
    have "is_ok (snd (snd (flush (en_describe sample_surroundings) (en_send sample_surroundings) 9 10 None (fst sample_bus))))" by code_simp
    then show ?thesis using fl run by (simp add: sample_bus_def is_ok_iff)
  qed
  ultimately show ?thesis using fl run by (auto simp: sample_bus_def)
qed

section \<open>A publication that the decoder refuses\<close>

text \<open>\<open>publish\<close> stores the disclosures before the local bus decodes the envelope, and \<open>encode_envelope\<close> checks less than
  \<open>decode_envelope\<close>.\<close>

text \<open>For a bus with an empty outbox and one peer, and an envelope of a type that the peer is allowed, which is not a manifest:
  when it can be encoded but not decoded, such as one with sequence number 0, publishing it raises but the row stays in
  the outbox, and from then on every flush of its stream raises before it sends anything.\<close>

lemma invalid_publication_blocks_outbox:
  assumes "outbox_open maximum reserve [] n u = Inr ob" and "nb_outbox nb = Some ob" and "nb_peers nb = [(k, p)]"
    and "source_id e = nb_robot_id nb" and "message_type e \<in> set (pe_allowed_message_types p)" and "message_type e \<noteq> ''manifest''"
    and "encode_envelope e = Inr b" and "decode_envelope b = Inl err"
    and "sql_int (env_sequence e) = Inr ()" and "sql_int now1 = Inr ()"
  shows "\<exists>nb'. nb_publish describe send call now1 now2 e nb = (nb', [], Inl err) \<and>
    (\<forall>now limit. now1 \<le> now \<longrightarrow> 1 \<le> limit \<longrightarrow>
       sql_int now = Inr () \<longrightarrow> sql_int limit = Inr () \<longrightarrow>
       flush describe send now limit (Some (env_stream e)) nb' = (nb', [], Inl err))"
proof -
  let ?row = "out_row n now1 (pe_robot_id p, e, b)"
  let ?ob = "ob\<lparr>ob_next := Suc n, ob_rows := [?row]\<rparr>"
  have ob: "ob_rows ob = []" "ob_next ob = n" "0 \<le> ob_reserve ob" "ob_reserve ob < ob_maximum ob"
    using assms(1) by (auto simp: outbox_open_def rbind_Inr_iff require_Inr_iff Let_def)
  have strm: "env_stream e \<in> set STREAMS" using assms(7) by (simp add: encode_envelope_Inr)
  have "enqueue_many [(pe_robot_id p, e)] now1 ob = (?ob, Inr ())"
    using ob assms(7,9,10)
    by (simp add: enqueue_many_def encode_item_def Let_def find_out_def pending_rows_def operational_rows_def is_operational_def require_def)
  moreover have "disclosures (map snd (nb_peers nb)) e = Inr [(p, e)]" using assms(3,5,6) by (simp add: disclose_def)
  ultimately have pub: "nb_publish describe send call now1 now2 e nb = (nb\<lparr>nb_outbox := Some ?ob\<rparr>, [], Inl err)"
    using assms(2,4,7,8) by (simp add: nb_publish_def store_disclosures_def publish_locally_def bus_publish_def)
  have "flush describe send now limit (Some (env_stream e)) (nb\<lparr>nb_outbox := Some ?ob\<rparr>) = (nb\<lparr>nb_outbox := Some ?ob\<rparr>, [], Inl err)"
    if now: "now1 \<le> now" "1 \<le> limit" and sql: "sql_int now = Inr ()" "sql_int limit = Inr ()" for now limit
  proof -
    have "ready_rows now limit (Some (env_stream e)) ?ob = [?row]"
      using now by (simp add: ready_rows_def head_of_line_def)
    then have "ready now limit (Some (env_stream e)) ?ob = Inl err" using now(2) sql assms(8) by (simp add: ready_def require_def)
    then show ?thesis using now(2) strm by (simp add: flush_def flush_stream_def flush_loop.simps[of _ _ _ _ _ 0])
  qed
  then show ?thesis using pub by blast
qed

end
