(* ===== verification/Receiver.thy ===== *)
theory Receiver
  imports Network_Server
begin

text \<open>
  The receiving side of \<open>network.py\<close> and \<open>delivery.py\<close> with all its threads: every connection has a thread of its own, the
  workers of the inbox claim and finish messages, and the process may stop and start again at any moment. A step is
  one transaction of one thread. In a calm history there is one connection at a time and no stop in the midst
  of one; the workers run freely in both.
\<close>

section \<open>Steps\<close>

datatype phase = PhReceived string envelope | PhStaged string envelope bool | PhAccepted envelope bool "unit res"

record receiver =
  rc_server :: server
  rc_threads :: "nat \<Rightarrow> phase option"
  rc_working :: "envelope list"

datatype rc_label = RlConnect tls_session | RlQuiet | RlAck "string list" | RlHandle envelope | RlFinish string | RlRestart

definition thread :: "nat \<Rightarrow> phase option \<Rightarrow> receiver \<Rightarrow> receiver" where
  "thread t p s = s\<lparr>rc_threads := (rc_threads s)(t := p)\<rparr>"

text \<open>The end of \<open>_handle_connection\<close>: what it catches is recorded.\<close>

definition close_connection :: "unit res \<Rightarrow> server \<Rightarrow> server" where
  "close_connection r sv = (case r of
      Inl err \<Rightarrow> if value_or_os_error err then record_error err sv else sv
    | Inr _ \<Rightarrow> sv)"

definition set_inbox :: "inbox \<Rightarrow> receiver \<Rightarrow> receiver" where
  "set_inbox ix s = s\<lparr>rc_server := (rc_server s)\<lparr>sv_inbox := Some ix\<rparr>\<rparr>"

text \<open>The clock of the machine gives milliseconds that SQLite can store.\<close>

definition clock_ok :: "int \<Rightarrow> bool" where
  "clock_ok now = (0 \<le> now \<and> now < 2 ^ 63)"

inductive rstep :: "(string \<Rightarrow> string) \<Rightarrow> (string \<Rightarrow> bool) \<Rightarrow> (string \<Rightarrow> unit res) \<Rightarrow> bool \<Rightarrow> receiver \<Rightarrow> rc_label \<Rightarrow> receiver \<Rightarrow> bool"
  for sha :: "string \<Rightarrow> string" and revoked :: "string \<Rightarrow> bool" and "write" :: "string \<Rightarrow> unit res" and calm :: bool where
  connect: "rc_threads s t = None \<Longrightarrow> calm \<longrightarrow> rc_threads s = Map.empty \<Longrightarrow> receive_envelope sha revoked c = Inr (peer, e) \<Longrightarrow>
    rstep sha revoked write calm s (RlConnect c) (thread t (Some (PhReceived peer e)) s)"
| refuse: "receive_envelope sha revoked c = Inl err \<Longrightarrow>
    rstep sha revoked write calm s RlQuiet (s\<lparr>rc_server := close_connection (Inl err) (rc_server s)\<rparr>)"
| staged: "rc_threads s t = Some (PhReceived peer e) \<Longrightarrow> clock_ok now \<Longrightarrow> stage sha now e (rc_server s) = (sv, Inr is_new) \<Longrightarrow>
    rstep sha revoked write calm s RlQuiet (thread t (Some (PhStaged peer e is_new)) (s\<lparr>rc_server := sv\<rparr>))"
| unstaged: "rc_threads s t = Some (PhReceived peer e) \<Longrightarrow> clock_ok now \<Longrightarrow> stage sha now e (rc_server s) = (sv, Inl err) \<Longrightarrow>
    rstep sha revoked write calm s RlQuiet (thread t None (s\<lparr>rc_server := close_connection (Inl err) sv\<rparr>))"
| sequenced: "rc_threads s t = Some (PhStaged peer e is_new) \<Longrightarrow> clock_ok now \<Longrightarrow>
    accept_sequence now peer e (rc_server s) = (sv, r) \<Longrightarrow>
    rstep sha revoked write calm s RlQuiet (thread t (Some (PhAccepted e is_new r)) (s\<lparr>rc_server := sv\<rparr>))"
| settled: "rc_threads s t = Some (PhAccepted e is_new r) \<Longrightarrow> clock_ok now \<Longrightarrow>
    settle sha (\<lambda>_ l. (l, Inr ())) write now e is_new r (rc_server s, ()) = ((sv, l), out, r') \<Longrightarrow>
    rstep sha revoked write calm s (RlAck out) (thread t None (s\<lparr>rc_server := close_connection r' sv\<rparr>))"
| claimed: "sv_inbox (rc_server s) = Some ix \<Longrightarrow> clock_ok now \<Longrightarrow> ix_claim now ix = (ix', Inr (Some e)) \<Longrightarrow>
    rstep sha revoked write calm s (RlHandle e) ((set_inbox ix' s)\<lparr>rc_working := e # rc_working s\<rparr>)"
| finished: "sv_inbox (rc_server s) = Some ix \<Longrightarrow> clock_ok now \<Longrightarrow> e \<in> set (rc_working s) \<Longrightarrow>
    rstep sha revoked write calm s (RlFinish (message_id e))
      ((set_inbox (ix_finish (message_id e) err now ix) s)\<lparr>rc_working := remove1 e (rc_working s)\<rparr>)"
| restarted: "calm \<longrightarrow> rc_threads s = Map.empty \<Longrightarrow> sv_inbox (rc_server s) = Some ix \<Longrightarrow> inbox_open workers ix = Inr ix' \<Longrightarrow>
    rstep sha revoked write calm s RlRestart ((set_inbox ix' s)\<lparr>rc_threads := Map.empty, rc_working := []\<rparr>)"

definition rc_start :: receiver where
  "rc_start = \<lparr>rc_server = \<lparr>sv_inbox = Some inbox_empty, sv_replay = SqliteReplay [], sv_errors = []\<rparr>,
     rc_threads = Map.empty, rc_working = []\<rparr>"

inductive rrun :: "(string \<Rightarrow> string) \<Rightarrow> (string \<Rightarrow> bool) \<Rightarrow> (string \<Rightarrow> unit res) \<Rightarrow> bool \<Rightarrow> rc_label list \<Rightarrow> receiver \<Rightarrow> bool"
  for sha :: "string \<Rightarrow> string" and revoked :: "string \<Rightarrow> bool" and "write" :: "string \<Rightarrow> unit res" and calm :: bool where
  start: "rrun sha revoked write calm [] rc_start"
| step: "rrun sha revoked write calm tr s \<Longrightarrow> rstep sha revoked write calm s l s' \<Longrightarrow> rrun sha revoked write calm (tr @ [l]) s'"

section \<open>What the operations of the inbox do to its rows\<close>

definition staged_row :: "envelope \<Rightarrow> string \<Rightarrow> inbox_row \<Rightarrow> bool" where
  "staged_row e body r = (ir_message_id r = message_id e \<and> ir_key r = env_key e \<and> ir_sequence r = env_sequence e \<and>
     ir_envelope r = body \<and> ir_status r = IsStaged)"

lemma ix_enqueue_staged:
  assumes "ix_enqueue sha e now False ix = (ix', res)"
  shows "(ix' = ix \<and> res \<noteq> Inr True \<and> (res = Inr False \<longrightarrow> message_id e \<in> ir_message_id ` set (ix_rows ix))) \<or>
    (\<exists>body r. res = Inr True \<and> encode_envelope e = Inr body \<and> staged_row e body r \<and> ir_order r = ix_next ix \<and>
       ix_rows ix' = ix_rows ix @ [r] \<and> ix_next ix' = Suc (ix_next ix) \<and> message_id e \<notin> ir_message_id ` set (ix_rows ix))"
proof (cases "encode_envelope e")
  case (Inl err)
  then show ?thesis using assms by (auto simp: ix_enqueue_def)
next
  case body: (Inr body)
  show ?thesis
  proof (cases "find_in (message_id e) (ix_rows ix)")
    case (Some r)
    then have "message_id e \<in> ir_message_id ` set (ix_rows ix)"
      unfolding find_in_def by (metis find_key_SomeD imageI)
    then show ?thesis using assms body Some by (auto simp: ix_enqueue_def split: if_splits)
  next
    case None
    then have "message_id e \<notin> ir_message_id ` set (ix_rows ix)" by (simp add: find_in_def find_key_None_iff)
    then show ?thesis using assms body None
      by (auto simp: ix_enqueue_def staged_row_def ir_key_def env_key_def split: sum.splits)
  qed
qed

lemma ix_claim_Some:
  assumes "ix_claim now ix = (ix', Inr (Some e))"
  shows "\<exists>r\<in>set (ix_rows ix). claimable (ix_rows ix) r \<and> decode_envelope (ir_envelope r) = Inr e \<and> ix_next ix' = ix_next ix \<and>
    ix_rows ix' = upd_where (\<lambda>q. ir_message_id q = ir_message_id r) (\<lambda>q. q\<lparr>ir_status := IsProcessing, ir_updated_at_ms := now\<rparr>) (ix_rows ix)"
proof -
  obtain r where r: "next_claim ix = Some r" using assms by (cases "next_claim ix") (auto simp: ix_claim_def)
  then obtain rs where "sort_key (\<lambda>r. - ir_priority r) (filter (claimable (ix_rows ix)) (ix_rows ix)) = r # rs"
    by (auto simp: next_claim_def split: list.splits)
  then have "r \<in> set (sort_key (\<lambda>r. - ir_priority r) (filter (claimable (ix_rows ix)) (ix_rows ix)))" by simp
  then have "r \<in> set (ix_rows ix) \<and> claimable (ix_rows ix) r" by simp
  moreover have "decode_envelope (ir_envelope r) = Inr e" using assms r by (auto simp: ix_claim_def rbind_Inr_iff)
  moreover have "ix' = ix\<lparr>ix_rows := upd_where (\<lambda>q. ir_message_id q = ir_message_id r)
      (\<lambda>q. q\<lparr>ir_status := IsProcessing, ir_updated_at_ms := now\<rparr>) (ix_rows ix)\<rparr>" using assms r by (simp add: ix_claim_def)
  ultimately show ?thesis by auto
qed

lemma received_valid:
  assumes "receive_envelope sha revoked c = Inr (peer, e)"
  shows "valid_envelope e" "source_id e = peer"
proof -
  obtain b where b: "decode_envelope b = Inr e" and src: "source_id e = peer"
    using assms by (auto simp: receive_envelope_def res_simps split: option.splits)
  then obtain doc where doc: "loads_bytes b = Some (JObj doc)" "decode_document doc = Inr e"
    by (auto simp: decode_envelope_def res_simps split: option.splits json.splits)
  then show "valid_envelope e" using decode_document_Inr[OF loads_bytes_wf[OF doc(1)]] by blast
  show "source_id e = peer" by (fact src)
qed

text \<open>A step as a change of the rows of the inbox; \<open>B\<close> holds of the envelope that is staged, \<open>C\<close> of the message that is
  finished.\<close>

inductive row_change :: "(envelope \<Rightarrow> bool) \<Rightarrow> (string \<Rightarrow> bool) \<Rightarrow> rc_label \<Rightarrow> inbox \<Rightarrow> inbox \<Rightarrow> bool"
  for B :: "envelope \<Rightarrow> bool" and C :: "string \<Rightarrow> bool" where
  connected: "row_change B C (RlConnect c) ix ix"
| quiet: "row_change B C RlQuiet ix ix"
| acked: "row_change B C (RlAck out) ix ix"
| append: "B e \<Longrightarrow> encode_envelope e = Inr body \<Longrightarrow> staged_row e body r \<Longrightarrow> ir_order r = ix_next ix \<Longrightarrow>
    message_id e \<notin> ir_message_id ` set (ix_rows ix) \<Longrightarrow> ix_rows ix' = ix_rows ix @ [r] \<Longrightarrow> ix_next ix' = Suc (ix_next ix) \<Longrightarrow>
    row_change B C RlQuiet ix ix'"
| activate: "row_change B C (RlAck out) ix (ix_activate mid now ix)"
| discard: "row_change B C (RlAck out) ix (ix_discard_staged mid ix)"
| claim: "r \<in> set (ix_rows ix) \<Longrightarrow> claimable (ix_rows ix) r \<Longrightarrow> decode_envelope (ir_envelope r) = Inr e \<Longrightarrow> ix_next ix' = ix_next ix \<Longrightarrow>
    ix_rows ix' = upd_where (\<lambda>q. ir_message_id q = ir_message_id r) (\<lambda>q. q\<lparr>ir_status := IsProcessing, ir_updated_at_ms := now\<rparr>) (ix_rows ix) \<Longrightarrow>
    row_change B C (RlHandle e) ix ix'"
| finish: "C mid \<Longrightarrow> row_change B C (RlFinish mid) ix (ix_finish mid err now ix)"
| reopen: "inbox_open workers ix = Inr ix' \<Longrightarrow> row_change B C RlRestart ix ix'"

lemma close_connection_inbox [simp]:
  "sv_inbox (close_connection r sv) = sv_inbox sv" "sv_replay (close_connection r sv) = sv_replay sv"
  by (auto simp: close_connection_def record_error_def Let_def split: sum.split)

lemma thread_simps [simp]:
  "rc_server (thread t p s) = rc_server s" "rc_threads (thread t p s) = (rc_threads s)(t := p)"
  "rc_working (thread t p s) = rc_working s"
  by (simp_all add: thread_def)

lemma accept_sequence_inbox: "accept_sequence now peer e sv = (sv', r) \<Longrightarrow> sv_inbox sv' = sv_inbox sv"
  by (auto simp: accept_sequence_def split: prod.splits)

lemma stage_change:
  assumes "stage sha now e sv = (sv', r)" "sv_inbox sv = Some ix"
  shows "\<exists>ix'. sv_inbox sv' = Some ix' \<and> sv_replay sv' = sv_replay sv \<and> (
    (ix' = ix \<and> r \<noteq> Inr True \<and> (r = Inr False \<longrightarrow> message_id e \<in> ir_message_id ` set (ix_rows ix))) \<or>
    (\<exists>body row. r = Inr True \<and> encode_envelope e = Inr body \<and> staged_row e body row \<and> ir_order row = ix_next ix \<and>
       ix_rows ix' = ix_rows ix @ [row] \<and> ix_next ix' = Suc (ix_next ix) \<and> message_id e \<notin> ir_message_id ` set (ix_rows ix)))"
proof -
  obtain ix' where q: "ix_enqueue sha e now False ix = (ix', r)" "sv' = sv\<lparr>sv_inbox := Some ix'\<rparr>"
    using assms by (auto simp: stage_def split: prod.splits)
  show ?thesis using ix_enqueue_staged[OF q(1)] q(2) by simp
qed

lemma settle_change:
  assumes "settle sha h write now e is_new r (sv, l) = ((sv', l'), out, r')" "sv_inbox sv = Some ix"
  shows "sv_replay sv' = sv_replay sv \<and> sv_inbox sv' = Some (case r of
      Inl err \<Rightarrow> if \<not> is_replay_error err then ix
        else if is_new then ix_discard_staged (message_id e) ix
        else if stored_exactly sha e sv = Inr True then ix_activate (message_id e) now ix else ix
    | Inr _ \<Rightarrow> ix_activate (message_id e) now ix)"
  using assms by (auto simp: settle_def in_inbox_def split: sum.splits if_splits bool.splits)

lemma rstep_change:
  assumes "rstep sha revoked write calm s l s'" "sv_inbox (rc_server s) = Some ix"
  shows "\<exists>ix'. sv_inbox (rc_server s') = Some ix' \<and>
    row_change (\<lambda>e. \<exists>t peer. rc_threads s t = Some (PhReceived peer e)) (\<lambda>mid. mid \<in> message_id ` set (rc_working s)) l ix ix'"
  using assms
proof cases
  case (staged t peer e now sv is_new)
  then show ?thesis using stage_change[OF staged(5) assms(2)] by (auto intro: row_change.intros)
next
  case (unstaged t peer e now sv err)
  then show ?thesis using stage_change[OF unstaged(5) assms(2)] by (auto intro: row_change.intros)
next
  case (sequenced t peer e is_new now sv r)
  then show ?thesis using accept_sequence_inbox[OF sequenced(5)] assms(2) by (auto intro: row_change.intros)
next
  case (settled t e is_new r now sv l out r')
  then show ?thesis using settle_change[OF settled(5) assms(2)] by (auto intro: row_change.intros split: sum.splits)
next
  case (claimed ix0 now ix' e)
  then show ?thesis using ix_claim_Some[OF claimed(5)] assms(2) by (auto simp: set_inbox_def intro: row_change.claim)
qed (use assms(2) in \<open>auto simp: set_inbox_def intro: row_change.intros\<close>)

section \<open>Every message is handled once\<close>

definition authentic :: "(string \<Rightarrow> string) \<Rightarrow> (string \<Rightarrow> bool) \<Rightarrow> rc_label list \<Rightarrow> envelope \<Rightarrow> bool" where
  "authentic sha revoked tr e = (\<exists>c e0. RlConnect c \<in> set tr \<and> receive_envelope sha revoked c = Inr (source_id e, e0) \<and> e = canon_envelope e0)"

fun phase_envelope :: "phase \<Rightarrow> envelope" where
  "phase_envelope (PhReceived peer e) = e"
| "phase_envelope (PhStaged peer e is_new) = e"
| "phase_envelope (PhAccepted e is_new r) = e"

text \<open>The messages taken by the workers since the last start, and those that were finished at any time.\<close>

fun held_step :: "string set \<Rightarrow> rc_label \<Rightarrow> string set" where
  "held_step H (RlHandle e) = insert (message_id e) H"
| "held_step H RlRestart = {}"
| "held_step H _ = H"

definition held_ids :: "rc_label list \<Rightarrow> string set" where
  "held_ids tr = foldl held_step {} tr"

definition over :: "rc_label list \<Rightarrow> string set" where
  "over tr = {mid. RlFinish mid \<in> set tr}"

definition row_authentic :: "(envelope \<Rightarrow> bool) \<Rightarrow> inbox_row \<Rightarrow> bool" where
  "row_authentic A r = (\<exists>e. decode_envelope (ir_envelope r) = Inr e \<and> message_id e = ir_message_id r \<and> env_key e = ir_key r \<and>
     env_sequence e = ir_sequence r \<and> A e)"

definition taken :: "inbox_row list \<Rightarrow> inbox_status set \<Rightarrow> string set \<Rightarrow> bool" where
  "taken rows S mids = (\<forall>mid\<in>mids. \<exists>r\<in>set rows. ir_message_id r = mid \<and> ir_status r \<in> S)"

definition inbox_inv :: "(envelope \<Rightarrow> bool) \<Rightarrow> string set \<Rightarrow> string set \<Rightarrow> inbox \<Rightarrow> bool" where
  "inbox_inv A H F ix =
     (distinct (map ir_message_id (ix_rows ix)) \<and> (\<forall>r\<in>set (ix_rows ix). row_authentic A r) \<and>
      taken (ix_rows ix) {IsProcessing, IsProcessed, IsFailed} H \<and> taken (ix_rows ix) {IsProcessed, IsFailed} F)"

lemma taken_upd:
  assumes "taken rows S mids" "\<And>r. ir_message_id (f r) = ir_message_id r"
    "\<And>r. r \<in> set rows \<Longrightarrow> P r \<Longrightarrow> ir_message_id r \<in> mids \<Longrightarrow> ir_status r \<in> S \<Longrightarrow> ir_status (f r) \<in> S"
  shows "taken (upd_where P f rows) S mids"
  unfolding taken_def
proof
  fix mid assume "mid \<in> mids"
  then obtain r where r: "r \<in> set rows" "ir_message_id r = mid" "ir_status r \<in> S" using assms(1) unfolding taken_def by blast
  have "(if P r then f r else r) \<in> set (upd_where P f rows)" using r(1) by (simp add: upd_where_def)
  moreover have "ir_status (if P r then f r else r) \<in> S" using r assms(3)[OF r(1)] \<open>mid \<in> mids\<close> by simp
  moreover have "ir_message_id (if P r then f r else r) = mid" using r(2) assms(2) by simp
  ultimately show "\<exists>x\<in>set (upd_where P f rows). ir_message_id x = mid \<and> ir_status x \<in> S" by blast
qed

lemma row_authentic_upd:
  assumes "\<forall>r\<in>set rows. row_authentic A r"
    "\<And>r. ir_message_id (f r) = ir_message_id r \<and> ir_key (f r) = ir_key r \<and> ir_sequence (f r) = ir_sequence r \<and> ir_envelope (f r) = ir_envelope r"
  shows "\<forall>r\<in>set (upd_where P f rows). row_authentic A r"
  using assms by (auto simp: set_upd_where row_authentic_def)

lemma ids_upd: "(\<And>r. ir_message_id (f r) = ir_message_id r) \<Longrightarrow> map ir_message_id (upd_where P f rows) = map ir_message_id rows"
  by (simp add: map_upd_where)

lemma unique_row:
  "distinct (map ir_message_id rows) \<Longrightarrow> r \<in> set rows \<Longrightarrow> q \<in> set rows \<Longrightarrow> ir_message_id q = ir_message_id r \<Longrightarrow> q = r"
  by (metis distinct_map inj_onD)

lemma taken_not:
  assumes "distinct (map ir_message_id rows)" "r \<in> set rows" "taken rows S mids" "ir_status r \<notin> S"
  shows "ir_message_id r \<notin> mids"
proof
  assume "ir_message_id r \<in> mids"
  then obtain q where "q \<in> set rows" "ir_message_id q = ir_message_id r" "ir_status q \<in> S" using assms(3) unfolding taken_def by blast
  then show False using unique_row[OF assms(1,2)] assms(4) by blast
qed

text \<open>An update of the status of some rows that leaves the taken ones taken.\<close>

lemma inbox_inv_upd:
  assumes inv: "inbox_inv A H F ix" and rows: "ix_rows ix' = upd_where P f (ix_rows ix)"
    and f: "\<And>r. ir_message_id (f r) = ir_message_id r \<and> ir_key (f r) = ir_key r \<and> ir_sequence (f r) = ir_sequence r \<and> ir_envelope (f r) = ir_envelope r"
    and S: "\<And>r. r \<in> set (ix_rows ix) \<Longrightarrow> P r \<Longrightarrow> ir_status r \<in> {IsProcessing, IsProcessed, IsFailed} \<Longrightarrow> ir_status (f r) \<in> {IsProcessing, IsProcessed, IsFailed} \<or> H' = {}"
    and T: "\<And>r. r \<in> set (ix_rows ix) \<Longrightarrow> P r \<Longrightarrow> ir_status r \<in> {IsProcessed, IsFailed} \<Longrightarrow> ir_status (f r) \<in> {IsProcessed, IsFailed}"
    and sub: "H' \<subseteq> H"
  shows "inbox_inv A H' F ix'"
proof -
  have ids: "\<And>r. ir_message_id (f r) = ir_message_id r" using f by blast
  have "taken (ix_rows ix) {IsProcessing, IsProcessed, IsFailed} H'" using inv sub by (auto simp: inbox_inv_def taken_def)
  then have "taken (ix_rows ix') {IsProcessing, IsProcessed, IsFailed} H'"
    unfolding rows using S ids by (intro taken_upd) blast+
  moreover have "taken (ix_rows ix') {IsProcessed, IsFailed} F"
    unfolding rows using inv T ids by (intro taken_upd) (auto simp: inbox_inv_def)
  ultimately show ?thesis using inv ids_upd[of f P "ix_rows ix", OF ids] row_authentic_upd[of "ix_rows ix" A f P, OF _ f]
    by (simp add: inbox_inv_def rows)
qed

lemma taken_insert: "taken rows S (insert mid mids) \<longleftrightarrow> (\<exists>r\<in>set rows. ir_message_id r = mid \<and> ir_status r \<in> S) \<and> taken rows S mids"
  by (auto simp: taken_def)

fun finished_by :: "rc_label \<Rightarrow> string set" where
  "finished_by (RlFinish mid) = {mid}"
| "finished_by _ = {}"

lemma row_change_inv:
  assumes "row_change B C l ix ix'" and inv: "inbox_inv A H F ix"
    and B: "\<And>e. B e \<Longrightarrow> valid_envelope e \<and> A (canon_envelope e)" and C: "\<And>mid. C mid \<Longrightarrow> mid \<in> H"
  shows "inbox_inv A (held_step H l) (F \<union> finished_by l) ix' \<and> (\<forall>e. l = RlHandle e \<longrightarrow> message_id e \<notin> H \<union> F \<and> A e)"
  using assms(1)
proof cases
  case (append e body r)
  have wf: "wf_json (env_payload e)" "valid_envelope (canon_envelope e)" using B[OF append(2)] valid_canon_envelope by (auto simp: valid_envelope_def)
  have "decode_envelope body = Inr (canon_envelope e)" using decode_encoded[OF append(3) wf(1)] wf(2) by blast
  then have "row_authentic A r" using append(4) B[OF append(2)]
    unfolding row_authentic_def by (intro exI[of _ "canon_envelope e"]) (auto simp: staged_row_def canon_envelope_def env_key_def)
  then show ?thesis using inv append(1,4,6,7) by (auto simp: inbox_inv_def taken_def staged_row_def)
next
  case (activate out mid now)
  then show ?thesis using inbox_inv_upd[OF inv, of ix', OF _ _ _ _ subset_refl] by (force simp: ix_activate_def ir_key_def)
next
  case (discard out mid)
  have "distinct (map ir_message_id (ix_rows ix'))" using inv discard(2) by (simp add: inbox_inv_def ix_discard_staged_def distinct_map_filter)
  then show ?thesis using inv discard by (auto simp: inbox_inv_def ix_discard_staged_def taken_def) (metis inbox_status.distinct)+
next
  case (claim r e now)
  have st: "ir_status r = IsReceived" using claim(3) by (simp add: claimable_def)
  obtain A_e: "A e" and e: "message_id e = ir_message_id r"
    using inv claim(2,4) by (force simp: inbox_inv_def row_authentic_def)
  have d: "distinct (map ir_message_id (ix_rows ix))" using inv by (simp add: inbox_inv_def)
  have new: "ir_message_id r \<notin> H" "ir_message_id r \<notin> F"
    using taken_not[OF d claim(2)] inv st by (auto simp: inbox_inv_def)
  have only: "ir_status q = IsReceived" if "q \<in> set (ix_rows ix)" "ir_message_id q = ir_message_id r" for q
    using unique_row[OF d claim(2) that] st by simp
  have "inbox_inv A H F ix'"
    by (rule inbox_inv_upd[OF inv claim(6)]) (use only in \<open>auto simp: ir_key_def\<close>)
  moreover have "r\<lparr>ir_status := IsProcessing, ir_updated_at_ms := now\<rparr> \<in> set (ix_rows ix')"
    using claim(2,6) by (auto simp: set_upd_where)
  then have "\<exists>q\<in>set (ix_rows ix'). ir_message_id q = message_id e \<and> ir_status q \<in> {IsProcessing, IsProcessed, IsFailed}"
    using e by (intro bexI) simp_all
  ultimately show ?thesis using claim(1) A_e new e by (simp add: inbox_inv_def taken_insert)
next
  case (finish mid err now)
  have rows: "ix_rows ix' = upd_where (\<lambda>r. ir_message_id r = mid) (\<lambda>r. r\<lparr>ir_status := (if err = None then IsProcessed else IsFailed),
      ir_error := map_option (take_chars 1024) err, ir_updated_at_ms := now\<rparr>) (ix_rows ix)" by (simp add: finish(2) ix_finish_def)
  have "inbox_inv A H F ix'"
    by (rule inbox_inv_upd[OF inv rows]) (auto simp: ir_key_def)
  moreover obtain r where r: "r \<in> set (ix_rows ix)" "ir_message_id r = mid" using C[OF finish(3)] inv by (auto simp: inbox_inv_def taken_def)
  let ?q = "r\<lparr>ir_status := (if err = None then IsProcessed else IsFailed),
      ir_error := map_option (take_chars 1024) err, ir_updated_at_ms := now\<rparr>"
  have "?q \<in> set (ix_rows ix')" using r unfolding rows by (simp only: set_upd_where) (intro image_eqI[of _ _ r], auto)
  then have "\<exists>q\<in>set (ix_rows ix'). ir_message_id q = mid \<and> ir_status q \<in> {IsProcessed, IsFailed}"
    using r(2) by (intro bexI[of _ ?q]) simp_all
  ultimately show ?thesis using finish(1) by (simp add: inbox_inv_def taken_insert)
next
  case (reopen workers)
  have "ix_rows ix' = upd_where (\<lambda>r. ir_status r = IsProcessing) (\<lambda>r. r\<lparr>ir_status := IsReceived\<rparr>) (ix_rows ix)"
    using reopen(2) by (auto simp: inbox_open_def rbind_Inr_iff)
  then have "inbox_inv A {} F ix'" by (rule inbox_inv_upd[OF inv]) (auto simp: ir_key_def)
  then show ?thesis using reopen by simp
qed (use inv in simp_all)

lemma held_snoc [simp]: "held_ids (tr @ [l]) = held_step (held_ids tr) l" "held_ids [] = {}"
  by (simp_all add: held_ids_def)

lemma over_snoc [simp]: "over (tr @ [l]) = over tr \<union> finished_by l" "over [] = {}"
  by (cases l; auto simp: over_def)+

lemma authentic_mono: "authentic sha revoked tr e \<Longrightarrow> authentic sha revoked (tr @ us) e"
  by (auto simp: authentic_def)

lemma inbox_inv_mono: "inbox_inv A H F ix \<Longrightarrow> (\<And>e. A e \<Longrightarrow> A' e) \<Longrightarrow> inbox_inv A' H F ix"
  unfolding inbox_inv_def row_authentic_def by (simp, meson)

definition receiver_inv :: "(string \<Rightarrow> string) \<Rightarrow> (string \<Rightarrow> bool) \<Rightarrow> rc_label list \<Rightarrow> receiver \<Rightarrow> bool" where
  "receiver_inv sha revoked tr s =
     ((\<forall>t p. rc_threads s t = Some p \<longrightarrow> valid_envelope (phase_envelope p) \<and> authentic sha revoked tr (canon_envelope (phase_envelope p))) \<and>
      message_id ` set (rc_working s) \<subseteq> held_ids tr \<and>
      (\<exists>ix. sv_inbox (rc_server s) = Some ix \<and> inbox_inv (authentic sha revoked tr) (held_ids tr) (over tr) ix))"

lemma rstep_threads:
  assumes "rstep sha revoked write calm s l s'" "rc_threads s' t = Some p"
  shows "(\<exists>q. rc_threads s t = Some q \<and> phase_envelope p = phase_envelope q) \<or>
    (\<exists>c peer e. l = RlConnect c \<and> receive_envelope sha revoked c = Inr (peer, e) \<and> phase_envelope p = e)"
  using assms by cases (auto simp: set_inbox_def split: if_splits)

lemma rstep_working:
  assumes "rstep sha revoked write calm s l s'" "message_id ` set (rc_working s) \<subseteq> H"
  shows "message_id ` set (rc_working s') \<subseteq> held_step H l"
  using assms by cases (auto simp: set_inbox_def dest: notin_set_remove1 in_set_remove1 set_mp[OF set_remove1_subset])

lemma receiver_inv_step:
  assumes inv: "receiver_inv sha revoked tr s" and step: "rstep sha revoked write calm s l s'"
  shows "receiver_inv sha revoked (tr @ [l]) s' \<and>
    (\<forall>e. l = RlHandle e \<longrightarrow> message_id e \<notin> held_ids tr \<union> over tr \<and> authentic sha revoked tr e)"
proof -
  let ?A = "authentic sha revoked tr" and ?A' = "authentic sha revoked (tr @ [l])"
  obtain ix where ix: "sv_inbox (rc_server s) = Some ix" "inbox_inv ?A (held_ids tr) (over tr) ix" using inv by (auto simp: receiver_inv_def)
  obtain ix' where ix': "sv_inbox (rc_server s') = Some ix'"
      "row_change (\<lambda>e. \<exists>t peer. rc_threads s t = Some (PhReceived peer e)) (\<lambda>mid. mid \<in> message_id ` set (rc_working s)) l ix ix'"
    using rstep_change[OF step ix(1)] by blast
  have threads: "valid_envelope (phase_envelope p) \<and> ?A (canon_envelope (phase_envelope p))" if "rc_threads s t = Some p" for t p
    using inv that by (auto simp: receiver_inv_def)
  have work: "message_id ` set (rc_working s) \<subseteq> held_ids tr" using inv by (simp add: receiver_inv_def)
  have change: "inbox_inv ?A (held_step (held_ids tr) l) (over tr \<union> finished_by l) ix' \<and>
      (\<forall>e. l = RlHandle e \<longrightarrow> message_id e \<notin> held_ids tr \<union> over tr \<and> ?A e)"
    by (rule row_change_inv[OF ix'(2) ix(2)]) (use threads work in \<open>fastforce+\<close>)
  have "valid_envelope (phase_envelope p) \<and> ?A' (canon_envelope (phase_envelope p))" if p: "rc_threads s' t = Some p" for t p
    using rstep_threads[OF step p]
  proof (elim disjE exE conjE)
    fix q assume "rc_threads s t = Some q" "phase_envelope p = phase_envelope q"
    then show ?thesis using threads authentic_mono by metis
  next
    fix c peer e assume c: "l = RlConnect c" "receive_envelope sha revoked c = Inr (peer, e)" "phase_envelope p = e"
    then show ?thesis using received_valid[OF c(2)] by (auto simp: authentic_def canon_envelope_def)
  qed
  moreover have "inbox_inv ?A' (held_ids (tr @ [l])) (over (tr @ [l])) ix'"
    using change inbox_inv_mono[of ?A _ _ ix' ?A'] authentic_mono by auto
  ultimately show ?thesis using change ix'(1) rstep_working[OF step work] by (auto simp: receiver_inv_def)
qed

lemma rrun_inv: "rrun sha revoked write calm tr s \<Longrightarrow> receiver_inv sha revoked tr s"
proof (induction rule: rrun.induct)
  case start
  show ?case by (simp add: receiver_inv_def rc_start_def inbox_inv_def inbox_empty_def taken_def)
next
  case (step tr s l s')
  then show ?case using receiver_inv_step by blast
qed

lemma rrun_prefix: "rrun sha revoked write calm tr s \<Longrightarrow> tr = xs @ ys \<Longrightarrow> \<exists>s'. rrun sha revoked write calm xs s'"
proof (induction arbitrary: ys rule: rrun.induct)
  case start
  then have "xs = []" by simp
  then show ?case using rrun.start[of sha revoked "write" calm] by blast
next
  case (step tr s l s')
  show ?case
  proof (cases ys rule: rev_cases)
    case Nil
    then show ?thesis using step rrun.step by fastforce
  next
    case (snoc zs z)
    then show ?thesis using step by auto
  qed
qed

lemma held_since:
  "message_id e \<notin> held_ids (us @ RlHandle e # vs) \<Longrightarrow> RlRestart \<in> set vs"
proof (induction vs rule: rev_induct)
  case (snoc l vs)
  have "held_ids (us @ RlHandle e # vs @ [l]) = held_step (held_ids (us @ RlHandle e # vs)) l"
    using held_snoc(1)[of "us @ RlHandle e # vs" l] by simp
  then show ?case using snoc by (cases l) auto
qed (use held_snoc(1)[of us "RlHandle e"] in simp)

text \<open>C27: Receiving is authentic and happens once. However connections, resends, workers, crashes and restarts are interleaved,
  a worker is given only what a connection of this very history delivered under a certificate of its source;
  it is never given again once it was finished, and a second time only after a restart.\<close>

theorem handled_once:
  assumes "rrun sha revoked write calm (xs @ RlHandle e # ys) s"
  shows "(\<exists>c e0. RlConnect c \<in> set xs \<and> receive_envelope sha revoked c = Inr (source_id e, e0) \<and> e = canon_envelope e0) \<and>
    RlFinish (message_id e) \<notin> set xs \<and>
    (\<forall>us e' vs. xs = us @ RlHandle e' # vs \<and> message_id e' = message_id e \<longrightarrow> RlRestart \<in> set vs)"
proof -
  obtain s2 where "rrun sha revoked write calm (xs @ [RlHandle e]) s2" using rrun_prefix[OF assms, of "xs @ [RlHandle e]" ys] by auto
  then obtain s1 where s1: "rrun sha revoked write calm xs s1" "rstep sha revoked write calm s1 (RlHandle e) s2"
    by (auto elim: rrun.cases)
  have new: "message_id e \<notin> held_ids xs \<union> over xs" "authentic sha revoked xs e"
    using receiver_inv_step[OF rrun_inv[OF s1(1)] s1(2)] by auto
  have "RlRestart \<in> set vs" if "xs = us @ RlHandle e' # vs" "message_id e' = message_id e" for us e' vs
    using held_since[of e' us vs] new(1) that by simp
  then show ?thesis using new unfolding authentic_def over_def by blast
qed

section \<open>Two runs from the start\<close>

text \<open>The inbox with the one row of an envelope.\<close>

definition first_row :: "(string \<Rightarrow> string) \<Rightarrow> envelope \<Rightarrow> string \<Rightarrow> inbox_status \<Rightarrow> inbox_row" where
  "first_row sha e body st = \<lparr>ir_order = 1, ir_message_id = message_id e, ir_source_id = source_id e, ir_session_id = session_id e,
     ir_stream = env_stream e, ir_sequence = env_sequence e, ir_priority = (if env_stream e = SAFETY_STREAM then 1 else 0),
     ir_envelope = body, ir_digest = sha body, ir_status = st, ir_error = None, ir_received_at_ms = 0, ir_updated_at_ms = 0\<rparr>"

definition one_row :: "inbox_row list \<Rightarrow> inbox" where
  "one_row rows = \<lparr>ix_rows = rows, ix_next = 2\<rparr>"

definition after_accept :: "envelope \<Rightarrow> replay_store" where
  "after_accept e = [\<lparr>rp_key = (source_id e, session_id e, env_stream e), rp_last_sequence = env_sequence e, rp_updated_at_ms = 0\<rparr>]"

definition server_with :: "inbox \<Rightarrow> replay_store \<Rightarrow> error list \<Rightarrow> server" where
  "server_with ix rs es = \<lparr>sv_inbox = Some ix, sv_replay = SqliteReplay rs, sv_errors = es\<rparr>"

lemma clock_zero [simp]: "clock_ok 0"
  by (simp add: clock_ok_def)

lemma stage_first:
  assumes "encode_envelope e = Inr body" "sql_int (env_sequence e) = Inr ()" "1 \<le> env_sequence e"
  shows "stage sha 0 e (server_with inbox_empty [] []) = (server_with (one_row [first_row sha e body IsStaged]) [] [], Inr True)"
  using assms by (simp add: stage_def server_with_def ix_enqueue_def find_in_def inbox_empty_def one_row_def first_row_def sql_int_def require_def numeral_2_eq_2)

lemma stage_again:
  assumes "encode_envelope e = Inr body"
  shows "stage sha 0 e (server_with (one_row [first_row sha e body st]) rs es) = (server_with (one_row [first_row sha e body st]) rs es, Inr False)"
  using assms by (simp add: stage_def server_with_def ix_enqueue_def find_in_def one_row_def first_row_def)

lemma accept_first:
  assumes "sql_int (env_sequence e) = Inr ()" "1 \<le> env_sequence e"
  shows "accept_sequence 0 (source_id e) e (server_with ix [] []) = (server_with ix (after_accept e) [], Inr ())"
  using assms by (simp add: accept_sequence_def server_with_def replay_accept_def rs_accept_def rs_last_def rs_row_def after_accept_def sql_int_def require_def)

lemma accept_again: "rs_accept now (source_id e, session_id e, env_stream e) (env_sequence e) (after_accept e) = (after_accept e, Inl replay_error)"
  by (simp add: rs_accept_def rs_last_def rs_row_def after_accept_def)

lemma settle_first:
  "\<exists>out r. settle sha (\<lambda>_ l. (l, Inr ())) write 0 e True (Inr ()) (server_with (one_row [first_row sha e body IsStaged]) rs es, ()) =
    ((server_with (one_row [first_row sha e body IsReceived]) rs es, ()), out, r)"
  by (simp add: settle_def server_with_def in_inbox_def ix_activate_def one_row_def first_row_def upd_where_def)

lemma settle_refused:
  "settle sha (\<lambda>_ l. (l, Inr ())) write 0 e True (Inl replay_error) (server_with (one_row [first_row sha e body IsStaged]) rs es, ()) =
    ((server_with (one_row []) rs es, ()), [], Inl replay_error)"
  by (simp add: settle_def server_with_def in_inbox_def ix_discard_staged_def one_row_def first_row_def replay_error_def is_replay_error_def)

lemma settle_resent:
  assumes "encode_delivery_ack \<lparr>ack_message_id = message_id e, ack_status = ''duplicate''\<rparr> = Inr a" "send_frame a = Inr frame"
  shows "settle sha (\<lambda>_ l. (l, Inr ())) (\<lambda>_. Inr ()) 0 e False (Inr ()) (server_with (one_row []) rs es, ()) =
    ((server_with (one_row []) rs es, ()), [frame], Inr ())"
  using assms by (simp add: settle_def server_with_def in_inbox_def ix_activate_def one_row_def send_ack_def)

lemma claim_first:
  assumes "encode_envelope e = Inr body" "valid_envelope e"
  shows "\<exists>ix'. ix_claim 0 (one_row [first_row sha e body IsReceived]) = (ix', Inr (Some (canon_envelope e)))"
proof -
  have "decode_envelope body = Inr (canon_envelope e)"
    using decode_encoded[OF assms(1)] valid_canon_envelope[OF assms(2)] assms(2) unfolding valid_envelope_def by blast
  then show ?thesis by (simp add: ix_claim_def next_claim_def claimable_def one_row_def first_row_def)
qed

text \<open>A receiver with given threads.\<close>

definition rc :: "inbox \<Rightarrow> replay_store \<Rightarrow> error list \<Rightarrow> (nat \<Rightarrow> phase option) \<Rightarrow> receiver" where
  "rc ix rs es ts = \<lparr>rc_server = server_with ix rs es, rc_threads = ts, rc_working = []\<rparr>"

lemma rc_simps [simp]:
  "rc_server (rc ix rs es ts) = server_with ix rs es" "rc_threads (rc ix rs es ts) = ts"
  "rc_working (rc ix rs es ts) = []" "thread t p ((rc ix rs es ts)\<lparr>rc_server := server_with ix' rs' es'\<rparr>) = rc ix' rs' es' (ts(t := p))"
  "thread t p (rc ix rs es ts) = rc ix rs es (ts(t := p))"
  by (simp_all add: rc_def thread_def)

lemma close_server_with: "\<exists>es'. close_connection r (server_with ix rs es) = server_with ix rs es'"
  by (auto simp: close_connection_def record_error_def server_with_def Let_def split: sum.split)

lemma rc_start_rc: "rc_start = rc inbox_empty [] [] Map.empty"
  by (simp add: rc_start_def rc_def server_with_def)

lemma run_staged:
  assumes "rrun sha revoked write calm tr (rc inbox_empty [] [] ts)" "ts t = Some (PhReceived peer e)"
    "encode_envelope e = Inr body" "sql_int (env_sequence e) = Inr ()" "1 \<le> env_sequence e"
  shows "rrun sha revoked write calm (tr @ [RlQuiet]) (rc (one_row [first_row sha e body IsStaged]) [] [] (ts(t \<mapsto> PhStaged peer e True)))"
  using rrun.step[OF assms(1) rstep.staged[of _ t peer e 0]] stage_first[OF assms(3-5)] assms(2) by simp

lemma run_accepted:
  assumes "rrun sha revoked write calm tr (rc ix [] [] ts)" "ts t = Some (PhStaged (source_id e) e new)"
    "sql_int (env_sequence e) = Inr ()" "1 \<le> env_sequence e"
  shows "rrun sha revoked write calm (tr @ [RlQuiet]) (rc ix (after_accept e) [] (ts(t \<mapsto> PhAccepted e new (Inr ()))))"
  using rrun.step[OF assms(1) rstep.sequenced[of _ t "source_id e" e new 0]] accept_first[OF assms(3,4)] assms(2) by simp

lemma first_message_handled:
  assumes c: "receive_envelope sha revoked c = Inr (peer, e)" and body: "encode_envelope e = Inr body" "sql_int (env_sequence e) = Inr ()"
  shows "\<exists>out s. rrun sha revoked write calm ([RlConnect c, RlQuiet, RlQuiet, RlAck out] @ RlHandle (canon_envelope e) # []) s"
proof -
  note v = received_valid[OF c]
  have q: "1 \<le> env_sequence e" and wf: "wf_json (env_payload e)" using v(1) by (simp_all add: valid_envelope_def)
  have "rrun sha revoked write calm ([] @ [RlConnect c]) (thread 0 (Some (PhReceived peer e)) rc_start)"
    by (rule rrun.step[OF rrun.start rstep.connect[OF _ _ c]]) (simp_all add: rc_start_rc)
  then have "rrun sha revoked write calm [RlConnect c] (rc inbox_empty [] [] [0 \<mapsto> PhReceived peer e])" by (simp add: rc_start_rc)
  from run_staged[OF this _ body q, of 0 peer]
  have "rrun sha revoked write calm [RlConnect c, RlQuiet] (rc (one_row [first_row sha e body IsStaged]) [] [] [0 \<mapsto> PhStaged peer e True])" by simp
  from run_accepted[OF this, of 0 e True]
  have r3: "rrun sha revoked write calm [RlConnect c, RlQuiet, RlQuiet]
      (rc (one_row [first_row sha e body IsStaged]) (after_accept e) [] [0 \<mapsto> PhAccepted e True (Inr ())])" using v(2) body(2) q by simp
  obtain out r where st: "settle sha (\<lambda>_ l. (l, Inr ())) write 0 e True (Inr ()) (server_with (one_row [first_row sha e body IsStaged]) (after_accept e) [], ()) =
      ((server_with (one_row [first_row sha e body IsReceived]) (after_accept e) [], ()), out, r)" using settle_first by blast
  obtain es where es: "close_connection r (server_with (one_row [first_row sha e body IsReceived]) (after_accept e) []) =
      server_with (one_row [first_row sha e body IsReceived]) (after_accept e) es" using close_server_with by blast
  have r4: "rrun sha revoked write calm [RlConnect c, RlQuiet, RlQuiet, RlAck out]
      (rc (one_row [first_row sha e body IsReceived]) (after_accept e) es Map.empty)"
    using rrun.step[OF r3 rstep.settled[of _ 0 e True "Inr ()" 0]] st es by simp
  obtain ix' where "ix_claim 0 (one_row [first_row sha e body IsReceived]) = (ix', Inr (Some (canon_envelope e)))"
    using claim_first[OF body(1) v(1)] by blast
  then have "rrun sha revoked write calm ([RlConnect c, RlQuiet, RlQuiet, RlAck out] @ [RlHandle (canon_envelope e)])
      ((set_inbox ix' (rc (one_row [first_row sha e body IsReceived]) (after_accept e) es Map.empty))\<lparr>rc_working := [canon_envelope e]\<rparr>)"
    using rrun.step[OF r4 rstep.claimed[of _ "one_row [first_row sha e body IsReceived]" 0]] by (simp add: server_with_def)
  then show ?thesis by auto
qed

text \<open>A connection that brings a sample message under the certificate of its source.\<close>

definition sample_session :: tls_session where
  "sample_session = \<lparr>ts_alpn = Some TLS_ALPN, ts_san = [(''URI'', ''urn:ump:robot:robot-1'')], ts_der = ''c'',
     ts_answer = (\<lambda>_. case rbind (encode_envelope sample_message) send_frame of Inl _ \<Rightarrow> [] | Inr f \<Rightarrow> [f])\<rparr>"

definition sample_received :: envelope where
  "sample_received = (case receive_envelope (\<lambda>s. s) (\<lambda>_. False) sample_session of Inl _ \<Rightarrow> sample_message | Inr (p, e) \<Rightarrow> e)"

lemma sample_session_received:
  "receive_envelope (\<lambda>s. s) (\<lambda>_. False) sample_session = Inr (source_id sample_received, sample_received)"
  "\<exists>body. encode_envelope sample_received = Inr body" "sql_int (env_sequence sample_received) = Inr ()"
proof -
  have run: "case receive_envelope (\<lambda>s. s) (\<lambda>_. False) sample_session of Inl _ \<Rightarrow> False
      | Inr (p, e) \<Rightarrow> is_ok (encode_envelope e) \<and> env_sequence e = 1" by code_simp
  then obtain p where p: "receive_envelope (\<lambda>s. s) (\<lambda>_. False) sample_session = Inr (p, sample_received)"
      "is_ok (encode_envelope sample_received)" "env_sequence sample_received = 1"
    by (auto simp: sample_received_def split: sum.splits)
  show "receive_envelope (\<lambda>s. s) (\<lambda>_. False) sample_session = Inr (source_id sample_received, sample_received)"
    using p(1) received_valid[OF p(1)] by simp
  show "\<exists>body. encode_envelope sample_received = Inr body" using p(2) by (simp add: is_ok_iff)
  show "sql_int (env_sequence sample_received) = Inr ()" using p(3) by (simp add: sql_int_def)
qed

theorem handled_once_witness:
  "\<exists>xs e s. rrun (\<lambda>s. s) (\<lambda>_. False) (\<lambda>_. Inr ()) False (xs @ RlHandle e # []) s \<and>
     (\<exists>c e0. RlConnect c \<in> set xs \<and> receive_envelope (\<lambda>s. s) (\<lambda>_. False) c = Inr (source_id e, e0) \<and> e = canon_envelope e0)"
proof -
  obtain body where b: "encode_envelope sample_received = Inr body" using sample_session_received(2) by blast
  obtain out s where "rrun (\<lambda>s. s) (\<lambda>_. False) (\<lambda>_. Inr ()) False
      ([RlConnect sample_session, RlQuiet, RlQuiet, RlAck out] @ RlHandle (canon_envelope sample_received) # []) s"
    using first_message_handled[OF sample_session_received(1) b sample_session_received(3)] by blast
  from handled_once[OF this] this show ?thesis by blast
qed

section \<open>A resend can lose its message\<close>

text \<open>C30: Resending while the first connection is still open can lose a message. When the second connection of the same
  message is the one whose sequence number is accepted, the first discards the staged row; the second then
  activates nothing and acknowledges a duplicate. The sender takes the message for delivered, the inbox is
  empty, no worker ever got it, and its sequence number will be refused from now on.\<close>

theorem concurrent_resend_loses_message:
  assumes "receive_envelope sha revoked c = Inr (peer, e)" and "encode_envelope e = Inr body" and "sql_int (env_sequence e) = Inr ()"
    and "encode_delivery_ack \<lparr>ack_message_id = message_id e, ack_status = ''duplicate''\<rparr> = Inr a" and "send_frame a = Inr frame"
  shows "\<exists>tr s rs. rrun sha revoked (\<lambda>_. Inr ()) False tr s \<and> RlAck [frame] \<in> set tr \<and> (\<forall>e'. RlHandle e' \<notin> set tr) \<and>
    rc_threads s = Map.empty \<and> (\<exists>ix. sv_inbox (rc_server s) = Some ix \<and> ix_rows ix = []) \<and>
    sv_replay (rc_server s) = SqliteReplay rs \<and>
    (\<forall>now. rs_accept now (peer, session_id e, env_stream e) (env_sequence e) rs = (rs, Inl replay_error))"
proof -
  note v = received_valid[OF assms(1)]
  have q: "1 \<le> env_sequence e" using v(1) by (simp add: valid_envelope_def)
  let ?R = "rrun sha revoked (\<lambda>_. Inr ()) False" and ?staged = "one_row [first_row sha e body IsStaged]"
  have "?R ([] @ [RlConnect c]) (thread 0 (Some (PhReceived peer e)) rc_start)"
    by (rule rrun.step[OF rrun.start rstep.connect[OF _ _ assms(1)]]) (simp_all add: rc_start_rc)
  then have r1: "?R [RlConnect c] (rc inbox_empty [] [] [0 \<mapsto> PhReceived peer e])" by (simp add: rc_start_rc)
  have "?R ([RlConnect c] @ [RlConnect c]) (thread 1 (Some (PhReceived peer e)) (rc inbox_empty [] [] [0 \<mapsto> PhReceived peer e]))"
    by (rule rrun.step[OF r1 rstep.connect[OF _ _ assms(1)]]) simp_all
  then have "?R [RlConnect c, RlConnect c] (rc inbox_empty [] [] [0 \<mapsto> PhReceived peer e, 1 \<mapsto> PhReceived peer e])" by simp
  from run_staged[OF this _ assms(2,3) q, of 0 peer]
  have r3: "?R [RlConnect c, RlConnect c, RlQuiet] (rc ?staged [] [] [0 \<mapsto> PhStaged peer e True, 1 \<mapsto> PhReceived peer e])"
    by (simp add: fun_upd_twist)
  have "?R ([RlConnect c, RlConnect c, RlQuiet] @ [RlQuiet]) (rc ?staged [] [] [0 \<mapsto> PhStaged peer e True, 1 \<mapsto> PhStaged peer e False])"
    using rrun.step[OF r3 rstep.staged[of _ 1 peer e 0 _ _ False]] stage_again[OF assms(2)] by simp
  from run_accepted[OF this, of 1 e False]
  have r5: "?R [RlConnect c, RlConnect c, RlQuiet, RlQuiet, RlQuiet]
      (rc ?staged (after_accept e) [] [0 \<mapsto> PhStaged peer e True, 1 \<mapsto> PhAccepted e False (Inr ())])"
    using v(2) assms(3) q by simp
  have refused: "accept_sequence 0 peer e (server_with ?staged (after_accept e) []) = (server_with ?staged (after_accept e) [], Inl replay_error)"
    using accept_again[of 0 e] v(2) by (simp add: accept_sequence_def server_with_def replay_accept_def)
  have r6: "?R [RlConnect c, RlConnect c, RlQuiet, RlQuiet, RlQuiet, RlQuiet]
      (rc ?staged (after_accept e) [] [0 \<mapsto> PhAccepted e True (Inl replay_error), 1 \<mapsto> PhAccepted e False (Inr ())])"
    using rrun.step[OF r5 rstep.sequenced[of _ 0 peer e True 0]] refused by (simp add: fun_upd_twist)
  obtain es where es: "close_connection (Inl replay_error) (server_with (one_row []) (after_accept e) []) = server_with (one_row []) (after_accept e) es"
    using close_server_with by blast
  have r7: "?R [RlConnect c, RlConnect c, RlQuiet, RlQuiet, RlQuiet, RlQuiet, RlAck []]
      (rc (one_row []) (after_accept e) es [1 \<mapsto> PhAccepted e False (Inr ())])"
    using rrun.step[OF r6 rstep.settled[of _ 0 e True "Inl replay_error" 0]] settle_refused es by (simp add: fun_upd_twist)
  have "close_connection (Inr ()) (server_with (one_row []) (after_accept e) es) = server_with (one_row []) (after_accept e) es"
    by (simp add: close_connection_def)
  then have r8: "?R [RlConnect c, RlConnect c, RlQuiet, RlQuiet, RlQuiet, RlQuiet, RlAck [], RlAck [frame]] (rc (one_row []) (after_accept e) es Map.empty)"
    using rrun.step[OF r7 rstep.settled[of _ 1 e False "Inr ()" 0]] settle_resent[OF assms(4,5)] by simp
  show ?thesis
    by (rule exI, rule exI, rule exI[of _ "after_accept e"], rule conjI[OF r8])
       (use accept_again v(2) in \<open>auto simp: server_with_def one_row_def\<close>)
qed

theorem concurrent_resend_loses_message_witness:
  "\<exists>tr s frame. rrun (\<lambda>s. s) (\<lambda>_. False) (\<lambda>_. Inr ()) False tr s \<and> RlAck [frame] \<in> set tr \<and> rc_threads s = Map.empty \<and>
     (\<exists>ix. sv_inbox (rc_server s) = Some ix \<and> ix_rows ix = [])"
proof -
  obtain body where b: "encode_envelope sample_received = Inr body" using sample_session_received(2) by blast
  have "is_ok (rbind (encode_delivery_ack \<lparr>ack_message_id = message_id sample_received, ack_status = ''duplicate''\<rparr>) send_frame)"
    by code_simp
  then obtain a frame where "encode_delivery_ack \<lparr>ack_message_id = message_id sample_received, ack_status = ''duplicate''\<rparr> = Inr a"
      "send_frame a = Inr frame" by (auto simp: is_ok_iff rbind_Inr_iff)
  from concurrent_resend_loses_message[OF sample_session_received(1) b sample_session_received(3) this] show ?thesis by blast
qed

end
