(* ===== verification/Receiver_Order.thy ===== *)
theory Receiver_Order
  imports Receiver
begin

text \<open>
  The order in which a receiver handles messages. In a calm history, one connection at a time and restarts only between
  connections, the messages of one stream of a session are handled in the order of their sequence numbers.
\<close>

section \<open>The invariant\<close>

definition settled_rows :: "inbox \<Rightarrow> inbox_row list" where
  "settled_rows ix = filter (\<lambda>r. ir_status r \<noteq> IsStaged) (ix_rows ix)"

definition no_staged :: "inbox \<Rightarrow> bool" where
  "no_staged ix = (\<forall>r\<in>set (ix_rows ix). ir_status r \<noteq> IsStaged)"

definition staged_last :: "envelope \<Rightarrow> inbox \<Rightarrow> bool" where
  "staged_last e ix = (\<exists>rows r. ix_rows ix = rows @ [r] \<and> (\<forall>q\<in>set rows. ir_status q \<noteq> IsStaged) \<and> ir_status r = IsStaged \<and>
     ir_message_id r = message_id e \<and> ir_key r = env_key e \<and> ir_sequence r = env_sequence e \<and> sql_int (env_sequence e) = Inr ())"

definition rows_ordered :: "inbox \<Rightarrow> bool" where
  "rows_ordered ix = (sorted_wrt (\<lambda>q r. ir_order q < ir_order r) (ix_rows ix) \<and> (\<forall>r\<in>set (ix_rows ix). ir_order r < ix_next ix) \<and>
     sorted_wrt (\<lambda>q r. ir_key q = ir_key r \<longrightarrow> ir_sequence q < ir_sequence r) (settled_rows ix))"

definition below_last :: "inbox \<Rightarrow> replay_store \<Rightarrow> bool" where
  "below_last ix rs = (\<forall>r\<in>set (settled_rows ix). ir_sequence r \<le> rs_last rs (ir_key r))"

definition handled_behind :: "rc_label list \<Rightarrow> inbox \<Rightarrow> bool" where
  "handled_behind tr ix = (\<forall>e. RlHandle e \<in> set tr \<longrightarrow>
     (\<exists>r\<in>set (settled_rows ix). ir_message_id r = message_id e \<and> ir_key r = env_key e \<and> ir_sequence r = env_sequence e) \<and>
     (\<forall>r\<in>set (ix_rows ix). ir_active r \<and> ir_key r = env_key e \<longrightarrow> env_sequence e \<le> ir_sequence r))"

definition fresh_row :: "inbox \<Rightarrow> replay_store \<Rightarrow> envelope \<Rightarrow> bool" where
  "fresh_row ix rs e = (env_sequence e \<le> rs_last rs (env_key e) \<and>
     (\<forall>r\<in>set (settled_rows ix). ir_key r = env_key e \<longrightarrow> ir_sequence r < env_sequence e))"

definition thread_ok :: "inbox \<Rightarrow> replay_store \<Rightarrow> phase \<Rightarrow> bool" where
  "thread_ok ix rs p = (case p of
      PhReceived peer e \<Rightarrow> peer = source_id e \<and> no_staged ix
    | PhStaged peer e is_new \<Rightarrow> peer = source_id e \<and> (if is_new then staged_last e ix else no_staged ix)
    | PhAccepted e is_new r \<Rightarrow>
        (if is_new then staged_last e ix \<and> ((r = Inr () \<and> fresh_row ix rs e) \<or> r = Inl replay_error) else no_staged ix))"

definition threads_ok :: "inbox \<Rightarrow> replay_store \<Rightarrow> (nat \<Rightarrow> phase option) \<Rightarrow> bool" where
  "threads_ok ix rs ts = ((ts = Map.empty \<and> no_staged ix) \<or> (\<exists>t p. ts = [t \<mapsto> p] \<and> thread_ok ix rs p))"

definition calm_inv :: "rc_label list \<Rightarrow> inbox \<Rightarrow> replay_store \<Rightarrow> (nat \<Rightarrow> phase option) \<Rightarrow> bool" where
  "calm_inv tr ix rs ts = (rs_good rs \<and> rows_ordered ix \<and> below_last ix rs \<and> handled_behind tr ix \<and> threads_ok ix rs ts)"

section \<open>Changes of the rows\<close>

text \<open>A change that keeps what is staged and makes no row active.\<close>

definition keeps_rows :: "inbox \<Rightarrow> inbox \<Rightarrow> bool" where
  "keeps_rows ix ix' = (ix_next ix' = ix_next ix \<and> list_all2 (\<lambda>r r'. ir_order r' = ir_order r \<and> ir_message_id r' = ir_message_id r \<and>
     ir_key r' = ir_key r \<and> ir_sequence r' = ir_sequence r \<and> (ir_status r' = IsStaged \<longleftrightarrow> ir_status r = IsStaged) \<and>
     (ir_status r' = IsStaged \<longrightarrow> r' = r) \<and> (ir_active r' \<longrightarrow> ir_active r)) (ix_rows ix) (ix_rows ix'))"

lemma keeps_upd:
  assumes "ix_rows ix' = upd_where P f (ix_rows ix)" "ix_next ix' = ix_next ix"
    "\<And>r. r \<in> set (ix_rows ix) \<Longrightarrow> P r \<Longrightarrow> ir_order (f r) = ir_order r \<and> ir_message_id (f r) = ir_message_id r \<and>
      ir_key (f r) = ir_key r \<and> ir_sequence (f r) = ir_sequence r \<and> ir_status (f r) \<noteq> IsStaged \<and> ir_status r \<noteq> IsStaged \<and>
      (ir_active (f r) \<longrightarrow> ir_active r)"
  shows "keeps_rows ix ix'"
  using assms by (auto simp: keeps_rows_def upd_where_def list.rel_map intro!: list.rel_refl_strong)

lemma keeps_settled:
  assumes "keeps_rows ix ix'"
  shows "list_all2 (\<lambda>r r'. ir_message_id r' = ir_message_id r \<and> ir_key r' = ir_key r \<and> ir_sequence r' = ir_sequence r)
    (settled_rows ix) (settled_rows ix')"
proof -
  let ?R = "\<lambda>r r'. ir_message_id r' = ir_message_id r \<and> ir_key r' = ir_key r \<and> ir_sequence r' = ir_sequence r"
  have weak: "list_all2 (\<lambda>r r'. ?R r r' \<and> (ir_status r' = IsStaged \<longleftrightarrow> ir_status r = IsStaged)) (ix_rows ix) (ix_rows ix')"
    using assms unfolding keeps_rows_def by (elim conjE list_all2_mono) simp
  have "list_all2 ?R (filter (\<lambda>r. ir_status r \<noteq> IsStaged) xs) (filter (\<lambda>r. ir_status r \<noteq> IsStaged) ys)"
    if "list_all2 (\<lambda>r r'. ?R r r' \<and> (ir_status r' = IsStaged \<longleftrightarrow> ir_status r = IsStaged)) xs ys" for xs ys
    using that by (induction rule: list_all2_induct) simp_all
  from this[OF weak] show ?thesis by (simp add: settled_rows_def)
qed

lemma list_all2_member: "list_all2 R xs ys \<Longrightarrow> y \<in> set ys \<Longrightarrow> \<exists>x\<in>set xs. R x y"
  by (induction rule: list_all2_induct) auto

lemma list_all2_member': "list_all2 R xs ys \<Longrightarrow> x \<in> set xs \<Longrightarrow> \<exists>y\<in>set ys. R x y"
  by (induction rule: list_all2_induct) auto

lemma sorted_wrt_list_all2:
  assumes "sorted_wrt P xs" "list_all2 R xs ys" "\<And>x x' y y'. P x y \<Longrightarrow> R x x' \<Longrightarrow> R y y' \<Longrightarrow> Q x' y'"
  shows "sorted_wrt Q ys"
  using assms(2,1)
proof (induction rule: list_all2_induct)
  case (Cons x xs y ys)
  have "Q y z" if z: "z \<in> set ys" for z
  proof -
    obtain w where "w \<in> set xs" "R w z" using list_all2_member[OF Cons.hyps(2) z] by blast
    then show ?thesis using Cons.prems Cons.hyps(1) assms(3) by auto
  qed
  then show ?case using Cons by simp
qed simp

lemma keeps_ordered:
  assumes "keeps_rows ix ix'" "rows_ordered ix"
  shows "rows_ordered ix'"
proof -
  note all = assms(1)[unfolded keeps_rows_def, THEN conjunct2]
  have "sorted_wrt (\<lambda>q r. ir_order q < ir_order r) (ix_rows ix')"
    using assms(2) unfolding rows_ordered_def by (intro sorted_wrt_list_all2[OF _ all]) auto
  moreover have "\<forall>r\<in>set (ix_rows ix'). ir_order r < ix_next ix'"
    using assms list_all2_member[OF all] by (fastforce simp: rows_ordered_def keeps_rows_def)
  moreover have "sorted_wrt (\<lambda>q r. ir_key q = ir_key r \<longrightarrow> ir_sequence q < ir_sequence r) (settled_rows ix')"
    using assms(2) unfolding rows_ordered_def by (intro sorted_wrt_list_all2[OF _ keeps_settled[OF assms(1)]]) auto
  ultimately show ?thesis by (simp add: rows_ordered_def)
qed

lemma keeps_below: "keeps_rows ix ix' \<Longrightarrow> below_last ix rs \<Longrightarrow> below_last ix' rs"
  using list_all2_member[OF keeps_settled] by (fastforce simp: below_last_def)

lemma keeps_fresh: "keeps_rows ix ix' \<Longrightarrow> fresh_row ix rs e \<Longrightarrow> fresh_row ix' rs e"
  using list_all2_member[OF keeps_settled] by (fastforce simp: fresh_row_def)

lemma keeps_handled:
  assumes "keeps_rows ix ix'" "handled_behind tr ix"
  shows "handled_behind tr ix'"
  unfolding handled_behind_def
proof (intro allI impI conjI ballI)
  fix e assume e: "RlHandle e \<in> set tr"
  obtain r where "r \<in> set (settled_rows ix)" "ir_message_id r = message_id e" "ir_key r = env_key e" "ir_sequence r = env_sequence e"
    using assms(2) e by (auto simp: handled_behind_def)
  then show "\<exists>r\<in>set (settled_rows ix'). ir_message_id r = message_id e \<and> ir_key r = env_key e \<and> ir_sequence r = env_sequence e"
    using list_all2_member'[OF keeps_settled[OF assms(1)]] by fastforce
  fix r assume r: "r \<in> set (ix_rows ix')" "ir_active r \<and> ir_key r = env_key e"
  obtain q where "q \<in> set (ix_rows ix)" "ir_key r = ir_key q" "ir_sequence r = ir_sequence q" "ir_active r \<longrightarrow> ir_active q"
    using list_all2_member[OF assms(1)[unfolded keeps_rows_def, THEN conjunct2] r(1)] by auto
  then show "env_sequence e \<le> ir_sequence r" using assms(2) e r(2) by (auto simp: handled_behind_def)
qed

lemma keeps_no_staged: "keeps_rows ix ix' \<Longrightarrow> no_staged ix \<Longrightarrow> no_staged ix'"
  unfolding keeps_rows_def no_staged_def using list_all2_member by fastforce

lemma keeps_staged_last:
  assumes "keeps_rows ix ix'" "staged_last e ix"
  shows "staged_last e ix'"
proof -
  obtain rows r where old: "ix_rows ix = rows @ [r]" "\<forall>q\<in>set rows. ir_status q \<noteq> IsStaged" "ir_status r = IsStaged"
      "ir_message_id r = message_id e" "ir_key r = env_key e" "ir_sequence r = env_sequence e" "sql_int (env_sequence e) = Inr ()"
    using assms(2) by (auto simp: staged_last_def)
  let ?R = "\<lambda>r r'. ir_order r' = ir_order r \<and> ir_message_id r' = ir_message_id r \<and> ir_key r' = ir_key r \<and>
     ir_sequence r' = ir_sequence r \<and> (ir_status r' = IsStaged \<longleftrightarrow> ir_status r = IsStaged) \<and>
     (ir_status r' = IsStaged \<longrightarrow> r' = r) \<and> (ir_active r' \<longrightarrow> ir_active r)"
  have "list_all2 ?R (rows @ [r]) (ix_rows ix')" using assms(1) old(1) by (simp add: keeps_rows_def)
  then obtain rows' r' where new: "ix_rows ix' = rows' @ [r']" "list_all2 ?R rows rows'" "?R r r'"
    unfolding list_all2_append1 list_all2_Cons1 by auto
  have "\<forall>q\<in>set rows'. ir_status q \<noteq> IsStaged" using old(2) list_all2_member[OF new(2)] by blast
  then show ?thesis using new(1,3) old(3-7) unfolding staged_last_def by metis
qed

lemma keeps_thread: "keeps_rows ix ix' \<Longrightarrow> thread_ok ix rs p \<Longrightarrow> thread_ok ix' rs p"
  by (auto simp: thread_ok_def split: phase.splits if_splits intro: keeps_staged_last keeps_no_staged keeps_fresh)

lemma keeps_calm:
  assumes "keeps_rows ix ix'" "calm_inv tr ix rs ts"
  shows "calm_inv tr ix' rs ts"
proof -
  have "threads_ok ix' rs ts"
    using assms keeps_thread[OF assms(1)] keeps_no_staged[OF assms(1)] unfolding calm_inv_def threads_ok_def by blast
  then show ?thesis using assms keeps_ordered keeps_below keeps_handled by (auto simp: calm_inv_def)
qed

section \<open>The steps of a connection\<close>

lemma handled_behind_other: "(\<And>e. l \<noteq> RlHandle e) \<Longrightarrow> handled_behind (tr @ [l]) ix = handled_behind tr ix"
  by (auto simp: handled_behind_def)

lemma enqueue_sql: "ix_enqueue sha e now False ix = (ix', Inr True) \<Longrightarrow> sql_int (env_sequence e) = Inr ()"
  by (auto simp: ix_enqueue_def rbind_Inr_iff rbind_Inl_iff split: sum.splits option.splits if_splits)

lemma append_calm:
  assumes inv: "rows_ordered ix" "below_last ix rs" "handled_behind tr ix" "no_staged ix"
    and row: "staged_row e body r" "ir_order r = ix_next ix" "ix_rows ix' = ix_rows ix @ [r]" "ix_next ix' = Suc (ix_next ix)"
    and sql: "sql_int (env_sequence e) = Inr ()"
  shows "rows_ordered ix' \<and> below_last ix' rs \<and> handled_behind tr ix' \<and> staged_last e ix'"
proof -
  have same: "settled_rows ix' = settled_rows ix" using row(1,3) by (simp add: settled_rows_def staged_row_def)
  have "rows_ordered ix'" using inv(1) row same by (fastforce simp: rows_ordered_def sorted_wrt_append)
  moreover have "handled_behind tr ix'" using inv(3) row(1,3) same by (auto simp: handled_behind_def staged_row_def ir_active_def)
  moreover have "staged_last e ix'" using inv(4) row(1,3) sql by (auto simp: staged_last_def staged_row_def no_staged_def)
  ultimately show ?thesis using inv(2) same by (simp add: below_last_def)
qed

lemma rs_accept_error:
  assumes "rs_accept now k n rs = (rs', Inl err)" "sql_int n = Inr ()" "clock_ok now"
  shows "err = replay_error"
  using assms by (auto simp: rs_accept_def clock_ok_def sql_int_def require_def split: if_splits sum.splits)

lemma accept_calm:
  assumes acc: "rs_accept now (env_key e) (env_sequence e) rs = (rs', r)" and good: "rs_good rs" and inv: "below_last ix rs"
  shows "rs_good rs' \<and> below_last ix rs' \<and> (r = Inr () \<longrightarrow> fresh_row ix rs' e) \<and>
    (\<forall>err. r = Inl err \<longrightarrow> clock_ok now \<longrightarrow> sql_int (env_sequence e) = Inr () \<longrightarrow> err = replay_error)"
proof (cases r)
  case (Inl err)
  then show ?thesis using rs_accept_refused acc good inv rs_accept_error by blast
next
  case (Inr u)
  have new: "rs_last rs (env_key e) < env_sequence e" "rs_last rs' (env_key e) = env_sequence e" "rs_good rs'"
      "\<And>j. j \<noteq> env_key e \<Longrightarrow> rs_last rs' j = rs_last rs j"
    using rs_accept_last[OF good, of now "env_key e" "env_sequence e" rs'] acc Inr by auto
  then have "rs_last rs j \<le> rs_last rs' j" for j by (cases "j = env_key e") simp_all
  then have "below_last ix rs'" using inv unfolding below_last_def by (meson order_trans)
  moreover have "fresh_row ix rs' e" using inv new(1,2) by (fastforce simp: fresh_row_def below_last_def)
  ultimately show ?thesis using new(3) Inr by simp
qed

lemma activate_calm:
  assumes inv: "rows_ordered ix" "below_last ix rs" "handled_behind tr ix" "staged_last e ix" "fresh_row ix rs e"
  shows "rows_ordered (ix_activate (message_id e) now ix) \<and> below_last (ix_activate (message_id e) now ix) rs \<and>
    handled_behind tr (ix_activate (message_id e) now ix) \<and> no_staged (ix_activate (message_id e) now ix)"
proof -
  obtain rows r where old: "ix_rows ix = rows @ [r]" "\<forall>q\<in>set rows. ir_status q \<noteq> IsStaged" "ir_status r = IsStaged"
      "ir_message_id r = message_id e" "ir_key r = env_key e" "ir_sequence r = env_sequence e"
    using inv(4) by (auto simp: staged_last_def)
  let ?r = "r\<lparr>ir_status := IsReceived, ir_updated_at_ms := now\<rparr>" and ?ix = "ix_activate (message_id e) now ix"
  have rows: "ix_rows ?ix = rows @ [?r]" "ix_next ?ix = ix_next ix"
    using old(1,2,3,4) by (auto simp: ix_activate_def upd_where_def intro!: map_idI)
  have settled: "settled_rows ix = rows" "settled_rows ?ix = rows @ [?r]" using old(1-3) rows(1) by (simp_all add: settled_rows_def filter_id_conv)
  have r: "ir_key ?r = env_key e" "ir_sequence ?r = env_sequence e" using old(5,6) by (simp_all add: ir_key_def)
  have "rows_ordered ?ix" using inv(1,5) old(1) rows settled r by (fastforce simp: rows_ordered_def sorted_wrt_append fresh_row_def)
  moreover have "below_last ?ix rs" using inv(2,5) settled r by (simp add: below_last_def fresh_row_def)
  moreover have "handled_behind tr ?ix" unfolding handled_behind_def
  proof (intro allI impI conjI ballI)
    fix e' assume e': "RlHandle e' \<in> set tr"
    then obtain q where q: "q \<in> set rows" "ir_message_id q = message_id e'" "ir_key q = env_key e'" "ir_sequence q = env_sequence e'"
      using inv(3) settled(1) by (auto simp: handled_behind_def)
    then show "\<exists>q\<in>set (settled_rows ?ix). ir_message_id q = message_id e' \<and> ir_key q = env_key e' \<and> ir_sequence q = env_sequence e'"
      using settled(2) by auto
    fix x assume x: "x \<in> set (ix_rows ?ix)" "ir_active x \<and> ir_key x = env_key e'"
    show "env_sequence e' \<le> ir_sequence x"
    proof (cases "x = ?r")
      case True
      then have "ir_key q = env_key e" using x(2) r(1) q(3) by simp
      then show ?thesis using inv(5) q(1,4) settled(1) r(2) True by (fastforce simp: fresh_row_def)
    next
      case False
      then have "x \<in> set (ix_rows ix)" using x(1) rows(1) old(1) by simp
      then show ?thesis using inv(3) e' x(2) by (auto simp: handled_behind_def)
    qed
  qed
  moreover have "no_staged ?ix" using old(2) rows(1) by (simp add: no_staged_def)
  ultimately show ?thesis by blast
qed

lemma discard_calm:
  assumes inv: "rows_ordered ix" "below_last ix rs" "handled_behind tr ix" "staged_last e ix"
  shows "rows_ordered (ix_discard_staged (message_id e) ix) \<and> below_last (ix_discard_staged (message_id e) ix) rs \<and>
    handled_behind tr (ix_discard_staged (message_id e) ix) \<and> no_staged (ix_discard_staged (message_id e) ix)"
proof -
  obtain rows r where old: "ix_rows ix = rows @ [r]" "\<forall>q\<in>set rows. ir_status q \<noteq> IsStaged" "ir_status r = IsStaged"
      "ir_message_id r = message_id e"
    using inv(4) by (auto simp: staged_last_def)
  let ?ix = "ix_discard_staged (message_id e) ix"
  have rows: "ix_rows ?ix = rows" "ix_next ?ix = ix_next ix"
    using old by (auto simp: ix_discard_staged_def filter_id_conv)
  have settled: "settled_rows ix = rows" "settled_rows ?ix = rows" using old(1-3) rows(1) by (simp_all add: settled_rows_def filter_id_conv)
  have "rows_ordered ?ix" using inv(1) old(1) rows settled by (auto simp: rows_ordered_def sorted_wrt_append)
  moreover have "handled_behind tr ?ix" using inv(3) old(1) rows settled by (auto simp: handled_behind_def)
  ultimately show ?thesis using inv(2) settled old(2) rows(1) by (simp add: below_last_def no_staged_def)
qed

text \<open>Without staged rows an activation changes nothing.\<close>

lemma activate_nothing: "no_staged ix \<Longrightarrow> ix_activate mid now ix = ix"
  unfolding ix_activate_def no_staged_def by (subst upd_where_none) auto

section \<open>The steps of the workers\<close>

lemma settled_unique:
  assumes "rows_ordered ix" "r \<in> set (settled_rows ix)" "q \<in> set (settled_rows ix)" "ir_key q = ir_key r" "ir_sequence q = ir_sequence r"
  shows "q = r"
proof -
  have s: "sorted_wrt (\<lambda>q r. ir_key q = ir_key r \<longrightarrow> ir_sequence q < ir_sequence r) (settled_rows ix)" using assms(1) by (simp add: rows_ordered_def)
  obtain i j where ij: "i < length (settled_rows ix)" "settled_rows ix ! i = r" "j < length (settled_rows ix)" "settled_rows ix ! j = q"
    using assms(2,3) by (metis in_set_conv_nth)
  have "\<not> i < j" "\<not> j < i"
    using sorted_wrt_nth_less[OF s, of i j] sorted_wrt_nth_less[OF s, of j i] ij assms(4,5) by auto
  then show ?thesis using ij by (metis nat_neq_iff)
qed

lemma claim_calm:
  assumes inv: "rows_ordered ix" "handled_behind tr ix" and r: "r \<in> set (ix_rows ix)" "claimable (ix_rows ix) r"
    and e: "message_id e = ir_message_id r" "env_key e = ir_key r" "env_sequence e = ir_sequence r"
  shows "handled_behind (tr @ [RlHandle e]) ix \<and>
    (\<forall>e'. RlHandle e' \<in> set tr \<longrightarrow> env_key e' = env_key e \<longrightarrow>
       env_sequence e' \<le> env_sequence e \<and> (message_id e' \<noteq> message_id e \<longrightarrow> env_sequence e' < env_sequence e))"
proof
  have st: "ir_status r = IsReceived" "ir_active r" using r(2) by (simp_all add: claimable_def ir_active_def)
  have rs: "r \<in> set (settled_rows ix)" using r(1) st(1) by (simp add: settled_rows_def)
  have later: "env_sequence e \<le> ir_sequence q" if q: "q \<in> set (ix_rows ix)" "ir_active q" "ir_key q = env_key e" for q
  proof -
    have qs: "q \<in> set (settled_rows ix)" using q(1,2) by (auto simp: settled_rows_def ir_active_def)
    have "\<not> ir_order q < ir_order r" using r(2) q e(2) by (auto simp: claimable_def)
    have s: "sorted_wrt (\<lambda>q r. ir_order q < ir_order r) (ix_rows ix)" using inv(1) by (simp add: rows_ordered_def)
    have both: "sorted_wrt (\<lambda>q r. ir_order q < ir_order r \<and> (ir_key q = ir_key r \<longrightarrow> ir_sequence q < ir_sequence r)) (settled_rows ix)"
      using inv(1) sorted_wrt_filter[OF s, of "\<lambda>r. ir_status r \<noteq> IsStaged"]
      by (simp add: rows_ordered_def settled_rows_def sorted_wrt_iff_nth_less)
    obtain i j where ij: "i < length (settled_rows ix)" "settled_rows ix ! i = r" "j < length (settled_rows ix)" "settled_rows ix ! j = q"
      using rs qs by (metis in_set_conv_nth)
    have "\<not> j < i" using sorted_wrt_nth_less[OF both, of j i] ij \<open>\<not> ir_order q < ir_order r\<close> by auto
    then show ?thesis using sorted_wrt_nth_less[OF both, of i j] ij e q(3) by (cases "i = j") auto
  qed
  show "handled_behind (tr @ [RlHandle e]) ix"
    using inv(2) later rs e by (auto simp: handled_behind_def)
  show "\<forall>e'. RlHandle e' \<in> set tr \<longrightarrow> env_key e' = env_key e \<longrightarrow>
       env_sequence e' \<le> env_sequence e \<and> (message_id e' \<noteq> message_id e \<longrightarrow> env_sequence e' < env_sequence e)"
  proof (intro allI impI)
    fix e' assume e': "RlHandle e' \<in> set tr" "env_key e' = env_key e"
    have le: "env_sequence e' \<le> env_sequence e" using inv(2) e' r(1) st(2) e(2,3) by (auto simp: handled_behind_def)
    obtain q where q: "q \<in> set (settled_rows ix)" "ir_message_id q = message_id e'" "ir_key q = env_key e'" "ir_sequence q = env_sequence e'"
      using inv(2) e'(1) by (auto simp: handled_behind_def)
    have "message_id e' = message_id e" if "env_sequence e' = env_sequence e"
      using settled_unique[OF inv(1) rs q(1)] q e e'(2) that by simp
    then show "env_sequence e' \<le> env_sequence e \<and> (message_id e' \<noteq> message_id e \<longrightarrow> env_sequence e' < env_sequence e)"
      using le by force
  qed
qed

section \<open>Every calm history\<close>

definition calm_receiver :: "rc_label list \<Rightarrow> receiver \<Rightarrow> bool" where
  "calm_receiver tr s = (\<exists>ix rs. sv_inbox (rc_server s) = Some ix \<and> sv_replay (rc_server s) = SqliteReplay rs \<and>
     calm_inv tr ix rs (rc_threads s))"

lemma calm_threadD:
  assumes "threads_ok ix rs ts" "ts t = Some p"
  shows "ts = [t \<mapsto> p]" "thread_ok ix rs p" "ts(t := q) = (case q of None \<Rightarrow> Map.empty | Some x \<Rightarrow> [t \<mapsto> x])"
  using assms by (auto simp: threads_ok_def fun_upd_def split: if_splits option.splits)

lemma threads_ok_none [simp]: "threads_ok ix rs Map.empty = no_staged ix"
  unfolding threads_ok_def by (metis map_upd_nonempty)

lemma threads_ok_one [simp]: "threads_ok ix rs [t \<mapsto> p] = thread_ok ix rs p"
proof -
  have "p = q" if "[t \<mapsto> p] = [u \<mapsto> q]" for u q using that by (metis fun_upd_apply option.inject option.distinct(1))
  then show ?thesis unfolding threads_ok_def by (metis map_upd_nonempty)
qed

lemma calm_stage:
  assumes inv: "calm_inv tr ix rs ts" and t: "ts t = Some (PhReceived peer e)" and sv: "sv_inbox sv = Some ix"
    and run: "stage sha now e sv = (sv', r)"
  shows "\<exists>ix'. sv_inbox sv' = Some ix' \<and> sv_replay sv' = sv_replay sv \<and>
    (\<forall>b. r = Inr b \<longrightarrow> calm_inv tr ix' rs (ts(t \<mapsto> PhStaged peer e b))) \<and> (\<forall>err. r = Inl err \<longrightarrow> calm_inv tr ix' rs (ts(t := None)))"
proof -
  have ok: "peer = source_id e" "no_staged ix" using calm_threadD(2)[of ix rs ts t] inv t by (auto simp: calm_inv_def thread_ok_def)
  have upd: "ts(t := q) = (case q of None \<Rightarrow> Map.empty | Some x \<Rightarrow> [t \<mapsto> x])" for q
    using calm_threadD(3)[of ix rs ts t] inv t by (auto simp: calm_inv_def)
  have parts: "rows_ordered ix" "below_last ix rs" "handled_behind tr ix" using inv by (simp_all add: calm_inv_def)
  obtain ix' where ix': "ix_enqueue sha e now False ix = (ix', r)" "sv' = sv\<lparr>sv_inbox := Some ix'\<rparr>"
    using run sv by (auto simp: stage_def split: prod.splits)
  show ?thesis
  proof (cases "r = Inr True")
    case True
    then obtain body row where row: "staged_row e body row" "ir_order row = ix_next ix" "ix_rows ix' = ix_rows ix @ [row]" "ix_next ix' = Suc (ix_next ix)"
      using ix_enqueue_staged[OF ix'(1)] by blast
    have "rows_ordered ix' \<and> below_last ix' rs \<and> handled_behind tr ix' \<and> staged_last e ix'"
      using append_calm[OF parts(1-3) ok(2) row enqueue_sql[OF ix'(1)[unfolded True]]] .
    then show ?thesis using ix'(2) True inv ok(1) by (auto simp: calm_inv_def upd thread_ok_def)
  next
    case False
    then have "ix' = ix" using ix_enqueue_staged[OF ix'(1)] by blast
    then show ?thesis using ix'(2) False inv ok by (auto simp: calm_inv_def upd thread_ok_def)
  qed
qed

lemma calm_accept:
  assumes inv: "calm_inv tr ix rs ts" and t: "ts t = Some (PhStaged peer e new)" and now: "clock_ok now"
    and sv: "sv_inbox sv = Some ix" "sv_replay sv = SqliteReplay rs" and run: "accept_sequence now peer e sv = (sv', r)"
  shows "\<exists>rs'. sv_inbox sv' = Some ix \<and> sv_replay sv' = SqliteReplay rs' \<and> calm_inv tr ix rs' (ts(t \<mapsto> PhAccepted e new r))"
proof -
  have ok: "peer = source_id e" "if new then staged_last e ix else no_staged ix"
    using calm_threadD(2)[of ix rs ts t] inv t by (auto simp: calm_inv_def thread_ok_def)
  have upd: "ts(t \<mapsto> q) = [t \<mapsto> q]" for q using calm_threadD(3)[of ix rs ts t _ "Some q"] inv t by (auto simp: calm_inv_def)
  obtain rs' where rs': "rs_accept now (env_key e) (env_sequence e) rs = (rs', r)" "sv' = sv\<lparr>sv_replay := SqliteReplay rs'\<rparr>"
    using run sv(2) ok(1) by (auto simp: accept_sequence_def replay_accept_def env_key_def split: prod.splits)
  have acc: "rs_good rs' \<and> below_last ix rs' \<and> (r = Inr () \<longrightarrow> fresh_row ix rs' e) \<and>
      (\<forall>err. r = Inl err \<longrightarrow> clock_ok now \<longrightarrow> sql_int (env_sequence e) = Inr () \<longrightarrow> err = replay_error)"
    using inv unfolding calm_inv_def by (intro accept_calm[OF rs'(1)]) blast+
  have "thread_ok ix rs' (PhAccepted e new r)"
    using ok(2) acc now by (cases r) (auto simp: thread_ok_def staged_last_def)
  then show ?thesis using acc inv sv rs'(2) by (auto simp: calm_inv_def upd)
qed

lemma calm_settle:
  assumes inv: "calm_inv tr ix rs ts" and t: "ts t = Some (PhAccepted e new r)" and sv: "sv_inbox sv = Some ix"
    and run: "settle sha h write now e new r (sv, l) = ((sv', l'), out, r')"
  shows "\<exists>ix'. sv_inbox sv' = Some ix' \<and> sv_replay sv' = sv_replay sv \<and> calm_inv tr ix' rs (ts(t := None))"
proof -
  have ok: "thread_ok ix rs (PhAccepted e new r)" using calm_threadD(2)[of ix rs ts t] inv t by (auto simp: calm_inv_def)
  have upd: "ts(t := None) = Map.empty" using calm_threadD(3)[of ix rs ts t _ None] inv t by (auto simp: calm_inv_def)
  note change = settle_change[OF run sv]
  have inv': "rows_ordered ix" "below_last ix rs" "handled_behind tr ix" "rs_good rs" using inv by (simp_all add: calm_inv_def)
  show ?thesis
  proof (cases new)
    case True
    then have st: "staged_last e ix" and r: "(r = Inr () \<and> fresh_row ix rs e) \<or> r = Inl replay_error" using ok by (auto simp: thread_ok_def)
    from r show ?thesis
    proof
      assume "r = Inr () \<and> fresh_row ix rs e"
      then show ?thesis using activate_calm[OF inv'(1-3) st, of now] change inv'(4) by (auto simp: calm_inv_def upd)
    next
      assume "r = Inl replay_error"
      then show ?thesis using discard_calm[OF inv'(1-3) st] change inv'(4) True
        by (auto simp: calm_inv_def upd is_replay_error_def replay_error_def)
    qed
  next
    case False
    then have "no_staged ix" using ok by (simp add: thread_ok_def)
    then have "sv_inbox sv' = Some ix" using change activate_nothing False by (auto split: sum.splits if_splits)
    then show ?thesis using change inv' \<open>no_staged ix\<close> by (auto simp: calm_inv_def upd)
  qed
qed

definition in_order_after :: "rc_label list \<Rightarrow> rc_label \<Rightarrow> bool" where
  "in_order_after tr l = (\<forall>e e'. l = RlHandle e \<longrightarrow> RlHandle e' \<in> set tr \<longrightarrow> env_key e' = env_key e \<longrightarrow>
     env_sequence e' \<le> env_sequence e \<and> (message_id e' \<noteq> message_id e \<longrightarrow> env_sequence e' < env_sequence e))"

lemma calm_step:
  assumes inv: "calm_receiver tr s" and full: "receiver_inv sha revoked tr s" and step: "rstep sha revoked write True s l s'"
  shows "calm_receiver (tr @ [l]) s' \<and> in_order_after tr l"
proof -
  obtain ix rs where sv: "sv_inbox (rc_server s) = Some ix" "sv_replay (rc_server s) = SqliteReplay rs" and calm: "calm_inv tr ix rs (rc_threads s)"
    using inv by (auto simp: calm_receiver_def)
  have other: "calm_inv (tr @ [l]) ix0 rs0 ts0 = calm_inv tr ix0 rs0 ts0" if "\<And>e. l \<noteq> RlHandle e" for ix0 rs0 ts0
    using that by (simp add: calm_inv_def handled_behind_other)
  have quiet: "in_order_after tr l" if "\<And>e. l \<noteq> RlHandle e" using that by (simp add: in_order_after_def)
  from step show ?thesis
  proof cases
    case (connect t c peer e)
    have "peer = source_id e" using received_valid[OF connect(5)] by simp
    then have "calm_inv tr ix rs [t \<mapsto> PhReceived peer e]"
      using calm connect(4) by (auto simp: calm_inv_def thread_ok_def)
    then show ?thesis using sv connect quiet other by (auto simp: calm_receiver_def)
  next
    case (refuse c err)
    then show ?thesis using sv calm quiet other by (auto simp: calm_receiver_def)
  next
    case (staged t peer e now sv' is_new)
    then show ?thesis using calm_stage[OF calm staged(3) sv(1) staged(5)] sv(2) quiet other by (auto simp: calm_receiver_def)
  next
    case (unstaged t peer e now sv' err)
    then show ?thesis using calm_stage[OF calm unstaged(3) sv(1) unstaged(5)] sv(2) quiet other by (auto simp: calm_receiver_def)
  next
    case (sequenced t peer e is_new now sv' r)
    then show ?thesis using calm_accept[OF calm sequenced(3,4) sv sequenced(5)] quiet other by (auto simp: calm_receiver_def)
  next
    case (settled t e is_new r now sv' l0 out r')
    then show ?thesis using calm_settle[OF calm settled(3) sv(1) settled(5)] sv(2) quiet other by (auto simp: calm_receiver_def)
  next
    case (claimed ix0 now ix' e)
    have ix0: "ix0 = ix" using claimed(3) sv(1) by simp
    obtain r where r: "r \<in> set (ix_rows ix)" "claimable (ix_rows ix) r" "decode_envelope (ir_envelope r) = Inr e" "ix_next ix' = ix_next ix"
        "ix_rows ix' = upd_where (\<lambda>q. ir_message_id q = ir_message_id r) (\<lambda>q. q\<lparr>ir_status := IsProcessing, ir_updated_at_ms := now\<rparr>) (ix_rows ix)"
      using ix_claim_Some[OF claimed(5)] ix0 by blast
    have auth: "row_authentic (authentic sha revoked tr) r" and d: "distinct (map ir_message_id (ix_rows ix))"
      using full sv(1) r(1) by (auto simp: receiver_inv_def inbox_inv_def)
    have e: "message_id e = ir_message_id r" "env_key e = ir_key r" "env_sequence e = ir_sequence r"
      using auth r(3) by (auto simp: row_authentic_def)
    have calm': "handled_behind (tr @ [l]) ix \<and> in_order_after tr l"
      using claim_calm[OF _ _ r(1,2) e] calm claimed(1) by (auto simp: calm_inv_def in_order_after_def)
    have st: "ir_status r = IsReceived" using r(2) by (simp add: claimable_def)
    have only: "ir_status q = IsReceived" if "q \<in> set (ix_rows ix)" "ir_message_id q = ir_message_id r" for q
      using unique_row[OF d r(1) that] st by simp
    have "keeps_rows ix ix'"
      by (rule keeps_upd[OF r(5,4)]) (use only in \<open>auto simp: ir_key_def ir_active_def\<close>)
    then have "calm_inv (tr @ [l]) ix' rs (rc_threads s)" using keeps_calm calm calm' by (auto simp: calm_inv_def)
    then show ?thesis using sv(2) claimed(2) calm' by (auto simp: calm_receiver_def set_inbox_def)
  next
    case (finished ix0 now e err)
    have ix0: "ix0 = ix" using finished(3) sv(1) by simp
    obtain q where q: "q \<in> set (ix_rows ix)" "ir_message_id q = message_id e" "ir_status q \<noteq> IsStaged"
    proof -
      have "message_id e \<in> held_ids tr" using full finished(5) by (auto simp: receiver_inv_def)
      then show ?thesis using full sv(1) that by (fastforce simp: receiver_inv_def inbox_inv_def taken_def)
    qed
    have d: "distinct (map ir_message_id (ix_rows ix))" using full sv(1) by (auto simp: receiver_inv_def inbox_inv_def)
    have only: "ir_status x \<noteq> IsStaged" if "x \<in> set (ix_rows ix)" "ir_message_id x = message_id e" for x
      using unique_row[OF d q(1), of x] that q by simp
    have rows: "ix_rows (ix_finish (message_id e) err now ix) = upd_where (\<lambda>r. ir_message_id r = message_id e)
        (\<lambda>r. r\<lparr>ir_status := (if err = None then IsProcessed else IsFailed), ir_error := map_option (take_chars 1024) err,
             ir_updated_at_ms := now\<rparr>) (ix_rows ix)" by (simp add: ix_finish_def)
    have "keeps_rows ix (ix_finish (message_id e) err now ix)"
      by (rule keeps_upd[OF rows]) (use only in \<open>auto simp: ix_finish_def ir_key_def ir_active_def\<close>)
    then show ?thesis using keeps_calm calm sv(2) finished(1,2) ix0 quiet other by (auto simp: calm_receiver_def set_inbox_def)
  next
    case (restarted ix0 workers ix')
    have ix0: "ix0 = ix" using restarted(4) sv(1) by simp
    have rows: "ix_rows ix' = upd_where (\<lambda>r. ir_status r = IsProcessing) (\<lambda>r. r\<lparr>ir_status := IsReceived\<rparr>) (ix_rows ix)" "ix_next ix' = ix_next ix"
      using restarted(5) ix0 by (auto simp: inbox_open_def rbind_Inr_iff)
    have "keeps_rows ix ix'" by (rule keeps_upd[OF rows]) (auto simp: ir_key_def ir_active_def)
    then show ?thesis using keeps_calm calm sv(2) restarted(1-3) quiet other by (auto simp: calm_receiver_def set_inbox_def)
  qed
qed

lemma calm_run: "rrun sha revoked write True tr s \<Longrightarrow> calm_receiver tr s"
proof (induction rule: rrun.induct)
  case start
  show ?case
    by (simp add: calm_receiver_def rc_start_def calm_inv_def rs_good_def rows_ordered_def settled_rows_def inbox_empty_def
        below_last_def handled_behind_def no_staged_def)
next
  case (step tr s l s')
  then show ?case using calm_step[OF step.IH rrun_inv[OF step.hyps(1)] step.hyps(2)] by blast
qed

text \<open>C28: Order. As long as connections come one after the other and the process stops and starts again only while none is
  open, the workers get the messages of one stream of a session in the order of their sequence numbers, over any
  number of such restarts: a message handed out later has a larger number, or is the same message again. The workers
  run freely, also while a connection is open.\<close>

theorem handled_in_order:
  assumes "rrun sha revoked write True (xs @ RlHandle e # ys) s" and "RlHandle e' \<in> set xs"
    and "env_key e' = env_key e" and "message_id e' \<noteq> message_id e"
  shows "env_sequence e' < env_sequence e"
proof -
  obtain s2 where "rrun sha revoked write True (xs @ [RlHandle e]) s2" using rrun_prefix[OF assms(1), of "xs @ [RlHandle e]" ys] by auto
  then obtain s1 where s1: "rrun sha revoked write True xs s1" "rstep sha revoked write True s1 (RlHandle e) s2"
    by (auto elim: rrun.cases)
  show ?thesis using calm_step[OF calm_run[OF s1(1)] rrun_inv[OF s1(1)] s1(2)] assms(2-4) by (auto simp: in_order_after_def)
qed

section \<open>An execution\<close>

text \<open>One connection from beginning to end and the claim of one message, computed.\<close>

definition serve_once :: "tls_session \<Rightarrow> receiver \<Rightarrow> (envelope \<times> string list \<times> receiver) option" where
  "serve_once c s =
     (case receive_envelope (\<lambda>s. s) (\<lambda>_. False) c of Inl _ \<Rightarrow> None | Inr (peer, e) \<Rightarrow>
      (case stage (\<lambda>s. s) 0 e (rc_server s) of (sv1, Inl _) \<Rightarrow> None | (sv1, Inr new) \<Rightarrow>
       (case accept_sequence 0 peer e sv1 of (sv2, r) \<Rightarrow>
        (case settle (\<lambda>s. s) (\<lambda>_ l. (l, Inr ())) (\<lambda>_. Inr ()) 0 e new r (sv2, ()) of ((sv3, _), out, r') \<Rightarrow>
         (let sv4 = close_connection r' sv3 in
          case sv_inbox sv4 of None \<Rightarrow> None | Some ix \<Rightarrow>
           (case ix_claim 0 ix of (ix', Inr (Some e')) \<Rightarrow>
               Some (e', out, (set_inbox ix' (s\<lparr>rc_server := sv4\<rparr>))\<lparr>rc_working := e' # rc_working s\<rparr>) | _ \<Rightarrow> None))))))"

lemma serve_once_run:
  assumes run: "rrun (\<lambda>s. s) (\<lambda>_. False) (\<lambda>_. Inr ()) calm tr s" and idle: "rc_threads s = Map.empty"
    and serve: "serve_once c s = Some (e', out, s')"
  shows "rrun (\<lambda>s. s) (\<lambda>_. False) (\<lambda>_. Inr ()) calm (tr @ [RlConnect c, RlQuiet, RlQuiet, RlAck out] @ RlHandle e' # []) s' \<and>
    rc_threads s' = Map.empty"
proof -
  let ?R = "rrun (\<lambda>s. s) (\<lambda>_. False) (\<lambda>_. Inr ()) calm"
  obtain peer e sv1 new sv2 r sv3 l r' ix ix' where
    c: "receive_envelope (\<lambda>s. s) (\<lambda>_. False) c = Inr (peer, e)" and st: "stage (\<lambda>s. s) 0 e (rc_server s) = (sv1, Inr new)"
    and acc: "accept_sequence 0 peer e sv1 = (sv2, r)"
    and set: "settle (\<lambda>s. s) (\<lambda>_ l. (l, Inr ())) (\<lambda>_. Inr ()) 0 e new r (sv2, ()) = ((sv3, l), out, r')"
    and ix: "sv_inbox (close_connection r' sv3) = Some ix" and cl: "ix_claim 0 ix = (ix', Inr (Some e'))"
    and s': "s' = (set_inbox ix' (s\<lparr>rc_server := close_connection r' sv3\<rparr>))\<lparr>rc_working := e' # rc_working s\<rparr>"
    using serve unfolding serve_once_def Let_def
    by (auto split: sum.splits prod.splits option.splits)
  have same: "s\<lparr>rc_server := sv, rc_threads := \<lambda>x. None\<rparr> = s\<lparr>rc_server := sv\<rparr>" for sv using idle by (cases s) simp
  have "?R (tr @ [RlConnect c]) (thread 0 (Some (PhReceived peer e)) s)"
    by (rule rrun.step[OF run rstep.connect[OF _ _ c]]) (simp_all add: idle)
  then have r1: "?R (tr @ [RlConnect c]) (s\<lparr>rc_threads := [0 \<mapsto> PhReceived peer e]\<rparr>)" by (simp add: thread_def idle)
  have r2: "?R ((tr @ [RlConnect c]) @ [RlQuiet]) (s\<lparr>rc_server := sv1, rc_threads := [0 \<mapsto> PhStaged peer e new]\<rparr>)"
    using rrun.step[OF r1 rstep.staged[of _ 0 peer e 0 _ sv1 new]] st by (simp add: thread_def)
  have r3: "?R (((tr @ [RlConnect c]) @ [RlQuiet]) @ [RlQuiet]) (s\<lparr>rc_server := sv2, rc_threads := [0 \<mapsto> PhAccepted e new r]\<rparr>)"
    using rrun.step[OF r2 rstep.sequenced[of _ 0 peer e new 0 sv2 r]] acc by (simp add: thread_def)
  have r4: "?R ((((tr @ [RlConnect c]) @ [RlQuiet]) @ [RlQuiet]) @ [RlAck out]) (s\<lparr>rc_server := close_connection r' sv3\<rparr>)"
    using rrun.step[OF r3 rstep.settled[of _ 0 e new r 0 _ _ sv3 l out r']] set same by (simp add: thread_def)
  have "?R (((((tr @ [RlConnect c]) @ [RlQuiet]) @ [RlQuiet]) @ [RlAck out]) @ [RlHandle e']) s'"
    using rrun.step[OF r4 rstep.claimed[of _ ix 0 ix' e']] ix cl by (simp add: s')
  then show ?thesis using idle by (simp add: s' set_inbox_def)
qed

definition second_session :: tls_session where
  "second_session = sample_session\<lparr>ts_answer := (\<lambda>_. case rbind (encode_envelope (sample_message\<lparr>message_id := ''m2'', env_sequence := 2\<rparr>)) send_frame of
     Inl _ \<Rightarrow> [] | Inr f \<Rightarrow> [f])\<rparr>"

definition two_served :: "(envelope \<times> string list \<times> envelope \<times> string list \<times> receiver) option" where
  "two_served = (case serve_once sample_session rc_start of None \<Rightarrow> None | Some (e1, o1, s1) \<Rightarrow>
     (case serve_once second_session (s1\<lparr>rc_server := (rc_server s1)\<lparr>sv_inbox := map_option (ix_finish (message_id e1) None 0) (sv_inbox (rc_server s1))\<rparr>,
         rc_working := remove1 e1 (rc_working s1)\<rparr>) of
        None \<Rightarrow> None | Some (e2, o2, s2) \<Rightarrow> Some (e1, o1, e2, o2, s2)))"

lemma two_served_ok: "case two_served of None \<Rightarrow> False | Some (e1, o1, e2, o2, s2) \<Rightarrow> env_key e1 = env_key e2 \<and> message_id e1 \<noteq> message_id e2"
  by code_simp

theorem handled_in_order_witness:
  "\<exists>xs e1 e2 s. rrun (\<lambda>s. s) (\<lambda>_. False) (\<lambda>_. Inr ()) True (xs @ RlHandle e2 # []) s \<and> RlHandle e1 \<in> set xs \<and> env_key e1 = env_key e2 \<and>
     message_id e1 \<noteq> message_id e2 \<and> env_sequence e1 < env_sequence e2"
proof -
  obtain e1 o1 e2 o2 s2 where two: "two_served = Some (e1, o1, e2, o2, s2)" "env_key e1 = env_key e2" "message_id e1 \<noteq> message_id e2"
    using two_served_ok by (auto split: option.splits)
  then obtain s1 where s1: "serve_once sample_session rc_start = Some (e1, o1, s1)"
      "serve_once second_session (s1\<lparr>rc_server := (rc_server s1)\<lparr>sv_inbox := map_option (ix_finish (message_id e1) None 0) (sv_inbox (rc_server s1))\<rparr>,
         rc_working := remove1 e1 (rc_working s1)\<rparr>) = Some (e2, o2, s2)"
    by (auto simp: two_served_def split: option.splits)
  let ?R = "rrun (\<lambda>s. s) (\<lambda>_. False) (\<lambda>_. Inr ()) True"
  let ?xs = "[RlConnect sample_session, RlQuiet, RlQuiet, RlAck o1] @ RlHandle e1 # []"
  have r1: "?R ?xs s1" "rc_threads s1 = Map.empty"
    using serve_once_run[OF rrun.start _ s1(1), of True] by (simp_all add: rc_start_def)
  obtain ix where ix: "sv_inbox (rc_server s1) = Some ix" using rrun_inv[OF r1(1)] by (auto simp: receiver_inv_def)
  have w: "e1 \<in> set (rc_working s1)" using s1(1) unfolding serve_once_def Let_def by (auto split: sum.splits prod.splits option.splits)
  have r2: "?R (?xs @ [RlFinish (message_id e1)]) (s1\<lparr>rc_server := (rc_server s1)\<lparr>sv_inbox := map_option (ix_finish (message_id e1) None 0) (sv_inbox (rc_server s1))\<rparr>,
      rc_working := remove1 e1 (rc_working s1)\<rparr>)"
    using rrun.step[OF r1(1) rstep.finished[OF ix clock_zero w, of _ _ _ _ None]] ix by (simp add: set_inbox_def)
  let ?ys = "(?xs @ [RlFinish (message_id e1)]) @ [RlConnect second_session, RlQuiet, RlQuiet, RlAck o2]"
  have r3: "?R (?ys @ RlHandle e2 # []) s2" using serve_once_run[OF r2 _ s1(2)] r1(2) by simp
  have "env_sequence e1 < env_sequence e2" by (rule handled_in_order[OF r3 _ two(2,3)]) simp
  then show ?thesis using r3 two(2,3) by (intro exI[of _ ?ys] exI[of _ e1] exI[of _ e2] exI[of _ s2]) simp
qed

section \<open>A crash can reverse the order\<close>

text \<open>A connection that is staged when the process stops, and the start of the process, computed.\<close>

definition stage_and_stop :: "tls_session \<Rightarrow> receiver \<Rightarrow> receiver option" where
  "stage_and_stop c s =
     (case receive_envelope (\<lambda>s. s) (\<lambda>_. False) c of Inl _ \<Rightarrow> None | Inr (peer, e) \<Rightarrow>
      (case stage (\<lambda>s. s) 0 e (rc_server s) of (sv1, Inl _) \<Rightarrow> None | (sv1, Inr new) \<Rightarrow>
       (case sv_inbox sv1 of None \<Rightarrow> None | Some ix \<Rightarrow>
        (case inbox_open 4 ix of Inl _ \<Rightarrow> None
         | Inr ix' \<Rightarrow> Some ((set_inbox ix' (s\<lparr>rc_server := sv1\<rparr>))\<lparr>rc_threads := Map.empty, rc_working := []\<rparr>)))))"

lemma stage_and_stop_run:
  assumes run: "rrun (\<lambda>s. s) (\<lambda>_. False) (\<lambda>_. Inr ()) False tr s" and idle: "rc_threads s = Map.empty"
    and stop: "stage_and_stop c s = Some s'"
  shows "rrun (\<lambda>s. s) (\<lambda>_. False) (\<lambda>_. Inr ()) False (tr @ [RlConnect c, RlQuiet, RlRestart]) s' \<and> rc_threads s' = Map.empty"
proof -
  let ?R = "rrun (\<lambda>s. s) (\<lambda>_. False) (\<lambda>_. Inr ()) False"
  obtain peer e sv1 new ix ix' where
    c: "receive_envelope (\<lambda>s. s) (\<lambda>_. False) c = Inr (peer, e)" and st: "stage (\<lambda>s. s) 0 e (rc_server s) = (sv1, Inr new)"
    and ix: "sv_inbox sv1 = Some ix" "inbox_open 4 ix = Inr ix'"
    and s': "s' = (set_inbox ix' (s\<lparr>rc_server := sv1\<rparr>))\<lparr>rc_threads := Map.empty, rc_working := []\<rparr>"
    using stop unfolding stage_and_stop_def by (auto split: sum.splits prod.splits option.splits)
  have "?R (tr @ [RlConnect c]) (thread 0 (Some (PhReceived peer e)) s)"
    by (rule rrun.step[OF run rstep.connect[OF _ _ c]]) (simp_all add: idle)
  then have r1: "?R (tr @ [RlConnect c]) (s\<lparr>rc_threads := [0 \<mapsto> PhReceived peer e]\<rparr>)" by (simp add: thread_def idle)
  have r2: "?R ((tr @ [RlConnect c]) @ [RlQuiet]) (s\<lparr>rc_server := sv1, rc_threads := [0 \<mapsto> PhStaged peer e new]\<rparr>)"
    using rrun.step[OF r1 rstep.staged[of _ 0 peer e 0 _ sv1 new]] st by (simp add: thread_def)
  have "?R (((tr @ [RlConnect c]) @ [RlQuiet]) @ [RlRestart]) s'"
    using rrun.step[OF r2 rstep.restarted[of False _ ix 4 ix']] ix by (simp add: s' set_inbox_def)
  then show ?thesis by (simp add: s' set_inbox_def)
qed

definition reordered :: "(envelope \<times> string list \<times> envelope \<times> string list \<times> receiver) option" where
  "reordered = (case stage_and_stop sample_session rc_start of None \<Rightarrow> None | Some s1 \<Rightarrow>
     (case serve_once second_session s1 of None \<Rightarrow> None | Some (e2, o2, s2) \<Rightarrow>
      (case serve_once sample_session s2 of None \<Rightarrow> None | Some (e1, o1, s3) \<Rightarrow> Some (e2, o2, e1, o1, s3))))"

lemma reordered_ok: "case reordered of None \<Rightarrow> False | Some (e2, o2, e1, o1, s3) \<Rightarrow>
    env_key e1 = env_key e2 \<and> message_id e1 \<noteq> message_id e2 \<and> env_sequence e1 < env_sequence e2 \<and> o1 \<noteq> [] \<and> o2 \<noteq> []"
  by code_simp

text \<open>C29: A crash can reverse the order of a stream. The first message is staged when the process stops before its sequence
  number was accepted. After the restart the second message of the same stream is received, acknowledged and handed to
  a worker. When the sender then resends the first one, its sequence number is refused, but because the inbox contains
  the very message it is activated and acknowledged, and a worker gets it after the second. No two connections are
  open at the same time.\<close>

theorem crash_reverses_order:
  "\<exists>e1 o1 e2 o2 s. rrun (\<lambda>s. s) (\<lambda>_. False) (\<lambda>_. Inr ()) False
      [RlConnect sample_session, RlQuiet, RlRestart,
       RlConnect second_session, RlQuiet, RlQuiet, RlAck o2, RlHandle e2,
       RlConnect sample_session, RlQuiet, RlQuiet, RlAck o1, RlHandle e1] s \<and>
    env_key e1 = env_key e2 \<and> message_id e1 \<noteq> message_id e2 \<and> env_sequence e1 < env_sequence e2 \<and> o1 \<noteq> [] \<and> o2 \<noteq> []"
proof -
  obtain e2 o2 e1 o1 s3 where r: "reordered = Some (e2, o2, e1, o1, s3)"
      "env_key e1 = env_key e2" "message_id e1 \<noteq> message_id e2" "env_sequence e1 < env_sequence e2" "o1 \<noteq> []" "o2 \<noteq> []"
    using reordered_ok by (auto split: option.splits)
  then obtain s1 s2 where s: "stage_and_stop sample_session rc_start = Some s1" "serve_once second_session s1 = Some (e2, o2, s2)"
      "serve_once sample_session s2 = Some (e1, o1, s3)"
    by (auto simp: reordered_def split: option.splits)
  note r1 = stage_and_stop_run[OF rrun.start _ s(1)]
  have idle: "rc_threads rc_start = Map.empty" by (simp add: rc_start_def)
  note r2 = serve_once_run[OF conjunct1[OF r1[OF idle]] conjunct2[OF r1[OF idle]] s(2)]
  note r3 = serve_once_run[OF conjunct1[OF r2] conjunct2[OF r2] s(3)]
  have "rrun (\<lambda>s. s) (\<lambda>_. False) (\<lambda>_. Inr ()) False
      [RlConnect sample_session, RlQuiet, RlRestart,
       RlConnect second_session, RlQuiet, RlQuiet, RlAck o2, RlHandle e2,
       RlConnect sample_session, RlQuiet, RlQuiet, RlAck o1, RlHandle e1] s3" using r3 by simp
  then show ?thesis using r(2-6) by blast
qed

end
