(* ===== verification/Integrations.thy ===== *)
theory Integrations
  imports Robot_Models
begin

text \<open>
  \<open>integrations/base.py\<close>, \<open>integrations/mapped_adapter.py\<close> and \<open>integrations/config.py\<close>: reports of what a mapping
  from a foreign robot standard did with each field, the mapping of foreign task types to capabilities, the adapter
  that keeps the mapped manifest and state of one robot, and the one way in which a foreign task becomes an
  assignment. The manufacturer's executor and canceller, the authorizer and the JSON schema validator are arguments.
\<close>

section \<open>Mapping reports\<close>

datatype field_mapping_status = FmMapped | FmDefaulted | FmUnsupported | FmRejected

fun field_mapping_status_value :: "field_mapping_status \<Rightarrow> string" where
  "field_mapping_status_value FmMapped = ''mapped''"
| "field_mapping_status_value FmDefaulted = ''defaulted''"
| "field_mapping_status_value FmUnsupported = ''unsupported''"
| "field_mapping_status_value FmRejected = ''rejected''"

record field_mapping =
  fm_field :: string
  fm_status :: field_mapping_status
  fm_detail :: string

definition post_init_field_mapping :: "field_mapping \<Rightarrow> field_mapping res" where
  "post_init_field_mapping f =
     rbind (require (\<not> (fm_field f = [] \<or> py_len (fm_field f) > 256))
              (ValueError ''mapping field must be a bounded non-empty path'')) (\<lambda>_.
     rbind (require (\<not> py_len (fm_detail f) > 1024) (ValueError ''mapping detail exceeds 1024 characters'')) (\<lambda>_.
     Inr f))"

record mapping_report =
  mr_standard :: string
  mr_standard_version :: string
  mr_direction :: string
  mr_source_id :: string
  mr_observed_at_ms :: int
  mr_fields :: "field_mapping list"
  mr_correlation_id :: "string option"
  mr_warnings :: "string list"

definition post_init_report :: "mapping_report \<Rightarrow> mapping_report res" where
  "post_init_report r =
     rbind (require (mr_direction r \<in> {''external_to_ump'', ''ump_to_external''})
              (ValueError ''mapping direction is invalid'')) (\<lambda>_.
     rbind (require (\<not> (mr_standard r = [] \<or> mr_standard_version r = [] \<or> mr_source_id r = []))
              (ValueError ''mapping provenance is incomplete'')) (\<lambda>_.
     rbind (require (\<not> mr_observed_at_ms r < 0)
              (ValueError ''mapping observation time cannot be negative'')) (\<lambda>_.
     rbind (require (\<not> (length (mr_fields r) > 256 \<or> length (mr_warnings r) > 64))
              (ValueError ''mapping report exceeds bounded profile'')) (\<lambda>_.
     Inr r))))"

definition report_passed :: "mapping_report \<Rightarrow> bool" where
  "report_passed r = list_all (\<lambda>f. fm_status f \<noteq> FmRejected) (mr_fields r)"

definition report_as_dict :: "mapping_report \<Rightarrow> json" where
  "report_as_dict r = JObj
     [(''standard'', JStr (mr_standard r)),
      (''standard_version'', JStr (mr_standard_version r)),
      (''direction'', JStr (mr_direction r)),
      (''source_id'', JStr (mr_source_id r)),
      (''observed_at_ms'', JInt (mr_observed_at_ms r)),
      (''correlation_id'', json_opt_str (mr_correlation_id r)),
      (''passed'', JBool (report_passed r)),
      (''fields'', JArr (map (\<lambda>f. JObj [(''field'', JStr (fm_field f)),
          (''status'', JStr (field_mapping_status_value (fm_status f))), (''detail'', JStr (fm_detail f))]) (mr_fields r))),
      (''warnings'', JArr (map JStr (mr_warnings r)))]"

lemma wf_report [simp]: "wf_json (report_as_dict r)"
  by (auto simp: report_as_dict_def)

record provenance =
  pv_source_standard :: string
  pv_source_version :: string
  pv_external_id :: string
  pv_mapped_at_ms :: int
  pv_report :: mapping_report

section \<open>Mapped task types\<close>

text \<open>The dictionary \<open>input_fields\<close> in insertion order: the name in the foreign document and the name of the input.\<close>

record task_mapping =
  tm_external_type :: string
  tm_capability :: string
  tm_input_fields :: "(string \<times> string) list"

definition post_init_task_mapping :: "task_mapping \<Rightarrow> task_mapping res" where
  "post_init_task_mapping t =
     rbind (require (\<not> (tm_external_type t = [] \<or> tm_capability t = []))
              (ValueError ''external task mapping requires type and capability'')) (\<lambda>_.
     let (namespace, separator, version) = py_rpartition ''/v'' (tm_capability t) in
     rbind (require (\<not> (separator = [] \<or> namespace = [] \<or> \<not> py_isdigit version))
              (ValueError ''task mapping capability must be versioned'')) (\<lambda>_.
     rbind (require (\<not> length (tm_input_fields t) > 64) (ValueError ''task mapping exceeds 64 fields'')) (\<lambda>_.
     Inr t)))"

definition map_input :: "task_mapping \<Rightarrow> (string \<times> json) list \<Rightarrow> (string \<times> json) list" where
  "map_input t document =
     fold (\<lambda>(ext, name) mapped.
        case map_of document ext of None \<Rightarrow> mapped | Some v \<Rightarrow> dict_set name v mapped) (tm_input_fields t) []"

text \<open>The authorizer answers for an issuer, a lease and a capability.\<close>

type_synonym task_authorizer = "string \<Rightarrow> string \<Rightarrow> string \<Rightarrow> bool res"

definition require_task_authorization ::
  "bool \<Rightarrow> task_authorizer option \<Rightarrow> string \<Rightarrow> string \<Rightarrow> string \<Rightarrow> string \<Rightarrow> unit res" where
  "require_task_authorization read_only authorizer robot issuer lease capability =
     rbind (require (\<not> read_only) (TaskAuthorizationError ''integration is configured read-only'')) (\<lambda>_.
     rbind (case authorizer of None \<Rightarrow> Inr False | Some ask \<Rightarrow> ask issuer lease capability) (\<lambda>granted.
     require granted (TaskAuthorizationError
       (''authority lease does not permit '' @ capability @ '' for '' @ robot))))"

section \<open>The adapter of a mapped robot\<close>

record mapped_adapter =
  ma_standard :: string
  ma_manifest :: manifest
  ma_state :: robot_state
  ma_external_id :: string
  ma_read_only :: bool
  ma_task_mappings :: "(string \<times> task_mapping) list"
  ma_authorizer :: "task_authorizer option"
  ma_executor :: "(assignment \<Rightarrow> outcome res) option"
  ma_canceller :: "(string \<Rightarrow> string \<Rightarrow> (bool \<times> string) res) option"
  ma_last_report :: "mapping_report option"

definition ma_init ::
  "string \<Rightarrow> manifest \<Rightarrow> robot_state \<Rightarrow> string \<Rightarrow> bool \<Rightarrow> task_mapping list \<Rightarrow> task_authorizer option \<Rightarrow>
   (assignment \<Rightarrow> outcome res) option \<Rightarrow> (string \<Rightarrow> string \<Rightarrow> (bool \<times> string) res) option \<Rightarrow> mapped_adapter res" where
  "ma_init standard mf st ext read_only mappings authorizer executor canceller =
     rbind (require (mf_robot_id mf = st_robot_id st)
              (ValueError ''integration manifest and state identity differ'')) (\<lambda>_.
     rbind (require (distinct (map tm_external_type mappings))
              (ValueError ''external task mapping types must be unique'')) (\<lambda>_.
     Inr \<lparr>ma_standard = standard, ma_manifest = mf, ma_state = st, ma_external_id = ext, ma_read_only = read_only,
          ma_task_mappings = map (\<lambda>t. (tm_external_type t, t)) mappings, ma_authorizer = authorizer,
          ma_executor = executor, ma_canceller = canceller, ma_last_report = None\<rparr>))"

definition store_manifest :: "manifest \<Rightarrow> mapping_report \<Rightarrow> mapped_adapter \<Rightarrow> mapped_adapter \<times> unit res" where
  "store_manifest mf report a =
     (if mf_robot_id mf \<noteq> mf_robot_id (ma_manifest a)
      then (a, Inl (ValueError ''external identity cannot replace configured UMP identity''))
      else (a\<lparr>ma_manifest := mf, ma_last_report := Some report\<rparr>, Inr ()))"

definition store_state :: "robot_state \<Rightarrow> mapping_report \<Rightarrow> mapped_adapter \<Rightarrow> mapped_adapter \<times> unit res" where
  "store_state st report a =
     (if st_robot_id st \<noteq> mf_robot_id (ma_manifest a)
      then (a, Inl (ValueError ''external state identity does not match configured robot''))
      else (a\<lparr>ma_state := st, ma_last_report := Some report\<rparr>, Inr ()))"

definition ma_accept :: "mapped_adapter \<Rightarrow> assignment \<Rightarrow> outcome res" where
  "ma_accept a asg = (case ma_executor a of
      None \<Rightarrow> mk_outcome (assignment_id asg) (mf_robot_id (ma_manifest a)) False
                ''Integration has no configured native assignment executor'' None (JObj [])
    | Some execute \<Rightarrow> execute asg)"

definition ma_cancel :: "mapped_adapter \<Rightarrow> string \<Rightarrow> string \<Rightarrow> (bool \<times> string) res" where
  "ma_cancel a aid reason = (case ma_canceller a of
      None \<Rightarrow> Inr (False, ''Integration has no configured native cancellation endpoint'')
    | Some cancel \<Rightarrow> cancel aid reason)"

definition assignment_from_external ::
  "mapped_adapter \<Rightarrow> (string \<times> json) list \<Rightarrow> string \<Rightarrow> string \<Rightarrow> string \<Rightarrow> string \<Rightarrow> int \<Rightarrow> assignment res" where
  "assignment_from_external a document external_type issuer lease aid issued =
     (case map_of (ma_task_mappings a) external_type of
        None \<Rightarrow> Inl (ValueError (''external task type is not mapped: '' @ external_type))
      | Some mapping \<Rightarrow>
          rbind (require_task_authorization (ma_read_only a) (ma_authorizer a) (mf_robot_id (ma_manifest a))
                   issuer lease (tm_capability mapping)) (\<lambda>_.
          rbind (require (manifest_capability (ma_manifest a) (tm_capability mapping) \<noteq> None)
                   (ValueError ''mapped capability is not advertised by the robot'')) (\<lambda>_.
          rbind (post_init_plan_step
             \<lparr>step_id = ''external-'' @ aid,
              step_description = ''Authorized '' @ ma_standard a @ '' task '' @ external_type,
              assigned_robot_id = mf_robot_id (ma_manifest a), step_capability = tm_capability mapping,
              step_inputs = JObj (map_input mapping document),
              completion_criteria = ''Native endpoint reports a terminal result'',
              depends_on = [], step_resources = [], not_before_ms = Some issued, step_deadline_ms = None\<rparr>) (\<lambda>step.
          post_init_assignment
             \<lparr>assignment_id = aid, asg_goal_id = ''external-goal-'' @ aid, asg_plan_id = ''external-plan-'' @ aid,
              asg_step = step, authority_lease_id = Some lease\<rparr>))))"

section \<open>The configuration file\<close>

record integration_config =
  ic_type :: string
  ic_standard_version :: string
  ic_endpoint :: string
  ic_external_id :: string
  ic_robot_id :: string
  ic_read_only :: bool
  ic_disclosure :: "string list"
  ic_task_mappings :: "task_mapping list"
  ic_options :: json

definition load_task_mapping :: "json \<Rightarrow> task_mapping res" where
  "load_task_mapping item =
     rbind (rbind (jitem item ''external_type'') as_str) (\<lambda>ext.
     rbind (rbind (jitem item ''capability'') as_str) (\<lambda>cap.
     rbind (rbind (jget item ''input_fields'' (JObj [])) dict_items) (\<lambda>fields.
     rbind (rmap (\<lambda>kv. rbind (as_str (snd kv)) (\<lambda>s. Inr (fst kv, s))) fields) (\<lambda>pairs.
     post_init_task_mapping \<lparr>tm_external_type = ext, tm_capability = cap, tm_input_fields = pairs\<rparr>))))"

text \<open>What the \<open>except\<close> clause catches: \<open>OSError\<close>, \<open>KeyError\<close>, \<open>TypeError\<close>, \<open>ValueError\<close>. The
  \<open>ValidationError\<close> of \<open>jsonschema\<close> is none of them.\<close>

definition config_error_caught :: "error \<Rightarrow> bool" where
  "config_error_caught e = (case e of
      KeyError _ \<Rightarrow> True | TypeError _ \<Rightarrow> True | ValueError _ \<Rightarrow> True
    | RuntimeError m \<Rightarrow> m = ''OSError'' | _ \<Rightarrow> False)"

definition read_integration_config :: "(json \<Rightarrow> unit res) \<Rightarrow> string res \<Rightarrow> integration_config res" where
  "read_integration_config validate content =
     rbind content (\<lambda>text.
     rbind (case json_loads text of None \<Rightarrow> Inl (ValueError ''JSONDecodeError'') | Some d \<Rightarrow> Inr d) (\<lambda>document.
     rbind (validate document) (\<lambda>_.
     rbind (rbind (rbind (jget document ''task_mappings'' (JArr [])) py_iter) (rmap load_task_mapping)) (\<lambda>mappings.
     rbind (rbind (jitem document ''type'') as_str) (\<lambda>ty.
     rbind (rbind (jitem document ''standard_version'') as_str) (\<lambda>ver.
     rbind (rbind (jitem document ''endpoint'') as_str) (\<lambda>endpoint.
     rbind (rbind (rbind (jitem document ''identity'') (\<lambda>i. jitem i ''external_id'')) as_str) (\<lambda>ext.
     rbind (rbind (rbind (jitem document ''identity'') (\<lambda>i. jitem i ''robot_id'')) as_str) (\<lambda>robot.
     rbind (jget document ''mode'' (JStr ''read_only'')) (\<lambda>access.
     rbind (rbind (jget document ''disclosure'' (JArr [])) as_strs) (\<lambda>disclosure.
     rbind (jget document ''options'' (JObj [])) (\<lambda>options.
     Inr \<lparr>ic_type = ty, ic_standard_version = ver, ic_endpoint = endpoint, ic_external_id = ext, ic_robot_id = robot,
          ic_read_only = (access = JStr ''read_only''), ic_disclosure = disclosure, ic_task_mappings = mappings,
          ic_options = options\<rparr>))))))))))))"

definition load_integration_config :: "(json \<Rightarrow> unit res) \<Rightarrow> string res \<Rightarrow> integration_config res" where
  "load_integration_config validate content =
     (case read_integration_config validate content of
        Inr c \<Rightarrow> Inr c
      | Inl e \<Rightarrow> Inl (if config_error_caught e then ValueError ''integration config is invalid'' else e))"

definition validate_integration_config :: "(json \<Rightarrow> unit res) \<Rightarrow> string res \<Rightarrow> json res" where
  "validate_integration_config validate content =
     rbind (load_integration_config validate content) (\<lambda>c.
     Inr (JObj [(''valid'', JBool True), (''profile'', JStr ''ump.integration-config/v1''), (''type'', JStr (ic_type c)),
       (''standard_version'', JStr (ic_standard_version c)), (''robot_id'', JStr (ic_robot_id c)),
       (''external_id'', JStr (ic_external_id c)), (''read_only'', JBool (ic_read_only c)),
       (''task_mapping_count'', JInt (int (length (ic_task_mappings c))))]))"

section \<open>What the adapter guarantees\<close>

lemma map_input_values:
  "(name, v) \<in> set (map_input t document) \<Longrightarrow> \<exists>ext. (ext, name) \<in> set (tm_input_fields t) \<and> map_of document ext = Some v"
proof -
  define step where "step = (\<lambda>(ext, name) mapped. case map_of document ext of None \<Rightarrow> mapped
          | Some v \<Rightarrow> dict_set name v mapped)"
  have new: "set (dict_set k w d) \<subseteq> insert (k, w) (set d)" for k w d
    by (induction d) (auto split: if_splits)
  have "(name, v) \<in> set (fold step fs acc) \<Longrightarrow>
      (name, v) \<in> set acc \<or> (\<exists>ext. (ext, name) \<in> set fs \<and> map_of document ext = Some v)" for fs acc
  proof (induction fs arbitrary: acc)
    case (Cons f fs)
    obtain ext k where f: "f = (ext, k)" by (cases f)
    show ?case
    proof (cases "map_of document ext")
      case None
      then have "(name, v) \<in> set (fold step fs acc)" using Cons.prems f by (simp add: step_def)
      then show ?thesis using Cons.IH[of acc] by auto
    next
      case (Some w)
      then have "(name, v) \<in> set (fold step fs (dict_set k w acc))" using Cons.prems f by (simp add: step_def)
      then show ?thesis using Cons.IH[of "dict_set k w acc"] new[of k w acc] Some f by auto
    qed
  qed simp
  then show "(name, v) \<in> set (map_input t document) \<Longrightarrow> ?thesis"
    by (fastforce simp: map_input_def step_def)
qed

text \<open>An adapter never changes whom it speaks for: over every series of ingested manifests and states, accepted or
  refused, its manifest and state are those of the configured robot.\<close>

datatype ma_update = NewManifest manifest mapping_report | NewState robot_state mapping_report

fun ma_apply :: "ma_update \<Rightarrow> mapped_adapter \<Rightarrow> mapped_adapter" where
  "ma_apply (NewManifest mf report) a = fst (store_manifest mf report a)"
| "ma_apply (NewState st report) a = fst (store_state st report a)"

lemma adapter_identity_fixed:
  assumes "ma_init standard mf st ext ro mappings authorizer executor canceller = Inr a"
    and b: "b = fold ma_apply updates a"
  shows "mf_robot_id (ma_manifest b) = mf_robot_id mf \<and> st_robot_id (ma_state b) = mf_robot_id mf \<and>
    ma_task_mappings b = ma_task_mappings a \<and> ma_read_only b = ro \<and> ma_authorizer b = authorizer"
proof -
  have step: "mf_robot_id (ma_manifest (ma_apply u c)) = mf_robot_id (ma_manifest c) \<and>
      (st_robot_id (ma_state c) = mf_robot_id (ma_manifest c) \<longrightarrow> st_robot_id (ma_state (ma_apply u c)) = mf_robot_id (ma_manifest c)) \<and>
      ma_task_mappings (ma_apply u c) = ma_task_mappings c \<and> ma_read_only (ma_apply u c) = ma_read_only c \<and>
      ma_authorizer (ma_apply u c) = ma_authorizer c" for u c
    by (cases u) (auto simp: store_manifest_def store_state_def)
  have "mf_robot_id (ma_manifest (fold ma_apply us c)) = mf_robot_id (ma_manifest c) \<and>
      (st_robot_id (ma_state c) = mf_robot_id (ma_manifest c) \<longrightarrow> st_robot_id (ma_state (fold ma_apply us c)) = mf_robot_id (ma_manifest c)) \<and>
      ma_task_mappings (fold ma_apply us c) = ma_task_mappings c \<and> ma_read_only (fold ma_apply us c) = ma_read_only c \<and>
      ma_authorizer (fold ma_apply us c) = ma_authorizer c" for us c
  proof (induction us arbitrary: c)
    case (Cons u us)
    then show ?case using step[of u c] Cons.IH[of "ma_apply u c"] by simp
  qed simp
  from this[of updates a] show ?thesis using assms(1) by (auto simp: b ma_init_def res_simps)
qed

text \<open>C34: a task of a foreign system becomes an assignment only through the authority boundary. The integration is
  not read-only, the task type is mapped, the authorizer granted that issuer and lease the mapped capability, the
  robot advertises it, and the assignment is for this robot, carries the lease and holds no input but the values that
  the mapping names.\<close>

theorem external_task_needs_authority:
  assumes "assignment_from_external a document external_type issuer lease aid issued = Inr asg"
  shows "\<not> ma_read_only a \<and>
     (\<exists>mapping ask. map_of (ma_task_mappings a) external_type = Some mapping \<and>
        ma_authorizer a = Some ask \<and> ask issuer lease (tm_capability mapping) = Inr True \<and>
        manifest_capability (ma_manifest a) (tm_capability mapping) \<noteq> None \<and>
        step_capability (asg_step asg) = tm_capability mapping \<and>
        assigned_robot_id (asg_step asg) = mf_robot_id (ma_manifest a) \<and>
        authority_lease_id asg = Some lease \<and> not_before_ms (asg_step asg) = Some issued \<and>
        (\<exists>kvs. step_inputs (asg_step asg) = JObj kvs \<and>
           (\<forall>kv\<in>set kvs. \<exists>ext. (ext, fst kv) \<in> set (tm_input_fields mapping) \<and> map_of document ext = Some (snd kv))))"
proof -
  obtain mapping where m: "map_of (ma_task_mappings a) external_type = Some mapping"
    using assms by (auto simp: assignment_from_external_def split: option.splits)
  have ro: "\<not> ma_read_only a" and cap: "manifest_capability (ma_manifest a) (tm_capability mapping) \<noteq> None"
    using assms m by (auto simp: assignment_from_external_def require_task_authorization_def res_simps)
  obtain ask where ask: "ma_authorizer a = Some ask" "ask issuer lease (tm_capability mapping) = Inr True"
    using assms m by (auto simp: assignment_from_external_def require_task_authorization_def res_simps split: option.splits)
  have asg: "step_capability (asg_step asg) = tm_capability mapping \<and>
      assigned_robot_id (asg_step asg) = mf_robot_id (ma_manifest a) \<and> authority_lease_id asg = Some lease \<and>
      not_before_ms (asg_step asg) = Some issued \<and> step_inputs (asg_step asg) = JObj (map_input mapping document)"
    using assms m
    by (auto simp: assignment_from_external_def res_simps post_init_assignment_def dest!: post_init_plan_step_id)
  show ?thesis using ro m ask cap asg map_input_values by fastforce
qed

definition sample_arm :: manifest where
  "sample_arm = \<lparr>mf_robot_id = ''arm'', mf_manufacturer = ''M'', mf_model = ''M'', mf_robot_class = ''arm'',
     mf_capabilities = [\<lparr>cap_name = ''move/v1'', cap_description = ''move'', cap_input_schema = JObj [],
       cap_output_schema = JObj [], cap_availability = AvAvailable\<rparr>], mf_adapter_version = ''1''\<rparr>"

definition sample_arm_state :: robot_state where
  "sample_arm_state = \<lparr>st_robot_id = ''arm'', st_mode = MoIdle, st_safety = SaNormal, st_activity = ''a'', st_intent = ''i'',
     st_progress = JInt 0, st_summary = ''s'', st_health = HeHealthy, st_battery = None, st_fresh_for_ms = 1,
     st_blockers = [], st_resources = [], st_assignment_id = None, st_pose = None, st_sensor_references = []\<rparr>"

definition sample_bridge :: mapped_adapter where
  "sample_bridge = (case ma_init ''vda5050'' sample_arm sample_arm_state ''42'' False
     [\<lparr>tm_external_type = ''drive'', tm_capability = ''move/v1'', tm_input_fields = [(''to'', ''target'')]\<rparr>]
     (Some (\<lambda>issuer lease capability. Inr (lease = ''lease-1''))) None None of Inr a \<Rightarrow> a | Inl _ \<Rightarrow> undefined)"

definition sample_task :: assignment where
  "sample_task = (case assignment_from_external sample_bridge [(''to'', JStr ''dock''), (''speed'', JInt 3)] ''drive'' ''fleet''
     ''lease-1'' ''a1'' 7 of Inr asg \<Rightarrow> asg | Inl _ \<Rightarrow> undefined)"

theorem external_task_needs_authority_witness:
  "\<not> ma_read_only sample_bridge \<and> step_inputs (asg_step sample_task) = JObj [(''target'', JStr ''dock'')] \<and>
   authority_lease_id sample_task = Some ''lease-1''"
proof -
  have run: "assignment_from_external sample_bridge [(''to'', JStr ''dock''), (''speed'', JInt 3)] ''drive'' ''fleet''
     ''lease-1'' ''a1'' 7 = Inr sample_task" by code_simp
  have inputs: "step_inputs (asg_step sample_task) = JObj [(''target'', JStr ''dock'')]" by code_simp
  show ?thesis using external_task_needs_authority[OF run] inputs by blast
qed

text \<open>A configuration that the schema refuses leaves the loader as the exception of the validator, which the loader
  does not turn into an \<open>IntegrationConfigError\<close>.\<close>

lemma schema_error_escapes:
  assumes "content = Inr text" "json_loads text = Some document" "validate document = Inl (NativeError m)"
  shows "load_integration_config validate content = Inl (NativeError m)"
  using assms by (simp add: load_integration_config_def read_integration_config_def config_error_caught_def)

end
