(* ===== verification/Inspector.thy ===== *)
theory Inspector
  imports Integrations Network_Codec
begin

text \<open>
  \<open>inspector.py\<close>: the append-only record of observed messages, its read model for operators, the recorder that
  subscribes to the bus, and what the HTTP server decides before it answers. A table is the list of its rows in the
  order of their automatic keys, which no query returns. \<open>INSERT OR IGNORE\<close> skips a row that a unique key refuses;
  an integer beyond 64 bits raises before. Of the envelopes in the table the model reads those that \<open>record\<close>
  wrote: a source or message type that is no text is refused as such.
\<close>

section \<open>The store\<close>

record event_row =
  ev_message_id :: string
  ev_message_type :: string
  ev_source_id :: string
  ev_session_id :: string
  ev_sequence :: int
  ev_timestamp_ms :: int
  ev_correlation_id :: "string option"
  ev_envelope :: string

record report_row =
  rr_robot_id :: string
  rr_source_standard :: string
  rr_source_version :: string
  rr_external_id :: string
  rr_mapped_at_ms :: int
  rr_report_json :: string

record lab_row =
  lb_event_type :: string
  lb_robot_id :: "string option"
  lb_status :: string
  lb_observed_at_ms :: int
  lb_detail_json :: string

text \<open>A database of an older version has no table of reports or of lab events.\<close>

record inspector =
  is_events :: "event_row list"
  is_reports :: "report_row list option"
  is_lab :: "lab_row list option"
  is_read_only :: bool

text \<open>The constructor creates the tables that are missing.\<close>

definition inspector_open :: "inspector \<Rightarrow> inspector" where
  "inspector_open db = db\<lparr>
     is_reports := Some (case is_reports db of None \<Rightarrow> [] | Some rs \<Rightarrow> rs),
     is_lab := Some (case is_lab db of None \<Rightarrow> [] | Some rs \<Rightarrow> rs), is_read_only := False\<rparr>"

definition empty_inspector :: inspector where
  "empty_inspector = inspector_open \<lparr>is_events = [], is_reports = None, is_lab = None, is_read_only = False\<rparr>"

definition event_of :: "envelope \<Rightarrow> string \<Rightarrow> event_row" where
  "event_of e encoded = \<lparr>ev_message_id = message_id e, ev_message_type = message_type e, ev_source_id = source_id e,
     ev_session_id = session_id e, ev_sequence = env_sequence e, ev_timestamp_ms = timestamp_ms e,
     ev_correlation_id = correlation_id e, ev_envelope = encoded\<rparr>"

text \<open>The unique keys of \<open>protocol_events\<close>: the message, and its place in the session of its source.\<close>

definition event_place :: "event_row \<Rightarrow> string \<times> string \<times> int" where
  "event_place r = (ev_source_id r, ev_session_id r, ev_sequence r)"

definition event_conflicts :: "event_row \<Rightarrow> event_row \<Rightarrow> bool" where
  "event_conflicts r s = (ev_message_id r = ev_message_id s \<or> event_place r = event_place s)"

definition record_event :: "envelope \<Rightarrow> inspector \<Rightarrow> inspector \<times> bool res" where
  "record_event e s =
     (if is_read_only s then (s, Inl (InspectorStoreError ''read-only inspector store cannot record events''))
      else case rbind (encode_envelope e) (\<lambda>encoded.
             rbind (sql_int (env_sequence e)) (\<lambda>_. rbind (sql_int (timestamp_ms e)) (\<lambda>_. Inr (event_of e encoded)))) of
        Inl err \<Rightarrow> (s, Inl err)
      | Inr row \<Rightarrow>
          (if list_ex (event_conflicts row) (is_events s) then (s, Inr False)
           else (s\<lparr>is_events := is_events s @ [row]\<rparr>, Inr True)))"

definition inspector_events :: "inspector \<Rightarrow> int \<Rightarrow> json list res" where
  "inspector_events s limit =
     rbind (require (1 \<le> limit \<and> limit \<le> 1000) (ValueError ''event limit must be between 1 and 1000'')) (\<lambda>_.
     rmap (\<lambda>r. case loads_bytes (ev_envelope r) of None \<Rightarrow> Inl (ValueError ''JSONDecodeError'') | Some v \<Rightarrow> Inr v)
       (take (nat limit) (rev (is_events s))))"

definition record_integration :: "string \<Rightarrow> provenance \<Rightarrow> inspector \<Rightarrow> inspector \<times> unit res" where
  "record_integration robot p s =
     (if is_read_only s then (s, Inl (InspectorStoreError ''read-only inspector store cannot record integration reports''))
      else case sql_int (pv_mapped_at_ms p) of
        Inl err \<Rightarrow> (s, Inl err)
      | Inr _ \<Rightarrow> (s\<lparr>is_reports := map_option (\<lambda>rs. rs @ [\<lparr>rr_robot_id = robot,
            rr_source_standard = pv_source_standard p, rr_source_version = pv_source_version p,
            rr_external_id = pv_external_id p, rr_mapped_at_ms = pv_mapped_at_ms p,
            rr_report_json = json_dumps_ascii (report_as_dict (pv_report p))\<rparr>]) (is_reports s)\<rparr>, Inr ()))"

definition record_lab_event ::
  "string \<Rightarrow> string \<Rightarrow> int \<Rightarrow> string option \<Rightarrow> (string \<times> json) list option \<Rightarrow> inspector \<Rightarrow> inspector \<times> unit res" where
  "record_lab_event etype status observed robot detail s =
     (if is_read_only s then (s, Inl (InspectorStoreError ''read-only inspector store cannot record lab events''))
      else case rbind (require (\<not> (py_blank etype \<or> py_blank status \<or> observed < 0))
                         (ValueError ''lab event type, status, and timestamp are required'')) (\<lambda>_. sql_int observed) of
        Inl err \<Rightarrow> (s, Inl err)
      | Inr _ \<Rightarrow> (s\<lparr>is_lab := map_option (\<lambda>rs. rs @ [\<lparr>lb_event_type = etype, lb_robot_id = robot, lb_status = status,
            lb_observed_at_ms = observed,
            lb_detail_json = json_dumps_ascii (JObj (case detail of None \<Rightarrow> [] | Some d \<Rightarrow> d))\<rparr>]) (is_lab s)\<rparr>, Inr ()))"

section \<open>The read model\<close>

text \<open>The rows for which no later row has the same key, in their order: \<open>MAX(event_order)\<close> of the group.\<close>

fun latest_by :: "('r \<Rightarrow> 'k) \<Rightarrow> 'r list \<Rightarrow> 'r list" where
  "latest_by key [] = []"
| "latest_by key (r # rs) = (if key r \<in> key ` set rs then latest_by key rs else r # latest_by key rs)"

type_synonym robot_views = "(string \<times> (string \<times> json) list) list"

definition new_view :: "string \<Rightarrow> (string \<times> json) list" where
  "new_view robot = [(''robot_id'', JStr robot), (''manifest'', JNull), (''state'', JNull)]"

text \<open>\<open>robots.setdefault(robot, ...)\<close> and an update of the entry.\<close>

fun with_view :: "string \<Rightarrow> ((string \<times> json) list \<Rightarrow> (string \<times> json) list) \<Rightarrow> robot_views \<Rightarrow> robot_views" where
  "with_view robot f [] = [(robot, f (new_view robot))]"
| "with_view robot f ((k, d) # vs) = (if k = robot then (k, f d) # vs else (k, d) # with_view robot f vs)"

definition latest_events :: "inspector \<Rightarrow> event_row list" where
  "latest_events s = sort_key ev_source_id (sort_key ev_message_type
     (filter (\<lambda>r. ev_message_type r \<in> {''manifest'', ''state''})
        (latest_by (\<lambda>r. (ev_source_id r, ev_message_type r)) (is_events s))))"

definition view_event :: "event_row \<Rightarrow> robot_views \<Rightarrow> robot_views res" where
  "view_event r views =
     rbind (case loads_bytes (ev_envelope r) of None \<Rightarrow> Inl (ValueError ''JSONDecodeError'') | Some v \<Rightarrow> Inr v) (\<lambda>event.
     rbind (rbind (jitem event ''source_id'') as_str) (\<lambda>source.
     rbind (rbind (jitem event ''message_type'') as_str) (\<lambda>mtype.
     rbind (jitem event ''payload'') (\<lambda>body.
     Inr (with_view source (\<lambda>d.
        let d1 = dict_set mtype body d in
        if mtype = ''state''
        then dict_set ''session_id'' (JStr (ev_session_id r)) (dict_set ''state_observed_at_ms'' (JInt (ev_timestamp_ms r)) d1)
        else d1) views)))))"

fun view_events :: "event_row list \<Rightarrow> robot_views \<Rightarrow> robot_views res" where
  "view_events [] views = Inr views"
| "view_events (r # rs) views = rbind (view_event r views) (view_events rs)"

definition reconnects :: "inspector \<Rightarrow> string \<Rightarrow> int" where
  "reconnects s source = int (card (ev_session_id ` set (filter (\<lambda>r. ev_source_id r = source) (is_events s)))) - 1"

definition view_reconnects :: "inspector \<Rightarrow> robot_views \<Rightarrow> robot_views" where
  "view_reconnects s = map (\<lambda>(k, d). (k,
     if list_ex (\<lambda>r. ev_source_id r = k) (is_events s) then dict_set ''reconnect_count'' (JInt (reconnects s k)) d else d))"

definition view_report :: "report_row \<Rightarrow> robot_views \<Rightarrow> robot_views res" where
  "view_report r views =
     rbind (case json_loads (rr_report_json r) of None \<Rightarrow> Inl (ValueError ''JSONDecodeError'') | Some v \<Rightarrow> Inr v) (\<lambda>report.
     Inr (with_view (rr_robot_id r) (dict_set ''integration'' (JObj
       [(''source_standard'', JStr (rr_source_standard r)), (''source_version'', JStr (rr_source_version r)),
        (''external_id'', JStr (rr_external_id r)), (''mapped_at_ms'', JInt (rr_mapped_at_ms r)), (''report'', report)])) views))"

fun view_reports :: "report_row list \<Rightarrow> robot_views \<Rightarrow> robot_views res" where
  "view_reports [] views = Inr views"
| "view_reports (r # rs) views = rbind (view_report r views) (view_reports rs)"

definition view_lab :: "lab_row \<Rightarrow> json res" where
  "view_lab r = (case json_loads (lb_detail_json r) of
      None \<Rightarrow> Inl (ValueError ''JSONDecodeError'')
    | Some detail \<Rightarrow> Inr (JObj [(''event_type'', JStr (lb_event_type r)), (''robot_id'', json_opt_str (lb_robot_id r)),
        (''status'', JStr (lb_status r)), (''observed_at_ms'', JInt (lb_observed_at_ms r)), (''detail'', detail)]))"

definition inspector_snapshot :: "inspector \<Rightarrow> int \<Rightarrow> json res" where
  "inspector_snapshot s limit =
     rbind (inspector_events s limit) (\<lambda>events.
     rbind (view_events (latest_events s) []) (\<lambda>views.
     rbind (view_reports (latest_by rr_robot_id (case is_reports s of None \<Rightarrow> [] | Some rs \<Rightarrow> rs))
              (view_reconnects s views)) (\<lambda>robots.
     rbind (rmap view_lab (take 200 (rev (case is_lab s of None \<Rightarrow> [] | Some rs \<Rightarrow> rs)))) (\<lambda>lab.
     Inr (JObj [(''robots'', JArr (map (\<lambda>kd. JObj (snd kd)) (sort_key fst robots))), (''events'', JArr events),
       (''event_count'', JInt (int (length (is_events s)))), (''lab_events'', JArr lab)])))))"

section \<open>Opening for reading\<close>

definition INSPECTOR_COLUMNS :: "string list" where
  "INSPECTOR_COLUMNS = [''event_order'', ''message_id'', ''message_type'', ''source_id'', ''session_id'', ''sequence'',
     ''timestamp_ms'', ''correlation_id'', ''envelope'']"

text \<open>What is at the path: whether it is a file, what SQLite says of it, the columns of \<open>protocol_events\<close>, the tables.\<close>

definition read_only_open :: "bool \<Rightarrow> unit res \<Rightarrow> string list \<Rightarrow> inspector \<Rightarrow> inspector res" where
  "read_only_open is_file opened columns db =
     rbind (require is_file (InspectorStoreError ''inspector database does not exist'')) (\<lambda>_.
     rbind (case opened of Inl _ \<Rightarrow> Inl (InspectorStoreError ''inspector database cannot be opened read-only'') | Inr u \<Rightarrow> Inr u) (\<lambda>_.
     rbind (require (set INSPECTOR_COLUMNS \<subseteq> set columns) (InspectorStoreError ''inspector database schema is missing columns'')) (\<lambda>_.
     Inr (db\<lparr>is_read_only := True\<rparr>))))"

section \<open>The recorder\<close>

text \<open>\<open>InspectorRecorder\<close>: after the first exception nothing more is recorded.\<close>

record recorder =
  rec_store :: inspector
  rec_error :: "error option"

definition recorder_record :: "envelope \<Rightarrow> recorder \<Rightarrow> recorder" where
  "recorder_record e r =
     (if rec_error r \<noteq> None then r
      else case record_event e (rec_store r) of
        (s, Inl err) \<Rightarrow> r\<lparr>rec_store := s, rec_error := Some err\<rparr>
      | (s, Inr _) \<Rightarrow> r\<lparr>rec_store := s\<rparr>)"

definition require_healthy :: "recorder \<Rightarrow> unit res" where
  "require_healthy r = (case rec_error r of
      None \<Rightarrow> Inr () | Some _ \<Rightarrow> Inl (RuntimeError ''protocol event recording failed''))"

definition new_recorder :: "inspector \<Rightarrow> recorder" where
  "new_recorder s = \<lparr>rec_store = s, rec_error = None\<rparr>"

section \<open>The server\<close>

definition inspector_server_init :: "string \<Rightarrow> bool \<Rightarrow> string option \<Rightarrow> bool \<Rightarrow> bool \<Rightarrow> unit res" where
  "inspector_server_init host allow_remote token has_certificate has_key =
     (let loopback = host \<in> {''127.0.0.1'', ''::1'', ''localhost''} in
     rbind (require (\<not> (\<not> loopback \<and> \<not> allow_remote))
              (ValueError ''UMP inspector v0.1 is restricted to loopback binding'')) (\<lambda>_.
     rbind (require (\<not> (\<not> loopback \<and> (token = None \<or> token = Some [] \<or> \<not> has_certificate \<or> \<not> has_key)))
              (ValueError ''remote inspector requires authentication and TLS'')) (\<lambda>_.
     rbind (require (\<not> has_certificate = (\<not> has_key))
              (ValueError ''inspector TLS certificate and private key must be provided together'')) (\<lambda>_.
     require (case token of None \<Rightarrow> True | Some t \<Rightarrow> \<not> length t < 32)
       (ValueError ''inspector authentication token must contain at least 32 bytes'')))))"

text \<open>\<open>secrets.compare_digest\<close> refuses a text with a character beyond ASCII.\<close>

definition compare_digest :: "string \<Rightarrow> string \<Rightarrow> bool res" where
  "compare_digest a b =
     (if list_all (\<lambda>c. of_char c < (128 :: nat)) a \<and> list_all (\<lambda>c. of_char c < (128 :: nat)) b then Inr (a = b)
      else Inl (TypeError ''comparing strings with non-ASCII characters is not supported''))"

text \<open>The header \<open>Authorization\<close>; \<open>b64decode\<close> is \<open>base64.b64decode(validate=True)\<close>, \<open>None\<close> when it raises.\<close>

definition authorized :: "(string \<Rightarrow> string option) \<Rightarrow> string \<Rightarrow> string \<Rightarrow> bool res" where
  "authorized b64decode header expected =
     (let (scheme, separator, encoded) = py_partition '' '' header in
      if separator = [] \<or> map to_lower scheme \<noteq> ''basic'' then Inr False
      else case b64decode encoded of
        None \<Rightarrow> Inr False
      | Some bytes \<Rightarrow>
          if \<not> utf8_valid bytes then Inr False
          else (let (username, sep, token) = py_partition '':'' bytes in
                if sep = [] \<or> username \<noteq> ''ump'' then Inr False else compare_digest token expected))"

datatype http_response =
    Unauthorized
  | JsonOk json
  | BadRequest string
  | NotFound
  | ServerError
  | FileBody string string

definition static_files :: "(string \<times> string \<times> string) list" where
  "static_files = [(''/'', ''index.html'', ''text/html; charset=utf-8''),
     (''/app.js'', ''app.js'', ''text/javascript; charset=utf-8''),
     (''/styles.css'', ''styles.css'', ''text/css; charset=utf-8'')]"

text \<open>\<open>do_GET\<close>, for the path and the value of \<open>limit\<close> in the query as \<open>urlparse\<close>, \<open>parse_qs\<close> and \<open>int\<close> give them;
  an exception other than the two it catches ends the request without an answer.\<close>

definition is_value_or_overflow :: "error \<Rightarrow> bool" where
  "is_value_or_overflow e = (case e of
      ValueError _ \<Rightarrow> True | InspectorStoreError _ \<Rightarrow> True | ProtocolDecodeError _ \<Rightarrow> True
    | RuntimeError m \<Rightarrow> m = ''OverflowError'' | _ \<Rightarrow> False)"

definition do_GET ::
  "(string \<Rightarrow> string option) \<Rightarrow> (string \<Rightarrow> string res) \<Rightarrow> inspector \<Rightarrow> string option \<Rightarrow> string \<Rightarrow> string \<Rightarrow> int res \<Rightarrow> http_response res" where
  "do_GET b64decode read_static s auth_token header path limit =
     rbind (case auth_token of None \<Rightarrow> Inr True | Some t \<Rightarrow> authorized b64decode header t) (\<lambda>ok.
     if \<not> ok then Inr Unauthorized
     else if path = ''/api/snapshot'' then
       (case rbind limit (inspector_snapshot s) of
          Inr v \<Rightarrow> Inr (JsonOk v)
        | Inl e \<Rightarrow> if is_value_or_overflow e then Inr (BadRequest ''error'') else Inl e)
     else (case map_of static_files path of
        None \<Rightarrow> Inr NotFound
      | Some (name, content_type) \<Rightarrow>
          (case read_static name of Inr body \<Rightarrow> Inr (FileBody content_type body) | Inl _ \<Rightarrow> Inr ServerError)))"

end
