(* ===== verification/Inspector_Runs.thy ===== *)
theory Inspector_Runs
  imports Inspector
begin

text \<open>
  What holds of the inspector over every history: its rows stay, each is readable and says what its envelope says,
  a healthy recorder has a row for every observed message or for one with the same place in its session, and the
  snapshot shows the latest state. The last section shows what the recorder loses.
\<close>

section \<open>The rows\<close>

definition faithful_row :: "event_row \<Rightarrow> bool" where
  "faithful_row r = (\<exists>e. wf_json (env_payload e) \<and> encode_envelope e = Inr (ev_envelope r) \<and> r = event_of e (ev_envelope r))"

definition inspector_good :: "inspector \<Rightarrow> bool" where
  "inspector_good s = (distinct (map ev_message_id (is_events s)) \<and> distinct (map event_place (is_events s)) \<and>
     (\<forall>r\<in>set (is_events s). faithful_row r))"

lemma empty_good [simp]: "inspector_good empty_inspector"
  by (simp add: inspector_good_def empty_inspector_def inspector_open_def)

lemma record_event_cases:
  assumes "record_event e s = (s', r)"
  obtains (refused) err where "r = Inl err" "s' = s"
  | (known) row where "r = Inr False" "s' = s" "row \<in> set (is_events s)"
      "ev_message_id row = message_id e \<or> event_place row = (source_id e, session_id e, env_sequence e)"
  | (new) b where "r = Inr True" "s' = s\<lparr>is_events := is_events s @ [event_of e b]\<rparr>" "encode_envelope e = Inr b"
      "\<forall>row\<in>set (is_events s). \<not> event_conflicts (event_of e b) row"
proof (cases r)
  case (Inl err)
  then show ?thesis using assms refused by (auto simp: record_event_def split: if_splits sum.splits)
next
  case (Inr added)
  then obtain b where b: "encode_envelope e = Inr b" "\<not> is_read_only s"
    using assms by (auto simp: record_event_def res_simps split: if_splits sum.splits)
  have eq: "(if list_ex (event_conflicts (event_of e b)) (is_events s) then (s, Inr False)
      else (s\<lparr>is_events := is_events s @ [event_of e b]\<rparr>, Inr True)) = (s', Inr added)"
    using assms b Inr by (auto simp: record_event_def res_simps split: sum.splits)
  show ?thesis
  proof (cases "list_ex (event_conflicts (event_of e b)) (is_events s)")
    case True
    then obtain row where "row \<in> set (is_events s)" "event_conflicts (event_of e b) row" by (auto simp: list_ex_iff)
    then show ?thesis using True eq Inr known[of row] by (auto simp: event_conflicts_def event_of_def event_place_def)
  next
    case False
    then show ?thesis using eq Inr b(1) new by (auto simp: list_ex_iff)
  qed
qed

lemma record_event_good:
  assumes good: "inspector_good s" and wf: "wf_json (env_payload e)" and run: "record_event e s = (s', r)"
  shows "inspector_good s'"
  using run
proof (cases rule: record_event_cases)
  case (new b)
  have "faithful_row (event_of e b)" using wf new(3) by (auto simp: faithful_row_def event_of_def)
  then show ?thesis using good new by (auto simp: inspector_good_def event_conflicts_def)
qed (use good in auto)

lemma record_event_prefix: "record_event e s = (s', r) \<Longrightarrow> \<exists>rows. is_events s' = is_events s @ rows"
  by (erule record_event_cases) auto

section \<open>The recorder over a history\<close>

lemma recorder_sticky: "rec_error r \<noteq> None \<Longrightarrow> fold recorder_record es r = r"
  by (induction es) (simp_all add: recorder_record_def)

definition observed_in :: "inspector \<Rightarrow> envelope \<Rightarrow> bool" where
  "observed_in s e = (\<exists>row\<in>set (is_events s). ev_message_id row = message_id e \<or>
     event_place row = (source_id e, session_id e, env_sequence e))"

lemma recorder_step:
  assumes "wf_json (env_payload e)" "inspector_good (rec_store r)"
  defines "r' \<equiv> recorder_record e r"
  shows "inspector_good (rec_store r') \<and> (\<exists>rows. is_events (rec_store r') = is_events (rec_store r) @ rows) \<and>
     (rec_error r' = None \<longrightarrow> observed_in (rec_store r') e)"
proof (cases "rec_error r")
  case None
  obtain s' v where run: "record_event e (rec_store r) = (s', v)" by fastforce
  have keep: "inspector_good s'" "\<exists>rows. is_events s' = is_events (rec_store r) @ rows"
    using record_event_good[OF assms(2,1) run] record_event_prefix[OF run] by auto
  have obs: "observed_in s' e" if "v = Inr b" for b
    using run by (cases rule: record_event_cases)
      (use that in \<open>auto simp: observed_in_def event_of_def event_place_def\<close>)
  show ?thesis using None run keep obs by (cases v) (auto simp: r'_def recorder_record_def)
qed (use assms in \<open>simp add: recorder_record_def\<close>)

text \<open>the record is append-only and complete while it is healthy. Over every history of observed messages the rows
  that were there stay in their order, the store keeps its keys unique and each row faithful to its envelope, and as
  long as no recording failed every message of the history has a row with its message id or with its place
  (source, session, sequence number).\<close>

theorem recorder_keeps_history:
  assumes "inspector_good (rec_store r)" "list_all (\<lambda>e. wf_json (env_payload e)) es"
  shows "(\<exists>rows. is_events (rec_store (fold recorder_record es r)) = is_events (rec_store r) @ rows) \<and>
     inspector_good (rec_store (fold recorder_record es r)) \<and>
     (require_healthy (fold recorder_record es r) = Inr () \<longrightarrow>
        list_all (observed_in (rec_store (fold recorder_record es r))) es)"
  using assms
proof (induction es arbitrary: r)
  case (Cons e es)
  let ?r = "recorder_record e r"
  have step: "inspector_good (rec_store ?r)" "\<exists>rows. is_events (rec_store ?r) = is_events (rec_store r) @ rows"
    "rec_error ?r = None \<longrightarrow> observed_in (rec_store ?r) e"
    using recorder_step[of e r] Cons.prems by auto
  have ih: "\<exists>rows. is_events (rec_store (fold recorder_record es ?r)) = is_events (rec_store ?r) @ rows"
    "inspector_good (rec_store (fold recorder_record es ?r))"
    "require_healthy (fold recorder_record es ?r) = Inr () \<longrightarrow> list_all (observed_in (rec_store (fold recorder_record es ?r))) es"
    using Cons.IH[of ?r] step(1) Cons.prems by auto
  have "observed_in (rec_store (fold recorder_record es ?r)) e" if h: "require_healthy (fold recorder_record es ?r) = Inr ()"
  proof -
    have "rec_error ?r = None" using h recorder_sticky[of ?r es] by (cases "rec_error ?r") (auto simp: require_healthy_def split: option.splits)
    then show ?thesis using step(3) ih(1) by (auto simp: observed_in_def)
  qed
  then show ?case using step(2) ih by auto
qed (auto simp: require_healthy_def)

section \<open>Reading\<close>

definition row_document :: "event_row \<Rightarrow> json" where
  "row_document r = (case loads_bytes (ev_envelope r) of Some v \<Rightarrow> v | None \<Rightarrow> JNull)"

lemma faithful_loads:
  assumes "faithful_row r"
  obtains e doc where "r = event_of e (ev_envelope r)" "encode_envelope e = Inr (ev_envelope r)"
    "loads_bytes (ev_envelope r) = Some (JObj doc)" "carries doc (canon_envelope e)" "wf_json (env_payload e)"
proof -
  obtain e where e: "wf_json (env_payload e)" "encode_envelope e = Inr (ev_envelope r)" "r = event_of e (ev_envelope r)"
    using assms by (auto simp: faithful_row_def)
  show ?thesis using that[OF e(3,2) loads_encoded(1)[OF e(2,1)] envelope_members_carry e(1)] .
qed

text \<open>reading back. The events of a store are, newest first and up to the limit, the documents of the rows, and
  each is the canonical document of the envelope that was recorded.\<close>

theorem inspector_events_read_back:
  assumes "inspector_good s" "1 \<le> limit" "limit \<le> 1000"
  shows "inspector_events s limit = Inr (take (nat limit) (rev (map row_document (is_events s)))) \<and>
     (\<forall>r\<in>set (is_events s). \<exists>e doc. r = event_of e (ev_envelope r) \<and> row_document r = JObj doc \<and> carries doc (canon_envelope e))"
proof -
  have ok: "loads_bytes (ev_envelope r) = Some (row_document r)" if "r \<in> set (is_events s)" for r
  proof -
    have "faithful_row r" using assms(1) that by (simp add: inspector_good_def)
    then show ?thesis by (rule faithful_loads) (simp add: row_document_def)
  qed
  have all: "rmap (\<lambda>r. case loads_bytes (ev_envelope r) of None \<Rightarrow> Inl (ValueError ''JSONDecodeError'') | Some v \<Rightarrow> Inr v) rs =
      Inr (map row_document rs)" if "set rs \<subseteq> set (is_events s)" for rs
    using that ok by (induction rs) auto
  have "set (take (nat limit) (rev (is_events s))) \<subseteq> set (is_events s)" by (metis set_rev set_take_subset)
  note read = all[OF this]
  have "\<exists>e doc. r = event_of e (ev_envelope r) \<and> row_document r = JObj doc \<and> carries doc (canon_envelope e)"
    if "r \<in> set (is_events s)" for r
  proof -
    have "faithful_row r" using assms(1) that by (simp add: inspector_good_def)
    then show ?thesis by (rule faithful_loads) (auto simp: row_document_def)
  qed
  then show ?thesis using assms(2,3) read by (simp add: inspector_events_def take_map rev_map)
qed

section \<open>The snapshot\<close>

definition view_step :: "event_row \<Rightarrow> robot_views \<Rightarrow> robot_views" where
  "view_step r = with_view (ev_source_id r) (\<lambda>d.
     let d1 = dict_set (ev_message_type r) (case row_document r of JObj doc \<Rightarrow> the (map_of doc ''payload'') | _ \<Rightarrow> JNull) d in
     if ev_message_type r = ''state''
     then dict_set ''session_id'' (JStr (ev_session_id r)) (dict_set ''state_observed_at_ms'' (JInt (ev_timestamp_ms r)) d1)
     else d1)"

lemma view_event_faithful:
  assumes "faithful_row r"
  shows "view_event r views = Inr (view_step r views)"
proof -
  obtain e doc where e: "r = event_of e (ev_envelope r)" "encode_envelope e = Inr (ev_envelope r)"
    "loads_bytes (ev_envelope r) = Some (JObj doc)" "carries doc (canon_envelope e)"
    using assms by (rule faithful_loads)
  have "ev_source_id r = source_id e" "ev_message_type r = message_type e"
    by (subst e(1), simp add: event_of_def)+
  then show ?thesis
    using e(3,4) by (simp add: view_event_def view_step_def carries_def row_document_def canon_envelope_def Let_def)
qed

lemma view_events_fold: "\<forall>r\<in>set rs. faithful_row r \<Longrightarrow> view_events rs views = Inr (fold view_step rs views)"
  by (induction rs arbitrary: views) (simp_all add: view_event_faithful)

lemma map_of_with_view:
  "map_of (with_view k f views) j =
     (if j = k then Some (f (case map_of views k of None \<Rightarrow> new_view k | Some d \<Rightarrow> d)) else map_of views j)"
  by (induction views) auto

lemma view_step_other: "ev_source_id r \<noteq> k \<Longrightarrow> map_of (view_step r views) k = map_of views k"
  by (simp add: view_step_def map_of_with_view)

text \<open>What the entry of a robot shows of one recorded state.\<close>

definition shows_state :: "event_row \<Rightarrow> (string \<times> json) list \<Rightarrow> bool" where
  "shows_state r d = (map_of d ''robot_id'' = Some (JStr (ev_source_id r)) \<and>
     map_of d ''state'' = Some (case row_document r of JObj doc \<Rightarrow> the (map_of doc ''payload'') | _ \<Rightarrow> JNull) \<and>
     map_of d ''state_observed_at_ms'' = Some (JInt (ev_timestamp_ms r)) \<and>
     map_of d ''session_id'' = Some (JStr (ev_session_id r)))"

definition named_views :: "robot_views \<Rightarrow> bool" where
  "named_views views = (\<forall>k d. map_of views k = Some d \<longrightarrow> map_of d ''robot_id'' = Some (JStr k))"

lemma named_step:
  assumes "named_views views" "ev_message_type r \<in> {''manifest'', ''state''}"
  shows "named_views (view_step r views)"
  using assms by (auto simp: named_views_def view_step_def map_of_with_view Let_def new_view_def split: option.splits if_splits)

lemma fold_shows_state:
  assumes "named_views views" "distinct (map (\<lambda>r. (ev_source_id r, ev_message_type r)) rows)"
    and types: "\<forall>r\<in>set rows. ev_message_type r \<in> {''manifest'', ''state''}"
    and r: "r \<in> set rows" "ev_message_type r = ''state''"
  shows "\<exists>d. map_of (fold view_step rows views) (ev_source_id r) = Some d \<and> shows_state r d"
proof -
  obtain xs ys where rows: "rows = xs @ r # ys" using r(1) by (meson split_list)
  have "named_views (fold view_step zs vs)" if "named_views vs" "set zs \<subseteq> set rows" for zs vs
    using that types by (induction zs arbitrary: vs) (auto intro!: named_step)
  then have named: "named_views (fold view_step xs views)" using assms(1) rows by auto
  have start: "\<exists>d. map_of (view_step r vs) (ev_source_id r) = Some d \<and> shows_state r d" if "named_views vs" for vs
    using that r(2) unfolding shows_state_def
    by (auto simp: view_step_def map_of_with_view Let_def new_view_def named_views_def split: option.splits)
  have keep: "\<exists>d. map_of (view_step q vs) (ev_source_id r) = Some d \<and> shows_state r d"
    if vs: "\<exists>d. map_of vs (ev_source_id r) = Some d \<and> shows_state r d" and q: "q \<in> set ys" for q vs
  proof (cases "ev_source_id q = ev_source_id r")
    case True
    have "(ev_source_id r, ev_message_type r) \<notin> (\<lambda>r. (ev_source_id r, ev_message_type r)) ` set ys"
      using assms(2) by (simp add: rows)
    then have "(ev_source_id q, ev_message_type q) \<noteq> (ev_source_id r, ev_message_type r)"
      using imageI[OF q, of "\<lambda>r. (ev_source_id r, ev_message_type r)"] by metis
    then have "ev_message_type q = ''manifest''" using True types rows q r(2) by auto
    then show ?thesis using vs True by (auto simp: view_step_def map_of_with_view shows_state_def)
  qed (use vs in \<open>simp add: view_step_other\<close>)
  have "\<exists>d. map_of (fold view_step zs vs) (ev_source_id r) = Some d \<and> shows_state r d"
    if "\<exists>d. map_of vs (ev_source_id r) = Some d \<and> shows_state r d" "set zs \<subseteq> set ys" for zs vs
    using that
  proof (induction zs arbitrary: vs)
    case (Cons z zs)
    show ?case using Cons.IH[OF keep[OF Cons.prems(1), of z]] Cons.prems(2) by simp
  qed simp
  from this[OF start[OF named], of ys] show ?thesis by (simp add: rows)
qed

lemma distinct_latest_by: "distinct (map key (latest_by key rs))"
proof (induction rs)
  case (Cons r rs)
  have "set (latest_by key rs) \<subseteq> set rs" by (induction rs) auto
  then show ?case using Cons by auto
qed simp

lemma set_latest_by: "set (latest_by key rs) \<subseteq> set rs"
  by (induction rs) auto

lemma latest_by_last: "latest_by key (rs @ [r]) = filter (\<lambda>x. key x \<noteq> key r) (latest_by key rs) @ [r]"
  by (induction rs) auto

lemma shows_state_dict_set:
  "k \<notin> {''robot_id'', ''state'', ''state_observed_at_ms'', ''session_id''} \<Longrightarrow> shows_state r (dict_set k v d) = shows_state r d"
  by (auto simp: shows_state_def)

lemma view_reconnects_shows:
  "map_of views k = Some d \<Longrightarrow> shows_state r d \<Longrightarrow> \<exists>d'. map_of (view_reconnects s views) k = Some d' \<and> shows_state r d'"
  by (induction views) (auto simp: view_reconnects_def shows_state_dict_set)

lemma view_reports_shows:
  "view_reports rs views = Inr views' \<Longrightarrow> map_of views k = Some d \<Longrightarrow> shows_state r d \<Longrightarrow>
   \<exists>d'. map_of views' k = Some d' \<and> shows_state r d'"
proof (induction rs arbitrary: views d)
  case (Cons x rs)
  obtain v1 where v1: "view_report x views = Inr v1" "view_reports rs v1 = Inr views'"
    using Cons.prems(1) by (auto simp: res_simps)
  obtain report where "v1 = with_view (rr_robot_id x) (dict_set ''integration'' report) views"
    using v1(1) by (auto simp: view_report_def res_simps split: option.splits)
  then have "\<exists>d'. map_of v1 k = Some d' \<and> shows_state r d'"
    using Cons.prems(2,3) by (auto simp: map_of_with_view shows_state_dict_set)
  then show ?case using Cons.IH[OF v1(2)] by blast
qed simp

lemma distinct_sort_key [simp]: "distinct (map f (sort_key g xs)) \<longleftrightarrow> distinct (map f xs)"
  by (metis mset_eq_imp_distinct_iff mset_map mset_sort)


text \<open>what an operator sees. Right after a state message was recorded, a snapshot that is returned lists the robot
  with the payload of that state, the time of its observation and its session, whatever was recorded before.\<close>

lemma snapshot_shows_latest_state:
  assumes good: "inspector_good s" and wf: "wf_json (env_payload e)" and state: "message_type e = ''state''"
    and run: "record_event e s = (s', Inr True)" and snap: "inspector_snapshot s' limit = Inr v"
  shows "\<exists>robots d. jitem v ''robots'' = Inr (JArr robots) \<and> JObj d \<in> set robots \<and>
     map_of d ''robot_id'' = Some (JStr (source_id e)) \<and> map_of d ''state'' = Some (canon (env_payload e)) \<and>
     map_of d ''state_observed_at_ms'' = Some (JInt (timestamp_ms e)) \<and> map_of d ''session_id'' = Some (JStr (session_id e))"
proof -
  obtain b where b: "encode_envelope e = Inr b" and s': "s' = s\<lparr>is_events := is_events s @ [event_of e b]\<rparr>"
    using run by (cases rule: record_event_cases) auto
  let ?r = "event_of e b"
  let ?key = "\<lambda>r. (ev_source_id r, ev_message_type r)"
  have good': "inspector_good s'" by (rule record_event_good[OF good wf run])
  have inset: "set (latest_events s') \<subseteq> set (is_events s')"
    using set_latest_by[of ?key "is_events s'"] by (auto simp: latest_events_def)
  then have faith: "\<forall>r\<in>set (latest_events s'). faithful_row r" using good' by (auto simp: inspector_good_def)
  have r: "?r \<in> set (latest_events s')" "ev_message_type ?r = ''state''"
    using state by (auto simp: latest_events_def s' latest_by_last event_of_def)
  have dist: "distinct (map ?key (latest_events s'))"
    by (simp add: latest_events_def distinct_map_filter distinct_latest_by)
  have types: "\<forall>r\<in>set (latest_events s'). ev_message_type r \<in> {''manifest'', ''state''}"
    by (auto simp: latest_events_def)
  have "named_views []" by (simp add: named_views_def)
  then obtain d where d: "map_of (fold view_step (latest_events s') []) (ev_source_id ?r) = Some d" "shows_state ?r d"
    using fold_shows_state[OF _ dist types r] by blast
  obtain views robots lab events where p: "view_events (latest_events s') [] = Inr views"
    "view_reports (latest_by rr_robot_id (case is_reports s' of None \<Rightarrow> [] | Some rs \<Rightarrow> rs)) (view_reconnects s' views) = Inr robots"
    "v = JObj [(''robots'', JArr (map (\<lambda>kd. JObj (snd kd)) (sort_key fst robots))), (''events'', JArr events),
       (''event_count'', JInt (int (length (is_events s')))), (''lab_events'', JArr lab)]"
    using snap unfolding inspector_snapshot_def rbind_Inr_iff by auto
  have views: "views = fold view_step (latest_events s') []" using p(1) view_events_fold[OF faith] by simp
  obtain d1 where d1: "map_of robots (ev_source_id ?r) = Some d1" "shows_state ?r d1"
    using view_reconnects_shows[of views "ev_source_id ?r" d ?r s'] d view_reports_shows[OF p(2)] unfolding views by blast
  have doc: "row_document ?r = JObj (sort_key fst (map (\<lambda>(k, v). (k, canon v)) (envelope_members e)))"
    using loads_encoded(1)[OF b wf] by (simp add: row_document_def event_of_def)
  have "carries (sort_key fst (map (\<lambda>(k, v). (k, canon v)) (envelope_members e))) (canon_envelope e)"
    by (rule envelope_members_carry)
  then have "map_of d1 ''state'' = Some (canon (env_payload e))"
    using d1(2) doc by (simp add: shows_state_def carries_def canon_envelope_def)
  moreover have "JObj d1 \<in> (\<lambda>kd. JObj (snd kd)) ` set robots" using map_of_SomeD[OF d1(1)] by force
  ultimately show ?thesis using d1(2) unfolding p(3) by (auto simp: shows_state_def event_of_def)
qed

section \<open>What the recorder loses\<close>

definition shown_plan :: envelope where
  "shown_plan = make_envelope ''m1'' ''plan'' ''arm'' ''boot-1'' 1 10 (JObj [(''x'', JInt 1)]) None OPERATIONAL_STREAM"

definition shown_stop :: envelope where
  "shown_stop = make_envelope ''m2'' ''state'' ''arm'' ''boot-1'' 1 11 (JObj [(''safety'', JStr ''emergency_stop'')]) None SAFETY_STREAM"

definition shown_state :: envelope where
  "shown_state = make_envelope ''m3'' ''state'' ''arm'' ''boot-1'' 2 12 (JObj [(''mode'', JStr ''idle'')]) None OPERATIONAL_STREAM"

definition shown_late :: envelope where
  "shown_late = make_envelope ''m4'' ''outcome'' ''arm'' ''boot-1'' 3 9223372036854775808 (JObj []) None OPERATIONAL_STREAM"


text \<open>a message with a time beyond 64 bits that the codec accepts stops the recorder: it is not recorded, whatever
  follows is not recorded, and \<open>require_healthy\<close> raises for ever, which ends the node.\<close>

theorem late_message_stops_recorder:
  assumes "encode_envelope e = Inr b" "valid_envelope e" "2 ^ 63 \<le> timestamp_ms e" "rec_error r = None"
  shows "decode_envelope b = Inr (canon_envelope e) \<and>
     (\<exists>err. require_healthy (fold recorder_record (e # es) r) = Inl err) \<and>
     rec_store (fold recorder_record (e # es) r) = rec_store r"
proof -
  have wf: "wf_json (env_payload e)" "valid_envelope (canon_envelope e)"
    using assms(2) valid_canon_envelope by (auto simp: valid_envelope_def)
  have no: "sql_int (timestamp_ms e) = Inl (RuntimeError ''OverflowError'')"
    using assms(3) by (simp add: sql_int_def require_def)
  have "\<exists>err. record_event e s = (s, Inl err)" for s
    using assms(1) no by (auto simp: record_event_def rbind_def split: sum.splits)
  then obtain err where err: "record_event e (rec_store r) = (rec_store r, Inl err)" by blast
  let ?r = "recorder_record e r"
  have r: "rec_error ?r = Some err" "rec_store ?r = rec_store r"
    using err assms(4) by (auto simp: recorder_record_def)
  then have "fold recorder_record (e # es) r = ?r" using recorder_sticky[of ?r es] by simp
  then show ?thesis using r decode_encoded[OF assms(1) wf(1)] wf(2) by (simp add: require_healthy_def)
qed

lemma document_order: "sort_key fst [(''protocol'', a :: json), (''message_id'', b), (''message_type'', c), (''source_id'', d),
    (''session_id'', e), (''sequence'', f), (''timestamp_ms'', g), (''correlation_id'', h), (''payload'', i)] =
  [(''correlation_id'', h), (''message_id'', b), (''message_type'', c), (''payload'', i), (''protocol'', a), (''sequence'', f),
   (''session_id'', e), (''source_id'', d), (''timestamp_ms'', g)]"
  by code_simp

lemma shown_late_encodes: "\<exists>b. encode_envelope shown_late = Inr b"
proof -
  let ?doc = "\<lambda>t. JObj [(''correlation_id'', JNull), (''message_id'', JStr ''m4''), (''message_type'', JStr ''outcome''),
    (''payload'', JObj []), (''protocol'', JStr ''ump/0.1''), (''sequence'', JInt 3), (''session_id'', JStr ''boot-1''),
    (''source_id'', JStr ''arm''), (''timestamp_ms'', t)]"
  have time: "show_int 9223372036854775808 = ''9223372036854775808''"
    by (simp add: show_int_def show_nat.simps digit_char_def char_of_def bit_iff_odd push_bit_eq_mult drop_bit_eq_div)
  have "sort_key fst [] = ([] :: (string \<times> json) list)" by simp
  then have canon: "canon (envelope_document shown_late) = ?doc (JInt 9223372036854775808)"
    by (simp add: envelope_document_def shown_late_def make_envelope_def document_order json_opt_str_def
        PROTOCOL_VERSION_def del: sort_key_simps)
  have dumps: "json_dumps (envelope_document shown_late) = print_json (?doc (JFloat ''9223372036854775808''))"
    unfolding json_dumps_def canon by (simp add: time)
  have "utf8_valid (print_json (?doc (JFloat ''9223372036854775808''))) \<and>
      length (print_json (?doc (JFloat ''9223372036854775808''))) \<le> MAX_MESSAGE_BYTES" by code_simp
  then show ?thesis
    unfolding encode_envelope_Inr dumps by (simp add: shown_late_def make_envelope_def STREAMS_def OPERATIONAL_STREAM_def SAFETY_STREAM_def)
qed

theorem late_message_stops_recorder_witness:
  "\<exists>b err. encode_envelope shown_late = Inr b \<and> decode_envelope b = Inr (canon_envelope shown_late) \<and>
     require_healthy (fold recorder_record [shown_late, shown_stop] (new_recorder empty_inspector)) = Inl err"
proof -
  obtain b where b: "encode_envelope shown_late = Inr b" using shown_late_encodes by blast
  have v: "valid_envelope shown_late" by code_simp
  have t: "2 ^ 63 \<le> timestamp_ms shown_late" by (simp add: shown_late_def make_envelope_def)
  have r: "rec_error (new_recorder empty_inspector) = None" by (simp add: new_recorder_def)
  show ?thesis using late_message_stops_recorder[OF b v t r, of "[shown_stop]"] b by blast
qed

theorem recorder_keeps_history_witness:
  "observed_in (rec_store (fold recorder_record [shown_plan, shown_state] (new_recorder empty_inspector))) shown_state \<and>
   inspector_good (rec_store (fold recorder_record [shown_plan, shown_state] (new_recorder empty_inspector)))"
proof -
  have good: "inspector_good (rec_store (new_recorder empty_inspector))" by (simp add: new_recorder_def)
  have wf: "list_all (\<lambda>e. wf_json (env_payload e)) [shown_plan, shown_state]"
    by (simp add: shown_plan_def shown_state_def make_envelope_def)
  have ok: "require_healthy (fold recorder_record [shown_plan, shown_state] (new_recorder empty_inspector)) = Inr ()" by code_simp
  show ?thesis using recorder_keeps_history[OF good wf] ok by simp
qed

definition shown_store :: inspector where
  "shown_store = fst (record_event shown_plan empty_inspector)"

lemma shown_store_good: "inspector_good shown_store"
proof -
  obtain s r where run: "record_event shown_plan empty_inspector = (s, r)" by fastforce
  have "wf_json (env_payload shown_plan)" by (simp add: shown_plan_def make_envelope_def)
  from record_event_good[OF empty_good this run] show ?thesis by (simp add: shown_store_def run)
qed

theorem inspector_events_read_back_witness:
  "inspector_events shown_store 7 = Inr (take 7 (rev (map row_document (is_events shown_store)))) \<and> length (is_events shown_store) = 1"
proof -
  have one: "length (is_events shown_store) = 1" by code_simp
  show ?thesis using inspector_events_read_back[OF shown_store_good, of 7] one by simp
qed

theorem snapshot_shows_latest_state_witness:
  "\<exists>v robots d. inspector_snapshot (fst (record_event shown_state shown_store)) 5 = Inr v \<and> jitem v ''robots'' = Inr (JArr robots) \<and>
     JObj d \<in> set robots \<and> map_of d ''state'' = Some (JObj [(''mode'', JStr ''idle'')])"
proof -
  let ?s = "fst (record_event shown_state shown_store)"
  have wf: "wf_json (env_payload shown_state)" and st: "message_type shown_state = ''state''"
    and c: "canon (env_payload shown_state) = JObj [(''mode'', JStr ''idle'')]"
    by (simp_all add: shown_state_def make_envelope_def)
  have "snd (record_event shown_state shown_store) = Inr True" by code_simp
  then have run: "record_event shown_state shown_store = (?s, Inr True)" by (metis prod.collapse)
  have "is_ok (inspector_snapshot ?s 5)" by code_simp
  then obtain v where v: "inspector_snapshot ?s 5 = Inr v" by (auto simp: is_ok_iff)
  show ?thesis using snapshot_shows_latest_state[OF shown_store_good wf st run v] v unfolding c by blast
qed

section \<open>The server\<close>

text \<open>with a token configured nobody reads anything without it. A request that is answered with anything but 401
  carried a basic authorization whose decoded text is \<open>ump:\<close> and the token.\<close>

theorem inspector_requires_token:
  assumes "do_GET b64decode read_static s (Some token) header path limit = Inr response" "response \<noteq> Unauthorized"
  shows "\<exists>scheme encoded. py_partition '' '' header = (scheme, '' '', encoded) \<and> map to_lower scheme = ''basic'' \<and>
     b64decode encoded = Some (''ump:'' @ token)"
proof -
  have sep: "m = [] \<or> m = sep" "m = sep \<Longrightarrow> x = a @ sep @ b"
    if "py_partition sep x = (a, m, b)" for sep x a m b
    using that
  proof (induction x arbitrary: a)
    case (Cons c cs)
    { case 1 then show ?case using Cons(1) by (auto split: if_splits prod.splits) }
    { case 2 then show ?case using Cons(2)
        by (cases "take (length sep) (c # cs) = sep") (auto split: prod.splits, metis append_take_drop_id) }
  qed auto
  have "authorized b64decode header token = Inr True"
    using assms by (auto simp: do_GET_def res_simps split: if_splits)
  then obtain scheme separator encoded bytes username colon t where p: "py_partition '' '' header = (scheme, separator, encoded)"
    "separator \<noteq> []" "map to_lower scheme = ''basic''" "b64decode encoded = Some bytes"
    "py_partition '':'' bytes = (username, colon, t)" "colon \<noteq> []" "username = ''ump''" "compare_digest t token = Inr True"
    by (auto simp: authorized_def Let_def split: prod.splits if_splits option.splits)
  have "t = token" using p(8) by (auto simp: compare_digest_def split: if_splits)
  moreover have "separator = '' ''" "colon = '':''" using sep(1)[OF p(1)] sep(1)[OF p(5)] p(2,6) by auto
  ultimately show ?thesis using p sep(2)[OF p(5)] by auto
qed

theorem inspector_requires_token_witness:
  "py_partition '' '' ''Basic dHdv'' = (''Basic'', '' '', ''dHdv'') \<and>
   (\<exists>encoded. (if encoded = ''dHdv'' then Some ''ump:secret'' else None) = Some (''ump:'' @ ''secret''))"
proof -
  let ?b64 = "\<lambda>x. if x = ''dHdv'' then Some ''ump:secret'' else None"
  have run: "do_GET ?b64 (\<lambda>_. Inl (RuntimeError ''OSError'')) empty_inspector (Some ''secret'') ''Basic dHdv'' ''/x'' (Inr 1) = Inr NotFound"
    by code_simp
  show ?thesis using inspector_requires_token[OF run] by (auto simp: to_lower_def)
qed

text \<open>A token with a character beyond ASCII passes the check of the constructor, but no request with a well-formed
  authorization is ever answered: the comparison raises.\<close>

lemma non_ascii_token_never_answers:
  assumes "\<not> list_all (\<lambda>c. of_char c < (128 :: nat)) token" "authorized b64decode header token = Inr ok"
  shows "\<not> ok"
  using assms by (auto simp: authorized_def Let_def compare_digest_def split: prod.splits if_splits option.splits)

text \<open>A server that listens beyond the loopback interface has a token of at least 32 bytes and TLS.\<close>

lemma remote_inspector_is_protected:
  assumes "inspector_server_init host allow_remote token has_certificate has_key = Inr ()"
    and "host \<notin> {''127.0.0.1'', ''::1'', ''localhost''}"
  shows "allow_remote \<and> has_certificate \<and> has_key \<and> (\<exists>t. token = Some t \<and> 32 \<le> length t)"
  using assms by (auto simp: inspector_server_init_def res_simps Let_def split: option.splits)

end
