(* ===== verification/Operations.thy ===== *)
theory Operations
  imports Network_Codec
begin

text \<open>
  \<open>operations.py\<close> and \<open>goal.py\<close>: the health state that a supervisor polls with the answers of its endpoints, and the
  parsing of goal documents. The JSON schema validators of goals are arguments; \<open>type(error).__name__\<close> and
  \<open>str(error)\<close> are given with the failed check.
\<close>

section \<open>The monitor\<close>

record monitor =
  mo_healthy :: bool
  mo_ready :: bool
  mo_started_at_ms :: int
  mo_checks :: int
  mo_failures :: int
  mo_last_error :: "string option"

definition monitor_init :: "int \<Rightarrow> monitor" where
  "monitor_init now = \<lparr>mo_healthy = True, mo_ready = False, mo_started_at_ms = now, mo_checks = 0, mo_failures = 0,
     mo_last_error = None\<rparr>"

definition monitor_ready :: "monitor \<Rightarrow> monitor" where
  "monitor_ready m = m\<lparr>mo_ready := True\<rparr>"

definition monitor_stopping :: "monitor \<Rightarrow> monitor" where
  "monitor_stopping m = m\<lparr>mo_ready := False\<rparr>"

definition check_passed :: "monitor \<Rightarrow> monitor" where
  "check_passed m = m\<lparr>mo_checks := mo_checks m + 1, mo_healthy := True, mo_last_error := None\<rparr>"

text \<open>\<open>text[:512]\<close> cuts after 512 characters.\<close>

definition py_prefix :: "nat \<Rightarrow> string \<Rightarrow> string" where
  "py_prefix n s = text_of (take n (codepoints s))"

definition check_failed :: "string \<Rightarrow> string \<Rightarrow> monitor \<Rightarrow> monitor" where
  "check_failed type_name message m = m\<lparr>mo_checks := mo_checks m + 1, mo_failures := mo_failures m + 1,
     mo_healthy := False, mo_ready := False, mo_last_error := Some (py_prefix 512 (type_name @ '': '' @ message))\<rparr>"

section \<open>The endpoints\<close>

datatype supervisor_answer =
    Answer nat string string
  | UnknownPath

definition gauge :: "bool \<Rightarrow> string" where
  "gauge b = (if b then ''1'' else ''0'')"

definition metrics_text :: "monitor \<Rightarrow> string" where
  "metrics_text m = ''# TYPE ump_service_healthy gauge'' @ [CHR 0x0A] @ ''ump_service_healthy '' @ gauge (mo_healthy m) @ [CHR 0x0A] @
     ''# TYPE ump_service_ready gauge'' @ [CHR 0x0A] @ ''ump_service_ready '' @ gauge (mo_ready m) @ [CHR 0x0A] @
     ''# TYPE ump_runtime_checks_total counter'' @ [CHR 0x0A] @ ''ump_runtime_checks_total '' @ show_int (mo_checks m) @ [CHR 0x0A] @
     ''# TYPE ump_runtime_failures_total counter'' @ [CHR 0x0A] @ ''ump_runtime_failures_total '' @ show_int (mo_failures m) @ [CHR 0x0A]"

definition probe_answer :: "string \<Rightarrow> bool \<Rightarrow> supervisor_answer" where
  "probe_answer name b = Answer (if b then 200 else 503) ''application/json; charset=utf-8'' (json_dumps_ascii (JObj [(name, JBool b)]))"

definition supervisor_get :: "string \<Rightarrow> monitor \<Rightarrow> supervisor_answer" where
  "supervisor_get path m =
     (if path = ''/healthz'' then probe_answer ''healthy'' (mo_healthy m)
      else if path = ''/readyz'' then probe_answer ''ready'' (mo_ready m)
      else if path = ''/metrics'' then Answer 200 ''text/plain; version=0.0.4'' (metrics_text m)
      else UnknownPath)"

section \<open>The server of the endpoints\<close>

text \<open>\<open>OperationsServer\<close>: whether its thread runs and whether its socket is closed.\<close>

record probe_server =
  ps_running :: bool
  ps_socket_closed :: bool

definition probe_start :: "probe_server \<Rightarrow> probe_server \<times> unit res" where
  "probe_start s = (if ps_running s then (s, Inl (RuntimeError ''operations server is already running''))
     else (s\<lparr>ps_running := True\<rparr>, Inr ()))"

definition probe_close :: "probe_server \<Rightarrow> probe_server" where
  "probe_close s = s\<lparr>ps_running := False, ps_socket_closed := True\<rparr>"

section \<open>What a supervisor learns\<close>

datatype monitor_event = MeReady | MeStopping | MePassed | MeFailed string string

fun monitor_step :: "monitor_event \<Rightarrow> monitor \<Rightarrow> monitor" where
  "monitor_step MeReady m = monitor_ready m"
| "monitor_step MeStopping m = monitor_stopping m"
| "monitor_step MePassed m = check_passed m"
| "monitor_step (MeFailed t e) m = check_failed t e m"

definition is_check :: "monitor_event \<Rightarrow> bool" where
  "is_check e = (case e of MePassed \<Rightarrow> True | MeFailed _ _ \<Rightarrow> True | _ \<Rightarrow> False)"

definition is_failure :: "monitor_event \<Rightarrow> bool" where
  "is_failure e = (case e of MeFailed _ _ \<Rightarrow> True | _ \<Rightarrow> False)"

text \<open>The last event of a kind: \<open>None\<close> if there is none.\<close>

definition last_of_kind :: "(monitor_event \<Rightarrow> bool) \<Rightarrow> monitor_event list \<Rightarrow> monitor_event option" where
  "last_of_kind P es = find P (rev es)"

text \<open>the monitor reports its history. It counts the checks and the failures exactly; it is healthy unless the last
  check failed; and it is ready exactly if the last event that is no passed check was a call of \<open>ready\<close>, so a failure
  makes the service unready until \<open>ready\<close> is called again, however many checks pass. \<open>/healthz\<close> and \<open>/readyz\<close>
  answer 200 in exactly these cases.\<close>

theorem monitor_reports_history:
  "let m = fold monitor_step es (monitor_init now);
       healthy = (case last_of_kind is_check es of None \<Rightarrow> True | Some e \<Rightarrow> \<not> is_failure e);
       live = (last_of_kind (\<lambda>e. e \<noteq> MePassed) es = Some MeReady) in
   mo_checks m = int (length (filter is_check es)) \<and> mo_failures m = int (length (filter is_failure es)) \<and>
   mo_healthy m = healthy \<and> mo_ready m = live \<and> (mo_last_error m = None) = healthy \<and> mo_started_at_ms m = now \<and>
   supervisor_get ''/healthz'' m = probe_answer ''healthy'' healthy \<and> supervisor_get ''/readyz'' m = probe_answer ''ready'' live"
proof (induction es rule: rev_induct)
  case (snoc e es)
  then show ?case
    by (cases e) (simp_all add: Let_def last_of_kind_def is_check_def is_failure_def monitor_ready_def monitor_stopping_def
        check_passed_def check_failed_def supervisor_get_def)
qed (simp add: Let_def last_of_kind_def monitor_init_def supervisor_get_def)

lemma metrics_never_fail: "supervisor_get ''/metrics'' m = Answer 200 ''text/plain; version=0.0.4'' (metrics_text m)"
  by (simp add: supervisor_get_def)

section \<open>Goal documents\<close>

definition shared_goal_from_document :: "(json \<Rightarrow> unit res) \<Rightarrow> json \<Rightarrow> shared_goal res" where
  "shared_goal_from_document validate document = rbind (validate document) (\<lambda>_. decode_goal_value document)"

definition shared_goals_from_document :: "(json \<Rightarrow> unit res) \<Rightarrow> (json \<Rightarrow> unit res) \<Rightarrow> json \<Rightarrow> shared_goal list res" where
  "shared_goals_from_document validate validate_batch document =
     rbind (validate_batch document) (\<lambda>_.
     rbind (rbind (py_iter document) (rmap (shared_goal_from_document validate))) (\<lambda>goals.
     rbind (require (distinct (map goal_id goals)) (ValueError ''goal batch IDs must be unique'')) (\<lambda>_.
     Inr goals)))"

definition goal_validation_report :: "(json \<Rightarrow> unit res) \<Rightarrow> (json \<Rightarrow> unit res) \<Rightarrow> json \<Rightarrow> bool \<Rightarrow> json res" where
  "goal_validation_report validate validate_batch document batch =
     rbind (if batch then shared_goals_from_document validate validate_batch document
            else rbind (shared_goal_from_document validate document) (\<lambda>g. Inr [g])) (\<lambda>goals.
     Inr (JObj [(''valid'', JBool True),
       (''profile'', JStr (if batch then ''ump.shared-goal-batch/v1'' else ''ump.shared-goal/v1'')),
       (''goals'', JInt (int (length goals))),
       (''goal_ids'', JArr (map (\<lambda>g. JStr (goal_id g)) goals)),
       (''participants'', JArr (map JStr (sort (remdups (concat (map participant_ids goals)))))),
       (''deadlines_present'', JInt (int (length (filter (\<lambda>g. goal_deadline_ms g \<noteq> None) goals))))]))"

lemma goal_batch_matches_document:
  assumes "shared_goals_from_document validate validate_batch (JArr items) = Inr goals"
  shows "distinct (map goal_id goals) \<and>
     list_all2 (\<lambda>item g. validate item = Inr () \<and> decode_goal_value item = Inr g \<and> post_init_shared_goal g = Inr g) items goals"
proof -
  have post: "post_init_shared_goal g = Inr h \<Longrightarrow> h = g" for g h
    by (auto simp: post_init_shared_goal_def res_simps)
  have dec: "post_init_shared_goal g = Inr g" if d: "decode_goal_value item = Inr g" for item g
  proof -
    obtain h where "post_init_shared_goal h = Inr g" using d unfolding decode_goal_value_def rbind_Inr_iff by blast
    then show ?thesis using post by metis
  qed
  show ?thesis
    using assms dec
    by (auto simp: shared_goals_from_document_def shared_goal_from_document_def res_simps py_iter_def elim!: list_all2_mono)
qed

section \<open>Loading adapters and planners\<close>

text \<open>The syntax \<open>module:attribute\<close>. What importing finds, whether it is callable, what it returns and whether that
  implements the protocol are arguments.\<close>

definition split_specification :: "string \<Rightarrow> string \<Rightarrow> (string \<times> string) res" where
  "split_specification message specification =
     (let (module_name, separator, attribute_name) = py_partition '':'' specification in
      if separator = [] \<or> module_name = [] \<or> attribute_name = [] then Inl (ValueError message)
      else Inr (module_name, attribute_name))"

definition load_factory ::
  "(string \<Rightarrow> string \<Rightarrow> 'f option res) \<Rightarrow> ('f \<Rightarrow> bool) \<Rightarrow> string \<Rightarrow> string \<Rightarrow> 'f res" where
  "load_factory import_attribute callable kind specification =
     rbind (split_specification (kind @ '' must use module:factory syntax'') specification) (\<lambda>(module_name, attribute_name).
     rbind (import_attribute module_name attribute_name) (\<lambda>found.
     case found of
       None \<Rightarrow> Inl (ValueError (kind @ '' factory cannot be loaded: '' @ specification))
     | Some factory \<Rightarrow> rbind (require (callable factory) (ValueError (kind @ '' factory must be callable''))) (\<lambda>_. Inr factory)))"

definition load_adapter ::
  "(string \<Rightarrow> string \<Rightarrow> 'f option res) \<Rightarrow> ('f \<Rightarrow> bool) \<Rightarrow> ('f \<Rightarrow> string option \<Rightarrow> 'o res) \<Rightarrow> ('o \<Rightarrow> bool) \<Rightarrow>
   string \<Rightarrow> string option \<Rightarrow> 'o res" where
  "load_adapter import_attribute callable call is_adapter specification config_path =
     rbind (load_factory import_attribute callable ''adapter'' specification) (\<lambda>factory.
     rbind (call factory config_path) (\<lambda>adapter.
     rbind (require (is_adapter adapter) (TypeError ''adapter factory did not return a RobotAdapter'')) (\<lambda>_. Inr adapter)))"

definition load_planner ::
  "(string \<Rightarrow> string \<Rightarrow> 'f option res) \<Rightarrow> ('f \<Rightarrow> bool) \<Rightarrow> ('f \<Rightarrow> string option \<Rightarrow> 'o res) \<Rightarrow> ('o \<Rightarrow> bool) \<Rightarrow>
   ('o \<Rightarrow> string option) \<Rightarrow> string \<Rightarrow> string option \<Rightarrow> 'o res" where
  "load_planner import_attribute callable call is_planner planner_name specification config_path =
     rbind (load_factory import_attribute callable ''planner'' specification) (\<lambda>factory.
     rbind (call factory config_path) (\<lambda>planner.
     rbind (require (is_planner planner) (TypeError ''planner factory did not return a Planner'')) (\<lambda>_.
     rbind (require (case planner_name planner of None \<Rightarrow> False | Some n \<Rightarrow> \<not> py_blank n)
              (ValueError ''planner_id must be non-empty'')) (\<lambda>_. Inr planner))))"

lemma load_adapter_checks:
  assumes "load_adapter import_attribute callable call is_adapter specification config_path = Inr adapter"
  shows "is_adapter adapter \<and> (\<exists>m a f. split_specification ''adapter must use module:factory syntax'' specification = Inr (m, a) \<and>
     import_attribute m a = Inr (Some f) \<and> callable f \<and> call f config_path = Inr adapter)"
  using assms by (auto simp: load_adapter_def load_factory_def res_simps split: option.splits)

section \<open>The report on a network configuration\<close>

definition peer_report :: "peer_endpoint \<Rightarrow> json" where
  "peer_report p = JObj
     [(''robot_id'', JStr (pe_robot_id p)), (''certificate_pinned'', JBool (pe_certificate_sha256 p \<noteq> None)),
      (''allowed_message_types'', JArr (map JStr (pe_allowed_message_types p))),
      (''allowed_capabilities'', JArr (map JStr (pe_allowed_capabilities p)))]"

definition validate_network_config :: "network_config res \<Rightarrow> json res" where
  "validate_network_config loaded = rbind loaded (\<lambda>c.
     Inr (JObj [(''valid'', JBool True), (''profile'', JStr ''ump.network-config/v1''), (''robot_id'', JStr (nc_robot_id c)),
       (''bind_host'', JStr (nc_bind_host c)), (''bind_port'', JInt (nc_bind_port c)),
       (''configured_peers'', JInt (int (length (nc_peers c)))), (''peer_policies'', JArr (map peer_report (nc_peers c))),
       (''delivery'', JObj [(''maximum_pending_deliveries'', JInt (nc_maximum_pending c)),
          (''reserved_safety_deliveries'', JInt (nc_reserved_safety c)), (''timeout_seconds'', nc_timeout c)])]))"

text \<open>The report on a configuration names neither a key file, nor a fingerprint, nor a host of a peer: two configurations
  that differ in nothing else give the same report.\<close>

lemma network_report_has_no_secrets:
  "validate_network_config (Inr c) = validate_network_config (Inr (c\<lparr>nc_private_key_path := k, nc_certificate_path := p,
     nc_peers := map (\<lambda>e. e\<lparr>pe_host := h, pe_certificate_sha256 := map_option (\<lambda>_. f) (pe_certificate_sha256 e)\<rparr>) (nc_peers c)\<rparr>))"
  by (simp add: validate_network_config_def peer_report_def comp_def)

end
