(* ===== verification/Coordinator_Service.thy ===== *)
theory Coordinator_Service
  imports Coordinator
begin

text \<open>
  \<open>coordinator_node.py\<close>: the service that waits for participants, submits goals to the coordinator and waits for
  their runs. Its state is the coordinator with two clocks, the wall clock in milliseconds and the monotonic clock,
  whose seconds are counted here in nanoseconds. Other threads, above all the network bus with the handlers of the
  coordinator, run while the service calls its health check and while it waits: both are computations on the whole
  state, given as arguments. \<open>Event.wait(d)\<close> answers whether the event was set. A loop takes fuel, one unit for
  each round; \<open>None\<close> is a loop that did not end within it.
\<close>

section \<open>State and effects\<close>

record service =
  sv_coordinator :: coordinator
  sv_now_ms :: int
  sv_monotonic :: int
  sv_poll :: int
  sv_stop :: bool
  sv_started :: bool
  sv_closed :: bool

type_synonym 'a sm = "(service, envelope, 'a) act"
type_synonym 'a fm = "service \<Rightarrow> (service \<times> envelope list \<times> 'a res) option"

record service_env =
  se_coordinator :: co_env
  se_health :: "unit sm"
  se_wait :: "int \<Rightarrow> bool sm"
  se_bus_start :: "(string \<times> int) sm"
  se_bus_stop :: "unit sm"

definition on_coordinator :: "'a cm \<Rightarrow> 'a sm" where
  "on_coordinator f s = (case f (sv_coordinator s) of (c, es, r) \<Rightarrow> (s\<lparr>sv_coordinator := c\<rparr>, es, r))"

definition once :: "'a sm \<Rightarrow> 'a fm" where
  "once f s = Some (f s)"

definition fbind :: "'a fm \<Rightarrow> ('a \<Rightarrow> 'b fm) \<Rightarrow> 'b fm" where
  "fbind f g s = (case f s of
      None \<Rightarrow> None
    | Some (s1, es1, Inl e) \<Rightarrow> Some (s1, es1, Inl e)
    | Some (s1, es1, Inr x) \<Rightarrow> map_option (\<lambda>(s2, es2, r). (s2, es1 @ es2, r)) (g x s1))"

definition interrupted :: error where
  "interrupted = RuntimeError ''InterruptedError''"

definition context_timeout :: error where
  "context_timeout = RuntimeError ''ParticipantContextTimeout''"

definition completion_timeout :: error where
  "completion_timeout = RuntimeError ''RunCompletionTimeout''"

section \<open>Construction, start and close\<close>

text \<open>The arguments say whether the three objects are shared and what the bus is called; the interval is in nanoseconds.\<close>

definition service_init :: "bool \<Rightarrow> string \<Rightarrow> int \<Rightarrow> coordinator \<Rightarrow> int \<Rightarrow> int \<Rightarrow> service res" where
  "service_init shared bus_robot poll c now ticks =
     rbind (require shared (ValueError ''coordinator, registry, and network bus must be shared'')) (\<lambda>_.
     rbind (require (co_id c = bus_robot) (ValueError ''coordinator and network identities differ'')) (\<lambda>_.
     rbind (require (10000000 \<le> poll \<and> poll \<le> 10000000000)
              (ValueError ''poll interval must be between 0.01 and 10 seconds'')) (\<lambda>_.
     Inr \<lparr>sv_coordinator = c, sv_now_ms = now, sv_monotonic = ticks, sv_poll = poll, sv_stop = False,
          sv_started = False, sv_closed = False\<rparr>)))"

definition service_start :: "service_env \<Rightarrow> (string \<times> int) sm" where
  "service_start env =
     pbind (pgets (\<lambda>s. (sv_closed s, sv_started s))) (\<lambda>(closed, started).
     pbind (plift (require (\<not> closed) (RuntimeError ''coordinator service is closed''))) (\<lambda>_.
     pbind (plift (require (\<not> started) (RuntimeError ''coordinator service is already started''))) (\<lambda>_.
     pbind (se_health env) (\<lambda>_.
     pbind (se_bus_start env) (\<lambda>endpoint.
     pbind (pmodify (\<lambda>s. s\<lparr>sv_started := True\<rparr>)) (\<lambda>_.
     pret endpoint))))))"

text \<open>Closing the coordinator closes its database only.\<close>

definition service_close :: "service_env \<Rightarrow> unit sm" where
  "service_close env =
     pbind (pgets sv_closed) (\<lambda>closed.
     if closed then pret () else
     pbind (pmodify (\<lambda>s. s\<lparr>sv_closed := True\<rparr>)) (\<lambda>_. se_bus_stop env))"

section \<open>Waiting\<close>

text \<open>One round: the health check, then the look at the state, which has a result or says with which error the wait
  fails if time is over.\<close>

fun wait_loop :: "service_env \<Rightarrow> ('a + error) sm \<Rightarrow> int \<Rightarrow> nat \<Rightarrow> 'a fm" where
  "wait_loop env probe deadline 0 s = None"
| "wait_loop env probe deadline (Suc fuel) s =
     (case pbind (se_health env) (\<lambda>_. probe) s of
        (s1, es1, Inl e) \<Rightarrow> Some (s1, es1, Inl e)
      | (s1, es1, Inr (Inl x)) \<Rightarrow> Some (s1, es1, Inr x)
      | (s1, es1, Inr (Inr timeout)) \<Rightarrow>
          (let remaining = deadline - sv_monotonic s1 in
           if remaining \<le> 0 then Some (s1, es1, Inl timeout)
           else (case se_wait env (min (sv_poll s1) remaining) s1 of
               (s2, es2, Inl e) \<Rightarrow> Some (s2, es1 @ es2, Inl e)
             | (s2, es2, Inr True) \<Rightarrow> Some (s2, es1 @ es2, Inl interrupted)
             | (s2, es2, Inr False) \<Rightarrow>
                 map_option (\<lambda>(s3, es3, r). (s3, es1 @ es2 @ es3, r)) (wait_loop env probe deadline fuel s2))))"

definition wait_within :: "service_env \<Rightarrow> ('a + error) sm \<Rightarrow> int \<Rightarrow> nat \<Rightarrow> 'a fm" where
  "wait_within env probe timeout fuel s = wait_loop env probe (sv_monotonic s + timeout) fuel s"

definition participants_probe :: "string list \<Rightarrow> (unit + error) sm" where
  "participants_probe ids =
     pbind (pgets (\<lambda>s. missing_context (co_registry (sv_coordinator s)) ids (sv_now_ms s))) (\<lambda>missing.
     pret (if missing = [] then Inl () else Inr context_timeout))"

definition wait_for_participants :: "service_env \<Rightarrow> string list \<Rightarrow> int \<Rightarrow> nat \<Rightarrow> unit fm" where
  "wait_for_participants env ids timeout fuel =
     fbind (once (pbind (pgets sv_started) (\<lambda>started.
       pbind (plift (require started (RuntimeError ''coordinator service is not started''))) (\<lambda>_.
       plift (require (\<not> timeout \<le> 0) (ValueError ''participant timeout must be positive'')))))) (\<lambda>_.
     wait_within env (participants_probe ids) timeout fuel)"

definition run_probe :: "(run_status \<Rightarrow> bool) \<Rightarrow> string \<Rightarrow> (run_snapshot + error) sm" where
  "run_probe finished plan =
     pbind (on_coordinator (co_snapshot plan)) (\<lambda>sn.
     pret (if finished (snap_status sn) then Inl sn else Inr completion_timeout))"

definition wait_for_completion :: "service_env \<Rightarrow> string \<Rightarrow> int \<Rightarrow> nat \<Rightarrow> run_snapshot fm" where
  "wait_for_completion env plan timeout fuel =
     fbind (once (plift (require (\<not> timeout \<le> 0) (ValueError ''completion timeout must be positive'')))) (\<lambda>_.
     wait_within env (run_probe (\<lambda>st. st \<noteq> RunActive) plan) timeout fuel)"

definition runs_probe :: "string list \<Rightarrow> (run_snapshot list + error) sm" where
  "runs_probe plans =
     pbind (on_coordinator (cread (\<lambda>store. rmap (\<lambda>p. cs_snapshot p store) plans))) (\<lambda>sns.
     pret (if list_all (\<lambda>sn. snap_status sn \<noteq> RunActive) sns then Inl sns else Inr completion_timeout))"

definition wait_for_completions :: "service_env \<Rightarrow> string list \<Rightarrow> int \<Rightarrow> nat \<Rightarrow> run_snapshot list fm" where
  "wait_for_completions env plans timeout fuel =
     fbind (once (pbind (plift (require (plans \<noteq> [] \<and> distinct plans)
                           (ValueError ''completion wait requires unique plan identifiers''))) (\<lambda>_.
       plift (require (\<not> timeout \<le> 0) (ValueError ''completion timeout must be positive''))))) (\<lambda>_.
     wait_within env (runs_probe plans) timeout fuel)"

definition known_terminal :: "run_status \<Rightarrow> bool" where
  "known_terminal st = (st \<in> {RunSucceeded, RunFailed, RunCancelled})"

definition wait_for_resolution :: "service_env \<Rightarrow> string \<Rightarrow> int \<Rightarrow> nat \<Rightarrow> run_snapshot fm" where
  "wait_for_resolution env plan timeout fuel =
     fbind (once (plift (require (\<not> timeout \<le> 0) (ValueError ''reconciliation timeout must be positive'')))) (\<lambda>_.
     wait_within env (run_probe known_terminal plan) timeout fuel)"

section \<open>Commands of the owner\<close>

definition healthy_coordinator :: "service_env \<Rightarrow> (int \<Rightarrow> 'a cm) \<Rightarrow> 'a sm" where
  "healthy_coordinator env f =
     pbind (se_health env) (\<lambda>_. pbind (pgets sv_now_ms) (\<lambda>now. on_coordinator (f now)))"

definition service_submit :: "service_env \<Rightarrow> shared_goal \<Rightarrow> int \<Rightarrow> nat \<Rightarrow> plan fm" where
  "service_submit env goal timeout fuel =
     fbind (wait_for_participants env (participant_ids goal) timeout fuel) (\<lambda>_.
     once (healthy_coordinator env (submit (se_coordinator env) goal)))"

definition service_submit_many :: "service_env \<Rightarrow> shared_goal list \<Rightarrow> int \<Rightarrow> nat \<Rightarrow> plan list fm" where
  "service_submit_many env goals timeout fuel =
     fbind (wait_for_participants env (rev (remdups (rev (concat (map participant_ids goals))))) timeout fuel) (\<lambda>_.
     once (healthy_coordinator env (submit_many (se_coordinator env) goals)))"

definition service_cancel :: "service_env \<Rightarrow> string \<Rightarrow> string \<Rightarrow> bool \<Rightarrow> string list sm" where
  "service_cancel env plan reason stop_given =
     pbind (pgets (\<lambda>s. (sv_started s, sv_stop s))) (\<lambda>(started, stop).
     pbind (plift (require started (RuntimeError ''coordinator service is not started''))) (\<lambda>_.
     pbind (plift (require (\<not> (stop_given \<and> stop)) interrupted)) (\<lambda>_.
     healthy_coordinator env (cancel (se_coordinator env) plan reason))))"

definition service_reconcile :: "service_env \<Rightarrow> string \<Rightarrow> int \<Rightarrow> nat \<Rightarrow> string list fm" where
  "service_reconcile env plan timeout fuel =
     fbind (once (on_coordinator (cread (cs_goal plan)))) (\<lambda>goal.
     fbind (wait_for_participants env (participant_ids goal) timeout fuel) (\<lambda>_.
     once (healthy_coordinator env (\<lambda>now.
       pbind (co_reconcile (se_coordinator env) plan now) (\<lambda>ids.
       pbind (resume_active (se_coordinator env) now) (\<lambda>_. pret ids))))))"

text \<open>\<open>parse_authority_leases\<close>: arguments \<open>ROBOT=LEASE\<close>, each robot once.\<close>

fun parse_leases :: "(string \<times> string) list \<Rightarrow> string list \<Rightarrow> (string \<times> string) list res" where
  "parse_leases leases [] = Inr leases"
| "parse_leases leases (v # vs) =
     (let (robot, separator, lease) = py_partition ''='' v in
      rbind (require (\<not> (separator = [] \<or> robot = [] \<or> lease = []))
               (ValueError ''authority lease must use ROBOT_ID=LEASE_ID syntax'')) (\<lambda>_.
      rbind (require (robot \<notin> fst ` set leases) (ValueError (''duplicate authority lease robot: '' @ robot))) (\<lambda>_.
      parse_leases (leases @ [(robot, lease)]) vs)))"

definition parse_authority_leases :: "string list \<Rightarrow> (string \<times> string) list res" where
  "parse_authority_leases = parse_leases []"

section \<open>Every wait ends\<close>

text \<open>What the documentation of \<open>time.monotonic\<close> and \<open>Event.wait\<close> says: the clock never goes back, and a wait that was
  not ended by the event lasted as long as it was asked to.\<close>

definition fair_env :: "service_env \<Rightarrow> bool" where
  "fair_env env \<longleftrightarrow>
     (\<forall>s s' es r. se_health env s = (s', es, r) \<longrightarrow> sv_monotonic s \<le> sv_monotonic s' \<and> sv_poll s' = sv_poll s) \<and>
     (\<forall>d s s' es. se_wait env d s = (s', es, Inr False) \<longrightarrow> sv_monotonic s + d \<le> sv_monotonic s' \<and> sv_poll s' = sv_poll s)"

definition steady :: "'a sm \<Rightarrow> bool" where
  "steady f \<longleftrightarrow> (\<forall>s s' es r. f s = (s', es, r) \<longrightarrow> sv_monotonic s' = sv_monotonic s \<and> sv_poll s' = sv_poll s)"

lemma steady_pret [simp]: "steady (pret x)"
  by (simp add: steady_def pret_def)

lemma steady_on_coordinator [simp]: "steady (on_coordinator f)"
  by (auto simp: steady_def on_coordinator_def split: prod.splits)

lemma steady_pbind: "steady f \<Longrightarrow> (\<And>x. steady (g x)) \<Longrightarrow> steady (pbind f g)"
  unfolding steady_def by (intro allI impI, erule pbind_cases) (blast, metis)

lemma steady_pgets [simp]: "steady (pgets f)"
  by (simp add: steady_def pgets_def)

lemma steady_probes [simp]: "steady (participants_probe ids)" "steady (run_probe P plan)" "steady (runs_probe plans)"
  unfolding participants_probe_def run_probe_def runs_probe_def
  by (rule steady_pbind, simp, simp)+

lemma round_clock:
  assumes "fair_env env" "steady probe" "pbind (se_health env) (\<lambda>_. probe) s = (s1, es, r)"
  shows "sv_monotonic s \<le> sv_monotonic s1 \<and> sv_poll s1 = sv_poll s"
  using assms(3)
proof (cases rule: pbind_cases)
  case (1 e)
  then show ?thesis using assms(1) by (auto simp: fair_env_def)
next
  case (2 p1 es1 x es2)
  then have "sv_monotonic s \<le> sv_monotonic p1 \<and> sv_poll p1 = sv_poll s" using assms(1) unfolding fair_env_def by blast
  then show ?thesis using 2 assms(2) unfolding steady_def by metis
qed

definition rounds_needed :: "int \<Rightarrow> int \<Rightarrow> nat" where
  "rounds_needed remaining poll = (if remaining \<le> 0 then 1 else nat (remaining div poll) + 2)"

lemma rounds_after_wait:
  assumes "0 < poll" "0 < r" "r' \<le> r - min poll r"
  shows "rounds_needed r' poll < rounds_needed r poll"
proof (cases "r' \<le> 0")
  case False
  then have p: "r' \<le> r - poll" using assms(3) by (auto simp: min_def split: if_splits)
  then have "r' div poll \<le> (r - poll) div poll" using assms(1) zdiv_mono1 by blast
  also have "(r - poll) div poll = r div poll - 1"
    using div_mult_self1[of poll r "-1"] assms(1) by simp
  finally have "r' div poll \<le> r div poll - 1" .
  moreover have "0 \<le> r' div poll" using False assms(1) by (simp add: pos_imp_zdiv_nonneg_iff)
  ultimately show ?thesis using False assms(2) by (simp add: rounds_needed_def)
qed (use assms in \<open>simp add: rounds_needed_def\<close>)

lemma rounds_mono:
  assumes "0 < poll" "r' \<le> r"
  shows "rounds_needed r' poll \<le> rounds_needed r poll"
  using assms zdiv_mono1[OF assms(2,1)] by (auto simp: rounds_needed_def)

lemma wait_loop_ends:
  assumes "fair_env env" "steady probe" "0 < sv_poll s" "rounds_needed (deadline - sv_monotonic s) (sv_poll s) \<le> fuel"
  shows "\<exists>out. wait_loop env probe deadline fuel s = Some out"
  using assms(3,4)
proof (induction fuel arbitrary: s)
  case 0
  then show ?case by (simp add: rounds_needed_def split: if_splits)
next
  case (Suc fuel)
  obtain s1 es1 r1 where r1: "pbind (se_health env) (\<lambda>_. probe) s = (s1, es1, r1)" using prod_cases3 by blast
  note c1 = round_clock[OF assms(1,2) r1]
  obtain s2 es2 r2 where r2: "se_wait env (min (sv_poll s1) (deadline - sv_monotonic s1)) s1 = (s2, es2, r2)" using prod_cases3 by blast
  have again: "\<exists>out. wait_loop env probe deadline fuel s2 = Some out" if "r2 = Inr False" "0 < deadline - sv_monotonic s1"
  proof -
    have c2: "sv_monotonic s1 + min (sv_poll s1) (deadline - sv_monotonic s1) \<le> sv_monotonic s2" "sv_poll s2 = sv_poll s1"
      using assms(1) r2 that(1) unfolding fair_env_def by blast+
    have "rounds_needed (deadline - sv_monotonic s2) (sv_poll s) < rounds_needed (deadline - sv_monotonic s1) (sv_poll s)"
      using c2 c1 Suc.prems(1) that(2) by (intro rounds_after_wait) auto
    also have "\<dots> \<le> rounds_needed (deadline - sv_monotonic s) (sv_poll s)" using c1 Suc.prems(1) by (intro rounds_mono) auto
    finally have "rounds_needed (deadline - sv_monotonic s2) (sv_poll s2) \<le> fuel" using Suc.prems(2) c1 c2 by simp
    then show ?thesis using Suc.IH[of s2] Suc.prems(1) c1 c2 by simp
  qed
  show ?case using r1 r2 again by (auto simp: Let_def split: sum.splits bool.splits)
qed

text \<open>How a wait ends: with what the probe saw in the final state; with its timeout error, not before the deadline; or with
  an interruption or an exception of the health check, the probe or the wait.\<close>

lemma wait_loop_result:
  assumes "wait_loop env probe deadline fuel s = Some (s', es, r)"
  shows "(case r of
      Inr x \<Rightarrow> \<exists>s0 es0. probe s0 = (s', es0, Inr (Inl x))
    | Inl e \<Rightarrow> (\<exists>s0 es0. probe s0 = (s', es0, Inr (Inr e)) \<and> deadline \<le> sv_monotonic s') \<or>
        (\<exists>s0 es0. se_health env s0 = (s', es0, Inl e) \<or> probe s0 = (s', es0, Inl e)) \<or>
        (\<exists>d s0 es0. se_wait env d s0 = (s', es0, Inl e) \<or> se_wait env d s0 = (s', es0, Inr True) \<and> e = interrupted))"
  using assms
proof (induction fuel arbitrary: s es)
  case (Suc fuel)
  obtain s1 es1 r1 where r1: "pbind (se_health env) (\<lambda>_. probe) s = (s1, es1, r1)" using prod_cases3 by blast
  have probed: "\<exists>s0 es0. probe s0 = (s1, es0, Inr y)" if "r1 = Inr y" for y
    using r1 by (cases rule: pbind_cases) (use that in auto)
  have raised: "\<exists>s0 es0. se_health env s0 = (s1, es0, Inl e) \<or> probe s0 = (s1, es0, Inl e)" if "r1 = Inl e" for e
    using r1 by (cases rule: pbind_cases) (use that in auto)
  consider (err) e where "r1 = Inl e" | (found) x where "r1 = Inr (Inl x)" | (pending) t where "r1 = Inr (Inr t)"
    by (cases r1; cases "projr r1") auto
  then show ?case
  proof cases
    case err
    then show ?thesis using Suc.prems r1 raised[OF err] by auto
  next
    case found
    then have "s1 = s'" "r = Inr x" using Suc.prems r1 by auto
    then show ?thesis using probed[OF found] by simp
  next
    case pending
    obtain s2 es2 r2 where r2: "se_wait env (min (sv_poll s1) (deadline - sv_monotonic s1)) s1 = (s2, es2, r2)"
      using prod_cases3 by blast
    show ?thesis
    proof (cases "deadline - sv_monotonic s1 \<le> 0")
      case True
      then show ?thesis using Suc.prems r1 pending probed[OF pending] by (auto simp: Let_def)
    next
      case False
      consider (bad) e where "r2 = Inl e" | (stop) "r2 = Inr True" | (go) "r2 = Inr False" by (cases r2) auto
      then show ?thesis
      proof cases
        case bad
        then show ?thesis using Suc.prems r1 r2 pending False by (auto simp: Let_def)
      next
        case stop
        then show ?thesis using Suc.prems r1 r2 pending False by (auto simp: Let_def)
      next
        case go
        then obtain es3 where "wait_loop env probe deadline fuel s2 = Some (s', es3, r)"
          using Suc.prems r1 r2 pending False by (auto simp: Let_def)
        then show ?thesis by (rule Suc.IH)
      qed
    qed
  qed
qed simp

lemma fbind_cases:
  assumes "fbind f g s = Some (s', es, r)"
  obtains e where "f s = Some (s', es, Inl e)" "r = Inl e"
  | s1 es1 x es2 where "f s = Some (s1, es1, Inr x)" "g x s1 = Some (s', es2, r)" "es = es1 @ es2"
  using assms by (auto simp: fbind_def split: option.splits sum.splits)

text \<open>C38: waiting for a run comes to an end. If the clock is monotonic, a wait that is not interrupted lasts as long as asked
  and the poll interval is positive, then \<open>timeout / poll interval + 2\<close> rounds are enough, whatever the other threads do meanwhile.\<close>

theorem completion_wait_ends:
  assumes "fair_env env" "0 < sv_poll s" "nat (timeout div sv_poll s) + 2 \<le> fuel"
  shows "\<exists>out. wait_for_completion env plan timeout fuel s = Some out"
proof (cases "timeout \<le> 0")
  case True
  then show ?thesis by (simp add: wait_for_completion_def fbind_def once_def plift_def require_def)
next
  case False
  then have "rounds_needed (sv_monotonic s + timeout - sv_monotonic s) (sv_poll s) \<le> fuel"
    using assms(3) by (simp add: rounds_needed_def)
  then obtain s' es r where
    "wait_loop env (run_probe (\<lambda>st. st \<noteq> RunActive) plan) (sv_monotonic s + timeout) fuel s = Some (s', es, r)"
    using wait_loop_ends[OF assms(1) steady_probes(2) assms(2)] by (metis prod_cases3)
  then show ?thesis
    using False by (auto simp: wait_for_completion_def wait_within_def fbind_def once_def plift_def require_def)
qed

lemma run_probe_result:
  assumes "run_probe P plan s0 = (s', es, Inr r)"
  shows "\<exists>sn. cs_snapshot plan (co_store (sv_coordinator s')) = Inr sn \<and>
     r = (if P (snap_status sn) then Inl sn else Inr completion_timeout)"
  using assms
  by (auto simp: run_probe_def pbind_def on_coordinator_def co_snapshot_def cread_def pgets_def plift_def pret_def
      split: sum.splits prod.splits)

text \<open>what an owner is told about a run is true when it is told. A snapshot that \<open>wait_for_completion\<close> or
  \<open>wait_for_resolution\<close> returns is that of the store in the final state and not active, respectively succeeded, failed or
  cancelled; and the timeout is reported only after the deadline, for a run that is still active, respectively not
  resolved, then, unless another part of the program raised that very error.\<close>

theorem reported_run_is_true:
  assumes "(wait_run, finished) \<in> {(wait_for_completion, \<lambda>st. st \<noteq> RunActive), (wait_for_resolution, known_terminal)}" "0 < timeout"
    and "wait_run env plan timeout fuel s = Some (s', es, r)"
  shows "case r of
      Inr sn \<Rightarrow> cs_snapshot plan (co_store (sv_coordinator s')) = Inr sn \<and> finished (snap_status sn)
    | Inl e \<Rightarrow> (e = completion_timeout \<and> sv_monotonic s + timeout \<le> sv_monotonic s' \<and>
          (\<exists>sn. cs_snapshot plan (co_store (sv_coordinator s')) = Inr sn \<and> \<not> finished (snap_status sn))) \<or>
        (\<exists>s0 es0. se_health env s0 = (s', es0, Inl e) \<or> run_probe finished plan s0 = (s', es0, Inl e)) \<or>
        (\<exists>d s0 es0. se_wait env d s0 = (s', es0, Inl e) \<or> se_wait env d s0 = (s', es0, Inr True) \<and> e = interrupted)"
proof -
  obtain es' where "wait_loop env (run_probe finished plan) (sv_monotonic s + timeout) fuel s = Some (s', es', r)"
    using assms
    by (auto simp: wait_for_completion_def wait_for_resolution_def wait_within_def fbind_def once_def plift_def require_def
        split: option.splits)
  note res = wait_loop_result[OF this]
  show ?thesis
  proof (cases r)
    case (Inl e)
    show ?thesis
    proof (cases "\<exists>s0 es0. run_probe finished plan s0 = (s', es0, Inr (Inr e)) \<and> sv_monotonic s + timeout \<le> sv_monotonic s'")
      case True
      then obtain s0 es0 where p: "run_probe finished plan s0 = (s', es0, Inr (Inr e))" and
        d: "sv_monotonic s + timeout \<le> sv_monotonic s'" by blast
      obtain sn where "cs_snapshot plan (co_store (sv_coordinator s')) = Inr sn"
        "Inr e = (if finished (snap_status sn) then Inl sn else Inr completion_timeout)"
        using run_probe_result[OF p] by blast
      then show ?thesis using Inl d by (simp split: if_splits)
    next
      case False
      then show ?thesis using res Inl by auto
    qed
  next
    case (Inr sn)
    then obtain s0 es0 where p: "run_probe finished plan s0 = (s', es0, Inr (Inl sn))" using res by auto
    obtain sn' where "cs_snapshot plan (co_store (sv_coordinator s')) = Inr sn'"
      "Inl sn = (if finished (snap_status sn') then Inl sn' else Inr completion_timeout)"
      using run_probe_result[OF p] by blast
    then show ?thesis using Inr by (simp split: if_splits)
  qed
qed

text \<open>goals are submitted only with the context of their participants. Whatever \<open>submit\<close> ends with, either the wait or
  the health check after it ended it and the coordinator was not asked, or the service was started, there was a moment
  at which every participant of the goal had sent a manifest and a state that was fresh, the health check that followed
  passed, and what the coordinator answered then, with its state after that, is the result.\<close>

theorem submit_needs_context:
  assumes "service_submit env goal timeout fuel s = Some (s', es, r)"
  shows "(\<exists>e. r = Inl e \<and> wait_for_participants env (participant_ids goal) timeout fuel s = Some (s', es, Inl e)) \<or>
     (sv_started s \<and> (\<exists>s1 s2 es1 es2 r2. wait_for_participants env (participant_ids goal) timeout fuel s = Some (s1, es1, Inr ()) \<and>
        missing_context (co_registry (sv_coordinator s1)) (participant_ids goal) (sv_now_ms s1) = [] \<and>
        se_health env s1 = (s2, es2, r2) \<and>
        (case r2 of Inl e \<Rightarrow> s' = s2 \<and> r = Inl e
         | Inr _ \<Rightarrow> \<exists>es3. submit (se_coordinator env) goal (sv_now_ms s2) (sv_coordinator s2) = (sv_coordinator s', es3, r))))"
  using assms unfolding service_submit_def
proof (cases rule: fbind_cases)
  case (2 s1 es1 u es2)
  then have w: "wait_for_participants env (participant_ids goal) timeout fuel s = Some (s1, es1, Inr ())"
    and h: "healthy_coordinator env (submit (se_coordinator env) goal) s1 = (s', es2, r)"
    by (auto simp: once_def)
  obtain es4 where st: "sv_started s" and loop: "wait_within env (participants_probe (participant_ids goal)) timeout fuel s = Some (s1, es4, Inr ())"
    using w unfolding wait_for_participants_def
    by (rule fbind_cases) (auto simp: once_def pbind_def pgets_def plift_def require_def split: if_splits)
  obtain s0 es0 where "participants_probe (participant_ids goal) s0 = (s1, es0, Inr (Inl ()))"
    using wait_loop_result[OF loop[unfolded wait_within_def]] by auto
  then have m: "missing_context (co_registry (sv_coordinator s1)) (participant_ids goal) (sv_now_ms s1) = []"
    by (auto simp: participants_probe_def pbind_def pgets_def pret_def split: if_splits)
  obtain s2 es5 r2 where r2: "se_health env s1 = (s2, es5, r2)" using prod_cases3 by blast
  have "case r2 of Inl e \<Rightarrow> s' = s2 \<and> r = Inl e
      | Inr _ \<Rightarrow> \<exists>es3. submit (se_coordinator env) goal (sv_now_ms s2) (sv_coordinator s2) = (sv_coordinator s', es3, r)"
    using h r2 by (auto simp: healthy_coordinator_def pbind_def pgets_def on_coordinator_def split: sum.splits prod.splits)
  then show ?thesis using st m w r2 by blast
qed blast

section \<open>The arguments of the owner\<close>

lemma parse_leases_result:
  assumes "parse_leases leases vs = Inr out" "distinct (map fst leases)"
  shows "distinct (map fst out) \<and> length out = length leases + length vs"
  using assms
proof (induction vs arbitrary: leases)
  case (Cons v vs)
  obtain a m b where p: "py_partition ''='' v = (a, m, b)" using prod_cases3 by blast
  then have "parse_leases (leases @ [(a, b)]) vs = Inr out" "a \<notin> fst ` set leases"
    using Cons.prems by (auto simp: res_simps Let_def)
  then show ?case using Cons.IH[of "leases @ [(a, b)]"] Cons.prems(2) by auto
qed simp

lemma authority_leases_unique:
  "parse_authority_leases vs = Inr out \<Longrightarrow> distinct (map fst out) \<and> length out = length vs"
  using parse_leases_result[of "[]" vs out] by (simp add: parse_authority_leases_def)

section \<open>Concrete waits\<close>

text \<open>A quiet environment: nothing else runs, and a wait takes as long as it is asked to.\<close>

definition quiet_env :: service_env where
  "quiet_env = \<lparr>
     se_coordinator = \<lparr>ce_deliver = (\<lambda>_. pret ()), ce_message_id = (\<lambda>n. ''m''), ce_assignment_id = (\<lambda>n i. ''b''),
       ce_propose = (\<lambda>g m st. Inr (ring_plan [ring_step ''a'' []])), ce_sha = (\<lambda>s. s)\<rparr>,
     se_health = pret (), se_wait = (\<lambda>d s. (s\<lparr>sv_monotonic := sv_monotonic s + d\<rparr>, [], Inr False)),
     se_bus_start = pret (''127.0.0.1'', 1), se_bus_stop = pret ()\<rparr>"

definition quiet_service :: "coordinator_store \<Rightarrow> service" where
  "quiet_service store = \<lparr>
     sv_coordinator = \<lparr>co_id = ''c'', co_session_id = ''s'', co_sequence = 0, co_store = store\<lparr>cs_coordinator_id := Some ''c''\<rparr>,
       co_registry = sample_registry, co_lease_ids = Map.empty, co_require_authority = False, co_outcomes = Map.empty,
       co_acknowledgements = Map.empty\<rparr>,
     sv_now_ms = 1100, sv_monotonic = 0, sv_poll = 100000000, sv_stop = False, sv_started = True, sv_closed = False\<rparr>"

definition running_store :: coordinator_store where
  "running_store = \<lparr>cs_runs = [\<lparr>run_plan_id = ''p1'', run_goal_id = ''g1'', run_goal_json = [], run_plan_json = [],
     run_state = RunActive, run_created_at_ms = 1, run_updated_at_ms = 1\<rparr>], cs_steps = [], cs_coordinator_id = None\<rparr>"

lemma quiet_fair: "fair_env quiet_env"
  by (auto simp: fair_env_def quiet_env_def pret_def)

theorem completion_wait_ends_witness:
  "\<exists>out. wait_for_completion quiet_env ''p1'' 250000000 4 (quiet_service running_store) = Some out"
  using completion_wait_ends[OF quiet_fair, of "quiet_service running_store" 250000000 4 "''p1''"] by (simp add: quiet_service_def)

theorem reported_run_is_true_witness:
  "\<exists>s' es. wait_for_completion quiet_env ''p1'' 250000000 4 (quiet_service running_store) = Some (s', es, Inl completion_timeout) \<and>
     250000000 \<le> sv_monotonic s'"
proof -
  have four: "(4 :: nat) = Suc (Suc (Suc (Suc 0)))" by simp
  have "\<exists>s' es. wait_for_completion quiet_env ''p1'' 250000000 4 (quiet_service running_store) = Some (s', es, Inl completion_timeout)"
    by (simp add: wait_for_completion_def wait_within_def fbind_def once_def pbind_def pgets_def plift_def require_def run_probe_def
        on_coordinator_def co_snapshot_def cread_def cs_snapshot_def find_run_def quiet_env_def pret_def quiet_service_def
        running_store_def four)
  then obtain s' es where w: "wait_for_completion quiet_env ''p1'' 250000000 4 (quiet_service running_store) = Some (s', es, Inl completion_timeout)"
    by blast
  have start: "sv_monotonic (quiet_service running_store) = 0" by (simp add: quiet_service_def)
  have "(wait_for_completion, \<lambda>st. st \<noteq> RunActive) \<in> {(wait_for_completion, \<lambda>st. st \<noteq> RunActive), (wait_for_resolution, known_terminal)}"
    by simp
  from reported_run_is_true[OF this _ w] start have "250000000 \<le> sv_monotonic s'"
    by (auto simp: quiet_env_def pret_def run_probe_def pbind_def on_coordinator_def co_snapshot_def cread_def pgets_def plift_def
        cs_snapshot_def completion_timeout_def split: sum.splits option.splits)
  then show ?thesis using w by blast
qed

text \<open>A planner that has no plan: the coordinator is asked once both participants are known.\<close>

definition planless_env :: service_env where
  "planless_env = quiet_env\<lparr>se_coordinator := (se_coordinator quiet_env)\<lparr>ce_propose := (\<lambda>g m st. Inl (ValueError ''no plan''))\<rparr>\<rparr>"

theorem submit_needs_context_witness:
  "\<exists>s' es. service_submit planless_env ring_goal 1000 2 (quiet_service cs_empty) = Some (s', es, Inl (ValueError ''no plan'')) \<and>
     sv_started (quiet_service cs_empty)"
proof -
  have missing: "missing_context sample_registry (participant_ids ring_goal) 1100 = []" by code_simp
  have size: "validate_core_message_size ''goal'' (shared_goal_payload ring_goal) = Inr ()" by code_simp
  let ?s = "quiet_service cs_empty"
  have asked: "submit (se_coordinator planless_env) ring_goal 1100 (sv_coordinator ?s) = (sv_coordinator ?s, [], Inl (ValueError ''no plan''))"
    by (simp add: submit_def prepare_def size planless_env_def quiet_env_def pbind_def pgets_def plift_def)
  have wait: "wait_for_participants planless_env (participant_ids ring_goal) 1000 2 ?s = Some (?s, [], Inr ())"
    by (simp add: wait_for_participants_def wait_within_def fbind_def once_def pbind_def pgets_def plift_def require_def
        participants_probe_def planless_env_def quiet_env_def pret_def quiet_service_def missing numeral_2_eq_2)
  have "service_submit planless_env ring_goal 1000 2 ?s = Some (?s, [], Inl (ValueError ''no plan''))"
    using asked
    by (simp add: service_submit_def fbind_def wait once_def healthy_coordinator_def pbind_def pgets_def on_coordinator_def)
      (simp add: planless_env_def quiet_env_def pret_def quiet_service_def)
  note run = this
  show ?thesis using submit_needs_context[OF run] run by (auto simp: wait)
qed

end
