(* ===== verification/Participant_Service.thy ===== *)
theory Participant_Service
  imports Participant
begin

text \<open>
  \<open>node.py\<close>, class \<open>ParticipantService\<close>, with the thread of \<open>CommunicationWatchdog\<close>: the long-running robot node.
  Its state is the participant, the registry and watchdog of its required peers, and whether bus, watchdog thread and
  service run. Other threads run while the service calls its health check and while it waits; these two, what the
  adapter answers in a state, and what starting and stopping the bus answers are arguments.
\<close>

section \<open>State and effects\<close>

record node =
  nd_participant :: participant
  nd_registry :: registry
  nd_watchdog :: "watchdog option"
  nd_watching :: bool
  nd_bus_running :: bool
  nd_now_ms :: int
  nd_hz :: decimal
  nd_started :: bool
  nd_closed :: bool

datatype node_effect = Sent effect | LossCall loss_call

type_synonym 'a nm = "(node, node_effect, 'a) act"

record node_env =
  ne_native :: "node \<Rightarrow> native"
  ne_raises :: "loss_call \<Rightarrow> bool"
  ne_health :: "unit nm"
  ne_wait :: "decimal \<Rightarrow> bool nm"
  ne_bus_start :: "node \<Rightarrow> (string \<times> int) res"
  ne_shutdown :: "unit nm"

definition on_participant :: "'a pm \<Rightarrow> 'a nm" where
  "on_participant f s = (case f (nd_participant s) of (p, es, r) \<Rightarrow> (s\<lparr>nd_participant := p\<rparr>, map Sent es, r))"


definition finally_do :: "'a nm \<Rightarrow> unit nm \<Rightarrow> 'a nm" where
  "finally_do f cleanup s = (case f s of (s1, es1, r) \<Rightarrow>
     (case cleanup s1 of
        (s2, es2, Inr _) \<Rightarrow> (s2, es1 @ es2, r)
      | (s2, es2, Inl e2) \<Rightarrow> (s2, es1 @ es2, Inl e2)))"

section \<open>The watchdog thread\<close>

definition run_watchdog :: "node_env \<Rightarrow> int \<Rightarrow> string list nm" where
  "run_watchdog env now s = (case nd_watchdog s of
      None \<Rightarrow> (s, [], Inr [])
    | Some w \<Rightarrow> (case evaluate (nd_registry s) now (ne_raises env) w of
        (w', stale, call) \<Rightarrow> (s\<lparr>nd_watchdog := Some w'\<rparr>, (case call of None \<Rightarrow> [] | Some c \<Rightarrow> [LossCall c]), Inr stale)))"


definition watchdog_round :: "node_env \<Rightarrow> string list nm" where
  "watchdog_round env = pbind (pgets (\<lambda>s. (nd_watching s, nd_now_ms s))) (\<lambda>(watching, now).
     if watching then run_watchdog env now else pret [])"

definition stop_watchdog :: "unit nm" where
  "stop_watchdog = pmodify (\<lambda>s. s\<lparr>nd_watching := False\<rparr>)"

definition evaluate_communication :: "node_env \<Rightarrow> int option \<Rightarrow> string list nm" where
  "evaluate_communication env at =
     pbind (pgets nd_now_ms) (\<lambda>now. run_watchdog env (case at of None \<Rightarrow> now | Some t \<Rightarrow> t))"

section \<open>The service\<close>

text \<open>The rate is an exact decimal; \<open>handles_loss\<close> says whether the adapter implements \<open>CommunicationLossHandler\<close>.\<close>

definition node_init ::
  "decimal \<Rightarrow> manifest \<Rightarrow> string \<Rightarrow> bool \<Rightarrow> string list \<Rightarrow> int \<Rightarrow> string \<Rightarrow> journal \<Rightarrow> authorizer \<Rightarrow> int \<Rightarrow> int \<Rightarrow> node res" where
  "node_init hz mf bus_robot handles_loss peers interval_ms session j az workers now =
     rbind (require (10 ^ snd hz \<le> fst hz \<and> fst hz \<le> 10 * 10 ^ snd hz) (ValueError ''state_hz must be between 1 and 10'')) (\<lambda>_.
     rbind (require (mf_robot_id mf = bus_robot) (ValueError ''adapter and network robot identities differ'')) (\<lambda>_.
     rbind (require (\<not> (peers \<noteq> [] \<and> \<not> handles_loss))
              (TypeError ''adapter must implement CommunicationLossHandler when required peers are configured'')) (\<lambda>_.
     rbind (if peers = [] then Inr None else rbind (watchdog_init peers interval_ms) (\<lambda>w. Inr (Some w))) (\<lambda>w.
     rbind (participant_init (mf_robot_id mf) session j az workers) (\<lambda>p.
     Inr \<lparr>nd_participant = p, nd_registry = Map.empty, nd_watchdog = w, nd_watching = False, nd_bus_running = False,
          nd_now_ms = now, nd_hz = hz, nd_started = False, nd_closed = False\<rparr>)))))"


definition stop_bus :: "unit nm" where
  "stop_bus = pmodify (\<lambda>s. s\<lparr>nd_bus_running := False\<rparr>)"

definition read_adapter :: "node_env \<Rightarrow> (manifest \<times> robot_state \<times> native \<times> int) nm" where
  "read_adapter env =
     pbind (pgets (\<lambda>s. (ne_native env s, nd_now_ms s))) (\<lambda>(nv, now).
     pbind (plift (nat_manifest nv 0)) (\<lambda>mf.
     pbind (plift (nat_state nv)) (\<lambda>st.
     pret (mf, st, nv, now))))"


definition node_round :: "node_env \<Rightarrow> unit nm" where
  "node_round env =
     pbind (ne_health env) (\<lambda>_.
     pbind (read_adapter env) (\<lambda>(mf, st, nv, now).
     pbind (on_participant (publish_manifest nv now (Some mf) False)) (\<lambda>_.
     on_participant (publish_state nv now None (Some st)))))"

text \<open>\<open>run\<close>: rounds until the event is set, one unit of fuel for each; \<open>None\<close> is a node that still runs.\<close>

fun node_loop :: "node_env \<Rightarrow> nat \<Rightarrow> node \<Rightarrow> (node \<times> node_effect list \<times> unit res) option" where
  "node_loop env 0 s = None"
| "node_loop env (Suc fuel) s =
     (case ne_wait env (nd_hz s) s of
        (s1, es1, Inl e) \<Rightarrow> Some (s1, es1, Inl e)
      | (s1, es1, Inr True) \<Rightarrow> Some (s1, es1, Inr ())
      | (s1, es1, Inr False) \<Rightarrow>
          (case node_round env s1 of
             (s2, es2, Inl e) \<Rightarrow> Some (s2, es1 @ es2, Inl e)
           | (s2, es2, Inr _) \<Rightarrow> map_option (\<lambda>(s3, es3, r). (s3, es1 @ es2 @ es3, r)) (node_loop env fuel s2)))"

definition node_run :: "node_env \<Rightarrow> nat \<Rightarrow> node \<Rightarrow> (node \<times> node_effect list \<times> unit res) option" where
  "node_run env fuel s =
     (if \<not> nd_started s then Some (s, [], Inl (RuntimeError ''participant service must be started before run''))
      else node_loop env fuel s)"

text \<open>\<open>Participant.close\<close> stops the watchdog and waits for the work in progress, which is \<open>ne_shutdown\<close>.\<close>

definition node_close :: "node_env \<Rightarrow> unit nm" where
  "node_close env =
     pbind (pgets nd_closed) (\<lambda>closed.
     if closed then pret () else
     pbind (pmodify (\<lambda>s. s\<lparr>nd_closed := True\<rparr>)) (\<lambda>_.
     finally_do (pbind stop_watchdog (\<lambda>_. ne_shutdown env))
       (pbind (pgets nd_started) (\<lambda>started.
        if started then pbind stop_bus (\<lambda>_. pmodify (\<lambda>s. s\<lparr>nd_started := False\<rparr>)) else pret ()))))"

section \<open>What a publication sends\<close>

definition state_envelope :: "native \<Rightarrow> participant \<Rightarrow> robot_state \<Rightarrow> int \<Rightarrow> string option \<Rightarrow> string \<Rightarrow> envelope" where
  "state_envelope nv p st now corr strm = make_envelope (uuid nv strm (pa_sequences p strm + 1)) ''state'' (pa_robot_id p)
     (pa_session_id p) (pa_sequences p strm + 1) now (state_payload st) corr strm"

lemma state_envelope_simps [simp]:
  "message_type (state_envelope nv p st now corr strm) = ''state''" "source_id (state_envelope nv p st now corr strm) = pa_robot_id p"
  "session_id (state_envelope nv p st now corr strm) = pa_session_id p"
  "env_sequence (state_envelope nv p st now corr strm) = pa_sequences p strm + 1"
  "timestamp_ms (state_envelope nv p st now corr strm) = now" "env_payload (state_envelope nv p st now corr strm) = state_payload st"
  "env_stream (state_envelope nv p st now corr strm) = strm"
  by (simp_all add: state_envelope_def make_envelope_def)

lemma send_result:
  assumes "send nv mtype body now corr strm p = (q, es, Inr ())" "wf_json body"
  shows "q = p\<lparr>pa_sequences := (pa_sequences p)(strm := pa_sequences p strm + 1)\<rparr> \<and>
     es = [Published (canon_envelope (make_envelope (uuid nv strm (pa_sequences p strm + 1)) mtype (pa_robot_id p) (pa_session_id p)
       (pa_sequences p strm + 1) now body corr strm))]"
proof -
  let ?e = "make_envelope (uuid nv strm (pa_sequences p strm + 1)) mtype (pa_robot_id p) (pa_session_id p)
       (pa_sequences p strm + 1) now body corr strm"
  obtain canonical where c: "rbind (encode_envelope ?e) decode_envelope = Inr canonical" and
    q: "q = p\<lparr>pa_sequences := (pa_sequences p)(strm := pa_sequences p strm + 1)\<rparr>" "es = [Published canonical]"
    using assms(1) by (auto simp: send_def pbind_def pmodify_def pgets_def plift_def pemit_def split: sum.splits)
  obtain b where "encode_envelope ?e = Inr b" "decode_envelope b = Inr canonical" using c by (auto simp: res_simps)
  then show ?thesis using decode_encoded[of ?e b canonical] assms(2) q by (simp add: make_envelope_def)
qed

definition safety_changed :: "participant \<Rightarrow> robot_state \<Rightarrow> bool" where
  "safety_changed p st = (pa_last_safety p \<noteq> None \<and> pa_last_safety p \<noteq> Some (st_safety st))"

lemma publish_state_messages:
  assumes "publish_state nv now corr (Some st) p = (q, es, Inr ())" "wf_json (state_payload st)"
  shows "es = (if safety_changed p st then [Published (canon_envelope (state_envelope nv p st now corr SAFETY_STREAM))] else []) @
       [Published (canon_envelope (state_envelope nv p st now corr OPERATIONAL_STREAM))] \<and>
     pa_last_safety q = Some (st_safety st) \<and> st_robot_id st = pa_robot_id p"
proof -
  have snap: "state_snapshot nv (Some st) p = (if st_robot_id st = pa_robot_id p then (p, [], Inr st)
      else (p, [], Inl (ValueError ''adapter state robot identity differs'')))"
    by (simp add: state_snapshot_def pbind_def plift_def pgets_def pret_def require_def)
  have id: "st_robot_id st = pa_robot_id p"
    using assms(1) snap by (auto simp: publish_state_def pbind_def split: if_splits)
  let ?set = "\<lambda>p. p\<lparr>pa_last_safety := Some (st_safety st)\<rparr>"
  have streams: "SAFETY_STREAM \<noteq> OPERATIONAL_STREAM" by (simp add: SAFETY_STREAM_def OPERATIONAL_STREAM_def)
  show ?thesis
  proof (cases "safety_changed p st")
    case True
    obtain p1 es1 r1 where s1: "send nv ''state'' (state_payload st) now corr SAFETY_STREAM p = (p1, es1, r1)" using prod_cases3 by blast
    have r1: "r1 = Inr ()" and rest: "\<exists>es2. send nv ''state'' (state_payload st) now corr OPERATIONAL_STREAM (?set p1) = (q, es2, Inr ()) \<and> es = es1 @ es2"
      using assms(1) snap id s1 True
      by (auto simp: publish_state_def safety_changed_def pbind_def pgets_def pmodify_def split: sum.splits prod.splits)
    obtain es2 where s2: "send nv ''state'' (state_payload st) now corr OPERATIONAL_STREAM (?set p1) = (q, es2, Inr ())" "es = es1 @ es2"
      using rest by blast
    show ?thesis
      using send_result[OF s1[unfolded r1] assms(2)] send_result[OF s2(1) assms(2)] s2(2) True id streams
      by (simp add: state_envelope_def)
  next
    case False
    then have "send nv ''state'' (state_payload st) now corr OPERATIONAL_STREAM (?set p) = (q, es, Inr ())"
      using assms(1) snap id
      by (auto simp: publish_state_def safety_changed_def pbind_def pgets_def pmodify_def pret_def split: sum.splits prod.splits)
    from send_result[OF this assms(2)] show ?thesis using False id by (simp add: state_envelope_def)
  qed
qed

text \<open>the heartbeat of a node. A round of \<open>run\<close> that ends without exception reads the adapter after the health check
  and sends, last, the state it read on the operational stream with the next sequence number; if the safety of the robot
  differs from the last published one, the same state goes out on the safety stream directly before.\<close>

lemma node_round_publishes_state:
  assumes "node_round env s = (s', es, Inr ())" "ne_health env s = (s1, es1, Inr ())"
    and "nat_state (ne_native env s1) = Inr st" "wf_json (state_payload st)"
  shows "\<exists>before p. es = es1 @ map Sent before @
       (if safety_changed p st then [Sent (Published (canon_envelope (state_envelope (ne_native env s1) p st (nd_now_ms s1) None SAFETY_STREAM)))] else []) @
       [Sent (Published (canon_envelope (state_envelope (ne_native env s1) p st (nd_now_ms s1) None OPERATIONAL_STREAM)))] \<and>
     pa_last_safety (nd_participant s') = Some (st_safety st) \<and> st_robot_id st = pa_robot_id p"
proof -
  let ?nv = "ne_native env s1" and ?now = "nd_now_ms s1"
  obtain mf where mf: "nat_manifest ?nv 0 = Inr mf"
    using assms(1,2) by (auto simp: node_round_def read_adapter_def pbind_def pgets_def plift_def split: sum.splits prod.splits)
  obtain p es2 r2 where m: "publish_manifest ?nv ?now (Some mf) False (nd_participant s1) = (p, es2, r2)" using prod_cases3 by blast
  obtain q es3 r3 where st: "publish_state ?nv ?now None (Some st) p = (q, es3, r3)" using prod_cases3 by blast
  have run: "r3 = Inr ()" "s' = s1\<lparr>nd_participant := q\<rparr>" "es = es1 @ map Sent es2 @ map Sent es3"
    using assms(1,2,3) mf m st
    by (auto simp: node_round_def read_adapter_def pbind_def pgets_def plift_def pret_def on_participant_def split: sum.splits)
  show ?thesis
    using publish_state_messages[OF st[unfolded run(1)] assms(4)] run(2,3)
    by (intro exI[of _ es2] exI[of _ p]) auto
qed

section \<open>Starting and stopping\<close>

definition keeps_bus :: "'a nm \<Rightarrow> bool" where
  "keeps_bus f \<longleftrightarrow> (\<forall>s s' es r. f s = (s', es, r) \<longrightarrow>
     nd_bus_running s' = nd_bus_running s \<and> nd_started s' = nd_started s \<and> nd_closed s' = nd_closed s)"


lemma keeps_bus_simps [simp]:
  "keeps_bus (pret x)" "keeps_bus (plift r)" "keeps_bus (pgets h)" "keeps_bus (on_participant f)" "keeps_bus (run_watchdog env now)"
  by (auto simp: keeps_bus_def pret_def plift_def pgets_def on_participant_def run_watchdog_def split: prod.splits option.splits)



text \<open>Closing is final and idempotent: whatever the shutdown of the work in progress does, a started bus is stopped, and a
  second \<open>close\<close> does nothing.\<close>

lemma node_close_final:
  assumes "keeps_bus (ne_shutdown env)" "node_close env s = (s', es, r)" "nd_started s \<longrightarrow> nd_bus_running s" "\<not> nd_closed s"
  shows "nd_closed s' \<and> \<not> nd_started s' \<and> (nd_started s \<longrightarrow> \<not> nd_bus_running s') \<and> node_close env s' = (s', [], Inr ())"
proof -
  let ?s1 = "s\<lparr>nd_closed := True, nd_watching := False\<rparr>"
  obtain s2 es2 r2 where sh: "ne_shutdown env ?s1 = (s2, es2, r2)" using prod_cases3 by blast
  have k: "nd_started s2 = nd_started s" "nd_closed s2" "nd_bus_running s2 = nd_bus_running s"
    using assms(1) sh unfolding keeps_bus_def by fastforce+
  have "s' = (if nd_started s then s2\<lparr>nd_bus_running := False, nd_started := False\<rparr> else s2)"
    using assms(2,4) sh k
    by (auto simp: node_close_def pbind_def pgets_def pmodify_def finally_do_def stop_watchdog_def stop_bus_def pret_def
        split: if_splits sum.splits)
  then show ?thesis using k by (auto simp: node_close_def pbind_def pgets_def pret_def)
qed

section \<open>A concrete node\<close>

definition calm_manifest :: manifest where
  "calm_manifest = \<lparr>mf_robot_id = ''r1'', mf_manufacturer = ''m'', mf_model = ''m'', mf_robot_class = ''arm'', mf_capabilities = [],
     mf_adapter_version = ''1''\<rparr>"

definition calm_state :: robot_state where
  "calm_state = \<lparr>st_robot_id = ''r1'', st_mode = MoIdle, st_safety = SaNormal, st_activity = ''a'', st_intent = ''i'',
     st_progress = JInt 0, st_summary = ''s'', st_health = HeHealthy, st_battery = None, st_fresh_for_ms = 1,
     st_blockers = [], st_resources = [], st_assignment_id = None, st_pose = None, st_sensor_references = []\<rparr>"

definition calm_native :: "manifest res \<Rightarrow> native" where
  "calm_native mf = \<lparr>nat_manifest = (\<lambda>_. mf), nat_state = Inr calm_state, nat_accept = (\<lambda>_. Inl (NativeError [])),
     nat_cancel = (\<lambda>_ _. Inl (NativeError [])), schema_valid = (\<lambda>_. True), conforms = (\<lambda>_ _. True), clock = (\<lambda>_. 5),
     uuid = (\<lambda>_ _. ''m''), sha = (\<lambda>x. x)\<rparr>"

definition calm_env :: "manifest res \<Rightarrow> node_env" where
  "calm_env mf = \<lparr>ne_native = (\<lambda>_. calm_native mf), ne_raises = (\<lambda>_. False), ne_health = pret (), ne_wait = (\<lambda>_. pret False),
     ne_bus_start = (\<lambda>_. Inr (''127.0.0.1'', 1)), ne_shutdown = pret ()\<rparr>"

definition calm_node :: "bool \<Rightarrow> node" where
  "calm_node started = \<lparr>nd_participant = \<lparr>pa_robot_id = ''r1'', pa_session_id = ''s1'', pa_sequences = (\<lambda>_. 1),
       pa_last_manifest = Some calm_manifest, pa_last_safety = None, pa_journal = MemoryJournal mj_empty,
       pa_authorizer = DenyAll, pa_workers = 0, pa_queue = [], pa_running = []\<rparr>,
     nd_registry = Map.empty, nd_watchdog = None, nd_watching = False, nd_bus_running = started, nd_now_ms = 5, nd_hz = (2, 0),
     nd_started = started, nd_closed = False\<rparr>"


lemma calm_publication:
  "is_ok (rbind (encode_envelope (state_envelope (calm_native (Inr calm_manifest)) (nd_participant (calm_node True)) calm_state 5 None
     OPERATIONAL_STREAM)) decode_envelope)"
  by code_simp

theorem node_round_publishes_state_witness:
  "\<exists>s' es e. node_round (calm_env (Inr calm_manifest)) (calm_node True) = (s', es @ [Sent (Published e)], Inr ()) \<and>
     env_sequence e = 2 \<and> env_stream e = OPERATIONAL_STREAM \<and> message_type e = ''state''"
proof -
  let ?env = "calm_env (Inr calm_manifest)" and ?s = "calm_node True"
  let ?p = "nd_participant ?s" and ?nv = "calm_native (Inr calm_manifest)"
  let ?e = "state_envelope ?nv ?p calm_state 5 None OPERATIONAL_STREAM"
  have fields: "pa_last_manifest ?p = Some calm_manifest" "pa_last_safety ?p = None" "nd_now_ms ?s = 5" "pa_robot_id ?p = ''r1''"
    "mf_robot_id calm_manifest = ''r1''" "mf_capabilities calm_manifest = []" "st_robot_id calm_state = ''r1''"
    "ne_health ?env = pret ()" "ne_native ?env = (\<lambda>_. ?nv)" "nat_manifest ?nv 0 = Inr calm_manifest" "nat_state ?nv = Inr calm_state"
    by (simp_all add: calm_node_def calm_manifest_def calm_state_def calm_env_def calm_native_def)
  obtain c where c: "rbind (encode_envelope ?e) decode_envelope = Inr c" using calm_publication by (auto simp: is_ok_iff)
  then have c': "rbind (encode_envelope (make_envelope (uuid ?nv OPERATIONAL_STREAM (pa_sequences ?p OPERATIONAL_STREAM + 1)) ''state''
      ''r1'' (pa_session_id ?p) (pa_sequences ?p OPERATIONAL_STREAM + 1) 5 (state_payload calm_state) None OPERATIONAL_STREAM))
      decode_envelope = Inr c"
    by (simp add: state_envelope_def fields)
  have m: "publish_manifest ?nv 5 (Some calm_manifest) False ?p = (?p, [], Inr False)"
    by (simp add: publish_manifest_def manifest_snapshot_def pbind_def plift_def pgets_def pret_def require_def fields)
  have "\<exists>q. publish_state ?nv 5 None (Some calm_state) ?p = (q, [Published c], Inr ())"
    by (simp add: publish_state_def state_snapshot_def send_def pbind_def plift_def pgets_def pret_def pmodify_def pemit_def
        require_def fields c')
  then obtain q where st: "publish_state ?nv 5 None (Some calm_state) ?p = (q, [Published c], Inr ())" by blast
  have round: "node_round ?env ?s = (?s\<lparr>nd_participant := q\<rparr>, [Sent (Published c)], Inr ())"
    by (simp add: node_round_def read_adapter_def pbind_def pgets_def plift_def pret_def on_participant_def fields m st)
  have h: "ne_health ?env ?s = (?s, [], Inr ())" by (simp add: fields pret_def)
  have n: "nat_state (ne_native ?env ?s) = Inr calm_state" by (simp add: fields)
  have wf: "wf_json (state_payload calm_state)" by (simp add: state_payload_def calm_state_def)
  have "\<exists>p. c = canon_envelope (state_envelope ?nv p calm_state 5 None OPERATIONAL_STREAM)"
    using node_round_publishes_state[OF round h n wf] by (auto simp: fields)
  moreover have "canon_envelope ?e = c"
  proof -
    obtain b where b: "encode_envelope ?e = Inr b" "decode_envelope b = Inr c" using c by (auto simp: res_simps)
    have "wf_json (env_payload ?e)" using wf by simp
    from decode_encoded[OF b(1) this, of c] b(2) show ?thesis by blast
  qed
  moreover have "env_sequence (canon_envelope ?e) = 2"
    by (simp add: canon_envelope_def calm_node_def)
  ultimately show ?thesis using round
    by (intro exI[of _ "?s\<lparr>nd_participant := q\<rparr>"] exI[of _ "[]"] exI[of _ c]) (auto simp: canon_envelope_def)
qed

end
