(* ===== verification/Credentials.thy ===== *)
theory Credentials
  imports Network_Codec
begin

text \<open>
  \<open>credentials.py\<close>: the robot-local inventory of externally issued credentials. The database is \<open>credential_db\<close>, the
  directories with the files of a generation are \<open>disk\<close>; several robots may keep their generations in one
  database. What the \<open>cryptography\<close> package answers, SHA-256, writing a file, resolving a path and the way SQLite
  compares a bound value with a column are parameters (\<open>credential_env\<close>). A certificate is what the source
  asks of it: its URIs, its public key, its dates as milliseconds and its DER bytes.
\<close>

section \<open>Data\<close>

record credential_generation =
  cg_generation :: int
  cg_robot_id :: string
  cg_fingerprint :: string
  cg_certificate_path :: string
  cg_private_key_path :: string
  cg_ca_path :: string
  cg_not_before_ms :: int
  cg_not_after_ms :: int
  cg_status :: string

text \<open>A row of \<open>credential_generations\<close>: the columns \<open>_generation\<close> reads, and the two it leaves out.\<close>

record credential_row =
  cr_generation :: credential_generation
  cr_created_at_ms :: int
  cr_activated_at_ms :: "int option"

record revoked_row =
  rv_fingerprint :: string
  rv_reason :: string
  rv_revoked_at_ms :: int

record credential_event =
  ce_sequence :: int
  ce_robot_id :: string
  ce_event_type :: string
  ce_occurred_at_ms :: int
  ce_detail_json :: string

record credential_db =
  db_generations :: "credential_row list"
  db_revoked :: "revoked_row list"
  db_events :: "credential_event list"

type_synonym disk = "(string \<times> (string \<times> string) list) list"

record credential_store =
  cred_robot_id :: string
  cred_directory :: string
  cred_db :: credential_db
  cred_disk :: disk

record x509_certificate =
  x_uris :: "string list option res"
  x_public_key :: string
  x_not_before_ms :: int
  x_not_after_ms :: int
  x_der :: string

record credential_env =
  load_certificate :: "string \<Rightarrow> x509_certificate res"
  load_private_key :: "string \<Rightarrow> string res"
  verify_issued_by :: "x509_certificate \<Rightarrow> x509_certificate \<Rightarrow> unit res"
  sha256_hex :: "string \<Rightarrow> string"
  write_file :: "string \<Rightarrow> string \<Rightarrow> unit res"
  resolve_path :: "string \<Rightarrow> string res"
  sql_matches :: "json \<Rightarrow> json \<Rightarrow> bool res"

section \<open>Opening\<close>

text \<open>\<open>key in detail\<close> and \<open>detail[key]\<close> for a JSON value of any kind.\<close>

definition detail_contains :: "string \<Rightarrow> json \<Rightarrow> bool res" where
  "detail_contains key v = (case v of
      JObj ms \<Rightarrow> Inr (map_of ms key \<noteq> None)
    | JArr xs \<Rightarrow> Inr (JStr key \<in> set xs)
    | JStr s \<Rightarrow> Inr (fst (snd (py_partition key s)) \<noteq> [])
    | _ \<Rightarrow> Inl (TypeError ''argument is not iterable''))"

definition detail_lookup :: "string \<Rightarrow> json \<Rightarrow> json res" where
  "detail_lookup key v = (case v of
      JObj ms \<Rightarrow> (case map_of ms key of Some x \<Rightarrow> Inr x | None \<Rightarrow> Inl (KeyError key))
    | _ \<Rightarrow> Inl (TypeError ''indices must be integers''))"

text \<open>The robots of the generations whose column matches the value, in the order of the rows.\<close>

definition owners :: "credential_env \<Rightarrow> (credential_generation \<Rightarrow> json) \<Rightarrow> json \<Rightarrow> credential_row list \<Rightarrow> string list res" where
  "owners env column v rows =
     rbind (rmap (\<lambda>r. rbind (sql_matches env (column (cr_generation r)) v) (\<lambda>b.
                      Inr (if b then [cg_robot_id (cr_generation r)] else []))) rows) (\<lambda>xs. Inr (concat xs))"

definition event_owner :: "credential_env \<Rightarrow> credential_row list \<Rightarrow> json \<Rightarrow> string option res" where
  "event_owner env rows detail =
     rbind (detail_contains ''generation'' detail) (\<lambda>g.
     if g then
       rbind (detail_lookup ''generation'' detail) (\<lambda>v.
       rbind (owners env (\<lambda>r. JInt (cg_generation r)) v rows) (\<lambda>xs. Inr (case xs of [] \<Rightarrow> None | x # _ \<Rightarrow> Some x)))
     else
       rbind (detail_contains ''fingerprint_sha256'' detail) (\<lambda>f.
       if f then
         rbind (detail_lookup ''fingerprint_sha256'' detail) (\<lambda>v.
         rbind (owners env (\<lambda>r. JStr (cg_fingerprint r)) v rows) (\<lambda>xs.
         Inr (case remdups xs of [x] \<Rightarrow> Some x | _ \<Rightarrow> None)))
       else Inr None))"

text \<open>\<open>_migrate_event_robot_ids\<close> on the events of a table without \<open>robot_id\<close>; their robot column is not read.\<close>

definition migrate_event_robot_ids :: "credential_env \<Rightarrow> credential_row list \<Rightarrow> credential_event list \<Rightarrow> credential_event list res" where
  "migrate_event_robot_ids env rows legacy =
     rmap (\<lambda>e. case json_loads (ce_detail_json e) of
                 None \<Rightarrow> Inl (CredentialError ''legacy credential event is invalid'')
               | Some detail \<Rightarrow>
                   rbind (event_owner env rows detail) (\<lambda>owner. case owner of
                     None \<Rightarrow> Inl (CredentialError ''legacy credential event ownership is unknown'')
                   | Some robot \<Rightarrow> Inr (e\<lparr>ce_robot_id := robot\<rparr>))) legacy"

text \<open>The constructor on an existing database; \<open>legacy\<close> says that its events have no \<open>robot_id\<close> yet.\<close>

definition cred_init :: "credential_env \<Rightarrow> bool \<Rightarrow> string \<Rightarrow> string \<Rightarrow> credential_db \<Rightarrow> disk \<Rightarrow> credential_store res" where
  "cred_init env legacy robot dir db files =
     rbind (require (robot \<noteq> [] \<and> length robot \<le> 128) (CredentialError ''robot_id is required and bounded'')) (\<lambda>_.
     rbind (resolve_path env dir) (\<lambda>dir'.
     rbind (if legacy then migrate_event_robot_ids env (db_generations db) (db_events db) else Inr (db_events db)) (\<lambda>evs.
     Inr \<lparr>cred_robot_id = robot, cred_directory = dir', cred_db = db\<lparr>db_events := evs\<rparr>, cred_disk = files\<rparr>)))"

section \<open>Validation of a bundle\<close>

definition as_credential_error :: "string \<Rightarrow> 'a res \<Rightarrow> 'a res" where
  "as_credential_error m r = (case r of
      Inl (ValueError _) \<Rightarrow> Inl (CredentialError m)
    | Inl (TypeError _) \<Rightarrow> Inl (CredentialError m)
    | _ \<Rightarrow> r)"

definition ump_identities :: "string list \<Rightarrow> string list" where
  "ump_identities uris =
     map (drop (length IDENTITY_URI_PREFIX)) (filter (\<lambda>u. take (length IDENTITY_URI_PREFIX) u = IDENTITY_URI_PREFIX) uris)"

definition validate_bundle ::
  "credential_env \<Rightarrow> string \<Rightarrow> string \<Rightarrow> string \<Rightarrow> string \<Rightarrow> int \<Rightarrow> (string \<times> int \<times> int) res" where
  "validate_bundle env robot certificate key ca now =
     rbind (as_credential_error ''credential bundle contains invalid or encrypted PEM''
       (rbind (load_certificate env certificate) (\<lambda>c.
        rbind (load_private_key env key) (\<lambda>k.
        rbind (load_certificate env ca) (\<lambda>a. Inr (c, k, a)))))) (\<lambda>(c, k, a).
     rbind (x_uris c) (\<lambda>names. case names of
       None \<Rightarrow> Inl (CredentialError ''certificate has no subject alternative name'')
     | Some uris \<Rightarrow>
         rbind (require (set (ump_identities uris) = {robot})
                  (CredentialError ''certificate must contain exactly the configured UMP robot identity'')) (\<lambda>_.
         rbind (as_credential_error ''certificate was not issued by the supplied CA'' (verify_issued_by env c a)) (\<lambda>_.
         rbind (require (x_public_key c = k) (CredentialError ''private key does not match certificate'')) (\<lambda>_.
         rbind (require (\<not> (x_not_before_ms c > now \<or> x_not_after_ms c \<le> now))
                  (CredentialError ''certificate is not currently valid'')) (\<lambda>_.
         Inr (sha256_hex env (x_der c), x_not_before_ms c, x_not_after_ms c)))))))"

section \<open>Operations\<close>

definition cred_fingerprint :: "string \<Rightarrow> string res" where
  "cred_fingerprint v =
     rbind (require (hex_sha256 (map to_lower v)) (CredentialError ''fingerprint must be 64 hexadecimal characters'')) (\<lambda>_.
     Inr (map to_lower v))"

definition cred_event :: "string \<Rightarrow> string \<Rightarrow> int \<Rightarrow> (string \<times> json) list \<Rightarrow> credential_db \<Rightarrow> credential_db" where
  "cred_event robot etype now detail db =
     db\<lparr>db_events := db_events db @
        [\<lparr>ce_sequence = fold max (map ce_sequence (db_events db)) 0 + 1, ce_robot_id = robot, ce_event_type = etype,
          ce_occurred_at_ms = now, ce_detail_json = json_dumps_ascii (JObj detail)\<rparr>]\<rparr>"

definition cred_row :: "int \<Rightarrow> credential_db \<Rightarrow> credential_row res" where
  "cred_row n db =
     rbind (sql_int n) (\<lambda>_.
     case find (\<lambda>r. cg_generation (cr_generation r) = n) (db_generations db) of
       None \<Rightarrow> Inl (CredentialError ''credential generation does not exist'')
     | Some r \<Rightarrow> Inr r)"

definition cred_get :: "int \<Rightarrow> credential_store \<Rightarrow> credential_generation res" where
  "cred_get n s = rbind (cred_row n (cred_db s)) (\<lambda>r. Inr (cr_generation r))"

definition fingerprint_revoked :: "string \<Rightarrow> credential_db \<Rightarrow> bool" where
  "fingerprint_revoked fp db = list_ex (\<lambda>v. rv_fingerprint v = fp) (db_revoked db)"

definition is_revoked :: "string \<Rightarrow> credential_db \<Rightarrow> bool res" where
  "is_revoked fp db = rbind (cred_fingerprint fp) (\<lambda>f. Inr (fingerprint_revoked f db))"

definition next_generation :: "credential_db \<Rightarrow> int" where
  "next_generation db = fold max (map (cg_generation \<circ> cr_generation) (db_generations db)) 0 + 1"

definition generation_directory :: "string \<Rightarrow> int \<Rightarrow> string" where
  "generation_directory dir n = dir @ ''/generation-'' @ show_int n"

definition bundle_files :: "string \<Rightarrow> string \<Rightarrow> string \<Rightarrow> (string \<times> string) list" where
  "bundle_files certificate key ca = [(''certificate.pem'', certificate), (''private-key.pem'', key), (''ca.pem'', ca)]"

definition make_directory :: "string \<Rightarrow> disk \<Rightarrow> unit res" where
  "make_directory d files = require (map_of files d = None) (RuntimeError ''OSError'')"

definition remove_directory :: "string \<Rightarrow> disk \<Rightarrow> disk" where
  "remove_directory d files = filter (\<lambda>(d', _). d' \<noteq> d) files"

definition write_bundle :: "credential_env \<Rightarrow> string \<Rightarrow> (string \<times> string) list \<Rightarrow> unit res" where
  "write_bundle env d bundle = rforall (\<lambda>(name, content). write_file env (d @ ''/'' @ name) content) bundle"

text \<open>The inserted row, with the paths of the following \<open>UPDATE\<close>.\<close>

definition staged_generation :: "string \<Rightarrow> string \<Rightarrow> string \<Rightarrow> int \<Rightarrow> int \<Rightarrow> int \<Rightarrow> int \<Rightarrow> credential_row" where
  "staged_generation robot d fp not_before not_after n now =
     \<lparr>cr_generation = \<lparr>cg_generation = n, cg_robot_id = robot, cg_fingerprint = fp,
        cg_certificate_path = d @ ''/certificate.pem'', cg_private_key_path = d @ ''/private-key.pem'',
        cg_ca_path = d @ ''/ca.pem'', cg_not_before_ms = not_before, cg_not_after_ms = not_after, cg_status = ''staged''\<rparr>,
      cr_created_at_ms = now, cr_activated_at_ms = None\<rparr>"

definition insert_generation :: "string \<Rightarrow> int \<Rightarrow> int \<Rightarrow> int \<Rightarrow> credential_db \<Rightarrow> int res" where
  "insert_generation fp not_before not_after now db =
     rbind (sql_int not_before) (\<lambda>_. rbind (sql_int not_after) (\<lambda>_. rbind (sql_int now) (\<lambda>_.
     rbind (require (\<not> list_ex (\<lambda>r. cg_fingerprint (cr_generation r) = fp) (db_generations db))
              (CredentialError ''certificate is already enrolled'')) (\<lambda>_.
     Inr (next_generation db)))))"

text \<open>What precedes the first file: reading the three files, their validation and the inserted row.\<close>

definition enrollment_check ::
  "credential_env \<Rightarrow> string res \<Rightarrow> string res \<Rightarrow> string res \<Rightarrow> int \<Rightarrow> credential_store
   \<Rightarrow> ((string \<times> string) list \<times> string \<times> int \<times> int \<times> int) res" where
  "enrollment_check env certificate key ca now s =
     rbind certificate (\<lambda>c. rbind key (\<lambda>k. rbind ca (\<lambda>a.
     rbind (validate_bundle env (cred_robot_id s) c k a now) (\<lambda>(fp, nb, na).
     rbind (insert_generation fp nb na now (cred_db s)) (\<lambda>n. Inr (bundle_files c k a, fp, nb, na, n))))))"

definition cred_enroll ::
  "credential_env \<Rightarrow> string res \<Rightarrow> string res \<Rightarrow> string res \<Rightarrow> int \<Rightarrow> credential_store
   \<Rightarrow> credential_store \<times> credential_generation res" where
  "cred_enroll env certificate key ca now s = (case enrollment_check env certificate key ca now s of
      Inl e \<Rightarrow> (s, Inl e)
    | Inr (files, fp, nb, na, n) \<Rightarrow>
        let d = generation_directory (cred_directory s) n;
            row = staged_generation (cred_robot_id s) d fp nb na n now in
        (case rbind (make_directory d (cred_disk s)) (\<lambda>_. write_bundle env d files) of
           Inl e \<Rightarrow> (s\<lparr>cred_disk := remove_directory d (cred_disk s)\<rparr>, Inl e)
         | Inr _ \<Rightarrow>
             let s' = s\<lparr>cred_disk := (d, files) # cred_disk s,
                cred_db := cred_event (cred_robot_id s) ''enrolled'' now
                  [(''generation'', JInt n), (''fingerprint_sha256'', JStr fp)]
                  ((cred_db s)\<lparr>db_generations := db_generations (cred_db s) @ [row]\<rparr>)\<rparr>
             in (s', cred_get n s')))"

definition set_credential_status :: "string \<Rightarrow> credential_row \<Rightarrow> credential_row" where
  "set_credential_status st r = r\<lparr>cr_generation := (cr_generation r)\<lparr>cg_status := st\<rparr>\<rparr>"

definition row_active :: "string \<Rightarrow> credential_row \<Rightarrow> bool" where
  "row_active robot r = (cg_robot_id (cr_generation r) = robot \<and> cg_status (cr_generation r) = ''active'')"

definition activated_rows :: "string \<Rightarrow> int \<Rightarrow> int \<Rightarrow> credential_row list \<Rightarrow> credential_row list" where
  "activated_rows robot n now rows =
     upd_where (\<lambda>r. cg_generation (cr_generation r) = n) (\<lambda>r. (set_credential_status ''active'' r)\<lparr>cr_activated_at_ms := Some now\<rparr>)
       (upd_where (row_active robot) (set_credential_status ''retired'') rows)"

definition activation_check :: "int \<Rightarrow> int \<Rightarrow> credential_store \<Rightarrow> unit res" where
  "activation_check n now s =
     rbind (cred_row n (cred_db s)) (\<lambda>r. let g = cr_generation r in
     rbind (require (cg_robot_id g = cred_robot_id s) (CredentialError ''credential belongs to another robot'')) (\<lambda>_.
     rbind (require (\<not> (cg_not_before_ms g > now \<or> cg_not_after_ms g \<le> now))
              (CredentialError ''credential is not currently valid'')) (\<lambda>_.
     rbind (is_revoked (cg_fingerprint g) (cred_db s)) (\<lambda>b.
     rbind (require (\<not> b) (CredentialError ''revoked credential cannot be activated'')) (\<lambda>_.
     sql_int now)))))"

definition cred_activate :: "int \<Rightarrow> int \<Rightarrow> credential_store \<Rightarrow> credential_store \<times> credential_generation res" where
  "cred_activate n now s = (case activation_check n now s of
      Inl e \<Rightarrow> (s, Inl e)
    | Inr _ \<Rightarrow>
        let s' = s\<lparr>cred_db := cred_event (cred_robot_id s) ''activated'' now [(''generation'', JInt n)]
               ((cred_db s)\<lparr>db_generations := activated_rows (cred_robot_id s) n now (db_generations (cred_db s))\<rparr>)\<rparr>
        in (s', cred_get n s'))"

text \<open>The checks of \<open>revoke\<close> and its insertion; the result is the fingerprint in lower case.\<close>

definition revocation_check :: "string \<Rightarrow> string \<Rightarrow> int \<Rightarrow> credential_db \<Rightarrow> string res" where
  "revocation_check fingerprint reason now db =
     rbind (cred_fingerprint fingerprint) (\<lambda>fp.
     rbind (require (\<not> (py_blank reason \<or> length reason > 512))
              (CredentialError ''revocation reason is required and bounded'')) (\<lambda>_.
     rbind (sql_int now) (\<lambda>_.
     rbind (require (\<not> fingerprint_revoked fp db) (CredentialError ''certificate is already revoked'')) (\<lambda>_.
     Inr fp))))"

definition cred_revoke :: "string \<Rightarrow> string \<Rightarrow> int \<Rightarrow> credential_store \<Rightarrow> credential_store \<times> unit res" where
  "cred_revoke fingerprint reason now s = (case revocation_check fingerprint reason now (cred_db s) of
      Inl e \<Rightarrow> (s, Inl e)
    | Inr fp \<Rightarrow>
        (s\<lparr>cred_db := cred_event (cred_robot_id s) ''revoked'' now [(''fingerprint_sha256'', JStr fp), (''reason'', JStr reason)]
            ((cred_db s)\<lparr>db_revoked := db_revoked (cred_db s) @
                  [\<lparr>rv_fingerprint = fp, rv_reason = reason, rv_revoked_at_ms = now\<rparr>],
               db_generations := upd_where (\<lambda>r. cg_fingerprint (cr_generation r) = fp) (set_credential_status ''retired'')
                  (db_generations (cred_db s))\<rparr>)\<rparr>, Inr ()))"

definition active_row :: "string \<Rightarrow> credential_db \<Rightarrow> credential_row option" where
  "active_row robot db = find (row_active robot) (db_generations db)"

definition cred_active :: "credential_store \<Rightarrow> credential_generation option" where
  "cred_active s = map_option cr_generation (active_row (cred_robot_id s) (cred_db s))"

definition require_generation ::
  "credential_env \<Rightarrow> credential_generation \<Rightarrow> string \<Rightarrow> string \<Rightarrow> string \<Rightarrow> bool \<Rightarrow> int \<Rightarrow> unit res" where
  "require_generation env g certificate key ca revoked now =
     rbind (rmap (resolve_path env) [cg_certificate_path g, cg_private_key_path g, cg_ca_path g]) (\<lambda>expected.
     rbind (rmap (resolve_path env) [certificate, key, ca]) (\<lambda>configured.
     rbind (require (configured = expected)
              (CredentialError ''network TLS files do not match the active credential generation'')) (\<lambda>_.
     rbind (require (\<not> revoked) (CredentialError ''active credential generation is revoked'')) (\<lambda>_.
     rbind (require (\<not> cg_not_before_ms g > now) (CredentialError ''active credential generation is not yet valid'')) (\<lambda>_.
     require (\<not> cg_not_after_ms g \<le> now) (CredentialError ''active credential generation is expired''))))))"

definition require_active_bundle ::
  "credential_env \<Rightarrow> string \<Rightarrow> string \<Rightarrow> string \<Rightarrow> int \<Rightarrow> credential_store \<Rightarrow> credential_generation res" where
  "require_active_bundle env certificate key ca now s = (case cred_active s of
      None \<Rightarrow> Inl (CredentialError ''robot has no active credential generation'')
    | Some g \<Rightarrow>
        rbind (is_revoked (cg_fingerprint g) (cred_db s)) (\<lambda>revoked.
        rbind (require_generation env g certificate key ca revoked now) (\<lambda>_. Inr g)))"

definition event_document :: "credential_event \<Rightarrow> json res" where
  "event_document e =
     rbind (loads_res (ce_detail_json e)) (\<lambda>detail.
     Inr (JObj [(''sequence'', JInt (ce_sequence e)), (''event_type'', JStr (ce_event_type e)),
                (''occurred_at_ms'', JInt (ce_occurred_at_ms e)), (''detail'', detail)]))"

definition robot_events :: "string \<Rightarrow> credential_db \<Rightarrow> credential_event list" where
  "robot_events robot db = sort_key ce_sequence (filter (\<lambda>e. ce_robot_id e = robot) (db_events db))"

definition cred_events :: "credential_store \<Rightarrow> json list res" where
  "cred_events s = rmap event_document (robot_events (cred_robot_id s) (cred_db s))"

section \<open>Read-only queries\<close>

text \<open>\<open>opened\<close> is the answer of opening the file read-only with the check of its columns.\<close>

record credential_summary =
  sm_generation :: credential_generation
  sm_effective_status :: string
  sm_revoked :: bool
  sm_created_at_ms :: int
  sm_activated_at_ms :: "int option"

definition EFFECTIVE_CREDENTIAL_STATUSES :: "string list" where
  "EFFECTIVE_CREDENTIAL_STATUSES = [''active'', ''staged'', ''retired'', ''not_yet_valid'', ''expired'', ''revoked'']"

definition generation_summary :: "int \<Rightarrow> credential_db \<Rightarrow> credential_row \<Rightarrow> credential_summary" where
  "generation_summary now db r = (let g = cr_generation r; revoked = fingerprint_revoked (cg_fingerprint g) db in
     \<lparr>sm_generation = g,
      sm_effective_status = (if revoked then ''revoked'' else if cg_not_before_ms g > now then ''not_yet_valid''
         else if cg_not_after_ms g \<le> now then ''expired'' else cg_status g),
      sm_revoked = revoked, sm_created_at_ms = cr_created_at_ms r, sm_activated_at_ms = cr_activated_at_ms r\<rparr>)"

definition inventory :: "string \<Rightarrow> int \<Rightarrow> credential_db \<Rightarrow> credential_summary list" where
  "inventory robot now db =
     filter (\<lambda>m. cg_robot_id (sm_generation m) = robot) (map (generation_summary now db) (db_generations db))"

definition read_credential_generations ::
  "unit res \<Rightarrow> string \<Rightarrow> int \<Rightarrow> string option \<Rightarrow> string option \<Rightarrow> int \<Rightarrow> credential_db \<Rightarrow> credential_summary list res" where
  "read_credential_generations opened robot now effective stored limit db =
     rbind (require (\<not> py_blank robot) (CredentialError ''robot_id is required'')) (\<lambda>_.
     rbind (require (now \<ge> 0) (CredentialError ''now_ms must be a non-negative integer'')) (\<lambda>_.
     rbind (require (case effective of None \<Rightarrow> True | Some st \<Rightarrow> st \<in> set EFFECTIVE_CREDENTIAL_STATUSES)
              (CredentialError ''effective credential status is invalid'')) (\<lambda>_.
     rbind (require (case stored of None \<Rightarrow> True | Some st \<Rightarrow> st \<in> set [''staged'', ''active'', ''retired''])
              (CredentialError ''stored credential status is invalid'')) (\<lambda>_.
     rbind (require (1 \<le> limit \<and> limit \<le> 1000) (CredentialError ''credential limit must be between 1 and 1000'')) (\<lambda>_.
     rbind opened (\<lambda>_. rbind (sql_int now) (\<lambda>_.
     Inr (take (nat limit) (rev (sort_key (cg_generation \<circ> sm_generation)
            (filter (\<lambda>m. (case effective of None \<Rightarrow> True | Some st \<Rightarrow> sm_effective_status m = st) \<and>
                         (case stored of None \<Rightarrow> True | Some st \<Rightarrow> cg_status (sm_generation m) = st))
               (inventory robot now db))))))))))))"

definition read_credential_generation :: "unit res \<Rightarrow> string \<Rightarrow> int \<Rightarrow> int \<Rightarrow> credential_db \<Rightarrow> credential_summary res" where
  "read_credential_generation opened robot n now db =
     rbind (require (n \<ge> 1) (CredentialError ''generation must be a positive integer'')) (\<lambda>_.
     rbind (require (\<not> py_blank robot) (CredentialError ''robot_id is required'')) (\<lambda>_.
     rbind (require (now \<ge> 0) (CredentialError ''now_ms must be a non-negative integer'')) (\<lambda>_.
     rbind opened (\<lambda>_. rbind (sql_int now) (\<lambda>_. rbind (sql_int n) (\<lambda>_.
     case find (\<lambda>m. cg_generation (sm_generation m) = n) (inventory robot now db) of
       None \<Rightarrow> Inl (CredentialError ''credential generation does not exist'')
     | Some m \<Rightarrow> Inr m))))))"

definition read_credential_events :: "unit res \<Rightarrow> string \<Rightarrow> int \<Rightarrow> credential_db \<Rightarrow> json list res" where
  "read_credential_events opened robot limit db =
     rbind (require (\<not> py_blank robot) (CredentialError ''robot_id is required'')) (\<lambda>_.
     rbind (require (1 \<le> limit \<and> limit \<le> 1000) (CredentialError ''event limit must be between 1 and 1000'')) (\<lambda>_.
     rbind opened (\<lambda>_.
     as_credential_error ''credential event row is invalid''
       (rmap event_document (rev (take (nat limit) (rev (robot_events robot db))))))))"

definition read_active_credential ::
  "credential_env \<Rightarrow> unit res \<Rightarrow> string \<Rightarrow> string \<Rightarrow> string \<Rightarrow> string \<Rightarrow> int \<Rightarrow> credential_db \<Rightarrow> credential_generation res" where
  "read_active_credential env opened robot certificate key ca now db =
     rbind opened (\<lambda>_.
     case active_row robot db of
       None \<Rightarrow> Inl (CredentialError ''robot has no active credential generation'')
     | Some r \<Rightarrow>
         rbind (require_generation env (cr_generation r) certificate key ca
                  (fingerprint_revoked (cg_fingerprint (cr_generation r)) db) now) (\<lambda>_. Inr (cr_generation r)))"

end
