(* ===== verification/Credential_Runs.thy ===== *)
theory Credential_Runs
  imports Credentials
begin

text \<open>
  The histories of a credential database: robots that open it, enroll, activate and revoke, and processes that end in
  the middle of an enrollment. \<open>cred_inv\<close> is what every history keeps; on it rest the theorems about the bundle a
  node starts with, about revocation and about the inventory.
\<close>

section \<open>Histories\<close>

datatype cred_op =
    CrOpen string string
  | CrEnroll "string res" "string res" "string res" int
  | CrInterrupted "string res" "string res" "string res" int nat
  | CrActivate int int
  | CrRevoke string string int

text \<open>The process ends after the directory and some of the files were written: SQLite rolls the transaction was.\<close>

definition interrupted_enroll ::
  "credential_env \<Rightarrow> string res \<Rightarrow> string res \<Rightarrow> string res \<Rightarrow> int \<Rightarrow> nat \<Rightarrow> credential_store \<Rightarrow> credential_store" where
  "interrupted_enroll env c k a now written s = (case cred_enroll env c k a now s of
      (s', Inl _) \<Rightarrow> s'
    | (s', Inr _) \<Rightarrow> s\<lparr>cred_disk := map_prod id (take written) (hd (cred_disk s')) # cred_disk s\<rparr>)"

fun cred_do :: "credential_env \<Rightarrow> cred_op \<Rightarrow> credential_store \<Rightarrow> credential_store" where
  "cred_do env (CrOpen robot dir) s =
     (case cred_init env False robot dir (cred_db s) (cred_disk s) of Inl _ \<Rightarrow> s | Inr s' \<Rightarrow> s')"
| "cred_do env (CrEnroll c k a now) s = fst (cred_enroll env c k a now s)"
| "cred_do env (CrInterrupted c k a now written) s = interrupted_enroll env c k a now written s"
| "cred_do env (CrActivate n now) s = fst (cred_activate n now s)"
| "cred_do env (CrRevoke fp reason now) s = fst (cred_revoke fp reason now s)"

definition cred_run :: "credential_env \<Rightarrow> cred_op list \<Rightarrow> credential_store \<Rightarrow> credential_store" where
  "cred_run env ops s = fold (cred_do env) ops s"

definition cred_new :: "string \<Rightarrow> string \<Rightarrow> credential_store" where
  "cred_new robot dir = \<lparr>cred_robot_id = robot, cred_directory = dir,
     cred_db = \<lparr>db_generations = [], db_revoked = [], db_events = []\<rparr>, cred_disk = []\<rparr>"

section \<open>What every history keeps\<close>

abbreviation generation_of :: "credential_row \<Rightarrow> int" where
  "generation_of r \<equiv> cg_generation (cr_generation r)"

abbreviation fingerprint_of :: "credential_row \<Rightarrow> string" where
  "fingerprint_of r \<equiv> cg_fingerprint (cr_generation r)"

text \<open>The files of the row are those of a bundle that was validated for its robot.\<close>

definition intact :: "credential_env \<Rightarrow> disk \<Rightarrow> credential_generation \<Rightarrow> bool" where
  "intact env files g \<longleftrightarrow>
     (\<exists>dir c k a now. validate_bundle env (cg_robot_id g) c k a now = Inr (cg_fingerprint g, cg_not_before_ms g, cg_not_after_ms g) \<and>
        map_of files (generation_directory dir (cg_generation g)) = Some (bundle_files c k a) \<and>
        cg_certificate_path g = generation_directory dir (cg_generation g) @ ''/certificate.pem'' \<and>
        cg_private_key_path g = generation_directory dir (cg_generation g) @ ''/private-key.pem'' \<and>
        cg_ca_path g = generation_directory dir (cg_generation g) @ ''/ca.pem'')"

definition one_active :: "credential_row list \<Rightarrow> bool" where
  "one_active rows \<longleftrightarrow> (\<forall>robot. \<forall>r\<in>set rows. \<forall>r'\<in>set rows.
     row_active robot r \<longrightarrow> row_active robot r' \<longrightarrow> generation_of r = generation_of r')"

definition cred_inv :: "credential_env \<Rightarrow> credential_store \<Rightarrow> bool" where
  "cred_inv env s \<longleftrightarrow> (let rows = db_generations (cred_db s) in
     distinct (map generation_of rows) \<and> distinct (map fingerprint_of rows) \<and> (\<forall>r\<in>set rows. 1 \<le> generation_of r) \<and>
     one_active rows \<and>
     (\<forall>r\<in>set rows. fingerprint_revoked (fingerprint_of r) (cred_db s) \<longrightarrow> cg_status (cr_generation r) \<noteq> ''active'') \<and>
     (\<forall>r\<in>set rows. intact env (cred_disk s) (cr_generation r)) \<and>
     (\<forall>v\<in>set (db_revoked (cred_db s)). cred_fingerprint (rv_fingerprint v) = Inr (rv_fingerprint v)))"

lemma generation_directory_inject:
  assumes "generation_directory dir n = generation_directory dir' n'" and "1 \<le> n" and "1 \<le> n'"
  shows "n = n'"
proof -
  have last: "takeWhile (\<lambda>c. c \<noteq> CHR ''/'') (rev (generation_directory d m)) = rev (''generation-'' @ show_nat (nat m))"
    if "1 \<le> m" for d m
  proof -
    have "\<forall>c\<in>set (show_nat (nat m)). c \<noteq> CHR ''/''"
      by (auto dest!: show_nat_digits simp: is_digit_def)
    then show ?thesis using that by (simp add: generation_directory_def show_int_def takeWhile_append)
  qed
  have "show_nat (nat n) = show_nat (nat n')"
    using last[OF assms(2), of dir] last[OF assms(3), of dir'] assms(1) by simp
  then have "nat n = nat n'" by (metis read_show_nat)
  then show ?thesis using assms(2,3) by simp
qed

lemma map_of_remove_directory: "d' \<noteq> d \<Longrightarrow> map_of (remove_directory d files) d' = map_of files d'"
  by (induction files) (auto simp: remove_directory_def)

lemma intact_mono:
  assumes "intact env files g" and "1 \<le> cg_generation g" and "1 \<le> n" and "cg_generation g \<noteq> n"
    and "\<And>d. d \<noteq> generation_directory dir n \<Longrightarrow> map_of files' d = map_of files d"
  shows "intact env files' g"
  using assms generation_directory_inject unfolding intact_def by metis

lemma next_generation_above:
  "r \<in> set (db_generations db) \<Longrightarrow> generation_of r < next_generation db"
  "1 \<le> next_generation db"
proof -
  have "generation_of r \<le> fold max (map (cg_generation \<circ> cr_generation) (db_generations db)) 0"
    if "r \<in> set (db_generations db)"
    using that by (intro fold_max_ge) auto
  then show "r \<in> set (db_generations db) \<Longrightarrow> generation_of r < next_generation db"
    by (simp add: next_generation_def)
  show "1 \<le> next_generation db"
    using fold_max_ge[of 0 _ 0] by (simp add: next_generation_def)
qed

lemma cred_event_simps [simp]:
  "db_generations (cred_event robot etype now detail db) = db_generations db"
  "db_revoked (cred_event robot etype now detail db) = db_revoked db"
  "fingerprint_revoked fp (cred_event robot etype now detail db) = fingerprint_revoked fp db"
  by (simp_all add: cred_event_def fingerprint_revoked_def)

text \<open>Changing the status of rows keeps everything but the two conditions on active rows.\<close>

lemma set_status_simps [simp]:
  "cr_generation (set_credential_status st r) = (cr_generation r)\<lparr>cg_status := st\<rparr>"
  "intact env files (g\<lparr>cg_status := st\<rparr>) = intact env files g"
  by (simp_all add: set_credential_status_def intact_def)

lemma cred_inv_cases:
  assumes "cred_inv env s" and "r \<in> set (db_generations (cred_db s))"
  shows "1 \<le> generation_of r" "intact env (cred_disk s) (cr_generation r)"
    "row_active robot r \<Longrightarrow> \<not> fingerprint_revoked (fingerprint_of r) (cred_db s)"
    "row_active robot r \<Longrightarrow> r' \<in> set (db_generations (cred_db s)) \<Longrightarrow> row_active robot r' \<Longrightarrow> r' = r"
proof -
  have inv: "distinct (map generation_of (db_generations (cred_db s)))" "one_active (db_generations (cred_db s))"
    "\<forall>r\<in>set (db_generations (cred_db s)). 1 \<le> generation_of r"
    "\<forall>r\<in>set (db_generations (cred_db s)). fingerprint_revoked (fingerprint_of r) (cred_db s) \<longrightarrow> cg_status (cr_generation r) \<noteq> ''active''"
    "\<forall>r\<in>set (db_generations (cred_db s)). intact env (cred_disk s) (cr_generation r)"
    using assms(1) by (simp_all add: cred_inv_def Let_def)
  show "1 \<le> generation_of r" "intact env (cred_disk s) (cr_generation r)"
    "row_active robot r \<Longrightarrow> \<not> fingerprint_revoked (fingerprint_of r) (cred_db s)"
    using inv assms(2) by (auto simp: row_active_def)
  show "row_active robot r \<Longrightarrow> r' \<in> set (db_generations (cred_db s)) \<Longrightarrow> row_active robot r' \<Longrightarrow> r' = r"
    using inv(1,2) assms(2) by (metis distinct_map inj_onD one_active_def)
qed

lemma cred_inv_status:
  assumes "cred_inv env s" and rows: "db_generations db = upd_where P f (db_generations (cred_db s))"
    and f: "\<And>r. \<exists>st. cr_generation (f r) = (cr_generation r)\<lparr>cg_status := st\<rparr>"
    and "one_active (db_generations db)"
    and "\<And>v. v \<in> set (db_revoked db) \<Longrightarrow> cred_fingerprint (rv_fingerprint v) = Inr (rv_fingerprint v)"
    and "\<And>r. r \<in> set (db_generations db) \<Longrightarrow> fingerprint_revoked (fingerprint_of r) db \<Longrightarrow> cg_status (cr_generation r) \<noteq> ''active''"
  shows "cred_inv env (s\<lparr>cred_db := db\<rparr>)"
proof -
  have keys: "generation_of (f r) = generation_of r" "fingerprint_of (f r) = fingerprint_of r"
    "intact env files (cr_generation (f r)) = intact env files (cr_generation r)" for r files
    using f[of r] by auto
  have maps: "map generation_of (db_generations db) = map generation_of (db_generations (cred_db s))"
    "map fingerprint_of (db_generations db) = map fingerprint_of (db_generations (cred_db s))"
    unfolding rows by (simp_all add: map_upd_where keys)
  have "1 \<le> generation_of r \<and> intact env (cred_disk s) (cr_generation r)" if "r \<in> set (db_generations db)" for r
    using that cred_inv_cases(1,2)[OF assms(1)] by (auto simp: rows set_upd_where keys)
  then show ?thesis
    using assms(1,4,5,6) maps by (simp add: cred_inv_def Let_def)
qed

text \<open>A store with another disk keeps the invariant when the directories of its generations are untouched.\<close>

lemma cred_inv_disk:
  assumes "cred_inv env s" and "n = next_generation (cred_db s)"
    and "\<And>d. d \<noteq> generation_directory dir n \<Longrightarrow> map_of files d = map_of (cred_disk s) d"
  shows "cred_inv env (s\<lparr>cred_disk := files\<rparr>)"
proof -
  have "intact env files (cr_generation r)" if "r \<in> set (db_generations (cred_db s))" for r
    using intact_mono[OF cred_inv_cases(2)[OF assms(1) that] cred_inv_cases(1)[OF assms(1) that] _ _ assms(3)]
      next_generation_above(1)[OF that] next_generation_above(2)[of "cred_db s"] assms(2) by simp
  then show ?thesis using assms(1) by (simp add: cred_inv_def Let_def)
qed

text \<open>The store after an enrollment that succeeded.\<close>

definition enrolled :: "string \<Rightarrow> string \<Rightarrow> string \<Rightarrow> string \<Rightarrow> int \<Rightarrow> int \<Rightarrow> int \<Rightarrow> credential_store \<Rightarrow> credential_store" where
  "enrolled c k a fp nb na now s =
     (let n = next_generation (cred_db s); d = generation_directory (cred_directory s) n in
      s\<lparr>cred_disk := (d, bundle_files c k a) # cred_disk s,
        cred_db := cred_event (cred_robot_id s) ''enrolled'' now [(''generation'', JInt n), (''fingerprint_sha256'', JStr fp)]
          ((cred_db s)\<lparr>db_generations := db_generations (cred_db s) @ [staged_generation (cred_robot_id s) d fp nb na n now]\<rparr>)\<rparr>)"

lemma cred_enroll_cases:
  assumes "cred_enroll env certificate key ca now s = (s', res)"
  obtains e where "s' = s" "res = Inl e"
  | e where "res = Inl e"
      "s' = s\<lparr>cred_disk := remove_directory (generation_directory (cred_directory s) (next_generation (cred_db s))) (cred_disk s)\<rparr>"
  | c k a fp nb na where "validate_bundle env (cred_robot_id s) c k a now = Inr (fp, nb, na)"
      "\<forall>r\<in>set (db_generations (cred_db s)). fingerprint_of r \<noteq> fp"
      "s' = enrolled c k a fp nb na now s" "res = cred_get (next_generation (cred_db s)) s'"
proof (cases "enrollment_check env certificate key ca now s")
  case (Inl e)
  show ?thesis using assms by (intro that(1)[of e]) (simp_all add: cred_enroll_def Inl)
next
  case (Inr x)
  then obtain c k a fp nb na where v: "validate_bundle env (cred_robot_id s) c k a now = Inr (fp, nb, na)"
    and new: "\<forall>r\<in>set (db_generations (cred_db s)). fingerprint_of r \<noteq> fp"
    and x: "x = (bundle_files c k a, fp, nb, na, next_generation (cred_db s))"
    by (auto simp: res_simps enrollment_check_def insert_generation_def list_ex_iff)
  note check = Inr[unfolded x]
  let ?d = "generation_directory (cred_directory s) (next_generation (cred_db s))"
  show ?thesis
  proof (cases "rbind (make_directory ?d (cred_disk s)) (\<lambda>_. write_bundle env ?d (bundle_files c k a))")
    case (Inl e)
    show ?thesis using assms by (intro that(2)[of e]) (simp_all add: cred_enroll_def check Let_def Inl)
  next
    case (Inr u)
    then have "(s', res) = (enrolled c k a fp nb na now s, cred_get (next_generation (cred_db s)) (enrolled c k a fp nb na now s))"
      unfolding assms[symmetric] cred_enroll_def check sum.case prod.case Let_def Inr enrolled_def by simp
    then have "s' = enrolled c k a fp nb na now s"
      and "res = cred_get (next_generation (cred_db s)) (enrolled c k a fp nb na now s)"
      by (simp_all only: prod.inject)
    with that(3)[OF v new] show ?thesis by (simp only:)
  qed
qed

lemma one_active_add:
  assumes "cg_status (cr_generation r) = ''staged''" and "one_active rows"
  shows "one_active (rows @ [r])"
proof -
  have "\<not> row_active robot r" for robot using assms(1) by (simp add: row_active_def)
  moreover have eq: "set (rows @ [r]) = insert r (set rows)" by simp
  ultimately show ?thesis using assms(2) unfolding one_active_def eq by blast
qed

lemma cred_inv_add:
  assumes "cred_inv env s" and "intact env (cred_disk s) (cr_generation r)" and "cg_status (cr_generation r) = ''staged''"
    and "\<forall>q\<in>set (db_generations (cred_db s)). generation_of q \<noteq> generation_of r"
    and "\<forall>q\<in>set (db_generations (cred_db s)). fingerprint_of q \<noteq> fingerprint_of r" and "1 \<le> generation_of r"
  shows "cred_inv env (s\<lparr>cred_db := (cred_db s)\<lparr>db_generations := db_generations (cred_db s) @ [r]\<rparr>\<rparr>)"
proof -
  have "generation_of r \<notin> generation_of ` set (db_generations (cred_db s))"
    "fingerprint_of r \<notin> fingerprint_of ` set (db_generations (cred_db s))"
    using assms(4,5) by fastforce+
  then show ?thesis
    using assms by (simp add: cred_inv_def Let_def one_active_add fingerprint_revoked_def)
qed

lemma cred_inv_enroll:
  assumes "cred_inv env s" and "cred_enroll env c k a now s = (s', res)"
  shows "cred_inv env s'"
  using assms(2)
proof (cases rule: cred_enroll_cases)
  case 1
  then show ?thesis using assms(1) by simp
next
  case (2 e)
  show ?thesis unfolding 2
    by (rule cred_inv_disk[OF assms(1) refl, where dir = "cred_directory s"]) (simp add: map_of_remove_directory)
next
  case (3 c' k' a' fp nb na)
  let ?n = "next_generation (cred_db s)" and ?d = "generation_directory (cred_directory s) (next_generation (cred_db s))"
  let ?new = "staged_generation (cred_robot_id s) ?d fp nb na ?n now"
  have s1: "cred_inv env (s\<lparr>cred_disk := (?d, bundle_files c' k' a') # cred_disk s\<rparr>)"
    by (rule cred_inv_disk[OF assms(1) refl, where dir = "cred_directory s"]) simp
  have "intact env ((?d, bundle_files c' k' a') # cred_disk s) (cr_generation ?new)"
    unfolding intact_def using 3(1) by 
            - (rule exI[of _ "cred_directory s"], rule exI[of _ c'], rule exI[of _ k'], rule exI[of _ a'], rule exI[of _ now],
       simp add: staged_generation_def)
  moreover have "\<forall>r\<in>set (db_generations (cred_db s)). generation_of r \<noteq> ?n"
    using next_generation_above(1) by fastforce
  moreover have "generation_of ?new = ?n" "fingerprint_of ?new = fp" "cg_status (cr_generation ?new) = ''staged''"
    by (simp_all add: staged_generation_def)
  ultimately have "cred_inv env (s\<lparr>cred_disk := (?d, bundle_files c' k' a') # cred_disk s,
      cred_db := (cred_db s)\<lparr>db_generations := db_generations (cred_db s) @ [?new]\<rparr>\<rparr>)"
    using 3(2) next_generation_above(2)[of "cred_db s"] by (intro cred_inv_add[OF s1, simplified]) simp_all
  then show ?thesis by (simp add: 3(3) enrolled_def Let_def cred_inv_def)
qed

lemma cred_inv_interrupted:
  assumes "cred_inv env s"
  shows "cred_inv env (interrupted_enroll env c k a now written s)"
proof -
  obtain s' res where run: "cred_enroll env c k a now s = (s', res)" by fastforce
  show ?thesis
  proof (cases res)
    case (Inl e)
    then show ?thesis using cred_inv_enroll[OF assms run] run by (simp add: interrupted_enroll_def)
  next
    case (Inr g)
    from run obtain bs where
      hd: "hd (cred_disk s') = (generation_directory (cred_directory s) (next_generation (cred_db s)), bs)"
      by (cases rule: cred_enroll_cases) (use Inr in \<open>simp_all add: enrolled_def Let_def\<close>)
    show ?thesis using run Inr hd
      by (simp add: interrupted_enroll_def) (rule cred_inv_disk[OF assms refl, where dir = "cred_directory s"], simp)
  qed
qed

lemma cred_activate_cases:
  assumes "cred_activate n now s = (s', res)"
  obtains e where "s' = s" "res = Inl e"
  | r where "r \<in> set (db_generations (cred_db s))" "generation_of r = n" "cg_robot_id (cr_generation r) = cred_robot_id s"
      "cg_not_before_ms (cr_generation r) \<le> now" "now < cg_not_after_ms (cr_generation r)"
      "is_revoked (fingerprint_of r) (cred_db s) = Inr False" "res = cred_get n s'"
      "s' = s\<lparr>cred_db := cred_event (cred_robot_id s) ''activated'' now [(''generation'', JInt n)]
         ((cred_db s)\<lparr>db_generations := activated_rows (cred_robot_id s) n now (db_generations (cred_db s))\<rparr>)\<rparr>"
proof (cases "activation_check n now s")
  case (Inl e)
  show ?thesis using assms by (intro that(1)[of e]) (simp_all add: cred_activate_def Inl)
next
  case (Inr u)
  then obtain r where row: "find (\<lambda>r. generation_of r = n) (db_generations (cred_db s)) = Some r"
    and ok: "cg_robot_id (cr_generation r) = cred_robot_id s" "cg_not_before_ms (cr_generation r) \<le> now"
      "now < cg_not_after_ms (cr_generation r)" "is_revoked (fingerprint_of r) (cred_db s) = Inr False"
    by (auto simp: res_simps activation_check_def cred_row_def Let_def not_less not_le split: option.splits)
  show ?thesis
    using assms ok find_key_SomeD[OF row] by (intro that(2)[of r]) (auto simp: cred_activate_def Inr Let_def)
qed

lemma is_revoked_exact:
  assumes "cred_inv env s" and "is_revoked fp (cred_db s) = Inr b"
  shows "fingerprint_revoked fp (cred_db s) \<Longrightarrow> b"
proof -
  assume "fingerprint_revoked fp (cred_db s)"
  then have "cred_fingerprint fp = Inr fp"
    using assms(1) by (auto simp: cred_inv_def Let_def fingerprint_revoked_def list_ex_iff)
  then show b using assms(2) \<open>fingerprint_revoked fp (cred_db s)\<close> by (simp add: is_revoked_def)
qed

text \<open>Rows after an activation: the activated one is active, the other ones of the robot are not.\<close>

lemma activated_rows_alt:
  "activated_rows robot n now rows = map (\<lambda>r. if generation_of r = n then (set_credential_status ''active'' r)\<lparr>cr_activated_at_ms := Some now\<rparr>
     else if row_active robot r then set_credential_status ''retired'' r else r) rows"
  by (induction rows) (simp_all add: activated_rows_def upd_where_def set_credential_status_def)

lemma cred_inv_activate:
  assumes "cred_inv env s" and "cred_activate n now s = (s', res)"
  shows "cred_inv env s'"
  using assms(2)
proof (cases rule: cred_activate_cases)
  case 1
  then show ?thesis using assms(1) by simp
next
  case (2 r)
  let ?rows = "db_generations (cred_db s)"
  let ?db = "(cred_db s)\<lparr>db_generations := activated_rows (cred_robot_id s) n now ?rows\<rparr>"
  have only: "q = r" if "q \<in> set ?rows" "generation_of q = n" for q
    using assms(1) that 2(1,2) by (metis cred_inv_def distinct_map inj_onD)
  have not_revoked: "\<not> fingerprint_revoked (fingerprint_of r) (cred_db s)"
    using is_revoked_exact[OF assms(1) 2(6)] by blast
  let ?f = "\<lambda>q. if generation_of q = n then (set_credential_status ''active'' q)\<lparr>cr_activated_at_ms := Some now\<rparr>
    else if row_active (cred_robot_id s) q then set_credential_status ''retired'' q else q"
  have rows: "db_generations ?db = upd_where (\<lambda>_. True) ?f ?rows"
    by (simp add: activated_rows_alt upd_where_def)
  have f: "\<exists>st. cr_generation (?f q) = (cr_generation q)\<lparr>cg_status := st\<rparr>" for q
    by (cases "generation_of q = n"; cases "row_active (cred_robot_id s) q") (auto intro: exI[of _ "cg_status (cr_generation q)"])
  have act: "q = r \<and> robot = cred_robot_id s \<or> ?f q = q \<and> \<not> row_active (cred_robot_id s) q \<and> row_active robot q"
    if "q \<in> set ?rows" "row_active robot (?f q)" for q robot
    using that only[OF that(1)] 2(3) by (auto simp: row_active_def split: if_splits)
  have "cred_inv env (s\<lparr>cred_db := ?db\<rparr>)"
  proof (rule cred_inv_status[OF assms(1) rows f])
    show "one_active (db_generations ?db)"
      unfolding one_active_def rows set_upd_where
    proof (intro allI ballI impI, elim imageE, simp only: if_True)
      fix robot q1 q2
      assume q: "q1 \<in> set ?rows" "q2 \<in> set ?rows" and a: "row_active robot (?f q1)" "row_active robot (?f q2)"
      show "generation_of (?f q1) = generation_of (?f q2)"
        using act[OF q(1) a(1)] act[OF q(2) a(2)] cred_inv_cases(4)[OF assms(1) q(1), of robot q2] q(2) by metis
    qed
  next
    show "cred_fingerprint (rv_fingerprint v) = Inr (rv_fingerprint v)" if "v \<in> set (db_revoked ?db)" for v
      using that assms(1) by (simp add: cred_inv_def Let_def)
  next
    fix q assume "q \<in> set (db_generations ?db)" and rev: "fingerprint_revoked (fingerprint_of q) ?db"
    then obtain p where p: "p \<in> set ?rows" "q = ?f p" by (auto simp: rows set_upd_where)
    have "\<not> row_active (cg_robot_id (cr_generation q)) q"
      using act[OF p(1), of "cg_robot_id (cr_generation q)"] cred_inv_cases(3)[OF assms(1) p(1)] rev not_revoked p(2)
      by (auto simp: fingerprint_revoked_def split: if_splits)
    then show "cg_status (cr_generation q) \<noteq> ''active''" by (simp add: row_active_def)
  qed
  then show ?thesis by (simp add: 2(8) cred_inv_def)
qed

lemma cred_fingerprint_idem: "cred_fingerprint x = Inr fp \<Longrightarrow> cred_fingerprint fp = Inr fp"
proof -
  assume a: "cred_fingerprint x = Inr fp"
  have "to_lower (to_lower c) = to_lower c" for c
    by (auto simp: to_lower_def Let_def take_bit_nat_eq_self)
  then show ?thesis using a by (auto simp: cred_fingerprint_def res_simps comp_def)
qed

lemma cred_inv_revoke:
  assumes "cred_inv env s" and "cred_revoke x reason now s = (s', res)"
  shows "cred_inv env s'"
    "res = Inr () \<Longrightarrow> cred_fingerprint x = Inr fp \<Longrightarrow> fingerprint_revoked fp (cred_db s')"
proof -
  show "res = Inr () \<Longrightarrow> cred_fingerprint x = Inr fp \<Longrightarrow> fingerprint_revoked fp (cred_db s')"
    using assms(2) by (auto simp: cred_revoke_def revocation_check_def res_simps fingerprint_revoked_def split: sum.splits)
  show "cred_inv env s'"
  proof (cases "revocation_check x reason now (cred_db s)")
    case (Inl e)
    then show ?thesis using assms by (simp add: cred_revoke_def)
  next
    case (Inr f)
    then have f: "cred_fingerprint f = Inr f"
      by (auto simp: revocation_check_def res_simps intro: cred_fingerprint_idem)
    let ?rows = "db_generations (cred_db s)"
    let ?f = "set_credential_status ''retired''" and ?P = "\<lambda>r. fingerprint_of r = f"
    let ?db = "(cred_db s)\<lparr>db_revoked := db_revoked (cred_db s) @ [\<lparr>rv_fingerprint = f, rv_reason = reason, rv_revoked_at_ms = now\<rparr>],
        db_generations := upd_where ?P ?f ?rows\<rparr>"
    have was: "row_active robot (if ?P q then ?f q else q) \<Longrightarrow> \<not> ?P q \<and> row_active robot q" for robot q
      by (auto simp: row_active_def split: if_splits)
    have "cred_inv env (s\<lparr>cred_db := ?db\<rparr>)"
    proof (rule cred_inv_status[OF assms(1), of ?db ?P ?f])
      show "db_generations ?db = upd_where ?P ?f ?rows" by simp
      show "\<exists>st. cr_generation (?f q) = (cr_generation q)\<lparr>cg_status := st\<rparr>" for q by auto
      show "one_active (db_generations ?db)"
        unfolding one_active_def
      proof (intro allI ballI impI)
        fix robot q1 q2
        assume q: "q1 \<in> set (db_generations ?db)" "q2 \<in> set (db_generations ?db)"
          and a: "row_active robot q1" "row_active robot q2"
        from q obtain p1 p2 where p: "p1 \<in> set ?rows" "q1 = (if ?P p1 then ?f p1 else p1)"
          "p2 \<in> set ?rows" "q2 = (if ?P p2 then ?f p2 else p2)"
          by (auto simp: set_upd_where)
        have "\<not> ?P p1 \<and> row_active robot p1" "\<not> ?P p2 \<and> row_active robot p2"
          using a was unfolding p(2,4) by blast+
        then show "generation_of q1 = generation_of q2"
          using cred_inv_cases(4)[OF assms(1) p(1) _ p(3)] p(2,4) by auto
      qed
      show "cred_fingerprint (rv_fingerprint v) = Inr (rv_fingerprint v)" if "v \<in> set (db_revoked ?db)" for v
        using that assms(1) f by (auto simp: cred_inv_def Let_def)
      show "cg_status (cr_generation q) \<noteq> ''active''"
        if q: "q \<in> set (db_generations ?db)" and rev: "fingerprint_revoked (fingerprint_of q) ?db" for q
      proof -
        from q obtain p where p: "p \<in> set ?rows" "q = (if ?P p then ?f p else p)" by (auto simp: set_upd_where)
        have "\<not> row_active (cg_robot_id (cr_generation p)) q"
          using was[of "cg_robot_id (cr_generation p)" p] cred_inv_cases(3)[OF assms(1) p(1)] rev p(2)
          by (auto simp: fingerprint_revoked_def split: if_splits)
        then show ?thesis using p(2) by (auto simp: row_active_def)
      qed
    qed
    then show ?thesis using assms(2) by (simp add: cred_revoke_def Inr cred_inv_def) auto
  qed
qed

lemma cred_inv_open:
  assumes "cred_inv env s" and "cred_init env False robot dir (cred_db s) (cred_disk s) = Inr s'"
  shows "cred_inv env s'"
  using assms by (auto simp: cred_init_def res_simps cred_inv_def fingerprint_revoked_def)

lemma cred_inv_do: "cred_inv env s \<Longrightarrow> cred_inv env (cred_do env op' s)"
  by (cases op')
    (auto simp: cred_inv_interrupted intro: cred_inv_open cred_inv_enroll[OF _ surjective_pairing[of "cred_enroll _ _ _ _ _ _"]]
       cred_inv_activate[OF _ surjective_pairing] cred_inv_revoke(1)[OF _ surjective_pairing] split: sum.split)

lemma cred_inv_run: "cred_inv env s \<Longrightarrow> cred_inv env (cred_run env ops s)"
  unfolding cred_run_def by (induction ops arbitrary: s) (simp_all add: cred_inv_do)

lemma cred_inv_new: "cred_inv env (cred_new robot dir)"
  by (simp add: cred_inv_def cred_new_def one_active_def)

section \<open>What a node starts with\<close>

lemma require_generation_Inr:
  "require_generation env g c k a revoked now = Inr () \<longleftrightarrow>
     (\<exists>ps. rmap (resolve_path env) [cg_certificate_path g, cg_private_key_path g, cg_ca_path g] = Inr ps \<and>
           rmap (resolve_path env) [c, k, a] = Inr ps) \<and>
     \<not> revoked \<and> cg_not_before_ms g \<le> now \<and> now < cg_not_after_ms g"
  by (auto simp: require_generation_def res_simps simp del: rmap.simps)

text \<open>C31: what a node starts with was validated. Whatever robots, restarts and interrupted enrollments came before on the
  database, a bundle that \<open>require_active_bundle\<close> accepts is the one active generation of the store's robot, not
  revoked and valid at that time; the directory it was recorded in holds exactly the three files of a bundle
  that passed \<open>_validate_bundle\<close> for this robot, with the recorded fingerprint and dates, and the configured paths
  resolve to these files.\<close>

theorem accepted_bundle_was_validated:
  assumes "s = cred_run env ops (cred_new robot dir)" and "require_active_bundle env cp kp ap now s = Inr g"
  shows "cg_robot_id g = cred_robot_id s \<and> cg_status g = ''active'' \<and> \<not> fingerprint_revoked (cg_fingerprint g) (cred_db s) \<and>
    cg_not_before_ms g \<le> now \<and> now < cg_not_after_ms g \<and>
    (\<forall>r\<in>set (db_generations (cred_db s)). row_active (cred_robot_id s) r \<longleftrightarrow> cr_generation r = g) \<and>
    (\<exists>d c k a t. validate_bundle env (cred_robot_id s) c k a t = Inr (cg_fingerprint g, cg_not_before_ms g, cg_not_after_ms g) \<and>
       map_of (cred_disk s) d = Some (bundle_files c k a) \<and>
       resolve_path env cp = resolve_path env (d @ ''/certificate.pem'') \<and>
       resolve_path env kp = resolve_path env (d @ ''/private-key.pem'') \<and>
       resolve_path env ap = resolve_path env (d @ ''/ca.pem''))"
proof -
  have inv: "cred_inv env s" unfolding assms(1) by (rule cred_inv_run[OF cred_inv_new])
  obtain r b where r: "active_row (cred_robot_id s) (cred_db s) = Some r" "g = cr_generation r"
    and ok: "require_generation env g cp kp ap b now = Inr ()"
    using assms(2) by (auto simp: require_active_bundle_def cred_active_def res_simps split: option.splits)
  have row: "r \<in> set (db_generations (cred_db s))" "row_active (cred_robot_id s) r"
    using r(1) by (auto simp: active_row_def find_Some_iff)
  have only: "row_active (cred_robot_id s) q \<longleftrightarrow> cr_generation q = g" if "q \<in> set (db_generations (cred_db s))" for q
    using cred_inv_cases(4)[OF inv row(1,2) that] row(2) r(2) by (auto simp: row_active_def)
  obtain d c k a t where files: "validate_bundle env (cred_robot_id s) c k a t = Inr (cg_fingerprint g, cg_not_before_ms g, cg_not_after_ms g)"
      "map_of (cred_disk s) d = Some (bundle_files c k a)" "cg_certificate_path g = d @ ''/certificate.pem''"
      "cg_private_key_path g = d @ ''/private-key.pem''" "cg_ca_path g = d @ ''/ca.pem''"
    using cred_inv_cases(2)[OF inv row(1)] row(2) r(2) by (auto simp: intact_def row_active_def)
  have paths: "resolve_path env cp = resolve_path env (cg_certificate_path g)"
    "resolve_path env kp = resolve_path env (cg_private_key_path g)" "resolve_path env ap = resolve_path env (cg_ca_path g)"
    using ok by (auto simp: require_generation_Inr res_simps)
  have "\<exists>d c k a t. validate_bundle env (cred_robot_id s) c k a t = Inr (cg_fingerprint g, cg_not_before_ms g, cg_not_after_ms g) \<and>
       map_of (cred_disk s) d = Some (bundle_files c k a) \<and>
       resolve_path env cp = resolve_path env (d @ ''/certificate.pem'') \<and>
       resolve_path env kp = resolve_path env (d @ ''/private-key.pem'') \<and>
       resolve_path env ap = resolve_path env (d @ ''/ca.pem'')"
    by (rule exI[of _ d], rule exI[of _ c], rule exI[of _ k], rule exI[of _ a], rule exI[of _ t])
       (use files paths in simp)
  moreover have "cg_not_before_ms g \<le> now \<and> now < cg_not_after_ms g" using ok by (simp add: require_generation_Inr)
  moreover have "cg_robot_id g = cred_robot_id s \<and> cg_status g = ''active'' \<and> \<not> fingerprint_revoked (cg_fingerprint g) (cred_db s)"
    using row(2) r(2) cred_inv_cases(3)[OF inv row] by (simp add: row_active_def)
  ultimately show ?thesis using only by blast
qed

section \<open>Revocation\<close>

lemma cred_enroll_revoked: "db_revoked (cred_db (fst (cred_enroll env c k a now s))) = db_revoked (cred_db s)"
  by (rule cred_enroll_cases[OF surjective_pairing[of "cred_enroll env c k a now s"]]) (simp_all add: enrolled_def Let_def)

lemma cert_revocation_stays: "fingerprint_revoked fp (cred_db s) \<Longrightarrow> fingerprint_revoked fp (cred_db (cred_run env ops s))"
proof (induction ops arbitrary: s)
  case Nil
  then show ?case by (simp add: cred_run_def)
next
  case (Cons x ops)
  have "fingerprint_revoked fp (cred_db (cred_do env x s))"
  proof (cases x)
    case (CrInterrupted c k a now w)
    then show ?thesis
      using Cons.prems cred_enroll_revoked[of env c k a now s]
      by (auto simp: interrupted_enroll_def fingerprint_revoked_def split: prod.split sum.split)
  next
    case (CrEnroll c k a now)
    then show ?thesis using Cons.prems cred_enroll_revoked[of env c k a now s] by (simp add: fingerprint_revoked_def)
  qed (use Cons.prems in \<open>auto simp: cred_init_def cred_activate_def cred_revoke_def fingerprint_revoked_def
      rbind_def Let_def split: sum.splits\<close>)
  then show ?case using Cons.IH by (simp add: cred_run_def)
qed

text \<open>C32: revocation is final. Once \<open>revoke\<close> returned, in whatever state of a database's history, after any further
  history \<open>is_revoked\<close> answers yes, no generation with this certificate is active for any robot, neither
  \<open>require_active_bundle\<close> nor \<open>read_active_credential\<close> returns it, and activating it raises and changes
  nothing.\<close>

theorem revoked_credential_stays_revoked:
  assumes "s = cred_run env before (cred_new robot dir)" and "cred_revoke x reason now s = (s1, Inr ())"
    and "s2 = cred_run env later s1"
  shows "is_revoked x (cred_db s2) = Inr True \<and>
    (\<forall>r\<in>set (db_generations (cred_db s2)). cg_fingerprint (cr_generation r) = map to_lower x \<longrightarrow>
       cg_status (cr_generation r) \<noteq> ''active'' \<and>
       (\<forall>t. \<exists>e. cred_activate (cg_generation (cr_generation r)) t s2 = (s2, Inl e)) \<and>
       (\<forall>cp kp ap t. require_active_bundle env cp kp ap t s2 \<noteq> Inr (cr_generation r)) \<and>
       (\<forall>rid cp kp ap t. read_active_credential env (Inr ()) rid cp kp ap t (cred_db s2) \<noteq> Inr (cr_generation r)))"
proof -
  let ?fp = "map to_lower x"
  have inv0: "cred_inv env s" unfolding assms(1) by (rule cred_inv_run[OF cred_inv_new])
  have inv: "cred_inv env s2"
    unfolding assms(3) by (rule cred_inv_run[OF cred_inv_revoke(1)[OF inv0 assms(2)]])
  have fp: "cred_fingerprint x = Inr ?fp"
    using assms(2) by (auto simp: cred_revoke_def revocation_check_def cred_fingerprint_def res_simps split: sum.splits)
  have rev: "fingerprint_revoked ?fp (cred_db s2)"
    unfolding assms(3) by (rule cert_revocation_stays[OF cred_inv_revoke(2)[OF inv0 assms(2) refl fp]])
  have revx: "is_revoked ?fp (cred_db s2) = Inr True"
    using rev cred_fingerprint_idem[OF fp] by (simp add: is_revoked_def)
  have inactive: "cg_status (cr_generation r) \<noteq> ''active''"
    if "r \<in> set (db_generations (cred_db s2))" "cg_fingerprint (cr_generation r) = ?fp" for r
    using cred_inv_cases(3)[OF inv that(1), of "cg_robot_id (cr_generation r)"] rev that(2) by (auto simp: row_active_def)
  have activate: "\<exists>e. cred_activate (generation_of r) t s2 = (s2, Inl e)"
    if r: "r \<in> set (db_generations (cred_db s2))" "cg_fingerprint (cr_generation r) = ?fp" for r t
  proof -
    obtain s3 res where run: "cred_activate (generation_of r) t s2 = (s3, res)" by fastforce
    then show ?thesis
    proof (cases rule: cred_activate_cases)
      case (2 q)
      have "q = r" using inv 2(1,2) r(1) by (metis cred_inv_def distinct_map inj_onD)
      then show ?thesis using 2(6) revx r(2) by simp
    qed (use run in blast)
  qed
  have no_bundle: "require_active_bundle env cp kp ap t s2 \<noteq> Inr (cr_generation r)"
    "read_active_credential env (Inr ()) rid cp kp ap t (cred_db s2) \<noteq> Inr (cr_generation r)"
    if "r \<in> set (db_generations (cred_db s2))" "cg_fingerprint (cr_generation r) = ?fp" for r cp kp ap t rid
    using inactive[OF that]
    by (auto simp: require_active_bundle_def read_active_credential_def cred_active_def active_row_def row_active_def
        res_simps find_Some_iff split: option.splits)
  show ?thesis using fp rev inactive activate no_bundle by (auto simp: is_revoked_def)
qed

section \<open>The inventory\<close>

text \<open>what the inventory calls active is what a node can start with. After any history, the read-only query of a
  generation reports the effective status \<open>active\<close> exactly when the start-up check accepts that generation with
  its own files at that time (the three paths have to resolve).\<close>

theorem inventory_active_iff_accepted:
  assumes "s = cred_run env ops (cred_new robot dir)"
    and "read_credential_generation (Inr ()) rid n now (cred_db s) = Inr m" and "g = sm_generation m"
    and "rmap (resolve_path env) [cg_certificate_path g, cg_private_key_path g, cg_ca_path g] = Inr ps"
  shows "sm_effective_status m = ''active'' \<longleftrightarrow>
    read_active_credential env (Inr ()) rid (cg_certificate_path g) (cg_private_key_path g) (cg_ca_path g) now (cred_db s) = Inr g"
proof -
  have inv: "cred_inv env s" unfolding assms(1) by (rule cred_inv_run[OF cred_inv_new])
  have "find (\<lambda>m. cg_generation (sm_generation m) = n) (inventory rid now (cred_db s)) = Some m"
    using assms(2) by (auto simp: read_credential_generation_def res_simps split: option.splits)
  then have "m \<in> set (inventory rid now (cred_db s))" by (metis find_Some_iff nth_mem)
  then obtain r where r: "r \<in> set (db_generations (cred_db s))" "m = generation_summary now (cred_db s) r" "cg_robot_id g = rid"
    using assms(3) by (auto simp: inventory_def)
  have g: "g = cr_generation r" using r(2) assms(3) by (simp add: generation_summary_def Let_def)
  have found: "active_row rid (cred_db s) = Some r" if "row_active rid r"
  proof -
    have "find (row_active rid) (db_generations (cred_db s)) \<noteq> None"
      using r(1) that by (auto simp: find_None_iff)
    then obtain q where q: "find (row_active rid) (db_generations (cred_db s)) = Some q" by blast
    then have "q \<in> set (db_generations (cred_db s))" "row_active rid q" by (auto simp: find_Some_iff)
    then show ?thesis using cred_inv_cases(4)[OF inv r(1) that] q by (simp add: active_row_def)
  qed
  have status: "sm_effective_status m = ''active'' \<longleftrightarrow> \<not> fingerprint_revoked (cg_fingerprint g) (cred_db s) \<and>
      cg_not_before_ms g \<le> now \<and> now < cg_not_after_ms g \<and> row_active rid r"
    using r(3) by (auto simp: r(2) g generation_summary_def Let_def row_active_def)
  have "read_active_credential env (Inr ()) rid (cg_certificate_path g) (cg_private_key_path g) (cg_ca_path g) now (cred_db s) = Inr g
    \<longleftrightarrow> row_active rid r \<and> \<not> fingerprint_revoked (cg_fingerprint g) (cred_db s) \<and> cg_not_before_ms g \<le> now \<and> now < cg_not_after_ms g"
  proof (cases "row_active rid r")
    case True
    show ?thesis
      unfolding read_active_credential_def found[OF True]
      using assms(4) by (auto simp: res_simps require_generation_Inr g[symmetric] True simp del: rmap.simps)
  next
    case False
    have "cg_status g \<noteq> ''active''" using False r(3) g by (simp add: row_active_def)
    then show ?thesis using False
      by (auto simp: read_active_credential_def active_row_def res_simps find_Some_iff row_active_def split: option.splits)
  qed
  then show ?thesis using status by blast
qed

section \<open>Two databases in one directory\<close>

text \<open>C33: an enrollment that finds its directory taken removes it. The number of a generation is unique in its database
  only, but the directory is named after the number alone. Let two stores have the same directory. When the
  second one enrolls, and its next number is the number of the active generation of the first, which is recorded in the
  directory of that number, \<open>mkdir\<close> raises
  \<open>FileExistsError\<close> and the handler removes the directory: certificate and key of the first robot are gone. Its
  start-up check still accepts the paths.\<close>

theorem shared_directory_loses_key:
  assumes "require_active_bundle env cp kp ap now1 s1 = Inr g"
    and "enrollment_check env c k a now2 s2 = Inr (files, fp, nb, na, cg_generation g)"
    and "cred_disk s2 = cred_disk s1" and "d = generation_directory (cred_directory s2) (cg_generation g)"
    and "map_of (cred_disk s1) d = Some bs" and "cg_private_key_path g = d @ ''/private-key.pem''"
  shows "\<exists>s2'. cred_enroll env c k a now2 s2 = (s2', Inl (RuntimeError ''OSError'')) \<and> cred_db s2' = cred_db s2 \<and>
    map_of (cred_disk s2') d = None \<and>
    require_active_bundle env cp kp ap now1 (s1\<lparr>cred_disk := cred_disk s2'\<rparr>) = Inr g"
proof -
  have "map_of (remove_directory d files) d = None" for files
    by (induction files) (auto simp: remove_directory_def)
  moreover have "require_active_bundle env cp kp ap now1 (s1\<lparr>cred_disk := files\<rparr>) = require_active_bundle env cp kp ap now1 s1" for files
    by (simp add: require_active_bundle_def cred_active_def split: option.split)
  ultimately show ?thesis
    using assms by (simp add: cred_enroll_def make_directory_def Let_def)
qed

text \<open>\<open>verify_directly_issued_by\<close> raises \<open>InvalidSignature\<close> for a certificate that another key signed in the name of the
  CA; it is no \<open>ValueError\<close>, so enrolling such a certificate ends in that exception instead of
  \<open>CredentialError\<close>.\<close>

lemma foreign_signature_escapes:
  assumes "load_certificate env c = Inr cert" and "load_private_key env k = Inr key" and "load_certificate env a = Inr ca"
    and "x_uris cert = Inr (Some [IDENTITY_URI_PREFIX @ cred_robot_id s])"
    and "verify_issued_by env cert ca = Inl (NativeError ''InvalidSignature'')"
  shows "cred_enroll env (Inr c) (Inr k) (Inr a) now s = (s, Inl (NativeError ''InvalidSignature''))"
proof -
  have "ump_identities [IDENTITY_URI_PREFIX @ r] = [r]" for r by (simp add: ump_identities_def)
  then show ?thesis
    using assms by (simp add: cred_enroll_def enrollment_check_def validate_bundle_def as_credential_error_def)
qed

section \<open>Witnesses\<close>

definition sample_certificate :: "string \<Rightarrow> x509_certificate" where
  "sample_certificate name = \<lparr>x_uris = Inr (Some [IDENTITY_URI_PREFIX @ name]), x_public_key = ''k'',
     x_not_before_ms = 0, x_not_after_ms = 100, x_der = name\<rparr>"

text \<open>A certificate file holds the name of its robot; the hash is one letter for each robot.\<close>

definition sample_pki :: credential_env where
  "sample_pki = \<lparr>load_certificate = (\<lambda>t. Inr (sample_certificate t)), load_private_key = (\<lambda>t. Inr t),
     verify_issued_by = (\<lambda>_ _. Inr ()), sha256_hex = (\<lambda>t. replicate 64 (if t = ''r1'' then CHR ''a'' else CHR ''b'')),
     write_file = (\<lambda>_ _. Inr ()), resolve_path = (\<lambda>p. Inr p), sql_matches = (\<lambda>x y. Inr (x = y))\<rparr>"

definition sample_enrollment :: "cred_op list" where
  "sample_enrollment = [CrEnroll (Inr ''r1'') (Inr ''k'') (Inr ''ca'') 5, CrActivate 1 6]"

definition sample_generation :: credential_generation where
  "sample_generation = \<lparr>cg_generation = 1, cg_robot_id = ''r1'', cg_fingerprint = replicate 64 CHR ''a'',
     cg_certificate_path = ''/c/generation-1/certificate.pem'', cg_private_key_path = ''/c/generation-1/private-key.pem'',
     cg_ca_path = ''/c/generation-1/ca.pem'', cg_not_before_ms = 0, cg_not_after_ms = 100, cg_status = ''active''\<rparr>"

lemma sample_accepted:
  "require_active_bundle sample_pki ''/c/generation-1/certificate.pem'' ''/c/generation-1/private-key.pem''
     ''/c/generation-1/ca.pem'' 7 (cred_run sample_pki sample_enrollment (cred_new ''r1'' ''/c'')) = Inr sample_generation"
  by code_simp

theorem accepted_bundle_was_validated_witness:
  "\<not> fingerprint_revoked (cg_fingerprint sample_generation)
      (cred_db (cred_run sample_pki sample_enrollment (cred_new ''r1'' ''/c''))) \<and> cg_robot_id sample_generation = ''r1''"
proof -
  have "cred_robot_id (cred_run sample_pki sample_enrollment (cred_new ''r1'' ''/c'')) = ''r1''" by code_simp
  then show ?thesis using accepted_bundle_was_validated[OF refl sample_accepted] by simp
qed

theorem revoked_credential_stays_revoked_witness:
  "\<exists>s1. cred_revoke (replicate 64 CHR ''A'') ''lost'' 8 (cred_run sample_pki sample_enrollment (cred_new ''r1'' ''/c'')) = (s1, Inr ()) \<and>
     is_revoked (replicate 64 CHR ''A'') (cred_db (cred_run sample_pki [CrActivate 1 9] s1)) = Inr True"
proof -
  let ?s = "cred_run sample_pki sample_enrollment (cred_new ''r1'' ''/c'')"
  obtain s1 res where run: "cred_revoke (replicate 64 CHR ''A'') ''lost'' 8 ?s = (s1, res)" by fastforce
  have "snd (cred_revoke (replicate 64 CHR ''A'') ''lost'' 8 ?s) = Inr ()" by code_simp
  then have run: "cred_revoke (replicate 64 CHR ''A'') ''lost'' 8 ?s = (s1, Inr ())" using run by simp
  show ?thesis using run revoked_credential_stays_revoked[OF refl run refl] by blast
qed

theorem inventory_active_iff_accepted_witness:
  "\<exists>m. read_credential_generation (Inr ()) ''r1'' 1 7 (cred_db (cred_run sample_pki sample_enrollment (cred_new ''r1'' ''/c''))) = Inr m \<and>
     sm_effective_status m = ''active''"
proof -
  let ?s = "cred_run sample_pki sample_enrollment (cred_new ''r1'' ''/c'')" and ?g = sample_generation
  let ?m = "\<lparr>sm_generation = ?g, sm_effective_status = ''active'', sm_revoked = False, sm_created_at_ms = 5, sm_activated_at_ms = Some 6\<rparr>"
  have read: "read_credential_generation (Inr ()) ''r1'' 1 7 (cred_db ?s) = Inr ?m" by code_simp
  have paths: "rmap (resolve_path sample_pki) [cg_certificate_path ?g, cg_private_key_path ?g, cg_ca_path ?g] =
      Inr [cg_certificate_path ?g, cg_private_key_path ?g, cg_ca_path ?g]" by (simp add: sample_pki_def)
  have "read_active_credential sample_pki (Inr ()) ''r1'' (cg_certificate_path ?g) (cg_private_key_path ?g) (cg_ca_path ?g) 7
      (cred_db ?s) = Inr ?g" by code_simp
  then have "sm_effective_status ?m = ''active''"
    using inventory_active_iff_accepted[OF refl read refl] paths by simp
  then show ?thesis using read by blast
qed

theorem shared_directory_loses_key_witness:
  "\<exists>s'. cred_enroll sample_pki (Inr ''r2'') (Inr ''k'') (Inr ''ca'') 8 ((cred_new ''r2'' ''/c'')\<lparr>cred_disk :=
       cred_disk (cred_run sample_pki sample_enrollment (cred_new ''r1'' ''/c''))\<rparr>) = (s', Inl (RuntimeError ''OSError'')) \<and>
     map_of (cred_disk s') ''/c/generation-1'' = None"
proof -
  let ?s1 = "cred_run sample_pki sample_enrollment (cred_new ''r1'' ''/c'')"
  let ?s2 = "(cred_new ''r2'' ''/c'')\<lparr>cred_disk := cred_disk ?s1\<rparr>"
  let ?b = "bundle_files ''r2'' ''k'' ''ca''"
  have check: "enrollment_check sample_pki (Inr ''r2'') (Inr ''k'') (Inr ''ca'') 8 ?s2 =
      Inr (?b, replicate 64 CHR ''b'', 0, 100, cg_generation sample_generation)" by code_simp
  have d: "''/c/generation-1'' = generation_directory (cred_directory ?s2) (cg_generation sample_generation)" by code_simp
  have taken: "map_of (cred_disk ?s1) ''/c/generation-1'' = Some (bundle_files ''r1'' ''k'' ''ca'')" by code_simp
  have path: "cg_private_key_path sample_generation = ''/c/generation-1'' @ ''/private-key.pem''"
    by (simp add: sample_generation_def)
  show ?thesis
    using shared_directory_loses_key[OF sample_accepted check _ d taken path] by auto
qed

end
