(* ===== verification/Ros2.thy ===== *)
theory Ros2
  imports Participant
begin

text \<open>
  \<open>ros2.py\<close>: the adapter that executes assignments as ROS 2 actions, its rclpy backend, the semantic state store and
  the binding of the generic interface \<open>ExecuteCapability\<close>, and \<open>integrations/ros2.py\<close> is in \<open>Ros2_Runs\<close>. rclpy
  is a parameter: what the answers of an action server to a goal, to waiting for its result and to a
  cancellation are. A goal handle is its name. Several executions are open at once; \<open>ros_begin\<close> and \<open>ros_finish\<close> are
  the two halves of \<open>execute\<close> between which a cancellation can come. Timeouts are exact decimals.
\<close>

section \<open>Results and bindings\<close>

datatype native_status = NsSucceeded | NsFailed | NsRejected | NsCancelled | NsUnknown

fun native_status_value :: "native_status \<Rightarrow> string" where
  "native_status_value NsSucceeded = ''succeeded''"
| "native_status_value NsFailed = ''failed''"
| "native_status_value NsRejected = ''rejected''"
| "native_status_value NsCancelled = ''cancelled''"
| "native_status_value NsUnknown = ''unknown''"

record native_result =
  nr_status :: native_status
  nr_description :: string
  nr_outputs :: "json option"

definition post_init_native_result :: "native_result \<Rightarrow> native_result res" where
  "post_init_native_result r =
     rbind (require (\<not> py_blank (nr_description r)) (ValueError ''native action result requires a description'')) (\<lambda>_.
     rbind (require (case nr_outputs r of None \<Rightarrow> True | Some v \<Rightarrow> is_object v)
              (ValueError ''native action result outputs must be an object'')) (\<lambda>_.
     Inr r))"

text \<open>A ROS message as its attributes, constants of the interface included; these are integers and strings.\<close>

datatype ros_value = RvInt int | RvStr string

type_synonym ros_object = "(string \<times> ros_value) list"

definition ros_attribute :: "ros_object \<Rightarrow> string \<Rightarrow> ros_value res" where
  "ros_attribute x name = (case map_of x name of Some v \<Rightarrow> Inr v | None \<Rightarrow> Inl (AttributeError name))"

record action_binding =
  ab_capability :: string
  ab_action_name :: string
  ab_action_type :: string
  ab_goal_builder :: "assignment \<Rightarrow> ros_object res"
  ab_result_reader :: "ros_object \<Rightarrow> int \<Rightarrow> native_result res"
  ab_server_timeout :: decimal
  ab_result_timeout :: "decimal option"

definition post_init_binding :: "action_binding \<Rightarrow> action_binding res" where
  "post_init_binding b =
     rbind (require (ab_capability b \<noteq> [] \<and> ab_action_name b \<noteq> [])
              (ValueError ''ROS action binding requires capability and action name'')) (\<lambda>_.
     rbind (require (\<not> fst (ab_server_timeout b) \<le> 0) (ValueError ''ROS action server timeout must be positive'')) (\<lambda>_.
     rbind (require (case ab_result_timeout b of None \<Rightarrow> True | Some t \<Rightarrow> \<not> fst t \<le> 0)
              (ValueError ''ROS action result timeout must be positive'')) (\<lambda>_.
     Inr b)))"

section \<open>The generic interface\<close>

definition build_goal :: "assignment \<Rightarrow> ros_object res" where
  "build_goal a = Inr [(''assignment_id'', RvStr (assignment_id a)), (''capability'', RvStr (step_capability (asg_step a))),
     (''inputs_json'', RvStr (json_dumps (step_inputs (asg_step a))))]"

text \<open>The dictionary of \<open>read_result\<close>: of equal constants the later one counts.\<close>

definition status_constants :: "ros_object \<Rightarrow> (ros_value \<times> native_status) list res" where
  "status_constants x =
     rbind (rmap (\<lambda>(name, st). rbind (ros_attribute x name) (\<lambda>v. Inr (v, st)))
       [(''SUCCEEDED'', NsSucceeded), (''FAILED'', NsFailed), (''REJECTED'', NsRejected),
        (''CANCELLED'', NsCancelled), (''UNKNOWN'', NsUnknown)]) (\<lambda>kvs. Inr (rev kvs))"

definition result_outputs :: "ros_object \<Rightarrow> json res" where
  "result_outputs x =
     rbind (case map_of x ''outputs_json'' of
              None \<Rightarrow> Inr (JObj [])
            | Some (RvInt _) \<Rightarrow> Inl (ValueError ''ExecuteCapability returned invalid outputs JSON'')
            | Some (RvStr s) \<Rightarrow> (case json_loads s of
                None \<Rightarrow> Inl (ValueError ''ExecuteCapability returned invalid outputs JSON'')
              | Some v \<Rightarrow> Inr v)) (\<lambda>v.
     rbind (require (is_object v) (ValueError ''ExecuteCapability outputs JSON must be an object'')) (\<lambda>_. Inr v))"

definition read_result :: "ros_object \<Rightarrow> int \<Rightarrow> native_result res" where
  "read_result x ros_status =
     rbind (status_constants x) (\<lambda>constants.
     rbind (case map_of x ''status'' of
              None \<Rightarrow> Inl (ValueError ''ExecuteCapability returned an invalid status'')
            | Some v \<Rightarrow> (case map_of constants v of
                None \<Rightarrow> Inl (ValueError ''ExecuteCapability returned an invalid status'')
              | Some st \<Rightarrow> Inr st)) (\<lambda>st.
     rbind (result_outputs x) (\<lambda>outs.
     rbind (ros_attribute x ''description'') (\<lambda>d. case d of
       RvInt _ \<Rightarrow> Inl (AttributeError ''strip'')
     | RvStr text \<Rightarrow> post_init_native_result \<lparr>nr_status = st, nr_description = text, nr_outputs = Some outs\<rparr>))))"

definition json_capability_binding :: "string \<Rightarrow> string \<Rightarrow> string \<Rightarrow> decimal \<Rightarrow> decimal option \<Rightarrow> action_binding res" where
  "json_capability_binding capability action_name action_type server_timeout result_timeout =
     post_init_binding \<lparr>ab_capability = capability, ab_action_name = action_name, ab_action_type = action_type,
       ab_goal_builder = build_goal, ab_result_reader = read_result, ab_server_timeout = server_timeout,
       ab_result_timeout = result_timeout\<rparr>"

section \<open>The rclpy backend\<close>

text \<open>
  \<open>server_ready\<close> is the answer of \<open>wait_for_server\<close>; the other three are the answers of \<open>_wait\<close> for the future of a goal
  (no handle, or the handle and whether it was accepted), of its result (with the ROS status) and of its
  cancellation (whether \<open>goals_canceling\<close> is not empty). \<open>TimeoutError\<close> is one of their exceptions.
\<close>

record ros_env =
  server_ready :: "string \<Rightarrow> bool"
  send_goal :: "string \<Rightarrow> ros_object \<Rightarrow> (string \<times> bool) option res"
  goal_result :: "string \<Rightarrow> (ros_object \<times> int) res"
  cancel_goal :: "string \<Rightarrow> bool res"

record ros_backend =
  rb_clients :: "(string \<times> string) list"
  rb_active :: "(string \<times> string) list"

definition ros_backend_init :: ros_backend where
  "ros_backend_init = \<lparr>rb_clients = [], rb_active = []\<rparr>"

definition timeout_error :: error where "timeout_error = NativeError ''TimeoutError''"

definition native_answer :: "native_status \<Rightarrow> string \<Rightarrow> native_result res" where
  "native_answer st text = post_init_native_result \<lparr>nr_status = st, nr_description = text, nr_outputs = None\<rparr>"

definition ros_client :: "action_binding \<Rightarrow> ros_backend \<Rightarrow> ros_backend" where
  "ros_client b s = s\<lparr>rb_clients := List.insert (ab_action_type b, ab_action_name b) (rb_clients s)\<rparr>"

text \<open>\<open>dict[key] = value\<close> and \<open>dict.pop(key, None)\<close>.\<close>

definition set_active :: "string \<Rightarrow> string \<Rightarrow> ros_backend \<Rightarrow> ros_backend" where
  "set_active aid h s = s\<lparr>rb_active := (aid, h) # filter (\<lambda>(k, _). k \<noteq> aid) (rb_active s)\<rparr>"

definition pop_active :: "string \<Rightarrow> ros_backend \<Rightarrow> ros_backend" where
  "pop_active aid s = s\<lparr>rb_active := filter (\<lambda>(k, _). k \<noteq> aid) (rb_active s)\<rparr>"

text \<open>\<open>execute\<close> up to the accepted goal: its handle, or the result with which it returns at once.\<close>

definition ros_begin :: "ros_env \<Rightarrow> action_binding \<Rightarrow> assignment \<Rightarrow> ros_backend \<Rightarrow> ros_backend \<times> (string + native_result) res" where
  "ros_begin env b a s =
     (let s1 = ros_client b s in
      if \<not> server_ready env (ab_action_name b) then
        (s1, rbind (native_answer NsRejected (''ROS action server unavailable: '' @ ab_action_name b)) (\<lambda>r. Inr (Inr r)))
      else (case rbind (ab_goal_builder b a) (send_goal env (ab_action_name b)) of
        Inl e \<Rightarrow> (s1, Inl e)
      | Inr (Some (h, True)) \<Rightarrow> (set_active (assignment_id a) h s1, Inr (Inl h))
      | Inr _ \<Rightarrow>
          (s1, rbind (native_answer NsRejected (''ROS action server rejected goal: '' @ ab_action_name b)) (\<lambda>r. Inr (Inr r)))))"

text \<open>Its second half: the \<open>try\<close> statement with its handlers. The cancellation after a timeout changes nothing here,
  and its exceptions are ignored.\<close>

definition ros_result :: "ros_env \<Rightarrow> action_binding \<Rightarrow> string \<Rightarrow> native_result res" where
  "ros_result env b h =
     (case rbind (goal_result env h) (\<lambda>(x, st). ab_result_reader b x st) of
        Inr r \<Rightarrow> Inr r
      | Inl e \<Rightarrow>
          if e = timeout_error
          then native_answer NsUnknown (''ROS action result timed out and execution state is unknown: '' @ ab_action_name b)
          else native_answer NsUnknown (''ROS action result could not be interpreted: '' @ error_name e))"

definition ros_finish :: "ros_env \<Rightarrow> action_binding \<Rightarrow> assignment \<Rightarrow> string \<Rightarrow> ros_backend \<Rightarrow> ros_backend \<times> native_result res" where
  "ros_finish env b a h s = (pop_active (assignment_id a) s, ros_result env b h)"

definition ros_execute :: "ros_env \<Rightarrow> action_binding \<Rightarrow> assignment \<Rightarrow> ros_backend \<Rightarrow> ros_backend \<times> native_result res" where
  "ros_execute env b a s = (case ros_begin env b a s of
      (s1, Inl e) \<Rightarrow> (s1, Inl e)
    | (s1, Inr (Inr r)) \<Rightarrow> (s1, Inr r)
    | (s1, Inr (Inl h)) \<Rightarrow> ros_finish env b a h s1)"

definition ros_cancel :: "ros_env \<Rightarrow> string \<Rightarrow> string \<Rightarrow> ros_backend \<Rightarrow> (bool \<times> string) res" where
  "ros_cancel env aid reason s = (case map_of (rb_active s) aid of
      None \<Rightarrow> Inr (False, ''ROS action goal is not active'')
    | Some h \<Rightarrow> (case cancel_goal env h of
        Inl e \<Rightarrow> if e = timeout_error then Inr (False, ''ROS action cancellation timed out'') else Inl e
      | Inr True \<Rightarrow> Inr (True, ''ROS action server accepted cancellation: '' @ reason)
      | Inr False \<Rightarrow> Inr (False, ''ROS action server rejected cancellation'')))"

definition ros_close :: "ros_backend \<Rightarrow> ros_backend" where
  "ros_close s = s\<lparr>rb_clients := []\<rparr>"

section \<open>The adapter\<close>

definition state_store_update :: "robot_state \<Rightarrow> robot_state \<Rightarrow> robot_state res" where
  "state_store_update st current =
     rbind (require (st_robot_id st = st_robot_id current) (ValueError ''semantic state robot identity cannot change'')) (\<lambda>_.
     Inr st)"

record ros_adapter =
  ra_manifest :: manifest
  ra_state :: robot_state
  ra_bindings :: "(string \<times> action_binding) list"

definition ros_adapter_init :: "manifest \<Rightarrow> robot_state \<Rightarrow> (string \<times> action_binding) list \<Rightarrow> ros_adapter res" where
  "ros_adapter_init mf st bindings =
     rbind (require (st_robot_id st = mf_robot_id mf) (ValueError ''manifest and semantic state robot IDs must match'')) (\<lambda>_.
     rbind (require (list_all (\<lambda>(k, b). k \<in> set (map cap_name (mf_capabilities mf)) \<and> k = ab_capability b) bindings)
              (ValueError ''ROS action bindings must match advertised capabilities'')) (\<lambda>_.
     Inr \<lparr>ra_manifest = mf, ra_state = st, ra_bindings = bindings\<rparr>))"

definition native_outcome_of :: "string \<Rightarrow> string \<Rightarrow> native_result \<Rightarrow> outcome res" where
  "native_outcome_of aid robot r =
     rbind (assignment_status_of (JStr (native_status_value (nr_status r)))) (\<lambda>st.
     mk_outcome aid robot (st = AsSucceeded) (nr_description r) (Some st)
       (case nr_outputs r of None \<Rightarrow> JObj [] | Some v \<Rightarrow> v))"

definition ros_accept :: "ros_env \<Rightarrow> ros_adapter \<Rightarrow> assignment \<Rightarrow> ros_backend \<Rightarrow> ros_backend \<times> outcome res" where
  "ros_accept env ad a s = (case map_of (ra_bindings ad) (step_capability (asg_step a)) of
      None \<Rightarrow> (s, mk_outcome (assignment_id a) (mf_robot_id (ra_manifest ad)) False
                    ''Native ROS adapter has no action binding for this capability'' (Some AsRejected) (JObj []))
    | Some b \<Rightarrow> (case ros_execute env b a s of
        (s1, r) \<Rightarrow> (s1, rbind r (native_outcome_of (assignment_id a) (mf_robot_id (ra_manifest ad))))))"

end
