(* ===== verification/Ros2_Runs.thy ===== *)
theory Ros2_Runs
  imports Ros2 Integrations Participant_Runs
begin

text \<open>
  What a participant reports when its native adapter is the ROS 2 adapter, what a cancellation reaches while several
  actions run, the generic interface as the repository declares it, and the awareness bridge of
  \<open>integrations/ros2.py\<close>.
\<close>

section \<open>The awareness bridge\<close>

fun members_of :: "json \<Rightarrow> (string \<times> json) list" where
  "members_of (JObj kvs) = kvs"
| "members_of _ = []"

definition bridge_report :: "string \<Rightarrow> string \<Rightarrow> int \<Rightarrow> string list \<Rightarrow> string option \<Rightarrow> mapping_report res" where
  "bridge_report direction robot observed names correlation =
     rbind (rmap (\<lambda>k. post_init_field_mapping \<lparr>fm_field = k, fm_status = FmMapped, fm_detail = []\<rparr>) names) (\<lambda>fs.
     post_init_report \<lparr>mr_standard = ''ros2'', mr_standard_version = ''0.1'', mr_direction = direction, mr_source_id = robot,
       mr_observed_at_ms = observed, mr_fields = fs, mr_correlation_id = correlation, mr_warnings = []\<rparr>)"

definition bridge_export_manifest :: "ros_adapter \<Rightarrow> int \<Rightarrow> ((string \<times> json) list \<times> mapping_report) res" where
  "bridge_export_manifest ad observed =
     (let doc = (''protocol'', JStr PROTOCOL_VERSION) # members_of (manifest_payload (ra_manifest ad)) in
      rbind (bridge_report ''ump_to_external'' (mf_robot_id (ra_manifest ad)) observed (map fst doc) None) (\<lambda>r. Inr (doc, r)))"

definition bridge_export_state :: "ros_adapter \<Rightarrow> int \<Rightarrow> ((string \<times> json) list \<times> mapping_report) res" where
  "bridge_export_state ad observed =
     (let st = ra_state ad;
          doc = (''protocol'', JStr PROTOCOL_VERSION) # (''observed_at_ms'', JInt observed) # members_of (state_payload st) in
      rbind (bridge_report ''ump_to_external'' (st_robot_id st) observed (map fst doc) (st_assignment_id st)) (\<lambda>r. Inr (doc, r)))"

definition bridge_ingest_manifest :: "ros_adapter \<Rightarrow> (string \<times> json) list \<Rightarrow> int \<Rightarrow> (manifest \<times> mapping_report) res" where
  "bridge_ingest_manifest ad doc observed =
     rbind (require (map_of doc ''protocol'' = Some (JStr PROTOCOL_VERSION))
              (ValueError ''ROS 2 awareness manifest protocol is unsupported'')) (\<lambda>_.
     rbind (require (map_of doc ''robot_id'' = Some (JStr (mf_robot_id (ra_manifest ad))))
              (ValueError ''ROS 2 awareness identity does not match adapter'')) (\<lambda>_.
     rbind (bridge_report ''external_to_ump'' (mf_robot_id (ra_manifest ad)) observed [''protocol'', ''robot_id''] None) (\<lambda>r.
     Inr (ra_manifest ad, r))))"

definition bridge_ingest_state :: "ros_adapter \<Rightarrow> (string \<times> json) list \<Rightarrow> int \<Rightarrow> (robot_state \<times> mapping_report) res" where
  "bridge_ingest_state ad doc observed =
     rbind (require (map_of doc ''protocol'' = Some (JStr PROTOCOL_VERSION) \<and>
                     map_of doc ''robot_id'' = Some (JStr (mf_robot_id (ra_manifest ad))))
              (ValueError ''ROS 2 awareness state protocol or identity is invalid'')) (\<lambda>_.
     rbind (bridge_report ''external_to_ump'' (st_robot_id (ra_state ad)) observed [''protocol'', ''robot_id'']
              (st_assignment_id (ra_state ad))) (\<lambda>r.
     Inr (ra_state ad, r)))"

text \<open>What the bridge exports it also takes in, and taking in never changes what the adapter says of itself.\<close>

lemma bridge_manifest_round_trip:
  assumes "bridge_export_manifest ad observed = Inr (doc, r)" and "0 \<le> later"
  shows "\<exists>r'. bridge_ingest_manifest ad doc later = Inr (ra_manifest ad, r')"
proof -
  have "doc = (''protocol'', JStr PROTOCOL_VERSION) # members_of (manifest_payload (ra_manifest ad))" "mf_robot_id (ra_manifest ad) \<noteq> []"
    using assms(1) by (auto simp: bridge_export_manifest_def bridge_report_def post_init_report_def Let_def res_simps)
  then show ?thesis using assms(2)
    by (simp add: bridge_ingest_manifest_def bridge_report_def post_init_report_def post_init_field_mapping_def
        manifest_payload_def py_len_def codepoints_def)
qed

section \<open>What the participant reports\<close>

definition goal_accepted :: "ros_env \<Rightarrow> action_binding \<Rightarrow> assignment \<Rightarrow> string \<Rightarrow> bool" where
  "goal_accepted env b a h = (server_ready env (ab_action_name b) \<and>
     (case ab_goal_builder b a of Inl _ \<Rightarrow> False | Inr g \<Rightarrow> send_goal env (ab_action_name b) g = Inr (Some (h, True))))"

definition reported_by_server :: "ros_env \<Rightarrow> action_binding \<Rightarrow> string \<Rightarrow> native_result \<Rightarrow> bool" where
  "reported_by_server env b h r = (case goal_result env h of Inl _ \<Rightarrow> False | Inr (x, st) \<Rightarrow> ab_result_reader b x st = Inr r)"

lemma native_answer_Inr: "native_answer st text = Inr r \<Longrightarrow> nr_status r = st \<and> nr_outputs r = None"
  by (auto simp: native_answer_def post_init_native_result_def res_simps)

lemma ros_execute_cases:
  assumes "snd (ros_execute env b a s) = Inr r"
  shows "(\<forall>h. \<not> goal_accepted env b a h) \<and> nr_status r = NsRejected \<or>
    (\<exists>h. goal_accepted env b a h \<and> (reported_by_server env b h r \<or> nr_status r = NsUnknown))"
proof (cases "server_ready env (ab_action_name b)")
  case False
  then show ?thesis using assms
    by (auto simp: ros_execute_def ros_begin_def goal_accepted_def Let_def res_simps dest: native_answer_Inr split: sum.splits)
next
  case True
  show ?thesis
  proof (cases "rbind (ab_goal_builder b a) (send_goal env (ab_action_name b))")
    case (Inl e)
    then show ?thesis using assms True by (simp add: ros_execute_def ros_begin_def Let_def)
  next
    case (Inr x)
    then obtain g where g: "ab_goal_builder b a = Inr g" "send_goal env (ab_action_name b) g = Inr x" by (auto simp: res_simps)
    show ?thesis
    proof (cases "\<exists>h. x = Some (h, True)")
      case True
      then obtain h where x: "x = Some (h, True)" by blast
      have "ros_result env b h = Inr r"
        using assms \<open>server_ready env _\<close> Inr x by (simp add: ros_execute_def ros_begin_def ros_finish_def Let_def)
      then have "reported_by_server env b h r \<or> nr_status r = NsUnknown"
        by (auto simp: ros_result_def reported_by_server_def res_simps dest: native_answer_Inr split: sum.splits if_splits)
      then show ?thesis using g x \<open>server_ready env _\<close> by (auto simp: goal_accepted_def)
    next
      case False
      then have "\<not> goal_accepted env b a h" for h using g by (simp add: goal_accepted_def)
      moreover have "nr_status r = NsRejected"
        using assms \<open>server_ready env _\<close> Inr False
        by (auto simp: ros_execute_def ros_begin_def Let_def res_simps dest: native_answer_Inr split: option.splits bool.splits sum.splits)
      ultimately show ?thesis by blast
    qed
  qed
qed

lemma native_outcome_of_status:
  "native_outcome_of aid robot r = Inr oc \<Longrightarrow> assignment_status_value (oc_status oc) = native_status_value (nr_status r)"
  by (cases "nr_status r")
    (auto simp: native_outcome_of_def res_simps mk_outcome_Inr_iff resolve_status_def assignment_status_of_def enum_of_def)

text \<open>a participant over ROS 2 tells the truth. When the native adapter of a participant is the ROS 2 adapter, then
  whatever the action server does: an outcome succeeded, failed or cancelled was reported by the server for a goal
  it accepted for this assignment; an outcome rejected means that no goal was accepted, or that the server reported
  it; and when a goal was accepted whose result never came, or when the adapter raised, the outcome is unknown.\<close>

lemma ros_outcome_is_true:
  assumes "nat_accept nv = (\<lambda>a. snd (ros_accept env ad a s))" and "executed_outcome nv robot a = Inr oc"
    and "map_of (ra_bindings ad) (step_capability (asg_step a)) = Some b"
  shows "(oc_status oc \<in> {AsSucceeded, AsFailed, AsCancelled} \<longrightarrow>
      (\<exists>h r. goal_accepted env b a h \<and> reported_by_server env b h r \<and>
        native_status_value (nr_status r) = assignment_status_value (oc_status oc))) \<and>
    (oc_status oc = AsRejected \<longrightarrow>
      (\<forall>h. \<not> goal_accepted env b a h) \<or> (\<exists>h r. goal_accepted env b a h \<and> reported_by_server env b h r \<and> nr_status r = NsRejected)) \<and>
    (\<forall>h. goal_accepted env b a h \<longrightarrow> \<not> is_ok (goal_result env h) \<longrightarrow> oc_status oc = AsUnknown) \<and>
    oc_status oc \<noteq> AsAccepted"
proof (cases "native_outcome nv robot a")
  case (Inl err)
  then show ?thesis using assms(2) by (auto simp: executed_outcome_def mk_outcome_Inr_iff resolve_status_def)
next
  case (Inr oc')
  then have "oc' = oc" using assms(2) by (simp add: executed_outcome_def)
  then have acc: "snd (ros_accept env ad a s) = Inr oc"
    using Inr assms(1) by (auto simp: native_outcome_def res_simps split: option.splits if_splits)
  obtain r where r: "snd (ros_execute env b a s) = Inr r" and oc: "native_outcome_of (assignment_id a) (mf_robot_id (ra_manifest ad)) r = Inr oc"
    using acc assms(3) by (auto simp: ros_accept_def res_simps split: prod.splits)
  have st: "assignment_status_value (oc_status oc) = native_status_value (nr_status r)" by (rule native_outcome_of_status[OF oc])
  have one: "h = h'" if "goal_accepted env b a h" "goal_accepted env b a h'" for h h'
    using that by (auto simp: goal_accepted_def split: sum.splits)
  consider (none) "\<forall>h. \<not> goal_accepted env b a h" "nr_status r = NsRejected"
    | (told) h where "goal_accepted env b a h" "reported_by_server env b h r"
    | (lost) h where "goal_accepted env b a h" "nr_status r = NsUnknown"
    using ros_execute_cases[OF r] by blast
  then show ?thesis
  proof cases
    case none
    then have "oc_status oc = AsRejected" using st by (cases "oc_status oc") simp_all
    then show ?thesis using none(1) by simp
  next
    case told
    have "is_ok (goal_result env h)" using told(2) by (auto simp: reported_by_server_def split: sum.splits)
    then have ok: "is_ok (goal_result env h')" if "goal_accepted env b a h'" for h' using one[OF told(1) that] by simp
    have "oc_status oc \<noteq> AsAccepted \<and> (oc_status oc = AsRejected \<longrightarrow> nr_status r = NsRejected)"
      using st by (cases "oc_status oc"; cases "nr_status r") simp_all
    then show ?thesis using told st[symmetric] ok by (intro conjI impI allI; blast)
  next
    case lost
    then have "oc_status oc = AsUnknown" using st by (cases "oc_status oc") simp_all
    then show ?thesis by simp
  qed
qed

section \<open>Cancellations while actions run\<close>

datatype ros_event =
    RoBegin action_binding assignment
  | RoFinish string
  | RoCancel string string

record ros_run =
  ro_backend :: ros_backend
  ro_running :: "(string \<times> action_binding \<times> assignment \<times> string) list"

text \<open>An execution of an id begins only when none with this id runs: the participant claims an id once. \<open>RoFinish\<close> is
  the arrival of the result or of the timeout.\<close>

fun ros_step :: "ros_env \<Rightarrow> ros_event \<Rightarrow> ros_run \<Rightarrow> ros_run" where
  "ros_step env (RoBegin b a) s =
     (if assignment_id a \<in> fst ` set (ro_running s) then s
      else case ros_begin env b a (ro_backend s) of
        (q, Inr (Inl h)) \<Rightarrow> s\<lparr>ro_backend := q, ro_running := ro_running s @ [(assignment_id a, b, a, h)]\<rparr>
      | (q, _) \<Rightarrow> s\<lparr>ro_backend := q\<rparr>)"
| "ros_step env (RoFinish aid) s = (case map_of (ro_running s) aid of
      None \<Rightarrow> s
    | Some (b, a, h) \<Rightarrow> s\<lparr>ro_backend := fst (ros_finish env b a h (ro_backend s)),
        ro_running := filter (\<lambda>(k, _). k \<noteq> aid) (ro_running s)\<rparr>)"
| "ros_step env (RoCancel aid reason) s = s"

definition ros_start :: ros_run where
  "ros_start = \<lparr>ro_backend = ros_backend_init, ro_running = []\<rparr>"

definition ros_history :: "ros_env \<Rightarrow> ros_event list \<Rightarrow> ros_run" where
  "ros_history env evs = fold (ros_step env) evs ros_start"

definition ros_inv :: "ros_env \<Rightarrow> ros_run \<Rightarrow> bool" where
  "ros_inv env s \<longleftrightarrow>
     (\<forall>aid. map_of (rb_active (ro_backend s)) aid = map_option (\<lambda>(b, a, h). h) (map_of (ro_running s) aid)) \<and>
     (\<forall>(aid, b, a, h) \<in> set (ro_running s). aid = assignment_id a \<and> goal_accepted env b a h)"

lemma map_of_filter_key: "map_of (filter (\<lambda>(k, _). k \<noteq> aid) xs) k = (if k = aid then None else map_of xs k)"
  by (induction xs) auto

lemma ros_begin_accepted:
  assumes "ros_begin env b a s = (q, Inr (Inl h))"
  shows "goal_accepted env b a h" "rb_active q = (assignment_id a, h) # filter (\<lambda>(k, _). k \<noteq> assignment_id a) (rb_active s)"
  using assms
  by (auto simp: ros_begin_def goal_accepted_def set_active_def ros_client_def Let_def res_simps
      split: if_splits sum.splits option.splits bool.splits)

lemma ros_begin_refused: "ros_begin env b a s = (q, r) \<Longrightarrow> \<forall>h. r \<noteq> Inr (Inl h) \<Longrightarrow> rb_active q = rb_active s"
  by (auto simp: ros_begin_def ros_client_def Let_def split: if_splits sum.splits option.splits bool.splits)

lemma ros_inv_step: "ros_inv env s \<Longrightarrow> ros_inv env (ros_step env ev s)"
proof (cases ev)
  case (RoBegin b a)
  assume inv: "ros_inv env s"
  show ?thesis
  proof (cases "assignment_id a \<in> fst ` set (ro_running s)")
    case False
    obtain q r where run: "ros_begin env b a (ro_backend s) = (q, r)" by fastforce
    have new: "map_of (ro_running s) (assignment_id a) = None" using False by (simp add: map_of_eq_None_iff)
    show ?thesis
    proof (cases "\<exists>h. r = Inr (Inl h)")
      case True
      then obtain h where r: "r = Inr (Inl h)" by blast
      note q = ros_begin_accepted[OF run[unfolded r]]
      show ?thesis using inv False new run r q
        by (auto simp: ros_inv_def RoBegin map_add_def map_of_filter_key split: option.splits)
    next
      case other: False
      then have "ros_step env ev s = s\<lparr>ro_backend := q\<rparr>" using False run by (auto simp: RoBegin split: sum.splits)
      then show ?thesis using inv ros_begin_refused[OF run] other by (simp add: ros_inv_def)
    qed
  qed (simp add: RoBegin inv)
next
  case (RoFinish aid)
  assume inv: "ros_inv env s"
  show ?thesis
  proof (cases "map_of (ro_running s) aid")
    case (Some x)
    obtain b a h where x: "x = (b, a, h)" by (cases x)
    have "assignment_id a = aid" using inv Some x by (auto simp: ros_inv_def dest!: map_of_SomeD)
    then show ?thesis using inv Some x
      by (auto simp: ros_inv_def RoFinish ros_finish_def pop_active_def map_of_filter_key)
  qed (simp add: RoFinish inv)
qed (simp add: ros_inv_def)

text \<open>a cancellation goes to the goal of its assignment, while it runs. After any history of overlapping executions
  the backend asks the server to cancel exactly the handle that the server accepted for this assignment and
  that has not finished; for every other id it answers that the goal is not active, and never yes.\<close>

lemma ros_cancel_reaches_running_goal:
  assumes "s = ros_history env evs"
  shows "(case map_of (ro_running s) aid of
      None \<Rightarrow> ros_cancel env aid reason (ro_backend s) = Inr (False, ''ROS action goal is not active'')
    | Some (b, a, h) \<Rightarrow> assignment_id a = aid \<and> goal_accepted env b a h \<and>
        (ros_cancel env aid reason (ro_backend s) = Inr (True, ''ROS action server accepted cancellation: '' @ reason)
         \<longleftrightarrow> cancel_goal env h = Inr True))"
proof -
  have "ros_inv env (fold (ros_step env) evs s0)" if "ros_inv env s0" for s0
    using that by (induction evs arbitrary: s0) (simp_all add: ros_inv_step)
  moreover have "ros_inv env ros_start" by (simp add: ros_inv_def ros_start_def ros_backend_init_def)
  ultimately have inv: "ros_inv env s" by (simp add: assms ros_history_def)
  show ?thesis
  proof (cases "map_of (ro_running s) aid")
    case None
    then show ?thesis using inv by (simp add: ros_inv_def ros_cancel_def)
  next
    case (Some x)
    obtain b a h where x: "x = (b, a, h)" by (cases x)
    have "map_of (rb_active (ro_backend s)) aid = Some h" "aid = assignment_id a" "goal_accepted env b a h"
      using inv Some x by (auto simp: ros_inv_def dest!: map_of_SomeD)
    then show ?thesis using Some x by (auto simp: ros_cancel_def split: sum.splits bool.splits)
  qed
qed

text \<open>After a timeout the goal is forgotten, whether or not the server cancelled it: a later cancellation answers that the
  goal is not active although its state is unknown.\<close>

lemma timed_out_goal_is_forgotten:
  assumes "goal_accepted env b a h" and "goal_result env h = Inl timeout_error"
  shows "\<exists>s' r. ros_execute env b a s = (s', Inr r) \<and> nr_status r = NsUnknown \<and>
    ros_cancel env' (assignment_id a) reason s' = Inr (False, ''ROS action goal is not active'')"
proof -
  obtain q where "ros_begin env b a s = (q, Inr (Inl h))"
    using assms(1) by (auto simp: goal_accepted_def ros_begin_def Let_def split: sum.splits)
  moreover have "map_of (rb_active (pop_active (assignment_id a) q)) (assignment_id a) = None"
    by (simp add: pop_active_def map_of_filter_key)
  moreover have "\<not> py_blank (''ROS action result timed out and execution state is unknown: '' @ ab_action_name b)"
    by (simp add: py_blank_def codepoints_def in_ranges_def space_ranges_def)
  ultimately show ?thesis using assms(2)
    by (simp add: ros_execute_def ros_finish_def ros_result_def native_answer_def post_init_native_result_def ros_cancel_def)
qed

section \<open>The generic interface as it is declared\<close>

text \<open>C40: with the declared interface no action ever succeeds. \<open>ExecuteCapability.action\<close> declares for its result the three
  strings \<open>status\<close>, \<open>description\<close> and \<open>outputs_json\<close> and no constants, but the reader of \<open>json_capability_binding\<close>
  compares the status with constants of the result. Every result of an accepted goal, whatever it says, becomes
  an unknown outcome after \<open>AttributeError\<close>.\<close>

theorem declared_interface_never_succeeds:
  assumes "json_capability_binding c name type server_timeout result_timeout = Inr b"
    and "goal_accepted env b a h" and "goal_result env h = Inr (x, code)"
    and "fst ` set x \<subseteq> {''status'', ''description'', ''outputs_json''}"
  shows "snd (ros_execute env b a s) = Inr \<lparr>nr_status = NsUnknown,
     nr_description = ''ROS action result could not be interpreted: AttributeError'', nr_outputs = None\<rparr>"
proof -
  obtain q where begin_ok: "ros_begin env b a s = (q, Inr (Inl h))"
    using assms(2) by (auto simp: goal_accepted_def ros_begin_def Let_def split: sum.splits)
  have b: "ab_result_reader b = read_result"
    using assms(1) by (auto simp: json_capability_binding_def post_init_binding_def res_simps)
  have "map_of x ''SUCCEEDED'' = None" using assms(4) by (auto simp: map_of_eq_None_iff)
  then have "read_result x code = Inl (AttributeError ''SUCCEEDED'')"
    by (simp add: read_result_def status_constants_def ros_attribute_def)
  moreover have "\<not> py_blank (''ROS action result could not be interpreted: '' @ ''AttributeError'')"
    by (simp add: py_blank_def codepoints_def in_ranges_def space_ranges_def)
  ultimately show ?thesis
    using begin_ok assms(3)
    by (simp add: ros_execute_def ros_finish_def ros_result_def b timeout_error_def error_name_def native_answer_def
        post_init_native_result_def)
qed

section \<open>Witnesses\<close>

definition sample_ros :: "ros_object \<Rightarrow> ros_env" where
  "sample_ros x = \<lparr>server_ready = (\<lambda>_. True), send_goal = (\<lambda>_ _. Inr (Some (''h1'', True))),
     goal_result = (\<lambda>_. Inr (x, 4)), cancel_goal = (\<lambda>_. Inr True)\<rparr>"

definition sample_constants :: ros_object where
  "sample_constants = [(''SUCCEEDED'', RvInt 0), (''FAILED'', RvInt 1), (''REJECTED'', RvInt 2), (''CANCELLED'', RvInt 3),
     (''UNKNOWN'', RvInt 4), (''status'', RvInt 0), (''description'', RvStr ''done'')]"

definition sample_binding :: action_binding where
  "sample_binding = \<lparr>ab_capability = step_capability (asg_step (sample_assignment ''a1'' [])), ab_action_name = ''/ump/execute'',
     ab_action_type = ''ExecuteCapability'', ab_goal_builder = build_goal, ab_result_reader = read_result,
     ab_server_timeout = (5, 0), ab_result_timeout = None\<rparr>"

definition sample_ros_adapter :: ros_adapter where
  "sample_ros_adapter = \<lparr>ra_manifest = \<lparr>mf_robot_id = ''r1'', mf_manufacturer = ''acme'', mf_model = ''m'',
       mf_robot_class = ''cart'', mf_capabilities = [sample_capability], mf_adapter_version = ''1''\<rparr>,
     ra_state = \<lparr>st_robot_id = ''r1'', st_mode = MoIdle, st_safety = SaNormal, st_activity = ''a'', st_intent = ''i'',
       st_progress = JInt 0, st_summary = ''s'', st_health = HeHealthy, st_battery = None, st_fresh_for_ms = 1,
       st_blockers = [], st_resources = [], st_assignment_id = None, st_pose = None, st_sensor_references = []\<rparr>,
     ra_bindings = [(ab_capability sample_binding, sample_binding)]\<rparr>"

definition ros_native :: "ros_env \<Rightarrow> ros_adapter \<Rightarrow> ros_backend \<Rightarrow> native" where
  "ros_native env ad s = sample_native\<lparr>nat_accept := (\<lambda>a. snd (ros_accept env ad a s))\<rparr>"

theorem ros_outcome_is_true_witness:
  "\<exists>oc. executed_outcome (ros_native (sample_ros sample_constants) sample_ros_adapter ros_backend_init) ''r1''
      (sample_assignment ''a1'' []) = Inr oc \<and> oc_status oc = AsSucceeded \<and>
     goal_accepted (sample_ros sample_constants) sample_binding (sample_assignment ''a1'' []) ''h1''"
proof -
  let ?env = "sample_ros sample_constants" and ?a = "sample_assignment ''a1'' []"
  let ?nv = "ros_native ?env sample_ros_adapter ros_backend_init"
  have st: "case executed_outcome ?nv ''r1'' ?a of Inl _ \<Rightarrow> False | Inr oc \<Rightarrow> oc_status oc = AsSucceeded" by code_simp
  then obtain oc where oc: "executed_outcome ?nv ''r1'' ?a = Inr oc" "oc_status oc = AsSucceeded" by (auto split: sum.splits)
  have acc: "nat_accept ?nv = (\<lambda>a. snd (ros_accept ?env sample_ros_adapter a ros_backend_init))" by (simp add: ros_native_def)
  have b: "map_of (ra_bindings sample_ros_adapter) (step_capability (asg_step ?a)) = Some sample_binding"
    by (simp add: sample_ros_adapter_def sample_binding_def)
  obtain h where h: "goal_accepted ?env sample_binding ?a h"
    using ros_outcome_is_true[OF acc oc(1) b] oc(2) by auto
  moreover have "h = ''h1''" using h by (auto simp: goal_accepted_def sample_ros_def split: sum.splits)
  ultimately show ?thesis using oc by blast
qed

theorem ros_cancel_reaches_running_goal_witness:
  "ros_cancel (sample_ros sample_constants) ''a1'' ''stop''
     (ro_backend (ros_history (sample_ros sample_constants) [RoBegin sample_binding (sample_assignment ''a1'' [])]))
   = Inr (True, ''ROS action server accepted cancellation: stop'')"
proof -
  let ?env = "sample_ros sample_constants" and ?s = "ros_history (sample_ros sample_constants) [RoBegin sample_binding (sample_assignment ''a1'' [])]"
  have "map_of (ro_running ?s) ''a1'' = Some (sample_binding, sample_assignment ''a1'' [], ''h1'')"
    by (simp add: ros_history_def ros_start_def ros_begin_def sample_ros_def sample_binding_def build_goal_def sample_assignment_def Let_def)
  then show ?thesis
    using ros_cancel_reaches_running_goal[OF refl, where env = ?env and evs = "[RoBegin sample_binding (sample_assignment ''a1'' [])]"
        and aid = "''a1''" and reason = "''stop''"]
    by (simp add: sample_ros_def)
qed

theorem declared_interface_never_succeeds_witness:
  "\<exists>b. json_capability_binding ''c/v1'' ''/ump/execute'' ''ExecuteCapability'' (5, 0) None = Inr b \<and>
     snd (ros_execute (sample_ros [(''status'', RvStr ''succeeded''), (''description'', RvStr ''done''), (''outputs_json'', RvStr ''{}'')])
       b (sample_assignment ''a1'' []) ros_backend_init) =
     Inr \<lparr>nr_status = NsUnknown, nr_description = ''ROS action result could not be interpreted: AttributeError'', nr_outputs = None\<rparr>"
proof -
  let ?x = "[(''status'', RvStr ''succeeded''), (''description'', RvStr ''done''), (''outputs_json'', RvStr ''{}'')]"
  let ?b = "\<lparr>ab_capability = ''c/v1'', ab_action_name = ''/ump/execute'', ab_action_type = ''ExecuteCapability'',
    ab_goal_builder = build_goal, ab_result_reader = read_result, ab_server_timeout = (5, 0), ab_result_timeout = None\<rparr>"
  have b: "json_capability_binding ''c/v1'' ''/ump/execute'' ''ExecuteCapability'' (5, 0) None = Inr ?b"
    by (simp add: json_capability_binding_def post_init_binding_def)
  have acc: "goal_accepted (sample_ros ?x) ?b (sample_assignment ''a1'' []) ''h1''"
    by (simp add: goal_accepted_def sample_ros_def build_goal_def)
  have res: "goal_result (sample_ros ?x) ''h1'' = Inr (?x, 4)" by (simp add: sample_ros_def)
  have names: "fst ` set ?x \<subseteq> {''status'', ''description'', ''outputs_json''}" by simp
  show ?thesis using b declared_interface_never_succeeds[OF b acc res names] by blast
qed

end
