(* ===== verification/Diagnostics.thy ===== *)
theory Diagnostics
  imports Outbox_Runs Inbox
begin

text \<open>
  \<open>network_diagnostics.py\<close>: the read-only health report over the tables of the outbox and the inbox. The report is a
  record with one field for each entry of the document; \<open>opened\<close> is the answer of opening the two files and
  checking their columns. The theorems say that its two capacity checks predict whether the outbox takes the next
  message, and that no content of a message reaches it.
\<close>

section \<open>The report\<close>

fun delivery_status_text :: "delivery_status \<Rightarrow> string" where
  "delivery_status_text DsPending = ''pending''"
| "delivery_status_text DsDelivered = ''delivered''"

fun inbox_status_text :: "inbox_status \<Rightarrow> string" where
  "inbox_status_text IsStaged = ''staged''"
| "inbox_status_text IsReceived = ''received''"
| "inbox_status_text IsProcessing = ''processing''"
| "inbox_status_text IsProcessed = ''processed''"
| "inbox_status_text IsFailed = ''failed''"

text \<open>\<open>SELECT key, COUNT(*) ... GROUP BY key\<close> and \<open>MIN\<close>, which is null without rows.\<close>

definition group_counts :: "('r \<Rightarrow> string) \<Rightarrow> 'r list \<Rightarrow> (string \<times> nat) list" where
  "group_counts key rows = map (\<lambda>k. (k, length (filter (\<lambda>r. key r = k) rows))) (sort (remdups (map key rows)))"

definition count_of :: "string \<Rightarrow> (string \<times> nat) list \<Rightarrow> nat" where
  "count_of k counts = (case map_of counts k of None \<Rightarrow> 0 | Some n \<Rightarrow> n)"

fun sql_min :: "int list \<Rightarrow> int option" where
  "sql_min [] = None"
| "sql_min (x # xs) = Some (fold min xs x)"

record delivery_failure =
  df_peer_id :: string
  df_message_id :: string
  df_stream :: string
  df_attempts :: int
  df_last_error :: "string option"
  df_updated_at_ms :: int

record dead_letter =
  dl_message_id :: string
  dl_source_id :: string
  dl_session_id :: string
  dl_stream :: string
  dl_sequence :: int
  dl_error :: "string option"
  dl_updated_at_ms :: int

definition recent_errors :: "int \<Rightarrow> outbox_row list \<Rightarrow> delivery_failure list" where
  "recent_errors limit rows =
     map (\<lambda>r. \<lparr>df_peer_id = or_peer_id r, df_message_id = or_message_id r, df_stream = or_stream r,
               df_attempts = or_attempts r, df_last_error = or_last_error r, df_updated_at_ms = or_updated_at_ms r\<rparr>)
       (take (nat limit) (sort_key (\<lambda>r. - or_updated_at_ms r)
          (rev (filter (\<lambda>r. or_last_error r \<noteq> None) (pending_rows rows)))))"

definition dead_letters :: "int \<Rightarrow> inbox_row list \<Rightarrow> dead_letter list" where
  "dead_letters limit rows =
     map (\<lambda>r. \<lparr>dl_message_id = ir_message_id r, dl_source_id = ir_source_id r, dl_session_id = ir_session_id r,
               dl_stream = ir_stream r, dl_sequence = ir_sequence r, dl_error = ir_error r, dl_updated_at_ms = ir_updated_at_ms r\<rparr>)
       (take (nat limit) (sort_key (\<lambda>r. - ir_updated_at_ms r) (rev (filter (\<lambda>r. ir_status r = IsFailed) rows))))"

record diagnostics =
  dg_observed_at_ms :: int
  dg_checks :: "(string \<times> bool) list"
  dg_outbox_counts :: "(string \<times> nat) list"
  dg_capacity :: int
  dg_reserved_safety :: int
  dg_pending_by_peer :: "(string \<times> nat) list"
  dg_pending_by_stream :: "(string \<times> nat) list"
  dg_pending_attempts :: int
  dg_oldest_age_ms :: "int option"
  dg_next_retry_at_ms :: "int option"
  dg_recent_errors :: "delivery_failure list"
  dg_inbox_counts :: "(string \<times> nat) list"
  dg_failures :: "dead_letter list"

definition dg_healthy :: "diagnostics \<Rightarrow> bool" where
  "dg_healthy d = list_all snd (dg_checks d)"

definition diagnostic_checks ::
  "int \<Rightarrow> int \<Rightarrow> int \<Rightarrow> int option \<Rightarrow> (string \<times> nat) list \<Rightarrow> (string \<times> nat) list \<Rightarrow> (string \<times> nat) list \<Rightarrow> (string \<times> bool) list" where
  "diagnostic_checks maximum reserve maximum_age oldest_age outbox_counts by_stream inbox_counts =
     [(''outbox_has_capacity'', int (count_of ''pending'' outbox_counts) < maximum),
      (''operational_reserve_preserved'', int (count_of ''operational'' by_stream) < maximum - reserve),
      (''pending_age_within_limit'', case oldest_age of None \<Rightarrow> True | Some a \<Rightarrow> 0 \<le> a \<and> a \<le> maximum_age),
      (''inbox_has_no_dead_letters'', count_of ''failed'' inbox_counts = 0),
      (''outbox_statuses_known'', set (map fst outbox_counts) \<subseteq> {''pending'', ''delivered''}),
      (''inbox_statuses_known'', set (map fst inbox_counts) \<subseteq> {''staged'', ''received'', ''processing'', ''processed'', ''failed''})]"

definition inspect_network_databases ::
  "unit res \<Rightarrow> outbox_row list \<Rightarrow> inbox_row list \<Rightarrow> int \<Rightarrow> int \<Rightarrow> int \<Rightarrow> int \<Rightarrow> int \<Rightarrow> diagnostics res" where
  "inspect_network_databases opened out_rows in_rows maximum reserve observed maximum_age limit =
     rbind (require (\<not> maximum < 1) (ValueError ''maximum_pending must be a positive integer'')) (\<lambda>_.
     rbind (require (\<not> (reserve < 0 \<or> reserve \<ge> maximum)) (ValueError ''reserved_safety must fit inside maximum_pending'')) (\<lambda>_.
     rbind (require (\<not> observed < 0) (ValueError ''observed_at_ms must be a non-negative integer'')) (\<lambda>_.
     rbind (require (\<not> maximum_age < 0) (ValueError ''maximum_pending_age_ms must be a non-negative integer'')) (\<lambda>_.
     rbind (require (1 \<le> limit \<and> limit \<le> 1000) (ValueError ''detail_limit must be between 1 and 1000'')) (\<lambda>_.
     rbind opened (\<lambda>_.
     let pending = pending_rows out_rows;
         outbox_counts = group_counts (\<lambda>r. delivery_status_text (or_status r)) out_rows;
         by_stream = group_counts or_stream pending;
         inbox_counts = group_counts (\<lambda>r. inbox_status_text (ir_status r)) in_rows;
         oldest_age = map_option (\<lambda>c. observed - c) (sql_min (map or_created_at_ms pending)) in
     Inr \<lparr>dg_observed_at_ms = observed,
          dg_checks = diagnostic_checks maximum reserve maximum_age oldest_age outbox_counts by_stream inbox_counts,
          dg_outbox_counts = outbox_counts, dg_capacity = maximum, dg_reserved_safety = reserve,
          dg_pending_by_peer = group_counts or_peer_id pending, dg_pending_by_stream = by_stream,
          dg_pending_attempts = sum_list (map or_attempts pending), dg_oldest_age_ms = oldest_age,
          dg_next_retry_at_ms = sql_min (map or_next_attempt_ms pending), dg_recent_errors = recent_errors limit out_rows,
          dg_inbox_counts = inbox_counts, dg_failures = dead_letters limit in_rows\<rparr>))))))"

section \<open>What the checks mean\<close>

lemma count_of_group: "count_of k (group_counts key rows) = length (filter (\<lambda>r. key r = k) rows)"
proof (cases "k \<in> key ` set rows")
  case True
  have "map_of (map (\<lambda>k. (k, f k)) ks) k = (if k \<in> set ks then Some (f k) else None)" for f :: "string \<Rightarrow> nat" and ks
    by (induction ks) auto
  then show ?thesis using True by (simp add: count_of_def group_counts_def)
next
  case False
  then have "map_of (group_counts key rows) k = None" by (auto simp: group_counts_def map_of_eq_None_iff)
  moreover have "filter (\<lambda>r. key r = k) rows = []" using False by (auto simp: filter_empty_conv)
  ultimately show ?thesis by (simp add: count_of_def)
qed

lemma status_counts:
  "count_of ''pending'' (group_counts (\<lambda>r. delivery_status_text (or_status r)) rows) = length (pending_rows rows)"
  "count_of ''delivered'' (group_counts (\<lambda>r. delivery_status_text (or_status r)) rows) = length (filter (\<lambda>r. or_status r = DsDelivered) rows)"
  "count_of ''operational'' (group_counts or_stream rows) = length (operational_rows rows)"
proof -
  have "(delivery_status_text st = ''pending'') = (st = DsPending)" "(delivery_status_text st = ''delivered'') = (st = DsDelivered)" for st
    by (cases st; simp)+
  then show "count_of ''pending'' (group_counts (\<lambda>r. delivery_status_text (or_status r)) rows) = length (pending_rows rows)"
    "count_of ''delivered'' (group_counts (\<lambda>r. delivery_status_text (or_status r)) rows) = length (filter (\<lambda>r. or_status r = DsDelivered) rows)"
    by (simp_all add: count_of_group pending_rows_def)
  show "count_of ''operational'' (group_counts or_stream rows) = length (operational_rows rows)"
    by (simp add: count_of_group operational_rows_def OPERATIONAL_STREAM_def)
qed

text \<open>The counts are those of \<open>SqliteOutbox.metrics\<close>.\<close>

lemma diagnostics_match_metrics:
  assumes "inspect_network_databases opened (ob_rows b) in_rows maximum reserve observed age limit = Inr d"
  shows "count_of ''pending'' (dg_outbox_counts d) = dm_pending (ob_metrics b) \<and>
    count_of ''delivered'' (dg_outbox_counts d) = dm_delivered (ob_metrics b)"
  using assms by (auto simp: inspect_network_databases_def res_simps Let_def ob_metrics_def status_counts)

text \<open>A new message whose encoding and integers SQLite takes.\<close>

lemma enqueue_one_full:
  assumes "encode_envelope e = Inr body" and "find_out peer (message_id e) (ob_rows b) = None"
  shows "(\<exists>b' m. enqueue_many [(peer, e)] now b = (b', Inl (OutboxFullError m))) \<longleftrightarrow>
    int (length (pending_rows (ob_rows b))) \<ge> ob_maximum b \<or>
    int (length (operational_rows (pending_rows (ob_rows b))) + (if env_stream e = OPERATIONAL_STREAM then 1 else 0)) > ob_maximum b - ob_reserve b"
proof -
  have enc: "rmap encode_item [(peer, e)] = Inr [(peer, e, body)]" using assms(1) by (simp add: encode_item_def)
  have new: "new_items (ob_rows b) Map.empty [] [(peer, e, body)] = Inr [(peer, e, body)]"
    using assms(2) by (simp add: item_key_def)
  have none: "insert_items (ob_unique_ids b) now [(peer, e, body)] (ob_next b, ob_rows b) \<noteq> Inl (OutboxFullError m)" for m
    by (rule insert_items_not_full)
  show ?thesis
    unfolding enqueue_many_def enc sum.case Let_def new rbind_simps
    using none by (auto simp: require_def is_operational_def split: sum.splits if_splits)
qed

text \<open>the report predicts the outbox. Over any history of an outbox and with its limits, the report says that the
  outbox has capacity and that the operational reserve is preserved exactly when the outbox takes the next new
  operational message, and that it has capacity exactly when it takes the next new safety message; otherwise
  \<open>enqueue_many\<close> raises \<open>OutboxFullError\<close>.\<close>

lemma diagnostics_predict_capacity:
  assumes "outbox_open maximum reserve [] n u = Inr b0" and "b = ob_run ops b0"
    and "inspect_network_databases (Inr ()) (ob_rows b) in_rows maximum (ob_reserve b0) observed age limit = Inr d"
    and "encode_envelope e = Inr body" and "find_out peer (message_id e) (ob_rows b) = None"
  shows "(env_stream e = OPERATIONAL_STREAM \<longrightarrow>
      (map_of (dg_checks d) ''outbox_has_capacity'' = Some True \<and> map_of (dg_checks d) ''operational_reserve_preserved'' = Some True
       \<longleftrightarrow> \<not> (\<exists>b' m. enqueue_many [(peer, e)] now b = (b', Inl (OutboxFullError m))))) \<and>
    (env_stream e \<noteq> OPERATIONAL_STREAM \<longrightarrow>
      (map_of (dg_checks d) ''outbox_has_capacity'' = Some True
       \<longleftrightarrow> \<not> (\<exists>b' m. enqueue_many [(peer, e)] now b = (b', Inl (OutboxFullError m)))))"
proof -
  have inv: "ob_inv b" using ob_inv_open[OF assms(1)] ob_inv_run assms(2) by blast
  have lim: "ob_maximum b = maximum" "ob_reserve b = ob_reserve b0"
    using ob_inv_open[OF assms(1)] ob_run_limits[of ops b0] assms(2) by simp_all
  have "map_of (dg_checks d) ''outbox_has_capacity'' = Some (int (length (pending_rows (ob_rows b))) < maximum)"
    "map_of (dg_checks d) ''operational_reserve_preserved'' =
       Some (int (length (operational_rows (pending_rows (ob_rows b)))) < maximum - ob_reserve b0)"
    using assms(3) by (auto simp: inspect_network_databases_def res_simps Let_def diagnostic_checks_def status_counts)
  then show ?thesis
    using inv lim enqueue_one_full[OF assms(4,5), of now] by (auto simp: ob_inv_def)
qed

section \<open>No content\<close>

definition without_envelope :: "outbox_row \<Rightarrow> outbox_row" where
  "without_envelope r = r\<lparr>or_envelope := []\<rparr>"

definition without_content :: "inbox_row \<Rightarrow> inbox_row" where
  "without_content r = r\<lparr>ir_envelope := [], ir_digest := []\<rparr>"

lemma sort_key_map: "sort_key f (map g xs) = map g (sort_key (f \<circ> g) xs)"
proof -
  have insort: "insort_key f (g x) (map g ys) = map g (insort_key (f \<circ> g) x ys)" for x ys by (induction ys) simp_all
  show ?thesis by (induction xs) (simp_all add: insort comp_def)
qed

text \<open>the report is free of content. Two pairs of databases that agree in everything but the envelopes of their
  messages and the digests give the same report.\<close>

theorem diagnostics_content_free:
  assumes "map without_envelope out_rows = map without_envelope out_rows'"
    and "map without_content in_rows = map without_content in_rows'"
  shows "inspect_network_databases opened out_rows in_rows maximum reserve observed age limit =
    inspect_network_databases opened out_rows' in_rows' maximum reserve observed age limit"
proof -
  have out: "inspect_network_databases opened rows q maximum reserve observed age limit =
      inspect_network_databases opened (map without_envelope rows) q maximum reserve observed age limit" for rows q
    by (simp add: inspect_network_databases_def group_counts_def pending_rows_def recent_errors_def filter_map rev_map sort_key_map
        take_map comp_def without_envelope_def Let_def)
  have inb: "inspect_network_databases opened q rows maximum reserve observed age limit =
      inspect_network_databases opened q (map without_content rows) maximum reserve observed age limit" for rows q
    by (simp add: inspect_network_databases_def group_counts_def dead_letters_def filter_map rev_map sort_key_map
        take_map comp_def without_content_def Let_def)
  show ?thesis using out inb assms by metis
qed

section \<open>Witnesses\<close>

definition small_outbox :: outbox where
  "small_outbox = \<lparr>ob_maximum = 2, ob_reserve = 1, ob_rows = [], ob_next = 1, ob_unique_ids = False\<rparr>"

definition operational_message :: envelope where
  "operational_message = sample_message\<lparr>env_stream := OPERATIONAL_STREAM\<rparr>"

definition small_history :: "outbox_op list" where
  "small_history = [ObEnqueue [(''r2'', operational_message)] 5]"

theorem diagnostics_predict_capacity_witness:
  "\<exists>d b' m. inspect_network_databases (Inr ()) (ob_rows (ob_run small_history small_outbox)) [] 2 1 9 60000 20 = Inr d \<and>
     map_of (dg_checks d) ''operational_reserve_preserved'' = Some False \<and>
     enqueue_many [(''r3'', operational_message)] 9 (ob_run small_history small_outbox) = (b', Inl (OutboxFullError m))"
proof -
  let ?b = "ob_run small_history small_outbox"
  have opened: "outbox_open 2 (Some 1) [] 1 False = Inr small_outbox" by (simp add: outbox_open_def small_outbox_def)
  have one: "ob_reserve small_outbox = 1" by (simp add: small_outbox_def)
  have "is_ok (inspect_network_databases (Inr ()) (ob_rows ?b) [] 2 1 9 60000 20)"
    by (simp add: inspect_network_databases_def Let_def)
  then obtain d where d: "inspect_network_databases (Inr ()) (ob_rows ?b) [] 2 1 9 60000 20 = Inr d" by (auto simp: is_ok_iff)
  have rows: "length (operational_rows (pending_rows (ob_rows ?b))) = 1" "find_out ''r3'' (message_id operational_message) (ob_rows ?b) = None"
    "env_stream operational_message = OPERATIONAL_STREAM" "is_ok (encode_envelope operational_message)" by code_simp+
  obtain body where body: "encode_envelope operational_message = Inr body" using rows(4) by (auto simp: is_ok_iff)
  have no: "map_of (dg_checks d) ''operational_reserve_preserved'' = Some False"
    using d rows(1) by (auto simp: inspect_network_databases_def res_simps Let_def diagnostic_checks_def status_counts)
  then have "\<exists>b' m. enqueue_many [(''r3'', operational_message)] 9 ?b = (b', Inl (OutboxFullError m))"
    using diagnostics_predict_capacity[OF opened refl _ body rows(2), unfolded one, OF d] rows(3) by simp
  then show ?thesis using d no by blast
qed

definition shown_inbox_row :: "string \<Rightarrow> inbox_row" where
  "shown_inbox_row body = \<lparr>ir_order = 1, ir_message_id = ''m'', ir_source_id = ''r1'', ir_session_id = ''s'', ir_stream = ''safety'',
     ir_sequence = 1, ir_priority = 1, ir_envelope = body, ir_digest = body, ir_status = IsFailed, ir_error = Some ''x'',
     ir_received_at_ms = 1, ir_updated_at_ms = 2\<rparr>"

theorem diagnostics_content_free_witness:
  "inspect_network_databases (Inr ()) [] [shown_inbox_row ''secret''] 2 1 9 60000 20 =
   inspect_network_databases (Inr ()) [] [shown_inbox_row ''other''] 2 1 9 60000 20"
  using diagnostics_content_free[of "[]" "[]" "[shown_inbox_row ''secret'']" "[shown_inbox_row ''other'']"]
  by (simp add: without_content_def shown_inbox_row_def)

end
