(* ===== verification/Data_Ops.thy ===== *)
theory Data_Ops
  imports Models
begin

text \<open>
  \<open>data_ops.py\<close>: backup, verification and restore of SQLite stores. The file system is a list of directories with
  their files; a file holds bytes, or is the manifest, of which the model keeps the document. Copying a database,
  its integrity check, SHA-256, resolving a path and the texts of values that are no strings are parameters. Opening
  and printing on the command line (\<open>main\<close>) is not modelled.
\<close>

section \<open>Files\<close>

datatype stored_file = FileBytes string | FileJson json

type_synonym folders = "(string \<times> (string \<times> stored_file) list) list"

text \<open>
  \<open>copy_database\<close>: the bytes of the target after \<open>source.backup(target)\<close>. \<open>resolve_in\<close>: parent and name of
  \<open>(directory / file).resolve()\<close>. \<open>str_of\<close> is \<open>str\<close> of a JSON value that is no string, \<open>document_text\<close> the text in
  which the manifest is stored, \<open>other_identifier\<close> is \<open>isidentifier\<close> beyond ASCII.
\<close>

record data_env =
  copy_database :: "string \<Rightarrow> string res"
  integrity_check :: "string \<Rightarrow> string res"
  file_sha256 :: "string \<Rightarrow> string"
  resolve_in :: "string \<Rightarrow> string \<Rightarrow> string \<times> string"
  resolve_file :: "string \<Rightarrow> string"
  path_is_file :: "string \<Rightarrow> bool"
  str_of :: "json \<Rightarrow> string"
  document_text :: "json \<Rightarrow> string"
  other_identifier :: "string \<Rightarrow> bool"
  data_now_ms :: int

definition file_bytes :: "data_env \<Rightarrow> stored_file \<Rightarrow> string" where
  "file_bytes env f = (case f of FileBytes b \<Rightarrow> b | FileJson v \<Rightarrow> document_text env v)"

definition find_file :: "string \<times> string \<Rightarrow> folders \<Rightarrow> stored_file option" where
  "find_file p fs = Option.bind (map_of fs (fst p)) (\<lambda>files. map_of files (snd p))"

definition put_file :: "string \<times> string \<Rightarrow> stored_file \<Rightarrow> folders \<Rightarrow> folders res" where
  "put_file p f fs =
     (if map_of fs (fst p) = None then Inl (RuntimeError ''OSError'')
      else Inr (map (\<lambda>(d, files). if d = fst p then (d, (snd p, f) # filter (\<lambda>(n, _). n \<noteq> snd p) files) else (d, files)) fs))"

section \<open>Arguments\<close>

definition ascii_letter :: "char \<Rightarrow> bool" where
  "ascii_letter c = (let n = of_char c :: nat in 65 \<le> n \<and> n \<le> 90 \<or> 97 \<le> n \<and> n \<le> 122 \<or> n = 95)"

definition ascii_digit :: "char \<Rightarrow> bool" where
  "ascii_digit c = (let n = of_char c :: nat in 48 \<le> n \<and> n \<le> 57)"

definition is_identifier :: "data_env \<Rightarrow> string \<Rightarrow> bool" where
  "is_identifier env s =
     (if list_all (\<lambda>c. (of_char c :: nat) < 128) s
      then (case s of [] \<Rightarrow> False | c # cs \<Rightarrow> ascii_letter c \<and> list_all (\<lambda>d. ascii_letter d \<or> ascii_digit d) cs)
      else other_identifier env s)"

fun parse_database_args :: "data_env \<Rightarrow> (string \<times> string) list \<Rightarrow> string list \<Rightarrow> (string \<times> string) list res" where
  "parse_database_args env acc [] = Inr acc"
| "parse_database_args env acc (v # vs) =
     (case py_partition ''='' v of (role, separator, raw) \<Rightarrow>
       rbind (require (\<not> (separator = [] \<or> role = [] \<or> raw = []))
                (ValueError ''database must use role=/path/to/store.sqlite3'')) (\<lambda>_.
       rbind (require (\<not> (role \<in> set (map fst acc) \<or>
                         \<not> is_identifier env (map (\<lambda>c. if c = CHR ''-'' then CHR ''_'' else c) role)))
                (ValueError (''invalid or duplicate database role: '' @ role))) (\<lambda>_.
       rbind (require (path_is_file env (resolve_file env raw)) (ValueError ''database does not exist'')) (\<lambda>_.
       parse_database_args env (acc @ [(role, resolve_file env raw)]) vs))))"

definition parse_databases :: "data_env \<Rightarrow> string list \<Rightarrow> (string \<times> string) list res" where
  "parse_databases env values =
     rbind (parse_database_args env [] values) (\<lambda>dbs.
     rbind (require (dbs \<noteq> []) (ValueError ''at least one database is required'')) (\<lambda>_. Inr dbs))"

section \<open>Backup\<close>

definition database_file :: "string \<Rightarrow> string" where
  "database_file role = role @ ''.sqlite3''"

definition backup_one :: "data_env \<Rightarrow> string \<times> string \<Rightarrow> (string \<times> string) res" where
  "backup_one env db = (case db of (role, path) \<Rightarrow>
     rbind (copy_database env path) (\<lambda>b.
     rbind (integrity_check env b) (\<lambda>answer.
     rbind (require (answer = ''ok'') (ValueError (''backup integrity failed for '' @ role))) (\<lambda>_.
     Inr (role, b)))))"

definition backup_record :: "data_env \<Rightarrow> string \<times> string \<Rightarrow> json" where
  "backup_record env c = JObj [(''role'', JStr (fst c)), (''file'', JStr (database_file (fst c))),
     (''size_bytes'', JInt (int (length (snd c)))), (''sha256'', JStr (file_sha256 env (snd c)))]"

definition backup_manifest :: "data_env \<Rightarrow> (string \<times> string) list \<Rightarrow> json" where
  "backup_manifest env copies = JObj [(''profile'', JStr ''ump-data-backup/v1''), (''created_at_ms'', JInt (data_now_ms env)),
     (''databases'', JArr (map (backup_record env) copies))]"

definition backup_folder :: "data_env \<Rightarrow> (string \<times> string) list \<Rightarrow> (string \<times> stored_file) list" where
  "backup_folder env copies =
     map (\<lambda>(role, b). (database_file role, FileBytes b)) copies @ [(''manifest.json'', FileJson (backup_manifest env copies))]"

text \<open>A failure removes the new directory, so that nothing has changed.\<close>

definition create_backup :: "data_env \<Rightarrow> (string \<times> string) list \<Rightarrow> string \<Rightarrow> folders \<Rightarrow> folders \<times> json res" where
  "create_backup env dbs out fs =
     (if map_of fs out \<noteq> None then (fs, Inl (ValueError ''backup output already exists''))
      else (case rmap (backup_one env) (sort_key fst dbs) of
        Inl e \<Rightarrow> (fs, Inl e)
      | Inr copies \<Rightarrow> ((out, backup_folder env copies) # fs, Inr (backup_manifest env copies))))"

section \<open>Verification\<close>

definition record_file :: "data_env \<Rightarrow> (string \<times> json) list \<Rightarrow> string" where
  "record_file env r = (case map_of r ''file'' of None \<Rightarrow> [] | Some (JStr f) \<Rightarrow> f | Some v \<Rightarrow> str_of env v)"

definition verify_record :: "data_env \<Rightarrow> folders \<Rightarrow> string \<Rightarrow> json \<Rightarrow> json res" where
  "verify_record env fs dir v = (case v of
      JObj r \<Rightarrow>
        (let candidate = resolve_in env dir (record_file env r) in
         case (if fst candidate = dir then find_file candidate fs else None) of
           None \<Rightarrow> Inl (ValueError ''backup database path is invalid'')
         | Some f \<Rightarrow>
             rbind (require (map_of r ''sha256'' = Some (JStr (file_sha256 env (file_bytes env f))))
                      (ValueError ''backup checksum mismatch'')) (\<lambda>_.
             rbind (integrity_check env (file_bytes env f)) (\<lambda>answer.
             rbind (require (answer = ''ok'') (ValueError ''database integrity failed'')) (\<lambda>_.
             case map_of r ''role'' of None \<Rightarrow> Inl (KeyError ''role'') | Some role \<Rightarrow> Inr role))))
    | _ \<Rightarrow> Inl (ValueError ''invalid database record''))"

definition manifest_records :: "data_env \<Rightarrow> folders \<Rightarrow> string \<times> string \<Rightarrow> json list res" where
  "manifest_records env fs path =
     (case Option.bind (find_file path fs) (\<lambda>f. case f of FileJson v \<Rightarrow> Some v | FileBytes b \<Rightarrow> json_loads b) of
        None \<Rightarrow> Inl (ValueError ''backup manifest cannot be read'')
      | Some (JObj m) \<Rightarrow>
          rbind (require (map_of m ''profile'' = Some (JStr ''ump-data-backup/v1''))
                   (ValueError ''unsupported backup manifest profile'')) (\<lambda>_.
          case map_of m ''databases'' of
            Some (JArr rs) \<Rightarrow> if rs = [] then Inl (ValueError ''backup manifest has no databases'') else Inr rs
          | _ \<Rightarrow> Inl (ValueError ''backup manifest has no databases''))
      | Some _ \<Rightarrow> Inl (AttributeError ''get''))"

definition verify_backup :: "data_env \<Rightarrow> folders \<Rightarrow> string \<times> string \<Rightarrow> json list res" where
  "verify_backup env fs path = rbind (manifest_records env fs path) (rmap (verify_record env fs (fst path)))"

section \<open>Restore\<close>

definition copy_record :: "data_env \<Rightarrow> string \<Rightarrow> string \<Rightarrow> json \<Rightarrow> folders \<Rightarrow> folders res" where
  "copy_record env dir target v fs = (case v of
      JObj r \<Rightarrow> (case map_of r ''file'' of
          None \<Rightarrow> Inl (KeyError ''file'')
        | Some (JStr f) \<Rightarrow>
            (let source = resolve_in env dir f; destination = resolve_in env target f in
             case find_file source fs of
               None \<Rightarrow> Inl (RuntimeError ''OSError'')
             | Some x \<Rightarrow> if source = destination then Inl (RuntimeError ''OSError'')
                         else put_file destination (FileBytes (file_bytes env x)) fs)
        | Some _ \<Rightarrow> Inl (TypeError ''unsupported operand''))
    | _ \<Rightarrow> Inl (TypeError ''indices must be integers''))"

fun copy_records :: "data_env \<Rightarrow> string \<Rightarrow> string \<Rightarrow> json list \<Rightarrow> folders \<Rightarrow> folders \<times> unit res" where
  "copy_records env dir target [] fs = (fs, Inr ())"
| "copy_records env dir target (v # vs) fs = (case copy_record env dir target v fs of
      Inl e \<Rightarrow> (fs, Inl e)
    | Inr fs' \<Rightarrow> copy_records env dir target vs fs')"

definition restore_backup :: "data_env \<Rightarrow> folders \<Rightarrow> string \<times> string \<Rightarrow> string \<Rightarrow> folders \<times> json list res" where
  "restore_backup env fs path target =
     (case rbind (verify_backup env fs path) (\<lambda>roles.
           rbind (require (map_of fs target = None) (ValueError ''restore target already exists'')) (\<lambda>_.
           rbind (manifest_records env fs path) (\<lambda>rs. Inr (roles, rs)))) of
        Inl e \<Rightarrow> (fs, Inl e)
      | Inr (roles, rs) \<Rightarrow>
          (case copy_records env (fst path) target rs ((target, []) # fs) of
             (fs', Inl e) \<Rightarrow> (filter (\<lambda>(d, _). d \<noteq> target) fs', Inl e)
           | (fs', Inr _) \<Rightarrow> (fs', Inr roles)))"

section \<open>What a restored backup holds\<close>

lemma map_of_put: "map_of (map (\<lambda>(d, files). if d = t then (d, g files) else (d, files)) fs) d =
    (if d = t then map_option g (map_of fs d) else map_of fs d)"
  by (induction fs) auto

lemma map_of_others: "map_of (filter (\<lambda>(n, _). n \<noteq> k) files) n = (if n = k then None else map_of files n)"
  by (induction files) auto

lemma put_file_Inr:
  assumes "map_of fs t \<noteq> None"
  shows "\<exists>fs'. put_file (t, n) f fs = Inr fs' \<and> find_file (t, n) fs' = Some f \<and>
    (\<forall>q. q \<noteq> (t, n) \<longrightarrow> find_file q fs' = find_file q fs) \<and> map_of fs' t \<noteq> None"
proof -
  let ?fs' = "map (\<lambda>(d, files). if d = t then (d, (n, f) # filter (\<lambda>(m, _). m \<noteq> n) files) else (d, files)) fs"
  have "find_file q ?fs' = (if q = (t, n) then Some f else find_file q fs)" for q
    using assms by (cases q) (auto simp: find_file_def map_of_put map_of_others)
  moreover have "map_of ?fs' t \<noteq> None" using assms by (simp add: map_of_put)
  moreover have "put_file (t, n) f fs = Inr ?fs'"
    by (simp only: put_file_def fst_conv snd_conv assms if_False)
  ultimately show ?thesis by auto
qed

lemma database_file_simps: "database_file r = database_file r' \<longleftrightarrow> r = r'" "database_file r \<noteq> ''manifest.json''"
proof -
  show "database_file r \<noteq> ''manifest.json''"
  proof
    assume "database_file r = ''manifest.json''"
    then have "last (database_file r) = last ''manifest.json''" by simp
    then show False by (simp add: database_file_def)
  qed
qed (simp add: database_file_def)

text \<open>The resolved names of plain file names: what holds without symbolic links in the two directories.\<close>

definition plain_names :: "data_env \<Rightarrow> string list \<Rightarrow> string list \<Rightarrow> bool" where
  "plain_names env dirs roles = list_all (\<lambda>d. list_all (\<lambda>r. resolve_in env d (database_file r) = (d, database_file r)) roles) dirs"

lemma copy_records_ok:
  assumes "distinct (map fst cs)" and "out \<noteq> target" and "plain_names env [out, target] (map fst cs)"
    and "\<forall>c\<in>set cs. find_file (out, database_file (fst c)) fs = Some (FileBytes (snd c))" and "map_of fs target \<noteq> None"
  shows "\<exists>fs'. copy_records env out target (map (backup_record env) cs) fs = (fs', Inr ()) \<and>
    (\<forall>c\<in>set cs. find_file (target, database_file (fst c)) fs' = Some (FileBytes (snd c))) \<and>
    (\<forall>q. q \<notin> (\<lambda>c. (target, database_file (fst c))) ` set cs \<longrightarrow> find_file q fs' = find_file q fs)"
  using assms
proof (induction cs arbitrary: fs)
  case (Cons c cs)
  have names: "resolve_in env out (database_file (fst c)) = (out, database_file (fst c))"
    "resolve_in env target (database_file (fst c)) = (target, database_file (fst c))" "plain_names env [out, target] (map fst cs)"
    using Cons.prems(3) by (simp_all add: plain_names_def)
  obtain fs1 where put: "put_file (target, database_file (fst c)) (FileBytes (snd c)) fs = Inr fs1"
    "find_file (target, database_file (fst c)) fs1 = Some (FileBytes (snd c))"
    "\<forall>q. q \<noteq> (target, database_file (fst c)) \<longrightarrow> find_file q fs1 = find_file q fs" "map_of fs1 target \<noteq> None"
    using put_file_Inr[OF Cons.prems(5)] by metis
  have one: "copy_record env out target (backup_record env c) fs = Inr fs1"
    using names(1,2) put(1) Cons.prems(2,4) by (simp add: copy_record_def backup_record_def file_bytes_def)
  have "\<forall>c\<in>set cs. find_file (out, database_file (fst c)) fs1 = Some (FileBytes (snd c))"
    using put(3) Cons.prems(2,4) by simp
  then obtain fs2 where rest: "copy_records env out target (map (backup_record env) cs) fs1 = (fs2, Inr ())"
    "\<forall>c\<in>set cs. find_file (target, database_file (fst c)) fs2 = Some (FileBytes (snd c))"
    "\<forall>q. q \<notin> (\<lambda>c. (target, database_file (fst c))) ` set cs \<longrightarrow> find_file q fs2 = find_file q fs1"
    using Cons.IH[OF _ Cons.prems(2) names(3) _ put(4)] Cons.prems(1) by auto
  have "\<forall>x\<in>set cs. fst x \<noteq> fst c" using Cons.prems(1) by (auto simp: image_iff)
  then have "(target, database_file (fst c)) \<notin> (\<lambda>c. (target, database_file (fst c))) ` set cs"
    by (auto simp: database_file_simps)
  then show ?case using one rest put(2,3) by auto
qed simp

lemma backup_one_Inr: "backup_one env d = Inr c \<longleftrightarrow>
    fst c = fst d \<and> copy_database env (snd d) = Inr (snd c) \<and> integrity_check env (snd c) = Inr ''ok''"
  by (cases d; cases c) (auto simp: backup_one_def res_simps)

lemma backup_copies:
  assumes "rmap (backup_one env) dbs = Inr copies"
  shows "map fst copies = map fst dbs \<and> (\<forall>c\<in>set copies. integrity_check env (snd c) = Inr ''ok'') \<and>
    (\<forall>d\<in>set dbs. \<exists>b. copy_database env (snd d) = Inr b \<and> (fst d, b) \<in> set copies)"
  using assms
proof (induction dbs arbitrary: copies)
  case (Cons d dbs)
  then obtain c cs where "backup_one env d = Inr c" "rmap (backup_one env) dbs = Inr cs" "copies = c # cs"
    by (auto simp: rbind_Inr_iff)
  then show ?case using Cons.IH by (cases c) (auto simp: backup_one_Inr)
qed simp

text \<open>what was backed up is what is restored. A successful backup verifies, and restoring it into a new directory gives
  for every role the file with exactly the bytes that SQLite copied (the names are plain, that is, without
  symbolic links).\<close>

lemma backup_restore_round_trip:
  assumes "create_backup env dbs out fs = (fs1, Inr m)" and "distinct (map fst dbs)" and "dbs \<noteq> []"
    and "map_of fs1 target = None" and "plain_names env [out, target] (map fst (sort_key fst dbs))"
  shows "verify_backup env fs1 (out, ''manifest.json'') = Inr (map (\<lambda>d. JStr (fst d)) (sort_key fst dbs)) \<and>
    (\<exists>fs2. restore_backup env fs1 (out, ''manifest.json'') target = (fs2, Inr (map (\<lambda>d. JStr (fst d)) (sort_key fst dbs))) \<and>
      (\<forall>d\<in>set dbs. \<exists>b. copy_database env (snd d) = Inr b \<and>
         find_file (target, database_file (fst d)) fs2 = Some (FileBytes b)))"
proof -
  obtain copies where c: "rmap (backup_one env) (sort_key fst dbs) = Inr copies"
    and fs1: "fs1 = (out, backup_folder env copies) # fs"
    using assms(1) by (auto simp: create_backup_def split: if_splits sum.splits)
  note copies = backup_copies[OF c]
  have dist: "distinct (map fst copies)" using copies assms(2) by (simp add: distinct_map)
  have ne: "copies \<noteq> []" using copies assms(3) by (metis list.map_disc_iff sort_key_simps(1) set_empty set_sort)
  have "map_of (backup_folder env copies) (database_file (fst x)) = Some (FileBytes (snd x))" if "x \<in> set copies" for x
    using that dist
    by (induction copies) (auto simp: backup_folder_def database_file_simps split: prod.splits)
  then have found: "\<forall>x\<in>set copies. find_file (out, database_file (fst x)) fs1 = Some (FileBytes (snd x))"
    by (simp add: find_file_def fs1)
  have "map_of (map (\<lambda>(role, b). (database_file role, FileBytes b)) xs @ [(''manifest.json'', x)]) ''manifest.json'' = Some x" for xs x
    by (induction xs) (auto simp: database_file_simps database_file_simps(2)[symmetric])
  then have "find_file (out, ''manifest.json'') fs1 = Some (FileJson (backup_manifest env copies))"
    by (simp add: find_file_def fs1 backup_folder_def)
  then have records: "manifest_records env fs1 (out, ''manifest.json'') = Inr (map (backup_record env) copies)"
    using ne by (simp add: manifest_records_def backup_manifest_def)
  have roles: "map (\<lambda>c. JStr (fst c)) copies = map (\<lambda>d. JStr (fst d)) (sort_key fst dbs)"
    using copies by (metis (no_types, lifting) comp_def map_map map_eq_conv)
  have plain: "plain_names env [out, target] (map fst copies)" using assms(5) copies by simp
  have "verify_record env fs1 out (backup_record env x) = Inr (JStr (fst x))" if "x \<in> set copies" for x
  proof -
    have "resolve_in env out (database_file (fst x)) = (out, database_file (fst x))"
      using that plain by (auto simp: plain_names_def list_all_iff)
    then show ?thesis
      using that found conjunct1[OF conjunct2[OF copies]]
      by (simp add: verify_record_def backup_record_def record_file_def file_bytes_def Let_def)
  qed
  then have "rmap (verify_record env fs1 out) (map (backup_record env) xs) = Inr (map (\<lambda>c. JStr (fst c)) xs)"
    if "set xs \<subseteq> set copies" for xs
    using that by (induction xs) simp_all
  then have verified: "verify_backup env fs1 (out, ''manifest.json'') = Inr (map (\<lambda>d. JStr (fst d)) (sort_key fst dbs))"
    by (simp add: verify_backup_def records roles[symmetric])
  have other: "out \<noteq> target" using assms(4) fs1 by auto
  have there: "\<forall>x\<in>set copies. find_file (out, database_file (fst x)) ((target, []) # fs1) = Some (FileBytes (snd x))"
    using found other by (simp add: find_file_def)
  then obtain fs2 where fs2: "copy_records env out target (map (backup_record env) copies) ((target, []) # fs1) = (fs2, Inr ())"
    "\<forall>c\<in>set copies. find_file (target, database_file (fst c)) fs2 = Some (FileBytes (snd c))"
    using copy_records_ok[OF dist other plain there] by auto
  have "restore_backup env fs1 (out, ''manifest.json'') target = (fs2, Inr (map (\<lambda>d. JStr (fst d)) (sort_key fst dbs)))"
    by (simp add: restore_backup_def verified records assms(4) fs2(1))
  moreover have "\<exists>b. copy_database env (snd d) = Inr b \<and> find_file (target, database_file (fst d)) fs2 = Some (FileBytes b)"
    if "d \<in> set dbs" for d
    using that copies fs2(2) by fastforce
  ultimately show ?thesis using verified by blast
qed

text \<open>a backup that verifies is intact and complete. Every record of its manifest names a file that lies in the
  directory of the manifest itself, wherever links lead, whose bytes have the recorded SHA-256 and pass the
  integrity check, and there is at least one.\<close>

theorem verified_backup_is_intact:
  assumes "verify_backup env fs path = Inr roles"
  shows "\<exists>rs. manifest_records env fs path = Inr rs \<and> rs \<noteq> [] \<and> length roles = length rs \<and>
    (\<forall>v\<in>set rs. \<exists>r n f. v = JObj r \<and> resolve_in env (fst path) (record_file env r) = (fst path, n) \<and>
       find_file (fst path, n) fs = Some f \<and> map_of r ''sha256'' = Some (JStr (file_sha256 env (file_bytes env f))) \<and>
       integrity_check env (file_bytes env f) = Inr ''ok'')"
proof -
  obtain rs where rs: "manifest_records env fs path = Inr rs" "list_all2 (\<lambda>v role. verify_record env fs (fst path) v = Inr role) rs roles"
    using assms by (auto simp: verify_backup_def res_simps)
  have "rs \<noteq> []" using rs(1) by (auto simp: manifest_records_def res_simps split: option.splits json.splits if_splits)
  moreover have "\<exists>r n f. v = JObj r \<and> resolve_in env (fst path) (record_file env r) = (fst path, n) \<and>
       find_file (fst path, n) fs = Some f \<and> map_of r ''sha256'' = Some (JStr (file_sha256 env (file_bytes env f))) \<and>
       integrity_check env (file_bytes env f) = Inr ''ok''" if "v \<in> set rs" for v
  proof -
    have "\<exists>role. verify_record env fs (fst path) v = Inr role"
      using rs(2) that by (induction rule: list_all2_induct) auto
    then obtain r f where v: "v = JObj r" and f: "fst (resolve_in env (fst path) (record_file env r)) = fst path"
        "find_file (resolve_in env (fst path) (record_file env r)) fs = Some f"
        "map_of r ''sha256'' = Some (JStr (file_sha256 env (file_bytes env f)))" "integrity_check env (file_bytes env f) = Inr ''ok''"
      by (cases v) (auto simp: verify_record_def Let_def rbind_Inr_iff require_Inr_iff split: option.splits if_splits)
    show ?thesis
      by (rule exI[of _ r], rule exI[of _ "snd (resolve_in env (fst path) (record_file env r))"], rule exI[of _ f])
        (use v f in \<open>simp add: prod_eq_iff\<close>, metis prod.collapse)
  qed
  ultimately show ?thesis using rs by (auto dest: list_all2_lengthD)
qed

section \<open>Witnesses\<close>

definition sample_data_env :: data_env where
  "sample_data_env = \<lparr>copy_database = (\<lambda>p. Inr (p @ ''-rows'')), integrity_check = (\<lambda>_. Inr ''ok''), file_sha256 = id,
     resolve_in = Pair, resolve_file = id, path_is_file = (\<lambda>_. True), str_of = (\<lambda>_. []), document_text = json_dumps,
     other_identifier = (\<lambda>_. False), data_now_ms = 7\<rparr>"

theorem backup_restore_round_trip_witness:
  "\<exists>fs1 fs2. fst (create_backup sample_data_env [(''outbox'', ''/o''), (''inbox'', ''/i'')] ''/b'' []) = fs1 \<and>
     fst (restore_backup sample_data_env fs1 (''/b'', ''manifest.json'') ''/t'') = fs2 \<and>
     find_file (''/t'', ''inbox.sqlite3'') fs2 = Some (FileBytes ''/i-rows'')"
proof -
  let ?dbs = "[(''outbox'', ''/o''), (''inbox'', ''/i'')]"
  obtain fs1 m where b: "create_backup sample_data_env ?dbs ''/b'' [] = (fs1, Inr m)"
    by (simp add: create_backup_def backup_one_def sample_data_env_def)
  have t: "map_of fs1 ''/t'' = None" using b by (auto simp: create_backup_def backup_one_def sample_data_env_def)
  have p: "plain_names sample_data_env [''/b'', ''/t''] (map fst (sort_key fst ?dbs))" by (simp add: plain_names_def sample_data_env_def)
  have "distinct (map fst ?dbs)" "?dbs \<noteq> []" by simp_all
  then obtain fs2 roles where r: "restore_backup sample_data_env fs1 (''/b'', ''manifest.json'') ''/t'' = (fs2, Inr roles)"
    "\<forall>d\<in>set ?dbs. \<exists>x. copy_database sample_data_env (snd d) = Inr x \<and> find_file (''/t'', database_file (fst d)) fs2 = Some (FileBytes x)"
    using backup_restore_round_trip[OF b _ _ t p] by auto
  then have "find_file (''/t'', ''inbox.sqlite3'') fs2 = Some (FileBytes ''/i-rows'')"
    by (simp add: sample_data_env_def database_file_def)
  then show ?thesis using b r(1) by auto
qed

theorem verified_backup_is_intact_witness:
  "\<exists>rs. manifest_records sample_data_env [(''/b'', backup_folder sample_data_env [(''inbox'', ''x'')])] (''/b'', ''manifest.json'') = Inr rs \<and>
     length rs = 1"
proof -
  let ?fs = "[(''/b'', backup_folder sample_data_env [(''inbox'', ''x'')])]"
  have "verify_backup sample_data_env ?fs (''/b'', ''manifest.json'') = Inr [JStr ''inbox'']"
    by (simp add: verify_backup_def manifest_records_def find_file_def backup_folder_def backup_manifest_def backup_record_def
        verify_record_def record_file_def file_bytes_def database_file_def sample_data_env_def)
  from verified_backup_is_intact[OF this] show ?thesis by auto
qed

end
