(* ===== verification/Conformance.thy ===== *)
theory Conformance
  imports Participant_Runs
begin

text \<open>
  \<open>conformance.py\<close>: the harness that inspects and exercises an adapter, the evidence document with its validator, and
  the suite of golden vectors. The adapter is the \<open>native\<close> of the participant, so that the main theorem can say what
  the harness promises: an adapter that passes is one whose outcomes a participant reports as they are. The text of
  an exception, reading files, SHA-256, the JSON schema of the evidence and the description of interpreter and
  packages are parameters.
\<close>

section \<open>Checks and reports\<close>

record conformance_check =
  cc_id :: string
  cc_passed :: bool
  cc_description :: string

record conformance_report =
  cf_subject :: json
  cf_checks :: "conformance_check list"

definition conformance_passed :: "conformance_report \<Rightarrow> bool" where
  "conformance_passed r = (cf_checks r \<noteq> [] \<and> list_all cc_passed (cf_checks r))"

text \<open>\<open>describe\<close> is the text \<open>type(error).__name__: error\<close>.\<close>

definition run_check :: "(error \<Rightarrow> string) \<Rightarrow> string \<Rightarrow> unit res \<Rightarrow> conformance_check" where
  "run_check describe name answer = (case answer of
      Inl e \<Rightarrow> \<lparr>cc_id = name, cc_passed = False, cc_description = describe e\<rparr>
    | Inr _ \<Rightarrow> \<lparr>cc_id = name, cc_passed = True, cc_description = ''passed''\<rparr>)"

section \<open>The harness\<close>

definition manifest_check :: "native \<Rightarrow> manifest res" where
  "manifest_check nv =
     rbind (nat_manifest nv 0) (\<lambda>mf.
     rbind (rforall (\<lambda>c.
       rbind (require (schema_valid nv (cap_input_schema c)) (NativeError ''SchemaError'')) (\<lambda>_.
       require (schema_valid nv (cap_output_schema c)) (NativeError ''SchemaError''))) (mf_capabilities mf)) (\<lambda>_.
     Inr mf))"

definition identity_check :: "manifest res \<Rightarrow> robot_state res \<Rightarrow> unit res" where
  "identity_check mf st = (case (mf, st) of
      (Inr m, Inr s) \<Rightarrow> require (mf_robot_id m = st_robot_id s) (ValueError ''manifest and state robot IDs differ'')
    | _ \<Rightarrow> Inl (ValueError ''manifest and state must pass before identity comparison''))"

definition harness_inspect :: "(error \<Rightarrow> string) \<Rightarrow> string \<Rightarrow> native \<Rightarrow> conformance_report" where
  "harness_inspect describe class_name nv =
     (let mf = manifest_check nv; st = nat_state nv in
      \<lparr>cf_subject = JStr (case mf of Inr m \<Rightarrow> mf_robot_id m | Inl _ \<Rightarrow> class_name),
       cf_checks = [run_check describe ''adapter.manifest'' (rbind mf (\<lambda>_. Inr ())),
                    run_check describe ''adapter.state'' (rbind st (\<lambda>_. Inr ())),
                    run_check describe ''adapter.identity'' (identity_check mf st)]\<rparr>)"




section \<open>Evidence\<close>

text \<open>What \<open>inspect_adapter_evidence\<close> asks the interpreter: names of the class and the file of its module, its bytes, the
  distributions with their versions (none where the lookup raises) and the environment.\<close>

record evidence_env =
  ee_class :: string
  ee_qualname :: string
  ee_module :: string
  ee_file :: "string res"
  ee_is_file :: bool
  ee_source :: "string res"
  ee_distributions :: "(string \<times> string option) list"
  ee_environment :: "(string \<times> json) list"
  ee_now_ms :: int
  ee_sha256 :: "string \<Rightarrow> string"

definition commit_sha :: "string \<Rightarrow> bool" where
  "commit_sha s = (length s = 40 \<and> list_all (\<lambda>c. c \<in> set ''0123456789abcdef'') s)"

definition evidence_robot :: "manifest res \<Rightarrow> json" where
  "evidence_robot r = (case r of
      Inl _ \<Rightarrow> JNull
    | Inr mf \<Rightarrow> JObj [(''robot_id'', JStr (mf_robot_id mf)), (''manufacturer'', JStr (mf_manufacturer mf)),
        (''model'', JStr (mf_model mf)), (''robot_class'', JStr (mf_robot_class mf)),
        (''adapter_version'', JStr (mf_adapter_version mf)),
        (''capabilities'', JArr (map (\<lambda>c. JStr (cap_name c)) (mf_capabilities mf)))])"

definition check_document :: "conformance_check \<Rightarrow> json" where
  "check_document c = JObj [(''id'', JStr (cc_id c)), (''passed'', JBool (cc_passed c)), (''description'', JStr (cc_description c))]"

definition inspect_adapter_evidence ::
  "evidence_env \<Rightarrow> (error \<Rightarrow> string) \<Rightarrow> native \<Rightarrow> string \<Rightarrow> string \<Rightarrow> int option \<Rightarrow> json res" where
  "inspect_adapter_evidence env describe nv specification revision observed =
     rbind (require (commit_sha revision) (ValueError ''repository revision must be a full lowercase commit SHA'')) (\<lambda>_.
     let report = harness_inspect describe (ee_class env) nv in
     rbind (case ee_file env of Inr p \<Rightarrow> Inr p
            | Inl _ \<Rightarrow> Inl (ValueError ''adapter implementation file cannot be identified'')) (\<lambda>path.
     rbind (require (ee_is_file env) (ValueError ''adapter implementation file does not exist'')) (\<lambda>_.
     rbind (ee_source env) (\<lambda>source.
     Inr (JObj [(''profile'', JStr ''ump.adapter-conformance/v1''), (''repository_revision'', JStr revision),
       (''mode'', JStr ''read_only''),
       (''observed_at_ms'', JInt (case observed of None \<Rightarrow> ee_now_ms env | Some t \<Rightarrow> t)),
       (''adapter'', JObj [(''specification'', JStr specification),
          (''implementation'', JObj [(''path'', JStr path), (''sha256'', JStr (ee_sha256 env source))]),
          (''module'', JStr (ee_module env)), (''class'', JStr (ee_qualname env)),
          (''distributions'', JArr (map (\<lambda>(n, v). JObj [(''name'', JStr n),
             (''version'', JStr (case v of None \<Rightarrow> ''unknown'' | Some t \<Rightarrow> t))]) (ee_distributions env)))]),
       (''robot'', evidence_robot (nat_manifest nv 1)),
       (''subject'', cf_subject report), (''passed'', JBool (conformance_passed report)),
       (''checks'', JArr (map check_document (cf_checks report))),
       (''environment'', JObj (ee_environment env))])))))"

record evidence_verdict =
  vd_passed :: bool
  vd_profile :: json
  vd_revision :: json
  vd_subject :: json
  vd_robot_id :: json
  vd_sha256 :: json
  vd_source_verified :: bool
  vd_checks_verified :: nat

text \<open>\<open>all(check["passed"] for check in checks)\<close>, which stops at the first that failed.\<close>

fun all_passed :: "json list \<Rightarrow> bool res" where
  "all_passed [] = Inr True"
| "all_passed (c # cs) = rbind (jitem c ''passed'') (\<lambda>v. if py_truthy v then all_passed cs else Inr False)"

definition evidence_digest :: "json \<Rightarrow> json res" where
  "evidence_digest doc =
     rbind (jitem doc ''adapter'') (\<lambda>a. rbind (jitem a ''implementation'') (\<lambda>i. jitem i ''sha256''))"

definition checked_source :: "(string \<Rightarrow> string) \<Rightarrow> json \<Rightarrow> string res option \<Rightarrow> bool res" where
  "checked_source sha256 doc implementation = (case implementation of
      None \<Rightarrow> Inr False
    | Some (Inl e) \<Rightarrow>
        Inl (if e = RuntimeError ''OSError'' then ValueError ''adapter implementation cannot be read'' else e)
    | Some (Inr source) \<Rightarrow>
        rbind (evidence_digest doc) (\<lambda>d.
        rbind (require (d = JStr (sha256 source))
                 (ValueError ''adapter implementation digest does not match the report'')) (\<lambda>_. Inr True)))"

definition evidence_checks :: "json \<Rightarrow> json list res" where
  "evidence_checks doc =
     rbind (rbind (jitem doc ''checks'') py_iter) (\<lambda>checks.
     rbind (rmap (\<lambda>c. jitem c ''id'') checks) (\<lambda>ids.
     rbind (require (list_all hashable ids) (TypeError ''unhashable type'')) (\<lambda>_.
     rbind (require (distinct ids \<and> set ids = {JStr ''adapter.manifest'', JStr ''adapter.state'', JStr ''adapter.identity''})
              (ValueError ''adapter evidence must contain each read-only check exactly once'')) (\<lambda>_.
     Inr checks))))"

text \<open>\<open>report\<close> and \<open>implementation\<close> are what reading the two files answers; \<open>schema_error\<close> is the text of the first
  violation of the schema.\<close>

definition validate_adapter_evidence ::
  "(string \<Rightarrow> string) \<Rightarrow> (json \<Rightarrow> string option) \<Rightarrow> string res \<Rightarrow> string res option \<Rightarrow> evidence_verdict res" where
  "validate_adapter_evidence sha256 schema_error report implementation =
     rbind (case report of
         Inl e \<Rightarrow> Inl (if e = RuntimeError ''OSError'' then ValueError ''adapter evidence cannot be read'' else e)
       | Inr text \<Rightarrow> (case json_loads text of
             None \<Rightarrow> Inl (ValueError ''adapter evidence cannot be read'') | Some doc \<Rightarrow> Inr doc)) (\<lambda>doc.
     rbind (require (is_object doc) (ValueError ''adapter evidence must be a JSON object'')) (\<lambda>_.
     rbind (case schema_error doc of Some text \<Rightarrow> Inl (ValueError text) | None \<Rightarrow> Inr ()) (\<lambda>_.
     rbind (evidence_checks doc) (\<lambda>checks.
     rbind (all_passed checks) (\<lambda>passed.
     rbind (jitem doc ''passed'') (\<lambda>summary.
     rbind (require (summary = JBool passed) (ValueError ''adapter evidence summary disagrees with its checks'')) (\<lambda>_.
     rbind (checked_source sha256 doc implementation) (\<lambda>verified.
     rbind (jitem doc ''profile'') (\<lambda>profile.
     rbind (jitem doc ''repository_revision'') (\<lambda>revision.
     rbind (jitem doc ''subject'') (\<lambda>subject.
     rbind (jitem doc ''robot'') (\<lambda>robot.
     rbind (if robot = JNull then Inr JNull else jitem robot ''robot_id'') (\<lambda>robot_id.
     rbind (evidence_digest doc) (\<lambda>digest.
     Inr \<lparr>vd_passed = passed, vd_profile = profile, vd_revision = revision, vd_subject = subject, vd_robot_id = robot_id,
          vd_sha256 = digest, vd_source_verified = verified, vd_checks_verified = length checks\<rparr>))))))))))))))"

section \<open>Golden vectors\<close>

text \<open>\<open>bytes.fromhex\<close>: pairs of digits, with white space between them.\<close>

definition hex_space :: "char \<Rightarrow> bool" where
  "hex_space c = ((of_char c :: nat) \<in> {9, 10, 11, 12, 13, 32})"

fun from_hex :: "string \<Rightarrow> string option" where
  "from_hex [] = Some []"
| "from_hex [c] = (if hex_space c then Some [] else None)"
| "from_hex (c # d # cs) =
     (if hex_space c then from_hex (d # cs)
      else case (hex_value c, hex_value d) of
        (Some h, Some l) \<Rightarrow> map_option ((#) (char_of (16 * h + l))) (from_hex cs)
      | _ \<Rightarrow> None)"

record vector_env =
  ve_read :: "string \<Rightarrow> string res"
  ve_schema_valid :: "json \<Rightarrow> bool"
  ve_conforms :: "json \<Rightarrow> json \<Rightarrow> bool"
  ve_sha256 :: "string \<Rightarrow> string"
  ve_str :: "json \<Rightarrow> string"

definition vector_accepted :: "vector_env \<Rightarrow> json \<Rightarrow> string \<Rightarrow> unit res" where
  "vector_accepted env schema encoded =
     rbind (decode_envelope encoded) (\<lambda>e.
     rbind (case loads_bytes encoded of
              None \<Rightarrow> Inl (ProtocolDecodeError ''JSONDecodeError'')
            | Some doc \<Rightarrow> require (ve_conforms env schema doc) (NativeError ''ValidationError'')) (\<lambda>_.
     rbind (encode_envelope e) (\<lambda>canonical.
     require (canonical = encoded) (ValueError ''valid vector is not canonical JSON''))))"

definition counts_as_invalid :: "error \<Rightarrow> bool" where
  "counts_as_invalid e = (case e of ProtocolDecodeError _ \<Rightarrow> True | NativeError n \<Rightarrow> n = ''ValidationError'' | _ \<Rightarrow> False)"

definition vector_bytes :: "json \<Rightarrow> string \<Rightarrow> string res" where
  "vector_bytes item content =
     rbind (jget item ''encoding'' JNull) (\<lambda>encoding.
     if encoding \<noteq> JStr ''hex'' then Inr content
     else rbind (require (list_all (\<lambda>c. (of_char c :: nat) < 128) content) (ValueError ''UnicodeDecodeError'')) (\<lambda>_.
          case from_hex content of None \<Rightarrow> Inl (ValueError ''non-hexadecimal number'') | Some b \<Rightarrow> Inr b))"

definition validate_vector :: "vector_env \<Rightarrow> json \<Rightarrow> json \<Rightarrow> string \<Rightarrow> unit res" where
  "validate_vector env schema item file =
     rbind (rbind (ve_read env file) (vector_bytes item)) (\<lambda>encoded.
     rbind (jget item ''sha256'' JNull) (\<lambda>expected_hash.
     rbind (require (\<not> (py_truthy expected_hash \<and> JStr (ve_sha256 env encoded) \<noteq> expected_hash))
              (ValueError ''vector SHA-256 does not match manifest'')) (\<lambda>_.
     rbind (jitem item ''expected'') (\<lambda>expected.
     case vector_accepted env schema encoded of
       Inl e \<Rightarrow> if counts_as_invalid e \<and> expected = JStr ''invalid'' then Inr () else Inl e
     | Inr _ \<Rightarrow> require (expected = JStr ''valid'') (ValueError ''invalid vector was accepted'')))))"

definition json_file :: "vector_env \<Rightarrow> string \<Rightarrow> json res" where
  "json_file env file =
     rbind (ve_read env file) (\<lambda>text. case json_loads text of None \<Rightarrow> Inl (ValueError ''JSONDecodeError'') | Some v \<Rightarrow> Inr v)"

definition path_text :: "json \<Rightarrow> string res" where
  "path_text v = (case v of JStr s \<Rightarrow> Inr s | _ \<Rightarrow> Inl (TypeError ''unsupported operand''))"

definition vector_check :: "vector_env \<Rightarrow> (error \<Rightarrow> string) \<Rightarrow> json \<Rightarrow> json \<Rightarrow> conformance_check res" where
  "vector_check env describe schema item =
     rbind (rbind (jitem item ''file'') path_text) (\<lambda>file.
     rbind (jitem item ''id'') (\<lambda>name.
     Inr (run_check describe (''vector.'' @ (case name of JStr s \<Rightarrow> s | v \<Rightarrow> ve_str env v)) (validate_vector env schema item file))))"

text \<open>Paths are relative to the directory of the suite.\<close>

definition validate_vector_suite :: "vector_env \<Rightarrow> (error \<Rightarrow> string) \<Rightarrow> conformance_report res" where
  "validate_vector_suite env describe =
     rbind (json_file env ''manifest.json'') (\<lambda>mf.
     rbind (rbind (rbind (jitem mf ''schema'') path_text) (json_file env)) (\<lambda>schema.
     rbind (require (ve_schema_valid env schema) (NativeError ''SchemaError'')) (\<lambda>_.
     rbind (rbind (jitem mf ''vectors'') py_iter) (\<lambda>items.
     rbind (rmap (vector_check env describe schema) items) (\<lambda>checks.
     rbind (jitem mf ''suite'') (\<lambda>suite.
     Inr \<lparr>cf_subject = suite, cf_checks = checks\<rparr>))))))"

section \<open>What a passed check promises\<close>

lemma run_check_simps [simp]:
  "cc_id (run_check d n r) = n" "cc_passed (run_check d n r) \<longleftrightarrow> is_ok r"
  by (auto simp: run_check_def is_ok_iff split: sum.splits)






lemma canon_item:
  "distinct (map fst kvs) \<Longrightarrow> map_of kvs k = Some v \<Longrightarrow> jitem (canon (JObj kvs)) k = Inr (canon v)"
  by (simp add: jitem_def map_of_canon)

lemma canon_check_document:
  "jitem (canon (check_document c)) ''id'' = Inr (JStr (cc_id c))"
  "jitem (canon (check_document c)) ''passed'' = Inr (JBool (cc_passed c))"
  by (simp_all add: check_document_def canon_item del: canon.simps(2))

lemma inspected_checks:
  obtains c1 c2 c3 where "cf_checks (harness_inspect describe cls nv) = [c1, c2, c3]" "cc_id c1 = ''adapter.manifest''"
    "cc_id c2 = ''adapter.state''" "cc_id c3 = ''adapter.identity''"
  by (simp add: harness_inspect_def Let_def)

text \<open>The fields of the document, as they are read back.\<close>

lemma evidence_fields:
  assumes "inspect_adapter_evidence env describe nv specification revision observed = Inr doc0" and "ee_source env = Inr source"
    and "doc = canon doc0"
  shows "is_object doc" "jitem doc ''profile'' = Inr (JStr ''ump.adapter-conformance/v1'')"
    "jitem doc ''repository_revision'' = Inr (JStr revision)" "jitem doc ''robot'' = Inr (canon (evidence_robot (nat_manifest nv 1)))"
    "jitem doc ''subject'' = Inr (cf_subject (harness_inspect describe (ee_class env) nv))"
    "jitem doc ''passed'' = Inr (JBool (conformance_passed (harness_inspect describe (ee_class env) nv)))"
    "jitem doc ''checks'' =
       Inr (JArr (map (canon \<circ> check_document) (cf_checks (harness_inspect describe (ee_class env) nv))))"
    "evidence_digest doc = Inr (JStr (ee_sha256 env source))"
proof -
  let ?rep = "harness_inspect describe (ee_class env) nv"
  have subject: "canon (cf_subject ?rep) = cf_subject ?rep" by (simp add: harness_inspect_def Let_def)
  obtain kvs where doc0: "doc0 = JObj kvs" and keys: "distinct (map fst kvs)"
    and m: "map_of kvs ''profile'' = Some (JStr ''ump.adapter-conformance/v1'')"
      "map_of kvs ''repository_revision'' = Some (JStr revision)"
      "map_of kvs ''robot'' = Some (evidence_robot (nat_manifest nv 1))" "map_of kvs ''subject'' = Some (cf_subject ?rep)"
      "map_of kvs ''passed'' = Some (JBool (conformance_passed ?rep))"
      "map_of kvs ''checks'' = Some (JArr (map check_document (cf_checks ?rep)))"
      "\<exists>akvs p. map_of kvs ''adapter'' = Some (JObj akvs) \<and> distinct (map fst akvs) \<and> map_of akvs ''implementation'' =
         Some (JObj [(''path'', JStr p), (''sha256'', JStr (ee_sha256 env source))])"
    using assms(1,2) by (auto simp: inspect_adapter_evidence_def res_simps Let_def)
  note item = canon_item[OF keys, folded doc0, folded assms(3)]
  show "is_object doc" by (simp add: assms(3) doc0 is_object_def)
  show "jitem doc ''profile'' = Inr (JStr ''ump.adapter-conformance/v1'')"
    "jitem doc ''repository_revision'' = Inr (JStr revision)" "jitem doc ''robot'' = Inr (canon (evidence_robot (nat_manifest nv 1)))"
    "jitem doc ''subject'' = Inr (cf_subject ?rep)" "jitem doc ''passed'' = Inr (JBool (conformance_passed ?rep))"
    "jitem doc ''checks'' = Inr (JArr (map (canon \<circ> check_document) (cf_checks ?rep)))"
    using item[OF m(1)] item[OF m(2)] item[OF m(3)] item[OF m(4)] item[OF m(5)] item[OF m(6)] subject by simp_all
  obtain akvs p where a: "map_of kvs ''adapter'' = Some (JObj akvs)" "distinct (map fst akvs)"
      "map_of akvs ''implementation'' = Some (JObj [(''path'', JStr p), (''sha256'', JStr (ee_sha256 env source))])"
    using m(7) by blast
  have "jitem (canon (JObj [(''path'', JStr p), (''sha256'', JStr (ee_sha256 env source))])) ''sha256'' =
      Inr (JStr (ee_sha256 env source))"
    by (simp add: canon_item del: canon.simps(2))
  then show "evidence_digest doc = Inr (JStr (ee_sha256 env source))"
    by (simp add: evidence_digest_def item[OF a(1)] canon_item[OF a(2,3)] del: canon.simps(2))
qed

lemma evidence_checks_read:
  assumes "jitem doc ''checks'' = Inr (JArr (map (canon \<circ> check_document) (cf_checks (harness_inspect describe cls nv))))"
  obtains ds where "evidence_checks doc = Inr ds" "length ds = 3" "all_passed ds = Inr (conformance_passed (harness_inspect describe cls nv))"
proof -
  obtain c1 c2 c3 where cs: "cf_checks (harness_inspect describe cls nv) = [c1, c2, c3]" "cc_id c1 = ''adapter.manifest''"
      "cc_id c2 = ''adapter.state''" "cc_id c3 = ''adapter.identity''" by (rule inspected_checks)
  let ?ds = "map (canon \<circ> check_document) [c1, c2, c3]"
  have "evidence_checks doc = Inr ?ds"
    using cs(2-4) by (auto simp: evidence_checks_def assms cs(1) py_iter_def canon_check_document hashable_def)
  moreover have "all_passed ?ds = Inr (conformance_passed (harness_inspect describe cls nv))"
    by (simp add: conformance_passed_def cs(1) canon_check_document py_truthy_def)
  ultimately show ?thesis using that[of ?ds] by simp
qed

text \<open>evidence is bound to its source. A report that \<open>inspect_adapter_evidence\<close> made, read back from its text with
  sorted keys and within the schema, validates with the verdict of the inspection it records; with a source file it
  validates exactly when the file has the digest of the implementation that was loaded.\<close>

lemma evidence_bound_to_source:
  assumes "inspect_adapter_evidence env describe nv specification revision observed = Inr doc"
    and "json_loads t = Some (canon doc)" and "schema_error (canon doc) = None" and "ee_source env = Inr source"
  shows "\<exists>v. validate_adapter_evidence (ee_sha256 env) schema_error (Inr t) None = Inr v \<and>
      (vd_passed v \<longleftrightarrow> conformance_passed (harness_inspect describe (ee_class env) nv)) \<and> \<not> vd_source_verified v \<and>
      vd_checks_verified v = 3 \<and> vd_revision v = JStr revision \<and>
      validate_adapter_evidence (ee_sha256 env) schema_error (Inr t) (Some (Inr given)) =
        (if ee_sha256 env given = ee_sha256 env source then Inr (v\<lparr>vd_source_verified := True\<rparr>)
         else Inl (ValueError ''adapter implementation digest does not match the report''))"
proof -
  let ?rep = "harness_inspect describe (ee_class env) nv"
  note fs = evidence_fields[OF assms(1,4) refl]
  obtain ds where ds: "evidence_checks (canon doc) = Inr ds" "length ds = 3" "all_passed ds = Inr (conformance_passed ?rep)"
    using evidence_checks_read[OF fs(7)] by blast
  have obj: "is_object doc" using fs(1) by simp
  define m where "m = canon (evidence_robot (nat_manifest nv 1))"
  have "\<exists>i. (if m = JNull then Inr JNull else jitem m ''robot_id'') = Inr i"
    by (cases "nat_manifest nv 1") (auto simp: m_def evidence_robot_def canon_item simp del: canon.simps(2))
  then obtain i where i: "(if m = JNull then Inr JNull else jitem m ''robot_id'') = Inr i" by blast
  define v where "v = \<lparr>vd_passed = conformance_passed ?rep, vd_profile = JStr ''ump.adapter-conformance/v1'',
    vd_revision = JStr revision, vd_subject = cf_subject ?rep, vd_robot_id = i, vd_sha256 = JStr (ee_sha256 env source),
    vd_source_verified = False, vd_checks_verified = 3\<rparr>"
  have "validate_adapter_evidence (ee_sha256 env) schema_error (Inr t) None = Inr v"
    by (simp add: validate_adapter_evidence_def assms(2,3) obj fs(2,3,5,6,8) fs(4)[folded m_def] ds i checked_source_def v_def)
  moreover have "validate_adapter_evidence (ee_sha256 env) schema_error (Inr t) (Some (Inr given)) =
      (if ee_sha256 env given = ee_sha256 env source then Inr (v\<lparr>vd_source_verified := True\<rparr>)
       else Inl (ValueError ''adapter implementation digest does not match the report''))"
    by (simp add: validate_adapter_evidence_def assms(2,3) obj fs(2,3,5,6,8) fs(4)[folded m_def] ds i checked_source_def v_def)
  ultimately show ?thesis by (intro exI[of _ v]) (simp add: v_def)
qed

section \<open>A sample adapter\<close>

definition conforming_native :: native where
  "conforming_native = sample_native\<lparr>nat_state := Inr
     \<lparr>st_robot_id = ''r1'', st_mode = MoIdle, st_safety = SaNormal, st_activity = ''a'', st_intent = ''i'',
       st_progress = JInt 0, st_summary = ''s'', st_health = HeHealthy, st_battery = None, st_fresh_for_ms = 1,
       st_blockers = [], st_resources = [], st_assignment_id = None, st_pose = None, st_sensor_references = []\<rparr>\<rparr>"

definition sample_evidence_env :: evidence_env where
  "sample_evidence_env = \<lparr>ee_class = ''Cart'', ee_qualname = ''Cart'', ee_module = ''acme'', ee_file = Inr ''/a.py'',
     ee_is_file = True, ee_source = Inr ''class Cart'', ee_distributions = [(''acme'', None)], ee_environment = [],
     ee_now_ms = 1000, ee_sha256 = id\<rparr>"



theorem evidence_bound_to_source_witness:
  "\<exists>doc. inspect_adapter_evidence sample_evidence_env error_name conforming_native ''acme:make''
       (replicate 40 (CHR ''a'')) (Some 5) = Inr doc \<and>
     validate_adapter_evidence id (\<lambda>_. None) (Inr (json_dumps doc)) (Some (Inr ''class Van'')) =
       Inl (ValueError ''adapter implementation digest does not match the report'')"
proof -
  let ?ev = "inspect_adapter_evidence sample_evidence_env error_name conforming_native ''acme:make'' (replicate 40 (CHR ''a'')) (Some 5)"
  have "case ?ev of Inl _ \<Rightarrow> False | Inr doc \<Rightarrow> wf_json doc" by code_simp
  then obtain doc where doc: "?ev = Inr doc" and wf: "wf_json doc" by (auto split: sum.splits)
  have "ee_source sample_evidence_env = Inr ''class Cart''" "ee_sha256 sample_evidence_env = id"
    by (simp_all add: sample_evidence_env_def)
  then show ?thesis
    using evidence_bound_to_source[OF doc json_loads_dumps_wf[OF wf], where schema_error = "\<lambda>_. None" and given = "''class Van''"] doc
    by auto
qed

end
