(* ===== verification/Deployment.thy ===== *)
theory Deployment
  imports Conformance Credentials Network_Bus Registry
begin

text \<open>
  \<open>deployment.py\<close>: the generated read-only adapter, the topology, the generator of a local-lab bundle and the report of
  its verification. The generator is modelled with the files it writes, the credential store it opens for every
  node (the operations of \<open>Credentials\<close>) and the configuration it loads back (\<open>load_network_config\<close>). The schema of
  the topology, the keys and certificates it issues, the text of a printed document and relative paths are parameters;
  the fields of a topology have the types that its schema states. Running the nodes is one answer of the verification.
\<close>

section \<open>The read-only adapter\<close>

record read_only_adapter =
  ro_manifest :: manifest
  ro_state :: robot_state

definition text_field :: "json \<Rightarrow> string \<Rightarrow> nat \<Rightarrow> string res" where
  "text_field v name maximum = rbind (as_str v) (\<lambda>s. rbind (required_text s name maximum) (\<lambda>_. Inr s))"

definition adapter_manifest :: "json \<Rightarrow> manifest res" where
  "adapter_manifest doc =
     rbind (require (case doc of JObj kvs \<Rightarrow> set (map fst kvs) = {''robot_id'', ''manufacturer'', ''model'', ''robot_class''} | _ \<Rightarrow> False)
              (ValueError ''generated adapter config fields are invalid'')) (\<lambda>_.
     rbind (jitem doc ''robot_id'') (\<lambda>rid. rbind (jitem doc ''manufacturer'') (\<lambda>manu.
     rbind (jitem doc ''model'') (\<lambda>mdl. rbind (jitem doc ''robot_class'') (\<lambda>cls.
     rbind (text_field rid ''robot_id'' MAX_ID_BYTES) (\<lambda>rid'.
     rbind (text_field manu ''manufacturer'' MAX_TEXT_BYTES) (\<lambda>manu'.
     rbind (text_field mdl ''model'' MAX_TEXT_BYTES) (\<lambda>mdl'.
     rbind (text_field cls ''robot_class'' MAX_ID_BYTES) (\<lambda>cls'.
     post_init_manifest \<lparr>mf_robot_id = rid', mf_manufacturer = manu', mf_model = mdl', mf_robot_class = cls',
       mf_capabilities = [], mf_adapter_version = ''0.1.0-local-lab''\<rparr>)))))))))"

text \<open>\<open>content\<close> is the answer of reading the file; the exceptions of the handler become \<open>DeploymentError\<close>.\<close>

definition create_read_only_adapter :: "string res option \<Rightarrow> read_only_adapter res" where
  "create_read_only_adapter content = (case content of
      None \<Rightarrow> Inl (ValueError ''generated read-only adapter requires a config path'')
    | Some answer \<Rightarrow>
        rbind (case rbind (rbind answer (\<lambda>t. case json_loads t of None \<Rightarrow> Inl (ValueError ''JSONDecodeError'') | Some d \<Rightarrow> Inr d))
                      adapter_manifest of
                 Inl (ValueError m) \<Rightarrow> Inl (ValueError m)
               | Inl (TypeError m) \<Rightarrow> Inl (ValueError m)
               | Inl e \<Rightarrow> Inl (if e = RuntimeError ''OSError'' then ValueError ''generated adapter config is invalid'' else e)
               | Inr mf \<Rightarrow> Inr mf) (\<lambda>mf.
        rbind (post_init_state \<lparr>st_robot_id = mf_robot_id mf, st_mode = MoIdle, st_safety = SaNormal,
            st_activity = ''Connected in awareness-only mode'',
            st_intent = ''Publish semantic state and observe configured peers'', st_progress = JFloat ''0.0'',
            st_summary = mf_robot_class mf @ '' '' @ mf_robot_id mf @ '' is visible and read-only.'',
            st_health = HeUnknown, st_battery = None, st_fresh_for_ms = 2000, st_blockers = [], st_resources = [],
            st_assignment_id = None, st_pose = None, st_sensor_references = []\<rparr>) (\<lambda>st.
        Inr \<lparr>ro_manifest = mf, ro_state = st\<rparr>)))"

definition ro_accept :: "read_only_adapter \<Rightarrow> assignment \<Rightarrow> outcome res" where
  "ro_accept ad a = mk_outcome (assignment_id a) (mf_robot_id (ro_manifest ad)) False
     ''Generated read-only adapter rejects all assignments'' None (JObj [])"

definition ro_cancel :: "string \<Rightarrow> string \<Rightarrow> bool \<times> string" where
  "ro_cancel aid reason = (False, ''Generated read-only adapter has no native work: '' @ reason)"

section \<open>The topology\<close>

definition TOPOLOGY_PROFILE :: string where "TOPOLOGY_PROFILE = ''ump.deployment-topology/v1''"
definition BUNDLE_PROFILE :: string where "BUNDLE_PROFILE = ''ump.deployment-bundle/v1''"
definition LOCAL_REPORT_PROFILE :: string where "LOCAL_REPORT_PROFILE = ''ump.local-awareness-report/v1''"
definition AWARENESS_MESSAGES :: "string list" where "AWARENESS_MESSAGES = [''manifest'', ''state'']"

record deployment_node =
  dn_robot_id :: string
  dn_manufacturer :: string
  dn_model :: string
  dn_robot_class :: string
  dn_host :: string
  dn_port :: int

record deployment_env =
  topology_error :: "json \<Rightarrow> string option"
  ip_loopback :: "string \<Rightarrow> bool option"
  output_free :: bool
  ca_files :: "string \<times> string"
  issue :: "string \<Rightarrow> string \<times> string \<times> string"
  de_credentials :: credential_env
  de_now_ms :: int
  print_document :: "json \<Rightarrow> string"
  relative_path :: "string \<Rightarrow> string \<Rightarrow> string"
  de_is_file :: "string \<Rightarrow> bool"

definition topology_node :: "json \<Rightarrow> deployment_node res" where
  "topology_node v =
     rbind (rbind (jitem v ''robot_id'') as_str) (\<lambda>rid.
     rbind (rbind (jitem v ''manufacturer'') as_str) (\<lambda>manu.
     rbind (rbind (jitem v ''model'') as_str) (\<lambda>mdl.
     rbind (rbind (jitem v ''robot_class'') as_str) (\<lambda>cls.
     rbind (rbind (jitem v ''host'') as_str) (\<lambda>host.
     rbind (rbind (jitem v ''port'') as_int) (\<lambda>port.
     Inr \<lparr>dn_robot_id = rid, dn_manufacturer = manu, dn_model = mdl, dn_robot_class = cls, dn_host = host, dn_port = port\<rparr>))))))"

definition loopback_host :: "deployment_env \<Rightarrow> string \<Rightarrow> unit res" where
  "loopback_host env host = require (ip_loopback env host = Some True) (ValueError ''local-lab hosts must be loopback IP addresses'')"

definition validate_topology :: "deployment_env \<Rightarrow> json \<Rightarrow> deployment_node list res" where
  "validate_topology env doc =
     rbind (case topology_error env doc of Some m \<Rightarrow> Inl (ValueError (''deployment topology is invalid: '' @ m)) | None \<Rightarrow> Inr ()) (\<lambda>_.
     rbind (rbind (rbind (jitem doc ''nodes'') py_iter) (rmap topology_node)) (\<lambda>nodes.
     rbind (require (distinct (map dn_robot_id nodes)) (ValueError ''deployment robot IDs must be unique'')) (\<lambda>_.
     rbind (require (distinct (map (\<lambda>n. (dn_host n, dn_port n)) nodes))
              (ValueError ''deployment host and port pairs must be unique'')) (\<lambda>_.
     rbind (jitem doc ''mode'') (\<lambda>mode.
     rbind (if mode = JStr ''local_lab'' then rforall (\<lambda>n. loopback_host env (dn_host n)) nodes else Inr ()) (\<lambda>_.
     Inr nodes))))))"

definition lab_classes :: "(string \<times> string) list" where
  "lab_classes = [(''humanoid'', ''humanoid''), (''quadruped'', ''quadruped''), (''mobile-arm'', ''mobile_arm''), (''mobile-base'', ''mobile_base'')]"

definition default_node :: "int \<Rightarrow> nat \<Rightarrow> json" where
  "default_node base_port i = (let c = lab_classes ! (i mod 4); n = show_nat (i + 1) in
     JObj [(''robot_id'', JStr (''robot-'' @ fst c @ ''-'' @ n)), (''manufacturer'', JStr ''Local Lab''),
       (''model'', JStr (''SIM-'' @ n)), (''robot_class'', JStr (snd c)), (''host'', JStr ''127.0.0.1''), (''port'', JInt (base_port + int i))])"

definition default_local_topology :: "int \<Rightarrow> int \<Rightarrow> json res" where
  "default_local_topology robots base_port =
     rbind (require (2 \<le> robots \<and> robots \<le> 8) (ValueError ''local topology requires between 2 and 8 robots'')) (\<lambda>_.
     rbind (require (1024 \<le> base_port \<and> base_port \<le> 65535 - robots) (ValueError ''local topology base port is invalid'')) (\<lambda>_.
     Inr (JObj [(''profile'', JStr TOPOLOGY_PROFILE), (''mode'', JStr ''local_lab''),
       (''nodes'', JArr (map (default_node base_port) [0..<nat robots]))])))"

section \<open>The bundle\<close>

text \<open>
  \<open>dp_keys\<close> are the files of the directory \<open>credentials\<close>, \<open>dp_files\<close> those of the directories of the nodes, each with
  the directory's robot, the latest first; \<open>dp_stores\<close> the credential stores of the nodes.
\<close>

record deployment =
  dp_keys :: "(string \<times> string) list"
  dp_files :: "((string \<times> string) \<times> string) list"
  dp_stores :: "(string \<times> credential_store) list"
  dp_bundle :: "string option"

definition no_deployment :: deployment where
  "no_deployment = \<lparr>dp_keys = [], dp_files = [], dp_stores = [], dp_bundle = None\<rparr>"

definition put_node_file :: "string \<Rightarrow> string \<Rightarrow> string \<Rightarrow> deployment \<Rightarrow> deployment" where
  "put_node_file rid name content dp = dp\<lparr>dp_files := ((rid, name), content) # dp_files dp\<rparr>"

definition ca_written :: "deployment_env \<Rightarrow> deployment \<Rightarrow> deployment" where
  "ca_written env dp = dp\<lparr>dp_keys := (''local-lab-ca.key'', snd (ca_files env)) # (''local-lab-ca.pem'', fst (ca_files env)) # dp_keys dp\<rparr>"

text \<open>The loop of \<open>_development_credentials\<close>: two files and the fingerprint for each node.\<close>

fun issue_all :: "deployment_env \<Rightarrow> deployment_node list \<Rightarrow> deployment \<Rightarrow> deployment \<times> (string \<times> string) list res" where
  "issue_all env [] dp = (dp, Inr [])"
| "issue_all env (n # ns) dp = (case issue env (dn_robot_id n) of (certificate, key, der) \<Rightarrow>
     let dp1 = dp\<lparr>dp_keys := (dn_robot_id n @ ''.key'', key) # (dn_robot_id n @ ''.pem'', certificate) # dp_keys dp\<rparr> in
     case certificate_sha256 (sha256_hex (de_credentials env)) der of
       Inl e \<Rightarrow> (dp1, Inl e)
     | Inr fp \<Rightarrow> (case issue_all env ns dp1 of (dp2, r) \<Rightarrow> (dp2, rbind r (\<lambda>fps. Inr ((dn_robot_id n, fp) # fps)))))"

definition node_root :: "string \<Rightarrow> string" where
  "node_root rid = ''nodes/'' @ rid"

definition key_file :: "deployment \<Rightarrow> string \<Rightarrow> string res" where
  "key_file dp name = (case map_of (dp_keys dp) name of None \<Rightarrow> Inl (RuntimeError ''OSError'') | Some t \<Rightarrow> Inr t)"

definition enroll_node :: "deployment_env \<Rightarrow> string \<Rightarrow> deployment \<Rightarrow> deployment \<times> credential_generation res" where
  "enroll_node env rid dp =
     (case cred_init (de_credentials env) False rid (node_root rid @ ''/state/managed-credentials'')
             \<lparr>db_generations = [], db_revoked = [], db_events = []\<rparr> [] of
        Inl e \<Rightarrow> (dp, Inl e)
      | Inr s \<Rightarrow>
          (case (case cred_enroll (de_credentials env) (key_file dp (rid @ ''.pem'')) (key_file dp (rid @ ''.key''))
                        (key_file dp ''local-lab-ca.pem'') (de_now_ms env) s of
                   (s1, Inl e) \<Rightarrow> (s1, Inl e)
                 | (s1, Inr g) \<Rightarrow> cred_activate (cg_generation g) (de_now_ms env) s1) of
             (s2, r) \<Rightarrow> (dp\<lparr>dp_stores := (rid, s2) # dp_stores dp\<rparr>, r)))"

definition peer_document :: "(string \<times> string) list \<Rightarrow> deployment_node \<Rightarrow> json res" where
  "peer_document fps p = (case map_of fps (dn_robot_id p) of
      None \<Rightarrow> Inl (KeyError (dn_robot_id p))
    | Some fp \<Rightarrow> Inr (JObj [(''robot_id'', JStr (dn_robot_id p)), (''host'', JStr (dn_host p)), (''port'', JInt (dn_port p)),
        (''certificate_sha256'', JStr fp), (''allowed_message_types'', JArr (map JStr AWARENESS_MESSAGES)),
        (''allowed_capabilities'', JArr [])]))"

definition other_nodes :: "deployment_node list \<Rightarrow> string \<Rightarrow> deployment_node list" where
  "other_nodes nodes rid = filter (\<lambda>p. dn_robot_id p \<noteq> rid) nodes"

definition network_document :: "deployment_env \<Rightarrow> deployment_node \<Rightarrow> credential_generation \<Rightarrow> json list \<Rightarrow> json" where
  "network_document env n g peers = (let relative = \<lambda>p. JStr (relative_path env p (node_root (dn_robot_id n))) in
     JObj [(''robot_id'', JStr (dn_robot_id n)), (''bind_host'', JStr (dn_host n)), (''bind_port'', JInt (dn_port n)),
       (''certificate_path'', relative (cg_certificate_path g)), (''private_key_path'', relative (cg_private_key_path g)),
       (''ca_path'', relative (cg_ca_path g)), (''replay_database_path'', JStr ''state/replay.sqlite3''),
       (''inbox_database_path'', JStr ''state/inbox.sqlite3''), (''outbox_database_path'', JStr ''state/outbox.sqlite3''),
       (''peers'', JArr peers)])"

definition adapter_document :: "deployment_node \<Rightarrow> json" where
  "adapter_document n = JObj [(''robot_id'', JStr (dn_robot_id n)), (''manufacturer'', JStr (dn_manufacturer n)),
     (''model'', JStr (dn_model n)), (''robot_class'', JStr (dn_robot_class n))]"

definition node_script :: "string \<Rightarrow> string" where
  "node_script command = (let nl = [CHR 0x0A]; q = [CHR 0x22]; here = q @ ''$HERE/'' in
     ''#!/bin/sh'' @ nl @ ''set -eu'' @ nl @
     ''HERE=$(CDPATH= cd -- '' @ q @ ''$(dirname -- '' @ q @ ''$0'' @ q @ '')'' @ q @ '' && pwd)'' @ nl @
     command @ ''  --network '' @ here @ ''network.json'' @ q @ ''   --adapter ump.deployment:create_read_only_adapter '' @
     ''  --adapter-config '' @ here @ ''adapter.json'' @ q @ ''   --assignment-database '' @ here @ ''state/assignments.sqlite3'' @ q @
     ''   --authority-database '' @ here @ ''state/authority.sqlite3'' @ q @
     ''   --credential-database '' @ here @ ''state/credentials.sqlite3'' @ q @
     ''   --credential-directory '' @ here @ ''state/managed-credentials'' @ q @
     ''   --inspector-database '' @ here @ ''state/inspector.sqlite3'' @ q @ ''   --state-hz 2'' @ nl)"

definition node_entry :: "string \<Rightarrow> nat \<Rightarrow> string \<Rightarrow> json" where
  "node_entry rid peers fp = JObj [(''robot_id'', JStr rid), (''network'', JStr (node_root rid @ ''/network.json'')),
     (''adapter_config'', JStr (node_root rid @ ''/adapter.json'')), (''launch'', JStr (node_root rid @ ''/run.sh'')),
     (''preflight'', JStr (node_root rid @ ''/preflight.sh'')), (''configured_peers'', JInt (int peers)),
     (''credential_fingerprint_sha256'', JStr fp)]"

text \<open>One round of the loop over the nodes.\<close>

definition generate_node ::
  "deployment_env \<Rightarrow> (string \<times> string) list \<Rightarrow> deployment_node list \<Rightarrow> deployment_node \<Rightarrow> deployment \<Rightarrow> deployment \<times> json res" where
  "generate_node env fps nodes n dp =
     (let rid = dn_robot_id n; dp1 = put_node_file rid ''adapter.json'' (print_document env (adapter_document n)) dp in
      case map_of fps rid of None \<Rightarrow> (dp1, Inl (KeyError rid)) | Some fp \<Rightarrow>
      (case enroll_node env rid dp1 of
         (dp2, Inl e) \<Rightarrow> (dp2, Inl e)
       | (dp2, Inr g) \<Rightarrow>
           (case rmap (peer_document fps) (other_nodes nodes rid) of
              Inl e \<Rightarrow> (dp2, Inl e)
            | Inr peers \<Rightarrow>
                let content = print_document env (network_document env n g peers);
                    dp3 = put_node_file rid ''network.json'' content dp2 in
                (case load_network_config (de_is_file env) (node_root rid) (Some content) of
                   Inl e \<Rightarrow> (dp3, Inl e)
                 | Inr config \<Rightarrow>
                     (put_node_file rid ''preflight.sh'' (node_script ''exec ump-node --preflight '')
                        (put_node_file rid ''run.sh'' (node_script ''exec ump-node '') dp3),
                      Inr (node_entry rid (length (nc_peers config)) fp))))))"

fun generate_nodes ::
  "deployment_env \<Rightarrow> (string \<times> string) list \<Rightarrow> deployment_node list \<Rightarrow> deployment_node list \<Rightarrow> deployment \<Rightarrow> deployment \<times> json list res" where
  "generate_nodes env fps nodes [] dp = (dp, Inr [])"
| "generate_nodes env fps nodes (n # ns) dp = (case generate_node env fps nodes n dp of
      (dp1, Inl e) \<Rightarrow> (dp1, Inl e)
    | (dp1, Inr entry) \<Rightarrow> (case generate_nodes env fps nodes ns dp1 of (dp2, r) \<Rightarrow> (dp2, rbind r (\<lambda>es. Inr (entry # es)))))"

definition bundle_document :: "json list \<Rightarrow> json" where
  "bundle_document entries = JObj [(''profile'', JStr BUNDLE_PROFILE), (''mode'', JStr ''local_lab''),
     (''security'', JObj [(''development_pki'', JBool True), (''production_eligible'', JBool False),
        (''warning'', JStr ''Development credentials are short-lived and must never be used on physical deployments.'')]),
     (''nodes'', JArr entries)]"

text \<open>The checks before the first directory is made.\<close>

definition generation_check :: "deployment_env \<Rightarrow> json \<Rightarrow> bool \<Rightarrow> deployment_node list res" where
  "generation_check env doc development_pki =
     rbind (require (is_object doc) (ValueError ''deployment topology must be an object'')) (\<lambda>_.
     rbind (validate_topology env doc) (\<lambda>nodes.
     rbind (rbind (jitem doc ''mode'') (\<lambda>mode. require (mode = JStr ''local_lab'')
              (ValueError ''v1 generator currently supports local_lab mode only''))) (\<lambda>_.
     rbind (require development_pki (ValueError ''local_lab generation requires explicit --development-pki'')) (\<lambda>_.
     rbind (require (output_free env) (ValueError ''deployment output must not exist or must be an empty directory'')) (\<lambda>_.
     Inr nodes)))))"

text \<open>There is no handler that removes what was written, so the deployment is returned with an exception too.\<close>

definition generate_deployment_bundle :: "deployment_env \<Rightarrow> json \<Rightarrow> bool \<Rightarrow> deployment \<times> json res" where
  "generate_deployment_bundle env doc development_pki =
     (case generation_check env doc development_pki of
        Inl e \<Rightarrow> (no_deployment, Inl e)
      | Inr nodes \<Rightarrow>
          (case issue_all env nodes (ca_written env no_deployment) of
             (dp1, Inl e) \<Rightarrow> (dp1, Inl e)
           | (dp1, Inr fps) \<Rightarrow>
               (case generate_nodes env fps nodes nodes dp1 of
                  (dp2, Inl e) \<Rightarrow> (dp2, Inl e)
                | (dp2, Inr entries) \<Rightarrow>
                    (dp2\<lparr>dp_bundle := Some (print_document env (bundle_document entries))\<rparr>, Inr (bundle_document entries)))))"

definition read_topology :: "string res \<Rightarrow> json res" where
  "read_topology answer = (case answer of
      Inl e \<Rightarrow> Inl (if e = RuntimeError ''OSError'' then ValueError ''deployment topology is not readable JSON'' else e)
    | Inr t \<Rightarrow> (case json_loads t of None \<Rightarrow> Inl (ValueError ''deployment topology is not readable JSON'') | Some d \<Rightarrow> Inr d))"

section \<open>The report of the verification\<close>

text \<open>What running the nodes left: for each node its registry, whether its bus had errors, whether its adapter has
  capabilities, and the peers of its configuration.\<close>

record awareness_run =
  nr_robot_id :: string
  nr_registry :: registry
  nr_errors :: bool
  nr_capabilities :: bool
  nr_peers :: "peer_endpoint list"

definition peer_seen :: "registry \<Rightarrow> string \<Rightarrow> bool \<times> bool" where
  "peer_seen reg peer = (case reg peer of None \<Rightarrow> (False, False) | Some p \<Rightarrow> (pv_manifest p \<noteq> None, pv_state p \<noteq> None))"

definition awareness_checks :: "awareness_run list \<Rightarrow> (string \<times> bool) list" where
  "awareness_checks runs = (let ids = map nr_robot_id runs in
     [(''all_manifests_observed'', list_all (\<lambda>r. list_all (\<lambda>i. fst (peer_seen (nr_registry r) i)) ids) runs),
      (''all_states_observed'', list_all (\<lambda>r. list_all (\<lambda>i. snd (peer_seen (nr_registry r) i)) ids) runs),
      (''no_delivery_errors'', list_all (\<lambda>r. \<not> nr_errors r) runs),
      (''read_only_capabilities'', list_all (\<lambda>r. \<not> nr_capabilities r) runs),
      (''peer_fingerprints_pinned'', list_all (\<lambda>r. list_all (\<lambda>p. pe_certificate_sha256 p \<notin> {None, Some []}) (nr_peers r)) runs)])"

definition awareness_passed :: "awareness_run list \<Rightarrow> bool" where
  "awareness_passed runs = list_all snd (awareness_checks runs)"

section \<open>What a generated bundle lets its robots do\<close>

text \<open>What a printed document reads back to, and what is in a certificate that was issued.\<close>

definition deployment_env_ok :: "deployment_env \<Rightarrow> bool" where
  "deployment_env_ok env \<longleftrightarrow>
     (\<forall>d. wf_json d \<longrightarrow> json_loads (print_document env d) = Some (canon d)) \<and>
     (\<forall>rid c. load_certificate (de_credentials env) (fst (issue env rid)) = Inr c \<longrightarrow> x_der c = snd (snd (issue env rid)))"

definition issued_fingerprint :: "deployment_env \<Rightarrow> string \<Rightarrow> string" where
  "issued_fingerprint env rid = sha256_hex (de_credentials env) (snd (snd (issue env rid)))"

text \<open>The fingerprint that others pin belongs to the active generation of the robot's own store.\<close>

definition enrolled_as :: "deployment \<Rightarrow> string \<Rightarrow> string \<Rightarrow> bool" where
  "enrolled_as dp rid fp \<longleftrightarrow>
     (\<exists>s g. map_of (dp_stores dp) rid = Some s \<and> cred_robot_id s = rid \<and> cred_active s = Some g \<and> cg_fingerprint g = fp)"

lemma issue_all_result:
  "issue_all env ns dp = (dp', Inr fps) \<Longrightarrow>
     fps = map (\<lambda>n. (dn_robot_id n, issued_fingerprint env (dn_robot_id n))) ns \<and>
     dp_stores dp' = dp_stores dp \<and> dp_files dp' = dp_files dp \<and>
     (\<forall>rid. rid \<in> dn_robot_id ` set ns \<or> map_of (dp_keys dp) (rid @ ''.pem'') = Some (fst (issue env rid)) \<longrightarrow>
        map_of (dp_keys dp') (rid @ ''.pem'') = Some (fst (issue env rid)))"
proof (induction env ns dp arbitrary: dp' fps rule: issue_all.induct)
  case (1 env dp)
  then show ?case by auto
next
  case (2 env n ns dp)
  obtain certificate key der where i: "issue env (dn_robot_id n) = (certificate, key, der)" by (cases "issue env (dn_robot_id n)")
  define dp1 where "dp1 = dp\<lparr>dp_keys := (dn_robot_id n @ ''.key'', key) # (dn_robot_id n @ ''.pem'', certificate) # dp_keys dp\<rparr>"
  obtain fps' where r: "issue_all env ns dp1 = (dp', Inr fps')" "fps = (dn_robot_id n, issued_fingerprint env (dn_robot_id n)) # fps'"
    using 2(2) i by (auto simp: dp1_def[symmetric] certificate_sha256_def issued_fingerprint_def Let_def rbind_Inr_iff
        split: if_splits prod.splits sum.splits)
  have "certificate_sha256 (sha256_hex (de_credentials env)) der = Inr (sha256_hex (de_credentials env) der)"
    using 2(2) i by (auto simp: certificate_sha256_def Let_def split: if_splits)
  then have IH: "fps' = map (\<lambda>n. (dn_robot_id n, issued_fingerprint env (dn_robot_id n))) ns"
    "dp_stores dp' = dp_stores dp1" "dp_files dp' = dp_files dp1"
    "\<And>rid. rid \<in> dn_robot_id ` set ns \<or> map_of (dp_keys dp1) (rid @ ''.pem'') = Some (fst (issue env rid)) \<Longrightarrow>
        map_of (dp_keys dp') (rid @ ''.pem'') = Some (fst (issue env rid))"
    using 2(1)[OF i[symmetric] refl dp1_def _ r(1)] by blast+
  have "map_of (dp_keys dp1) (rid @ ''.pem'') =
      (if rid = dn_robot_id n then Some certificate else map_of (dp_keys dp) (rid @ ''.pem''))" for rid
    by (simp add: dp1_def)
  then show ?case
    using IH r(2) i by (auto simp: dp1_def)
qed

lemma as_credential_error_Inr: "as_credential_error m r = Inr x \<longleftrightarrow> r = Inr x"
  by (auto simp: as_credential_error_def split: sum.splits error.splits)

lemma validated_fingerprint:
  assumes "validate_bundle env robot certificate key ca now = Inr (fp, nb, na)"
  obtains c where "load_certificate env certificate = Inr c" "fp = sha256_hex env (x_der c)"
  using assms by (auto simp: validate_bundle_def as_credential_error_Inr rbind_Inr_iff split: option.splits)

text \<open>The first generation of an empty store, once enrolled and activated.\<close>

lemma first_generation:
  assumes "cred_enroll env certificate key ca now \<lparr>cred_robot_id = rid, cred_directory = d,
      cred_db = \<lparr>db_generations = [], db_revoked = [], db_events = []\<rparr>, cred_disk = []\<rparr> = (s1, Inr g)"
    and "cred_activate (cg_generation g) now s1 = (s2, Inr g2)"
  shows "\<exists>t c. certificate = Inr t \<and> load_certificate env t = Inr c \<and> cred_robot_id s2 = rid \<and>
    cred_active s2 = Some g2 \<and> cg_fingerprint g2 = sha256_hex env (x_der c)"
proof -
  let ?s = "\<lparr>cred_robot_id = rid, cred_directory = d, cred_db = \<lparr>db_generations = [], db_revoked = [], db_events = []\<rparr>, cred_disk = []\<rparr>"
  obtain files fp nb na n where check: "enrollment_check env certificate key ca now ?s = Inr (files, fp, nb, na, n)"
    using assms(1) by (auto simp: cred_enroll_def split: sum.splits)
  obtain t where t: "certificate = Inr t" and fp: "\<exists>c. load_certificate env t = Inr c \<and> fp = sha256_hex env (x_der c)"
    using check by (auto simp: enrollment_check_def rbind_Inr_iff elim: validated_fingerprint)
  define row where "row = staged_generation rid (generation_directory d n) fp nb na n now"
  have s1: "cred_robot_id s1 = rid" "db_generations (cred_db s1) = [row]" "g = cr_generation row"
    using assms(1) check by (auto simp: cred_enroll_def row_def cred_event_def cred_get_def cred_row_def rbind_Inr_iff Let_def
        split: sum.splits if_splits)
  have "cred_robot_id s2 = rid \<and> db_generations (cred_db s2) = activated_rows rid n now [row] \<and> g2 = cg_status_update (\<lambda>_. ''active'') g"
    using assms(2) s1 by (auto simp: cred_activate_def cred_event_def cred_get_def cred_row_def rbind_Inr_iff Let_def row_def staged_generation_def
        activated_rows_def upd_where_def set_credential_status_def row_active_def split: sum.splits if_splits)
  then have "cred_robot_id s2 = rid \<and> cred_active s2 = Some g2 \<and> cg_fingerprint g2 = fp"
    using s1(3) by (auto simp: cred_active_def active_row_def row_def staged_generation_def activated_rows_def upd_where_def
        set_credential_status_def row_active_def)
  then show ?thesis using t fp by blast
qed

lemma enroll_node_result:
  assumes "enroll_node env rid dp = (dp', Inr g)" and "deployment_env_ok env"
    and "map_of (dp_keys dp) (rid @ ''.pem'') = Some (fst (issue env rid))"
  shows "\<exists>s. dp' = dp\<lparr>dp_stores := (rid, s) # dp_stores dp\<rparr> \<and> enrolled_as dp' rid (issued_fingerprint env rid)"
proof -
  obtain d s1 g1 s2 where e: "cred_enroll (de_credentials env) (key_file dp (rid @ ''.pem'')) (key_file dp (rid @ ''.key''))
        (key_file dp ''local-lab-ca.pem'') (de_now_ms env) \<lparr>cred_robot_id = rid, cred_directory = d,
      cred_db = \<lparr>db_generations = [], db_revoked = [], db_events = []\<rparr>, cred_disk = []\<rparr> = (s1, Inr g1)"
    "cred_activate (cg_generation g1) (de_now_ms env) s1 = (s2, Inr g)" "dp' = dp\<lparr>dp_stores := (rid, s2) # dp_stores dp\<rparr>"
    using assms(1) by (auto simp: enroll_node_def cred_init_def rbind_def require_def split: sum.splits prod.splits if_splits)
  have "key_file dp (rid @ ''.pem'') = Inr (fst (issue env rid))" using assms(3) by (simp add: key_file_def)
  then show ?thesis
    using first_generation[OF e(1,2)] e(3) assms(2) by (auto simp: deployment_env_ok_def enrolled_as_def issued_fingerprint_def)
qed

text \<open>Reading back what was printed.\<close>

lemma canon_get:
  "distinct (map fst kvs) \<Longrightarrow> jget (canon (JObj kvs)) k v0 = Inr (case map_of kvs k of Some v \<Rightarrow> canon v | None \<Rightarrow> v0)"
  by (simp add: jget_def map_of_canon split: option.splits)

definition awareness_peer :: "deployment_env \<Rightarrow> deployment_node \<Rightarrow> peer_endpoint" where
  "awareness_peer env n = \<lparr>pe_robot_id = dn_robot_id n, pe_host = dn_host n, pe_port = dn_port n,
     pe_certificate_sha256 = Some (issued_fingerprint env (dn_robot_id n)),
     pe_allowed_message_types = AWARENESS_MESSAGES, pe_allowed_capabilities = []\<rparr>"

lemma has_only_canon: "has_only names (canon (JObj kvs)) \<longleftrightarrow> fst ` set kvs \<subseteq> set names"
  by (auto simp: has_only_def)

lemma is_object_members: "is_object (JObj kvs)"
  by (simp add: is_object_def)

lemma load_peer_document:
  assumes "peer_document fps n = Inr v" "map_of fps (dn_robot_id n) = Some (issued_fingerprint env (dn_robot_id n))"
  shows "load_peer (canon v) = post_init_endpoint (awareness_peer env n)"
proof -
  have v: "v = JObj [(''robot_id'', JStr (dn_robot_id n)), (''host'', JStr (dn_host n)), (''port'', JInt (dn_port n)),
        (''certificate_sha256'', JStr (issued_fingerprint env (dn_robot_id n))),
        (''allowed_message_types'', JArr (map JStr AWARENESS_MESSAGES)), (''allowed_capabilities'', JArr [])]"
    using assms by (simp add: peer_document_def)
  have "only_strings m (JArr (map JStr xs)) = Inr xs" for m xs
    unfolding only_strings_def by (simp add: py_iter_def) (induction xs; simp)
  then have "typed e (as_str (JStr s)) = Inr s" "typed e (as_int (JInt i)) = Inr i" "typed e (as_opt_str (JStr s)) = Inr (Some s)"
    "only_strings m (JArr (map JStr xs)) = Inr xs" "only_strings m (JArr []) = Inr []" for e s i m xs
    by (simp_all add: typed_def as_opt_str_def only_strings_def py_iter_def)
  then show ?thesis
    unfolding v load_peer_def awareness_peer_def
    by (simp add: canon_item canon_get has_only_canon is_object_members comp_def del: canon.simps(2))
qed

lemma post_init_endpoint_Inr: "post_init_endpoint p = Inr q \<Longrightarrow> q = p"
  by (simp add: post_init_endpoint_def rbind_Inr_iff)

lemma network_document_canon:
  "wf_json (network_document env n g peers) \<longleftrightarrow> (\<forall>v\<in>set peers. wf_json v)"
  "jitem (canon (network_document env n g peers)) ''robot_id'' = Inr (JStr (dn_robot_id n))"
  "jget (canon (network_document env n g peers)) ''peers'' JNull = Inr (JArr (map canon peers))"
  by (simp_all add: network_document_def Let_def canon_item canon_get del: canon.simps(2))

lemma load_network_Inr:
  assumes "load_network_config is_file dir (Some t) = Inr config" and "json_loads t = Some doc"
    and "jitem doc ''robot_id'' = Inr (JStr rid)" and "jget doc ''peers'' JNull = Inr (JArr vs)"
  shows "nc_robot_id config = rid \<and> rmap load_peer vs = Inr (nc_peers config)"
proof -
  have typed: "typed e r = Inr x \<longleftrightarrow> r = Inr x" for e and r :: "network_config res" and x
    by (auto simp: typed_def split: sum.splits)
  have post: "post_init_network is_file c = Inr x \<Longrightarrow> x = c" for c x by (auto simp: post_init_network_def rbind_Inr_iff)
  show ?thesis
    using assms by (auto simp: load_network_config_def typed rbind_Inr_iff dest!: post)
qed

lemma peer_documents_wf: "rmap (peer_document fps) ns = Inr vs \<Longrightarrow> \<forall>v\<in>set vs. wf_json v"
  by (induction ns arbitrary: vs) (auto simp: rbind_Inr_iff peer_document_def split: option.splits)

lemma loaded_peers:
  assumes "rmap (peer_document fps) ns = Inr vs" and "rmap load_peer (map canon vs) = Inr ps"
    and "\<And>n. n \<in> set ns \<Longrightarrow> map_of fps (dn_robot_id n) = Some (issued_fingerprint env (dn_robot_id n))"
  shows "ps = map (awareness_peer env) ns"
  using assms
proof (induction ns arbitrary: vs ps)
  case Nil
  then show ?case by simp
next
  case (Cons n ns)
  obtain v vs' where v: "vs = v # vs'" "peer_document fps n = Inr v" "rmap (peer_document fps) ns = Inr vs'"
    using Cons.prems(1) by (auto simp: rbind_Inr_iff)
  obtain p ps' where p: "ps = p # ps'" "load_peer (canon v) = Inr p" "rmap load_peer (map canon vs') = Inr ps'"
    using Cons.prems(2) v(1) by (auto simp: rbind_Inr_iff)
  show ?case
    using Cons.IH[OF v(3) p(3)] Cons.prems(3) load_peer_document[OF v(2)] p(2) post_init_endpoint_Inr v(1) p(1) by auto
qed

lemma awareness_disclosure:
  assumes "disclose (awareness_peer env n) e = Inr (Some d)"
  shows "message_type d \<in> {''manifest'', ''state''} \<and>
    (message_type d = ''manifest'' \<longrightarrow> jget (env_payload d) ''capabilities'' JNull = Inr (JArr []))"
proof -
  have none: "keep_allowed [] cs = Inr kept \<Longrightarrow> kept = []" for cs kept
    by (induction cs arbitrary: kept) (auto simp: capability_allowed_def rbind_Inr_iff split: if_splits json.splits)
  show ?thesis
    using assms none
    by (cases "env_payload e") (auto simp: disclose_def awareness_peer_def AWARENESS_MESSAGES_def jget_def set_member_def rbind_Inr_iff split: if_splits)
qed

text \<open>The files and the store of one node, and that the rest stays.\<close>

definition deployed :: "deployment_env \<Rightarrow> deployment_node list \<Rightarrow> deployment \<Rightarrow> string \<Rightarrow> bool" where
  "deployed env nodes dp rid \<longleftrightarrow> enrolled_as dp rid (issued_fingerprint env rid) \<and>
     (\<exists>content config. map_of (dp_files dp) (rid, ''network.json'') = Some content \<and>
        load_network_config (de_is_file env) (node_root rid) (Some content) = Inr config \<and> nc_robot_id config = rid \<and>
        nc_peers config = map (awareness_peer env) (other_nodes nodes rid))"

definition unchanged_but :: "string \<Rightarrow> deployment \<Rightarrow> deployment \<Rightarrow> bool" where
  "unchanged_but rid dp dp' \<longleftrightarrow> dp_keys dp' = dp_keys dp \<and>
     (\<forall>r. r \<noteq> rid \<longrightarrow> map_of (dp_stores dp') r = map_of (dp_stores dp) r \<and>
        (\<forall>name. map_of (dp_files dp') (r, name) = map_of (dp_files dp) (r, name)))"

lemma generate_node_result:
  assumes "generate_node env fps nodes n dp = (dp', Inr entry)" and ok: "deployment_env_ok env"
    and fps: "fps = map (\<lambda>n. (dn_robot_id n, issued_fingerprint env (dn_robot_id n))) nodes"
    and key: "map_of (dp_keys dp) (dn_robot_id n @ ''.pem'') = Some (fst (issue env (dn_robot_id n)))"
  shows "deployed env nodes dp' (dn_robot_id n) \<and> unchanged_but (dn_robot_id n) dp dp'"
proof -
  let ?rid = "dn_robot_id n"
  define dp1 where "dp1 = put_node_file ?rid ''adapter.json'' (print_document env (adapter_document n)) dp"
  obtain fp dp2 g vs config where
    e: "enroll_node env ?rid dp1 = (dp2, Inr g)" and vs: "rmap (peer_document fps) (other_nodes nodes ?rid) = Inr vs"
    and c: "load_network_config (de_is_file env) (node_root ?rid) (Some (print_document env (network_document env n g vs))) = Inr config"
    and dp': "dp' = put_node_file ?rid ''preflight.sh'' (node_script ''exec ump-node --preflight '')
       (put_node_file ?rid ''run.sh'' (node_script ''exec ump-node '')
         (put_node_file ?rid ''network.json'' (print_document env (network_document env n g vs)) dp2))"
    using assms(1) unfolding generate_node_def Let_def dp1_def[symmetric]
    by (auto split: option.splits prod.splits sum.splits)
  have "map_of (dp_keys dp1) (?rid @ ''.pem'') = Some (fst (issue env ?rid))" using key by (simp add: dp1_def put_node_file_def)
  then obtain s where s: "dp2 = dp1\<lparr>dp_stores := (?rid, s) # dp_stores dp1\<rparr>" "enrolled_as dp2 ?rid (issued_fingerprint env ?rid)"
    using enroll_node_result[OF e ok] by blast
  have look: "map_of fps (dn_robot_id p) = Some (issued_fingerprint env (dn_robot_id p))" if "p \<in> set (other_nodes nodes ?rid)" for p
    using that unfolding fps by (induction nodes) (auto simp: other_nodes_def split: if_splits)
  have "json_loads (print_document env (network_document env n g vs)) = Some (canon (network_document env n g vs))"
    using ok peer_documents_wf[OF vs] by (simp add: deployment_env_ok_def network_document_canon)
  then have "nc_robot_id config = ?rid \<and> rmap load_peer (map canon vs) = Inr (nc_peers config)"
    by (rule load_network_Inr[OF c _ network_document_canon(2,3)])
  then have "nc_robot_id config = ?rid" "nc_peers config = map (awareness_peer env) (other_nodes nodes ?rid)"
    using loaded_peers[OF vs _ look] by auto
  then have "deployed env nodes dp' ?rid"
    using s(2) c unfolding deployed_def dp' by (auto simp: put_node_file_def enrolled_as_def)
  moreover have "unchanged_but ?rid dp dp'"
    unfolding unchanged_but_def dp' s(1) dp1_def by (simp add: put_node_file_def)
  ultimately show ?thesis by blast
qed

lemma generate_nodes_result:
  assumes "generate_nodes env fps nodes ns dp = (dp', Inr es)" and "deployment_env_ok env"
    and "fps = map (\<lambda>n. (dn_robot_id n, issued_fingerprint env (dn_robot_id n))) nodes"
    and "\<forall>n\<in>set ns. map_of (dp_keys dp) (dn_robot_id n @ ''.pem'') = Some (fst (issue env (dn_robot_id n)))"
    and "distinct (map dn_robot_id ns)"
  shows "(\<forall>n\<in>set ns. deployed env nodes dp' (dn_robot_id n)) \<and>
    (\<forall>r. r \<notin> dn_robot_id ` set ns \<longrightarrow> deployed env nodes dp r \<longrightarrow> deployed env nodes dp' r)"
  using assms(1,4,5)
proof (induction ns arbitrary: dp es)
  case Nil
  then show ?case by simp
next
  case (Cons n ns)
  obtain dp1 e es' where g: "generate_node env fps nodes n dp = (dp1, Inr e)" "generate_nodes env fps nodes ns dp1 = (dp', Inr es')"
    using Cons.prems(1) by (auto simp: rbind_Inr_iff split: prod.splits sum.splits)
  have one: "deployed env nodes dp1 (dn_robot_id n)" "unchanged_but (dn_robot_id n) dp dp1"
    using generate_node_result[OF g(1) assms(2,3)] Cons.prems(2) by auto
  then have "deployed env nodes dp r \<Longrightarrow> r \<noteq> dn_robot_id n \<Longrightarrow> deployed env nodes dp1 r" for r
    by (auto simp: deployed_def unchanged_but_def enrolled_as_def)
  moreover have "\<forall>n\<in>set ns. map_of (dp_keys dp1) (dn_robot_id n @ ''.pem'') = Some (fst (issue env (dn_robot_id n)))"
    using Cons.prems(2) one(2) by (simp add: unchanged_but_def)
  ultimately show ?case using Cons.IH[OF g(2)] Cons.prems(3) one(1) by auto
qed

text \<open>C36: a generated bundle is for awareness only. Suppose that JSON printed by \<open>json.dumps\<close> is read back as it was, up to the
  order of members, and that a certificate that was issued loads as its own bytes. When the generator succeeds, the
  configuration it wrote for each node
  loads, names exactly the other nodes as peers, pins for each the fingerprint of the active generation in that
  robot's own credential store, and lets a bus disclose to it nothing but states and manifests without capabilities.\<close>

theorem generated_bundle_awareness_only:
  assumes "generate_deployment_bundle env doc pki = (dp, Inr bundle)" and "deployment_env_ok env"
    and "validate_topology env doc = Inr nodes" and "n \<in> set nodes"
  shows "\<exists>content config. map_of (dp_files dp) (dn_robot_id n, ''network.json'') = Some content \<and>
    load_network_config (de_is_file env) (node_root (dn_robot_id n)) (Some content) = Inr config \<and>
    nc_robot_id config = dn_robot_id n \<and>
    map pe_robot_id (nc_peers config) = filter (\<lambda>rid. rid \<noteq> dn_robot_id n) (map dn_robot_id nodes) \<and>
    (\<forall>p\<in>set (nc_peers config).
      (\<exists>s g. map_of (dp_stores dp) (pe_robot_id p) = Some s \<and> cred_robot_id s = pe_robot_id p \<and> cred_active s = Some g \<and>
         pe_certificate_sha256 p = Some (cg_fingerprint g)) \<and>
      (\<forall>e d. disclose p e = Inr (Some d) \<longrightarrow> message_type d \<in> {''manifest'', ''state''} \<and>
         (message_type d = ''manifest'' \<longrightarrow> jget (env_payload d) ''capabilities'' JNull = Inr (JArr []))))"
proof -
  obtain dp1 fps dp2 es where run: "issue_all env nodes (ca_written env no_deployment) = (dp1, Inr fps)"
      "generate_nodes env fps nodes nodes dp1 = (dp2, Inr es)" "dp_files dp = dp_files dp2" "dp_stores dp = dp_stores dp2"
    using assms(1,3) by (auto simp: generate_deployment_bundle_def generation_check_def rbind_Inr_iff split: sum.splits prod.splits)
  have ids: "distinct (map dn_robot_id nodes)" using assms(3) by (auto simp: validate_topology_def res_simps)
  have all: "\<forall>m\<in>set nodes. deployed env nodes dp2 (dn_robot_id m)"
    using generate_nodes_result[OF run(2) assms(2) _ _ ids] issue_all_result[OF run(1)] by blast
  obtain content config where c: "map_of (dp_files dp) (dn_robot_id n, ''network.json'') = Some content"
      "load_network_config (de_is_file env) (node_root (dn_robot_id n)) (Some content) = Inr config"
      "nc_robot_id config = dn_robot_id n" "nc_peers config = map (awareness_peer env) (other_nodes nodes (dn_robot_id n))"
    using all assms(4) run(3) by (auto simp: deployed_def)
  have "map pe_robot_id (nc_peers config) = filter (\<lambda>rid. rid \<noteq> dn_robot_id n) (map dn_robot_id nodes)"
    unfolding c(4) other_nodes_def by (simp add: comp_def awareness_peer_def filter_map)
  moreover have "\<exists>s g. map_of (dp_stores dp) (pe_robot_id p) = Some s \<and> cred_robot_id s = pe_robot_id p \<and> cred_active s = Some g \<and>
         pe_certificate_sha256 p = Some (cg_fingerprint g)" if "p \<in> set (nc_peers config)" for p
    using that all c(4) run(4) by (auto simp: other_nodes_def deployed_def enrolled_as_def awareness_peer_def)
  moreover have "message_type d \<in> {''manifest'', ''state''} \<and>
         (message_type d = ''manifest'' \<longrightarrow> jget (env_payload d) ''capabilities'' JNull = Inr (JArr []))"
    if "p \<in> set (nc_peers config)" "disclose p e = Inr (Some d)" for p e d
    using that c(4) awareness_disclosure by auto
  ultimately show ?thesis using c by blast
qed

text \<open>The generated adapter advertises nothing, so that its participant takes no assignment.\<close>

lemma read_only_adapter_result:
  assumes "create_read_only_adapter content = Inr ad"
  shows "mf_capabilities (ro_manifest ad) = [] \<and> st_robot_id (ro_state ad) = mf_robot_id (ro_manifest ad) \<and>
    (ro_accept ad a = Inr oc \<longrightarrow> oc_status oc \<noteq> AsSucceeded)"
proof -
  have post: "post_init_manifest m = Inr m' \<Longrightarrow> m' = m" "post_init_state s = Inr s' \<Longrightarrow> s' = s" for m m' s s'
    by (auto simp: post_init_manifest_def post_init_state_def rbind_Inr_iff)
  have "adapter_manifest doc = Inr mf \<Longrightarrow> mf_capabilities mf = []" for doc mf
    by (auto simp: adapter_manifest_def rbind_Inr_iff dest!: post(1))
  then show ?thesis
    using assms by (auto simp: create_read_only_adapter_def ro_accept_def mk_outcome_def resolve_status_def rbind_Inr_iff Let_def
        dest!: post(2) split: option.splits sum.splits error.splits)
qed

text \<open>A bundle without nodes passes every check.\<close>

lemma empty_bundle_passes: "awareness_passed []"
  by (simp add: awareness_passed_def awareness_checks_def Let_def)

section \<open>A sample bundle\<close>

definition lab_env :: deployment_env where
  "lab_env = \<lparr>topology_error = (\<lambda>_. None), ip_loopback = (\<lambda>_. Some True), output_free = True, ca_files = (''ca'', ''k''),
     issue = (\<lambda>rid. (rid, ''k'', rid)),
     de_credentials = \<lparr>load_certificate = (\<lambda>t. Inr \<lparr>x_uris = Inr (Some [IDENTITY_URI_PREFIX @ t]), x_public_key = ''k'',
         x_not_before_ms = 0, x_not_after_ms = 100, x_der = t\<rparr>),
       load_private_key = (\<lambda>t. Inr t), verify_issued_by = (\<lambda>_ _. Inr ()), sha256_hex = (\<lambda>_. replicate 64 CHR ''a''),
       write_file = (\<lambda>_ _. Inr ()), resolve_path = (\<lambda>p. Inr p), sql_matches = (\<lambda>x y. Inr (x = y))\<rparr>,
     de_now_ms = 5, print_document = json_dumps, relative_path = (\<lambda>p _. p), de_is_file = (\<lambda>_. True)\<rparr>"

definition lab_node :: "string \<Rightarrow> int \<Rightarrow> json" where
  "lab_node rid port = JObj [(''robot_id'', JStr rid), (''manufacturer'', JStr ''m''), (''model'', JStr ''x''),
     (''robot_class'', JStr ''c''), (''host'', JStr ''::1''), (''port'', JInt port)]"

definition lab_topology :: json where
  "lab_topology = JObj [(''mode'', JStr ''local_lab''), (''nodes'', JArr [lab_node ''a'' 2000, lab_node ''b'' 2001])]"

lemma lab_env_ok: "deployment_env_ok lab_env"
  by (simp add: deployment_env_ok_def lab_env_def json_loads_dumps_wf)

text \<open>One node succeeds when its enrolment, its peers and the load of its configuration do.\<close>

lemma generate_node_ok:
  assumes "map_of fps (dn_robot_id n) = Some fp" and "snd (enroll_node env (dn_robot_id n) before) = Inr g" and "dp_keys before = dp_keys dp"
    and "rmap (peer_document fps) (other_nodes nodes (dn_robot_id n)) = Inr vs"
    and "is_ok (load_network_config (de_is_file env) (node_root (dn_robot_id n)) (Some (print_document env (network_document env n g vs))))"
  shows "is_ok (snd (generate_node env fps nodes n dp)) \<and> dp_keys (fst (generate_node env fps nodes n dp)) = dp_keys dp"
proof -
  let ?dp1 = "put_node_file (dn_robot_id n) ''adapter.json'' (print_document env (adapter_document n)) dp"
  have same: "key_file ?dp1 f = key_file before f" for f using assms(3) by (simp add: key_file_def put_node_file_def)
  have e: "snd (enroll_node env (dn_robot_id n) ?dp1) = Inr g" "dp_keys (fst (enroll_node env (dn_robot_id n) ?dp1)) = dp_keys dp"
    using assms(2) unfolding enroll_node_def same by (auto simp: put_node_file_def split: sum.splits prod.splits)
  obtain dp2 where dp2: "enroll_node env (dn_robot_id n) ?dp1 = (dp2, Inr g)" "dp_keys dp2 = dp_keys dp"
    using e by (cases "enroll_node env (dn_robot_id n) ?dp1") auto
  obtain c where c: "load_network_config (de_is_file env) (node_root (dn_robot_id n))
      (Some (print_document env (network_document env n g vs))) = Inr c" using assms(5) by (auto simp: is_ok_iff)
  show ?thesis
    using assms(1,4) dp2 c by (simp add: generate_node_def Let_def put_node_file_def)
qed

definition lab_nodes :: "deployment_node list" where
  "lab_nodes = [\<lparr>dn_robot_id = ''a'', dn_manufacturer = ''m'', dn_model = ''x'', dn_robot_class = ''c'', dn_host = ''::1'', dn_port = 2000\<rparr>,
     \<lparr>dn_robot_id = ''b'', dn_manufacturer = ''m'', dn_model = ''x'', dn_robot_class = ''c'', dn_host = ''::1'', dn_port = 2001\<rparr>]"

definition lab_issued :: "deployment \<times> (string \<times> string) list res" where
  "lab_issued = issue_all lab_env lab_nodes (ca_written lab_env no_deployment)"

definition lab_fingerprints :: "(string \<times> string) list" where
  "lab_fingerprints = [(''a'', replicate 64 CHR ''a''), (''b'', replicate 64 CHR ''a'')]"

definition lab_generation :: "string \<Rightarrow> credential_generation" where
  "lab_generation rid = (let d = ''nodes/'' @ rid @ ''/state/managed-credentials/generation-1'' in
     \<lparr>cg_generation = 1, cg_robot_id = rid, cg_fingerprint = replicate 64 CHR ''a'', cg_certificate_path = d @ ''/certificate.pem'',
      cg_private_key_path = d @ ''/private-key.pem'', cg_ca_path = d @ ''/ca.pem'', cg_not_before_ms = 0, cg_not_after_ms = 100,
      cg_status = ''active''\<rparr>)"

lemma lab_steps:
  "generation_check lab_env lab_topology True = Inr lab_nodes" "snd lab_issued = Inr lab_fingerprints"
  "snd (enroll_node lab_env ''a'' (fst lab_issued)) = Inr (lab_generation ''a'')"
  "snd (enroll_node lab_env ''b'' (fst lab_issued)) = Inr (lab_generation ''b'')"
  by code_simp+

definition lab_peers :: "string \<Rightarrow> json list" where
  "lab_peers rid = (case rmap (peer_document lab_fingerprints) (other_nodes lab_nodes rid) of Inr vs \<Rightarrow> vs | Inl _ \<Rightarrow> [])"

definition lab_document :: "deployment_node \<Rightarrow> json" where
  "lab_document n = network_document lab_env n (lab_generation (dn_robot_id n)) (lab_peers (dn_robot_id n))"

lemma lab_documents:
  assumes "n \<in> set lab_nodes"
  shows "wf_json (lab_document n)" "rmap (peer_document lab_fingerprints) (other_nodes lab_nodes (dn_robot_id n)) = Inr (lab_peers (dn_robot_id n))"
    "\<exists>p. rmap load_peer (map canon (lab_peers (dn_robot_id n))) = Inr [p]"
proof -
  have two: "n = lab_nodes ! 0 \<or> n = lab_nodes ! 1" using assms by (auto simp: lab_nodes_def)
  then show peers: "rmap (peer_document lab_fingerprints) (other_nodes lab_nodes (dn_robot_id n)) = Inr (lab_peers (dn_robot_id n))"
    by (auto simp: lab_peers_def lab_nodes_def other_nodes_def peer_document_def lab_fingerprints_def)
  then show "wf_json (lab_document n)" by (simp add: lab_document_def network_document_canon peer_documents_wf)
  have "post_init_endpoint (awareness_peer lab_env m) = Inr (awareness_peer lab_env m)" if "m \<in> set lab_nodes" for m
  proof -
    have "list_all (\<lambda>m. is_ok (post_init_endpoint (awareness_peer lab_env m))) lab_nodes" by code_simp
    then show ?thesis using that post_init_endpoint_Inr by (auto simp: list_all_iff is_ok_iff)
  qed
  moreover have look: "map_of lab_fingerprints (dn_robot_id m) = Some (issued_fingerprint lab_env (dn_robot_id m))"
    if "m \<in> set lab_nodes" for m
    using that by (auto simp: lab_nodes_def lab_fingerprints_def issued_fingerprint_def lab_env_def)
  moreover obtain m where m: "other_nodes lab_nodes (dn_robot_id n) = [m]" "m \<in> set lab_nodes"
    using two by (auto simp: other_nodes_def lab_nodes_def)
  ultimately show "\<exists>p. rmap load_peer (map canon (lab_peers (dn_robot_id n))) = Inr [p]"
    using peers load_peer_document[OF _ look[OF m(2)]] by (auto simp: rbind_Inr_iff dest!: sym[of _ "lab_peers (dn_robot_id n)"])
qed

lemma lab_loads:
  assumes "n \<in> set lab_nodes"
  shows "is_ok (load_network_config (\<lambda>_. True) (node_root (dn_robot_id n)) (Some (json_dumps (lab_document n))))"
proof -
  obtain p where p: "rmap load_peer (map canon (lab_peers (dn_robot_id n))) = Inr [p]" using lab_documents(3)[OF assms] by blast
  have "literal_value ''2.0'' = (20, 1)" by code_simp
  then have timeout: "timeout_ok (JFloat ''2.0'')" by (simp add: timeout_ok_def dec_value_def float_limit_def)
  have post: "is_ok (post_init_network (\<lambda>_. True) \<lparr>nc_robot_id = dn_robot_id n, nc_bind_host = dn_host n, nc_bind_port = dn_port n,
      nc_certificate_path = f1, nc_private_key_path = f2, nc_ca_path = f3, nc_replay_database_path = f4,
      nc_inbox_database_path = f5, nc_outbox_database_path = f6, nc_peers = [p], nc_timeout = JFloat ''2.0'',
      nc_maximum_pending = 10000, nc_reserved_safety = 64\<rparr>)" for f1 f2 f3 f4 f5 f6
  proof -
    have "list_all (\<lambda>n. \<not> py_blank (dn_robot_id n) \<and> length (dn_robot_id n) \<le> 128 \<and> \<not> py_blank (dn_host n) \<and> length (dn_host n) \<le> 255 \<and>
        0 \<le> dn_port n \<and> dn_port n \<le> 65535) lab_nodes" by code_simp
    then show ?thesis using assms timeout by (auto simp: post_init_network_def list_all_iff is_ok_iff rbind_Inr_iff require_Inr_iff)
  qed
  have typed: "is_ok (typed e r) \<longleftrightarrow> is_ok r" for e and r :: "network_config res" by (auto simp: typed_def is_ok_iff split: sum.splits)
  show ?thesis
    unfolding load_network_config_def option.case json_loads_dumps_wf[OF lab_documents(1)[OF assms]]
    unfolding lab_document_def network_document_def Let_def
    using p by (simp add: canon_item canon_get has_only_canon is_object_members required_network_def credential_path_def typed post
        del: canon.simps(2)) (simp add: typed_def post)
qed

theorem generated_bundle_awareness_only_witness:
  "\<exists>dp bundle config content. generate_deployment_bundle lab_env lab_topology True = (dp, Inr bundle) \<and>
     map_of (dp_files dp) (''a'', ''network.json'') = Some content \<and>
     load_network_config (\<lambda>_. True) ''nodes/a'' (Some content) = Inr config \<and> map pe_robot_id (nc_peers config) = [''b'']"
proof -
  obtain n1 n2 where ns: "lab_nodes = [n1, n2]" "dn_robot_id n1 = ''a''" "dn_robot_id n2 = ''b''" by (simp add: lab_nodes_def)
  have env: "de_is_file lab_env = (\<lambda>_. True)" "print_document lab_env = json_dumps" by (simp_all add: lab_env_def)
  let ?dp = "fst lab_issued" and ?g = "generate_node lab_env lab_fingerprints lab_nodes"
  have fps: "map_of lab_fingerprints ''a'' = Some (replicate 64 CHR ''a'')" "map_of lab_fingerprints ''b'' = Some (replicate 64 CHR ''a'')"
    by (simp_all add: lab_fingerprints_def)
  have one: "is_ok (snd (?g n1 ?dp)) \<and> dp_keys (fst (?g n1 ?dp)) = dp_keys ?dp"
    by (rule generate_node_ok[where before = ?dp])
       (use lab_loads[of n1] lab_documents[of n1] in \<open>auto simp: ns env node_root_def fps lab_steps lab_document_def\<close>)
  define dp1 where "dp1 = fst (?g n1 ?dp)"
  have keys: "dp_keys ?dp = dp_keys dp1" using one by (simp add: dp1_def)
  have two: "is_ok (snd (?g n2 dp1)) \<and> dp_keys (fst (?g n2 dp1)) = dp_keys dp1"
    by (rule generate_node_ok[where before = ?dp, OF _ _ keys])
       (use lab_loads[of n2] lab_documents[of n2] in \<open>auto simp: ns env node_root_def fps lab_steps lab_document_def\<close>)
  obtain e1 where e1: "?g n1 ?dp = (dp1, Inr e1)" using one by (cases "?g n1 ?dp") (auto simp: dp1_def is_ok_iff)
  obtain dp2 e2 where e2: "?g n2 dp1 = (dp2, Inr e2)" using two by (cases "?g n2 dp1") (auto simp: is_ok_iff)
  have issued: "issue_all lab_env lab_nodes (ca_written lab_env no_deployment) = (?dp, Inr lab_fingerprints)"
    using lab_steps(2) by (metis lab_issued_def prod.collapse)
  have "generate_nodes lab_env lab_fingerprints lab_nodes [n1, n2] ?dp = (dp2, Inr [e1, e2])" by (simp add: e1 e2)
  then have "generate_nodes lab_env lab_fingerprints lab_nodes lab_nodes ?dp = (dp2, Inr [e1, e2])" by (simp only: ns(1))
  then have "\<exists>dp made. generate_deployment_bundle lab_env lab_topology True = (dp, Inr made)"
    by (simp add: generate_deployment_bundle_def lab_steps(1) issued)
  then obtain dp made where run: "generate_deployment_bundle lab_env lab_topology True = (dp, Inr made)" by blast
  have nodes: "validate_topology lab_env lab_topology = Inr lab_nodes"
    using lab_steps(1) by (auto simp: generation_check_def rbind_Inr_iff)
  show ?thesis
    using generated_bundle_awareness_only[OF run lab_env_ok nodes, of n1] run
    by (auto simp: node_root_def env ns)
qed

end
