(* ===== verification/Spec2Isabelle.thy ===== *)
theory Spec2Isabelle
  imports Journal_Runs Registry Authority Participant_Runs Coordinator_Runs Flush Receiver_Order Inspector_Runs Operations
    Coordinator_Service Participant_Service Credential_Runs Ros2_Runs Diagnostics Data_Ops Deployment
begin

text \<open>
  Verification of the reference implementation of the Universal Machine Protocol, \<open>src/src/ump\<close>.

  THE PROGRAM. Robots of different makers exchange JSON envelopes. A participant announces a robot's capabilities,
  state and skills and executes assignments on a native adapter; a coordinator takes goals, lets a planner make a plan
  for the robots it knows, checks the plan and publishes its assignments in the order of their dependencies. All
  that must survive a restart is kept in SQLite: the coordinator's runs and steps, the participant's
  assignments and outcomes, the leases that allow a coordinator to task a robot, and on the network an outbox,
  an inbox and the last sequence numbers. Components call each other through a bus: in one process the
  in-memory bus, between robots the TLS bus, which puts an outbox and an inbox around the same envelopes.

  THE THEORIES, in the order in which they build on each other.
  \<^item> \<open>Prelude\<close>: exceptions and results (\<open>error\<close>, \<open>res\<close>), Python text, decimal printing, tables as lists of
    rows; \<open>Effects\<close>: computations of the stateful runtimes.
  \<^item> \<open>Json\<close>: values, canonical printing, parsing, and that what is printed is read back.
  \<^item> \<open>Models\<close>, \<open>Robot_Models\<close> (\<open>models.py\<close>): goals, plans, assignments, outcomes, snapshots, manifests and states with
    their decoders and the checks of their constructors. \<open>Py_Equality\<close>: Python's \<open>==\<close> on JSON values, with which the
    in-memory journal compares outcomes.
  \<^item> \<open>Transport\<close> (\<open>transport.py\<close>): envelopes, the codec and \<open>InMemoryBus\<close>.
  \<^item> \<open>Journal\<close>, \<open>Journal_Runs\<close> (\<open>journal.py\<close>): the memory and SQLite journals of a participant, a locale for what they
    share, their histories with restarts.
  \<^item> \<open>Registry\<close> and \<open>Participant\<close>, \<open>Participant_Runs\<close> (\<open>runtime.py\<close>): what is known of peers, the communication
    watchdog, the participant with its handlers, its worker and its histories.
  \<^item> \<open>Authority\<close> (\<open>authority.py\<close>): the store of leases and its audit log.
  \<^item> \<open>Coordinator_Store\<close>, \<open>Store_Runs\<close> (\<open>coordinator_store.py\<close>): the journal of runs and steps and its refinement of
    an abstract board.
  \<^item> \<open>Plan_Validation\<close>, \<open>Coordinator\<close>, \<open>Coordinator_Runs\<close> (\<open>collaboration.py\<close>): \<open>validate_plan\<close>, the coordinator, and its
    histories on a bus that may call it back.
  \<^item> \<open>Outbox\<close>, \<open>Outbox_Runs\<close>, \<open>Inbox\<close> (\<open>delivery.py\<close>): the two durable queues.
  \<^item> \<open>Replay\<close>, \<open>Network_Codec\<close>, \<open>Network_Server\<close>, \<open>Network_Bus\<close> (\<open>network.py\<close>): the two replay protectors with the contract
    they keep, wire formats and configuration, a connection of the server and of the client, the TLS bus.
  \<^item> \<open>Network_Runs\<close>, \<open>Flush\<close>: the sending side along every history of a bus. \<open>Receiver\<close>, \<open>Receiver_Order\<close>: the receiving
    side as a step relation of connection threads, inbox workers, crashes and restarts.

  \<^item> \<open>Coordinator_Service\<close> (\<open>coordinator_node.py\<close>) and \<open>Participant_Service\<close> (\<open>node.py\<close>): the processes around a
    coordinator and a participant, their starts, waits, rounds and closing.
  \<^item> \<open>Integrations\<close> (\<open>integrations/base.py\<close>, \<open>config.py\<close>, \<open>mapped_adapter.py\<close>): what the adapters of other standards share.
    \<open>Ros2\<close>, \<open>Ros2_Runs\<close> (\<open>ros2.py\<close>, \<open>integrations/ros2.py\<close>): the adapter for ROS 2 actions, overlapping executions.
  \<^item> \<open>Inspector\<close>, \<open>Inspector_Runs\<close> (\<open>inspector.py\<close>), \<open>Operations\<close> (\<open>operations.py\<close>, \<open>goal.py\<close>, \<open>planner.py\<close> and
    \<open>network_config.py\<close>), \<open>Diagnostics\<close> (\<open>network_diagnostics.py\<close>): recording and reports.
  \<^item> \<open>Credentials\<close>, \<open>Credential_Runs\<close> (\<open>credentials.py\<close>): the generations of certificates of a robot, their histories.
    \<open>Data_Ops\<close> (\<open>data_ops.py\<close>): backups.
  \<^item> \<open>Conformance\<close> (\<open>conformance.py\<close>): the harness that inspects and exercises an adapter, its evidence. \<open>Deployment\<close>
    (\<open>deployment.py\<close>): the generator of a bundle of configurations and its verification.

  HOW STATE AND OPERATIONS CORRESPOND. A class is a record of its fields, a SQLite table the list of its rows in the
  order of the row ids, a method a function from the state to the new state and the result; a transaction that
  raises leaves the state as it was. Exceptions are values of \<open>error\<close>, in \<open>Inl\<close>. Handlers of the runtimes also
  return what they published or called, in order. Clocks, fresh ids, the planner, the native adapter, the
  schema validator of \<open>jsonschema\<close>, SHA-256 and the network are parameters. Definitions have the name of what they
  model, with a short prefix where two classes share a name (\<open>sj_\<close>, \<open>mj_\<close>, \<open>cs_\<close>, \<open>co_\<close>, \<open>ob_\<close>, \<open>ix_\<close>, \<open>rs_\<close>,
  \<open>rm_\<close>, \<open>nb_\<close>, \<open>cred_\<close>, \<open>ros_\<close>, \<open>ma_\<close>, \<open>dg_\<close>).

  WHAT IS SHOWN. Assignments are accepted and handed to the native adapter at most once, whatever restarts and
  messages come; outcomes and terminal steps do not change; resources are exclusive; nothing is executed without
  authority, and a revoked lease never authorizes again; the coordinator publishes an assignment once and after
  its dependencies, its store refines an abstract board and never dispatches again what a restart interrupted; the
  dependency check accepts exactly the acyclic plans; the codec reads back what it writes; the outbox keeps its capacity and its reserve for safety
  messages; a peer is sent only what its policy discloses and counts as served only when it acknowledged; a
  flush ends within its limit; a receiver hands a message to the workers once and authenticated, and in order as long
  as connections come one by one and the process stops only between them.
  A wait of the coordinator service ends with its timeout; a start of a participant service that fails leaves no
  bus running, and each of its rounds publishes the state; a task of another standard needs the configured
  authority; a certificate is accepted at start-up only when it was validated, and never after its revocation; a
  participant over ROS 2 reports what the action server reported, and cancels the goal that runs; the diagnostics
  predict what the outbox takes; a backup restores what was copied; the conformance harness predicts what a
  participant reports; a generated bundle discloses nothing but states and manifests without capabilities.
  Some theorems state faults of the code: outcomes that lock their resources for ever, runs that a cancelled
  step leaves active, an undecodable publication that blocks the outbox, a resend that loses its message, a
  crash after which a resend overtakes the order of its stream, a terminal outcome that the in-memory journal replaces
  by one that is only equal, a safety message that the inspector drops, an enrolment that deletes the key of another robot, a ROS interface
  with which no action succeeds.

  BOUNDS AND FUEL. The JSON parser takes one unit of fuel for each call and gets the length of the input and one;
  \<open>json_loads_dumps\<close> shows that it suffices for whatever was printed. The search for cycles takes the number of
  steps and one; \<open>cycle_check_exact\<close> shows that it never runs out. The loop of \<open>flush\<close> is a function whose
  measure is what is left to its limit. A waiting loop of the coordinator service takes fuel, one unit for each
  poll, and \<open>completion_wait_ends\<close> shows how much is enough; the loop of a participant service may run for ever and
  takes the number of its rounds. All other recursions are structural.

  NOT MODELLED. Threads, locks and waiting, except as the interleavings of \<open>Receiver\<close> and the callbacks of
  \<open>Coordinator_Runs\<close>; opening, locking and closing files; sockets and the TLS handshake; the limits of the Python
  interpreter on recursion and on the digits of integers; strings with lone surrogates, which the JSON model
  refuses; the rounding of floats, which are carried as their literals and compared as exact decimals (\<open>Py_Equality\<close> rounds them);
  numbers beyond the 64 bits of SQLite in the stores of the journal, the authority and the coordinator (the other
  stores raise for them, \<open>sql_int\<close>); exact texts
  of exceptions, except where a component stores them as a parameter. The command
  line, the lab, benchmarks, the exports of evidence, running a generated bundle and the field by field mappings of other
  standards are not modelled: they parse arguments, print, start processes, or compute with floats and with texts
  of arbitrary values.
\<close>

end
